(* ===== verification/Prelude.thy ===== *)
theory Prelude
  imports Main "HOL-Library.Word"
begin

text \<open>
  Shared ground of the development: names for the machine types of the Go sources,
  the error-and-state monad in which effectful Go functions are written, slices of byte
  sequences with the lemmas on writing inside them, and little-endian byte encodings.

  A Go \<open>[]byte\<close> and a Go \<open>string\<close> are both sequences of bytes, and an
  Isabelle \<open>char\<close> is exactly one byte, so both are \<open>string\<close> here.
\<close>

section \<open>Machine types\<close>

type_synonym byte = char
type_synonym u8 = "8 word"
type_synonym u16 = "16 word"
type_synonym u32 = "32 word"
type_synonym u64 = "64 word"

text \<open>Collections of rewrite rules filled by the component theories.\<close>

named_theorems codec_simps \<open>lengths and round trips of the byte encodings\<close>
named_theorems effect_simps \<open>unfolding of the error-and-state monad\<close>

section \<open>Errors and state\<close>

text \<open>
  A Go function with effects and an \<open>error\<close> result takes the state and returns the
  error or the value, always together with the state it leaves behind: an early return
  keeps the changes made before it.
\<close>

type_synonym ('e, 's, 'a) eff = "'s \<Rightarrow> ('e + 'a) \<times> 's"

definition returnE :: "'a \<Rightarrow> ('e, 's, 'a) eff" where
  "returnE x s = (Inr x, s)"

definition failE :: "'e \<Rightarrow> ('e, 's, 'a) eff" where
  "failE e s = (Inl e, s)"

definition bindE :: "('e, 's, 'a) eff \<Rightarrow> ('a \<Rightarrow> ('e, 's, 'b) eff) \<Rightarrow> ('e, 's, 'b) eff" where
  "bindE m k s = (case m s of (Inl e, s') \<Rightarrow> (Inl e, s') | (Inr x, s') \<Rightarrow> k x s')"

definition thenE :: "('e, 's, 'a) eff \<Rightarrow> ('e, 's, 'b) eff \<Rightarrow> ('e, 's, 'b) eff" where
  "thenE m k = bindE m (\<lambda>_. k)"

definition getE :: "('s \<Rightarrow> 'a) \<Rightarrow> ('e, 's, 'a) eff" where
  "getE f s = (Inr (f s), s)"

definition modifyE :: "('s \<Rightarrow> 's) \<Rightarrow> ('e, 's, unit) eff" where
  "modifyE f s = (Inr (), f s)"

definition whenE :: "bool \<Rightarrow> ('e, 's, unit) eff \<Rightarrow> ('e, 's, unit) eff" where
  "whenE b m = (if b then m else returnE ())"

text \<open>The value of a computation whose error the source drops (\<open>_ = f()\<close>).\<close>

definition ignoreE :: "('e, 's, 'a) eff \<Rightarrow> ('e, 's, unit) eff" where
  "ignoreE m s = (Inr (), snd (m s))"

text \<open>An error wrapped on its way out: \<open>fmt.Errorf("...: %w", err)\<close>.\<close>

definition mapErrE :: "('e \<Rightarrow> 'f) \<Rightarrow> ('e, 's, 'a) eff \<Rightarrow> ('f, 's, 'a) eff" where
  "mapErrE g m s = (case m s of (Inl e, s') \<Rightarrow> (Inl (g e), s') | (Inr x, s') \<Rightarrow> (Inr x, s'))"

fun forE :: "'x list \<Rightarrow> ('x \<Rightarrow> ('e, 's, unit) eff) \<Rightarrow> ('e, 's, unit) eff" where
  "forE [] f = returnE ()"
| "forE (x # xs) f = thenE (f x) (forE xs f)"

text \<open>Running an operation of one field of the state.\<close>

definition liftE ::
  "('s \<Rightarrow> 't) \<Rightarrow> ('t \<Rightarrow> 's \<Rightarrow> 's) \<Rightarrow> ('e, 't, 'a) eff \<Rightarrow> ('e, 's, 'a) eff" where
  "liftE get put m s = (case m (get s) of (r, t) \<Rightarrow> (r, put t s))"

lemmas effect_defs = returnE_def failE_def bindE_def thenE_def getE_def modifyE_def
  whenE_def ignoreE_def mapErrE_def liftE_def

lemma bindE_Inr [effect_simps]: "m s = (Inr x, s') \<Longrightarrow> bindE m k s = k x s'"
  by (simp add: bindE_def)

lemma bindE_Inl [effect_simps]: "m s = (Inl e, s') \<Longrightarrow> bindE m k s = (Inl e, s')"
  by (simp add: bindE_def)

lemma thenE_Inr [effect_simps]: "m s = (Inr x, s') \<Longrightarrow> thenE m k s = k s'"
  by (simp add: thenE_def bindE_def)

lemma thenE_Inl [effect_simps]: "m s = (Inl e, s') \<Longrightarrow> thenE m k s = (Inl e, s')"
  by (simp add: thenE_def bindE_def)

lemma mapErrE_Inr [effect_simps]: "m s = (Inr x, s') \<Longrightarrow> mapErrE g m s = (Inr x, s')"
  by (simp add: mapErrE_def)

lemma mapErrE_Inl [effect_simps]: "m s = (Inl e, s') \<Longrightarrow> mapErrE g m s = (Inl (g e), s')"
  by (simp add: mapErrE_def)

lemma bind_return [simp]: "bindE (returnE x) k = k x"
  by (simp add: fun_eq_iff bindE_def returnE_def)

lemma bind_fail [simp]: "bindE (failE e) k = failE e"
  by (simp add: fun_eq_iff bindE_def failE_def)

lemma bind_get [simp]: "bindE (getE f) k s = k (f s) s"
  by (simp add: bindE_def getE_def)

lemma then_modify [simp]: "thenE (modifyE f) k s = k (f s)"
  by (simp add: thenE_def bindE_def modifyE_def)

lemma bind_modify [simp]: "bindE (modifyE f) k s = k () (f s)"
  by (simp add: bindE_def modifyE_def)

lemma then_return [simp]: "thenE (returnE x) k = k"
  by (simp add: thenE_def)

lemma return_app [simp]: "returnE x s = (Inr x, s)"
  by (simp add: returnE_def)

lemma fail_app [simp]: "failE e s = (Inl e, s)"
  by (simp add: failE_def)

lemma get_app [simp]: "getE f s = (Inr (f s), s)"
  by (simp add: getE_def)

lemma modify_app [simp]: "modifyE f s = (Inr (), f s)"
  by (simp add: modifyE_def)

lemma when_simps [simp]: "whenE True m = m" "whenE False m = returnE ()"
  by (simp_all add: whenE_def)

lemma ignore_app [simp]: "ignoreE m s = (Inr (), snd (m s))"
  by (simp add: ignoreE_def)

text \<open>
  A computation keeps an observation of the state when it never changes it, whether it
  succeeds or fails. The rules below follow the structure of a computation.
\<close>

named_theorems keeps_intros \<open>what a computation does not change\<close>

definition keeps :: "('s \<Rightarrow> 'v) \<Rightarrow> ('e, 's, 'a) eff \<Rightarrow> bool" where
  "keeps g m \<longleftrightarrow> (\<forall>s. g (snd (m s)) = g s)"

lemma keepsD: "keeps g m \<Longrightarrow> m s = (r, s') \<Longrightarrow> g s' = g s"
  unfolding keeps_def by (metis snd_conv)

lemma keeps_return [keeps_intros]: "keeps g (returnE x)"
  by (simp add: keeps_def)

lemma keeps_fail [keeps_intros]: "keeps g (failE e)"
  by (simp add: keeps_def)

lemma keeps_get [keeps_intros]: "keeps g (getE f)"
  by (simp add: keeps_def getE_def)

lemma keeps_modify [keeps_intros]: "(\<And>s. g (f s) = g s) \<Longrightarrow> keeps g (modifyE f)"
  by (simp add: keeps_def)

lemma keeps_bind [keeps_intros]:
  assumes "keeps g m" and "\<And>x. keeps g (k x)"
  shows "keeps g (bindE m k)"
  unfolding keeps_def bindE_def
proof
  fix s
  show "g (snd (case m s of (Inl e, s') \<Rightarrow> (Inl e, s') | (Inr x, s') \<Rightarrow> k x s')) = g s"
    using assms unfolding keeps_def by (auto split: prod.split sum.split) (metis snd_conv)+
qed

lemma keeps_then [keeps_intros]: "keeps g m \<Longrightarrow> keeps g k \<Longrightarrow> keeps g (thenE m k)"
  by (simp add: thenE_def keeps_bind)

lemma keeps_mapErr [keeps_intros]: "keeps g m \<Longrightarrow> keeps g (mapErrE h m)"
  unfolding keeps_def mapErrE_def by (auto split: prod.split sum.split) (metis snd_conv)+

lemma keeps_when [keeps_intros]: "keeps g m \<Longrightarrow> keeps g (whenE b m)"
  by (cases b) (simp_all add: keeps_return)

lemma keeps_if [keeps_intros]: "keeps g m \<Longrightarrow> keeps g n \<Longrightarrow> keeps g (if b then m else n)"
  by simp

lemma keeps_for [keeps_intros]: "(\<And>x. keeps g (f x)) \<Longrightarrow> keeps g (forE xs f)"
  by (induction xs) (simp_all add: keeps_return keeps_then)

lemma keeps_lift [keeps_intros]: "(\<And>t s. g (put t s) = g s) \<Longrightarrow> keeps g (liftE get put m)"
  by (simp add: keeps_def liftE_def case_prod_beta)

section \<open>Slices of byte sequences\<close>

definition slice :: "nat \<Rightarrow> nat \<Rightarrow> 'a list \<Rightarrow> 'a list" where
  "slice o' n xs = take n (drop o' xs)"

text \<open>Overwriting the segment that starts at a position inside a sequence.\<close>

definition splice :: "nat \<Rightarrow> 'a list \<Rightarrow> 'a list \<Rightarrow> 'a list" where
  "splice p ys xs = take p xs @ ys @ drop (p + length ys) xs"

lemma length_slice [simp]: "length (slice p n xs) = min (length xs - p) n"
  by (simp add: slice_def min.commute)

lemma slice_all [simp]: "slice 0 (length xs) xs = xs"
  by (simp add: slice_def)

lemma slice_take: "p + n \<le> k \<Longrightarrow> slice p n (take k xs) = slice p n xs"
  by (simp add: slice_def drop_take min_def)

lemma slice_slice: "p + n \<le> m \<Longrightarrow> slice p n (slice q m xs) = slice (q + p) n xs"
  by (simp add: slice_def drop_take min_def add.commute)

lemma slice_append1: "p + n \<le> length xs \<Longrightarrow> slice p n (xs @ ys) = slice p n xs"
  by (simp add: slice_def)

lemma slice_append2: "length xs \<le> p \<Longrightarrow> slice p n (xs @ ys) = slice (p - length xs) n ys"
  by (simp add: slice_def)

lemma slice_middle: "slice (length xs) (length ys) (xs @ ys @ zs) = ys"
  by (simp add: slice_def)

lemma length_splice [simp]: "p + length ys \<le> length xs \<Longrightarrow> length (splice p ys xs) = length xs"
  by (simp add: splice_def)

lemma nth_slice [simp]: "i < n \<Longrightarrow> p + n \<le> length xs \<Longrightarrow> slice p n xs ! i = xs ! (p + i)"
  by (simp add: slice_def)

lemma nth_splice:
  "p + length ys \<le> length xs \<Longrightarrow> i < length xs \<Longrightarrow>
   splice p ys xs ! i = (if p \<le> i \<and> i < p + length ys then ys ! (i - p) else xs ! i)"
  by (auto simp: splice_def nth_append min_def)

lemma slice_splice_disjoint:
  assumes "q + n \<le> p \<or> p + length ys \<le> q" and "p + length ys \<le> length xs"
  shows "slice q n (splice p ys xs) = slice q n xs"
proof (rule nth_equalityI)
  show "length (slice q n (splice p ys xs)) = length (slice q n xs)"
    using assms(2) by simp
next
  fix i assume "i < length (slice q n (splice p ys xs))"
  with assms(2) have i: "i < n" "q + i < length xs" by auto
  then have "splice p ys xs ! (q + i) = xs ! (q + i)"
    using assms by (auto simp: nth_splice)
  with i assms(2) show "slice q n (splice p ys xs) ! i = slice q n xs ! i"
    by (simp add: slice_def)
qed

lemma slice_splice_inside:
  assumes "q \<le> p" and "p + length ys \<le> q + n" and "q + n \<le> length xs"
  shows "slice q n (splice p ys xs) = splice (p - q) ys (slice q n xs)"
proof (rule nth_equalityI)
  show "length (slice q n (splice p ys xs)) = length (splice (p - q) ys (slice q n xs))"
    using assms by simp
next
  fix i assume "i < length (slice q n (splice p ys xs))"
  with assms have i: "i < n" by simp
  with assms show "slice q n (splice p ys xs) ! i = splice (p - q) ys (slice q n xs) ! i"
    by (auto simp: nth_splice add.commute)
qed

lemma splice_append_left:
  "p + length ys \<le> length a \<Longrightarrow> splice p ys (a @ b) = splice p ys a @ b"
  by (simp add: splice_def)

lemma splice_append_right:
  "length a \<le> p \<Longrightarrow> splice p ys (a @ b) = a @ splice (p - length a) ys b"
  by (simp add: splice_def)

lemma splice_exact: "length ys = length xs \<Longrightarrow> splice 0 ys xs = ys"
  by (simp add: splice_def)

lemma slice_splice_exact:
  "n = length ys \<Longrightarrow> p + n \<le> length xs \<Longrightarrow> slice p n (splice p ys xs) = ys"
  by (simp add: slice_def splice_def)

section \<open>Little-endian byte encodings\<close>

text \<open>
  \<open>encoding/binary\<close> with \<open>LittleEndian\<close>: a k-byte unsigned integer is its k base-256
  digits, least significant first.
\<close>

fun le_enc :: "nat \<Rightarrow> nat \<Rightarrow> string" where
  "le_enc 0 v = []"
| "le_enc (Suc k) v = char_of (v mod 256) # le_enc k (v div 256)"

fun le_dec :: "string \<Rightarrow> nat" where
  "le_dec [] = 0"
| "le_dec (c # cs) = of_char c + 256 * le_dec cs"

lemma length_le_enc [simp, codec_simps]: "length (le_enc k v) = k"
  by (induction k v rule: le_enc.induct) simp_all

lemma le_dec_enc: "le_dec (le_enc k v) = v mod 256 ^ k"
  by (induction k v rule: le_enc.induct) (simp_all add: mod_mult2_eq algebra_simps)

lemma le_enc_dec: "le_enc (length bs) (le_dec bs) = bs"
  by (induction bs) simp_all

lemma le_dec_bound: "le_dec bs < 256 ^ length bs"
proof (induction bs)
  case Nil
  then show ?case by simp
next
  case (Cons c cs)
  have c: "of_char c < (256::nat)" by simp
  from Cons have "le_dec cs + 1 \<le> 256 ^ length cs" by simp
  then have "256 * (le_dec cs + 1) \<le> 256 * 256 ^ length cs" by (rule mult_le_mono2)
  then have "256 * le_dec cs + 256 \<le> 256 ^ length (c # cs)" by (simp only: list.size power_add power_one_right) simp
  with c show ?case unfolding le_dec.simps by linarith
qed

definition put8 :: "u8 \<Rightarrow> string" where "put8 w = le_enc 1 (unat w)"
definition put32 :: "u32 \<Rightarrow> string" where "put32 w = le_enc 4 (unat w)"
definition put64 :: "u64 \<Rightarrow> string" where "put64 w = le_enc 8 (unat w)"

definition get8 :: "string \<Rightarrow> u8" where "get8 bs = of_nat (le_dec bs)"
definition get32 :: "string \<Rightarrow> u32" where "get32 bs = of_nat (le_dec bs)"
definition get64 :: "string \<Rightarrow> u64" where "get64 bs = of_nat (le_dec bs)"

lemma length_put [simp, codec_simps]:
  "length (put8 a) = 1" "length (put32 b) = 4" "length (put64 c) = 8"
  by (simp_all add: put8_def put32_def put64_def)

lemma le_word_roundtrip:
  fixes w :: "'a::len word"
  assumes "LENGTH('a) = 8 * k"
  shows "of_nat (le_dec (le_enc k (unat w))) = w"
proof -
  have "unat w < 2 ^ LENGTH('a)" by (rule unsigned_less)
  also have "(2::nat) ^ LENGTH('a) = 256 ^ k" by (simp add: assms power_mult)
  finally show ?thesis by (simp add: le_dec_enc)
qed

lemma get_put [simp, codec_simps]:
  "get8 (put8 a) = a" "get32 (put32 b) = b" "get64 (put64 c) = c"
  by (simp_all add: get8_def put8_def get32_def put32_def get64_def put64_def le_word_roundtrip
      del: One_nat_def)

lemma le_roundtrip_word:
  fixes w :: "'a::len word"
  assumes "w = of_nat (le_dec bs)" and "length bs = k" and "LENGTH('a) = 8 * k"
  shows "le_enc k (unat w) = bs"
proof -
  have "(256::nat) ^ k = 2 ^ LENGTH('a)" by (simp add: assms power_mult)
  then have "le_dec bs < 2 ^ LENGTH('a)" using le_dec_bound[of bs] by (simp add: assms)
  then have "unat w = le_dec bs" by (simp add: assms unat_of_nat)
  with assms(2) show ?thesis using le_enc_dec[of bs] by simp
qed

lemma put_get [codec_simps]:
  "length bs = 1 \<Longrightarrow> put8 (get8 bs) = bs"
  "length bs = 4 \<Longrightarrow> put32 (get32 bs) = bs"
  "length bs = 8 \<Longrightarrow> put64 (get64 bs) = bs"
  by (simp_all only: put8_def put32_def put64_def)
    (rule le_roundtrip_word; simp add: get8_def get32_def get64_def)+

section \<open>Offsets\<close>

text \<open>
  Offsets are \<open>uint64\<close> in the structures and \<open>int64\<close> in the calls of \<open>os.File\<close>. Both are
  64-bit words here. A position of a file that fits is \<open>of_nat p\<close>.
\<close>

lemma unat_of_nat64 [simp]: "p < 2 ^ 64 \<Longrightarrow> unat (of_nat p :: u64) = p"
  by (simp add: unat_of_nat)

lemma unat_of_nat32 [simp]: "p < 2 ^ 32 \<Longrightarrow> unat (of_nat p :: u32) = p"
  by (simp add: unat_of_nat)

lemma of_nat64_eq_0: "p < 2 ^ 64 \<Longrightarrow> (of_nat p :: u64) = 0 \<longleftrightarrow> p = 0"
  using unat_of_nat64[of p] by (auto simp del: unat_of_nat64)

lemma unat_add64: "unat a + n < 2 ^ 64 \<Longrightarrow> unat (a + of_nat n :: u64) = unat a + n"
  by (simp add: unat_word_ariths unat_of_nat)

end
