(* ===== verification/Codec.thy ===== *)
theory Codec
  imports Prelude
begin

text \<open>
  \<open>pkg/journalfile/types.go\<close>: the on-disk structures of a journal file and their bytes.
  Every structure is a record with the source's fields; \<open>enc_\<close> is \<open>binary.Write\<close> with
  \<open>LittleEndian\<close>, \<open>dec_\<close> is \<open>binary.Read\<close>, and \<open>wf_\<close> says that the byte arrays of the record
  have their declared lengths (the words carry their width in their type). The contract of
  such a pair is the locale \<open>codec\<close>, interpreted on every structure.
\<close>

section \<open>Constants\<close>

definition HeaderSignature :: string where
  "HeaderSignature = ''LPKSHHRH''"

definition ObjectUnused :: u8 where "ObjectUnused = 0"
definition ObjectData :: u8 where "ObjectData = 1"
definition ObjectField :: u8 where "ObjectField = 2"
definition ObjectEntry :: u8 where "ObjectEntry = 3"
definition ObjectDataHashTable :: u8 where "ObjectDataHashTable = 4"
definition ObjectFieldHashTable :: u8 where "ObjectFieldHashTable = 5"
definition ObjectEntryArray :: u8 where "ObjectEntryArray = 6"

lemmas object_types = ObjectUnused_def ObjectData_def ObjectField_def ObjectEntry_def
  ObjectDataHashTable_def ObjectFieldHashTable_def ObjectEntryArray_def

definition HeaderIncompatibleKeyedHash :: u32 where "HeaderIncompatibleKeyedHash = 4"

definition StateOffline :: u8 where "StateOffline = 0"
definition StateOnline :: u8 where "StateOnline = 1"
definition StateArchived :: u8 where "StateArchived = 2"

abbreviation HeaderSize :: nat where "HeaderSize \<equiv> 272"
abbreviation ObjectHeaderSize :: nat where "ObjectHeaderSize \<equiv> 16"
abbreviation HashItemSize :: nat where "HashItemSize \<equiv> 16"
abbreviation DataObjectHeaderSize :: nat where "DataObjectHeaderSize \<equiv> 64"
abbreviation FieldObjectHeaderSize :: nat where "FieldObjectHeaderSize \<equiv> 40"
abbreviation EntryItemSize :: nat where "EntryItemSize \<equiv> 16"
abbreviation EntryObjectHeaderSize :: nat where "EntryObjectHeaderSize \<equiv> 64"
abbreviation EntryArrayObjectHeaderSize :: nat where "EntryArrayObjectHeaderSize \<equiv> 24"

section \<open>Structures\<close>

text \<open>An \<open>ID128\<close> is a string of 16 bytes.\<close>

type_synonym id128 = string

record object_header =
  oh_Type :: u8
  oh_Flags :: u8
  oh_Reserved :: string
  oh_Size :: u64

record header =
  h_Signature :: string
  h_CompatibleFlags :: u32
  h_IncompatibleFlags :: u32
  h_State :: u8
  h_Reserved :: string
  h_FileID :: string
  h_MachineID :: string
  h_TailEntryBootID :: string
  h_SeqnumID :: string
  h_HeaderSize :: u64
  h_ArenaSize :: u64
  h_DataHashTableOffset :: u64
  h_DataHashTableSize :: u64
  h_FieldHashTableOffset :: u64
  h_FieldHashTableSize :: u64
  h_TailObjectOffset :: u64
  h_NObjects :: u64
  h_NEntries :: u64
  h_TailEntrySeqnum :: u64
  h_HeadEntrySeqnum :: u64
  h_EntryArrayOffset :: u64
  h_HeadEntryRealtime :: u64
  h_TailEntryRealtime :: u64
  h_TailEntryMonotonic :: u64
  h_NData :: u64
  h_NFields :: u64
  h_NTags :: u64
  h_NEntryArrays :: u64
  h_DataHashChainDepth :: u64
  h_FieldHashChainDepth :: u64
  h_TailEntryArrayOffset :: u32
  h_TailEntryArrayNEntries :: u32
  h_TailEntryOffset :: u64

record hash_item =
  hi_HeadHashOffset :: u64
  hi_TailHashOffset :: u64

record data_object =
  d_Object :: object_header
  d_Hash :: u64
  d_NextHashOffset :: u64
  d_NextFieldOffset :: u64
  d_EntryOffset :: u64
  d_EntryArrayOffset :: u64
  d_NEntries :: u64

record field_object =
  f_Object :: object_header
  f_Hash :: u64
  f_NextHashOffset :: u64
  f_HeadDataOffset :: u64

record entry_item =
  it_ObjectOffset :: u64
  it_Hash :: u64

record entry_object =
  e_Object :: object_header
  e_Seqnum :: u64
  e_Realtime :: u64
  e_Monotonic :: u64
  e_BootID :: string
  e_XorHash :: u64

record entry_array_object =
  a_Object :: object_header
  a_NextEntryArrayOffset :: u64

record data_entry_info =
  di_EntryOffset :: u64
  di_EntryArrayOffset :: u64
  di_NEntries :: u64

section \<open>Bytes\<close>

definition enc_object_header :: "object_header \<Rightarrow> string" where
  "enc_object_header x =
     put8 (oh_Type x) @ put8 (oh_Flags x) @ oh_Reserved x @ put64 (oh_Size x)"

definition dec_object_header :: "string \<Rightarrow> object_header" where
  "dec_object_header bs = \<lparr>
     oh_Type = get8 (slice 0 1 bs), oh_Flags = get8 (slice 1 1 bs), oh_Reserved = slice 2 6 bs,
     oh_Size = get64 (slice 8 8 bs)\<rparr>"

definition wf_object_header :: "object_header \<Rightarrow> bool" where
  "wf_object_header x = (length (oh_Reserved x) = 6)"

definition enc_header :: "header \<Rightarrow> string" where
  "enc_header x =
     h_Signature x @ put32 (h_CompatibleFlags x) @ put32 (h_IncompatibleFlags x) @
     put8 (h_State x) @ h_Reserved x @ h_FileID x @ h_MachineID x @ h_TailEntryBootID x @
     h_SeqnumID x @ put64 (h_HeaderSize x) @ put64 (h_ArenaSize x) @
     put64 (h_DataHashTableOffset x) @ put64 (h_DataHashTableSize x) @
     put64 (h_FieldHashTableOffset x) @ put64 (h_FieldHashTableSize x) @
     put64 (h_TailObjectOffset x) @ put64 (h_NObjects x) @ put64 (h_NEntries x) @
     put64 (h_TailEntrySeqnum x) @ put64 (h_HeadEntrySeqnum x) @ put64 (h_EntryArrayOffset x) @
     put64 (h_HeadEntryRealtime x) @ put64 (h_TailEntryRealtime x) @
     put64 (h_TailEntryMonotonic x) @ put64 (h_NData x) @ put64 (h_NFields x) @
     put64 (h_NTags x) @ put64 (h_NEntryArrays x) @ put64 (h_DataHashChainDepth x) @
     put64 (h_FieldHashChainDepth x) @ put32 (h_TailEntryArrayOffset x) @
     put32 (h_TailEntryArrayNEntries x) @ put64 (h_TailEntryOffset x)"

definition dec_header :: "string \<Rightarrow> header" where
  "dec_header bs = \<lparr>
     h_Signature = slice 0 8 bs, h_CompatibleFlags = get32 (slice 8 4 bs),
     h_IncompatibleFlags = get32 (slice 12 4 bs), h_State = get8 (slice 16 1 bs),
     h_Reserved = slice 17 7 bs, h_FileID = slice 24 16 bs, h_MachineID = slice 40 16 bs,
     h_TailEntryBootID = slice 56 16 bs, h_SeqnumID = slice 72 16 bs,
     h_HeaderSize = get64 (slice 88 8 bs), h_ArenaSize = get64 (slice 96 8 bs),
     h_DataHashTableOffset = get64 (slice 104 8 bs),
     h_DataHashTableSize = get64 (slice 112 8 bs),
     h_FieldHashTableOffset = get64 (slice 120 8 bs),
     h_FieldHashTableSize = get64 (slice 128 8 bs),
     h_TailObjectOffset = get64 (slice 136 8 bs), h_NObjects = get64 (slice 144 8 bs),
     h_NEntries = get64 (slice 152 8 bs), h_TailEntrySeqnum = get64 (slice 160 8 bs),
     h_HeadEntrySeqnum = get64 (slice 168 8 bs), h_EntryArrayOffset = get64 (slice 176 8 bs),
     h_HeadEntryRealtime = get64 (slice 184 8 bs),
     h_TailEntryRealtime = get64 (slice 192 8 bs),
     h_TailEntryMonotonic = get64 (slice 200 8 bs), h_NData = get64 (slice 208 8 bs),
     h_NFields = get64 (slice 216 8 bs), h_NTags = get64 (slice 224 8 bs),
     h_NEntryArrays = get64 (slice 232 8 bs), h_DataHashChainDepth = get64 (slice 240 8 bs),
     h_FieldHashChainDepth = get64 (slice 248 8 bs),
     h_TailEntryArrayOffset = get32 (slice 256 4 bs),
     h_TailEntryArrayNEntries = get32 (slice 260 4 bs),
     h_TailEntryOffset = get64 (slice 264 8 bs)\<rparr>"

definition wf_header :: "header \<Rightarrow> bool" where
  "wf_header x = (length (h_Signature x) = 8 \<and> length (h_Reserved x) = 7 \<and> length (h_FileID x) = 16 \<and> length (h_MachineID x) = 16 \<and> length (h_TailEntryBootID x) = 16 \<and> length (h_SeqnumID x) = 16)"

definition enc_hash_item :: "hash_item \<Rightarrow> string" where
  "enc_hash_item x =
     put64 (hi_HeadHashOffset x) @ put64 (hi_TailHashOffset x)"

definition dec_hash_item :: "string \<Rightarrow> hash_item" where
  "dec_hash_item bs = \<lparr>
     hi_HeadHashOffset = get64 (slice 0 8 bs), hi_TailHashOffset = get64 (slice 8 8 bs)\<rparr>"

definition wf_hash_item :: "hash_item \<Rightarrow> bool" where
  "wf_hash_item x = (True)"

definition enc_data_object :: "data_object \<Rightarrow> string" where
  "enc_data_object x =
     enc_object_header (d_Object x) @ put64 (d_Hash x) @ put64 (d_NextHashOffset x) @
     put64 (d_NextFieldOffset x) @ put64 (d_EntryOffset x) @ put64 (d_EntryArrayOffset x) @
     put64 (d_NEntries x)"

definition dec_data_object :: "string \<Rightarrow> data_object" where
  "dec_data_object bs = \<lparr>
     d_Object = dec_object_header (slice 0 16 bs), d_Hash = get64 (slice 16 8 bs),
     d_NextHashOffset = get64 (slice 24 8 bs), d_NextFieldOffset = get64 (slice 32 8 bs),
     d_EntryOffset = get64 (slice 40 8 bs), d_EntryArrayOffset = get64 (slice 48 8 bs),
     d_NEntries = get64 (slice 56 8 bs)\<rparr>"

definition wf_data_object :: "data_object \<Rightarrow> bool" where
  "wf_data_object x = (wf_object_header (d_Object x))"

definition enc_field_object :: "field_object \<Rightarrow> string" where
  "enc_field_object x =
     enc_object_header (f_Object x) @ put64 (f_Hash x) @ put64 (f_NextHashOffset x) @
     put64 (f_HeadDataOffset x)"

definition dec_field_object :: "string \<Rightarrow> field_object" where
  "dec_field_object bs = \<lparr>
     f_Object = dec_object_header (slice 0 16 bs), f_Hash = get64 (slice 16 8 bs),
     f_NextHashOffset = get64 (slice 24 8 bs), f_HeadDataOffset = get64 (slice 32 8 bs)\<rparr>"

definition wf_field_object :: "field_object \<Rightarrow> bool" where
  "wf_field_object x = (wf_object_header (f_Object x))"

definition enc_entry_item :: "entry_item \<Rightarrow> string" where
  "enc_entry_item x =
     put64 (it_ObjectOffset x) @ put64 (it_Hash x)"

definition dec_entry_item :: "string \<Rightarrow> entry_item" where
  "dec_entry_item bs = \<lparr>
     it_ObjectOffset = get64 (slice 0 8 bs), it_Hash = get64 (slice 8 8 bs)\<rparr>"

definition wf_entry_item :: "entry_item \<Rightarrow> bool" where
  "wf_entry_item x = (True)"

definition enc_entry_object :: "entry_object \<Rightarrow> string" where
  "enc_entry_object x =
     enc_object_header (e_Object x) @ put64 (e_Seqnum x) @ put64 (e_Realtime x) @
     put64 (e_Monotonic x) @ e_BootID x @ put64 (e_XorHash x)"

definition dec_entry_object :: "string \<Rightarrow> entry_object" where
  "dec_entry_object bs = \<lparr>
     e_Object = dec_object_header (slice 0 16 bs), e_Seqnum = get64 (slice 16 8 bs),
     e_Realtime = get64 (slice 24 8 bs), e_Monotonic = get64 (slice 32 8 bs),
     e_BootID = slice 40 16 bs, e_XorHash = get64 (slice 56 8 bs)\<rparr>"

definition wf_entry_object :: "entry_object \<Rightarrow> bool" where
  "wf_entry_object x = (wf_object_header (e_Object x) \<and> length (e_BootID x) = 16)"

definition enc_entry_array_object :: "entry_array_object \<Rightarrow> string" where
  "enc_entry_array_object x =
     enc_object_header (a_Object x) @ put64 (a_NextEntryArrayOffset x)"

definition dec_entry_array_object :: "string \<Rightarrow> entry_array_object" where
  "dec_entry_array_object bs = \<lparr>
     a_Object = dec_object_header (slice 0 16 bs),
     a_NextEntryArrayOffset = get64 (slice 16 8 bs)\<rparr>"

definition wf_entry_array_object :: "entry_array_object \<Rightarrow> bool" where
  "wf_entry_array_object x = (wf_object_header (a_Object x))"

definition enc_data_entry_info :: "data_entry_info \<Rightarrow> string" where
  "enc_data_entry_info x =
     put64 (di_EntryOffset x) @ put64 (di_EntryArrayOffset x) @ put64 (di_NEntries x)"

definition dec_data_entry_info :: "string \<Rightarrow> data_entry_info" where
  "dec_data_entry_info bs = \<lparr>
     di_EntryOffset = get64 (slice 0 8 bs), di_EntryArrayOffset = get64 (slice 8 8 bs),
     di_NEntries = get64 (slice 16 8 bs)\<rparr>"

definition wf_data_entry_info :: "data_entry_info \<Rightarrow> bool" where
  "wf_data_entry_info x = (True)"

text \<open>Arrays of structures.\<close>

definition enc_list :: "('a \<Rightarrow> string) \<Rightarrow> 'a list \<Rightarrow> string" where
  "enc_list enc xs = concat (List.map enc xs)"

definition dec_list :: "(string \<Rightarrow> 'a) \<Rightarrow> nat \<Rightarrow> nat \<Rightarrow> string \<Rightarrow> 'a list" where
  "dec_list dec sz n bs = List.map (\<lambda>i. dec (slice (i * sz) sz bs)) [0..<n]"

section \<open>The contract of an encoding\<close>

locale codec =
  fixes enc :: "'a \<Rightarrow> string" and dec :: "string \<Rightarrow> 'a" and wf :: "'a \<Rightarrow> bool" and sz :: nat
  assumes length_enc: "wf x \<Longrightarrow> length (enc x) = sz"
    and dec_enc: "wf x \<Longrightarrow> dec (enc x) = x"
    and wf_dec: "length bs = sz \<Longrightarrow> wf (dec bs)"
    and enc_dec: "length bs = sz \<Longrightarrow> enc (dec bs) = bs"
begin

lemma enc_inject: "wf x \<Longrightarrow> wf y \<Longrightarrow> enc x = enc y \<longleftrightarrow> x = y"
  using dec_enc by metis

lemma length_enc_list: "\<forall>x \<in> set xs. wf x \<Longrightarrow> length (enc_list enc xs) = sz * length xs"
  by (induction xs) (simp_all add: enc_list_def length_enc)

lemma slice_enc_list:
  "\<forall>x \<in> set xs. wf x \<Longrightarrow> i < length xs \<Longrightarrow>
   slice (i * sz) sz (enc_list enc xs @ ys) = enc (xs ! i)"
proof (induction xs arbitrary: i)
  case Nil
  then show ?case by simp
next
  case (Cons x xs)
  then have l: "length (enc x) = sz" by (simp add: length_enc)
  show ?case
  proof (cases i)
    case 0
    with l show ?thesis by (simp add: enc_list_def slice_def)
  next
    case (Suc j)
    with l have "slice (i * sz) sz (enc_list enc (x # xs) @ ys) =
      slice (j * sz) sz (enc_list enc xs @ ys)"
      by (simp add: enc_list_def slice_append2)
    with Suc Cons show ?thesis by simp
  qed
qed

lemma dec_list_enc_list:
  assumes "\<forall>x \<in> set xs. wf x"
  shows "dec_list dec sz (length xs) (enc_list enc xs @ ys) = xs"
  using assms by (intro nth_equalityI) (simp_all add: dec_list_def slice_enc_list dec_enc)

lemma dec_list_wf: "n * sz \<le> length bs \<Longrightarrow> \<forall>x \<in> set (dec_list dec sz n bs). wf x"
proof (simp add: dec_list_def, rule ballI)
  fix i assume n: "n * sz \<le> length bs" and "i \<in> {0..<n}"
  then have "Suc i * sz \<le> n * sz" by (intro mult_le_mono1) simp
  with n have "i * sz + sz \<le> length bs" by simp
  then show "wf (dec (slice (i * sz) sz bs))"
    by (intro wf_dec) simp
qed

lemma splice_enc_list:
  "\<forall>x \<in> set xs. wf x \<Longrightarrow> wf y \<Longrightarrow> i < length xs \<Longrightarrow>
   splice (i * sz) (enc y) (enc_list enc xs) = enc_list enc (xs[i := y])"
proof (induction xs arbitrary: i)
  case Nil
  then show ?case by simp
next
  case (Cons x xs)
  then have l: "length (enc x) = sz" "length (enc y) = sz" by (simp_all add: length_enc)
  show ?case
  proof (cases i)
    case 0
    with l show ?thesis by (simp add: enc_list_def splice_append_left splice_exact)
  next
    case (Suc j)
    with l have "splice (i * sz) (enc y) (enc_list enc (x # xs)) =
      enc x @ splice (j * sz) (enc y) (enc_list enc xs)"
      by (simp add: enc_list_def splice_append_right)
    with Suc Cons show ?thesis by (simp add: enc_list_def)
  qed
qed

end

section \<open>The encodings satisfy it\<close>

lemma slice_head [codec_simps]: "n = length xs \<Longrightarrow> slice 0 n (xs @ ys) = xs"
  by (simp add: slice_def)

lemma slice_full [codec_simps]: "n = length xs \<Longrightarrow> slice 0 n xs = xs"
  by (simp add: slice_def)

lemma slice_tail [codec_simps]:
  "p \<noteq> 0 \<Longrightarrow> length xs \<le> p \<Longrightarrow> slice p n (xs @ ys) = slice (p - length xs) n ys"
  by (simp add: slice_append2)

lemma put_get_slice [codec_simps]:
  "p + 1 \<le> length bs \<Longrightarrow> put8 (get8 (slice p (Suc 0) bs)) = slice p (Suc 0) bs"
  "p + 4 \<le> length bs \<Longrightarrow> put32 (get32 (slice p 4 bs)) = slice p 4 bs"
  "p + 8 \<le> length bs \<Longrightarrow> put64 (get64 (slice p 8 bs)) = slice p 8 bs"
  by (simp_all add: put_get)

lemma slice_join: "q = p + n \<Longrightarrow> slice p n xs @ slice q m xs = slice p (n + m) xs"
  by (simp add: slice_def take_add add.commute[of p])

interpretation u64_codec: codec put64 get64 "\<lambda>_. True" 8
  by unfold_locales (simp_all add: put_get)

lemma length_enc_object_header [simp, codec_simps]: "wf_object_header x \<Longrightarrow> length (enc_object_header x) = 16"
  by (simp add: enc_object_header_def wf_object_header_def)

interpretation object_header_codec: codec enc_object_header dec_object_header wf_object_header 16
proof
  fix x :: object_header and bs :: string
  show "wf_object_header x \<Longrightarrow> length (enc_object_header x) = 16" by simp
  show "wf_object_header x \<Longrightarrow> dec_object_header (enc_object_header x) = x"
    by (simp add: enc_object_header_def dec_object_header_def wf_object_header_def codec_simps)
  assume l: "length bs = 16"
  then show "wf_object_header (dec_object_header bs)"
    by (simp add: wf_object_header_def dec_object_header_def)
  have "enc_object_header (dec_object_header bs) =
    slice 0 1 bs @ slice 1 1 bs @ slice 2 6 bs @ slice 8 8 bs"
    using l by (simp add: enc_object_header_def dec_object_header_def codec_simps)
  also have "\<dots> = bs"
    using l by (simp add: slice_join slice_full)
  finally show "enc_object_header (dec_object_header bs) = bs" .
qed

lemma length_enc_header [simp, codec_simps]: "wf_header x \<Longrightarrow> length (enc_header x) = 272"
  by (simp add: enc_header_def wf_header_def)

interpretation header_codec: codec enc_header dec_header wf_header 272
proof
  fix x :: header and bs :: string
  show "wf_header x \<Longrightarrow> length (enc_header x) = 272" by simp
  show "wf_header x \<Longrightarrow> dec_header (enc_header x) = x"
    by (simp add: enc_header_def dec_header_def wf_header_def codec_simps)
  assume l: "length bs = 272"
  then show "wf_header (dec_header bs)"
    by (simp add: wf_header_def dec_header_def)
  have "enc_header (dec_header bs) =
    slice 0 8 bs @ slice 8 4 bs @ slice 12 4 bs @ slice 16 1 bs @ slice 17 7 bs @
    slice 24 16 bs @ slice 40 16 bs @ slice 56 16 bs @ slice 72 16 bs @ slice 88 8 bs @
    slice 96 8 bs @ slice 104 8 bs @ slice 112 8 bs @ slice 120 8 bs @ slice 128 8 bs @
    slice 136 8 bs @ slice 144 8 bs @ slice 152 8 bs @ slice 160 8 bs @ slice 168 8 bs @
    slice 176 8 bs @ slice 184 8 bs @ slice 192 8 bs @ slice 200 8 bs @ slice 208 8 bs @
    slice 216 8 bs @ slice 224 8 bs @ slice 232 8 bs @ slice 240 8 bs @ slice 248 8 bs @
    slice 256 4 bs @ slice 260 4 bs @ slice 264 8 bs"
    using l by (simp add: enc_header_def dec_header_def codec_simps)
  also have "\<dots> = bs"
    using l by (simp add: slice_join slice_full)
  finally show "enc_header (dec_header bs) = bs" .
qed

lemma length_enc_hash_item [simp, codec_simps]: "wf_hash_item x \<Longrightarrow> length (enc_hash_item x) = 16"
  by (simp add: enc_hash_item_def wf_hash_item_def)

interpretation hash_item_codec: codec enc_hash_item dec_hash_item wf_hash_item 16
proof
  fix x :: hash_item and bs :: string
  show "wf_hash_item x \<Longrightarrow> length (enc_hash_item x) = 16" by simp
  show "wf_hash_item x \<Longrightarrow> dec_hash_item (enc_hash_item x) = x"
    by (simp add: enc_hash_item_def dec_hash_item_def wf_hash_item_def codec_simps)
  assume l: "length bs = 16"
  then show "wf_hash_item (dec_hash_item bs)"
    by (simp add: wf_hash_item_def dec_hash_item_def)
  have "enc_hash_item (dec_hash_item bs) =
    slice 0 8 bs @ slice 8 8 bs"
    using l by (simp add: enc_hash_item_def dec_hash_item_def codec_simps)
  also have "\<dots> = bs"
    using l by (simp add: slice_join slice_full)
  finally show "enc_hash_item (dec_hash_item bs) = bs" .
qed

lemma length_enc_data_object [simp, codec_simps]: "wf_data_object x \<Longrightarrow> length (enc_data_object x) = 64"
  by (simp add: enc_data_object_def wf_data_object_def)

interpretation data_object_codec: codec enc_data_object dec_data_object wf_data_object 64
proof
  fix x :: data_object and bs :: string
  show "wf_data_object x \<Longrightarrow> length (enc_data_object x) = 64" by simp
  show "wf_data_object x \<Longrightarrow> dec_data_object (enc_data_object x) = x"
    by (simp add: enc_data_object_def dec_data_object_def wf_data_object_def codec_simps object_header_codec.dec_enc)
  assume l: "length bs = 64"
  then show "wf_data_object (dec_data_object bs)"
    by (simp add: wf_data_object_def dec_data_object_def object_header_codec.wf_dec)
  have "enc_data_object (dec_data_object bs) =
    slice 0 16 bs @ slice 16 8 bs @ slice 24 8 bs @ slice 32 8 bs @ slice 40 8 bs @
    slice 48 8 bs @ slice 56 8 bs"
    using l by (simp add: enc_data_object_def dec_data_object_def codec_simps object_header_codec.enc_dec)
  also have "\<dots> = bs"
    using l by (simp add: slice_join slice_full)
  finally show "enc_data_object (dec_data_object bs) = bs" .
qed

lemma length_enc_field_object [simp, codec_simps]: "wf_field_object x \<Longrightarrow> length (enc_field_object x) = 40"
  by (simp add: enc_field_object_def wf_field_object_def)

interpretation field_object_codec: codec enc_field_object dec_field_object wf_field_object 40
proof
  fix x :: field_object and bs :: string
  show "wf_field_object x \<Longrightarrow> length (enc_field_object x) = 40" by simp
  show "wf_field_object x \<Longrightarrow> dec_field_object (enc_field_object x) = x"
    by (simp add: enc_field_object_def dec_field_object_def wf_field_object_def codec_simps object_header_codec.dec_enc)
  assume l: "length bs = 40"
  then show "wf_field_object (dec_field_object bs)"
    by (simp add: wf_field_object_def dec_field_object_def object_header_codec.wf_dec)
  have "enc_field_object (dec_field_object bs) =
    slice 0 16 bs @ slice 16 8 bs @ slice 24 8 bs @ slice 32 8 bs"
    using l by (simp add: enc_field_object_def dec_field_object_def codec_simps object_header_codec.enc_dec)
  also have "\<dots> = bs"
    using l by (simp add: slice_join slice_full)
  finally show "enc_field_object (dec_field_object bs) = bs" .
qed

lemma length_enc_entry_item [simp, codec_simps]: "wf_entry_item x \<Longrightarrow> length (enc_entry_item x) = 16"
  by (simp add: enc_entry_item_def wf_entry_item_def)

interpretation entry_item_codec: codec enc_entry_item dec_entry_item wf_entry_item 16
proof
  fix x :: entry_item and bs :: string
  show "wf_entry_item x \<Longrightarrow> length (enc_entry_item x) = 16" by simp
  show "wf_entry_item x \<Longrightarrow> dec_entry_item (enc_entry_item x) = x"
    by (simp add: enc_entry_item_def dec_entry_item_def wf_entry_item_def codec_simps)
  assume l: "length bs = 16"
  then show "wf_entry_item (dec_entry_item bs)"
    by (simp add: wf_entry_item_def dec_entry_item_def)
  have "enc_entry_item (dec_entry_item bs) =
    slice 0 8 bs @ slice 8 8 bs"
    using l by (simp add: enc_entry_item_def dec_entry_item_def codec_simps)
  also have "\<dots> = bs"
    using l by (simp add: slice_join slice_full)
  finally show "enc_entry_item (dec_entry_item bs) = bs" .
qed

lemma length_enc_entry_object [simp, codec_simps]: "wf_entry_object x \<Longrightarrow> length (enc_entry_object x) = 64"
  by (simp add: enc_entry_object_def wf_entry_object_def)

interpretation entry_object_codec: codec enc_entry_object dec_entry_object wf_entry_object 64
proof
  fix x :: entry_object and bs :: string
  show "wf_entry_object x \<Longrightarrow> length (enc_entry_object x) = 64" by simp
  show "wf_entry_object x \<Longrightarrow> dec_entry_object (enc_entry_object x) = x"
    by (simp add: enc_entry_object_def dec_entry_object_def wf_entry_object_def codec_simps object_header_codec.dec_enc)
  assume l: "length bs = 64"
  then show "wf_entry_object (dec_entry_object bs)"
    by (simp add: wf_entry_object_def dec_entry_object_def object_header_codec.wf_dec)
  have "enc_entry_object (dec_entry_object bs) =
    slice 0 16 bs @ slice 16 8 bs @ slice 24 8 bs @ slice 32 8 bs @ slice 40 16 bs @
    slice 56 8 bs"
    using l by (simp add: enc_entry_object_def dec_entry_object_def codec_simps object_header_codec.enc_dec)
  also have "\<dots> = bs"
    using l by (simp add: slice_join slice_full)
  finally show "enc_entry_object (dec_entry_object bs) = bs" .
qed

lemma length_enc_entry_array_object [simp, codec_simps]: "wf_entry_array_object x \<Longrightarrow> length (enc_entry_array_object x) = 24"
  by (simp add: enc_entry_array_object_def wf_entry_array_object_def)

interpretation entry_array_object_codec: codec enc_entry_array_object dec_entry_array_object wf_entry_array_object 24
proof
  fix x :: entry_array_object and bs :: string
  show "wf_entry_array_object x \<Longrightarrow> length (enc_entry_array_object x) = 24" by simp
  show "wf_entry_array_object x \<Longrightarrow> dec_entry_array_object (enc_entry_array_object x) = x"
    by (simp add: enc_entry_array_object_def dec_entry_array_object_def wf_entry_array_object_def codec_simps object_header_codec.dec_enc)
  assume l: "length bs = 24"
  then show "wf_entry_array_object (dec_entry_array_object bs)"
    by (simp add: wf_entry_array_object_def dec_entry_array_object_def object_header_codec.wf_dec)
  have "enc_entry_array_object (dec_entry_array_object bs) =
    slice 0 16 bs @ slice 16 8 bs"
    using l by (simp add: enc_entry_array_object_def dec_entry_array_object_def codec_simps object_header_codec.enc_dec)
  also have "\<dots> = bs"
    using l by (simp add: slice_join slice_full)
  finally show "enc_entry_array_object (dec_entry_array_object bs) = bs" .
qed

lemma length_enc_data_entry_info [simp, codec_simps]: "wf_data_entry_info x \<Longrightarrow> length (enc_data_entry_info x) = 24"
  by (simp add: enc_data_entry_info_def wf_data_entry_info_def)

interpretation data_entry_info_codec: codec enc_data_entry_info dec_data_entry_info wf_data_entry_info 24
proof
  fix x :: data_entry_info and bs :: string
  show "wf_data_entry_info x \<Longrightarrow> length (enc_data_entry_info x) = 24" by simp
  show "wf_data_entry_info x \<Longrightarrow> dec_data_entry_info (enc_data_entry_info x) = x"
    by (simp add: enc_data_entry_info_def dec_data_entry_info_def wf_data_entry_info_def codec_simps)
  assume l: "length bs = 24"
  then show "wf_data_entry_info (dec_data_entry_info bs)"
    by (simp add: wf_data_entry_info_def dec_data_entry_info_def)
  have "enc_data_entry_info (dec_data_entry_info bs) =
    slice 0 8 bs @ slice 8 8 bs @ slice 16 8 bs"
    using l by (simp add: enc_data_entry_info_def dec_data_entry_info_def codec_simps)
  also have "\<dots> = bs"
    using l by (simp add: slice_join slice_full)
  finally show "enc_data_entry_info (dec_data_entry_info bs) = bs" .
qed

end
