(* ===== verification/OsFile.thy ===== *)
theory OsFile
  imports Prelude
begin

text \<open>
  The open file (\<open>*os.File\<close>) behind \<open>journal.go\<close> and \<open>reader.go\<close>: its bytes, the offset of the
  descriptor, its advisory lock, and the system calls the sources make. Every call that
  reaches the kernel consumes one entry of \<open>faults\<close>: \<open>None\<close> lets it succeed, \<open>Some k\<close> makes it
  fail, a write after its first \<open>k\<close> bytes. An empty list means that no call fails. Offsets are
  \<open>int64\<close> values in 64-bit words: a word with its top bit set is a negative offset.
\<close>

section \<open>Errors\<close>

datatype jerr =
    OsErr
  | EOF
  | NegOffset
  | InvalidSignature string
  | NoEquals
  | ExpectedType string u8
  | CursorSeqnum
  | CursorMissing string
  | Wrap string jerr
  | Panic string
  | Diverges

text \<open>
  \<open>fmt.Errorf("...: %w", err)\<close>. A run-time panic, or a loop that never ends, passes through
  the error handling of the callers unchanged.
\<close>

fun wrap_err :: "string \<Rightarrow> jerr \<Rightarrow> jerr" where
  "wrap_err msg (Panic p) = Panic p"
| "wrap_err msg Diverges = Diverges"
| "wrap_err msg e = Wrap msg e"

section \<open>The open file\<close>

record disk =
  bytes :: string
  pos :: nat
  locked :: bool
  faults :: "nat option list"

type_synonym 'a io = "(jerr, disk, 'a) eff"

text \<open>Writing past the end leaves a hole of zeros.\<close>

definition overwrite :: "nat \<Rightarrow> string \<Rightarrow> string \<Rightarrow> string" where
  "overwrite p ys xs =
     take p (xs @ replicate (p - length xs) (CHR 0x00)) @ ys @ drop (p + length ys) xs"

definition syscall :: "(nat \<Rightarrow> disk \<Rightarrow> disk) \<Rightarrow> (disk \<Rightarrow> (jerr + 'a) \<times> disk) \<Rightarrow> 'a io" where
  "syscall failing ok d =
     (case faults d of
        [] \<Rightarrow> ok d
      | None # fs \<Rightarrow> ok (d\<lparr>faults := fs\<rparr>)
      | Some k # fs \<Rightarrow> (Inl OsErr, failing k (d\<lparr>faults := fs\<rparr>)))"

definition os_write :: "string \<Rightarrow> unit io" where
  "os_write bs = syscall
     (\<lambda>k d. d\<lparr>bytes := overwrite (pos d) (take k bs) (bytes d), pos := pos d + min k (length bs)\<rparr>)
     (\<lambda>d. (Inr (), d\<lparr>bytes := overwrite (pos d) bs (bytes d), pos := pos d + length bs\<rparr>))"

definition os_write_at :: "string \<Rightarrow> u64 \<Rightarrow> unit io" where
  "os_write_at bs off =
     (if 2 ^ 63 \<le> unat off then failE NegOffset
      else if bs = [] then returnE ()
      else syscall
        (\<lambda>k d. d\<lparr>bytes := overwrite (unat off) (take k bs) (bytes d)\<rparr>)
        (\<lambda>d. (Inr (), d\<lparr>bytes := overwrite (unat off) bs (bytes d)\<rparr>)))"

definition os_read_at :: "u64 \<Rightarrow> nat \<Rightarrow> string io" where
  "os_read_at off n =
     (if 2 ^ 63 \<le> unat off then failE NegOffset
      else if n = 0 then returnE []
      else syscall (\<lambda>_ d. d)
        (\<lambda>d. if unat off + n \<le> length (bytes d) then (Inr (slice (unat off) n (bytes d)), d)
             else (Inl EOF, d)))"

definition os_seek_end :: "u64 io" where
  "os_seek_end = syscall (\<lambda>_ d. d)
     (\<lambda>d. (Inr (of_nat (length (bytes d))), d\<lparr>pos := length (bytes d)\<rparr>))"

definition os_sync :: "unit io" where
  "os_sync = syscall (\<lambda>_ d. d) (\<lambda>d. (Inr (), d))"

definition os_close :: "unit io" where
  "os_close = syscall (\<lambda>_ d. d) (\<lambda>d. (Inr (), d))"

definition os_flock :: "bool \<Rightarrow> unit io" where
  "os_flock b = syscall (\<lambda>_ d. d) (\<lambda>d. (Inr (), d\<lparr>locked := b\<rparr>))"

text \<open>
  \<open>make([]T, n)\<close> for elements of \<open>k\<close> bytes panics above the size the runtime can allocate
  (\<open>maxAlloc\<close>, 2^48 bytes on the 64-bit platforms the program is built for).
\<close>

definition make_slice :: "nat \<Rightarrow> u64 \<Rightarrow> (jerr, 's, nat) eff" where
  "make_slice k n =
     (if k * unat n > 2 ^ 48 then failE (Panic ''makeslice: len out of range'')
      else returnE (unat n))"

section \<open>Calls that succeed\<close>

lemma overwrite_inside:
  "p + length ys \<le> length xs \<Longrightarrow> overwrite p ys xs = splice p ys xs"
  by (simp add: overwrite_def splice_def)

lemma overwrite_end [simp]: "overwrite (length xs) ys xs = xs @ ys"
  by (simp add: overwrite_def)

lemma length_overwrite: "length (overwrite p ys xs) = max (length xs) (p + length ys)"
  by (auto simp: overwrite_def max_def min_def)

lemma syscall_nofault [simp]: "faults d = [] \<Longrightarrow> syscall f ok d = ok d"
  by (simp add: syscall_def)

lemma os_write_end:
  "faults d = [] \<Longrightarrow> pos d = length (bytes d) \<Longrightarrow>
   os_write bs d = (Inr (), d\<lparr>bytes := bytes d @ bs, pos := pos d + length bs\<rparr>)"
  by (simp add: os_write_def)

lemma os_write_at_inside:
  assumes "faults d = []" and "off = of_nat p" and "p + length bs \<le> length (bytes d)"
    and "length (bytes d) < 2 ^ 63"
  shows "os_write_at bs off d = (Inr (), d\<lparr>bytes := splice p bs (bytes d)\<rparr>)"
proof -
  have "unat off = p" using assms by simp
  then show ?thesis
    using assms by (simp add: os_write_at_def overwrite_inside splice_def)
qed

lemma os_read_at_inside:
  assumes "faults d = []" and "off = of_nat p" and "p + n \<le> length (bytes d)"
    and "length (bytes d) < 2 ^ 63"
  shows "os_read_at off n d = (Inr (slice p n (bytes d)), d)"
proof -
  have "unat off = p" using assms by simp
  then show ?thesis using assms by (auto simp: os_read_at_def slice_def)
qed

lemma os_seek_end_ok:
  "faults d = [] \<Longrightarrow>
   os_seek_end d = (Inr (of_nat (length (bytes d))), d\<lparr>pos := length (bytes d)\<rparr>)"
  by (simp add: os_seek_end_def)

lemma make_slice_ok [simp]: "k * unat n \<le> 2 ^ 48 \<Longrightarrow> make_slice k n = returnE (unat n)"
  by (simp add: make_slice_def)

text \<open>A read never changes the bytes of the file, and no call forgets the faults to come.\<close>

lemma os_read_at_bytes [simp]: "bytes (snd (os_read_at off n d)) = bytes d"
  by (auto simp: os_read_at_def syscall_def split: list.split option.split)

lemma os_read_at_length: "fst (os_read_at off n d) = Inr bs \<Longrightarrow> length bs = n"
  by (auto simp: os_read_at_def syscall_def split: list.splits option.splits if_splits)

end
