(* ===== verification/Lookup3.thy ===== *)
theory Lookup3
  imports Prelude
begin

text \<open>
  \<open>pkg/journalfile/lookup3.go\<close>: the Jenkins hash of the journal format, on 32-bit words that
  wrap around. The reference definition \<open>hash_ref\<close> reads whole little-endian words of a
  zero-padded block; the code's switch on the length of the last block is shown equal to it,
  and the two mixing steps are shown to be permutations of the state.
\<close>

unbundle bit_operations_syntax

section \<open>Mixing\<close>

definition rot :: "u32 \<Rightarrow> nat \<Rightarrow> u32" where
  "rot x k = word_rotl k x"

type_synonym hstate = "u32 \<times> u32 \<times> u32"

definition mix :: "hstate \<Rightarrow> hstate" where
  "mix s = (let (a, b, c) = s;
      a = a - c; a = a XOR rot c 4; c = c + b;
      b = b - a; b = b XOR rot a 6; a = a + c;
      c = c - b; c = c XOR rot b 8; b = b + a;
      a = a - c; a = a XOR rot c 16; c = c + b;
      b = b - a; b = b XOR rot a 19; a = a + c;
      c = c - b; c = c XOR rot b 4; b = b + a
    in (a, b, c))"

definition final :: "hstate \<Rightarrow> hstate" where
  "final s = (let (a, b, c) = s;
      c = c XOR b; c = c - rot b 14;
      a = a XOR c; a = a - rot c 11;
      b = b XOR a; b = b - rot a 25;
      c = c XOR b; c = c - rot b 16;
      a = a XOR c; a = a - rot c 4;
      b = b XOR a; b = b - rot a 14;
      c = c XOR b; c = c - rot b 24
    in (a, b, c))"

text \<open>
  Each of the two is one reversible step, repeated with the three words changing places.
\<close>

definition mix_step :: "nat \<Rightarrow> hstate \<Rightarrow> hstate" where
  "mix_step k s = (case s of (a, b, c) \<Rightarrow> (b, c + b, (a - c) XOR rot c k))"

definition unmix_step :: "nat \<Rightarrow> hstate \<Rightarrow> hstate" where
  "unmix_step k s = (case s of (p, q, r) \<Rightarrow>
     (let c = q - p in ((r XOR rot c k) + c, p, c)))"

definition final_step :: "nat \<Rightarrow> hstate \<Rightarrow> hstate" where
  "final_step k s = (case s of (a, b, c) \<Rightarrow> (b, (c XOR b) - rot b k, a))"

definition unfinal_step :: "nat \<Rightarrow> hstate \<Rightarrow> hstate" where
  "unfinal_step k s = (case s of (p, q, r) \<Rightarrow> (r, p, (q + rot p k) XOR p))"

definition unmix :: "hstate \<Rightarrow> hstate" where
  "unmix s = unmix_step 4 (unmix_step 6 (unmix_step 8 (unmix_step 16
     (unmix_step 19 (unmix_step 4 s)))))"

definition unfinal :: "hstate \<Rightarrow> hstate" where
  "unfinal s = (case s of (a, b, c) \<Rightarrow>
     unfinal_step 14 (unfinal_step 11 (unfinal_step 25 (unfinal_step 16
       (unfinal_step 4 (unfinal_step 14 (unfinal_step 24 (b, c, a))))))))"

lemma xor_cancel [simp]: "(x XOR y) XOR y = x" for x y :: "'a::len word"
  by (simp add: xor.assoc)

lemma unmix_mix_step: "unmix_step k (mix_step k s) = s"
  by (cases s) (simp add: mix_step_def unmix_step_def)

lemma mix_unmix_step: "mix_step k (unmix_step k s) = s"
  by (cases s) (simp add: mix_step_def unmix_step_def Let_def)

lemma unfinal_final_step: "unfinal_step k (final_step k s) = s"
  by (cases s) (simp add: final_step_def unfinal_step_def)

lemma final_unfinal_step: "final_step k (unfinal_step k s) = s"
  by (cases s) (simp add: final_step_def unfinal_step_def)

lemma mix_steps:
  "mix s = mix_step 4 (mix_step 19 (mix_step 16 (mix_step 8 (mix_step 6 (mix_step 4 s)))))"
  by (cases s) (simp only: mix_def mix_step_def Let_def prod.case)

lemma final_steps:
  "final s = (case final_step 24 (final_step 14 (final_step 4 (final_step 16
     (final_step 25 (final_step 11 (final_step 14 s)))))) of (b, c, a) \<Rightarrow> (a, b, c))"
  by (cases s) (simp only: final_def final_step_def Let_def prod.case)

lemma unmix_mix: "unmix (mix s) = s"
  by (simp only: unmix_def mix_steps unmix_mix_step)

lemma mix_unmix: "mix (unmix s) = s"
  by (simp only: unmix_def mix_steps mix_unmix_step)

lemma unfinal_final: "unfinal (final s) = s"
  by (simp only: unfinal_def final_steps prod.case_eq_if prod.collapse unfinal_final_step
      fst_conv snd_conv)

lemma final_unfinal: "final (unfinal s) = s"
  by (cases s) (simp only: unfinal_def final_steps final_unfinal_step prod.case)

section \<open>The hash\<close>

definition byte_at :: "string \<Rightarrow> nat \<Rightarrow> u32" where
  "byte_at d i = of_char (d ! i)"

definition word_at :: "string \<Rightarrow> nat \<Rightarrow> u32" where
  "word_at d i = byte_at d i OR push_bit 8 (byte_at d (i + 1)) OR
     push_bit 16 (byte_at d (i + 2)) OR push_bit 24 (byte_at d (i + 3))"

text \<open>The loop over the blocks of 12 bytes that are not the last.\<close>

function chunks12 :: "string \<Rightarrow> hstate \<Rightarrow> string \<times> hstate" where
  "chunks12 d s =
     (if 12 < length d then
        (let (a, b, c) = s in
         chunks12 (drop 12 d) (mix (a + word_at d 0, b + word_at d 4, c + word_at d 8)))
      else (d, s))"
  by pat_completeness auto
termination
  by (relation "measure (\<lambda>(d, s). length d)") auto

declare chunks12.simps [simp del]

text \<open>The switch on the length of the last block, with its groups of cases that fall through.\<close>

definition last_block :: "string \<Rightarrow> hstate \<Rightarrow> hstate" where
  "last_block d s = (let (a, b, c) = s; n = length d in
     if n = 12 then (a + word_at d 0, b + word_at d 4, c + word_at d 8)
     else if n \<in> {9, 10, 11} then
       (let c = (if n = 11 then c + push_bit 16 (byte_at d 10) else c);
            c = (if n \<ge> 10 then c + push_bit 8 (byte_at d 9) else c);
            c = c + byte_at d 8
        in (a + word_at d 0, b + word_at d 4, c))
     else if n = 8 then (a + word_at d 0, b + word_at d 4, c)
     else if n \<in> {5, 6, 7} then
       (let b = (if n = 7 then b + push_bit 16 (byte_at d 6) else b);
            b = (if n \<ge> 6 then b + push_bit 8 (byte_at d 5) else b);
            b = b + byte_at d 4
        in (a + word_at d 0, b, c))
     else if n = 4 then (a + word_at d 0, b, c)
     else
       (let a = (if n = 3 then a + push_bit 16 (byte_at d 2) else a);
            a = (if n \<ge> 2 then a + push_bit 8 (byte_at d 1) else a);
            a = (if n \<ge> 1 then a + byte_at d 0 else a)
        in (a, b, c)))"

definition jenkins_hash_little2 :: "string \<Rightarrow> u32 \<times> u32" where
  "jenkins_hash_little2 data =
     (let a = 0xdeadbeef + of_nat (length data);
          (d, s) = chunks12 data (a, a, a) in
      if d = [] then (case s of (_, b, c) \<Rightarrow> (c, b))
      else (case final (last_block d s) of (_, b, c) \<Rightarrow> (c, b)))"

definition jenkins_hash64 :: "string \<Rightarrow> u64" where
  "jenkins_hash64 data =
     (let (a, b) = jenkins_hash_little2 data in push_bit 32 (ucast a) OR ucast b)"

section \<open>The reference: whole words of a padded block\<close>

definition le_word :: "string \<Rightarrow> u32" where
  "le_word bs = of_nat (le_dec bs)"

definition pad12 :: "string \<Rightarrow> string" where
  "pad12 d = d @ replicate (12 - length d) (CHR 0x00)"

definition add_block :: "string \<Rightarrow> hstate \<Rightarrow> hstate" where
  "add_block d s = (case s of (a, b, c) \<Rightarrow>
     (a + le_word (slice 0 4 d), b + le_word (slice 4 4 d), c + le_word (slice 8 4 d)))"

function hash_ref_loop :: "string \<Rightarrow> hstate \<Rightarrow> hstate" where
  "hash_ref_loop d s =
     (if length d > 12 then hash_ref_loop (drop 12 d) (mix (add_block (take 12 d) s))
      else if d = [] then s else final (add_block (pad12 d) s))"
  by pat_completeness auto
termination
  by (relation "measure (\<lambda>(d, s). length d)") auto

declare hash_ref_loop.simps [simp del]

definition hash_ref :: "string \<Rightarrow> u32 \<times> u32" where
  "hash_ref data =
     (let a = 0xdeadbeef + of_nat (length data) in
      case hash_ref_loop data (a, a, a) of (_, b, c) \<Rightarrow> (c, b))"

text \<open>Or and plus agree on bytes at different places of a word.\<close>

lemma or_shift_add:
  fixes x y :: nat
  assumes "x < 2 ^ k"
  shows "x OR push_bit k y = x + 2 ^ k * y"
proof -
  have "x AND push_bit k y = 0"
  proof (rule bit_eqI)
    fix n
    show "bit (x AND push_bit k y) n = bit (0::nat) n"
    proof (cases "n < k")
      case True
      then show ?thesis by (simp add: bit_and_iff bit_push_bit_iff)
    next
      case False
      with assms have "x < 2 ^ n" by (meson less_le_trans not_le one_le_numeral power_increasing)
      then have "\<not> bit x n" by (simp add: bit_iff_odd)
      then show ?thesis by (simp add: bit_and_iff)
    qed
  qed
  then have "x + push_bit k y = x OR push_bit k y" by (rule disjunctive_add_eq_or)
  then show ?thesis by (simp add: push_bit_eq_mult mult.commute)
qed

lemma le_word_le_dec:
  assumes "a < 256" and "b < 256" and "c < 256" and "d < 256"
  shows "(of_nat a :: u32) OR push_bit 8 (of_nat b) OR push_bit 16 (of_nat c) OR push_bit 24 (of_nat d)
    = of_nat (a + 256 * (b + 256 * (c + 256 * d)))"
proof -
  have cd: "c OR push_bit 8 d = c + 256 * d"
    using or_shift_add[of c 8 d] assms by simp
  have bcd: "b OR push_bit 8 (c + 256 * d) = b + 256 * (c + 256 * d)"
    using or_shift_add[of b 8] assms by simp
  have abcd: "a OR push_bit 8 (b + 256 * (c + 256 * d)) = a + 256 * (b + 256 * (c + 256 * d))"
    using or_shift_add[of a 8] assms by simp
  have "a OR push_bit 8 b OR push_bit 16 c OR push_bit 24 d =
        a OR push_bit 8 (b OR push_bit 8 (c OR push_bit 8 d))"
    by (simp add: push_bit_or push_bit_push_bit)
  then have "a OR push_bit 8 b OR push_bit 16 c OR push_bit 24 d =
        a + 256 * (b + 256 * (c + 256 * d))"
    by (simp only: cd bcd abcd)
  then show ?thesis
    by (simp only: of_nat_push_bit[symmetric] of_nat_or_eq[symmetric])
qed

lemma of_char_word32: "(of_char c :: u32) = of_nat (of_char c)"
  by (simp add: of_char_def)

lemma slice4: "i + 4 \<le> length d \<Longrightarrow> slice i 4 d = [d ! i, d ! (i + 1), d ! (i + 2), d ! (i + 3)]"
  by (rule nth_equalityI) (auto simp: less_Suc_eq numeral_eq_Suc)

lemma word_at_le_word: "i + 4 \<le> length d \<Longrightarrow> word_at d i = le_word (slice i 4 d)"
  unfolding word_at_def byte_at_def of_char_word32 le_word_def
  by (subst le_word_le_dec) (simp_all add: slice4)

text \<open>The last block of the code is the padded block of the reference.\<close>

lemma le_dec_replicate0 [simp]: "le_dec (replicate n (CHR 0x00)) = 0"
  by (induction n) simp_all

lemma le_dec_append0 [simp]: "le_dec (bs @ replicate n (CHR 0x00)) = le_dec bs"
  by (induction bs) simp_all

lemma le_word_append0 [simp]: "le_word (bs @ replicate n (CHR 0x00)) = le_word bs"
  by (simp add: le_word_def)

lemma slice_pad_inside: "i + 4 \<le> length d \<Longrightarrow> slice i 4 (pad12 d) = slice i 4 d"
  by (simp add: pad12_def slice_append1)

lemma slice_pad_tail:
  assumes "i \<le> length d" and "length d < i + 4" and "i \<le> 8"
  shows "slice i 4 (pad12 d) = drop i d @ replicate (4 - (length d - i)) (CHR 0x00)"
  using assms by (simp add: pad12_def slice_def min_def)

lemma slice_pad_zero:
  assumes "length d \<le> i" and "i \<le> 8"
  shows "le_word (slice i 4 (pad12 d)) = 0"
proof -
  have "slice i 4 (pad12 d) = [] @ replicate 4 (CHR 0x00)"
    using assms by (simp add: pad12_def slice_def min_def)
  then show ?thesis using le_word_append0[of "[]" 4] by (simp add: le_word_def)
qed

lemma byte_at_nat: "byte_at d i = of_nat (of_char (d ! i))"
  by (simp add: byte_at_def of_char_word32)

lemma le_word_pad_tail:
  assumes "i \<le> 8" and "i < length d" and "length d < i + 4"
  shows "le_word (slice i 4 (pad12 d)) = le_word (drop i d)"
  using assms by (simp only: slice_pad_tail le_word_append0 less_imp_le)

lemma le_word_drop:
  "length d = i + 1 \<Longrightarrow> le_word (drop i d) = byte_at d i"
  "length d = i + 2 \<Longrightarrow> le_word (drop i d) = byte_at d i + push_bit 8 (byte_at d (i + 1))"
  "length d = i + 3 \<Longrightarrow> le_word (drop i d) =
     byte_at d i + push_bit 8 (byte_at d (i + 1)) + push_bit 16 (byte_at d (i + 2))"
  by (simp_all add: le_word_def byte_at_nat push_bit_of_nat Cons_nth_drop_Suc[symmetric]
      push_bit_eq_mult algebra_simps)

lemma pad_word_1: "i \<le> 8 \<Longrightarrow> length d = i + 1 \<Longrightarrow> le_word (slice i 4 (pad12 d)) = byte_at d i"
  by (simp only: le_word_pad_tail le_word_drop)

lemma pad_word_2:
  "i \<le> 8 \<Longrightarrow> length d = i + 2 \<Longrightarrow>
   le_word (slice i 4 (pad12 d)) = byte_at d i + push_bit 8 (byte_at d (i + 1))"
  by (simp only: le_word_pad_tail le_word_drop)

lemma pad_word_3:
  "i \<le> 8 \<Longrightarrow> length d = i + 3 \<Longrightarrow> le_word (slice i 4 (pad12 d)) =
     byte_at d i + push_bit 8 (byte_at d (i + 1)) + push_bit 16 (byte_at d (i + 2))"
  by (simp only: le_word_pad_tail le_word_drop)

lemmas pad_words = slice_pad_inside slice_pad_zero word_at_le_word pad_word_1 pad_word_2 pad_word_3

lemma last_block_padded:
  assumes "d \<noteq> []" and "length d \<le> 12"
  shows "last_block d s = add_block (pad12 d) s"
proof -
  obtain a b c where s: "s = (a, b, c)" by (cases s)
  from assms have "0 < length d" by simp
  with assms(2) have "length d = 12 \<or> length d = 11 \<or> length d = 10 \<or> length d = 9 \<or>
    length d = 8 \<or> length d = 7 \<or> length d = 6 \<or> length d = 5 \<or> length d = 4 \<or>
    length d = 3 \<or> length d = 2 \<or> length d = 1" by presburger
  then consider "length d = 12" | "length d = 11" | "length d = 10" | "length d = 9"
    | "length d = 8" | "length d = 7" | "length d = 6" | "length d = 5" | "length d = 4"
    | "length d = 3" | "length d = 2" | "length d = 1" by blast
  then show ?thesis
    by cases (simp_all add: s last_block_def add_block_def pad_words algebra_simps numeral_2_eq_2)
qed

lemma add_block_take:
  assumes "12 < length d"
  shows "add_block (take 12 d) (a, b, c) = (a + word_at d 0, b + word_at d 4, c + word_at d 8)"
  using assms by (simp add: add_block_def slice_take word_at_le_word)

lemma hash_ref_chunks:
  "hash_ref_loop d s = (case chunks12 d s of (d', s') \<Rightarrow>
     if d' = [] then s' else final (last_block d' s'))"
proof (induction d s rule: chunks12.induct)
  case (1 d s)
  obtain a b c where s: "s = (a, b, c)" by (cases s)
  show ?case
  proof (cases "12 < length d")
    case True
    let ?s = "mix (a + word_at d 0, b + word_at d 4, c + word_at d 8)"
    have "hash_ref_loop d s = hash_ref_loop (drop 12 d) ?s"
      using True by (subst hash_ref_loop.simps) (simp add: s add_block_take)
    moreover have "chunks12 d s = chunks12 (drop 12 d) ?s"
      using True by (subst chunks12.simps) (simp add: s)
    ultimately show ?thesis using 1[OF True refl s[symmetric] refl] by simp
  next
    case False
    then show ?thesis
      by (subst hash_ref_loop.simps, subst chunks12.simps) (simp add: last_block_padded)
  qed
qed

theorem jenkins_hash_reference: "jenkins_hash_little2 data = hash_ref data"
  by (simp add: jenkins_hash_little2_def hash_ref_def hash_ref_chunks Let_def case_prod_beta)

text \<open>The self test of the reference implementation.\<close>

lemma jenkins_hash_known:
  "jenkins_hash_little2 [] = (0xdeadbeef, 0xdeadbeef)"
  by code_simp

end
