(* ===== verification/GoStrings.thy ===== *)
theory GoStrings
  imports Prelude
begin

text \<open>
  The functions of Go's \<open>strings\<close>, \<open>bytes\<close> and \<open>strconv\<close> packages that the sources call, on
  byte strings, with the round trips between joining and cutting, printing and parsing.
  They are the language's standard library: the component theories build on them.
\<close>

section \<open>Prefixes, suffixes, searching\<close>

definition has_prefix :: "string \<Rightarrow> string \<Rightarrow> bool" where
  "has_prefix s p = (take (length p) s = p)"

definition has_suffix :: "string \<Rightarrow> string \<Rightarrow> bool" where
  "has_suffix s p = (length p \<le> length s \<and> drop (length s - length p) s = p)"

definition cut_prefix :: "string \<Rightarrow> string \<Rightarrow> string option" where
  "cut_prefix s p = (if has_prefix s p then Some (drop (length p) s) else None)"

definition trim_prefix :: "string \<Rightarrow> string \<Rightarrow> string" where
  "trim_prefix s p = (case cut_prefix s p of Some r \<Rightarrow> r | None \<Rightarrow> s)"

definition cut_suffix :: "string \<Rightarrow> string \<Rightarrow> string option" where
  "cut_suffix s p = (if has_suffix s p then Some (take (length s - length p) s) else None)"

definition trim_suffix :: "string \<Rightarrow> string \<Rightarrow> string" where
  "trim_suffix s p = (case cut_suffix s p of Some r \<Rightarrow> r | None \<Rightarrow> s)"

text \<open>\<open>strings.Cut\<close>: the text before and after the first occurrence of the separator.\<close>

fun go_cut :: "string \<Rightarrow> string \<Rightarrow> (string \<times> string) option" where
  "go_cut [] sep = (if sep = [] then Some ([], []) else None)"
| "go_cut (c # cs) sep =
     (if has_prefix (c # cs) sep then Some ([], drop (length sep) (c # cs))
      else map_option (\<lambda>(a, b). (c # a, b)) (go_cut cs sep))"

definition contains_str :: "string \<Rightarrow> string \<Rightarrow> bool" where
  "contains_str s sep = (go_cut s sep \<noteq> None)"

text \<open>\<open>strings.IndexByte\<close>.\<close>

fun index_byte :: "string \<Rightarrow> byte \<Rightarrow> nat option" where
  "index_byte [] c = None"
| "index_byte (x # xs) c = (if x = c then Some 0 else map_option Suc (index_byte xs c))"

lemma has_prefix_append [simp]: "has_prefix (p @ s) p"
  by (simp add: has_prefix_def)

lemma has_prefix_Nil [simp]: "has_prefix s []"
  by (simp add: has_prefix_def)

lemma has_prefixE:
  assumes "has_prefix s p"
  obtains r where "s = p @ r"
  using assms append_take_drop_id[of "length p" s] unfolding has_prefix_def by metis

lemma has_suffix_append [simp]: "has_suffix (s @ p) p"
  by (simp add: has_suffix_def)

lemma cut_prefix_append [simp]: "cut_prefix (p @ s) p = Some s"
  by (simp add: cut_prefix_def)

lemma cut_prefix_Some_iff: "cut_prefix s p = Some r \<longleftrightarrow> s = p @ r"
  by (auto simp: cut_prefix_def elim: has_prefixE)

lemma trim_suffix_append [simp]: "trim_suffix (s @ p) p = s"
  by (simp add: trim_suffix_def cut_suffix_def)

lemma trim_suffix_noop: "\<not> has_suffix s p \<Longrightarrow> trim_suffix s p = s"
  by (simp add: trim_suffix_def cut_suffix_def)

lemma has_prefix_single: "has_prefix (c # cs) [x] \<longleftrightarrow> c = x"
  by (simp add: has_prefix_def)

lemma go_cut_recompose: "go_cut s sep = Some (a, b) \<Longrightarrow> s = a @ sep @ b"
proof (induction s arbitrary: a)
  case Nil
  then show ?case by (simp split: if_splits)
next
  case (Cons c cs)
  show ?case
  proof (cases "has_prefix (c # cs) sep")
    case True
    with Cons.prems have ab: "a = []" "b = drop (length sep) (c # cs)" by simp_all
    from True obtain r where "c # cs = sep @ r" by (metis has_prefixE)
    with ab show ?thesis by simp
  next
    case False
    with Cons.prems obtain a' where "go_cut cs sep = Some (a', b)" "a = c # a'"
      by (auto split: if_splits)
    with Cons.IH show ?thesis by simp
  qed
qed

lemma go_cut_length: "go_cut s sep = Some (a, b) \<Longrightarrow> length b \<le> length s"
  by (drule go_cut_recompose) simp

lemma go_cut_single: "x \<notin> set a \<Longrightarrow> go_cut (a @ x # b) [x] = Some (a, b)"
  by (induction a) (auto simp: has_prefix_single)

lemma go_cut_single_None: "go_cut s [x] = None \<longleftrightarrow> x \<notin> set s"
  by (induction s) (auto simp: has_prefix_single)

lemma go_cut_single_notin: "go_cut s [x] = Some (a, b) \<Longrightarrow> x \<notin> set a"
  by (induction s arbitrary: a) (auto simp: has_prefix_single split: if_splits)

lemma go_cut_single_iff: "go_cut s [x] = Some (a, b) \<longleftrightarrow> s = a @ x # b \<and> x \<notin> set a"
  using go_cut_recompose[of s "[x]" a b] go_cut_single_notin[of s x a b] go_cut_single[of x a b]
  by auto

section \<open>Splitting, joining, replacing\<close>

text \<open>\<open>strings.Split\<close> and \<open>SplitSeq\<close> for a non-empty separator.\<close>

function go_split :: "string \<Rightarrow> string \<Rightarrow> string list" where
  "go_split s sep =
     (if sep = [] then [s]
      else case go_cut s sep of None \<Rightarrow> [s] | Some (a, b) \<Rightarrow> a # go_split b sep)"
  by pat_completeness auto
termination
  by (relation "measure (\<lambda>(s, sep). length s)") (auto dest: go_cut_recompose)

declare go_split.simps [simp del]

fun go_join :: "string list \<Rightarrow> string \<Rightarrow> string" where
  "go_join [] sep = []"
| "go_join [s] sep = s"
| "go_join (s # t # ss) sep = s @ sep @ go_join (t # ss) sep"

text \<open>\<open>strings.ReplaceAll\<close> for a non-empty old text.\<close>

definition replace_all :: "string \<Rightarrow> string \<Rightarrow> string \<Rightarrow> string" where
  "replace_all s old new = go_join (go_split s old) new"

lemma go_split_not_Nil [simp]: "go_split s sep \<noteq> []"
  by (subst go_split.simps) (auto split: option.splits)

lemma go_join_Cons: "ss \<noteq> [] \<Longrightarrow> go_join (s # ss) sep = s @ sep @ go_join ss sep"
  by (cases ss) simp_all

lemma go_join_split: "go_join (go_split s sep) sep = s"
proof (induction s sep rule: go_split.induct)
  case (1 s sep)
  show ?case
  proof (cases "sep = []")
    case True
    then show ?thesis by (simp add: go_split.simps)
  next
    case False
    show ?thesis
    proof (cases "go_cut s sep")
      case None
      with False show ?thesis by (simp add: go_split.simps)
    next
      case (Some ab)
      obtain a b where ab: "ab = (a, b)" by force
      with Some False 1 have "go_join (go_split b sep) sep = b" by simp
      moreover have "go_split s sep = a # go_split b sep"
        using Some ab False by (subst go_split.simps) simp
      ultimately show ?thesis
        using go_cut_recompose[of s sep a b] Some ab by (simp add: go_join_Cons)
    qed
  qed
qed

lemma go_split_single_Cons:
  "x \<notin> set a \<Longrightarrow> go_split (a @ x # b) [x] = a # go_split b [x]"
  by (subst go_split.simps) (simp add: go_cut_single)

lemma go_split_single_noop: "x \<notin> set s \<Longrightarrow> go_split s [x] = [s]"
  using go_cut_single_None[of s x] by (subst go_split.simps) simp

lemma go_split_join:
  "ss \<noteq> [] \<Longrightarrow> \<forall>s \<in> set ss. x \<notin> set s \<Longrightarrow> go_split (go_join ss [x]) [x] = ss"
proof (induction ss rule: induct_list012)
  case 1
  then show ?case by simp
next
  case (2 s)
  then show ?case by (simp add: go_split_single_noop)
next
  case (3 s t ss)
  then show ?case by (simp add: go_split_single_Cons)
qed

lemma go_split_single_notin: "t \<in> set (go_split s [x]) \<Longrightarrow> x \<notin> set t"
proof (induction s "[x]" rule: go_split.induct)
  case (1 s)
  show ?case
  proof (cases "go_cut s [x]")
    case None
    with "1.prems" show ?thesis by (subst (asm) go_split.simps) (simp add: go_cut_single_None)
  next
    case (Some ab)
    obtain a b where ab: "ab = (a, b)" by force
    with Some "1.prems" have "t = a \<or> t \<in> set (go_split b [x])"
      by (subst (asm) go_split.simps) simp
    with Some ab "1.hyps" show ?thesis by (auto dest: go_cut_single_notin)
  qed
qed

text \<open>Cutting and splitting under more input.\<close>

lemma has_prefix_more: "has_prefix s p \<Longrightarrow> has_prefix (s @ t) p"
  by (auto elim!: has_prefixE)

lemma drop_has_prefix: "has_prefix s p \<Longrightarrow> drop (length p) (s @ t) = drop (length p) s @ t"
  by (auto elim!: has_prefixE)

lemma go_cut_more: "go_cut s sep = Some (a, b) \<Longrightarrow> go_cut (s @ t) sep = Some (a, b @ t)"
proof (induction s arbitrary: a)
  case Nil
  then show ?case by (cases t) (auto split: if_splits)
next
  case (Cons c cs)
  show ?case
  proof (cases "has_prefix (c # cs) sep")
    case True
    with Cons.prems have ab: "a = []" "b = drop (length sep) (c # cs)" by simp_all
    with has_prefix_more[OF True, of t] drop_has_prefix[OF True, of t] show ?thesis by simp
  next
    case False
    with Cons.prems obtain a' where a': "go_cut cs sep = Some (a', b)" "a = c # a'"
      by (auto split: if_splits)
    have "\<not> has_prefix ((c # cs) @ t) sep"
    proof
      assume "has_prefix ((c # cs) @ t) sep"
      moreover have "length sep \<le> length (c # cs)" using go_cut_recompose[OF a'(1)] by simp
      ultimately show False
        using False take_append[of "length sep" "c # cs" t] by (simp add: has_prefix_def)
    qed
    with Cons.IH[OF a'(1)] a'(2) show ?thesis by simp
  qed
qed

lemma go_split_some: "sep \<noteq> [] \<Longrightarrow> go_cut s sep = Some (a, b) \<Longrightarrow> go_split s sep = a # go_split b sep"
  by (subst go_split.simps) simp

lemma go_split_none: "go_cut s sep = None \<Longrightarrow> go_split s sep = [s]"
  by (subst go_split.simps) simp

lemma go_split_more:
  assumes "sep \<noteq> []"
  shows "go_split (s @ t) sep = butlast (go_split s sep) @ go_split (last (go_split s sep) @ t) sep"
  using assms
proof (induction s sep rule: go_split.induct)
  case (1 s sep)
  show ?case
  proof (cases "go_cut s sep")
    case None
    then show ?thesis by (simp add: go_split_none)
  next
    case (Some ab)
    obtain a b where ab: "ab = (a, b)" by force
    with Some have c: "go_cut s sep = Some (a, b)" by simp
    with "1.IH"[OF "1.prems" Some ab[symmetric] "1.prems"] "1.prems" show ?thesis
      by (simp add: go_split_some go_cut_more)
  qed
qed

lemma go_split_last: "sep \<noteq> [] \<Longrightarrow> go_split (last (go_split s sep)) sep = [last (go_split s sep)]"
proof (induction s sep rule: go_split.induct)
  case (1 s sep)
  show ?case
  proof (cases "go_cut s sep")
    case None
    then show ?thesis by (simp add: go_split_none)
  next
    case (Some ab)
    obtain a b where ab: "ab = (a, b)" by force
    with Some have c: "go_cut s sep = Some (a, b)" by simp
    with "1.IH"[OF "1.prems" Some ab[symmetric] "1.prems"] "1.prems" show ?thesis
      by (simp add: go_split_some)
  qed
qed

section \<open>White space\<close>

definition is_space :: "byte \<Rightarrow> bool" where
  "is_space c = (c \<in> {CHR 0x20, CHR 0x09, CHR 0x0A, CHR 0x0B, CHR 0x0C, CHR 0x0D})"

text \<open>\<open>strings.TrimSpace\<close> on ASCII text.\<close>

definition trim_space :: "string \<Rightarrow> string" where
  "trim_space s = rev (dropWhile is_space (rev (dropWhile is_space s)))"

text \<open>\<open>strings.Fields\<close> on ASCII text.\<close>

function go_fields :: "string \<Rightarrow> string list" where
  "go_fields s =
     (let t = dropWhile is_space s in
      if t = [] then []
      else takeWhile (\<lambda>c. \<not> is_space c) t # go_fields (dropWhile (\<lambda>c. \<not> is_space c) t))"
  by pat_completeness auto
termination
proof (relation "measure length", simp)
  fix s x assume x: "x = dropWhile is_space s" "x \<noteq> []"
  then have "\<not> is_space (hd x)" using hd_dropWhile by blast
  then have "length (dropWhile (\<lambda>c. \<not> is_space c) x) < length x"
    using x(2) by (cases x) (auto simp: le_imp_less_Suc length_dropWhile_le)
  also have "length x \<le> length s" using x(1) by (simp add: length_dropWhile_le)
  finally show "(dropWhile (\<lambda>c. \<not> is_space c) x, s) \<in> measure length" by simp
qed

declare go_fields.simps [simp del]

text \<open>
  \<open>bufio.Scanner\<close> over lines: a carriage return before the newline is dropped, a last line needs
  no newline, and a line too long for the buffer of 64 KiB ends the scan.
\<close>

definition drop_cr :: "string \<Rightarrow> string" where
  "drop_cr l = (if l \<noteq> [] \<and> last l = CHR 0x0D then butlast l else l)"

definition scan_lines :: "string \<Rightarrow> string list" where
  "scan_lines s =
     (let ls = go_split s [CHR 0x0A]; ls = (if last ls = [] then butlast ls else ls) in
      List.map drop_cr (takeWhile (\<lambda>l. length l < 65536) ls))"

section \<open>Numbers\<close>

definition digit_char :: "nat \<Rightarrow> byte" where
  "digit_char d = char_of (if d < 10 then 48 + d else 87 + d)"

function itoa_base :: "nat \<Rightarrow> nat \<Rightarrow> string" where
  "itoa_base b n =
     (if n < b \<or> b < 2 then [digit_char n] else itoa_base b (n div b) @ [digit_char (n mod b)])"
  by pat_completeness auto
termination
  by (relation "measure snd") auto

declare itoa_base.simps [simp del]

text \<open>\<open>strconv.FormatUint\<close> in base 10 (\<open>%d\<close> on an unsigned value).\<close>

definition format_uint :: "nat \<Rightarrow> string" where
  "format_uint n = itoa_base 10 n"

text \<open>\<open>strconv.Itoa\<close> (\<open>%d\<close> on a signed value).\<close>

definition itoa :: "int \<Rightarrow> string" where
  "itoa i = (if i < 0 then CHR ''-'' # format_uint (nat (- i)) else format_uint (nat i))"

text \<open>\<open>%x\<close> on a byte string: two lower-case digits a byte.\<close>

definition hex_byte :: "byte \<Rightarrow> string" where
  "hex_byte c = [digit_char (of_char c div 16), digit_char (of_char c mod 16)]"

definition hex_string :: "string \<Rightarrow> string" where
  "hex_string s = concat (List.map hex_byte s)"

definition digit_val :: "byte \<Rightarrow> nat option" where
  "digit_val c = (let n = of_char c in if 48 \<le> n \<and> n \<le> (57::nat) then Some (n - 48) else None)"

fun parse_digits :: "nat \<Rightarrow> string \<Rightarrow> nat option" where
  "parse_digits acc [] = Some acc"
| "parse_digits acc (c # cs) =
     (case digit_val c of None \<Rightarrow> None | Some d \<Rightarrow> parse_digits (10 * acc + d) cs)"

text \<open>
  \<open>strconv.ParseUint(s, 10, bits)\<close>: no sign, no empty text, and a range error above the width.
\<close>

definition parse_uint :: "nat \<Rightarrow> string \<Rightarrow> nat option" where
  "parse_uint bits s =
     (if s = [] then None
      else case parse_digits 0 s of
        None \<Rightarrow> None
      | Some n \<Rightarrow> if n < 2 ^ bits then Some n else None)"

text \<open>
  The number \<open>ParseUint\<close> returns beside its error: the largest one as soon as the digits exceed it,
  and 0 where a digit was expected.
\<close>

fun clamp_digits :: "nat \<Rightarrow> nat \<Rightarrow> string \<Rightarrow> nat" where
  "clamp_digits mx acc [] = acc"
| "clamp_digits mx acc (c # cs) =
     (case digit_val c of
        None \<Rightarrow> 0
      | Some d \<Rightarrow> if 10 * acc + d > mx then mx else clamp_digits mx (10 * acc + d) cs)"

definition parse_uint_value :: "nat \<Rightarrow> string \<Rightarrow> nat" where
  "parse_uint_value bits s = clamp_digits (2 ^ bits - 1) 0 s"

text \<open>\<open>strconv.ParseInt(s, 10, 64)\<close> and \<open>Atoi\<close>: an optional sign, then digits.\<close>

definition parse_int :: "string \<Rightarrow> int option" where
  "parse_int s =
     (let (neg, t) = (case s of [] \<Rightarrow> (False, []) | c # cs \<Rightarrow>
        if c = CHR ''-'' then (True, cs) else if c = CHR ''+'' then (False, cs) else (False, s)) in
      if t = [] then None
      else case parse_digits 0 t of
        None \<Rightarrow> None
      | Some n \<Rightarrow>
          if neg then (if n \<le> 2 ^ 63 then Some (- int n) else None)
          else (if n < 2 ^ 63 then Some (int n) else None))"

definition parse_int_value :: "string \<Rightarrow> int" where
  "parse_int_value s =
     (let (neg, t) = (case s of [] \<Rightarrow> (False, []) | c # cs \<Rightarrow>
        if c = CHR ''-'' then (True, cs) else if c = CHR ''+'' then (False, cs) else (False, s));
        n = parse_uint_value 64 t
      in if neg then - int (min n (2 ^ 63)) else int (min n (2 ^ 63 - 1)))"

lemma of_char_digit: "d < 10 \<Longrightarrow> of_char (digit_char d) = (48 + d :: nat)"
  by (simp add: digit_char_def)

lemma digit_val_digit [simp]: "d < 10 \<Longrightarrow> digit_val (digit_char d) = Some d"
  by (simp add: digit_val_def of_char_digit)

lemma parse_digits_append:
  "parse_digits acc (s @ t) =
     (case parse_digits acc s of None \<Rightarrow> None | Some n \<Rightarrow> parse_digits n t)"
  by (induction acc s rule: parse_digits.induct) (auto split: option.splits)

lemma itoa_base_not_Nil [simp]: "itoa_base b n \<noteq> []"
  by (subst itoa_base.simps) simp

lemma parse_digits_itoa: "parse_digits 0 (itoa_base 10 n) = Some n"
proof (induction "10::nat" n rule: itoa_base.induct)
  case (1 n)
  show ?case
  proof (cases "n < 10")
    case True
    then show ?thesis by (simp add: itoa_base.simps)
  next
    case False
    with 1 have "parse_digits 0 (itoa_base 10 (n div 10)) = Some (n div 10)" by simp
    with False show ?thesis by (subst itoa_base.simps) (simp add: parse_digits_append)
  qed
qed

lemma parse_uint_format: "n < 2 ^ bits \<Longrightarrow> parse_uint bits (format_uint n) = Some n"
  by (simp add: parse_uint_def format_uint_def parse_digits_itoa)

lemma itoa_base_digits: "\<forall>c \<in> set (itoa_base 10 n). \<exists>d < 10. c = digit_char d"
proof (induction "10::nat" n rule: itoa_base.induct)
  case (1 n)
  have "\<exists>d < 10. digit_char (n mod 10) = digit_char d"
    by (rule exI[of _ "n mod 10"]) simp
  with 1 show ?case by (subst itoa_base.simps) auto
qed

lemma digit_char_neq: "d < 10 \<Longrightarrow> of_char c < (48::nat) \<or> 57 < (of_char c :: nat) \<Longrightarrow> digit_char d \<noteq> c"
  using of_char_digit[of d] by auto

lemma format_uint_notin:
  "of_char c < (48::nat) \<or> 57 < (of_char c :: nat) \<Longrightarrow> c \<notin> set (format_uint n)"
  using itoa_base_digits[of n] digit_char_neq unfolding format_uint_def by fastforce

lemma parse_int_itoa:
  assumes "- (2 ^ 63) \<le> i" and "i < 2 ^ 63"
  shows "parse_int (itoa i) = Some i"
proof (cases "i < 0")
  case True
  then have "parse_digits 0 (format_uint (nat (- i))) = Some (nat (- i))"
    by (simp add: format_uint_def parse_digits_itoa)
  moreover have "format_uint (nat (- i)) \<noteq> []" by (simp add: format_uint_def)
  ultimately show ?thesis using True assms by (simp add: itoa_def parse_int_def nat_le_iff)
next
  case False
  then obtain c cs where c: "format_uint (nat i) = c # cs"
    by (cases "format_uint (nat i)") (auto simp: format_uint_def)
  have "c \<noteq> CHR ''-''" "c \<noteq> CHR ''+''"
    using format_uint_notin[of "CHR ''-''" "nat i"] format_uint_notin[of "CHR ''+''" "nat i"] c
    by auto
  moreover have "parse_digits 0 (c # cs) = Some (nat i)"
    using parse_digits_itoa[of "nat i"] c by (simp add: format_uint_def)
  ultimately show ?thesis using False assms c
    by (simp add: itoa_def parse_int_def nat_less_iff)
qed

lemma clamp_digits_fits: "parse_digits acc s = Some n \<Longrightarrow> n \<le> mx \<Longrightarrow> clamp_digits mx acc s = n"
proof (induction s arbitrary: acc)
  case Nil
  then show ?case by simp
next
  case (Cons c cs)
  then obtain d where d: "digit_val c = Some d" "parse_digits (10 * acc + d) cs = Some n"
    by (auto split: option.splits)
  have "acc' \<le> m" if "parse_digits acc' cs = Some m" for acc' m
    using that by (induction cs arbitrary: acc') (fastforce split: option.splits)+
  from this[OF d(2)] Cons.prems(2) Cons.IH[OF d(2)] d(1) show ?case by simp
qed

lemma parse_uint_value_format: "n < 2 ^ bits \<Longrightarrow> parse_uint_value bits (format_uint n) = n"
  by (simp add: parse_uint_value_def format_uint_def clamp_digits_fits[OF parse_digits_itoa])

lemma parse_int_value_itoa:
  assumes "- (2 ^ 63) \<le> i" and "i < 2 ^ 63"
  shows "parse_int_value (itoa i) = i"
proof (cases "i < 0")
  case True
  have "parse_uint_value 64 (format_uint (nat (- i))) = nat (- i)"
    using True assms by (intro parse_uint_value_format) (simp add: nat_less_iff)
  then show ?thesis using True assms by (simp add: itoa_def parse_int_value_def min_def nat_le_iff)
next
  case False
  then obtain c cs where c: "format_uint (nat i) = c # cs"
    by (cases "format_uint (nat i)") (auto simp: format_uint_def)
  have n: "c \<noteq> CHR ''-''" "c \<noteq> CHR ''+''"
    using format_uint_notin[of "CHR ''-''" "nat i"] format_uint_notin[of "CHR ''+''" "nat i"] c
    by auto
  have "parse_uint_value 64 (format_uint (nat i)) = nat i"
    using False assms by (intro parse_uint_value_format) (simp add: nat_less_iff)
  then show ?thesis using False assms c n
    by (simp add: itoa_def parse_int_value_def min_def nat_le_iff)
qed

end
