(* ===== verification/JournalWriter.thy ===== *)
theory JournalWriter
  imports Codec OsFile Lookup3 GoStrings
begin

text \<open>
  \<open>pkg/journalfile/journal.go\<close>: the writer of a journal file. The state of a \<open>*File\<close> is the
  record \<open>jfile\<close>; every method is an effectful function of it, in the order of the source, with
  every system call, every early return and every update of the in-memory header.

  Parameters: \<open>sip\<close> is \<open>siphash.Hash\<close> of github.com/dchest/siphash; the random identifiers and
  the current time are arguments; the order in which Go walks a map of fields is the order of
  the list of fields. The process-local mutex is not modelled: a method is one atomic step of
  its process.
\<close>

section \<open>State\<close>

definition DefaultDataHashTableSize :: nat where "DefaultDataHashTableSize = 2047"
definition DefaultFieldHashTableSize :: nat where "DefaultFieldHashTableSize = 333"

record jfile =
  jf_f :: disk
  jf_path :: string
  jf_header :: header
  jf_machineID :: id128
  jf_bootID :: id128
  jf_dataHashTable :: "hash_item list"
  jf_fieldHashTable :: "hash_item list"
  jf_dataCache :: "u64 \<Rightarrow> u64 option"
  jf_fieldCache :: "u64 \<Rightarrow> u64 option"
  jf_dirty :: bool

type_synonym 'a jio = "(jerr, jfile, 'a) eff"
type_synonym siphash = "u64 \<Rightarrow> u64 \<Rightarrow> string \<Rightarrow> u64"

definition SipHash24 :: "siphash \<Rightarrow> string \<Rightarrow> id128 \<Rightarrow> u64" where
  "SipHash24 sip data key = sip (get64 (slice 0 8 key)) (get64 (slice 8 8 key)) data"

definition on_disk :: "'a io \<Rightarrow> 'a jio" where
  "on_disk m = liftE jf_f (\<lambda>d s. s\<lparr>jf_f := d\<rparr>) m"

definition set_header :: "(header \<Rightarrow> header) \<Rightarrow> unit jio" where
  "set_header g = modifyE (\<lambda>s. s\<lparr>jf_header := g (jf_header s)\<rparr>)"

definition zero_hash_item :: hash_item where
  "zero_hash_item = \<lparr>hi_HeadHashOffset = 0, hi_TailHashOffset = 0\<rparr>"

definition zero_header :: header where
  "zero_header = dec_header (replicate HeaderSize (CHR 0x00))"

definition object_hdr :: "u8 \<Rightarrow> u64 \<Rightarrow> object_header" where
  "object_hdr t sz = \<lparr>oh_Type = t, oh_Flags = 0, oh_Reserved = replicate 6 (CHR 0x00), oh_Size = sz\<rparr>"

section \<open>Positioned access\<close>

unbundle bit_operations_syntax

definition align64 :: "u64 \<Rightarrow> u64" where
  "align64 n = (n + 7) AND NOT 7"

definition writeAt :: "u64 \<Rightarrow> string \<Rightarrow> unit jio" where
  "writeAt off bs = on_disk (os_write_at bs off)"

definition readAt :: "u64 \<Rightarrow> nat \<Rightarrow> string jio" where
  "readAt off n = on_disk (os_read_at off n)"

text \<open>The end of the file, padded to a multiple of 8; the code repeats this in every method
  that appends an object.\<close>

definition alignedEnd :: "u64 jio" where
  "alignedEnd = bindE (on_disk os_seek_end) (\<lambda>offset.
     let alignedOffset = align64 offset in
     if alignedOffset \<noteq> offset then
       thenE (on_disk (os_write (replicate (unat (alignedOffset - offset)) (CHR 0x00))))
         (returnE alignedOffset)
     else returnE offset)"

definition syncHeader :: "unit jio" where
  "syncHeader = bindE (getE jf_header) (\<lambda>h. writeAt 0 (enc_header h))"

definition beginWrite :: "unit jio" where
  "beginWrite = bindE (getE jf_header) (\<lambda>h.
     if h_State h = StateOnline then returnE ()
     else thenE (set_header (\<lambda>h. h\<lparr>h_State := StateOnline\<rparr>)) (writeAt 16 (put8 StateOnline)))"

section \<open>Hash tables\<close>

text \<open>\<open>hash % uint64(len(table))\<close>, a run-time panic on an empty table.\<close>

definition hashIdx :: "(jfile \<Rightarrow> hash_item list) \<Rightarrow> u64 \<Rightarrow> u64 jio" where
  "hashIdx table hash = bindE (getE table) (\<lambda>t.
     if t = [] then failE (Panic ''integer divide by zero'')
     else returnE (hash mod of_nat (length t)))"

definition enlist :: "u64 \<Rightarrow> hash_item \<Rightarrow> hash_item" where
  "enlist offset item =
     (let item = (if hi_HeadHashOffset item = 0 then item\<lparr>hi_HeadHashOffset := offset\<rparr> else item)
      in item\<lparr>hi_TailHashOffset := offset\<rparr>)"

definition linkDataHash :: "u64 \<Rightarrow> u64 \<Rightarrow> unit jio" where
  "linkDataHash offset idx = bindE (getE (\<lambda>s. jf_dataHashTable s ! unat idx)) (\<lambda>old.
     let item = enlist offset old; prevTail = hi_TailHashOffset old in
     thenE (modifyE (\<lambda>s. s\<lparr>jf_dataHashTable := (jf_dataHashTable s)[unat idx := item]\<rparr>))
     (thenE (whenE (prevTail \<noteq> 0) (writeAt (prevTail + 16 + 8) (put64 offset)))
     (bindE (getE (h_DataHashTableOffset \<circ> jf_header)) (\<lambda>base.
        writeAt (base + idx * 16) (enc_hash_item item)))))"

definition linkFieldHash :: "u64 \<Rightarrow> u64 \<Rightarrow> unit jio" where
  "linkFieldHash offset idx = bindE (getE (\<lambda>s. jf_fieldHashTable s ! unat idx)) (\<lambda>old.
     let item = enlist offset old in
     thenE (modifyE (\<lambda>s. s\<lparr>jf_fieldHashTable := (jf_fieldHashTable s)[unat idx := item]\<rparr>))
     (bindE (getE (h_FieldHashTableOffset \<circ> jf_header)) (\<lambda>base.
        writeAt (base + idx * 16) (enc_hash_item item))))"

section \<open>Fields and data\<close>

definition new_field_object :: "u64 \<Rightarrow> u64 \<Rightarrow> field_object" where
  "new_field_object sz hash = \<lparr>f_Object = object_hdr ObjectField sz, f_Hash = hash,
     f_NextHashOffset = 0, f_HeadDataOffset = 0\<rparr>"

definition ensureField :: "string \<Rightarrow> u64 \<Rightarrow> u64 jio" where
  "ensureField fieldName hash = bindE (getE (\<lambda>s. jf_fieldCache s hash)) (\<lambda>cached.
     case cached of Some offset \<Rightarrow> returnE offset
     | None \<Rightarrow>
       let objSize = of_nat (FieldObjectHeaderSize + length fieldName) in
       bindE alignedEnd (\<lambda>offset.
       thenE (on_disk (os_write (enc_field_object (new_field_object objSize hash))))
       (thenE (on_disk (os_write fieldName))
       (bindE (hashIdx jf_fieldHashTable hash) (\<lambda>idx.
       thenE (linkFieldHash offset idx)
       (thenE (modifyE (\<lambda>s. s\<lparr>jf_fieldCache := (jf_fieldCache s)(hash \<mapsto> offset)\<rparr>))
       (thenE (set_header (\<lambda>h. h\<lparr>h_NObjects := h_NObjects h + 1, h_NFields := h_NFields h + 1,
          h_TailObjectOffset := offset\<rparr>))
       (returnE offset))))))))"

definition new_data_object :: "u64 \<Rightarrow> u64 \<Rightarrow> u64 \<Rightarrow> data_object" where
  "new_data_object sz hash prevHead = \<lparr>d_Object = object_hdr ObjectData sz, d_Hash = hash,
     d_NextHashOffset = 0, d_NextFieldOffset = prevHead, d_EntryOffset = 0,
     d_EntryArrayOffset = 0, d_NEntries = 0\<rparr>"

definition appendData :: "siphash \<Rightarrow> string \<Rightarrow> u64 \<Rightarrow> u64 jio" where
  "appendData sip data hash =
     (case go_cut data ''='' of None \<Rightarrow> failE NoEquals
      | Some (fieldName, _) \<Rightarrow>
       bindE (getE (h_FileID \<circ> jf_header)) (\<lambda>fid.
       bindE (ensureField fieldName (SipHash24 sip fieldName fid)) (\<lambda>fieldOffset.
       bindE (readAt (fieldOffset + 40 - 8) 8) (\<lambda>head.
       let prevHeadData = get64 head;
           objSize = of_nat (DataObjectHeaderSize + length data) in
       bindE alignedEnd (\<lambda>offset.
       thenE (on_disk (os_write (enc_data_object (new_data_object objSize hash prevHeadData))))
       (thenE (on_disk (os_write data))
       (thenE (writeAt (fieldOffset + 40 - 8) (put64 offset))
       (bindE (hashIdx jf_dataHashTable hash) (\<lambda>idx.
       thenE (linkDataHash offset idx)
       (thenE (set_header (\<lambda>h. h\<lparr>h_NObjects := h_NObjects h + 1, h_NData := h_NData h + 1,
          h_TailObjectOffset := offset\<rparr>))
       (returnE offset)))))))))))"

section \<open>Entry arrays of a data object\<close>

definition new_entry_array :: "u64 \<Rightarrow> entry_array_object" where
  "new_entry_array sz = \<lparr>a_Object = object_hdr ObjectEntryArray sz, a_NextEntryArrayOffset = 0\<rparr>"

definition createEntryArray :: "u64 \<Rightarrow> u64 jio" where
  "createEntryArray entryOffset =
     (let initialCapacity = 16;
          objSize = of_nat (EntryArrayObjectHeaderSize + 8 * initialCapacity) in
      bindE alignedEnd (\<lambda>offset.
      thenE (on_disk (os_write (enc_entry_array_object (new_entry_array objSize))))
      (thenE (on_disk (os_write (enc_list put64 ((replicate initialCapacity 0)[0 := entryOffset]))))
      (thenE (set_header (\<lambda>h. h\<lparr>h_NObjects := h_NObjects h + 1,
         h_NEntryArrays := h_NEntryArrays h + 1, h_TailObjectOffset := offset\<rparr>))
      (returnE offset)))))"

fun first_free :: "u64 list \<Rightarrow> nat option" where
  "first_free [] = None"
| "first_free (x # xs) = (if x = 0 then Some 0 else map_option Suc (first_free xs))"

text \<open>
  The loop follows the chain to its last array. The arrays do not change while it does, so a
  walk longer than \<open>chain_fuel\<close> has seen some offset twice with no fault left to stop it: the
  loop of the source would not end.
\<close>

fun appendToEntryArray :: "nat \<Rightarrow> u64 \<Rightarrow> u64 \<Rightarrow> unit jio" where
  "appendToEntryArray 0 arrayOffset entryOffset = failE Diverges"
| "appendToEntryArray (Suc fuel) arrayOffset entryOffset =
     bindE (readAt arrayOffset 24) (\<lambda>b.
     let hdr = dec_entry_array_object b in
     if a_NextEntryArrayOffset hdr \<noteq> 0 then
       appendToEntryArray fuel (a_NextEntryArrayOffset hdr) entryOffset
     else
       let itemCount = (oh_Size (a_Object hdr) - 24) div 8; itemsOffset = arrayOffset + 24 in
       bindE (make_slice 8 itemCount) (\<lambda>n.
       bindE (readAt itemsOffset (n * 8)) (\<lambda>buf.
       case first_free (dec_list get64 8 n buf) of
         Some i \<Rightarrow> writeAt (itemsOffset + of_nat (i * 8)) (put64 entryOffset)
       | None \<Rightarrow>
           bindE (createEntryArray entryOffset) (\<lambda>newArrayOffset.
           writeAt (arrayOffset + 16) (put64 newArrayOffset)))))"

definition chain_fuel :: "jfile \<Rightarrow> nat" where
  "chain_fuel s = length (bytes (jf_f s)) + length (faults (jf_f s)) + 2"

definition linkDataToEntry :: "u64 \<Rightarrow> u64 \<Rightarrow> unit jio" where
  "linkDataToEntry dataOffset entryOffset =
     (let entryInfoOffset = dataOffset + 64 - 24 in
      bindE (readAt entryInfoOffset 24) (\<lambda>b.
      let info = dec_data_entry_info b in
      bindE
        (if di_EntryOffset info = 0 then returnE (info\<lparr>di_EntryOffset := entryOffset\<rparr>)
         else if di_EntryArrayOffset info = 0 then
           bindE (createEntryArray entryOffset) (\<lambda>arrayOffset.
             returnE (info\<lparr>di_EntryArrayOffset := arrayOffset\<rparr>))
         else
           bindE (getE chain_fuel) (\<lambda>fuel.
           thenE (appendToEntryArray fuel (di_EntryArrayOffset info) entryOffset)
             (returnE info)))
        (\<lambda>info. writeAt entryInfoOffset
           (enc_data_entry_info (info\<lparr>di_NEntries := di_NEntries info + 1\<rparr>)))))"

section \<open>Entries\<close>

definition appendEntryArray :: "u32 \<Rightarrow> u64 \<Rightarrow> u64 jio" where
  "appendEntryArray prevTail entryOffset =
     (let objSize = of_nat (EntryArrayObjectHeaderSize + 8) in
      bindE alignedEnd (\<lambda>offset.
      thenE (on_disk (os_write (enc_entry_array_object (new_entry_array objSize))))
      (thenE (on_disk (os_write (put64 entryOffset)))
      (thenE (whenE (prevTail \<noteq> 0) (writeAt (ucast prevTail + 16) (put64 offset)))
      (returnE offset)))))"

text \<open>\<open>if endPos, err := jf.f.Seek(0, 2); err == nil { jf.header.ArenaSize = ... }\<close>\<close>

definition updateArena :: "unit jio" where
  "updateArena s = (case on_disk os_seek_end s of
      (Inr endPos, s') \<Rightarrow> set_header (\<lambda>h. h\<lparr>h_ArenaSize := endPos - of_nat HeaderSize\<rparr>) s'
    | (Inl _, s') \<Rightarrow> (Inr (), s'))"

definition new_entry_object ::
  "u64 \<Rightarrow> u64 \<Rightarrow> u64 \<Rightarrow> u64 \<Rightarrow> id128 \<Rightarrow> u64 \<Rightarrow> entry_object" where
  "new_entry_object sz seqnum realtime monotonic boot xorHash =
     \<lparr>e_Object = object_hdr ObjectEntry sz, e_Seqnum = seqnum, e_Realtime = realtime,
      e_Monotonic = monotonic, e_BootID = boot, e_XorHash = xorHash\<rparr>"

definition finishEntry :: "u64 \<Rightarrow> u64 \<Rightarrow> u64 \<Rightarrow> u64 \<Rightarrow> u64 \<Rightarrow> id128 \<Rightarrow> header \<Rightarrow> header" where
  "finishEntry realtime monotonic seqnum entryOffset newArrayOffset boot h =
     (let h = h\<lparr>h_NObjects := h_NObjects h + 2, h_NEntryArrays := h_NEntryArrays h + 1\<rparr>;
          h = (if h_EntryArrayOffset h = 0 then h\<lparr>h_EntryArrayOffset := newArrayOffset\<rparr> else h);
          h = h\<lparr>h_TailEntryArrayOffset := ucast newArrayOffset, h_TailEntryArrayNEntries := 1,
                h_TailObjectOffset := newArrayOffset, h_NEntries := h_NEntries h + 1,
                h_TailEntryOffset := entryOffset, h_TailEntryBootID := boot,
                h_TailEntryRealtime := realtime, h_TailEntryMonotonic := monotonic\<rparr>
      in (if h_HeadEntrySeqnum h = 0
          then h\<lparr>h_HeadEntrySeqnum := seqnum, h_HeadEntryRealtime := realtime\<rparr> else h))"

definition appendEntryObject :: "u64 \<Rightarrow> u64 \<Rightarrow> u64 \<Rightarrow> entry_item list \<Rightarrow> unit jio" where
  "appendEntryObject realtime monotonic xorHash items =
     (let objSize = of_nat (EntryObjectHeaderSize + length items * EntryItemSize) in
      bindE alignedEnd (\<lambda>offset.
      thenE (set_header (\<lambda>h. h\<lparr>h_TailEntrySeqnum := h_TailEntrySeqnum h + 1\<rparr>))
      (bindE (getE (h_TailEntrySeqnum \<circ> jf_header)) (\<lambda>seqnum.
      bindE (getE jf_bootID) (\<lambda>boot.
      thenE (on_disk (os_write (enc_entry_object
         (new_entry_object objSize seqnum realtime monotonic boot xorHash))))
      (thenE (on_disk (os_write (enc_list enc_entry_item items)))
      (thenE (forE items (\<lambda>item.
         mapErrE (wrap_err ''linking data to entry'') (linkDataToEntry (it_ObjectOffset item) offset)))
      (bindE (getE (h_TailEntryArrayOffset \<circ> jf_header)) (\<lambda>prevTailArray.
      bindE (appendEntryArray prevTailArray offset) (\<lambda>newArrayOffset.
      thenE (set_header (finishEntry realtime monotonic seqnum offset newArrayOffset boot))
      (thenE updateArena
      (modifyE (\<lambda>s. s\<lparr>jf_dirty := True\<rparr>)))))))))))))"

fun appendFields ::
  "siphash \<Rightarrow> (string \<times> string) list \<Rightarrow> entry_item list \<Rightarrow> u64 \<Rightarrow> (entry_item list \<times> u64) jio" where
  "appendFields sip [] items xorHash = returnE (items, xorHash)"
| "appendFields sip ((k, v) # kvs) items xorHash =
     (let data = k @ ''='' @ v in
      bindE (getE (h_FileID \<circ> jf_header)) (\<lambda>fid.
      let hash = SipHash24 sip data fid; xorHash = xorHash XOR jenkins_hash64 data in
      bindE (getE (\<lambda>s. jf_dataCache s hash)) (\<lambda>cached.
      bindE (case cached of Some offset \<Rightarrow> returnE offset
             | None \<Rightarrow>
                 bindE (mapErrE (wrap_err (''append data '' @ k)) (appendData sip data hash)) (\<lambda>offset.
                 thenE (modifyE (\<lambda>s. s\<lparr>jf_dataCache := (jf_dataCache s)(hash \<mapsto> offset)\<rparr>))
                   (returnE offset)))
        (\<lambda>offset. appendFields sip kvs
           (items @ [\<lparr>it_ObjectOffset = offset, it_Hash = hash\<rparr>]) xorHash))))"

definition appendLocked :: "siphash \<Rightarrow> u64 \<Rightarrow> (string \<times> string) list \<Rightarrow> unit jio" where
  "appendLocked sip now kvs =
     thenE beginWrite
     (thenE (modifyE (\<lambda>s. s\<lparr>jf_dirty := True\<rparr>))
     (bindE (appendFields sip kvs [] 0) (\<lambda>(items, xorHash).
      appendEntryObject now now xorHash items)))"

text \<open>\<open>now\<close> is the time in microseconds: both clocks of an entry are read from it. The lock is
  released by a deferred call, on every path.\<close>

definition AppendEntry :: "siphash \<Rightarrow> u64 \<Rightarrow> (string \<times> string) list \<Rightarrow> unit jio" where
  "AppendEntry sip now kvs s =
     (case on_disk (os_flock True) s of
        (Inl e, s1) \<Rightarrow> (Inl (wrap_err ''flock'' e), s1)
      | (Inr _, s1) \<Rightarrow>
          (case appendLocked sip now kvs s1 of
             (r, s2) \<Rightarrow> (r, snd (on_disk (os_flock False) s2))))"

section \<open>Sync, Close, Create, OpenAppend\<close>

definition syncLocked :: "unit jio" where
  "syncLocked = bindE (getE jf_dirty) (\<lambda>dirty.
     if \<not> dirty then returnE ()
     else thenE beginWrite
       (thenE updateArena
       (thenE (set_header (\<lambda>h. h\<lparr>h_State := StateOffline\<rparr>))
       (thenE syncHeader
       (thenE (on_disk os_sync)
       (modifyE (\<lambda>s. s\<lparr>jf_dirty := False\<rparr>)))))))"

definition Sync :: "unit jio" where
  "Sync = syncLocked"

definition Close :: "unit jio" where
  "Close = thenE syncLocked (on_disk os_close)"

definition dataHashObjSize :: u64 where
  "dataHashObjSize =
     (let sz = of_nat (ObjectHeaderSize + DefaultDataHashTableSize * HashItemSize)
      in if sz mod 8 \<noteq> 0 then sz + (8 - sz mod 8) else sz)"

definition fieldHashObjSize :: u64 where
  "fieldHashObjSize =
     (let sz = of_nat (ObjectHeaderSize + DefaultFieldHashTableSize * HashItemSize)
      in if sz mod 8 \<noteq> 0 then sz + (8 - sz mod 8) else sz)"

definition initial_header :: "id128 \<Rightarrow> id128 \<Rightarrow> id128 \<Rightarrow> header" where
  "initial_header fileID machineID seqnumID =
     (let dataHashObjOffset = of_nat HeaderSize;
          fieldHashObjOffset = dataHashObjOffset + dataHashObjSize in
      zero_header\<lparr>h_Signature := HeaderSignature, h_CompatibleFlags := 0,
        h_IncompatibleFlags := HeaderIncompatibleKeyedHash, h_State := StateOffline,
        h_FileID := fileID, h_MachineID := machineID, h_SeqnumID := seqnumID,
        h_HeaderSize := of_nat HeaderSize,
        h_ArenaSize := dataHashObjSize + fieldHashObjSize,
        h_DataHashTableOffset := dataHashObjOffset + of_nat ObjectHeaderSize,
        h_DataHashTableSize := of_nat (DefaultDataHashTableSize * HashItemSize),
        h_FieldHashTableOffset := fieldHashObjOffset + of_nat ObjectHeaderSize,
        h_FieldHashTableSize := of_nat (DefaultFieldHashTableSize * HashItemSize),
        h_NObjects := 2\<rparr>)"

text \<open>The two random identifiers are \<open>None\<close> when \<open>rand.Read\<close> fails.\<close>

definition initialize :: "id128 option \<Rightarrow> id128 option \<Rightarrow> unit jio" where
  "initialize fileID seqnumID =
     (case fileID of None \<Rightarrow> failE (Wrap ''generate file ID'' OsErr) | Some fid \<Rightarrow>
     (case seqnumID of None \<Rightarrow> failE (Wrap ''generate seqnum ID'' OsErr) | Some sid \<Rightarrow>
      bindE (getE jf_machineID) (\<lambda>machine.
      thenE (set_header (\<lambda>_. initial_header fid machine sid))
      (bindE (getE jf_header) (\<lambda>h.
      thenE (mapErrE (wrap_err ''write header'') (on_disk (os_write (enc_header h))))
      (thenE (modifyE (\<lambda>s. s\<lparr>jf_dataHashTable := replicate DefaultDataHashTableSize zero_hash_item\<rparr>))
      (thenE (mapErrE (wrap_err ''write data hash table header'')
         (on_disk (os_write (enc_object_header (object_hdr ObjectDataHashTable dataHashObjSize)))))
      (bindE (getE jf_dataHashTable) (\<lambda>dt.
      thenE (mapErrE (wrap_err ''write data hash table'')
         (on_disk (os_write (enc_list enc_hash_item dt))))
      (thenE (modifyE (\<lambda>s. s\<lparr>jf_fieldHashTable := replicate DefaultFieldHashTableSize zero_hash_item\<rparr>))
      (thenE (mapErrE (wrap_err ''write field hash table header'')
         (on_disk (os_write (enc_object_header (object_hdr ObjectFieldHashTable fieldHashObjSize)))))
      (bindE (getE jf_fieldHashTable) (\<lambda>ft.
      thenE (mapErrE (wrap_err ''write field hash table'')
         (on_disk (os_write (enc_list enc_hash_item ft))))
      (thenE (set_header (\<lambda>h. h\<lparr>h_TailObjectOffset := of_nat HeaderSize + dataHashObjSize\<rparr>))
       syncHeader))))))))))))))"

definition new_file :: "string \<Rightarrow> disk \<Rightarrow> jfile" where
  "new_file path d = \<lparr>jf_f = d, jf_path = path, jf_header = zero_header,
     jf_machineID = replicate 16 (CHR 0x00), jf_bootID = replicate 16 (CHR 0x00),
     jf_dataHashTable = [], jf_fieldHashTable = [],
     jf_dataCache = (\<lambda>_. None), jf_fieldCache = (\<lambda>_. None), jf_dirty = False\<rparr>"

text \<open>
  \<open>O_CREATE | O_EXCL\<close> fails on an existing path; a file that could not be initialised is
  removed. The result is the writer or the error, and what the path names afterwards.
\<close>

definition Create ::
  "string \<Rightarrow> string option \<Rightarrow> nat option list \<Rightarrow> id128 \<Rightarrow> id128 \<Rightarrow> id128 option \<Rightarrow> id128 option
   \<Rightarrow> (jerr + jfile) \<times> string option" where
  "Create path existing fl machineID bootID fileID seqnumID =
     (case existing of
        Some old \<Rightarrow> (Inl (Wrap ''create journal file'' OsErr), Some old)
      | None \<Rightarrow>
          (let jf = (new_file path \<lparr>bytes = [], pos = 0, locked = False, faults = fl\<rparr>)
                 \<lparr>jf_machineID := machineID, jf_bootID := bootID\<rparr> in
           case initialize fileID seqnumID jf of
             (Inl e, _) \<Rightarrow> (Inl e, None)
           | (Inr _, jf) \<Rightarrow> (Inr jf, Some (bytes (jf_f jf)))))"

definition openHeader :: "unit jio" where
  "openHeader =
     bindE (mapErrE (wrap_err ''read header'') (readAt 0 HeaderSize)) (\<lambda>buf.
     thenE (set_header (\<lambda>_. dec_header buf))
     (bindE (getE jf_header) (\<lambda>h.
      if h_Signature h \<noteq> HeaderSignature then failE (InvalidSignature [])
      else returnE ())))"

definition openTable :: "string \<Rightarrow> u64 \<Rightarrow> u64 \<Rightarrow> hash_item list jio" where
  "openTable what off sz =
     bindE (make_slice 16 (sz div 16)) (\<lambda>n.
     bindE (make_slice 1 sz) (\<lambda>len.
     bindE (mapErrE (wrap_err (''read '' @ what)) (readAt off len)) (\<lambda>buf.
     returnE (dec_list dec_hash_item 16 n buf))))"

definition openExisting :: "id128 option \<Rightarrow> unit jio" where
  "openExisting boot =
     thenE openHeader
     (bindE (getE jf_header) (\<lambda>h.
      thenE (modifyE (\<lambda>s. s\<lparr>jf_machineID := h_MachineID h\<rparr>))
      (case boot of None \<Rightarrow> failE (Wrap ''generate boot ID'' OsErr) | Some b \<Rightarrow>
       thenE (modifyE (\<lambda>s. s\<lparr>jf_bootID := b\<rparr>))
       (bindE (openTable ''data hash table'' (h_DataHashTableOffset h) (h_DataHashTableSize h)) (\<lambda>dt.
        thenE (modifyE (\<lambda>s. s\<lparr>jf_dataHashTable := dt\<rparr>))
        (bindE (openTable ''field hash table'' (h_FieldHashTableOffset h) (h_FieldHashTableSize h)) (\<lambda>ft.
         thenE (modifyE (\<lambda>s. s\<lparr>jf_fieldHashTable := ft\<rparr>))
         (bindE (mapErrE (wrap_err ''seek to end'') (on_disk os_seek_end)) (\<lambda>_. returnE ())))))))))"

definition OpenAppend ::
  "string \<Rightarrow> string option \<Rightarrow> nat option list \<Rightarrow> id128 option \<Rightarrow> jerr + jfile" where
  "OpenAppend path content fl boot =
     (case content of
        None \<Rightarrow> Inl (Wrap ''open journal file'' OsErr)
      | Some bs \<Rightarrow>
          (case openExisting boot (new_file path \<lparr>bytes = bs, pos = 0, locked = False, faults = fl\<rparr>) of
             (Inl e, _) \<Rightarrow> Inl e
           | (Inr _, jf) \<Rightarrow> Inr jf))"

definition Path :: "jfile \<Rightarrow> string" where
  "Path s = jf_path s"

end
