(* ===== verification/ObjectHeap.thy ===== *)
theory ObjectHeap
  imports Codec OsFile
begin

text \<open>
  The abstract view of a journal file: a heap of objects, each at its offset. \<open>heap_ok bs h\<close>
  says that the bytes \<open>bs\<close> hold the encoding of every object of the heap \<open>h\<close>, that objects do
  not overlap, and that none of them reaches into the file header. The lemmas carry the three
  things the writer does to a file over to the heap: appending an object, overwriting a part of
  one, and overwriting the header.
\<close>

section \<open>Objects\<close>

datatype jobj =
    JData data_object string
  | JField field_object string
  | JEntry entry_object "entry_item list"
  | JArray entry_array_object "u64 list"
  | JTable object_header "hash_item list"

fun enc_obj :: "jobj \<Rightarrow> string" where
  "enc_obj (JData d pl) = enc_data_object d @ pl"
| "enc_obj (JField f n) = enc_field_object f @ n"
| "enc_obj (JEntry e its) = enc_entry_object e @ enc_list enc_entry_item its"
| "enc_obj (JArray a xs) = enc_entry_array_object a @ enc_list put64 xs"
| "enc_obj (JTable t its) = enc_object_header t @ enc_list enc_hash_item its"

fun obj_header :: "jobj \<Rightarrow> object_header" where
  "obj_header (JData d pl) = d_Object d"
| "obj_header (JField f n) = f_Object f"
| "obj_header (JEntry e its) = e_Object e"
| "obj_header (JArray a xs) = a_Object a"
| "obj_header (JTable t its) = t"

fun obj_size :: "jobj \<Rightarrow> nat" where
  "obj_size (JData d pl) = DataObjectHeaderSize + length pl"
| "obj_size (JField f n) = FieldObjectHeaderSize + length n"
| "obj_size (JEntry e its) = EntryObjectHeaderSize + EntryItemSize * length its"
| "obj_size (JArray a xs) = EntryArrayObjectHeaderSize + 8 * length xs"
| "obj_size (JTable t its) = ObjectHeaderSize + HashItemSize * length its"

fun obj_type_ok :: "jobj \<Rightarrow> bool" where
  "obj_type_ok (JData d pl) = (oh_Type (d_Object d) = ObjectData)"
| "obj_type_ok (JField f n) = (oh_Type (f_Object f) = ObjectField)"
| "obj_type_ok (JEntry e its) = (oh_Type (e_Object e) = ObjectEntry)"
| "obj_type_ok (JArray a xs) = (oh_Type (a_Object a) = ObjectEntryArray)"
| "obj_type_ok (JTable t its) = (oh_Type t \<in> {ObjectDataHashTable, ObjectFieldHashTable})"

text \<open>The header of an object tells its kind and its size; an entry has a boot id of 16 bytes.\<close>

definition wf_obj :: "jobj \<Rightarrow> bool" where
  "wf_obj ob = (wf_object_header (obj_header ob) \<and> obj_type_ok ob \<and>
     oh_Size (obj_header ob) = of_nat (obj_size ob) \<and>
     (case ob of JEntry e its \<Rightarrow> length (e_BootID e) = 16 | _ \<Rightarrow> True))"

lemma wf_obj_parts:
  "wf_obj (JData d pl) \<Longrightarrow> wf_data_object d"
  "wf_obj (JField f n) \<Longrightarrow> wf_field_object f"
  "wf_obj (JEntry e its) \<Longrightarrow> wf_entry_object e"
  "wf_obj (JArray a xs) \<Longrightarrow> wf_entry_array_object a"
  "wf_obj (JTable t tab) \<Longrightarrow> wf_object_header t"
  by (simp_all add: wf_obj_def wf_data_object_def wf_field_object_def wf_entry_object_def
      wf_entry_array_object_def)

lemma wf_plain [simp]: "wf_hash_item i" "wf_entry_item j" "wf_data_entry_info k"
  by (simp_all add: wf_hash_item_def wf_entry_item_def wf_data_entry_info_def)

lemma length_enc_lists [simp]:
  "length (enc_list put64 xs) = 8 * length xs"
  "length (enc_list enc_hash_item is) = 16 * length is"
  "length (enc_list enc_entry_item js) = 16 * length js"
  by (simp_all add: u64_codec.length_enc_list hash_item_codec.length_enc_list
      entry_item_codec.length_enc_list)

lemma length_enc_obj [simp]: "wf_obj ob \<Longrightarrow> length (enc_obj ob) = obj_size ob"
  by (cases ob) (auto dest!: wf_obj_parts)

section \<open>Reading and overwriting parts of an object\<close>

lemma slice_prefix: "p + n \<le> length xs \<Longrightarrow> slice p n (xs @ ys) = slice p n xs"
  by (simp add: slice_append1)

lemma data_parts:
  assumes "wf_obj (JData d pl)"
  shows "slice 0 64 (enc_obj (JData d pl)) = enc_data_object d"
    and "slice 64 (length pl) (enc_obj (JData d pl)) = pl"
    and "slice 40 24 (enc_obj (JData d pl)) = enc_data_entry_info
      \<lparr>di_EntryOffset = d_EntryOffset d, di_EntryArrayOffset = d_EntryArrayOffset d,
       di_NEntries = d_NEntries d\<rparr>"
proof -
  have w: "wf_data_object d" "wf_object_header (d_Object d)"
    using wf_obj_parts(1)[OF assms] by (simp_all add: wf_data_object_def)
  then show "slice 0 64 (enc_obj (JData d pl)) = enc_data_object d"
    and "slice 64 (length pl) (enc_obj (JData d pl)) = pl"
    by (simp_all add: slice_head slice_tail slice_full)
  show "slice 40 24 (enc_obj (JData d pl)) = enc_data_entry_info
      \<lparr>di_EntryOffset = d_EntryOffset d, di_EntryArrayOffset = d_EntryArrayOffset d,
       di_NEntries = d_NEntries d\<rparr>"
    using w by (simp add: slice_def enc_data_object_def enc_data_entry_info_def)
qed

lemma data_updates:
  assumes "wf_obj (JData d pl)"
  shows "splice 24 (put64 v) (enc_obj (JData d pl)) = enc_obj (JData (d\<lparr>d_NextHashOffset := v\<rparr>) pl)"
    and "splice 40 (enc_data_entry_info i) (enc_obj (JData d pl)) = enc_obj (JData
      (d\<lparr>d_EntryOffset := di_EntryOffset i, d_EntryArrayOffset := di_EntryArrayOffset i,
         d_NEntries := di_NEntries i\<rparr>) pl)"
proof -
  have w: "wf_object_header (d_Object d)"
    using wf_obj_parts(1)[OF assms] by (simp add: wf_data_object_def)
  show "splice 24 (put64 v) (enc_obj (JData d pl)) = enc_obj (JData (d\<lparr>d_NextHashOffset := v\<rparr>) pl)"
    using w by (simp add: enc_data_object_def splice_def)
  show "splice 40 (enc_data_entry_info i) (enc_obj (JData d pl)) = enc_obj (JData
      (d\<lparr>d_EntryOffset := di_EntryOffset i, d_EntryArrayOffset := di_EntryArrayOffset i,
         d_NEntries := di_NEntries i\<rparr>) pl)"
    using w by (simp add: enc_data_object_def enc_data_entry_info_def splice_def)
qed

lemma field_parts:
  assumes "wf_obj (JField f n)"
  shows "slice 32 8 (enc_obj (JField f n)) = put64 (f_HeadDataOffset f)"
    and "splice 32 (put64 v) (enc_obj (JField f n)) = enc_obj (JField (f\<lparr>f_HeadDataOffset := v\<rparr>) n)"
proof -
  have w: "wf_object_header (f_Object f)"
    using wf_obj_parts(2)[OF assms] by (simp add: wf_field_object_def)
  show "slice 32 8 (enc_obj (JField f n)) = put64 (f_HeadDataOffset f)"
    using w by (simp add: enc_field_object_def slice_tail slice_head)
  show "splice 32 (put64 v) (enc_obj (JField f n)) = enc_obj (JField (f\<lparr>f_HeadDataOffset := v\<rparr>) n)"
    using w by (simp add: enc_field_object_def splice_def)
qed

lemma entry_parts:
  assumes "wf_obj (JEntry e its)"
  shows "slice 0 64 (enc_obj (JEntry e its)) = enc_entry_object e"
    and "slice 64 (16 * length its) (enc_obj (JEntry e its)) = enc_list enc_entry_item its"
  using wf_obj_parts(3)[OF assms] by (simp_all add: slice_head slice_tail slice_full)

lemma array_parts:
  assumes "wf_obj (JArray a xs)"
  shows "slice 0 24 (enc_obj (JArray a xs)) = enc_entry_array_object a"
    and "slice 24 (8 * length xs) (enc_obj (JArray a xs)) = enc_list put64 xs"
    and "splice 16 (put64 v) (enc_obj (JArray a xs)) =
      enc_obj (JArray (a\<lparr>a_NextEntryArrayOffset := v\<rparr>) xs)"
    and "i < length xs \<Longrightarrow> splice (24 + 8 * i) (put64 v) (enc_obj (JArray a xs)) =
      enc_obj (JArray a (xs[i := v]))"
proof -
  have w: "wf_entry_array_object a" "wf_object_header (a_Object a)"
    using wf_obj_parts(4)[OF assms] by (simp_all add: wf_entry_array_object_def)
  then show "slice 0 24 (enc_obj (JArray a xs)) = enc_entry_array_object a"
    and "slice 24 (8 * length xs) (enc_obj (JArray a xs)) = enc_list put64 xs"
    by (simp_all add: slice_head slice_tail slice_full)
  show "splice 16 (put64 v) (enc_obj (JArray a xs)) =
      enc_obj (JArray (a\<lparr>a_NextEntryArrayOffset := v\<rparr>) xs)"
    using w by (simp add: enc_entry_array_object_def splice_def)
  assume "i < length xs"
  then have "splice (8 * i) (put64 v) (enc_list put64 xs) = enc_list put64 (xs[i := v])"
    using u64_codec.splice_enc_list[where xs = xs and y = v and i = i] by (simp add: mult.commute)
  then show "splice (24 + 8 * i) (put64 v) (enc_obj (JArray a xs)) = enc_obj (JArray a (xs[i := v]))"
    using w by (simp add: splice_append_right)
qed

lemma table_update:
  assumes "wf_obj (JTable t its)" and "i < length its"
  shows "splice (16 + 16 * i) (enc_hash_item it) (enc_obj (JTable t its)) =
    enc_obj (JTable t (its[i := it]))"
proof -
  have "splice (16 * i) (enc_hash_item it) (enc_list enc_hash_item its) =
      enc_list enc_hash_item (its[i := it])"
    using hash_item_codec.splice_enc_list[of its it i] assms(2) by (simp add: mult.commute)
  then show ?thesis using wf_obj_parts(5)[OF assms(1)] by (simp add: splice_append_right)
qed

section \<open>Heaps\<close>

type_synonym heap = "nat \<Rightarrow> jobj option"

definition heap_ok :: "string \<Rightarrow> heap \<Rightarrow> bool" where
  "heap_ok bs h \<longleftrightarrow>
     (\<forall>p ob. h p = Some ob \<longrightarrow> wf_obj ob \<and> HeaderSize \<le> p \<and> p + obj_size ob \<le> length bs \<and>
        slice p (obj_size ob) bs = enc_obj ob) \<and>
     (\<forall>p q ob oc. h p = Some ob \<and> h q = Some oc \<and> p < q \<longrightarrow> p + obj_size ob \<le> q)"

lemma heap_okD:
  assumes "heap_ok bs h" and "h p = Some ob"
  shows "wf_obj ob" and "HeaderSize \<le> p" and "p + obj_size ob \<le> length bs"
    and "slice p (obj_size ob) bs = enc_obj ob"
  using assms unfolding heap_ok_def by blast+

lemma heap_ok_disjoint:
  assumes "heap_ok bs h" and "h p = Some ob" and "h q = Some oc" and "p \<noteq> q"
  shows "p + obj_size ob \<le> q \<or> q + obj_size oc \<le> p"
  using assms unfolding heap_ok_def by (metis linorder_neqE_nat)

lemma obj_size_pos: "16 \<le> obj_size ob"
  by (cases ob) simp_all

lemma heap_read:
  assumes "heap_ok bs h" and "h p = Some ob" and "k + n \<le> obj_size ob"
  shows "slice (p + k) n bs = slice k n (enc_obj ob)"
  using heap_okD(4)[OF assms(1,2)] assms(3) slice_slice[of k n "obj_size ob" p bs] by simp

lemma heap_append:
  assumes ok: "heap_ok bs h" and wf: "wf_obj ob" and hdr: "HeaderSize \<le> length (bs @ pad)"
  shows "heap_ok (bs @ pad @ enc_obj ob @ rest) (h(length (bs @ pad) \<mapsto> ob))"
proof -
  have old: "p + obj_size oc \<le> length bs \<and> wf_obj oc \<and> HeaderSize \<le> p \<and>
      slice p (obj_size oc) bs = enc_obj oc" if "h p = Some oc" for p oc
    using heap_okD[OF ok that] by simp
  let ?n = "length (bs @ pad)"
  have new: "slice ?n (obj_size ob) (bs @ pad @ enc_obj ob @ rest) = enc_obj ob"
    using wf slice_middle[of "bs @ pad" "enc_obj ob" rest] by simp
  have "wf_obj oc \<and> HeaderSize \<le> p \<and> p + obj_size oc \<le> length (bs @ pad @ enc_obj ob @ rest) \<and>
      slice p (obj_size oc) (bs @ pad @ enc_obj ob @ rest) = enc_obj oc"
    if "(h(?n \<mapsto> ob)) p = Some oc" for p oc
  proof (cases "p = ?n")
    case True
    with that new wf hdr show ?thesis by simp
  next
    case False
    with that have "h p = Some oc" by simp
    from old[OF this] show ?thesis by (simp add: slice_append1)
  qed
  moreover have "p + obj_size oc \<le> q"
    if "(h(?n \<mapsto> ob)) p = Some oc" "(h(?n \<mapsto> ob)) q = Some od" "p < q" for p q oc od
  proof -
    have "p \<noteq> ?n"
    proof
      assume "p = ?n"
      with that have "h q = Some od" by auto
      from old[OF this] \<open>p = ?n\<close> that(3) show False by simp
    qed
    with that(1) have p: "h p = Some oc" by simp
    show ?thesis
    proof (cases "q = ?n")
      case True
      with old[OF p] show ?thesis by simp
    next
      case False
      with that(2,3) p ok show ?thesis unfolding heap_ok_def by (metis fun_upd_other)
    qed
  qed
  ultimately show ?thesis unfolding heap_ok_def by blast
qed

lemma heap_pad:
  assumes "heap_ok bs h"
  shows "heap_ok (bs @ pad) h"
proof -
  have "slice p (obj_size ob) (bs @ pad) = slice p (obj_size ob) bs \<and>
      p + obj_size ob \<le> length (bs @ pad)" if "h p = Some ob" for p ob
    using heap_okD(3)[OF assms that] by (simp add: slice_append1)
  with assms show ?thesis unfolding heap_ok_def by simp
qed

lemma heap_update:
  assumes ok: "heap_ok bs h" and p: "h p = Some ob" and k: "k + length ys \<le> obj_size ob"
    and enc: "splice k ys (enc_obj ob) = enc_obj ob'" and wf': "wf_obj ob'"
    and sz: "obj_size ob' = obj_size ob"
  shows "heap_ok (splice (p + k) ys bs) (h(p \<mapsto> ob'))"
proof -
  note here = heap_okD[OF ok p]
  have len: "p + k + length ys \<le> length bs" using here k by simp
  then have lbs: "length (splice (p + k) ys bs) = length bs" by simp
  have at: "slice p (obj_size ob) (splice (p + k) ys bs) = enc_obj ob'"
    using slice_splice_inside[of p "p + k" ys "obj_size ob" bs] here k enc by simp
  have "wf_obj oc \<and> HeaderSize \<le> q \<and> q + obj_size oc \<le> length (splice (p + k) ys bs) \<and>
      slice q (obj_size oc) (splice (p + k) ys bs) = enc_obj oc"
    if q: "(h(p \<mapsto> ob')) q = Some oc" for q oc
  proof (cases "q = p")
    case True
    with q here at wf' sz lbs show ?thesis by simp
  next
    case False
    with q have hq: "h q = Some oc" by simp
    from heap_ok_disjoint[OF ok p hq] False k
    have "q + obj_size oc \<le> p + k \<or> p + k + length ys \<le> q" by auto
    from slice_splice_disjoint[OF this len] heap_okD[OF ok hq] lbs show ?thesis by simp
  qed
  moreover have "q + obj_size oc \<le> r"
    if q: "(h(p \<mapsto> ob')) q = Some oc" and r: "(h(p \<mapsto> ob')) r = Some od" and "q < r"
    for q r oc od
  proof -
    obtain oc' where "h q = Some oc'" "obj_size oc' = obj_size oc"
      using q p sz by (cases "q = p") auto
    moreover obtain od' where "h r = Some od'"
      using r p by (cases "r = p") auto
    ultimately show ?thesis
      using ok \<open>q < r\<close> unfolding heap_ok_def by metis
  qed
  ultimately show ?thesis unfolding heap_ok_def by blast
qed

lemma heap_header:
  assumes ok: "heap_ok bs h" and "k + length ys \<le> HeaderSize" and "HeaderSize \<le> length bs"
  shows "heap_ok (splice k ys bs) h"
proof -
  have "slice p (obj_size ob) (splice k ys bs) = slice p (obj_size ob) bs" if "h p = Some ob" for p ob
    using heap_okD(2)[OF ok that] assms by (intro slice_splice_disjoint) auto
  with ok assms(2,3) show ?thesis unfolding heap_ok_def by auto
qed

end
