(* ===== verification/WriterInvariant.thy ===== *)
theory WriterInvariant
  imports JournalWriter ObjectHeap
begin

text \<open>
  The invariant of the writer of \<open>journal.go\<close> over the object heap of its file, and the proof that
  every operation on data, fields and entry arrays succeeds on a file without faults, keeps the
  invariant, and never changes what is already recorded: the relation \<open>extends\<close>.
\<close>

section \<open>What never changes\<close>

text \<open>
  A payload, a field name and an entry are never changed once written; \<open>g\<close> says that the object
  is one of the entry arrays of the file's own chain, which the operations on data objects do
  not touch.
\<close>

fun same_obj :: "bool \<Rightarrow> jobj \<Rightarrow> jobj \<Rightarrow> bool" where
  "same_obj g (JData d pl) (JData d' pl') = (pl = pl')"
| "same_obj g (JField f n) (JField f' n') = (n = n')"
| "same_obj g (JEntry e its) ob = (ob = JEntry e its)"
| "same_obj g (JArray a xs) (JArray a' xs') = (g \<longrightarrow> a = a' \<and> xs = xs')"
| "same_obj g (JTable t its) (JTable t' its') = True"
| "same_obj g ob ob' = False"

definition extends :: "nat set \<Rightarrow> heap \<Rightarrow> heap \<Rightarrow> bool" where
  "extends G h h' \<longleftrightarrow>
     (\<forall>p ob. h p = Some ob \<longrightarrow> (\<exists>ob'. h' p = Some ob' \<and> same_obj (p \<in> G) ob ob'))"

lemma same_obj_refl [simp]: "same_obj g ob ob"
  by (cases ob) simp_all

lemma same_obj_trans: "same_obj g a b \<Longrightarrow> same_obj g b c \<Longrightarrow> same_obj g a c"
  by (cases a; cases b; cases c) auto

lemma extends_refl [simp]: "extends G h h"
  by (auto simp: extends_def)

lemma extends_trans: "extends G h h' \<Longrightarrow> extends G h' h'' \<Longrightarrow> extends G h h''"
  unfolding extends_def by (metis same_obj_trans)

lemma extends_new: "h p = None \<Longrightarrow> extends G h (h(p \<mapsto> ob))"
  by (auto simp: extends_def)

lemma extends_update: "h p = Some ob \<Longrightarrow> same_obj (p \<in> G) ob ob' \<Longrightarrow> extends G h (h(p \<mapsto> ob'))"
  by (auto simp: extends_def)

lemma extendsD:
  assumes "extends G h h'"
  shows "h p = Some (JData d pl) \<Longrightarrow> \<exists>d'. h' p = Some (JData d' pl)"
    and "h p = Some (JField f n) \<Longrightarrow> \<exists>f'. h' p = Some (JField f' n)"
    and "h p = Some (JEntry e its) \<Longrightarrow> h' p = Some (JEntry e its)"
    and "h p = Some (JArray a xs) \<Longrightarrow> \<exists>a' xs'. h' p = Some (JArray a' xs')"
    and "h p = Some (JArray a xs) \<Longrightarrow> p \<in> G \<Longrightarrow> h' p = Some (JArray a xs)"
  using assms unfolding extends_def
  by (fastforce elim!: same_obj.elims)+

section \<open>The invariant\<close>

definition link_ok :: "nat set \<Rightarrow> heap \<Rightarrow> nat \<Rightarrow> u64 \<Rightarrow> bool" where
  "link_ok G h p w \<longleftrightarrow>
     w = 0 \<or> (\<exists>q a xs. w = of_nat q \<and> p < q \<and> q \<notin> G \<and> h q = Some (JArray a xs))"

fun obj_link_ok :: "nat set \<Rightarrow> heap \<Rightarrow> nat \<Rightarrow> jobj \<Rightarrow> bool" where
  "obj_link_ok G h p (JData d pl) = link_ok G h 0 (d_EntryArrayOffset d)"
| "obj_link_ok G h p (JArray a xs) = (p \<notin> G \<longrightarrow> link_ok G h p (a_NextEntryArrayOffset a))"
| "obj_link_ok G h p _ = True"

definition arrays_ok :: "nat set \<Rightarrow> heap \<Rightarrow> bool" where
  "arrays_ok G h \<longleftrightarrow> (\<forall>p ob. h p = Some ob \<longrightarrow> obj_link_ok G h p ob)"

definition dataTableAt :: nat where "dataTableAt = 272"
definition fieldTableAt :: nat where "fieldTableAt = 33040"

definition tables_ok :: "jfile \<Rightarrow> heap \<Rightarrow> bool" where
  "tables_ok s h \<longleftrightarrow>
     (\<exists>t. h dataTableAt = Some (JTable t (jf_dataHashTable s))) \<and>
     (\<exists>t. h fieldTableAt = Some (JTable t (jf_fieldHashTable s))) \<and>
     length (jf_dataHashTable s) = DefaultDataHashTableSize \<and>
     length (jf_fieldHashTable s) = DefaultFieldHashTableSize \<and>
     h_DataHashTableOffset (jf_header s) = of_nat (dataTableAt + 16) \<and>
     h_FieldHashTableOffset (jf_header s) = of_nat (fieldTableAt + 16) \<and>
     h_DataHashTableSize (jf_header s) = of_nat (DefaultDataHashTableSize * HashItemSize) \<and>
     h_FieldHashTableSize (jf_header s) = of_nat (DefaultFieldHashTableSize * HashItemSize)"

definition tails_ok :: "jfile \<Rightarrow> heap \<Rightarrow> bool" where
  "tails_ok s h \<longleftrightarrow> (\<forall>i < length (jf_dataHashTable s).
     hi_TailHashOffset (jf_dataHashTable s ! i) \<noteq> 0 \<longrightarrow>
     (\<exists>q d pl. hi_TailHashOffset (jf_dataHashTable s ! i) = of_nat q \<and> h q = Some (JData d pl)))"

definition caches_ok :: "siphash \<Rightarrow> string set \<Rightarrow> jfile \<Rightarrow> heap \<Rightarrow> bool" where
  "caches_ok sip D s h \<longleftrightarrow>
     (\<forall>hash off. jf_dataCache s hash = Some off \<longrightarrow>
        (\<exists>q d pl. off = of_nat q \<and> h q = Some (JData d pl) \<and> pl \<in> D \<and>
           SipHash24 sip pl (h_FileID (jf_header s)) = hash)) \<and>
     (\<forall>hash off. jf_fieldCache s hash = Some off \<longrightarrow>
        (\<exists>q f n. off = of_nat q \<and> h q = Some (JField f n)))"

definition winv :: "siphash \<Rightarrow> string set \<Rightarrow> nat set \<Rightarrow> jfile \<Rightarrow> heap \<Rightarrow> bool" where
  "winv sip D G s h \<longleftrightarrow> faults (jf_f s) = [] \<and> HeaderSize \<le> length (bytes (jf_f s)) \<and>
     length (bytes (jf_f s)) < 2 ^ 32 \<and> heap_ok (bytes (jf_f s)) h \<and> arrays_ok G h \<and>
     tables_ok s h \<and> tails_ok s h \<and> caches_ok sip D s h \<and> G \<subseteq> dom h \<and>
     wf_header (jf_header s) \<and> length (jf_bootID s) = 16"

abbreviation fsize :: "jfile \<Rightarrow> nat" where
  "fsize s \<equiv> length (bytes (jf_f s))"

lemma winvD:
  assumes "winv sip D G s h"
  shows "faults (jf_f s) = []" "HeaderSize \<le> fsize s" "fsize s < 2 ^ 32"
    "heap_ok (bytes (jf_f s)) h" "arrays_ok G h" "tables_ok s h" "tails_ok s h"
    "caches_ok sip D s h" "G \<subseteq> dom h" "wf_header (jf_header s)" "length (jf_bootID s) = 16"
  using assms unfolding winv_def by blast+

lemma link_ok_extends: "link_ok G h p w \<Longrightarrow> extends E h h' \<Longrightarrow> link_ok G h' p w"
  unfolding link_ok_def by (metis extendsD(4))

lemma obj_link_ok_extends: "obj_link_ok G h p ob \<Longrightarrow> extends E h h' \<Longrightarrow> obj_link_ok G h' p ob"
  by (cases ob) (auto intro: link_ok_extends)

lemma arrays_ok_upd:
  assumes "arrays_ok G h" and "extends E h (h(p \<mapsto> ob))" and "obj_link_ok G (h(p \<mapsto> ob)) p ob"
  shows "arrays_ok G (h(p \<mapsto> ob))"
  using assms unfolding arrays_ok_def by (auto intro: obj_link_ok_extends)

lemma tails_ok_extends: "tails_ok s h \<Longrightarrow> extends G h h' \<Longrightarrow> tails_ok s h'"
  unfolding tails_ok_def by (blast dest: extendsD(1))

lemma caches_ok_extends: "caches_ok sip D s h \<Longrightarrow> extends G h h' \<Longrightarrow> caches_ok sip D s h'"
  unfolding caches_ok_def by (blast dest: extendsD(1) extendsD(2))

lemma dom_extends: "G \<subseteq> dom h \<Longrightarrow> extends G' h h' \<Longrightarrow> G \<subseteq> dom h'"
  unfolding extends_def by blast

lemma extends_mono: "extends G h h' \<Longrightarrow> G' \<subseteq> G \<Longrightarrow> extends G' h h'"
proof -
  have "same_obj g a b \<Longrightarrow> (g' \<longrightarrow> g) \<Longrightarrow> same_obj g' a b" for g g' a b
    by (cases a; cases b) auto
  then show "extends G h h' \<Longrightarrow> G' \<subseteq> G \<Longrightarrow> extends G' h h'"
    unfolding extends_def by (meson subsetD)
qed

text \<open>The part of the state that the disk and the bookkeeping of objects leave alone.\<close>

definition set_bytes :: "string \<Rightarrow> nat \<Rightarrow> jfile \<Rightarrow> jfile" where
  "set_bytes bs p s = s\<lparr>jf_f := (jf_f s)\<lparr>bytes := bs, pos := p\<rparr>\<rparr>"

lemma set_bytes_simps [simp]:
  "bytes (jf_f (set_bytes bs p s)) = bs" "pos (jf_f (set_bytes bs p s)) = p"
  "faults (jf_f (set_bytes bs p s)) = faults (jf_f s)"
  "locked (jf_f (set_bytes bs p s)) = locked (jf_f s)"
  "jf_header (set_bytes bs p s) = jf_header s" "jf_bootID (set_bytes bs p s) = jf_bootID s"
  "jf_dataHashTable (set_bytes bs p s) = jf_dataHashTable s"
  "jf_fieldHashTable (set_bytes bs p s) = jf_fieldHashTable s"
  "jf_dataCache (set_bytes bs p s) = jf_dataCache s"
  "jf_fieldCache (set_bytes bs p s) = jf_fieldCache s"
  "jf_dirty (set_bytes bs p s) = jf_dirty s"
  "set_bytes bs p (set_bytes bs' p' s) = set_bytes bs p s"
  by (simp_all add: set_bytes_def)

lemma tables_ok_bytes [simp]:
  "tables_ok (set_bytes bs p s) h = tables_ok s h" "tails_ok (set_bytes bs p s) h = tails_ok s h"
  "caches_ok sip D (set_bytes bs p s) h = caches_ok sip D s h"
  by (simp_all add: tables_ok_def tails_ok_def caches_ok_def)

section \<open>Reading, writing and appending on a file without faults\<close>

lemma heap_in_file:
  assumes "winv sip D G s h" and "h p = Some ob"
  shows "wf_obj ob" "HeaderSize \<le> p" "p + obj_size ob \<le> fsize s" "p < 2 ^ 32"
  using heap_okD[OF winvD(4)[OF assms(1)] assms(2)] winvD(3)[OF assms(1)] by linarith+

lemma readAt_obj:
  assumes inv: "winv sip D G s h" and p: "h p = Some ob" and k: "k + n \<le> obj_size ob"
    and off: "off = of_nat (p + k)"
  shows "readAt off n s = (Inr (slice k n (enc_obj ob)), s)"
proof -
  note f = heap_in_file[OF inv p] winvD(1,3)[OF inv]
  have "os_read_at off n (jf_f s) = (Inr (slice (p + k) n (bytes (jf_f s))), jf_f s)"
    using f k off by (intro os_read_at_inside) auto
  then show ?thesis
    using heap_read[OF winvD(4)[OF inv] p k] by (simp add: readAt_def on_disk_def liftE_def)
qed

lemma writeAt_inside:
  assumes "faults (jf_f s) = []" and "fsize s < 2 ^ 32" and "q + length ys \<le> fsize s"
    and "off = of_nat q"
  shows "writeAt off ys s = (Inr (), set_bytes (splice q ys (bytes (jf_f s))) (pos (jf_f s)) s)"
proof -
  have "os_write_at ys off (jf_f s) = (Inr (), (jf_f s)\<lparr>bytes := splice q ys (bytes (jf_f s))\<rparr>)"
    using assms by (intro os_write_at_inside) auto
  then show ?thesis by (simp add: writeAt_def on_disk_def liftE_def set_bytes_def)
qed

text \<open>Overwriting a part of an object with a part of its new value.\<close>

lemma write_obj:
  assumes inv: "winv sip D G s h" and p: "h p = Some ob" and k: "k + length ys \<le> obj_size ob"
    and off: "off = of_nat (p + k)" and enc: "splice k ys (enc_obj ob) = enc_obj ob'"
    and wf': "wf_obj ob'" and sz: "obj_size ob' = obj_size ob" and same: "same_obj (p \<in> E) ob ob'"
    and link: "obj_link_ok G h p ob'" and notab: "p \<noteq> dataTableAt" "p \<noteq> fieldTableAt"
  shows "\<exists>s'. writeAt off ys s = (Inr (), s') \<and> winv sip D G s' (h(p \<mapsto> ob')) \<and>
    extends E h (h(p \<mapsto> ob')) \<and> fsize s' = fsize s"
proof -
  note f = heap_in_file[OF inv p]
  let ?s = "set_bytes (splice (p + k) ys (bytes (jf_f s))) (pos (jf_f s)) s"
  have len: "p + k + length ys \<le> fsize s" using f k by simp
  have ext: "extends E h (h(p \<mapsto> ob'))" using p same by (rule extends_update)
  have "arrays_ok G (h(p \<mapsto> ob'))"
    by (rule arrays_ok_upd[OF winvD(5)[OF inv] ext obj_link_ok_extends[OF link ext]])
  moreover have "heap_ok (splice (p + k) ys (bytes (jf_f s))) (h(p \<mapsto> ob'))"
    by (rule heap_update[OF winvD(4)[OF inv] p k enc wf' sz])
  moreover have "tables_ok s (h(p \<mapsto> ob'))"
    using winvD(6)[OF inv] notab by (simp add: tables_ok_def)
  ultimately have "winv sip D G ?s (h(p \<mapsto> ob'))"
    using winvD[OF inv] len tails_ok_extends[OF _ ext] caches_ok_extends[OF _ ext]
      dom_extends[OF _ ext, of G]
    by (simp add: winv_def)
  with writeAt_inside[OF winvD(1,3)[OF inv] len off] ext len show ?thesis by simp
qed

section \<open>Appending an object\<close>

unbundle bit_operations_syntax

lemma and_not_7: "(x::u64) AND NOT 7 = of_nat (unat x div 8 * 8)"
proof -
  have "x AND NOT (mask 3) = push_bit 3 (drop_bit 3 x)"
    by (rule bit_word_eqI) (auto simp: bit_simps)
  moreover have "(7::u64) = mask 3" by (simp add: mask_eq_exp_minus_1)
  moreover have "push_bit 3 (drop_bit 3 x) = of_nat (unat x div 8 * 8)"
    by (rule word_unat_eq_iff[THEN iffD2])
      (simp add: push_bit_eq_mult unat_drop_bit_eq drop_bit_eq_div unat_word_ariths unat_of_nat
        mult.commute)
  ultimately show ?thesis by simp
qed

lemma align64_of_nat:
  assumes "n < 2 ^ 32"
  shows "align64 (of_nat n) = of_nat ((n + 7) div 8 * 8)"
proof -
  have "(of_nat n + 7 :: u64) = of_nat (n + 7)" by simp
  moreover have "unat (of_nat (n + 7) :: u64) = n + 7" using assms by (intro unat_of_nat64) simp
  ultimately show ?thesis unfolding align64_def and_not_7 by metis
qed

lemma write_end_run:
  "faults (jf_f s) = [] \<Longrightarrow> pos (jf_f s) = fsize s \<Longrightarrow>
   on_disk (os_write bs) s = (Inr (), set_bytes (bytes (jf_f s) @ bs) (fsize s + length bs) s)"
  by (simp add: on_disk_def liftE_def os_write_end set_bytes_def)

lemma winv_pad:
  assumes "winv sip D G s h" and "fsize s + length pad < 2 ^ 32"
  shows "winv sip D G (set_bytes (bytes (jf_f s) @ pad) p s) h"
  using assms heap_pad[of "bytes (jf_f s)" h pad] by (simp add: winv_def)

lemma alignedEnd_run:
  assumes inv: "winv sip D G s h" and room: "fsize s + 7 < 2 ^ 32"
  shows "\<exists>n s'. alignedEnd s = (Inr (of_nat n), s') \<and> winv sip D G s' h \<and> pos (jf_f s') = n \<and>
    fsize s' = n \<and> fsize s \<le> n \<and> n \<le> fsize s + 7 \<and> 8 dvd n \<and> (\<exists>bs. s' = set_bytes bs n s)"
proof -
  let ?n = "fsize s"
  let ?m = "(?n + 7) div 8 * 8"
  let ?s = "set_bytes (bytes (jf_f s)) ?n s"
  have sk: "on_disk os_seek_end s = (Inr (of_nat ?n), ?s)"
    using winvD(1)[OF inv] by (simp add: on_disk_def liftE_def os_seek_end_ok set_bytes_def)
  have al: "align64 (of_nat ?n) = of_nat ?m" using winvD(3)[OF inv] by (rule align64_of_nat)
  have m: "?n \<le> ?m" "?m \<le> ?n + 7" "8 dvd ?m" by (simp, linarith, simp)
  show ?thesis
  proof (cases "?m = ?n")
    case True
    then have "alignedEnd s = (Inr (of_nat ?n), ?s)"
      using sk al by (simp add: alignedEnd_def bindE_Inr)
    moreover have "winv sip D G ?s h" using winv_pad[OF inv, of "[]" ?n] winvD(3)[OF inv] by simp
    moreover have "8 dvd ?n" using m(3) True by simp
    ultimately show ?thesis by (intro exI[of _ ?n] exI[of _ ?s]) auto
  next
    case False
    let ?pad = "replicate (?m - ?n) (CHR 0x00)"
    let ?t = "set_bytes (bytes (jf_f s) @ ?pad) ?m s"
    have neq: "(of_nat ?m :: u64) \<noteq> of_nat ?n"
    proof
      assume "(of_nat ?m :: u64) = of_nat ?n"
      then have "unat (of_nat ?m :: u64) = unat (of_nat ?n :: u64)" by simp
      with m room have "?m = ?n" by (subst (asm) unat_of_nat64 unat_of_nat64; simp)+
      with False show False ..
    qed
    have "(of_nat ?m - of_nat ?n :: u64) = of_nat (?m - ?n)" using m(1) by (simp add: of_nat_diff)
    then have pad: "unat (of_nat ?m - of_nat ?n :: u64) = ?m - ?n"
      using m room by (simp only:) (rule unat_of_nat64, simp)
    have "on_disk (os_write ?pad) ?s = (Inr (), ?t)"
      using winvD(1)[OF inv] m(1) by (subst write_end_run) simp_all
    then have "alignedEnd s = (Inr (of_nat ?m), ?t)"
      using sk al neq pad by (simp add: alignedEnd_def bindE_Inr thenE_Inr Let_def)
    moreover have "winv sip D G ?t h" using m room by (intro winv_pad[OF inv]) simp
    ultimately show ?thesis using m by (intro exI[of _ ?m] exI[of _ ?t]) auto
  qed
qed

lemma winv_append:
  assumes inv: "winv sip D G s h" and wf: "wf_obj ob" and enc: "enc_obj ob = a @ b"
    and room: "fsize s + obj_size ob < 2 ^ 32" and link: "obj_link_ok G h (fsize s) ob"
  shows "winv sip D G (set_bytes (bytes (jf_f s) @ a @ b) p s) (h(fsize s \<mapsto> ob))"
    and "extends G h (h(fsize s \<mapsto> ob))" and "h (fsize s) = None"
proof -
  show fresh: "h (fsize s) = None"
    using heap_in_file[OF inv] obj_size_pos by (metis add_leD1 le_antisym not_None_eq not_one_le_zero
        add_le_same_cancel1 le_trans one_le_numeral)
  then show ext: "extends G h (h(fsize s \<mapsto> ob))" by (rule extends_new)
  have "heap_ok (bytes (jf_f s) @ a @ b) (h(fsize s \<mapsto> ob))"
    using heap_append[OF winvD(4)[OF inv] wf, of "[]" "[]"] winvD(2)[OF inv] enc by simp
  moreover have "arrays_ok G (h(fsize s \<mapsto> ob))"
    by (rule arrays_ok_upd[OF winvD(5)[OF inv] ext obj_link_ok_extends[OF link ext]])
  moreover have "fsize s \<noteq> dataTableAt" "fsize s \<noteq> fieldTableAt"
    using winvD(6)[OF inv] fresh unfolding tables_ok_def by auto
  moreover have "length (a @ b) = obj_size ob" using wf enc by (metis length_enc_obj)
  ultimately show "winv sip D G (set_bytes (bytes (jf_f s) @ a @ b) p s) (h(fsize s \<mapsto> ob))"
    using winvD[OF inv] room tails_ok_extends[OF _ ext] caches_ok_extends[OF _ ext]
      dom_extends[OF _ ext, of G]
    by (simp add: winv_def tables_ok_def)
qed

text \<open>The two writes of an object, its header and its contents, at the aligned end.\<close>

lemma write_object:
  assumes inv: "winv sip D G s h" and pos: "pos (jf_f s) = fsize s" and wf: "wf_obj ob"
    and enc: "enc_obj ob = a @ b" and room: "fsize s + obj_size ob < 2 ^ 32"
    and link: "obj_link_ok G h (fsize s) ob"
  shows "\<exists>s1 s2 bs p. on_disk (os_write a) s = (Inr (), s1) \<and> on_disk (os_write b) s1 = (Inr (), s2) \<and>
    s2 = set_bytes bs p s \<and> winv sip D G s2 (h(fsize s \<mapsto> ob)) \<and>
    extends G h (h(fsize s \<mapsto> ob)) \<and> h (fsize s) = None \<and> fsize s2 = fsize s + obj_size ob"
proof -
  let ?s1 = "set_bytes (bytes (jf_f s) @ a) (fsize s + length a) s"
  let ?s2 = "set_bytes (bytes (jf_f s) @ a @ b) (fsize s + length a + length b) s"
  have "on_disk (os_write a) s = (Inr (), ?s1)"
    using winvD(1)[OF inv] pos by (rule write_end_run)
  moreover have "on_disk (os_write b) ?s1 = (Inr (), ?s2)"
    using winvD(1)[OF inv] by (subst write_end_run) simp_all
  moreover have "length a + length b = obj_size ob" using wf enc by (metis length_append length_enc_obj)
  ultimately show ?thesis
    using winv_append(1)[OF inv wf enc room link, of "fsize s + length a + length b"]
      winv_append(2,3)[OF inv wf enc room link]
    by (intro exI[of _ ?s1] exI[of _ ?s2]) (auto simp: add.assoc)
qed

end
