(* ===== verification/WriterSteps.thy ===== *)
theory WriterSteps
  imports WriterInvariant
begin

text \<open>
  The operations of \<open>journal.go\<close> on fields, data objects and the entry arrays of data objects:
  each succeeds on a file without faults, keeps the invariant, extends the heap, returns the
  offset of an object of the right kind, and grows the file by a bounded amount.
\<close>

section \<open>Bookkeeping in memory\<close>

lemma winv_header:
  assumes "winv sip D G s h" and "h_FileID (g (jf_header s)) = h_FileID (jf_header s)"
    and "h_DataHashTableOffset (g (jf_header s)) = h_DataHashTableOffset (jf_header s)"
    and "h_FieldHashTableOffset (g (jf_header s)) = h_FieldHashTableOffset (jf_header s)"
    and "h_DataHashTableSize (g (jf_header s)) = h_DataHashTableSize (jf_header s)"
    and "h_FieldHashTableSize (g (jf_header s)) = h_FieldHashTableSize (jf_header s)"
    and "wf_header (jf_header s) \<Longrightarrow> wf_header (g (jf_header s))"
  shows "winv sip D G (s\<lparr>jf_header := g (jf_header s)\<rparr>) h"
  using assms by (simp add: winv_def tables_ok_def tails_ok_def caches_ok_def)

lemma winv_dirty [simp]: "winv sip D G (s\<lparr>jf_dirty := b\<rparr>) h = winv sip D G s h"
  by (simp add: winv_def tables_ok_def tails_ok_def caches_ok_def)

lemma winv_field_cache:
  assumes "winv sip D G s h" and "h q = Some (JField f n)"
  shows "winv sip D G (s\<lparr>jf_fieldCache := (jf_fieldCache s)(hash \<mapsto> of_nat q)\<rparr>) h"
  using assms by (auto simp: winv_def tables_ok_def tails_ok_def caches_ok_def)

lemma winv_data_cache:
  assumes "winv sip D G s h" and "h q = Some (JData d pl)" and "pl \<in> D"
    and "SipHash24 sip pl (h_FileID (jf_header s)) = hash"
  shows "winv sip D G (s\<lparr>jf_dataCache := (jf_dataCache s)(hash \<mapsto> of_nat q)\<rparr>) h"
  using assms by (auto simp: winv_def tables_ok_def tails_ok_def caches_ok_def)

lemma set_header_run: "set_header g s = (Inr (), s\<lparr>jf_header := g (jf_header s)\<rparr>)"
  by (simp add: set_header_def)

section \<open>Hash tables\<close>

lemma hashIdx_run:
  assumes "0 < length (table s)" and "length (table s) < 2 ^ 32"
  shows "\<exists>i. hashIdx table hash s = (Inr (of_nat i), s) \<and> i < length (table s)"
proof -
  have n: "unat (of_nat (length (table s)) :: u64) = length (table s)" using assms(2) by simp
  have "hash mod of_nat (length (table s)) = of_nat (unat hash mod length (table s))"
    by (metis n word_arith_nat_mod)
  then show ?thesis
    using assms by (intro exI[of _ "unat hash mod length (table s)"]) (simp add: hashIdx_def)
qed

lemma table_slot:
  assumes "i < 2 ^ 32" and "base < 2 ^ 32"
  shows "(of_nat (base + 16) + of_nat i * 16 :: u64) = of_nat (base + (16 + 16 * i))"
  by simp

lemma linkFieldHash_run:
  assumes inv: "winv sip D G s h" and i: "i < length (jf_fieldHashTable s)"
  shows "\<exists>s' h'. linkFieldHash off (of_nat i) s = (Inr (), s') \<and> winv sip D G s' h' \<and>
    extends G h h' \<and> fsize s' = fsize s"
proof -
  let ?it = "enlist off (jf_fieldHashTable s ! i)"
  let ?tab = "(jf_fieldHashTable s)[i := ?it]"
  let ?s = "s\<lparr>jf_fieldHashTable := ?tab\<rparr>"
  from winvD(6)[OF inv] obtain t where t: "h fieldTableAt = Some (JTable t (jf_fieldHashTable s))"
    and base: "h_FieldHashTableOffset (jf_header s) = of_nat (fieldTableAt + 16)"
    and len: "length (jf_fieldHashTable s) = DefaultFieldHashTableSize"
    unfolding tables_ok_def by blast
  let ?h = "h(fieldTableAt \<mapsto> JTable t ?tab)"
  note f = heap_in_file[OF inv t]
  have i32: "i < 333" using i len by (simp add: DefaultFieldHashTableSize_def)
  have u: "unat (of_nat i :: u64) = i" using i32 by simp
  have wr: "writeAt (of_nat (fieldTableAt + 16) + of_nat i * 16) (enc_hash_item ?it) ?s = (Inr (),
      set_bytes (splice (fieldTableAt + (16 + 16 * i)) (enc_hash_item ?it) (bytes (jf_f s)))
        (pos (jf_f s)) ?s)"
    using winvD(1,3)[OF inv] f(3) i by (subst writeAt_inside) (simp_all add: algebra_simps)
  have "splice (16 + 16 * i) (enc_hash_item ?it) (enc_obj (JTable t (jf_fieldHashTable s))) =
      enc_obj (JTable t ?tab)"
    using table_update[OF f(1) i] by simp
  then have hp: "heap_ok (splice (fieldTableAt + (16 + 16 * i)) (enc_hash_item ?it) (bytes (jf_f s))) ?h"
    using f(1) i by (intro heap_update[OF winvD(4)[OF inv] t]) (auto simp: wf_obj_def)
  have ext: "extends G h ?h" using t by (rule extends_update) simp
  have ar: "arrays_ok G ?h" by (rule arrays_ok_upd[OF winvD(5)[OF inv] ext]) simp
  have tb: "tables_ok ?s ?h"
    using winvD(6)[OF inv] by (auto simp: tables_ok_def dataTableAt_def fieldTableAt_def)
  have tl: "tails_ok ?s ?h" using tails_ok_extends[OF winvD(7)[OF inv] ext] by (simp add: tails_ok_def)
  have ca: "caches_ok sip D ?s ?h"
    using caches_ok_extends[OF winvD(8)[OF inv] ext] by (simp add: caches_ok_def)
  have len': "fieldTableAt + (16 + 16 * i) + 16 \<le> fsize s" using f(3) i by simp
  let ?s' = "set_bytes (splice (fieldTableAt + (16 + 16 * i)) (enc_hash_item ?it) (bytes (jf_f s)))
        (pos (jf_f s)) ?s"
  have "linkFieldHash off (of_nat i) s = (Inr (), ?s')"
    using wr u base by (simp add: linkFieldHash_def Let_def)
  moreover have "winv sip D G ?s' ?h"
    using hp ar tb tl ca len' winvD[OF inv] dom_extends[OF _ ext, of G] by (simp add: winv_def)
  ultimately show ?thesis using ext len' by (intro exI[of _ ?s'] exI[of _ ?h]) simp
qed

lemma on_disk_data_table:
  "on_disk m (s\<lparr>jf_dataHashTable := T\<rparr>) =
     (fst (on_disk m s), (snd (on_disk m s))\<lparr>jf_dataHashTable := T\<rparr>)"
  by (simp add: on_disk_def liftE_def case_prod_beta)

lemma dataTable_write:
  assumes inv: "winv sip D G s h" and i: "i < length (jf_dataHashTable s)"
    and q: "h q = Some (JData d pl)" and it: "hi_TailHashOffset it = of_nat q"
  shows "\<exists>s' h'. writeAt (of_nat (dataTableAt + 16) + of_nat i * 16) (enc_hash_item it)
      (s\<lparr>jf_dataHashTable := (jf_dataHashTable s)[i := it]\<rparr>) = (Inr (), s') \<and> winv sip D G s' h' \<and>
    extends G h h' \<and> fsize s' = fsize s"
proof -
  let ?tab = "(jf_dataHashTable s)[i := it]"
  let ?s = "s\<lparr>jf_dataHashTable := ?tab\<rparr>"
  from winvD(6)[OF inv] obtain t where t: "h dataTableAt = Some (JTable t (jf_dataHashTable s))"
    and len: "length (jf_dataHashTable s) = DefaultDataHashTableSize"
    unfolding tables_ok_def by blast
  let ?h = "h(dataTableAt \<mapsto> JTable t ?tab)"
  note f = heap_in_file[OF inv t]
  have wr: "writeAt (of_nat (dataTableAt + 16) + of_nat i * 16) (enc_hash_item it) ?s = (Inr (),
      set_bytes (splice (dataTableAt + (16 + 16 * i)) (enc_hash_item it) (bytes (jf_f s)))
        (pos (jf_f s)) ?s)"
    using winvD(1,3)[OF inv] f(3) i by (subst writeAt_inside) (simp_all add: algebra_simps)
  have "splice (16 + 16 * i) (enc_hash_item it) (enc_obj (JTable t (jf_dataHashTable s))) =
      enc_obj (JTable t ?tab)"
    using table_update[OF f(1) i] by simp
  then have hp: "heap_ok (splice (dataTableAt + (16 + 16 * i)) (enc_hash_item it) (bytes (jf_f s))) ?h"
    using f(1) i by (intro heap_update[OF winvD(4)[OF inv] t]) (auto simp: wf_obj_def)
  have ext: "extends G h ?h" using t by (rule extends_update) simp
  have ar: "arrays_ok G ?h" by (rule arrays_ok_upd[OF winvD(5)[OF inv] ext]) simp
  have tb: "tables_ok ?s ?h"
    using winvD(6)[OF inv] by (auto simp: tables_ok_def dataTableAt_def fieldTableAt_def)
  have q': "?h q = Some (JData d pl)" using q t by auto
  have tl: "tails_ok ?s ?h"
  proof -
    have "\<exists>q d pl. hi_TailHashOffset (?tab ! j) = of_nat q \<and> ?h q = Some (JData d pl)"
      if "j < length ?tab" "hi_TailHashOffset (?tab ! j) \<noteq> 0" for j
    proof (cases "j = i")
      case True
      with i it q' show ?thesis by (metis nth_list_update_eq)
    next
      case False
      with that tails_ok_extends[OF winvD(7)[OF inv] ext] show ?thesis
        unfolding tails_ok_def by (metis length_list_update nth_list_update_neq)
    qed
    then show ?thesis by (simp add: tails_ok_def)
  qed
  have ca: "caches_ok sip D ?s ?h"
    using caches_ok_extends[OF winvD(8)[OF inv] ext] by (simp add: caches_ok_def)
  have len': "dataTableAt + (16 + 16 * i) + 16 \<le> fsize s" using f(3) i by simp
  let ?s' = "set_bytes (splice (dataTableAt + (16 + 16 * i)) (enc_hash_item it) (bytes (jf_f s)))
        (pos (jf_f s)) ?s"
  have "winv sip D G ?s' ?h"
    using hp ar tb tl ca len' winvD[OF inv] dom_extends[OF _ ext, of G] by (simp add: winv_def)
  with wr ext len' show ?thesis by (intro exI[of _ ?s'] exI[of _ ?h]) simp
qed

lemma wf_obj_next: "wf_obj (JData d pl) \<Longrightarrow> wf_obj (JData (d\<lparr>d_NextHashOffset := v\<rparr>) pl)"
  by (simp add: wf_obj_def)

lemma not_table:
  assumes "winv sip D G s h" and "h p = Some ob" and "\<forall>t its. ob \<noteq> JTable t its"
  shows "p \<noteq> dataTableAt" "p \<noteq> fieldTableAt"
  using winvD(6)[OF assms(1)] assms(2,3) unfolding tables_ok_def by auto

lemma linkDataHash_run:
  assumes inv: "winv sip D G s h" and i: "i < length (jf_dataHashTable s)"
    and q: "h q = Some (JData d pl)"
  shows "\<exists>s' h'. linkDataHash (of_nat q) (of_nat i) s = (Inr (), s') \<and> winv sip D G s' h' \<and>
    extends G h h' \<and> fsize s' = fsize s"
proof -
  let ?old = "jf_dataHashTable s ! i"
  let ?it = "enlist (of_nat q) ?old"
  let ?tab = "(jf_dataHashTable s)[i := ?it]"
  let ?prev = "hi_TailHashOffset ?old"
  from winvD(6)[OF inv] have base: "h_DataHashTableOffset (jf_header s) = of_nat (dataTableAt + 16)"
    and len: "length (jf_dataHashTable s) = DefaultDataHashTableSize"
    unfolding tables_ok_def by blast+
  have u: "unat (of_nat i :: u64) = i" using i len by (simp add: DefaultDataHashTableSize_def)
  have tail: "hi_TailHashOffset ?it = of_nat q" by (simp add: enlist_def Let_def)
  have "\<exists>s1 h1. whenE (?prev \<noteq> 0) (writeAt (?prev + 16 + 8) (put64 (of_nat q)))
      (s\<lparr>jf_dataHashTable := ?tab\<rparr>) = (Inr (), s1\<lparr>jf_dataHashTable := ?tab\<rparr>) \<and> winv sip D G s1 h1 \<and>
      extends G h h1 \<and> fsize s1 = fsize s \<and> jf_dataHashTable s1 = jf_dataHashTable s \<and>
      jf_header s1 = jf_header s"
  proof (cases "?prev = 0")
    case True
    then show ?thesis using inv by (intro exI[of _ s] exI[of _ h]) simp
  next
    case False
    then obtain r d' pl' where r: "?prev = of_nat r" "h r = Some (JData d' pl')"
      using winvD(7)[OF inv] i unfolding tails_ok_def by blast
    note f = heap_in_file[OF inv r(2)]
    let ?ob = "JData (d'\<lparr>d_NextHashOffset := of_nat q\<rparr>) pl'"
    have "obj_link_ok G h r ?ob" using winvD(5)[OF inv] r(2) unfolding arrays_ok_def by fastforce
    then obtain s1 where s1: "writeAt (?prev + 16 + 8) (put64 (of_nat q)) s = (Inr (), s1)"
      "winv sip D G s1 (h(r \<mapsto> ?ob))" "extends G h (h(r \<mapsto> ?ob))" "fsize s1 = fsize s"
      using write_obj[OF inv r(2), where E = G, of 24 "put64 (of_nat q)" "?prev + 16 + 8" ?ob]
        data_updates(1)[OF f(1)] wf_obj_next[OF f(1)] not_table[OF inv r(2)] r(1)
      by (auto simp: algebra_simps)
    moreover have "jf_dataHashTable s1 = jf_dataHashTable s" "jf_header s1 = jf_header s"
      using s1(1) by (auto simp: writeAt_def on_disk_def liftE_def split: prod.splits)
    ultimately show ?thesis using False
      by (auto simp: writeAt_def on_disk_data_table intro!: exI[of _ s1])
  qed
  then obtain s1 h1 where w1: "whenE (?prev \<noteq> 0) (writeAt (?prev + 16 + 8) (put64 (of_nat q)))
      (s\<lparr>jf_dataHashTable := ?tab\<rparr>) = (Inr (), s1\<lparr>jf_dataHashTable := ?tab\<rparr>)"
    and s1: "winv sip D G s1 h1" "extends G h h1" "fsize s1 = fsize s"
      "jf_dataHashTable s1 = jf_dataHashTable s" "jf_header s1 = jf_header s"
    by blast
  from extendsD(1)[OF s1(2) q] obtain d1 where "h1 q = Some (JData d1 pl)" ..
  from dataTable_write[OF s1(1) _ this tail, of i] i s1(4) obtain s2 h2
    where s2: "writeAt (of_nat (dataTableAt + 16) + of_nat i * 16) (enc_hash_item ?it)
      (s1\<lparr>jf_dataHashTable := ?tab\<rparr>) = (Inr (), s2)" "winv sip D G s2 h2" "extends G h1 h2"
      "fsize s2 = fsize s1"
    by auto
  have "linkDataHash (of_nat q) (of_nat i) s = (Inr (), s2)"
    using w1 s2(1) base u s1(5) by (simp add: linkDataHash_def Let_def thenE_Inr)
  with s2 s1 extends_trans[OF s1(2) s2(3)] show ?thesis by auto
qed

section \<open>Fields and data objects\<close>

lemma wf_object_hdr [simp]: "wf_object_header (object_hdr t sz)"
  by (simp add: wf_object_header_def object_hdr_def)

lemma oh_object_hdr [simp]: "oh_Type (object_hdr t sz) = t" "oh_Size (object_hdr t sz) = sz"
  by (simp_all add: object_hdr_def)

lemma wf_header_bump [simp]:
  "wf_header (h\<lparr>h_NObjects := a, h_NFields := b, h_TailObjectOffset := c\<rparr>) = wf_header h"
  "wf_header (h\<lparr>h_NObjects := a, h_NData := b, h_TailObjectOffset := c\<rparr>) = wf_header h"
  "wf_header (h\<lparr>h_NObjects := a, h_NEntryArrays := b, h_TailObjectOffset := c\<rparr>) = wf_header h"
  by (simp_all add: wf_header_def)

lemma ensureField_run:
  assumes inv: "winv sip D G s h" and room: "fsize s + 47 + length name < 2 ^ 32"
  shows "\<exists>q s' h' f n. ensureField name hash s = (Inr (of_nat q), s') \<and> winv sip D G s' h' \<and>
    extends G h h' \<and> h' q = Some (JField f n) \<and> fsize s' \<le> fsize s + 47 + length name"
proof (cases "jf_fieldCache s hash")
  case (Some off)
  then obtain q f n where "off = of_nat q" "h q = Some (JField f n)"
    using winvD(8)[OF inv] unfolding caches_ok_def by blast
  with Some inv show ?thesis
    by (intro exI[of _ q] exI[of _ s] exI[of _ h]) (auto simp: ensureField_def)
next
  case None
  let ?f = "new_field_object (of_nat (FieldObjectHeaderSize + length name)) hash"
  have wf: "wf_obj (JField ?f name)"
    by (simp add: wf_obj_def new_field_object_def)
  obtain n s1 where al: "alignedEnd s = (Inr (of_nat n), s1)" and s1: "winv sip D G s1 h"
    "pos (jf_f s1) = n" "fsize s1 = n" "n \<le> fsize s + 7"
    using alignedEnd_run[OF inv] room by auto
  obtain s2 s3 where w: "on_disk (os_write (enc_field_object ?f)) s1 = (Inr (), s2)"
    "on_disk (os_write name) s2 = (Inr (), s3)" and s3: "winv sip D G s3 (h(n \<mapsto> JField ?f name))"
    "extends G h (h(n \<mapsto> JField ?f name))" "fsize s3 = n + (40 + length name)"
    using write_object[OF s1(1) _ wf, of "enc_field_object ?f" name] s1 room by auto
  have tab: "length (jf_fieldHashTable s3) = 333"
    using winvD(6)[OF s3(1)] by (simp add: tables_ok_def DefaultFieldHashTableSize_def)
  then obtain i where i: "hashIdx jf_fieldHashTable hash s3 = (Inr (of_nat i), s3)"
    "i < length (jf_fieldHashTable s3)"
    using hashIdx_run[of jf_fieldHashTable s3 hash] by auto
  obtain s4 h4 where ln: "linkFieldHash (of_nat n) (of_nat i) s3 = (Inr (), s4)"
    and s4: "winv sip D G s4 h4" "extends G (h(n \<mapsto> JField ?f name)) h4" "fsize s4 = fsize s3"
    using linkFieldHash_run[OF s3(1) i(2)] by blast
  obtain f' where f': "h4 n = Some (JField f' name)" using extendsD(2)[OF s4(2)] by fastforce
  let ?g = "\<lambda>h. h\<lparr>h_NObjects := h_NObjects h + 1, h_NFields := h_NFields h + 1,
          h_TailObjectOffset := of_nat n\<rparr>"
  let ?s5 = "s4\<lparr>jf_fieldCache := (jf_fieldCache s4)(hash \<mapsto> of_nat n)\<rparr>"
  let ?s6 = "?s5\<lparr>jf_header := ?g (jf_header ?s5)\<rparr>"
  have "ensureField name hash s = (Inr (of_nat n), ?s6)"
    using None al w i(1) ln
    by (simp add: ensureField_def Let_def bindE_Inr thenE_Inr set_header_run)
  moreover have "winv sip D G ?s6 h4"
    by (rule winv_header[OF winv_field_cache[OF s4(1) f']]) simp_all
  moreover have "extends G h h4" by (rule extends_trans[OF s3(2) s4(2)])
  moreover have "fsize ?s6 \<le> fsize s + 47 + length name" using s4(3) s3(3) s1(4) by simp
  ultimately show ?thesis using f' by blast
qed

lemma appendData_run:
  assumes inv: "winv sip D G s h" and cut: "go_cut data ''='' = Some (k, v)"
    and room: "fsize s + 118 + 2 * length data < 2 ^ 32"
  shows "\<exists>q s' h' d. appendData sip data hash s = (Inr (of_nat q), s') \<and> winv sip D G s' h' \<and>
    extends G h h' \<and> h' q = Some (JData d data) \<and> fsize s' \<le> fsize s + 118 + 2 * length data"
proof -
  have k: "length k \<le> length data" using go_cut_recompose[OF cut] by simp
  obtain p s1 h1 f n where ef: "ensureField k (SipHash24 sip k (h_FileID (jf_header s))) s =
      (Inr (of_nat p), s1)"
    and s1: "winv sip D G s1 h1" "extends G h h1" "h1 p = Some (JField f n)"
      "fsize s1 \<le> fsize s + 47 + length k"
    using ensureField_run[OF inv, of k] room k by force
  note fp = heap_in_file[OF s1(1) s1(3)]
  have off: "(of_nat p + 40 - 8 :: u64) = of_nat (p + 32)" by simp
  have rd: "readAt (of_nat p + 40 - 8) 8 s1 = (Inr (put64 (f_HeadDataOffset f)), s1)"
    using readAt_obj[OF s1(1,3) _ off, of 8] field_parts(1)[OF fp(1)] by simp
  let ?d = "new_data_object (of_nat (DataObjectHeaderSize + length data)) hash (f_HeadDataOffset f)"
  have wf: "wf_obj (JData ?d data)" by (simp add: wf_obj_def new_data_object_def)
  obtain m s2 where al: "alignedEnd s1 = (Inr (of_nat m), s2)" and s2: "winv sip D G s2 h1"
    "pos (jf_f s2) = m" "fsize s2 = m" "m \<le> fsize s1 + 7"
    using alignedEnd_run[OF s1(1)] room k s1(4) by auto
  let ?h2 = "h1(m \<mapsto> JData ?d data)"
  have link: "obj_link_ok G h1 (fsize s2) (JData ?d data)"
    by (simp add: link_ok_def new_data_object_def)
  obtain s3 s4 where w: "on_disk (os_write (enc_data_object ?d)) s2 = (Inr (), s3)"
    "on_disk (os_write data) s3 = (Inr (), s4)" and s4: "winv sip D G s4 ?h2"
    "extends G h1 ?h2" "fsize s4 = m + (64 + length data)" "h1 m = None"
    using write_object[OF s2(1) _ wf _ _ link, of "enc_data_object ?d" data] s2 room k s1(4)
    by auto
  have p2: "?h2 p = Some (JField f n)" using s1(3) s4(4) by auto
  have "\<exists>s5. writeAt (of_nat p + 40 - 8) (put64 (of_nat m)) s4 = (Inr (), s5) \<and>
      winv sip D G s5 (?h2(p \<mapsto> JField (f\<lparr>f_HeadDataOffset := of_nat m\<rparr>) n)) \<and>
      extends G ?h2 (?h2(p \<mapsto> JField (f\<lparr>f_HeadDataOffset := of_nat m\<rparr>) n)) \<and> fsize s5 = fsize s4"
    using fp(1) field_parts(2)[OF fp(1)] not_table[OF s4(1) p2]
    by (intro write_obj[OF s4(1) p2 _ off]) (simp_all add: wf_obj_def)
  then obtain s5 h5 where wr: "writeAt (of_nat p + 40 - 8) (put64 (of_nat m)) s4 = (Inr (), s5)"
    and s5: "winv sip D G s5 h5" "extends G ?h2 h5" "fsize s5 = fsize s4" by blast
  obtain d5 where d5: "h5 m = Some (JData d5 data)" using extendsD(1)[OF s5(2)] by fastforce
  have tab: "length (jf_dataHashTable s5) = 2047"
    using winvD(6)[OF s5(1)] by (simp add: tables_ok_def DefaultDataHashTableSize_def)
  then obtain i where i: "hashIdx jf_dataHashTable hash s5 = (Inr (of_nat i), s5)"
    "i < length (jf_dataHashTable s5)"
    using hashIdx_run[of jf_dataHashTable s5 hash] by auto
  obtain s6 h6 where ln: "linkDataHash (of_nat m) (of_nat i) s5 = (Inr (), s6)"
    and s6: "winv sip D G s6 h6" "extends G h5 h6" "fsize s6 = fsize s5"
    using linkDataHash_run[OF s5(1) i(2) d5] by blast
  let ?g = "\<lambda>h. h\<lparr>h_NObjects := h_NObjects h + 1, h_NData := h_NData h + 1,
          h_TailObjectOffset := of_nat m\<rparr>"
  let ?s7 = "s6\<lparr>jf_header := ?g (jf_header s6)\<rparr>"
  have "appendData sip data hash s = (Inr (of_nat m), ?s7)"
    using cut ef rd al w wr i(1) ln
    by (simp add: appendData_def Let_def bindE_Inr thenE_Inr set_header_run)
  moreover have "winv sip D G ?s7 h6"
    by (rule winv_header[OF s6(1)]) simp_all
  moreover have "extends G h h6"
    using s1(2) s4(2) s5(2) s6(2) by (blast intro: extends_trans)
  moreover obtain d6 where "h6 m = Some (JData d6 data)" using extendsD(1)[OF s6(2) d5] ..
  moreover have "fsize ?s7 \<le> fsize s + 118 + 2 * length data"
    using s6(3) s5(3) s4(3) s2(4) s1(4) k by simp
  ultimately show ?thesis by blast
qed

section \<open>Entry arrays of data objects\<close>

text \<open>A new array starts with the entry in its first slot.\<close>

definition first_items :: "u64 \<Rightarrow> u64 list" where
  "first_items e = (replicate 16 0)[0 := e]"

lemma createEntryArray_run:
  assumes inv: "winv sip D G s h" and room: "fsize s + 159 < 2 ^ 32"
  shows "\<exists>n s' h' a. createEntryArray e s = (Inr (of_nat n), s') \<and> winv sip D G s' h' \<and>
    extends G h h' \<and> fsize s \<le> n \<and> n \<notin> G \<and> h' = h(n \<mapsto> JArray a (first_items e)) \<and>
    a_NextEntryArrayOffset a = 0 \<and> fsize s' \<le> fsize s + 159"
proof -
  let ?a = "new_entry_array (of_nat (EntryArrayObjectHeaderSize + 8 * 16))"
  have wf: "wf_obj (JArray ?a (first_items e))"
    by (simp add: wf_obj_def new_entry_array_def first_items_def)
  obtain n s1 where al: "alignedEnd s = (Inr (of_nat n), s1)" and s1: "winv sip D G s1 h"
    "pos (jf_f s1) = n" "fsize s1 = n" "fsize s \<le> n" "n \<le> fsize s + 7"
    using alignedEnd_run[OF inv] room by auto
  have link: "obj_link_ok G h (fsize s1) (JArray ?a (first_items e))"
    by (simp add: link_ok_def new_entry_array_def)
  let ?h = "h(n \<mapsto> JArray ?a (first_items e))"
  obtain s2 s3 where w: "on_disk (os_write (enc_entry_array_object ?a)) s1 = (Inr (), s2)"
    "on_disk (os_write (enc_list put64 (first_items e))) s2 = (Inr (), s3)"
    and s3: "winv sip D G s3 ?h" "extends G h ?h" "fsize s3 = n + 152" "h n = None"
    using write_object[OF s1(1) _ wf _ _ link, of "enc_entry_array_object ?a"
        "enc_list put64 (first_items e)"] s1 room
    by (auto simp: first_items_def)
  let ?g = "\<lambda>h. h\<lparr>h_NObjects := h_NObjects h + 1,
         h_NEntryArrays := h_NEntryArrays h + 1, h_TailObjectOffset := of_nat n\<rparr>"
  let ?s4 = "s3\<lparr>jf_header := ?g (jf_header s3)\<rparr>"
  have "createEntryArray e s = (Inr (of_nat n), ?s4)"
    using al w by (simp add: createEntryArray_def Let_def bindE_Inr thenE_Inr set_header_run
        first_items_def)
  moreover have "winv sip D G ?s4 ?h" by (rule winv_header[OF s3(1)]) simp_all
  moreover have "n \<notin> G" using winvD(9)[OF inv] s3(4) by auto
  moreover have "a_NextEntryArrayOffset ?a = 0" by (simp add: new_entry_array_def)
  ultimately show ?thesis using s1 s3
    by (intro exI[of _ n] exI[of _ ?s4] exI[of _ ?h] exI[of _ ?a]) simp
qed

lemma first_free_Some: "first_free xs = Some i \<Longrightarrow> i < length xs \<and> xs ! i = 0"
  by (induction xs arbitrary: i) (auto split: if_splits)

lemma get64_list: "dec_list get64 8 (length xs) (enc_list put64 xs) = xs"
  using u64_codec.dec_list_enc_list[of xs "[]"] by simp

lemma of_nat64_small: "p < 2 ^ 32 \<Longrightarrow> (of_nat p :: u64) = 0 \<longleftrightarrow> p = 0"
  using of_nat64_eq_0[of p] by simp

text \<open>Following a chain of arrays that do not belong to the file's own chain.\<close>

lemma appendToEntryArray_run:
  assumes "winv sip D G s h" and "h p = Some (JArray a xs)" and "p \<notin> G"
    and "fsize s + 159 < 2 ^ 32" and "fsize s < fuel + p"
  shows "\<exists>s' h'. appendToEntryArray fuel (of_nat p) e s = (Inr (), s') \<and> winv sip D G s' h' \<and>
    extends G h h' \<and> fsize s' \<le> fsize s + 159"
  using assms(2,3,5)
proof (induction fuel arbitrary: p a xs)
  case 0
  then show ?case using heap_in_file[OF assms(1) "0.prems"(1)] by simp
next
  case (Suc fuel)
  note inv = assms(1) and room = assms(4)
  note p = Suc.prems(1)
  note f = heap_in_file[OF inv p]
  have off: "(of_nat p :: u64) = of_nat (p + 0)" by simp
  have w: "wf_entry_array_object a" using wf_obj_parts(4)[OF f(1)] .
  have rd: "readAt (of_nat p) 24 s = (Inr (enc_entry_array_object a), s)"
    using readAt_obj[OF inv p _ off, of 24] array_parts(1)[OF f(1)] by simp
  have dec: "dec_entry_array_object (enc_entry_array_object a) = a"
    using w by (rule entry_array_object_codec.dec_enc)
  have link: "link_ok G h p (a_NextEntryArrayOffset a)"
    using winvD(5)[OF inv] p Suc.prems(2) unfolding arrays_ok_def by fastforce
  show ?case
  proof (cases "a_NextEntryArrayOffset a = 0")
    case False
    with link obtain q a' xs' where q: "a_NextEntryArrayOffset a = of_nat q" "p < q" "q \<notin> G"
      "h q = Some (JArray a' xs')" unfolding link_ok_def by blast
    have "appendToEntryArray (Suc fuel) (of_nat p) e s = appendToEntryArray fuel (of_nat q) e s"
      using rd dec False q(1) by (simp add: bindE_Inr Let_def)
    moreover have "fsize s < fuel + q" using Suc.prems(3) q(2) by simp
    ultimately show ?thesis using Suc.IH[OF q(4,3)] by simp
  next
    case True
    let ?n = "length xs"
    have n: "24 + 8 * ?n < 2 ^ 32" using f(3) winvD(3)[OF inv] by simp
    have "oh_Size (a_Object a) = of_nat (24 + 8 * ?n)" using f(1) by (simp add: wf_obj_def)
    then have cnt: "unat ((oh_Size (a_Object a) - 24) div 8) = ?n"
    proof -
      assume sz: "oh_Size (a_Object a) = of_nat (24 + 8 * ?n)"
      have "oh_Size (a_Object a) - 24 = of_nat (8 * ?n)" unfolding sz by simp
      moreover have "unat (of_nat (8 * ?n) :: u64) = 8 * ?n" using n by (intro unat_of_nat64) simp
      ultimately show ?thesis by (simp add: unat_div_distrib)
    qed
    have off24: "(of_nat p + 24 :: u64) = of_nat (p + 24)" by simp
    have rd2: "readAt (of_nat p + 24) (?n * 8) s = (Inr (enc_list put64 xs), s)"
      using readAt_obj[OF inv p _ off24, of "?n * 8"] array_parts(2)[OF f(1)]
      by (simp add: mult.commute)
    have body: "appendToEntryArray (Suc fuel) (of_nat p) e s =
      (case first_free xs of
         Some i \<Rightarrow> writeAt (of_nat p + 24 + of_nat (i * 8)) (put64 e) s
       | None \<Rightarrow> bindE (createEntryArray e) (\<lambda>n. writeAt (of_nat p + 16) (put64 n)) s)"
      using rd dec True cnt rd2 n
      by (simp add: bindE_Inr Let_def get64_list split: option.split)
    show ?thesis
    proof (cases "first_free xs")
      case (Some i)
      then have i: "i < ?n" using first_free_Some by blast
      have offi: "(of_nat p + 24 + of_nat (i * 8) :: u64) = of_nat (p + (24 + 8 * i))"
        by (simp add: mult.commute)
      have "obj_link_ok G h p (JArray a (xs[i := e]))"
        using winvD(5)[OF inv] p unfolding arrays_ok_def by fastforce
      then have "\<exists>s'. writeAt (of_nat p + 24 + of_nat (i * 8)) (put64 e) s = (Inr (), s') \<and>
          winv sip D G s' (h(p \<mapsto> JArray a (xs[i := e]))) \<and>
          extends G h (h(p \<mapsto> JArray a (xs[i := e]))) \<and> fsize s' = fsize s"
        using i f(1) array_parts(4)[OF f(1) i] not_table[OF inv p] Suc.prems(2)
        by (intro write_obj[OF inv p _ offi]) (simp_all add: wf_obj_def)
      with body Some show ?thesis by auto
    next
      case None
      obtain m s1 h1 b where c: "createEntryArray e s = (Inr (of_nat m), s1)"
        and s1: "winv sip D G s1 h1" "extends G h h1" "fsize s \<le> m" "m \<notin> G"
          "h1 = h(m \<mapsto> JArray b (first_items e))" "fsize s1 \<le> fsize s + 159"
        using createEntryArray_run[OF inv room, of e] by blast
      have pm: "p < m" using f(3) obj_size_pos[of "JArray a xs"] s1(3) by simp
      then have p1: "h1 p = Some (JArray a xs)" using s1(5) p by simp
      have m1: "h1 m = Some (JArray b (first_items e))" using s1(5) by simp
      let ?ob = "JArray (a\<lparr>a_NextEntryArrayOffset := of_nat m\<rparr>) xs"
      have off16: "(of_nat p + 16 :: u64) = of_nat (p + 16)" by simp
      have "link_ok G h1 p (of_nat m)" using pm s1(4) m1 unfolding link_ok_def by blast
      then have "\<exists>s'. writeAt (of_nat p + 16) (put64 (of_nat m)) s1 = (Inr (), s') \<and>
          winv sip D G s' (h1(p \<mapsto> ?ob)) \<and> extends G h1 (h1(p \<mapsto> ?ob)) \<and> fsize s' = fsize s1"
        using f(1) array_parts(3)[OF f(1)] not_table[OF s1(1) p1] Suc.prems(2)
        by (intro write_obj[OF s1(1) p1 _ off16]) (simp_all add: wf_obj_def)
      then obtain s2 h2 where s2: "writeAt (of_nat p + 16) (put64 (of_nat m)) s1 = (Inr (), s2)"
        "winv sip D G s2 h2" "extends G h1 h2" "fsize s2 = fsize s1"
        by blast
      have "appendToEntryArray (Suc fuel) (of_nat p) e s = (Inr (), s2)"
        using None c s2(1) by (simp only: body) (simp add: bindE_Inr)
      with s2 s1(6) extends_trans[OF s1(2) s2(3)] show ?thesis by auto
    qed
  qed
qed

lemma dec_info: "dec_data_entry_info (enc_data_entry_info i) = i"
  using data_entry_info_codec.dec_enc by simp

lemma linkDataToEntry_run:
  assumes inv: "winv sip D G s h" and p: "h p = Some (JData d pl)"
    and room: "fsize s + 159 < 2 ^ 32"
  shows "\<exists>s' h'. linkDataToEntry (of_nat p) e s = (Inr (), s') \<and> winv sip D G s' h' \<and>
    extends G h h' \<and> fsize s' \<le> fsize s + 159"
proof -
  note f = heap_in_file[OF inv p]
  let ?info = "\<lparr>di_EntryOffset = d_EntryOffset d, di_EntryArrayOffset = d_EntryArrayOffset d,
       di_NEntries = d_NEntries d\<rparr>"
  have off: "(of_nat p + 64 - 24 :: u64) = of_nat (p + 40)" by simp
  have rd: "readAt (of_nat p + 64 - 24) 24 s = (Inr (enc_data_entry_info ?info), s)"
    using readAt_obj[OF inv p _ off, of 24] data_parts(3)[OF f(1)] by simp
  have link0: "link_ok G h 0 (d_EntryArrayOffset d)"
    using winvD(5)[OF inv] p unfolding arrays_ok_def by fastforce
  let ?mid = "if di_EntryOffset ?info = 0 then returnE (?info\<lparr>di_EntryOffset := e\<rparr>)
         else if di_EntryArrayOffset ?info = 0 then
           bindE (createEntryArray e) (\<lambda>arrayOffset.
             returnE (?info\<lparr>di_EntryArrayOffset := arrayOffset\<rparr>))
         else
           bindE (getE chain_fuel) (\<lambda>fuel.
           thenE (appendToEntryArray fuel (di_EntryArrayOffset ?info) e) (returnE ?info))"
  have "\<exists>i s1 h1. ?mid s = (Inr i, s1) \<and> winv sip D G s1 h1 \<and> extends G h h1 \<and>
      fsize s1 \<le> fsize s + 159 \<and> link_ok G h1 0 (di_EntryArrayOffset i)"
  proof -
    consider "d_EntryOffset d = 0" | "d_EntryOffset d \<noteq> 0" "d_EntryArrayOffset d = 0"
      | "d_EntryOffset d \<noteq> 0" "d_EntryArrayOffset d \<noteq> 0" by blast
    then show ?thesis
    proof cases
      case 1
      then show ?thesis using inv link0
        by (intro exI[of _ "?info\<lparr>di_EntryOffset := e\<rparr>"] exI[of _ s] exI[of _ h]) simp
    next
      case 2
      obtain n s1 h1 a where c: "createEntryArray e s = (Inr (of_nat n), s1)" "winv sip D G s1 h1"
        "extends G h h1" "fsize s \<le> n" "n \<notin> G" "h1 = h(n \<mapsto> JArray a (first_items e))"
        "fsize s1 \<le> fsize s + 159"
        using createEntryArray_run[OF inv room, of e] by blast
      have "0 < n" using c(4) winvD(2)[OF inv] by linarith
      then have "link_ok G h1 0 (of_nat n)" using c(5,6) unfolding link_ok_def by auto
      with 2 c show ?thesis
        by (intro exI[of _ "?info\<lparr>di_EntryArrayOffset := of_nat n\<rparr>"] exI[of _ s1] exI[of _ h1])
          (simp add: bindE_Inr del: fun_upd_apply)
    next
      case 3
      with link0 obtain q a xs where q: "d_EntryArrayOffset d = of_nat q" "q \<notin> G"
        "h q = Some (JArray a xs)" unfolding link_ok_def by blast
      have "fsize s < chain_fuel s + q" by (simp add: chain_fuel_def)
      from appendToEntryArray_run[OF inv q(3,2) room this] obtain s1 h1 where
        c: "appendToEntryArray (chain_fuel s) (of_nat q) e s = (Inr (), s1)" "winv sip D G s1 h1"
        "extends G h h1" "fsize s1 \<le> fsize s + 159" by blast
      from 3 c(1) q(1) have "?mid s = (Inr ?info, s1)" by (simp add: thenE_Inr)
      with c link_ok_extends[OF link0 c(3)] show ?thesis
        by (intro exI[of _ ?info] exI[of _ s1] exI[of _ h1]) simp
    qed
  qed
  then obtain i s1 h1 where mid: "?mid s = (Inr i, s1)" and s1: "winv sip D G s1 h1"
    "extends G h h1" "fsize s1 \<le> fsize s + 159" "link_ok G h1 0 (di_EntryArrayOffset i)"
    by blast
  let ?i = "i\<lparr>di_NEntries := di_NEntries i + 1\<rparr>"
  obtain d1 where d1: "h1 p = Some (JData d1 pl)" using extendsD(1)[OF s1(2) p] ..
  note f1 = heap_in_file[OF s1(1) d1]
  let ?ob = "JData (d1\<lparr>d_EntryOffset := di_EntryOffset ?i, d_EntryArrayOffset := di_EntryArrayOffset ?i,
         d_NEntries := di_NEntries ?i\<rparr>) pl"
  have "\<exists>s'. writeAt (of_nat p + 64 - 24) (enc_data_entry_info ?i) s1 = (Inr (), s') \<and>
      winv sip D G s' (h1(p \<mapsto> ?ob)) \<and> extends G h1 (h1(p \<mapsto> ?ob)) \<and> fsize s' = fsize s1"
    using f1(1) data_updates(2)[OF f1(1), of ?i] not_table[OF s1(1) d1] s1(4)
    by (intro write_obj[OF s1(1) d1 _ off]) (simp_all add: wf_obj_def)
  then obtain s2 h2 where w: "writeAt (of_nat p + 64 - 24) (enc_data_entry_info ?i) s1 = (Inr (), s2)"
    and s2: "winv sip D G s2 h2" "extends G h1 h2" "fsize s2 = fsize s1" by blast
  have "linkDataToEntry (of_nat p) e s = (Inr (), s2)"
    using rd mid w by (simp add: linkDataToEntry_def Let_def bindE_Inr dec_info cong: if_cong)
  with s2 s1 extends_trans[OF s1(2) s2(2)] show ?thesis by auto
qed

end
