(* ===== verification/WriterLog.thy ===== *)
theory WriterLog
  imports WriterSteps
begin

text \<open>
  The abstract specification of the writer of \<open>journal.go\<close>: a file is a log, the list of the
  entries appended to it. \<open>log_inv\<close> is the abstraction relation between a writer state and its
  log; \<open>AppendEntry\<close> appends exactly one entry to the log, and \<open>Create\<close> starts an empty one.
\<close>

section \<open>What the operations on fields and data leave alone\<close>

definition core :: "jfile \<Rightarrow> id128 \<times> id128 \<times> string \<times> header" where
  "core s = (jf_bootID s, jf_machineID s, jf_path s, (jf_header s)\<lparr>h_NObjects := 0, h_NData := 0,
     h_NFields := 0, h_NEntryArrays := 0, h_TailObjectOffset := 0\<rparr>)"

lemma core_updates [simp]:
  "core (s\<lparr>jf_f := d\<rparr>) = core s" "core (s\<lparr>jf_dataHashTable := t\<rparr>) = core s"
  "core (s\<lparr>jf_fieldHashTable := t\<rparr>) = core s" "core (s\<lparr>jf_dataCache := c\<rparr>) = core s"
  "core (s\<lparr>jf_fieldCache := c\<rparr>) = core s" "core (s\<lparr>jf_dirty := b\<rparr>) = core s"
  by (simp_all add: core_def)

lemma keeps_writer_io [keeps_intros]:
  "keeps core (on_disk m)" "keeps core (readAt off n)" "keeps core (writeAt off bs)"
  "keeps core (make_slice k w)"
  by (simp_all add: on_disk_def readAt_def writeAt_def make_slice_def keeps_intros)

lemma keeps_set_header [keeps_intros]:
  "(\<And>s. core (s\<lparr>jf_header := g (jf_header s)\<rparr>) = core s) \<Longrightarrow> keeps core (set_header g)"
  unfolding set_header_def by (rule keeps_modify)

lemma keeps_alignedEnd [keeps_intros]: "keeps core alignedEnd"
  unfolding alignedEnd_def Let_def by (intro keeps_intros)

lemma keeps_hashIdx [keeps_intros]: "keeps core (hashIdx t hash)"
  unfolding hashIdx_def by (intro keeps_intros)

lemma keeps_linkDataHash [keeps_intros]: "keeps core (linkDataHash off idx)"
  unfolding linkDataHash_def Let_def by (intro keeps_intros) simp

lemma keeps_linkFieldHash [keeps_intros]: "keeps core (linkFieldHash off idx)"
  unfolding linkFieldHash_def Let_def by (intro keeps_intros) simp

lemma keeps_ensureField [keeps_intros]: "keeps core (ensureField name hash)"
  unfolding ensureField_def Let_def
  by (auto intro!: keeps_intros split: option.split simp: core_def)

lemma keeps_appendData [keeps_intros]: "keeps core (appendData sip data hash)"
  unfolding appendData_def Let_def
  by (auto intro!: keeps_intros split: option.split prod.split simp: core_def)

lemma keeps_createEntryArray [keeps_intros]: "keeps core (createEntryArray e)"
  unfolding createEntryArray_def Let_def by (intro keeps_intros) (simp add: core_def)

lemma keeps_appendToEntryArray [keeps_intros]: "keeps core (appendToEntryArray fuel a e)"
proof (induction fuel arbitrary: a)
  case 0
  show ?case unfolding appendToEntryArray.simps by (rule keeps_fail)
next
  case (Suc fuel)
  show ?case unfolding appendToEntryArray.simps Let_def
    by (intro keeps_intros Suc.IH) (auto split: option.split intro!: keeps_intros)
qed

lemma keeps_linkDataToEntry [keeps_intros]: "keeps core (linkDataToEntry d e)"
  unfolding linkDataToEntry_def Let_def by (intro keeps_intros)

lemma core_header:
  assumes "core s' = core s"
  shows "h_FileID (jf_header s') = h_FileID (jf_header s)"
    and "h_TailEntrySeqnum (jf_header s') = h_TailEntrySeqnum (jf_header s)"
    and "h_TailEntryArrayOffset (jf_header s') = h_TailEntryArrayOffset (jf_header s)"
    and "h_EntryArrayOffset (jf_header s') = h_EntryArrayOffset (jf_header s)"
    and "h_NEntries (jf_header s') = h_NEntries (jf_header s)"
    and "h_Signature (jf_header s') = h_Signature (jf_header s)"
    and "jf_bootID s' = jf_bootID s"
proof -
  have "jf_bootID s' = jf_bootID s" and "(jf_header s')\<lparr>h_NObjects := 0, h_NData := 0,
     h_NFields := 0, h_NEntryArrays := 0, h_TailObjectOffset := 0\<rparr> = (jf_header s)\<lparr>h_NObjects := 0,
     h_NData := 0, h_NFields := 0, h_NEntryArrays := 0, h_TailObjectOffset := 0\<rparr>" (is "?a = ?b")
    using assms by (simp_all add: core_def)
  then show "jf_bootID s' = jf_bootID s" by simp
  show "h_FileID (jf_header s') = h_FileID (jf_header s)"
    using arg_cong[OF \<open>?a = ?b\<close>, of h_FileID] by simp
  show "h_TailEntrySeqnum (jf_header s') = h_TailEntrySeqnum (jf_header s)"
    using arg_cong[OF \<open>?a = ?b\<close>, of h_TailEntrySeqnum] by simp
  show "h_TailEntryArrayOffset (jf_header s') = h_TailEntryArrayOffset (jf_header s)"
    using arg_cong[OF \<open>?a = ?b\<close>, of h_TailEntryArrayOffset] by simp
  show "h_EntryArrayOffset (jf_header s') = h_EntryArrayOffset (jf_header s)"
    using arg_cong[OF \<open>?a = ?b\<close>, of h_EntryArrayOffset] by simp
  show "h_NEntries (jf_header s') = h_NEntries (jf_header s)"
    using arg_cong[OF \<open>?a = ?b\<close>, of h_NEntries] by simp
  show "h_Signature (jf_header s') = h_Signature (jf_header s)"
    using arg_cong[OF \<open>?a = ?b\<close>, of h_Signature] by simp
qed

section \<open>The data objects of an entry\<close>

definition item_ok :: "heap \<Rightarrow> entry_item \<Rightarrow> string \<Rightarrow> bool" where
  "item_ok h it data \<longleftrightarrow> (\<exists>q d. it_ObjectOffset it = of_nat q \<and> h q = Some (JData d data))"

definition datum :: "string \<times> string \<Rightarrow> string" where
  "datum kv = fst kv @ ''='' @ snd kv"

definition data_cost :: "(string \<times> string) list \<Rightarrow> nat" where
  "data_cost kvs = (\<Sum>kv \<leftarrow> kvs. 118 + 2 * length (datum kv))"

text \<open>The hash of the fields as the format wants it, whatever their order.\<close>

definition xor_of :: "(string \<times> string) list \<Rightarrow> u64 \<Rightarrow> u64" where
  "xor_of kvs x = foldl (\<lambda>x kv. x XOR jenkins_hash64 (datum kv)) x kvs"

text \<open>
  Distinct data have distinct keyed hashes: the writer recognises data by their hash alone.
\<close>

definition no_collision :: "siphash \<Rightarrow> id128 \<Rightarrow> string set \<Rightarrow> bool" where
  "no_collision sip fid D \<longleftrightarrow> inj_on (\<lambda>d. SipHash24 sip d fid) D"

definition keys_ok :: "string set \<Rightarrow> (string \<times> string) list \<Rightarrow> bool" where
  "keys_ok D kvs \<longleftrightarrow> (\<forall>kv \<in> set kvs. CHR ''='' \<notin> set (fst kv) \<and> datum kv \<in> D)"

lemma item_ok_extends: "item_ok h it data \<Longrightarrow> extends G h h' \<Longrightarrow> item_ok h' it data"
  unfolding item_ok_def by (blast dest: extendsD(1))

lemma items_ok_extends:
  "list_all2 (item_ok h) its ds \<Longrightarrow> extends G h h' \<Longrightarrow> list_all2 (item_ok h') its ds"
  by (erule list_all2_mono) (rule item_ok_extends)

lemma datum_cut: "CHR ''='' \<notin> set (fst kv) \<Longrightarrow> go_cut (datum kv) ''='' = Some kv"
  using go_cut_single[of "CHR ''=''" "fst kv" "snd kv"] by (simp add: datum_def)

lemma appendFields_Cons:
  "appendFields sip (kv # kvs) items x s =
     (let data = datum kv; hash = SipHash24 sip data (h_FileID (jf_header s)) in
      bindE (case jf_dataCache s hash of Some offset \<Rightarrow> returnE offset
             | None \<Rightarrow>
                 bindE (mapErrE (wrap_err (''append data '' @ fst kv)) (appendData sip data hash)) (\<lambda>offset.
                 thenE (modifyE (\<lambda>s. s\<lparr>jf_dataCache := (jf_dataCache s)(hash \<mapsto> offset)\<rparr>))
                   (returnE offset)))
        (\<lambda>offset. appendFields sip kvs
           (items @ [\<lparr>it_ObjectOffset = offset, it_Hash = hash\<rparr>]) (x XOR jenkins_hash64 data)) s)"
  by (cases kv) (simp add: datum_def Let_def comp_def cong: option.case_cong)

lemma appendFields_run:
  assumes "winv sip D G s h" and "keys_ok D kvs" and "fsize s + data_cost kvs < 2 ^ 32"
    and "no_collision sip (h_FileID (jf_header s)) D"
  shows "\<exists>items s' h'. appendFields sip kvs its x s = (Inr (its @ items, xor_of kvs x), s') \<and>
    winv sip D G s' h' \<and> extends G h h' \<and> core s' = core s \<and>
    list_all2 (item_ok h') items (List.map datum kvs) \<and> fsize s' \<le> fsize s + data_cost kvs"
  using assms
proof (induction kvs arbitrary: s h its x)
  case Nil
  then show ?case by (intro exI[of _ "[]"] exI[of _ s] exI[of _ h]) (simp add: xor_of_def)
next
  case (Cons kv kvs)
  obtain k v where kv: "kv = (k, v)" by force
  note inv = Cons.prems(1)
  let ?data = "datum kv"
  let ?hash = "SipHash24 sip ?data (h_FileID (jf_header s))"
  have key: "CHR ''='' \<notin> set k" "?data \<in> D" "keys_ok D kvs"
    using Cons.prems(2) kv by (auto simp: keys_ok_def)
  have cost: "data_cost (kv # kvs) = 118 + 2 * length ?data + data_cost kvs"
    by (simp add: data_cost_def)
  let ?get = "\<lambda>cached. case cached of Some offset \<Rightarrow> returnE offset
             | None \<Rightarrow>
                 bindE (mapErrE (wrap_err (''append data '' @ k)) (appendData sip ?data ?hash)) (\<lambda>offset.
                 thenE (modifyE (\<lambda>s. s\<lparr>jf_dataCache := (jf_dataCache s)(?hash \<mapsto> offset)\<rparr>))
                   (returnE offset))"
  have "\<exists>q s1 h1 d. ?get (jf_dataCache s ?hash) s = (Inr (of_nat q), s1) \<and> winv sip D G s1 h1 \<and>
      extends G h h1 \<and> core s1 = core s \<and> h1 q = Some (JData d ?data) \<and>
      fsize s1 \<le> fsize s + (118 + 2 * length ?data)"
  proof (cases "jf_dataCache s ?hash")
    case (Some off)
    then obtain q d pl where q: "off = of_nat q" "h q = Some (JData d pl)" "pl \<in> D"
      "SipHash24 sip pl (h_FileID (jf_header s)) = ?hash"
      using winvD(8)[OF inv] unfolding caches_ok_def by blast
    have "pl = ?data"
      using inj_onD[OF Cons.prems(4)[unfolded no_collision_def] q(4)] q(3) key(2) by simp
    with Some q inv show ?thesis by (intro exI[of _ q] exI[of _ s] exI[of _ h]) auto
  next
    case None
    have cut: "go_cut ?data ''='' = Some (k, v)" using datum_cut[of kv] key(1) kv by simp
    obtain q s1 h1 d where a: "appendData sip ?data ?hash s = (Inr (of_nat q), s1)"
      "winv sip D G s1 h1" "extends G h h1" "h1 q = Some (JData d ?data)"
      "fsize s1 \<le> fsize s + 118 + 2 * length ?data"
      using appendData_run[OF inv cut, where hash = ?hash] Cons.prems(3) cost by auto
    have c: "core s1 = core s" by (rule keepsD[OF keeps_appendData a(1)])
    let ?s2 = "s1\<lparr>jf_dataCache := (jf_dataCache s1)(?hash \<mapsto> of_nat q)\<rparr>"
    have "winv sip D G ?s2 h1"
      using winv_data_cache[OF a(2,4) key(2)] core_header(1)[OF c] by simp
    with None a c show ?thesis
      by (intro exI[of _ q] exI[of _ ?s2] exI[of _ h1] exI[of _ d])
        (simp add: bindE_Inr mapErrE_Inr del: fun_upd_apply)
  qed
  then obtain q s1 h1 d where g: "?get (jf_dataCache s ?hash) s = (Inr (of_nat q), s1)"
    and s1: "winv sip D G s1 h1" "extends G h h1" "core s1 = core s" "h1 q = Some (JData d ?data)"
      "fsize s1 \<le> fsize s + (118 + 2 * length ?data)"
    by blast
  let ?it = "\<lparr>it_ObjectOffset = of_nat q, it_Hash = ?hash\<rparr>"
  let ?x = "x XOR jenkins_hash64 ?data"
  obtain items s2 h2 where r: "appendFields sip kvs (its @ [?it]) ?x s1 =
      (Inr ((its @ [?it]) @ items, xor_of kvs ?x), s2)"
    and s2: "winv sip D G s2 h2" "extends G h1 h2" "core s2 = core s1"
      "list_all2 (item_ok h2) items (List.map datum kvs)" "fsize s2 \<le> fsize s1 + data_cost kvs"
    using Cons.IH[OF s1(1) key(3), of "its @ [?it]" ?x] s1(5) cost Cons.prems(3,4)
      core_header(1)[OF s1(3)] by auto
  have "item_ok h1 ?it ?data" using s1(4) unfolding item_ok_def by (simp, blast)
  then have "item_ok h2 ?it ?data" using s2(2) by (rule item_ok_extends)
  moreover have "appendFields sip (kv # kvs) its x s =
      (Inr (its @ (?it # items), xor_of (kv # kvs) x), s2)"
    using g r unfolding appendFields_Cons Let_def kv fst_conv
    by (simp add: bindE_Inr xor_of_def)
  ultimately show ?case
    using s2 s1 cost extends_trans[OF s1(2) s2(2)]
    by (intro exI[of _ "?it # items"] exI[of _ s2] exI[of _ h2]) simp
qed

section \<open>The log of a file\<close>

text \<open>An entry of the log: its time, the boot id of the writer, and its fields.\<close>

type_synonym lentry = "u64 \<times> id128 \<times> (string \<times> string) list"

definition entry_ok :: "heap \<Rightarrow> nat \<Rightarrow> nat \<Rightarrow> lentry \<Rightarrow> bool" where
  "entry_ok h p i l \<longleftrightarrow> (case l of (now, boot, kvs) \<Rightarrow>
     (\<exists>e its. h p = Some (JEntry e its) \<and> e_Seqnum e = of_nat i \<and> e_Realtime e = now \<and>
        e_Monotonic e = now \<and> e_BootID e = boot \<and> e_XorHash e = xor_of kvs 0 \<and>
        list_all2 (item_ok h) its (List.map datum kvs)))"

fun entries_ok :: "heap \<Rightarrow> nat \<Rightarrow> nat list \<Rightarrow> lentry list \<Rightarrow> bool" where
  "entries_ok h i [] [] = True"
| "entries_ok h i (p # ps) (l # ls) = (entry_ok h p (Suc i) l \<and> entries_ok h (Suc i) ps ls)"
| "entries_ok h i _ _ = False"

text \<open>The chain of the file's own entry arrays, one entry each.\<close>

definition next_of :: "nat list \<Rightarrow> u64" where
  "next_of as = (case as of [] \<Rightarrow> 0 | a # _ \<Rightarrow> of_nat a)"

fun chain :: "heap \<Rightarrow> nat list \<Rightarrow> nat list \<Rightarrow> bool" where
  "chain h [] [] = True"
| "chain h (a # as) (e # es) =
     ((\<exists>hdr. h a = Some (JArray hdr [of_nat e]) \<and> a_NextEntryArrayOffset hdr = next_of as) \<and> chain h as es)"
| "chain h _ _ = False"

definition tail_of :: "nat list \<Rightarrow> u32" where
  "tail_of as = (if as = [] then 0 else of_nat (last as))"

definition log_inv ::
  "siphash \<Rightarrow> string set \<Rightarrow> jfile \<Rightarrow> heap \<Rightarrow> nat list \<Rightarrow> nat list \<Rightarrow> lentry list \<Rightarrow> bool" where
  "log_inv sip D s h as es log \<longleftrightarrow> winv sip D (set as) s h \<and> distinct as \<and> chain h as es \<and>
     entries_ok h 0 es log \<and> h_EntryArrayOffset (jf_header s) = next_of as \<and>
     h_TailEntryArrayOffset (jf_header s) = tail_of as \<and>
     h_TailEntrySeqnum (jf_header s) = of_nat (length log) \<and>
     h_NEntries (jf_header s) = of_nat (length log) \<and>
     h_Signature (jf_header s) = HeaderSignature \<and>
     (jf_dirty s \<or> slice 0 HeaderSize (bytes (jf_f s)) = enc_header (jf_header s))"

lemma entry_ok_extends: "entry_ok h p i l \<Longrightarrow> extends G h h' \<Longrightarrow> entry_ok h' p i l"
  unfolding entry_ok_def by (auto dest: extendsD(3) intro: items_ok_extends)

lemma entries_ok_extends: "entries_ok h i ps ls \<Longrightarrow> extends G h h' \<Longrightarrow> entries_ok h' i ps ls"
  by (induction h i ps ls rule: entries_ok.induct) (auto intro: entry_ok_extends)

lemma entries_ok_snoc:
  "entries_ok h i ps ls \<Longrightarrow> entry_ok h p (Suc (i + length ls)) l \<Longrightarrow> entries_ok h i (ps @ [p]) (ls @ [l])"
  by (induction h i ps ls rule: entries_ok.induct) auto

lemma entries_ok_length: "entries_ok h i ps ls \<Longrightarrow> length ps = length ls"
  by (induction h i ps ls rule: entries_ok.induct) auto

lemma chain_length: "chain h as es \<Longrightarrow> length as = length es"
  by (induction h as es rule: chain.induct) auto

lemma chain_extends: "chain h as es \<Longrightarrow> extends G h h' \<Longrightarrow> set as \<subseteq> G \<Longrightarrow> chain h' as es"
  by (induction h as es rule: chain.induct) (auto dest: extendsD(5))

lemma chain_arrays: "chain h as es \<Longrightarrow> a \<in> set as \<Longrightarrow> \<exists>hdr e. h a = Some (JArray hdr [of_nat e])"
  by (induction h as es rule: chain.induct) auto

lemma chain_last:
  "chain h as es \<Longrightarrow> as \<noteq> [] \<Longrightarrow>
   \<exists>hdr. h (last as) = Some (JArray hdr [of_nat (last es)]) \<and> a_NextEntryArrayOffset hdr = 0"
proof (induction h as es rule: chain.induct)
  case (2 h a as e es)
  then show ?case by (cases as; cases es) (auto simp: next_of_def)
qed auto

lemma chain_cong: "chain h as es \<Longrightarrow> \<forall>a \<in> set as. h' a = h a \<Longrightarrow> chain h' as es"
  by (induction h as es rule: chain.induct) auto

lemma chain_snoc:
  assumes "chain h as es" and "distinct as" and "m \<notin> set as" and "as \<noteq> []"
    and "h (last as) = Some (JArray hdr [x])" and "h' m = Some (JArray hm [of_nat e])"
    and "a_NextEntryArrayOffset hm = 0"
    and "h' (last as) = Some (JArray (hdr\<lparr>a_NextEntryArrayOffset := of_nat m\<rparr>) [x])"
    and "\<forall>a \<in> set (butlast as). h' a = h a"
  shows "chain h' (as @ [m]) (es @ [e])"
  using assms
proof (induction h as es rule: chain.induct)
  case (2 h a as e' es)
  show ?case
  proof (cases as)
    case Nil
    with 2 show ?thesis by (cases es) (auto simp: next_of_def)
  next
    case (Cons b bs)
    have "chain h' (as @ [m]) (es @ [e])"
      using 2 Cons by (intro "2.IH") auto
    moreover have "h' a = h a" using "2.prems"(9) Cons by simp
    moreover have "next_of (as @ [m]) = next_of as" using Cons by (simp add: next_of_def)
    ultimately show ?thesis using "2.prems"(1) by auto
  qed
qed auto

lemma log_inv_length:
  assumes "log_inv sip D s h as es log"
  shows "length log < 2 ^ 32" and "length as = length log" and "length es = length log"
proof -
  have inv: "winv sip D (set as) s h" and d: "distinct as" and ch: "chain h as es"
    and en: "entries_ok h 0 es log"
    using assms unfolding log_inv_def by blast+
  show es: "length es = length log" using entries_ok_length[OF en] .
  with chain_length[OF ch] show as: "length as = length log" by simp
  have "set as \<subseteq> {..< fsize s}"
  proof
    fix a assume "a \<in> set as"
    then obtain hdr e where "h a = Some (JArray hdr [of_nat e])" using chain_arrays[OF ch] by blast
    from heap_in_file(3)[OF inv this] show "a \<in> {..< fsize s}" by simp
  qed
  then have "card (set as) \<le> fsize s" using card_mono[of "{..< fsize s}" "set as"] by simp
  with d as winvD(3)[OF inv] show "length log < 2 ^ 32" by (simp add: distinct_card)
qed

section \<open>Linking an entry to its data, and to the chain\<close>

lemma link_all_run:
  assumes "winv sip D G s h" and "list_all2 (item_ok h) its ds"
    and "fsize s + 159 * length its < 2 ^ 32"
  shows "\<exists>s' h'. forE its (\<lambda>item. mapErrE w (linkDataToEntry (it_ObjectOffset item) e)) s = (Inr (), s') \<and>
    winv sip D G s' h' \<and> extends G h h' \<and> core s' = core s \<and> fsize s' \<le> fsize s + 159 * length its"
  using assms
proof (induction its arbitrary: s h ds)
  case Nil
  then show ?case by (intro exI[of _ s] exI[of _ h]) simp
next
  case (Cons it its)
  then obtain data ds' where ds: "item_ok h it data" "list_all2 (item_ok h) its ds'"
    by (auto simp: list_all2_Cons1)
  then obtain q d where q: "it_ObjectOffset it = of_nat q" "h q = Some (JData d data)"
    unfolding item_ok_def by blast
  obtain s1 h1 where l: "linkDataToEntry (of_nat q) e s = (Inr (), s1)" "winv sip D G s1 h1"
    "extends G h h1" "fsize s1 \<le> fsize s + 159"
    using linkDataToEntry_run[OF Cons.prems(1) q(2), of e] Cons.prems(3) by auto
  have c: "core s1 = core s" by (rule keepsD[OF keeps_linkDataToEntry l(1)])
  obtain s2 h2 where r: "forE its (\<lambda>item. mapErrE w (linkDataToEntry (it_ObjectOffset item) e)) s1 =
      (Inr (), s2)" "winv sip D G s2 h2" "extends G h1 h2" "core s2 = core s1"
    "fsize s2 \<le> fsize s1 + 159 * length its"
    using Cons.IH[OF l(2) items_ok_extends[OF ds(2) l(3)]] l(4) Cons.prems(3) by auto
  have "forE (it # its) (\<lambda>item. mapErrE w (linkDataToEntry (it_ObjectOffset item) e)) s = (Inr (), s2)"
    using l(1) r(1) q(1) by (simp add: thenE_Inr mapErrE_Inr)
  with r l c extends_trans[OF l(3) r(3)] show ?case
    by (intro exI[of _ s2] exI[of _ h2]) simp
qed

lemma keeps_appendEntryArray: "keeps core (appendEntryArray t e)"
  unfolding appendEntryArray_def Let_def by (intro keeps_intros)

lemma arrays_ok_insert:
  assumes "arrays_ok G h" and "h m = None"
  shows "arrays_ok (insert m G) (h(m \<mapsto> JArray a xs))"
proof -
  have link: "link_ok (insert m G) (h(m \<mapsto> JArray a xs)) p w" if "link_ok G h p w" for p w
    using that assms(2) unfolding link_ok_def by (metis fun_upd_other insertE option.distinct(1))
  have "obj_link_ok (insert m G) (h(m \<mapsto> JArray a xs)) p ob"
    if "(h(m \<mapsto> JArray a xs)) p = Some ob" for p ob
  proof (cases "p = m")
    case True
    with that have "ob = JArray a xs" by auto
    with True show ?thesis by simp
  next
    case False
    with that have "obj_link_ok G h p ob" using assms(1) unfolding arrays_ok_def by simp
    with False show ?thesis by (cases ob) (auto intro: link)
  qed
  then show ?thesis unfolding arrays_ok_def by blast
qed

lemma appendEntryArray_run:
  assumes inv: "winv sip D (set as) s h" and ch: "chain h as es" and dist: "distinct as"
    and room: "fsize s + 39 < 2 ^ 32"
  shows "\<exists>m s' h'. appendEntryArray (tail_of as) (of_nat e) s = (Inr (of_nat m), s') \<and>
    winv sip D (set (as @ [m])) s' h' \<and> extends {} h h' \<and> chain h' (as @ [m]) (es @ [e]) \<and>
    m \<notin> set as \<and> core s' = core s \<and> fsize s + 32 \<le> fsize s' \<and> fsize s' \<le> fsize s + 39"
proof -
  let ?G = "set as"
  let ?a = "new_entry_array (of_nat (EntryArrayObjectHeaderSize + 8))"
  have wf: "wf_obj (JArray ?a [of_nat e])" by (simp add: wf_obj_def new_entry_array_def)
  obtain m s1 where al: "alignedEnd s = (Inr (of_nat m), s1)" and s1: "winv sip D ?G s1 h"
    "pos (jf_f s1) = m" "fsize s1 = m" "fsize s \<le> m" "m \<le> fsize s + 7"
    using alignedEnd_run[OF inv] room by auto
  let ?h = "h(m \<mapsto> JArray ?a [of_nat e])"
  have link: "obj_link_ok ?G h (fsize s1) (JArray ?a [of_nat e])"
    by (simp add: link_ok_def new_entry_array_def)
  obtain s2 s3 where w: "on_disk (os_write (enc_entry_array_object ?a)) s1 = (Inr (), s2)"
    "on_disk (os_write (put64 (of_nat e))) s2 = (Inr (), s3)"
    and s3: "winv sip D ?G s3 ?h" "extends ?G h ?h" "fsize s3 = m + 32" "h m = None"
    using write_object[OF s1(1) _ wf _ _ link, of "enc_entry_array_object ?a" "put64 (of_nat e)"]
      s1 room by (auto simp: enc_list_def)
  have m: "m \<notin> ?G" using winvD(9)[OF inv] s3(4) by auto
  have G': "set (as @ [m]) = insert m ?G" by simp
  have inv3: "winv sip D (insert m ?G) s3 ?h"
    using s3(1) arrays_ok_insert[OF winvD(5)[OF inv] s3(4)] by (simp add: winv_def)
  have "\<exists>s' h'. whenE (tail_of as \<noteq> 0) (writeAt (ucast (tail_of as) + 16) (put64 (of_nat m))) s3 = (Inr (), s') \<and>
      winv sip D (insert m ?G) s' h' \<and> extends {} ?h h' \<and> chain h' (as @ [m]) (es @ [e]) \<and>
      fsize s' = fsize s3"
  proof (cases "as = []")
    case True
    then have "es = []" using ch by (cases es) auto
    with True inv3 show ?thesis
      by (intro exI[of _ s3] exI[of _ ?h]) (auto simp: tail_of_def next_of_def new_entry_array_def)
  next
    case False
    let ?t = "last as"
    obtain hdr where hdr: "h ?t = Some (JArray hdr [of_nat (last es)])" using chain_last[OF ch False] by blast
    note ft = heap_in_file[OF inv hdr]
    have tm: "?t \<noteq> m" using m False by auto
    then have t3: "?h ?t = Some (JArray hdr [of_nat (last es)])" using hdr by simp
    have nz: "tail_of as \<noteq> 0" and uc: "(ucast (tail_of as) :: u64) = of_nat ?t"
    proof -
      have "unat (of_nat ?t :: u32) = ?t" using ft(4) by simp
      then show "tail_of as \<noteq> 0" using False ft(2) by (auto simp: tail_of_def)
      show "(ucast (tail_of as) :: u64) = of_nat ?t"
      proof -
        have "(of_nat (unat (of_nat ?t :: u32)) :: u64) = ucast (of_nat ?t :: u32)" by (rule of_nat_unat)
        with False \<open>unat (of_nat ?t :: u32) = ?t\<close> show ?thesis by (simp add: tail_of_def)
      qed
    qed
    have off: "(of_nat ?t + 16 :: u64) = of_nat (?t + 16)" by simp
    let ?ob = "JArray (hdr\<lparr>a_NextEntryArrayOffset := of_nat m\<rparr>) [of_nat (last es)]"
    have "\<exists>s'. writeAt (of_nat ?t + 16) (put64 (of_nat m)) s3 = (Inr (), s') \<and>
        winv sip D (insert m ?G) s' (?h(?t \<mapsto> ?ob)) \<and> extends {} ?h (?h(?t \<mapsto> ?ob)) \<and> fsize s' = fsize s3"
      using ft(1) array_parts(3)[OF ft(1)] not_table[OF inv3 t3] False
      by (intro write_obj[OF inv3 t3 _ off]) (simp_all add: wf_obj_def)
    moreover have "chain (?h(?t \<mapsto> ?ob)) (as @ [m]) (es @ [e])"
    proof (rule chain_snoc[OF ch dist m False hdr])
      show "(?h(?t \<mapsto> ?ob)) m = Some (JArray ?a [of_nat e])" using tm by simp
      show "a_NextEntryArrayOffset ?a = 0" by (simp add: new_entry_array_def)
      show "(?h(?t \<mapsto> ?ob)) ?t = Some ?ob" by simp
      have "?t \<notin> set (butlast as)" using dist False by (metis append_butlast_last_id distinct_append
            disjoint_insert(1) list.simps(15))
      moreover have "m \<notin> set (butlast as)" using m by (meson in_set_butlastD)
      ultimately show "\<forall>a \<in> set (butlast as). (?h(?t \<mapsto> ?ob)) a = h a" by auto
    qed
    ultimately show ?thesis using nz uc by (simp del: fun_upd_apply) blast
  qed
  then obtain s4 h4 where w4: "whenE (tail_of as \<noteq> 0) (writeAt (ucast (tail_of as) + 16) (put64 (of_nat m))) s3 = (Inr (), s4)"
    and s4: "winv sip D (insert m ?G) s4 h4" "extends {} ?h h4" "chain h4 (as @ [m]) (es @ [e])"
      "fsize s4 = fsize s3"
    by blast
  have run: "appendEntryArray (tail_of as) (of_nat e) s = (Inr (of_nat m), s4)"
    using al w w4 by (simp add: appendEntryArray_def Let_def bindE_Inr thenE_Inr)
  moreover have "core s4 = core s" by (rule keepsD[OF keeps_appendEntryArray run])
  moreover have "extends {} h h4"
    using extends_trans[OF extends_mono[OF s3(2)] s4(2)] by simp
  ultimately show ?thesis using s4 s3 s1 m by (intro exI[of _ m] exI[of _ s4] exI[of _ h4]) simp
qed

section \<open>Appending an entry\<close>

definition entry_cost :: "(string \<times> string) list \<Rightarrow> nat" where
  "entry_cost kvs = data_cost kvs + 175 * length kvs + 110"

lemma header_write:
  assumes inv: "winv sip D G s h" and "k + length ys \<le> HeaderSize"
  shows "writeAt (of_nat k) ys s = (Inr (), set_bytes (splice k ys (bytes (jf_f s))) (pos (jf_f s)) s)"
    and "winv sip D G (set_bytes (splice k ys (bytes (jf_f s))) p s) h"
proof -
  have len: "k + length ys \<le> fsize s" using assms(2) winvD(2)[OF inv] by simp
  then show "writeAt (of_nat k) ys s =
      (Inr (), set_bytes (splice k ys (bytes (jf_f s))) (pos (jf_f s)) s)"
    using winvD(1,3)[OF inv] by (intro writeAt_inside) auto
  show "winv sip D G (set_bytes (splice k ys (bytes (jf_f s))) p s) h"
    using winvD[OF inv] len heap_header[OF winvD(4)[OF inv] assms(2)] by (simp add: winv_def)
qed

lemma wf_header_state [simp]: "wf_header (h\<lparr>h_State := st\<rparr>) = wf_header h"
  and wf_header_arena [simp]: "wf_header (h\<lparr>h_ArenaSize := a\<rparr>) = wf_header h"
  and wf_header_seqnum [simp]: "wf_header (h\<lparr>h_TailEntrySeqnum := q\<rparr>) = wf_header h"
  by (simp_all add: wf_header_def)

lemma beginWrite_run:
  assumes inv: "winv sip D G s h"
  shows "\<exists>s'. beginWrite s = (Inr (), s') \<and> winv sip D G s' h \<and> fsize s' = fsize s \<and>
    jf_header s' = (jf_header s)\<lparr>h_State := StateOnline\<rparr> \<and> jf_bootID s' = jf_bootID s \<and>
    jf_dirty s' = jf_dirty s"
proof (cases "h_State (jf_header s) = StateOnline")
  case True
  then have "(jf_header s)\<lparr>h_State := StateOnline\<rparr> = jf_header s" by simp
  with True inv show ?thesis by (intro exI[of _ s]) (simp add: beginWrite_def)
next
  case False
  let ?s = "s\<lparr>jf_header := (jf_header s)\<lparr>h_State := StateOnline\<rparr>\<rparr>"
  have inv': "winv sip D G ?s h" by (rule winv_header[OF inv]) simp_all
  let ?s' = "set_bytes (splice 16 (put8 StateOnline) (bytes (jf_f ?s))) (pos (jf_f ?s)) ?s"
  have "beginWrite s = (Inr (), ?s')"
    using False header_write(1)[OF inv', of 16 "put8 StateOnline"]
    by (simp add: beginWrite_def thenE_Inr set_header_run)
  moreover have "winv sip D G ?s' h" by (rule header_write(2)[OF inv']) simp
  moreover have "16 + 1 \<le> fsize s" using winvD(2)[OF inv] by simp
  ultimately show ?thesis by (intro exI[of _ ?s']) simp
qed

lemma updateArena_run:
  assumes inv: "winv sip D G s h"
  shows "\<exists>s' a. updateArena s = (Inr (), s') \<and> winv sip D G s' h \<and> fsize s' = fsize s \<and>
    bytes (jf_f s') = bytes (jf_f s) \<and> jf_bootID s' = jf_bootID s \<and> jf_dirty s' = jf_dirty s \<and>
    jf_header s' = (jf_header s)\<lparr>h_ArenaSize := a\<rparr>"
proof -
  let ?s = "set_bytes (bytes (jf_f s)) (fsize s) s"
  let ?a = "of_nat (fsize s) - of_nat HeaderSize"
  let ?s' = "?s\<lparr>jf_header := (jf_header ?s)\<lparr>h_ArenaSize := ?a\<rparr>\<rparr>"
  have "on_disk os_seek_end s = (Inr (of_nat (fsize s)), ?s)"
    using winvD(1)[OF inv] by (simp add: on_disk_def liftE_def os_seek_end_ok set_bytes_def)
  then have "updateArena s = (Inr (), ?s')" by (simp add: updateArena_def set_header_run)
  moreover have "winv sip D G ?s h"
    using winv_pad[OF inv, of "[]" "fsize s"] winvD(3)[OF inv] by simp
  then have "winv sip D G ?s' h" by (rule winv_header) simp_all
  ultimately show ?thesis by (intro exI[of _ ?s'] exI[of _ ?a]) simp
qed

lemma next_of_0: "winv sip D (set as) s h \<Longrightarrow> next_of as = 0 \<longleftrightarrow> as = []"
proof (cases as)
  case (Cons a as')
  assume inv: "winv sip D (set as) s h"
  then obtain ob where "h a = Some ob" using winvD(9)[OF inv] Cons by auto
  from heap_in_file(2,4)[OF inv this] of_nat64_small[of a] Cons show ?thesis
    by (simp add: next_of_def)
qed (simp add: next_of_def)

lemma of_nat_ucast32: "(ucast (of_nat m :: u64) :: u32) = of_nat m"
  by (simp add: unsigned_of_nat word_of_nat_eq_iff)

lemma appendEntryObject_run:
  assumes inv: "winv sip D (set as) s h" and ch: "chain h as es" and dist: "distinct as"
    and ents: "entries_ok h 0 es log" and items: "list_all2 (item_ok h) items (List.map datum kvs)"
    and hdr: "h_EntryArrayOffset (jf_header s) = next_of as"
      "h_TailEntryArrayOffset (jf_header s) = tail_of as"
      "h_TailEntrySeqnum (jf_header s) = of_nat (length log)"
      "h_NEntries (jf_header s) = of_nat (length log)"
      "h_Signature (jf_header s) = HeaderSignature"
    and room: "fsize s + 175 * length items + 110 < 2 ^ 32"
  shows "\<exists>s' h' m p. appendEntryObject now now (xor_of kvs 0) items s = (Inr (), s') \<and>
    log_inv sip D s' h' (as @ [m]) (es @ [p]) (log @ [(now, jf_bootID s, kvs)]) \<and>
    fsize s' \<le> fsize s + 175 * length items + 110 \<and> jf_bootID s' = jf_bootID s \<and>
    h_FileID (jf_header s') = h_FileID (jf_header s)"
proof -
  let ?n = "length items"
  obtain p s1 where al: "alignedEnd s = (Inr (of_nat p), s1)" and s1: "winv sip D (set as) s1 h"
    "pos (jf_f s1) = p" "fsize s1 = p" "fsize s \<le> p" "p \<le> fsize s + 7"
    and sb: "\<exists>bs. s1 = set_bytes bs p s"
    using alignedEnd_run[OF inv] room by auto
  have keep1: "jf_header s1 = jf_header s" "jf_bootID s1 = jf_bootID s" using sb by auto
  let ?s2 = "s1\<lparr>jf_header := (jf_header s1)\<lparr>h_TailEntrySeqnum := h_TailEntrySeqnum (jf_header s1) + 1\<rparr>\<rparr>"
  have s2: "winv sip D (set as) ?s2 h" by (rule winv_header[OF s1(1)]) simp_all
  let ?sq = "h_TailEntrySeqnum (jf_header s) + 1"
  have seq: "?sq = of_nat (Suc (length log))" using hdr(3) by simp
  let ?e = "new_entry_object (of_nat (EntryObjectHeaderSize + ?n * EntryItemSize))
      ?sq now now (jf_bootID s) (xor_of kvs 0)"
  have wf: "wf_obj (JEntry ?e items)"
    using winvD(11)[OF inv] by (simp add: wf_obj_def new_entry_object_def)
  let ?h2 = "h(p \<mapsto> JEntry ?e items)"
  obtain s3 s4 bs4 q4 where w: "on_disk (os_write (enc_entry_object ?e)) ?s2 = (Inr (), s3)"
    "on_disk (os_write (enc_list enc_entry_item items)) s3 = (Inr (), s4)"
    and s4: "s4 = set_bytes bs4 q4 ?s2" "winv sip D (set as) s4 ?h2" "extends (set as) h ?h2"
      "fsize s4 = p + (64 + 16 * ?n)"
    using write_object[OF s2 _ wf, of "enc_entry_object ?e" "enc_list enc_entry_item items"]
      s1 room by auto
  obtain s5 h5 where lk: "forE items (\<lambda>item. mapErrE (wrap_err ''linking data to entry'')
      (linkDataToEntry (it_ObjectOffset item) (of_nat p))) s4 = (Inr (), s5)"
    and s5: "winv sip D (set as) s5 h5" "extends (set as) ?h2 h5" "core s5 = core s4"
      "fsize s5 \<le> fsize s4 + 159 * ?n"
    using link_all_run[OF s4(2) items_ok_extends[OF items s4(3)], of "wrap_err ''linking data to entry''"
        "of_nat p"] s4(4) s1(5) room by auto
  note c5 = core_header[OF s5(3)]
  have h5: "h_TailEntryArrayOffset (jf_header s5) = tail_of as"
    using c5(3) s4(1) keep1 hdr(2) by simp
  have ch5: "chain h5 as es"
    using chain_extends[OF chain_extends[OF ch s4(3)] s5(2)] by simp
  obtain m s6 h6 where aa: "appendEntryArray (tail_of as) (of_nat p) s5 = (Inr (of_nat m), s6)"
    and s6: "winv sip D (set (as @ [m])) s6 h6" "extends {} h5 h6" "chain h6 (as @ [m]) (es @ [p])"
      "m \<notin> set as" "core s6 = core s5" "fsize s5 + 32 \<le> fsize s6" "fsize s6 \<le> fsize s5 + 39"
    using appendEntryArray_run[OF s5(1) ch5 dist, of p] s5(4) s4(4) s1(5) room by auto
  note c6 = core_header[OF s6(5)]
  let ?fin = "finishEntry now now ?sq (of_nat p) (of_nat m) (jf_bootID s)"
  let ?s7 = "s6\<lparr>jf_header := ?fin (jf_header s6)\<rparr>"
  have s7: "winv sip D (set (as @ [m])) ?s7 h6"
    using winvD(11)[OF inv] by (intro winv_header[OF s6(1)])
      (simp_all add: finishEntry_def Let_def wf_header_def)
  obtain s8 a where ua: "updateArena ?s7 = (Inr (), s8)" and s8: "winv sip D (set (as @ [m])) s8 h6"
    "fsize s8 = fsize ?s7" "jf_bootID s8 = jf_bootID ?s7"
    "jf_header s8 = (jf_header ?s7)\<lparr>h_ArenaSize := a\<rparr>"
    using updateArena_run[OF s7] by blast
  let ?s9 = "s8\<lparr>jf_dirty := True\<rparr>"
  have run: "appendEntryObject now now (xor_of kvs 0) items s = (Inr (), ?s9)"
    using al w lk h5 aa ua keep1 s4(1)
    by (simp add: appendEntryObject_def Let_def bindE_Inr thenE_Inr set_header_run)
  have e2: "extends {} h h6"
    using extends_trans[OF extends_mono[OF extends_trans[OF s4(3) s5(2)]] s6(2)] by simp
  have it6: "list_all2 (item_ok h6) items (List.map datum kvs)" by (rule items_ok_extends[OF items e2])
  have pe: "h6 p = Some (JEntry ?e items)"
    using extendsD(3)[OF s6(2)] extendsD(3)[OF s5(2)] by simp
  have ent: "entry_ok h6 p (Suc (length log)) (now, jf_bootID s, kvs)"
    using pe it6 seq by (simp add: entry_ok_def new_entry_object_def)
  have ents6: "entries_ok h6 0 (es @ [p]) (log @ [(now, jf_bootID s, kvs)])"
    using entries_ok_snoc[OF entries_ok_extends[OF ents e2]] ent by simp
  have first: "(if h_EntryArrayOffset (jf_header s6) = 0 then of_nat m else h_EntryArrayOffset (jf_header s6)) =
      next_of (as @ [m])"
    using c6(4) c5(4) s4(1) keep1 hdr(1) next_of_0[OF inv]
    by (cases as) (auto simp: next_of_def)
  have "log_inv sip D ?s9 h6 (as @ [m]) (es @ [p]) (log @ [(now, jf_bootID s, kvs)])"
    unfolding log_inv_def
  proof (intro conjI)
    show "winv sip D (set (as @ [m])) ?s9 h6" using s8(1) by simp
    show "distinct (as @ [m])" using dist s6(4) by simp
    show "chain h6 (as @ [m]) (es @ [p])" by (rule s6(3))
    show "entries_ok h6 0 (es @ [p]) (log @ [(now, jf_bootID s, kvs)])" by (rule ents6)
    show "h_EntryArrayOffset (jf_header ?s9) = next_of (as @ [m])"
      using first s8(4) by (auto simp: finishEntry_def Let_def)
    show "h_TailEntryArrayOffset (jf_header ?s9) = tail_of (as @ [m])"
      using s8(4) by (simp add: finishEntry_def Let_def tail_of_def of_nat_ucast32)
    show "h_TailEntrySeqnum (jf_header ?s9) = of_nat (length (log @ [(now, jf_bootID s, kvs)]))"
      using s8(4) c6(2) c5(2) s4(1) seq keep1 by (simp add: finishEntry_def Let_def)
    show "h_NEntries (jf_header ?s9) = of_nat (length (log @ [(now, jf_bootID s, kvs)]))"
      using s8(4) c6(5) c5(5) s4(1) keep1 hdr(4) by (simp add: finishEntry_def Let_def)
    show "h_Signature (jf_header ?s9) = HeaderSignature"
      using s8(4) c6(6) c5(6) s4(1) keep1 hdr(5) by (simp add: finishEntry_def Let_def)
    show "jf_dirty ?s9 \<or> slice 0 HeaderSize (bytes (jf_f ?s9)) = enc_header (jf_header ?s9)" by simp
  qed
  moreover have "fsize ?s9 \<le> fsize s + 175 * ?n + 110"
    using s8(2) s6(7) s5(4) s4(4) s1(5) by simp
  moreover have "jf_bootID ?s9 = jf_bootID s" using s8(3) c6(7) c5(7) s4(1) keep1 by simp
  moreover have "h_FileID (jf_header ?s9) = h_FileID (jf_header s)"
    using s8(4) c6(1) c5(1) s4(1) keep1 by (simp add: finishEntry_def Let_def)
  ultimately show ?thesis using run by blast
qed

lemma appendLocked_run:
  assumes inv: "log_inv sip D s h as es log" and keys: "keys_ok D kvs"
    and nc: "no_collision sip (h_FileID (jf_header s)) D"
    and room: "fsize s + entry_cost kvs < 2 ^ 32"
  shows "\<exists>s' h' m p. appendLocked sip now kvs s = (Inr (), s') \<and>
    log_inv sip D s' h' (as @ [m]) (es @ [p]) (log @ [(now, jf_bootID s, kvs)]) \<and>
    fsize s' \<le> fsize s + entry_cost kvs \<and> jf_bootID s' = jf_bootID s \<and>
    h_FileID (jf_header s') = h_FileID (jf_header s)"
proof -
  note L = inv[unfolded log_inv_def]
  then have w: "winv sip D (set as) s h" by blast
  obtain s1 where bw: "beginWrite s = (Inr (), s1)" and s1: "winv sip D (set as) s1 h"
    "fsize s1 = fsize s" "jf_header s1 = (jf_header s)\<lparr>h_State := StateOnline\<rparr>"
    "jf_bootID s1 = jf_bootID s"
    using beginWrite_run[OF w] by blast
  let ?s2 = "s1\<lparr>jf_dirty := True\<rparr>"
  have s2: "winv sip D (set as) ?s2 h" using s1(1) by simp
  obtain items s3 h3 where af: "appendFields sip kvs [] 0 ?s2 = (Inr (items, xor_of kvs 0), s3)"
    and s3: "winv sip D (set as) s3 h3" "extends (set as) h h3" "core s3 = core ?s2"
      "list_all2 (item_ok h3) items (List.map datum kvs)" "fsize s3 \<le> fsize s + data_cost kvs"
    using appendFields_run[OF s2 keys, of "[]" 0] nc room s1(2,3) by (auto simp: entry_cost_def)
  note c3 = core_header[OF s3(3)]
  have n: "length items = length kvs" using s3(4) by (metis length_map list_all2_lengthD)
  have hdr: "h_EntryArrayOffset (jf_header s3) = next_of as"
      "h_TailEntryArrayOffset (jf_header s3) = tail_of as"
      "h_TailEntrySeqnum (jf_header s3) = of_nat (length log)"
      "h_NEntries (jf_header s3) = of_nat (length log)"
      "h_Signature (jf_header s3) = HeaderSignature"
    using c3 s1(3) L by simp_all
  have ch3: "chain h3 as es" and en3: "entries_ok h3 0 es log" and d: "distinct as"
    using L chain_extends[OF _ s3(2)] entries_ok_extends[OF _ s3(2)] by auto
  obtain s4 h4 m p where ae: "appendEntryObject now now (xor_of kvs 0) items s3 = (Inr (), s4)"
    and s4: "log_inv sip D s4 h4 (as @ [m]) (es @ [p]) (log @ [(now, jf_bootID s3, kvs)])"
      "fsize s4 \<le> fsize s3 + 175 * length items + 110" "jf_bootID s4 = jf_bootID s3"
      "h_FileID (jf_header s4) = h_FileID (jf_header s3)"
    using appendEntryObject_run[OF s3(1) ch3 d en3 s3(4) hdr, of now] L s3(5) room n
    by (auto simp: entry_cost_def)
  have "appendLocked sip now kvs s = (Inr (), s4)"
    using bw af ae by (simp add: appendLocked_def thenE_Inr bindE_Inr)
  moreover have "jf_bootID s3 = jf_bootID s" "h_FileID (jf_header s3) = h_FileID (jf_header s)"
    using c3 s1 by simp_all
  ultimately show ?thesis using s4 s3(5) n by (auto simp: entry_cost_def)
qed

section \<open>The methods of the writer\<close>

lemma log_inv_locked [simp]:
  "log_inv sip D (s\<lparr>jf_f := (jf_f s)\<lparr>locked := b\<rparr>\<rparr>) h as es log = log_inv sip D s h as es log"
  by (simp add: log_inv_def winv_def tables_ok_def tails_ok_def caches_ok_def)

lemma flock_run:
  "faults (jf_f s) = [] \<Longrightarrow>
   on_disk (os_flock b) s = (Inr (), s\<lparr>jf_f := (jf_f s)\<lparr>locked := b\<rparr>\<rparr>)"
  by (simp add: on_disk_def liftE_def os_flock_def)

lemma AppendEntry_run:
  assumes inv: "log_inv sip D s h as es log" and keys: "keys_ok D kvs"
    and nc: "no_collision sip (h_FileID (jf_header s)) D"
    and room: "fsize s + entry_cost kvs < 2 ^ 32"
  shows "\<exists>s' h' m p. AppendEntry sip now kvs s = (Inr (), s') \<and>
    log_inv sip D s' h' (as @ [m]) (es @ [p]) (log @ [(now, jf_bootID s, kvs)]) \<and>
    fsize s' \<le> fsize s + entry_cost kvs \<and> jf_bootID s' = jf_bootID s \<and>
    h_FileID (jf_header s') = h_FileID (jf_header s) \<and> \<not> locked (jf_f s')"
proof -
  let ?s1 = "s\<lparr>jf_f := (jf_f s)\<lparr>locked := True\<rparr>\<rparr>"
  have f: "faults (jf_f s) = []" using inv by (simp add: log_inv_def winv_def)
  have inv1: "log_inv sip D ?s1 h as es log" using inv by simp
  obtain s2 h2 m p where a: "appendLocked sip now kvs ?s1 = (Inr (), s2)"
    and s2: "log_inv sip D s2 h2 (as @ [m]) (es @ [p]) (log @ [(now, jf_bootID s, kvs)])"
      "fsize s2 \<le> fsize s + entry_cost kvs" "jf_bootID s2 = jf_bootID s"
      "h_FileID (jf_header s2) = h_FileID (jf_header s)"
    using appendLocked_run[OF inv1 keys, of now] nc room by auto
  have f2: "faults (jf_f s2) = []" using s2(1) by (simp add: log_inv_def winv_def)
  let ?s3 = "s2\<lparr>jf_f := (jf_f s2)\<lparr>locked := False\<rparr>\<rparr>"
  have "AppendEntry sip now kvs s = (Inr (), ?s3)"
    using flock_run[OF f] flock_run[OF f2] a by (simp add: AppendEntry_def)
  moreover have "log_inv sip D ?s3 h2 (as @ [m]) (es @ [p]) (log @ [(now, jf_bootID s, kvs)])"
    using s2(1) by simp
  ultimately show ?thesis using s2 by (intro exI[of _ ?s3] exI[of _ h2]) auto
qed

lemma wf_header_length: "wf_header h \<Longrightarrow> length (enc_header h) = HeaderSize"
  by simp

lemma syncHeader_run:
  assumes inv: "winv sip D G s h"
  shows "\<exists>s'. syncHeader s = (Inr (), s') \<and> winv sip D G s' h \<and> fsize s' = fsize s \<and>
    jf_header s' = jf_header s \<and> jf_bootID s' = jf_bootID s \<and> jf_dirty s' = jf_dirty s \<and>
    slice 0 HeaderSize (bytes (jf_f s')) = enc_header (jf_header s)"
proof -
  let ?e = "enc_header (jf_header s)"
  have e: "length ?e = HeaderSize" using winvD(10)[OF inv] by simp
  let ?s' = "set_bytes (splice 0 ?e (bytes (jf_f s))) (pos (jf_f s)) s"
  have "syncHeader s = (Inr (), ?s')"
    using header_write(1)[OF inv, of 0 ?e] e by (simp add: syncHeader_def)
  moreover have "winv sip D G ?s' h" using header_write(2)[OF inv, of 0 ?e] e by simp
  moreover have "slice 0 HeaderSize (bytes (jf_f ?s')) = ?e"
    using slice_splice_exact[of HeaderSize ?e 0 "bytes (jf_f s)"] e winvD(2)[OF inv] by simp
  ultimately show ?thesis using e winvD(2)[OF inv] by (intro exI[of _ ?s']) simp
qed

lemma Sync_run:
  assumes inv: "log_inv sip D s h as es log"
  shows "\<exists>s'. Sync s = (Inr (), s') \<and> log_inv sip D s' h as es log \<and> \<not> jf_dirty s' \<and>
    fsize s' = fsize s \<and> jf_bootID s' = jf_bootID s \<and>
    h_FileID (jf_header s') = h_FileID (jf_header s)"
proof (cases "jf_dirty s")
  case False
  with inv show ?thesis by (intro exI[of _ s]) (simp add: Sync_def syncLocked_def)
next
  case True
  note L = inv[unfolded log_inv_def]
  then have w: "winv sip D (set as) s h" by blast
  obtain s1 where bw: "beginWrite s = (Inr (), s1)" and s1: "winv sip D (set as) s1 h"
    "fsize s1 = fsize s" "jf_header s1 = (jf_header s)\<lparr>h_State := StateOnline\<rparr>"
    "jf_bootID s1 = jf_bootID s"
    using beginWrite_run[OF w] by blast
  obtain s2 a where ua: "updateArena s1 = (Inr (), s2)" and s2: "winv sip D (set as) s2 h"
    "fsize s2 = fsize s1" "jf_bootID s2 = jf_bootID s1"
    "jf_header s2 = (jf_header s1)\<lparr>h_ArenaSize := a\<rparr>"
    using updateArena_run[OF s1(1)] by blast
  let ?s3 = "s2\<lparr>jf_header := (jf_header s2)\<lparr>h_State := StateOffline\<rparr>\<rparr>"
  have s3: "winv sip D (set as) ?s3 h" by (rule winv_header[OF s2(1)]) simp_all
  obtain s4 where sh: "syncHeader ?s3 = (Inr (), s4)" and s4: "winv sip D (set as) s4 h"
    "fsize s4 = fsize ?s3" "jf_header s4 = jf_header ?s3" "jf_bootID s4 = jf_bootID ?s3"
    "slice 0 HeaderSize (bytes (jf_f s4)) = enc_header (jf_header ?s3)"
    using syncHeader_run[OF s3] by blast
  let ?s5 = "s4\<lparr>jf_dirty := False\<rparr>"
  have "on_disk os_sync s4 = (Inr (), s4)"
    using winvD(1)[OF s4(1)] by (simp add: on_disk_def liftE_def os_sync_def)
  then have "Sync s = (Inr (), ?s5)"
    using True bw ua sh
    by (simp add: Sync_def syncLocked_def thenE_Inr bindE_Inr set_header_run)
  moreover have "log_inv sip D ?s5 h as es log"
    using L s4 s2(4) s1(3) by (simp add: log_inv_def)
  ultimately show ?thesis using s4 s2 s1 by (intro exI[of _ ?s5]) simp
qed

section \<open>A new file\<close>

definition initial_size :: nat where "initial_size = 38384"

lemma table_sizes: "dataHashObjSize = 32768" "fieldHashObjSize = 5344"
  by (simp_all add: dataHashObjSize_def fieldHashObjSize_def DefaultDataHashTableSize_def
      DefaultFieldHashTableSize_def)

lemma wf_zero_header: "wf_header zero_header"
  unfolding zero_header_def by (rule header_codec.wf_dec) simp

lemma zero_header_fields:
  "h_EntryArrayOffset zero_header = 0" "h_TailEntryArrayOffset zero_header = 0"
  "h_TailEntrySeqnum zero_header = 0" "h_NEntries zero_header = 0"
  by (simp_all add: zero_header_def dec_header_def slice_def get64_def get32_def)

lemma wf_initial_header:
  "length fid = 16 \<Longrightarrow> length sid = 16 \<Longrightarrow> length machine = 16 \<Longrightarrow>
   wf_header (initial_header fid machine sid)"
  using wf_zero_header by (simp add: initial_header_def wf_header_def Let_def HeaderSignature_def)

definition dataTableObj :: jobj where
  "dataTableObj = JTable (object_hdr ObjectDataHashTable dataHashObjSize)
     (replicate DefaultDataHashTableSize zero_hash_item)"

definition fieldTableObj :: jobj where
  "fieldTableObj = JTable (object_hdr ObjectFieldHashTable fieldHashObjSize)
     (replicate DefaultFieldHashTableSize zero_hash_item)"

lemma table_objs: "wf_obj dataTableObj" "wf_obj fieldTableObj" "obj_size dataTableObj = 32768"
  "obj_size fieldTableObj = 5344"
  by (simp_all add: dataTableObj_def fieldTableObj_def wf_obj_def table_sizes object_types
      DefaultDataHashTableSize_def DefaultFieldHashTableSize_def)

definition initial_heap :: heap where
  "initial_heap = [dataTableAt \<mapsto> dataTableObj, fieldTableAt \<mapsto> fieldTableObj]"

lemma initial_heap_ok:
  assumes "length hdr = HeaderSize"
  shows "heap_ok (hdr @ enc_obj dataTableObj @ enc_obj fieldTableObj) initial_heap"
proof -
  have "heap_ok hdr Map.empty" by (simp add: heap_ok_def)
  from heap_append[OF this table_objs(1), of "[]" "[]"] assms
  have one: "heap_ok (hdr @ enc_obj dataTableObj) [dataTableAt \<mapsto> dataTableObj]"
    by (simp add: dataTableAt_def)
  from heap_append[OF one table_objs(2), of "[]" "[]"] assms table_objs show ?thesis
    by (simp add: initial_heap_def fieldTableAt_def)
qed

definition write_string :: "string \<Rightarrow> jfile \<Rightarrow> jfile" where
  "write_string bs s = set_bytes (bytes (jf_f s) @ bs) (fsize s + length bs) s"

lemma write_string_run:
  "faults (jf_f s) = [] \<Longrightarrow> pos (jf_f s) = fsize s \<Longrightarrow>
   on_disk (os_write bs) s = (Inr (), write_string bs s)"
  by (simp add: write_end_run write_string_def)

lemma write_string_simps [simp]:
  "bytes (jf_f (write_string bs s)) = bytes (jf_f s) @ bs"
  "pos (jf_f (write_string bs s)) = fsize s + length bs"
  "faults (jf_f (write_string bs s)) = faults (jf_f s)"
  "jf_header (write_string bs s) = jf_header s" "jf_bootID (write_string bs s) = jf_bootID s"
  "jf_dataHashTable (write_string bs s) = jf_dataHashTable s"
  "jf_fieldHashTable (write_string bs s) = jf_fieldHashTable s"
  "jf_dataCache (write_string bs s) = jf_dataCache s"
  "jf_fieldCache (write_string bs s) = jf_fieldCache s" "jf_dirty (write_string bs s) = jf_dirty s"
  by (simp_all add: write_string_def)

lemma initialize_run:
  assumes ids: "length fid = 16" "length sid = 16" "length (jf_machineID s) = 16"
      "length (jf_bootID s) = 16"
    and s: "faults (jf_f s) = []" "bytes (jf_f s) = []" "pos (jf_f s) = 0"
      "jf_dataCache s = (\<lambda>_. None)" "jf_fieldCache s = (\<lambda>_. None)" "\<not> jf_dirty s"
  shows "\<exists>s'. initialize (Some fid) (Some sid) s = (Inr (), s') \<and>
    log_inv sip D s' initial_heap [] [] [] \<and> fsize s' = initial_size \<and>
    jf_bootID s' = jf_bootID s \<and> h_FileID (jf_header s') = fid"
proof -
  let ?h = "initial_header fid (jf_machineID s) sid"
  have wf: "wf_header ?h" using ids by (intro wf_initial_header)
  let ?dt = "replicate DefaultDataHashTableSize zero_hash_item"
  let ?ft = "replicate DefaultFieldHashTableSize zero_hash_item"
  let ?s1 = "s\<lparr>jf_header := ?h\<rparr>"
  let ?s2 = "write_string (enc_header ?h) ?s1"
  let ?s3 = "?s2\<lparr>jf_dataHashTable := ?dt\<rparr>"
  let ?s4 = "write_string (enc_object_header (object_hdr ObjectDataHashTable dataHashObjSize)) ?s3"
  let ?s5 = "write_string (enc_list enc_hash_item ?dt) ?s4"
  let ?s6 = "?s5\<lparr>jf_fieldHashTable := ?ft\<rparr>"
  let ?s7 = "write_string (enc_object_header (object_hdr ObjectFieldHashTable fieldHashObjSize)) ?s6"
  let ?s8 = "write_string (enc_list enc_hash_item ?ft) ?s7"
  let ?s9 = "?s8\<lparr>jf_header := (jf_header ?s8)\<lparr>h_TailObjectOffset := of_nat HeaderSize + dataHashObjSize\<rparr>\<rparr>"
  have bytes9: "bytes (jf_f ?s9) = enc_header ?h @ enc_obj dataTableObj @ enc_obj fieldTableObj"
    using s by (simp add: dataTableObj_def fieldTableObj_def)
  have size9: "fsize ?s9 = initial_size"
    unfolding bytes9 using wf table_objs by (simp add: initial_size_def)
  have "wf_header (jf_header ?s9)" using wf by (simp add: wf_header_def)
  moreover have "arrays_ok {} initial_heap"
    by (auto simp: arrays_ok_def initial_heap_def dataTableObj_def fieldTableObj_def split: if_splits)
  moreover have "tables_ok ?s9 initial_heap"
    by (auto simp: tables_ok_def initial_heap_def dataTableObj_def fieldTableObj_def dataTableAt_def
        fieldTableAt_def initial_header_def Let_def table_sizes)
  moreover have "tails_ok ?s9 initial_heap"
    by (simp add: tails_ok_def zero_hash_item_def)
  moreover have "caches_ok sip D ?s9 initial_heap" using s by (simp add: caches_ok_def)
  moreover have "heap_ok (bytes (jf_f ?s9)) initial_heap"
    unfolding bytes9 using wf by (intro initial_heap_ok) simp
  ultimately have w9: "winv sip D {} ?s9 initial_heap"
    using size9 s ids unfolding winv_def by (simp add: initial_size_def)
  obtain s10 where sh: "syncHeader ?s9 = (Inr (), s10)" and s10: "winv sip D {} s10 initial_heap"
    "fsize s10 = fsize ?s9" "jf_header s10 = jf_header ?s9" "jf_bootID s10 = jf_bootID ?s9"
    "slice 0 HeaderSize (bytes (jf_f s10)) = enc_header (jf_header ?s9)"
    using syncHeader_run[OF w9] by blast
  have "initialize (Some fid) (Some sid) s = (Inr (), s10)"
    using sh s by (simp add: initialize_def thenE_Inr mapErrE_Inr write_string_run set_header_run)
  moreover have "log_inv sip D s10 initial_heap [] [] []"
    using s10 unfolding log_inv_def
    by (simp add: next_of_def tail_of_def initial_header_def Let_def zero_header_fields)
  ultimately show ?thesis
    using s10 size9 by (intro exI[of _ s10]) (simp add: initial_header_def Let_def)
qed

lemma Create_run:
  assumes "length fid = 16" and "length sid = 16" and "length machine = 16" and "length boot = 16"
  shows "\<exists>s. Create path None [] machine boot (Some fid) (Some sid) = (Inr s, Some (bytes (jf_f s))) \<and>
    log_inv sip D s initial_heap [] [] [] \<and> fsize s = initial_size \<and> jf_bootID s = boot \<and>
    h_FileID (jf_header s) = fid"
proof -
  let ?s = "(new_file path \<lparr>bytes = [], pos = 0, locked = False, faults = []\<rparr>)
     \<lparr>jf_machineID := machine, jf_bootID := boot\<rparr>"
  have f: "length (jf_machineID ?s) = 16" "length (jf_bootID ?s) = 16" "faults (jf_f ?s) = []"
    "bytes (jf_f ?s) = []" "pos (jf_f ?s) = 0" "jf_dataCache ?s = (\<lambda>_. None)"
    "jf_fieldCache ?s = (\<lambda>_. None)" "\<not> jf_dirty ?s"
    using assms by (simp_all add: new_file_def)
  obtain s where i: "initialize (Some fid) (Some sid) ?s = (Inr (), s)"
    and s: "log_inv sip D s initial_heap [] [] []" "fsize s = initial_size" "jf_bootID s = boot"
      "h_FileID (jf_header s) = fid"
    using initialize_run[OF assms(1,2) f] by auto
  then show ?thesis by (intro exI[of _ s]) (simp add: Create_def Let_def)
qed

text \<open>Appending several entries.\<close>

fun append_all :: "siphash \<Rightarrow> (u64 \<times> (string \<times> string) list) list \<Rightarrow> unit jio" where
  "append_all sip [] = returnE ()"
| "append_all sip ((now, kvs) # es) = thenE (AppendEntry sip now kvs) (append_all sip es)"

definition total_cost :: "(u64 \<times> (string \<times> string) list) list \<Rightarrow> nat" where
  "total_cost es = (\<Sum>e \<leftarrow> es. entry_cost (snd e))"

lemma append_all_run:
  assumes "log_inv sip D s h as ps log" and "\<forall>e \<in> set es. keys_ok D (snd e)"
    and "no_collision sip (h_FileID (jf_header s)) D" and "fsize s + total_cost es < 2 ^ 32"
  shows "\<exists>s' h' as' ps'. append_all sip es s = (Inr (), s') \<and>
    log_inv sip D s' h' (as @ as') (ps @ ps') (log @ List.map (\<lambda>(now, kvs). (now, jf_bootID s, kvs)) es) \<and>
    fsize s' \<le> fsize s + total_cost es \<and> jf_bootID s' = jf_bootID s \<and>
    h_FileID (jf_header s') = h_FileID (jf_header s)"
  using assms
proof (induction es arbitrary: s h as ps log)
  case Nil
  then show ?case by (intro exI[of _ s] exI[of _ h] exI[of _ "[]"]) simp
next
  case (Cons e es)
  obtain now kvs where e: "e = (now, kvs)" by force
  have cost: "total_cost (e # es) = entry_cost kvs + total_cost es" by (simp add: total_cost_def e)
  obtain s1 h1 m p where a: "AppendEntry sip now kvs s = (Inr (), s1)"
    and s1: "log_inv sip D s1 h1 (as @ [m]) (ps @ [p]) (log @ [(now, jf_bootID s, kvs)])"
      "fsize s1 \<le> fsize s + entry_cost kvs" "jf_bootID s1 = jf_bootID s"
      "h_FileID (jf_header s1) = h_FileID (jf_header s)"
    using AppendEntry_run[OF Cons.prems(1), of kvs now] Cons.prems cost e by auto
  obtain s2 h2 as2 ps2 where r: "append_all sip es s1 = (Inr (), s2)"
    "log_inv sip D s2 h2 ((as @ [m]) @ as2) ((ps @ [p]) @ ps2) ((log @ [(now, jf_bootID s, kvs)]) @
       List.map (\<lambda>(now, kvs). (now, jf_bootID s1, kvs)) es)"
    "fsize s2 \<le> fsize s1 + total_cost es" "jf_bootID s2 = jf_bootID s1"
    "h_FileID (jf_header s2) = h_FileID (jf_header s1)"
    using Cons.IH[OF s1(1)] Cons.prems s1 cost by auto
  then show ?case using a s1 e cost
    by (intro exI[of _ s2] exI[of _ h2] exI[of _ "m # as2"] exI[of _ "p # ps2"])
      (simp add: thenE_Inr)
qed

section \<open>Opening an existing file\<close>

lemma readAt_bytes:
  assumes "faults (jf_f s) = []" and "off = of_nat p" and "p + n \<le> fsize s" and "fsize s < 2 ^ 32"
  shows "readAt off n s = (Inr (slice p n (bytes (jf_f s))), s)"
proof -
  have "os_read_at off n (jf_f s) = (Inr (slice p n (bytes (jf_f s))), jf_f s)"
    using assms by (intro os_read_at_inside) auto
  then show ?thesis by (simp add: readAt_def on_disk_def liftE_def)
qed

lemma openTable_run:
  assumes f: "faults (jf_f s) = []" "fsize s < 2 ^ 32" and ok: "heap_ok (bytes (jf_f s)) h"
    and t: "h p = Some (JTable t its)" and off: "off = of_nat (p + 16)"
    and sz: "sz = of_nat (length its * 16)"
  shows "openTable what off sz s = (Inr its, s)"
proof -
  note w = heap_okD[OF ok t]
  have len: "16 * length its < 2 ^ 32" using w(3) f(2) by simp
  have "unat (of_nat (length its * 16) :: u64) = length its * 16"
    using len by (intro unat_of_nat64) simp
  then have u: "unat sz = length its * 16" "unat (sz div 16) = length its"
    by (simp_all add: sz unat_div_distrib)
  have "slice (p + 16) (length its * 16) (bytes (jf_f s)) = enc_list enc_hash_item its"
    using heap_read[OF ok t, of 16 "length its * 16"] wf_obj_parts(5)[OF w(1)]
    by (simp add: slice_tail slice_full mult.commute)
  then have rd: "readAt off (length its * 16) s = (Inr (enc_list enc_hash_item its), s)"
    using readAt_bytes[OF f(1) off, of "length its * 16"] w(3) f(2) by (simp add: mult.commute)
  have "dec_list dec_hash_item 16 (length its) (enc_list enc_hash_item its) = its"
    using hash_item_codec.dec_list_enc_list[of its "[]"] by simp
  then show ?thesis
    using u len rd by (simp add: openTable_def bindE_Inr mapErrE_Inr mult.commute)
qed

text \<open>
  A file closed by \<open>Sync\<close> can be opened for appending: the new writer continues the same log,
  under its own boot id and with empty caches.
\<close>

lemma OpenAppend_run:
  assumes inv: "log_inv sip D s h as es log" and clean: "\<not> jf_dirty s" and boot: "length boot = 16"
  shows "\<exists>s'. OpenAppend path (Some (bytes (jf_f s))) [] (Some boot) = Inr s' \<and>
    log_inv sip D s' h as es log \<and> jf_bootID s' = boot \<and> \<not> jf_dirty s' \<and>
    fsize s' = fsize s \<and> h_FileID (jf_header s') = h_FileID (jf_header s)"
proof -
  note L = inv[unfolded log_inv_def]
  then have w: "winv sip D (set as) s h" by blast
  have dskhdr: "slice 0 HeaderSize (bytes (jf_f s)) = enc_header (jf_header s)" using L clean by blast
  note W = winvD[OF w]
  let ?d = "\<lparr>bytes = bytes (jf_f s), pos = 0, locked = False, faults = []\<rparr>"
  let ?s0 = "new_file path ?d"
  let ?s1 = "?s0\<lparr>jf_header := jf_header s\<rparr>"
  have oh: "openHeader ?s0 = (Inr (), ?s1)"
    using readAt_bytes[of ?s0 0 0 HeaderSize] W(2,3,10) dskhdr L header_codec.dec_enc[of "jf_header s"]
    by (simp add: openHeader_def bindE_Inr mapErrE_Inr thenE_Inr set_header_run new_file_def)
  let ?s2 = "?s1\<lparr>jf_machineID := h_MachineID (jf_header s)\<rparr>\<lparr>jf_bootID := boot\<rparr>"
  from W(6) obtain t t' where t: "h dataTableAt = Some (JTable t (jf_dataHashTable s))"
    "h fieldTableAt = Some (JTable t' (jf_fieldHashTable s))" unfolding tables_ok_def by blast
  have dt: "openTable ''data hash table'' (h_DataHashTableOffset (jf_header s))
      (h_DataHashTableSize (jf_header s)) ?s2 = (Inr (jf_dataHashTable s), ?s2)"
    using W(3,4,6) t by (intro openTable_run[where h = h and p = dataTableAt and t = t]) (auto simp: tables_ok_def new_file_def)
  let ?s3 = "?s2\<lparr>jf_dataHashTable := jf_dataHashTable s\<rparr>"
  have ft: "openTable ''field hash table'' (h_FieldHashTableOffset (jf_header s))
      (h_FieldHashTableSize (jf_header s)) ?s3 = (Inr (jf_fieldHashTable s), ?s3)"
    using W(3,4,6) t by (intro openTable_run[where h = h and p = fieldTableAt and t = t']) (auto simp: tables_ok_def new_file_def)
  let ?s4 = "?s3\<lparr>jf_fieldHashTable := jf_fieldHashTable s\<rparr>"
  let ?s5 = "set_bytes (bytes (jf_f s)) (fsize s) ?s4"
  have sk: "on_disk os_seek_end ?s4 = (Inr (of_nat (fsize s)), ?s5)"
    by (simp add: on_disk_def liftE_def os_seek_end_ok set_bytes_def new_file_def)
  have run: "openExisting (Some boot) ?s0 = (Inr (), ?s5)"
    using oh dt ft sk by (simp add: openExisting_def thenE_Inr bindE_Inr mapErrE_Inr)
  have "winv sip D (set as) ?s5 h"
    using W boot by (simp add: winv_def tables_ok_def tails_ok_def caches_ok_def new_file_def)
  then have "log_inv sip D ?s5 h as es log"
    using L dskhdr by (simp add: log_inv_def new_file_def)
  with run show ?thesis
    by (intro exI[of _ ?s5]) (simp add: OpenAppend_def new_file_def)
qed

end
