(* ===== verification/JournalReader.thy ===== *)
theory JournalReader
  imports Codec OsFile GoStrings
begin

text \<open>
  \<open>pkg/journalfile/reader.go\<close> and \<open>interface.go\<close>: the reader of a journal file, with its cached
  entry array, its cursor and its filters. The file under the reader is the \<open>disk\<close> of its
  state: another process that appends to it replaces the bytes of that disk between two calls.
\<close>

section \<open>State\<close>

text \<open>\<open>Entry\<close>; the time is \<open>time.Unix(sec, nsec)\<close>.\<close>

record jentry =
  je_Seqnum :: u64
  je_Realtime :: "u64 \<times> u64"
  je_Monotonic :: u64
  je_BootID :: id128
  je_Fields :: "string \<Rightarrow> string option"

record reader =
  r_f :: disk
  r_path :: string
  r_header :: header
  r_currentSeqnum :: u64
  r_entryArrayOffset :: u64
  r_entryArrayEntries :: "u64 list"
  r_entryArrayIndex :: nat
  r_nextEntryArrayOffset :: u64
  r_iterationInitialized :: bool
  r_decodedEntries :: u64
  r_matches :: "(string \<times> string) list"

type_synonym 'a rio = "(jerr, reader, 'a) eff"

definition on_file :: "'a io \<Rightarrow> 'a rio" where
  "on_file m = liftE r_f (\<lambda>d s. s\<lparr>r_f := d\<rparr>) m"

definition r_readAt :: "u64 \<Rightarrow> nat \<Rightarrow> string rio" where
  "r_readAt off n = on_file (os_read_at off n)"

section \<open>Opening, filters, seeking\<close>

definition readHeader :: "unit rio" where
  "readHeader = bindE (mapErrE (wrap_err ''read header'') (r_readAt 0 HeaderSize)) (\<lambda>buf.
     thenE (modifyE (\<lambda>s. s\<lparr>r_header := dec_header buf\<rparr>))
     (if h_Signature (dec_header buf) \<noteq> HeaderSignature
      then failE (InvalidSignature (hex_string (h_Signature (dec_header buf))))
      else returnE ()))"

definition OpenRead :: "string \<Rightarrow> string option \<Rightarrow> nat option list \<Rightarrow> jerr + reader" where
  "OpenRead path content fl =
     (case content of
        None \<Rightarrow> Inl (Wrap ''open journal file'' OsErr)
      | Some bs \<Rightarrow>
          (case readHeader \<lparr>r_f = \<lparr>bytes = bs, pos = 0, locked = False, faults = fl\<rparr>, r_path = path,
              r_header = dec_header (replicate HeaderSize (CHR 0x00)), r_currentSeqnum = 0,
              r_entryArrayOffset = 0, r_entryArrayEntries = [], r_entryArrayIndex = 0,
              r_nextEntryArrayOffset = 0, r_iterationInitialized = False, r_decodedEntries = 0,
              r_matches = []\<rparr> of
             (Inl e, _) \<Rightarrow> Inl e
           | (Inr _, r) \<Rightarrow> Inr r))"

definition AddMatch :: "string \<Rightarrow> string \<Rightarrow> reader \<Rightarrow> reader" where
  "AddMatch field value r = r\<lparr>r_matches := r_matches r @ [(field, value)]\<rparr>"

definition FlushMatches :: "reader \<Rightarrow> reader" where
  "FlushMatches r = r\<lparr>r_matches := []\<rparr>"

definition resetIteration :: "reader \<Rightarrow> reader" where
  "resetIteration r = r\<lparr>r_entryArrayOffset := 0, r_entryArrayEntries := [], r_entryArrayIndex := 0,
     r_nextEntryArrayOffset := 0, r_iterationInitialized := False\<rparr>"

definition SeekHead :: "reader \<Rightarrow> reader" where
  "SeekHead r = resetIteration (r\<lparr>r_currentSeqnum := 0\<rparr>)"

definition formatCursor :: "u64 \<Rightarrow> id128 \<Rightarrow> string" where
  "formatCursor seqnum bootID =
     ''s='' @ format_uint (unat seqnum) @ '';b='' @ hex_string bootID"

fun parseCursorParts :: "string \<Rightarrow> string list \<Rightarrow> jerr + u64" where
  "parseCursorParts cursor [] = Inl (CursorMissing cursor)"
| "parseCursorParts cursor (part # parts) =
     (case cut_prefix part ''s='' of
        Some seqStr \<Rightarrow>
          (case parse_uint 64 seqStr of None \<Rightarrow> Inl CursorSeqnum | Some n \<Rightarrow> Inr (of_nat n))
      | None \<Rightarrow> parseCursorParts cursor parts)"

definition parseCursor :: "string \<Rightarrow> jerr + u64" where
  "parseCursor cursor = parseCursorParts cursor (go_split cursor '';'')"

definition SeekCursor :: "string \<Rightarrow> unit rio" where
  "SeekCursor cursor r =
     (case parseCursor cursor of
        Inl e \<Rightarrow> (Inl e, r)
      | Inr seqnum \<Rightarrow> (Inr (), resetIteration (r\<lparr>r_currentSeqnum := seqnum\<rparr>)))"

definition GetCursor :: "jentry \<Rightarrow> string" where
  "GetCursor e = formatCursor (je_Seqnum e) (je_BootID e)"

section \<open>Objects\<close>

definition readEntryArray :: "u64 \<Rightarrow> (u64 list \<times> u64) rio" where
  "readEntryArray offset =
     bindE (mapErrE (wrap_err ''read entry array header'') (r_readAt offset 24)) (\<lambda>b.
     let hdr = dec_entry_array_object b; ty = oh_Type (a_Object hdr) in
     if ty \<noteq> ObjectEntryArray then failE (ExpectedType ''entry array'' ty)
     else
       let itemsSize = oh_Size (a_Object hdr) - 24; numItems = itemsSize div 8 in
       bindE (make_slice 8 numItems) (\<lambda>n.
       bindE (make_slice 1 itemsSize) (\<lambda>len.
       bindE (mapErrE (wrap_err ''read entry array items'') (r_readAt (offset + 24) len)) (\<lambda>buf.
       returnE (dec_list get64 8 n buf, a_NextEntryArrayOffset hdr)))))"

definition readDataObject :: "u64 \<Rightarrow> (string \<times> string) rio" where
  "readDataObject offset =
     bindE (mapErrE (wrap_err ''read data header'') (r_readAt offset 64)) (\<lambda>b.
     let hdr = dec_data_object b; ty = oh_Type (d_Object hdr) in
     if ty \<noteq> ObjectData then failE (ExpectedType ''data'' ty)
     else
       let payloadSize = oh_Size (d_Object hdr) - 64 in
       bindE (make_slice 1 payloadSize) (\<lambda>len.
       bindE (mapErrE (wrap_err ''read data payload'') (r_readAt (offset + 64) len)) (\<lambda>payload.
       case go_cut payload ''='' of None \<Rightarrow> failE NoEquals
       | Some (before, after) \<Rightarrow> returnE (before, after))))"

text \<open>\<open>fields[key] = value\<close> for every item: a later item with the same key wins.\<close>

fun readFields :: "entry_item list \<Rightarrow> (string \<Rightarrow> string option) \<Rightarrow> (string \<Rightarrow> string option) rio" where
  "readFields [] m = returnE m"
| "readFields (item # items) m =
     bindE (mapErrE (wrap_err ''read data object'') (readDataObject (it_ObjectOffset item)))
       (\<lambda>(key, value). readFields items (m(key \<mapsto> value)))"

definition readEntry :: "u64 \<Rightarrow> jentry rio" where
  "readEntry offset =
     bindE (mapErrE (wrap_err ''read entry header'') (r_readAt offset 64)) (\<lambda>b.
     let hdr = dec_entry_object b; ty = oh_Type (e_Object hdr) in
     if ty \<noteq> ObjectEntry then failE (ExpectedType ''entry'' ty)
     else
       let itemsSize = oh_Size (e_Object hdr) - 64; numItems = itemsSize div 16 in
       bindE (make_slice 16 numItems) (\<lambda>n.
       bindE (make_slice 1 itemsSize) (\<lambda>len.
       bindE (mapErrE (wrap_err ''read entry items'') (r_readAt (offset + 64) len)) (\<lambda>buf.
       bindE (readFields (dec_list dec_entry_item 16 n buf) (\<lambda>_. None)) (\<lambda>m.
       returnE \<lparr>je_Seqnum = e_Seqnum hdr,
         je_Realtime = (e_Realtime hdr div 1000000, e_Realtime hdr mod 1000000 * 1000),
         je_Monotonic = e_Monotonic hdr, je_BootID = e_BootID hdr, je_Fields = m\<rparr>)))))"

section \<open>Iteration\<close>

definition loadEntryArray :: "u64 \<Rightarrow> unit rio" where
  "loadEntryArray offset = bindE (readEntryArray offset) (\<lambda>(entries, nextArray).
     modifyE (\<lambda>r. r\<lparr>r_entryArrayOffset := offset, r_entryArrayEntries := entries,
       r_entryArrayIndex := 0, r_nextEntryArrayOffset := nextArray\<rparr>))"

text \<open>
  The inner loop over the rest of the cached array. It stops at the first unused slot, and
  passes over entries up to the current sequence number.
\<close>

fun scanEntries :: "u64 list \<Rightarrow> jentry option rio" where
  "scanEntries [] = returnE None"
| "scanEntries (entryOffset # rest) =
     (if entryOffset = 0 then returnE None
      else
        thenE (modifyE (\<lambda>r. r\<lparr>r_entryArrayIndex := r_entryArrayIndex r + 1\<rparr>))
        (bindE (readEntry entryOffset) (\<lambda>entry.
         thenE (modifyE (\<lambda>r. r\<lparr>r_decodedEntries := r_decodedEntries r + 1\<rparr>))
         (bindE (getE r_currentSeqnum) (\<lambda>cur.
          if je_Seqnum entry \<le> cur then scanEntries rest
          else thenE (modifyE (\<lambda>r. r\<lparr>r_currentSeqnum := je_Seqnum entry\<rparr>))
            (returnE (Some entry)))))))"

definition scanArray :: "jentry option rio" where
  "scanArray r = scanEntries (drop (r_entryArrayIndex r) (r_entryArrayEntries r)) r"

text \<open>The test after the tail array has been loaded again.\<close>

definition tailHasMore :: "reader \<Rightarrow> bool" where
  "tailHasMore r = ((r_entryArrayIndex r < length (r_entryArrayEntries r) \<and>
      r_entryArrayEntries r ! r_entryArrayIndex r \<noteq> 0) \<or> r_nextEntryArrayOffset r \<noteq> 0)"

definition reloadTail :: "unit rio" where
  "reloadTail = bindE (getE (\<lambda>r. (r_entryArrayIndex r, r_entryArrayOffset r))) (\<lambda>(index, offset).
     thenE (loadEntryArray offset)
     (modifyE (\<lambda>r. r\<lparr>r_entryArrayIndex := index\<rparr>)))"

fun nextLoop :: "nat \<Rightarrow> jentry rio" where
  "nextLoop 0 r = (Inl Diverges, r)"
| "nextLoop (Suc fuel) r =
     (if r_entryArrayOffset r = 0 then (Inl EOF, r)
      else bindE scanArray (\<lambda>found r.
        case found of Some entry \<Rightarrow> (Inr entry, r)
        | None \<Rightarrow>
            if r_nextEntryArrayOffset r \<noteq> 0 then
              thenE (loadEntryArray (r_nextEntryArrayOffset r)) (nextLoop fuel) r
            else if r_currentSeqnum r < h_TailEntrySeqnum (r_header r) then
              thenE reloadTail (\<lambda>r. if tailHasMore r then nextLoop fuel r else (Inl EOF, r)) r
            else (Inl EOF, r)) r)"

text \<open>
  One call never walks more arrays than the file has offsets, each of them twice: a longer walk
  repeats itself, and the loop of the source would not end.
\<close>

definition next_fuel :: "reader \<Rightarrow> nat" where
  "next_fuel r = 2 * (length (bytes (r_f r)) + length (faults (r_f r))) + 4"

definition nextEntry :: "jentry rio" where
  "nextEntry r =
     (if r_iterationInitialized r then nextLoop (next_fuel r) r
      else let r = r\<lparr>r_iterationInitialized := True\<rparr> in
        if h_EntryArrayOffset (r_header r) = 0 then (Inl EOF, r)
        else thenE (loadEntryArray (h_EntryArrayOffset (r_header r)))
          (\<lambda>r. nextLoop (next_fuel r) r) r)"

text \<open>\<open>e.Fields[m.field] != m.value\<close>: a field that is absent reads as the empty text.\<close>

definition matchesEntry :: "(string \<times> string) list \<Rightarrow> jentry \<Rightarrow> bool" where
  "matchesEntry ms e =
     list_all (\<lambda>(field, value). (case je_Fields e field of None \<Rightarrow> [] | Some v \<Rightarrow> v) = value) ms"

section \<open>What a reader call changes\<close>

lemma keeps_on_file [keeps_intros]:
  "(\<And>d r. g (r\<lparr>r_f := d\<rparr>) = g r) \<Longrightarrow> keeps g (on_file m)"
  unfolding on_file_def by (rule keeps_lift)

lemma keeps_r_readAt [keeps_intros]:
  "(\<And>d r. g (r\<lparr>r_f := d\<rparr>) = g r) \<Longrightarrow> keeps g (r_readAt off n)"
  unfolding r_readAt_def by (rule keeps_on_file)

lemma keeps_make_slice [keeps_intros]: "keeps g (make_slice k n)"
  by (simp add: make_slice_def keeps_intros)

lemma keeps_readEntryArray [keeps_intros]:
  "(\<And>d r. g (r\<lparr>r_f := d\<rparr>) = g r) \<Longrightarrow> keeps g (readEntryArray off)"
  unfolding readEntryArray_def Let_def by (intro keeps_intros)

lemma keeps_readDataObject [keeps_intros]:
  "(\<And>d r. g (r\<lparr>r_f := d\<rparr>) = g r) \<Longrightarrow> keeps g (readDataObject off)"
  unfolding readDataObject_def Let_def
  by (intro keeps_intros) (auto split: option.split intro: keeps_intros)

lemma keeps_readFields [keeps_intros]:
  "(\<And>d r. g (r\<lparr>r_f := d\<rparr>) = g r) \<Longrightarrow> keeps g (readFields items m)"
  by (induction items m rule: readFields.induct)
    (auto intro!: keeps_intros split: prod.split)

lemma keeps_readEntry [keeps_intros]:
  "(\<And>d r. g (r\<lparr>r_f := d\<rparr>) = g r) \<Longrightarrow> keeps g (readEntry off)"
  unfolding readEntry_def Let_def by (intro keeps_intros)

lemma readEntryArray_seqnum: "keeps r_currentSeqnum (readEntryArray off)"
  by (intro keeps_intros) simp

lemma loadEntryArray_seqnum: "keeps r_currentSeqnum (loadEntryArray off)"
  unfolding loadEntryArray_def by (auto intro!: keeps_intros split: prod.split)

lemma reloadTail_seqnum: "keeps r_currentSeqnum reloadTail"
  unfolding reloadTail_def by (auto intro!: keeps_intros loadEntryArray_seqnum split: prod.split)

text \<open>Every entry found is newer than the cursor, and becomes the cursor.\<close>

lemma scanEntries_seqnum:
  "scanEntries xs r = (Inr found, r') \<Longrightarrow>
   (case found of None \<Rightarrow> r_currentSeqnum r' = r_currentSeqnum r
    | Some e \<Rightarrow> r_currentSeqnum r < je_Seqnum e \<and> r_currentSeqnum r' = je_Seqnum e)"
proof (induction xs arbitrary: r)
  case Nil
  then show ?case by simp
next
  case (Cons x xs)
  show ?case
  proof (cases "x = 0")
    case True
    with Cons.prems show ?thesis by simp
  next
    case False
    let ?r = "r\<lparr>r_entryArrayIndex := r_entryArrayIndex r + 1\<rparr>"
    obtain res r1 where rd: "readEntry x ?r = (res, r1)" by force
    have cur: "r_currentSeqnum r1 = r_currentSeqnum r"
      using keepsD[OF keeps_readEntry rd, of r_currentSeqnum] by simp
    show ?thesis
    proof (cases res)
      case (Inl e)
      with rd False Cons.prems show ?thesis by (simp add: bindE_def)
    next
      case (Inr e)
      show ?thesis
      proof (cases "je_Seqnum e \<le> r_currentSeqnum r1")
        case True
        with rd Inr False Cons.prems
        have "scanEntries xs (r1\<lparr>r_decodedEntries := r_decodedEntries r1 + 1\<rparr>) = (Inr found, r')"
          by (simp add: bindE_def)
        from Cons.IH[OF this] cur show ?thesis by (simp split: option.splits)
      next
        case less: False
        with rd Inr False Cons.prems have "found = Some e" "r_currentSeqnum r' = je_Seqnum e"
          by (auto simp: bindE_def)
        with less cur show ?thesis by simp
      qed
    qed
  qed
qed

lemma nextLoop_seqnum:
  "nextLoop fuel r = (Inr e, r') \<Longrightarrow>
   r_currentSeqnum r < je_Seqnum e \<and> r_currentSeqnum r' = je_Seqnum e"
proof (induction fuel arbitrary: r)
  case 0
  then show ?case by simp
next
  case (Suc fuel)
  obtain res r1 where sc: "scanArray r = (res, r1)" by force
  have "r_entryArrayOffset r \<noteq> 0" using Suc.prems by (auto split: if_splits)
  moreover obtain found where res: "res = Inr found"
    using Suc.prems sc by (cases res) (auto simp: bindE_def split: if_splits)
  ultimately have found: "(case found of Some entry \<Rightarrow> (Inr entry, r1)
      | None \<Rightarrow>
          if r_nextEntryArrayOffset r1 \<noteq> 0 then
            thenE (loadEntryArray (r_nextEntryArrayOffset r1)) (nextLoop fuel) r1
          else if r_currentSeqnum r1 < h_TailEntrySeqnum (r_header r1) then
            thenE reloadTail (\<lambda>r. if tailHasMore r then nextLoop fuel r else (Inl EOF, r)) r1
          else (Inl EOF, r1)) = (Inr e, r')"
    using Suc.prems sc by (simp add: bindE_def)
  from scanEntries_seqnum[of _ r found r1] sc res
  have s1: "case found of None \<Rightarrow> r_currentSeqnum r1 = r_currentSeqnum r
    | Some e \<Rightarrow> r_currentSeqnum r < je_Seqnum e \<and> r_currentSeqnum r1 = je_Seqnum e"
    by (simp add: scanArray_def)
  show ?case
  proof (cases found)
    case (Some e')
    with found s1 show ?thesis by simp
  next
    case None
    have step: "r_currentSeqnum r < je_Seqnum e \<and> r_currentSeqnum r' = je_Seqnum e"
      if m: "keeps r_currentSeqnum m" and run: "thenE m k r1 = (Inr e, r')"
        and k: "\<And>r2. k r2 = (Inr e, r') \<Longrightarrow> nextLoop fuel r2 = (Inr e, r')" for m k
    proof -
      obtain x r2 where m2: "m r1 = (x, r2)" by force
      with run have "k r2 = (Inr e, r')" by (cases x) (auto simp: thenE_def bindE_def)
      then have "nextLoop fuel r2 = (Inr e, r')" by (rule k)
      from Suc.IH[OF this] keepsD[OF m m2] s1 None show ?thesis by simp
    qed
    consider (next_array) "thenE (loadEntryArray (r_nextEntryArrayOffset r1)) (nextLoop fuel) r1 = (Inr e, r')"
      | (tail) "thenE reloadTail (\<lambda>r. if tailHasMore r then nextLoop fuel r else (Inl EOF, r)) r1 = (Inr e, r')"
      using found None by (auto split: if_splits)
    then show ?thesis
    proof cases
      case next_array
      then show ?thesis by (rule step[OF loadEntryArray_seqnum])
    next
      case tail
      show ?thesis by (rule step[OF reloadTail_seqnum tail]) (simp split: if_splits)
    qed
  qed
qed

lemma nextEntry_seqnum:
  assumes "nextEntry r = (Inr e, r')"
  shows "r_currentSeqnum r < je_Seqnum e" and "r_currentSeqnum r' = je_Seqnum e"
proof -
  have "r_currentSeqnum r < je_Seqnum e \<and> r_currentSeqnum r' = je_Seqnum e"
  proof (cases "r_iterationInitialized r")
    case True
    with assms show ?thesis by (simp add: nextEntry_def nextLoop_seqnum)
  next
    case False
    let ?r = "r\<lparr>r_iterationInitialized := True\<rparr>"
    obtain x r2 where ld: "loadEntryArray (h_EntryArrayOffset (r_header r)) ?r = (x, r2)" by force
    with assms False have "nextLoop (next_fuel r2) r2 = (Inr e, r')"
      by (cases x) (auto simp: nextEntry_def Let_def thenE_def bindE_def split: if_splits)
    from nextLoop_seqnum[OF this] keepsD[OF loadEntryArray_seqnum ld] show ?thesis by simp
  qed
  then show "r_currentSeqnum r < je_Seqnum e" "r_currentSeqnum r' = je_Seqnum e" by simp_all
qed

lemma nextEntry_measure:
  assumes "nextEntry r = (Inr e, r')"
  shows "2 ^ 64 - unat (r_currentSeqnum r') < (2::nat) ^ 64 - unat (r_currentSeqnum r)"
proof -
  have "unat (r_currentSeqnum r) < unat (r_currentSeqnum r')"
    using nextEntry_seqnum[OF assms] by (simp add: word_less_nat_alt)
  moreover have "unat (r_currentSeqnum r') < 2 ^ 64"
    using unsigned_less[of "r_currentSeqnum r'"] by simp
  ultimately show ?thesis by linarith
qed

text \<open>
  So the loop of \<open>Next\<close> over entries that do not match ends: the cursor only grows.
\<close>

function Next :: "jentry rio" where
  "Next r = (case nextEntry r of
      (Inl e, r') \<Rightarrow> (Inl e, r')
    | (Inr entry, r') \<Rightarrow> if matchesEntry (r_matches r') entry then (Inr entry, r') else Next r')"
  by pat_completeness auto
termination
  by (relation "measure (\<lambda>r. 2 ^ 64 - unat (r_currentSeqnum r))")
    (use nextEntry_measure in \<open>auto dest!: sym[of "(_, _)" "nextEntry _"]\<close>)

declare Next.simps [simp del]

definition NEntries :: "reader \<Rightarrow> u64" where
  "NEntries r = h_NEntries (r_header r)"

definition TailSeqnum :: "reader \<Rightarrow> u64" where
  "TailSeqnum r = h_TailEntrySeqnum (r_header r)"

definition Refresh :: "unit rio" where
  "Refresh = readHeader"

section \<open>Waiting\<close>

text \<open>
  What the select of \<open>Wait\<close> may receive: the end of the context, an event of the watcher, or a
  closed channel. The wait is over at the first event that is not ignored.
\<close>

datatype wevent =
    CtxDone
  | FsEvent (ev_write: bool) (ev_chmod: bool) (ev_remove: bool) (ev_rename: bool)
  | EventsClosed
  | WatchErr
  | ErrorsClosed

datatype wait_result = Changed | CtxErr | Removed | WatcherClosed | WatcherErr | ErrChanClosed

fun waitLoop :: "wevent list \<Rightarrow> wait_result option" where
  "waitLoop [] = None"
| "waitLoop (CtxDone # evs) = Some CtxErr"
| "waitLoop (EventsClosed # evs) = Some WatcherClosed"
| "waitLoop (WatchErr # evs) = Some WatcherErr"
| "waitLoop (ErrorsClosed # evs) = Some ErrChanClosed"
| "waitLoop (FsEvent w c rm rn # evs) =
     (if w \<or> c then Some Changed else if rm \<or> rn then Some Removed else waitLoop evs)"

end
