(* ===== verification/ReaderLog.thy ===== *)
theory ReaderLog
  imports WriterLog JournalReader
begin

text \<open>
  The reader of \<open>reader.go\<close> over the same abstract view as the writer: on a file that holds a log,
  \<open>nextEntry\<close> from a cursor \<open>c\<close> returns entry \<open>c + 1\<close> of the log, or \<open>EOF\<close> when there is none.
\<close>

section \<open>A file that holds a log\<close>

definition holds_log :: "string \<Rightarrow> heap \<Rightarrow> nat list \<Rightarrow> nat list \<Rightarrow> lentry list \<Rightarrow> bool" where
  "holds_log bs h as es log \<longleftrightarrow> heap_ok bs h \<and> length bs < 2 ^ 32 \<and> HeaderSize \<le> length bs \<and>
     distinct as \<and> chain h as es \<and> entries_ok h 0 es log \<and>
     (\<forall>l \<in> set log. \<forall>kv \<in> set (snd (snd l)). CHR ''='' \<notin> set (fst kv))"

definition header_of_log :: "header \<Rightarrow> nat list \<Rightarrow> lentry list \<Rightarrow> bool" where
  "header_of_log hdr as log \<longleftrightarrow> h_EntryArrayOffset hdr = next_of as \<and>
     h_TailEntrySeqnum hdr = of_nat (length log) \<and> h_Signature hdr = HeaderSignature"

lemma log_inv_holds:
  assumes "log_inv sip D s h as es log"
    and "\<forall>l \<in> set log. \<forall>kv \<in> set (snd (snd l)). CHR ''='' \<notin> set (fst kv)"
  shows "holds_log (bytes (jf_f s)) h as es log" and "header_of_log (jf_header s) as log"
  using assms winvD(2,3,4)[of sip D "set as" s h]
  unfolding log_inv_def holds_log_def header_of_log_def by blast+

text \<open>A reader whose file holds the log, with no system call failing.\<close>

definition reads :: "reader \<Rightarrow> string \<Rightarrow> bool" where
  "reads r bs \<longleftrightarrow> bytes (r_f r) = bs \<and> faults (r_f r) = []"

lemma r_readAt_inside:
  assumes "reads r bs" and "off = of_nat p" and "p + n \<le> length bs" and "length bs < 2 ^ 32"
  shows "r_readAt off n r = (Inr (slice p n bs), r)"
proof -
  have "os_read_at off n (r_f r) = (Inr (slice p n (bytes (r_f r))), r_f r)"
    using assms by (intro os_read_at_inside) (auto simp: reads_def)
  with assms(1) show ?thesis by (simp add: r_readAt_def on_file_def liftE_def reads_def)
qed

definition file_ok :: "string \<Rightarrow> heap \<Rightarrow> bool" where
  "file_ok bs h \<longleftrightarrow> heap_ok bs h \<and> length bs < 2 ^ 32"

lemma read_obj:
  assumes "file_ok bs h" and "reads r bs" and "h p = Some ob" and "k + n \<le> obj_size ob"
    and "off = of_nat (p + k)"
  shows "r_readAt off n r = (Inr (slice k n (enc_obj ob)), r)"
proof -
  have ok: "heap_ok bs h" and small: "length bs < 2 ^ 32" using assms(1) by (simp_all add: file_ok_def)
  have "p + k + n \<le> length bs" using heap_okD(3)[OF ok assms(3)] assms(4) by simp
  from r_readAt_inside[OF assms(2,5) this small] heap_read[OF ok assms(3,4)] show ?thesis by simp
qed

lemma file_obj:
  assumes "file_ok bs h" and "h p = Some ob"
  shows "wf_obj ob" and "obj_size ob < 2 ^ 32" and "HeaderSize \<le> p" and "p < 2 ^ 32"
  using assms heap_okD[of bs h p ob] obj_size_pos[of ob] unfolding file_ok_def by linarith+

lemma payload_size:
  fixes w :: u64
  assumes "w = of_nat (k + n)" and "n < 2 ^ 32"
  shows "unat (w - of_nat k) = n"
proof -
  have "w - of_nat k = of_nat n" using assms(1) by simp
  with assms(2) show ?thesis by simp
qed

section \<open>Reading objects\<close>

lemma readDataObject_run:
  assumes f: "file_ok bs h" and r: "reads r bs" and q: "h q = Some (JData d pl)"
    and cut: "go_cut pl ''='' = Some (k, v)"
  shows "readDataObject (of_nat q) r = (Inr (k, v), r)"
proof -
  note w = file_obj[OF f q]
  have len: "length pl < 2 ^ 32" using w(2) by simp
  have off: "(of_nat q :: u64) = of_nat (q + 0)" by simp
  have off64: "(of_nat q + 64 :: u64) = of_nat (q + 64)" by simp
  have rd: "r_readAt (of_nat q) 64 r = (Inr (enc_data_object d), r)"
    using read_obj[OF f r q _ off, of 64] data_parts(1)[OF w(1)] by simp
  have dec: "dec_data_object (enc_data_object d) = d"
    using wf_obj_parts(1)[OF w(1)] by (rule data_object_codec.dec_enc)
  have ty: "oh_Type (d_Object d) = ObjectData" and sz: "oh_Size (d_Object d) = of_nat (64 + length pl)"
    using w(1) by (simp_all add: wf_obj_def)
  have n: "unat (oh_Size (d_Object d) - 64) = length pl" using payload_size[OF sz len] by simp
  have rd2: "r_readAt (of_nat q + 64) (length pl) r = (Inr pl, r)"
    using read_obj[OF f r q _ off64, of "length pl"] data_parts(2)[OF w(1)] by simp
  show ?thesis
    using rd dec ty n rd2 len cut
    by (simp add: readDataObject_def bindE_Inr mapErrE_Inr Let_def)
qed

text \<open>The field map of an entry: a later field of the same name wins.\<close>

definition fields_of :: "(string \<times> string) list \<Rightarrow> (string \<Rightarrow> string option) \<Rightarrow> string \<Rightarrow> string option" where
  "fields_of kvs m = foldl (\<lambda>m kv. m(fst kv \<mapsto> snd kv)) m kvs"

lemma readFields_run:
  assumes f: "file_ok bs h" and r: "reads r bs"
    and "list_all2 (item_ok h) its (List.map datum kvs)"
    and "\<forall>kv \<in> set kvs. CHR ''='' \<notin> set (fst kv)"
  shows "readFields its m r = (Inr (fields_of kvs m), r)"
  using assms(3,4)
proof (induction kvs arbitrary: its m)
  case Nil
  then show ?case by (simp add: fields_of_def)
next
  case (Cons kv kvs)
  then obtain it its' where its: "its = it # its'" "item_ok h it (datum kv)"
    "list_all2 (item_ok h) its' (List.map datum kvs)" by (auto simp: list_all2_Cons2)
  then obtain q d where q: "it_ObjectOffset it = of_nat q" "h q = Some (JData d (datum kv))"
    unfolding item_ok_def by blast
  have cut: "go_cut (datum kv) ''='' = Some (fst kv, snd kv)"
    using datum_cut[of kv] Cons.prems(2) by simp
  from readDataObject_run[OF f r q(2) cut] q(1) Cons.IH[OF its(3)] Cons.prems(2) its(1)
  show ?case by (simp add: bindE_Inr mapErrE_Inr fields_of_def case_prod_beta)
qed

definition entry_of :: "nat \<Rightarrow> lentry \<Rightarrow> jentry" where
  "entry_of i l = (case l of (now, boot, kvs) \<Rightarrow>
     \<lparr>je_Seqnum = of_nat i, je_Realtime = (now div 1000000, now mod 1000000 * 1000),
      je_Monotonic = now, je_BootID = boot, je_Fields = fields_of kvs (\<lambda>_. None)\<rparr>)"

lemma item_list: "dec_list dec_entry_item 16 (length its) (enc_list enc_entry_item its) = its"
  using entry_item_codec.dec_list_enc_list[of its "[]"] by simp

lemma readEntry_run:
  assumes f: "file_ok bs h" and r: "reads r bs" and e: "entry_ok h p i l"
    and keys: "\<forall>kv \<in> set (snd (snd l)). CHR ''='' \<notin> set (fst kv)"
  shows "readEntry (of_nat p) r = (Inr (entry_of i l), r)"
proof -
  obtain now boot kvs where l: "l = (now, boot, kvs)" by (cases l)
  from e obtain eo its where p: "h p = Some (JEntry eo its)" and eo: "e_Seqnum eo = of_nat i"
    "e_Realtime eo = now" "e_Monotonic eo = now" "e_BootID eo = boot"
    and items: "list_all2 (item_ok h) its (List.map datum kvs)"
    by (auto simp: entry_ok_def l)
  note w = file_obj[OF f p]
  have len: "16 * length its < 2 ^ 32" using w(2) by simp
  have off: "(of_nat p :: u64) = of_nat (p + 0)" by simp
  have off64: "(of_nat p + 64 :: u64) = of_nat (p + 64)" by simp
  have rd: "r_readAt (of_nat p) 64 r = (Inr (enc_entry_object eo), r)"
    using read_obj[OF f r p _ off, of 64] entry_parts(1)[OF w(1)] by simp
  have dec: "dec_entry_object (enc_entry_object eo) = eo"
    using wf_obj_parts(3)[OF w(1)] by (rule entry_object_codec.dec_enc)
  have ty: "oh_Type (e_Object eo) = ObjectEntry"
    and sz: "oh_Size (e_Object eo) = of_nat (64 + 16 * length its)"
    using w(1) by (simp_all add: wf_obj_def)
  have n: "unat (oh_Size (e_Object eo) - 64) = 16 * length its"
    using payload_size[OF sz len] by simp
  then have n': "unat ((oh_Size (e_Object eo) - 64) div 16) = length its"
    by (simp add: unat_div_distrib)
  have rd2: "r_readAt (of_nat p + 64) (16 * length its) r = (Inr (enc_list enc_entry_item its), r)"
    using read_obj[OF f r p _ off64, of "16 * length its"] entry_parts(2)[OF w(1)] by simp
  have fl: "readFields its (\<lambda>_. None) r = (Inr (fields_of kvs (\<lambda>_. None)), r)"
    using readFields_run[OF f r items] keys l by simp
  show ?thesis
    using rd dec ty n n' rd2 len fl eo
    by (simp add: readEntry_def bindE_Inr mapErrE_Inr Let_def item_list entry_of_def l)
qed

lemma readEntryArray_run:
  assumes f: "file_ok bs h" and r: "reads r bs" and a: "h a = Some (JArray hdr xs)"
  shows "readEntryArray (of_nat a) r = (Inr (xs, a_NextEntryArrayOffset hdr), r)"
proof -
  note w = file_obj[OF f a]
  have len: "8 * length xs < 2 ^ 32" using w(2) by simp
  have off: "(of_nat a :: u64) = of_nat (a + 0)" by simp
  have off24: "(of_nat a + 24 :: u64) = of_nat (a + 24)" by simp
  have rd: "r_readAt (of_nat a) 24 r = (Inr (enc_entry_array_object hdr), r)"
    using read_obj[OF f r a _ off, of 24] array_parts(1)[OF w(1)] by simp
  have dec: "dec_entry_array_object (enc_entry_array_object hdr) = hdr"
    using wf_obj_parts(4)[OF w(1)] by (rule entry_array_object_codec.dec_enc)
  have ty: "oh_Type (a_Object hdr) = ObjectEntryArray"
    and sz: "oh_Size (a_Object hdr) = of_nat (24 + 8 * length xs)"
    using w(1) by (simp_all add: wf_obj_def)
  have n: "unat (oh_Size (a_Object hdr) - 24) = 8 * length xs"
    using payload_size[OF sz len] by simp
  then have n': "unat ((oh_Size (a_Object hdr) - 24) div 8) = length xs"
    by (simp add: unat_div_distrib)
  have rd2: "r_readAt (of_nat a + 24) (8 * length xs) r = (Inr (enc_list put64 xs), r)"
    using read_obj[OF f r a _ off24, of "8 * length xs"] array_parts(2)[OF w(1)] by simp
  show ?thesis
    using rd dec ty n n' rd2 len
    by (simp add: readEntryArray_def bindE_Inr mapErrE_Inr Let_def get64_list)
qed

section \<open>Positions of a reader\<close>

definition at :: "reader \<Rightarrow> string \<Rightarrow> nat list \<Rightarrow> nat list \<Rightarrow> nat \<Rightarrow> nat \<Rightarrow> bool" where
  "at r bs as es k j \<longleftrightarrow> reads r bs \<and> r_iterationInitialized r \<and> k < length as \<and>
     r_entryArrayOffset r = of_nat (as ! k) \<and> r_entryArrayEntries r = [of_nat (es ! k)] \<and>
     r_entryArrayIndex r = j \<and>
     (r_nextEntryArrayOffset r = next_of (drop (Suc k) as) \<or> (r_nextEntryArrayOffset r = 0 \<and> j = 1))"

definition stat :: "reader \<Rightarrow> disk \<times> string \<times> header \<times> (string \<times> string) list" where
  "stat r = (r_f r, r_path r, r_header r, r_matches r)"

lemma stat_updates [simp]:
  "stat (r\<lparr>r_currentSeqnum := c\<rparr>) = stat r" "stat (r\<lparr>r_entryArrayIndex := i\<rparr>) = stat r"
  "stat (r\<lparr>r_decodedEntries := d\<rparr>) = stat r" "stat (r\<lparr>r_iterationInitialized := b\<rparr>) = stat r"
  "stat (r\<lparr>r_entryArrayOffset := a, r_entryArrayEntries := xs, r_entryArrayIndex := i,
     r_nextEntryArrayOffset := w\<rparr>) = stat r"
  by (simp_all add: stat_def)

lemma chain_nth:
  "chain h as es \<Longrightarrow> k < length as \<Longrightarrow>
   \<exists>hdr. h (as ! k) = Some (JArray hdr [of_nat (es ! k)]) \<and>
     a_NextEntryArrayOffset hdr = next_of (drop (Suc k) as)"
proof (induction h as es arbitrary: k rule: chain.induct)
  case (2 h a as e es)
  then show ?case by (cases k) auto
qed auto

lemma entries_ok_nth:
  "entries_ok h i es log \<Longrightarrow> k < length es \<Longrightarrow> entry_ok h (es ! k) (Suc (i + k)) (log ! k)"
proof (induction h i es log arbitrary: k rule: entries_ok.induct)
  case (2 h i p ps l ls)
  then show ?case by (cases k) auto
qed auto

lemma holds_logD:
  assumes "holds_log bs h as es log"
  shows "file_ok bs h" "chain h as es" "entries_ok h 0 es log" "length es = length log"
    "length as = length log" "length log < 2 ^ 32"
    "\<forall>l \<in> set log. \<forall>kv \<in> set (snd (snd l)). CHR ''='' \<notin> set (fst kv)"
proof -
  show f: "file_ok bs h" and ch: "chain h as es" and en: "entries_ok h 0 es log"
    and "\<forall>l \<in> set log. \<forall>kv \<in> set (snd (snd l)). CHR ''='' \<notin> set (fst kv)"
    using assms unfolding holds_log_def file_ok_def by blast+
  show es: "length es = length log" using entries_ok_length[OF en] .
  with chain_length[OF ch] show as: "length as = length log" by simp
  have d: "distinct as" using assms unfolding holds_log_def by blast
  have "set as \<subseteq> {..< length bs}"
  proof
    fix a assume "a \<in> set as"
    then obtain hdr e where ob: "h a = Some (JArray hdr [of_nat e])" using chain_arrays[OF ch] by blast
    have "heap_ok bs h" using f by (simp add: file_ok_def)
    from heap_okD(3)[OF this ob] show "a \<in> {..< length bs}" by simp
  qed
  then have "card (set as) \<le> length bs" using card_mono[of "{..< length bs}" "set as"] by simp
  with d as f show "length log < 2 ^ 32" by (simp add: distinct_card file_ok_def)
qed

lemma array_at:
  assumes "holds_log bs h as es log" and "k < length as"
  shows "\<exists>hdr. h (as ! k) = Some (JArray hdr [of_nat (es ! k)]) \<and>
     a_NextEntryArrayOffset hdr = next_of (drop (Suc k) as)"
    and "(of_nat (as ! k) :: u64) \<noteq> 0"
proof -
  note H = holds_logD[OF assms(1)]
  from chain_nth[OF H(2) assms(2)] obtain hdr where
    hdr: "h (as ! k) = Some (JArray hdr [of_nat (es ! k)])"
      "a_NextEntryArrayOffset hdr = next_of (drop (Suc k) as)" by blast
  then show "\<exists>hdr. h (as ! k) = Some (JArray hdr [of_nat (es ! k)]) \<and>
     a_NextEntryArrayOffset hdr = next_of (drop (Suc k) as)" by blast
  show "(of_nat (as ! k) :: u64) \<noteq> 0"
    using file_obj[OF H(1) hdr(1)] of_nat64_small[of "as ! k"] by simp
qed

lemma entry_at:
  assumes "holds_log bs h as es log" and "k < length log"
  shows "entry_ok h (es ! k) (Suc k) (log ! k)" and "(of_nat (es ! k) :: u64) \<noteq> 0"
    and "\<forall>kv \<in> set (snd (snd (log ! k))). CHR ''='' \<notin> set (fst kv)"
proof -
  note H = holds_logD[OF assms(1)]
  show e: "entry_ok h (es ! k) (Suc k) (log ! k)"
    using entries_ok_nth[OF H(3), of k] H(4) assms(2) by simp
  then obtain eo its where "h (es ! k) = Some (JEntry eo its)" unfolding entry_ok_def by auto
  from file_obj[OF H(1) this] of_nat64_small[of "es ! k"]
  show "(of_nat (es ! k) :: u64) \<noteq> 0" by simp
  show "\<forall>kv \<in> set (snd (snd (log ! k))). CHR ''='' \<notin> set (fst kv)"
    using H(7) nth_mem[OF assms(2)] by blast
qed

lemma next_of_drop:
  "next_of (drop k as) = (if k < length as then of_nat (as ! k) else 0)"
proof (cases "k < length as")
  case True
  then show ?thesis using Cons_nth_drop_Suc[OF True] by (metis list.simps(5) next_of_def)
qed (simp add: next_of_def)

lemma next_of_drop_0:
  assumes "holds_log bs h as es log"
  shows "next_of (drop k as) = 0 \<longleftrightarrow> length as \<le> k"
  using array_at(2)[OF assms, of k] by (auto simp: next_of_drop)

lemma load_run:
  assumes H: "holds_log bs h as es log" and k: "k < length as" and r: "reads r bs"
    and init: "r_iterationInitialized r"
  shows "\<exists>r'. loadEntryArray (of_nat (as ! k)) r = (Inr (), r') \<and> at r' bs as es k 0 \<and>
    r_currentSeqnum r' = r_currentSeqnum r \<and> stat r' = stat r"
proof -
  obtain hdr where a: "h (as ! k) = Some (JArray hdr [of_nat (es ! k)])"
    "a_NextEntryArrayOffset hdr = next_of (drop (Suc k) as)" using array_at(1)[OF H k] by blast
  let ?r = "r\<lparr>r_entryArrayOffset := of_nat (as ! k), r_entryArrayEntries := [of_nat (es ! k)],
       r_entryArrayIndex := 0, r_nextEntryArrayOffset := next_of (drop (Suc k) as)\<rparr>"
  have "loadEntryArray (of_nat (as ! k)) r = (Inr (), ?r)"
    using readEntryArray_run[OF holds_logD(1)[OF H] r a(1)] a(2)
    by (simp add: loadEntryArray_def bindE_Inr)
  moreover have "at ?r bs as es k 0" using k r init by (simp add: at_def reads_def)
  ultimately show ?thesis by (intro exI[of _ ?r]) simp
qed

lemma reload_run:
  assumes H: "holds_log bs h as es log" and at: "at r bs as es k j"
  shows "\<exists>r'. reloadTail r = (Inr (), r') \<and> at r' bs as es k j \<and>
    r_nextEntryArrayOffset r' = next_of (drop (Suc k) as) \<and>
    r_currentSeqnum r' = r_currentSeqnum r \<and> stat r' = stat r"
proof -
  have k: "k < length as" and r: "reads r bs" "r_iterationInitialized r"
    and o: "r_entryArrayOffset r = of_nat (as ! k)" "r_entryArrayIndex r = j"
    using at by (simp_all add: at_def)
  obtain r1 where l: "loadEntryArray (of_nat (as ! k)) r = (Inr (), r1)" "at r1 bs as es k 0"
    "r_currentSeqnum r1 = r_currentSeqnum r" "stat r1 = stat r"
    using load_run[OF H k r] by blast
  then show ?thesis using o
    by (intro exI[of _ "r1\<lparr>r_entryArrayIndex := j\<rparr>"])
      (auto simp: reloadTail_def thenE_Inr at_def reads_def)
qed

lemma scan_used:
  assumes "at r bs as es k 1"
  shows "scanArray r = (Inr None, r)"
  using assms by (simp add: scanArray_def at_def)

lemma scan_fresh:
  assumes H: "holds_log bs h as es log" and at: "at r bs as es k 0"
    and c: "r_currentSeqnum r = of_nat c" "c < 2 ^ 64"
  shows "\<exists>r'. scanArray r = (Inr (if k < c then None else Some (entry_of (Suc k) (log ! k))), r') \<and>
    at r' bs as es k 1 \<and> r_currentSeqnum r' = of_nat (if k < c then c else Suc k) \<and> stat r' = stat r \<and>
    r_nextEntryArrayOffset r' = next_of (drop (Suc k) as)"
proof -
  have k: "k < length log" and r: "reads r bs" "r_iterationInitialized r"
    and o: "r_entryArrayEntries r = [of_nat (es ! k)]" "r_entryArrayIndex r = 0"
    "r_nextEntryArrayOffset r = next_of (drop (Suc k) as)"
    using at holds_logD(5)[OF H] by (auto simp: at_def)
  note e = entry_at[OF H k]
  let ?r1 = "r\<lparr>r_entryArrayIndex := 1\<rparr>"
  have rd: "readEntry (of_nat (es ! k)) ?r1 = (Inr (entry_of (Suc k) (log ! k)), ?r1)"
    using readEntry_run[OF holds_logD(1)[OF H] _ e(1,3), of ?r1] r by (simp add: reads_def)
  let ?r2 = "?r1\<lparr>r_decodedEntries := r_decodedEntries ?r1 + 1\<rparr>"
  have seq: "je_Seqnum (entry_of (Suc k) (log ! k)) = of_nat (Suc k)"
    by (simp add: entry_of_def split: prod.split)
  have sk: "Suc k < 2 ^ 64" using k holds_logD(6)[OF H] by simp
  have cmp: "(of_nat (Suc k) :: u64) \<le> of_nat c \<longleftrightarrow> k < c"
    using unat_of_nat64[OF sk] unat_of_nat64[OF c(2)] unfolding word_le_nat_alt
    by (simp add: Suc_le_eq)
  show ?thesis
  proof (cases "k < c")
    case True
    then have "scanArray r = (Inr None, ?r2)"
      using rd o e(2) seq cmp c by (simp add: scanArray_def bindE_Inr del: of_nat_Suc)
    moreover have "at ?r2 bs as es k 1" using at by (simp add: at_def reads_def)
    ultimately show ?thesis using True c o by (intro exI[of _ ?r2]) simp
  next
    case False
    let ?r3 = "?r2\<lparr>r_currentSeqnum := of_nat (Suc k)\<rparr>"
    have "scanArray r = (Inr (Some (entry_of (Suc k) (log ! k))), ?r3)"
      using rd o e(2) seq cmp c False by (simp add: scanArray_def bindE_Inr del: of_nat_Suc)
    moreover have "at ?r3 bs as es k 1" using at by (simp add: at_def reads_def)
    ultimately show ?thesis using False o by (intro exI[of _ ?r3]) simp
  qed
qed

section \<open>The next entry\<close>

definition ready :: "reader \<Rightarrow> string \<Rightarrow> nat list \<Rightarrow> nat list \<Rightarrow> lentry list \<Rightarrow> nat \<Rightarrow> bool" where
  "ready r bs as es log c \<longleftrightarrow> reads r bs \<and> r_currentSeqnum r = of_nat c \<and> c < 2 ^ 64 \<and>
     header_of_log (r_header r) as log \<and>
     (\<not> r_iterationInitialized r \<or> (\<exists>k. at r bs as es k 1 \<and> k < c))"

text \<open>What one call returns from a cursor, and where it leaves the reader.\<close>

definition stepped ::
  "reader \<Rightarrow> string \<Rightarrow> nat list \<Rightarrow> nat list \<Rightarrow> lentry list \<Rightarrow> nat \<Rightarrow> (jerr + jentry) \<times> reader \<Rightarrow> bool"
where
  "stepped r bs as es log c res \<longleftrightarrow> (case res of (x, r') \<Rightarrow> stat r' = stat r \<and>
     (if c < length log
      then x = Inr (entry_of (Suc c) (log ! c)) \<and> r_currentSeqnum r' = of_nat (Suc c) \<and> at r' bs as es c 1
      else x = Inl EOF \<and> r_currentSeqnum r' = of_nat c \<and> (\<exists>k. at r' bs as es k 1 \<and> k < c)))"

lemma stepped_stat: "stat r1 = stat r \<Longrightarrow> stepped r1 bs as es log c res \<Longrightarrow> stepped r bs as es log c res"
  by (auto simp: stepped_def)

lemma nextLoop_fresh:
  assumes H: "holds_log bs h as es log" and c: "c < 2 ^ 64"
    and hdr: "h_TailEntrySeqnum (r_header r) = of_nat (length log)"
    and "at r bs as es k 0" and "r_currentSeqnum r = of_nat c" and "k \<le> c"
    and "length as < fuel + k"
  shows "stepped r bs as es log c (nextLoop fuel r)"
  using assms(3-)
proof (induction fuel arbitrary: r k)
  case 0
  then show ?case by (simp add: at_def)
next
  case (Suc fuel)
  note at = Suc.prems(2) and cur = Suc.prems(3)
  have k: "k < length as" using at by (simp add: at_def)
  have off: "r_entryArrayOffset r \<noteq> 0" using at array_at(2)[OF H k] by (simp add: at_def)
  obtain r1 where sc: "scanArray r = (Inr (if k < c then None else Some (entry_of (Suc k) (log ! k))), r1)"
    and r1: "at r1 bs as es k 1" "r_currentSeqnum r1 = of_nat (if k < c then c else Suc k)"
      "stat r1 = stat r" "r_nextEntryArrayOffset r1 = next_of (drop (Suc k) as)"
    using scan_fresh[OF H at cur c] by blast
  have n: "length as = length log" by (rule holds_logD(5)[OF H])
  show ?case
  proof (cases "k < c")
    case False
    then have "k = c" using Suc.prems(4) by simp
    with sc r1 off k n show ?thesis by (simp add: stepped_def bindE_Inr)
  next
    case True
    show ?thesis
    proof (cases "Suc k < length as")
      case last: True
      then have nz: "r_nextEntryArrayOffset r1 = of_nat (as ! Suc k)" "r_nextEntryArrayOffset r1 \<noteq> 0"
        using r1(4) next_of_drop[of "Suc k" as] array_at(2)[OF H last] by auto
      have rd: "reads r1 bs" "r_iterationInitialized r1" using r1(1) by (simp_all add: at_def)
      obtain r2 where l: "loadEntryArray (of_nat (as ! Suc k)) r1 = (Inr (), r2)" "at r2 bs as es (Suc k) 0"
        "r_currentSeqnum r2 = r_currentSeqnum r1" "stat r2 = stat r1"
        using load_run[OF H last rd] by blast
      have "stepped r2 bs as es log c (nextLoop fuel r2)"
      proof (rule Suc.IH[OF _ l(2)])
        show "h_TailEntrySeqnum (r_header r2) = of_nat (length log)"
          using Suc.prems(1) l(4) r1(3) by (simp add: stat_def)
        show "r_currentSeqnum r2 = of_nat c" using l(3) r1(2) True by simp
        show "Suc k \<le> c" using True by simp
        show "length as < fuel + Suc k" using Suc.prems(5) by simp
      qed
      then have "stepped r bs as es log c (nextLoop fuel r2)"
        using l(4) r1(3) by (intro stepped_stat[of r2 r]) simp_all
      moreover have "nextLoop (Suc fuel) r = nextLoop fuel r2"
        using sc off True nz l(1) by (simp add: bindE_Inr thenE_Inr)
      ultimately show ?thesis by simp
    next
      case False
      then have nx: "r_nextEntryArrayOffset r1 = 0" using r1(4) next_of_drop[of "Suc k" as] by simp
      have cn: "length log \<le> c" using False k n True by simp
      have ln: "length log < 2 ^ 64" using holds_logD(6)[OF H] by simp
      have "\<not> r_currentSeqnum r1 < h_TailEntrySeqnum (r_header r1)"
        using r1(2,3) True Suc.prems(1) cn unat_of_nat64[OF c] unat_of_nat64[OF ln]
        by (simp add: stat_def word_less_nat_alt)
      then have "nextLoop (Suc fuel) r = (Inl EOF, r1)"
        using sc off True nx by (simp add: bindE_Inr)
      then show ?thesis using r1 True cn by (auto simp: stepped_def)
    qed
  qed
qed

lemma nextLoop_used:
  assumes H: "holds_log bs h as es log" and c: "c < 2 ^ 64"
    and hdr: "h_TailEntrySeqnum (r_header r) = of_nat (length log)"
    and at: "at r bs as es k 1" and cur: "r_currentSeqnum r = of_nat c" and kc: "k < c"
    and fuel: "length as + 2 < fuel"
  shows "stepped r bs as es log c (nextLoop fuel r)"
proof -
  obtain f1 where f1: "fuel = Suc f1" "length as + 1 < f1" using fuel by (cases fuel) auto
  obtain f2 where f2: "f1 = Suc f2" "length as < f2" using f1 by (cases f1) auto
  have n: "length as = length log" by (rule holds_logD(5)[OF H])
  have ln: "length log < 2 ^ 64" using holds_logD(6)[OF H] by simp
  have k: "k < length as" using at by (simp add: at_def)
  have off: "r_entryArrayOffset q \<noteq> 0" if "at q bs as es k 1" for q
    using that array_at(2)[OF H k] by (simp add: at_def)
  have follow: "stepped r bs as es log c (nextLoop (Suc f) q)"
    if q: "at q bs as es k 1" "r_currentSeqnum q = of_nat c" "stat q = stat r"
      and nz: "r_nextEntryArrayOffset q \<noteq> 0" and f: "length as < f" for q f
  proof -
    have nx: "r_nextEntryArrayOffset q = next_of (drop (Suc k) as)" using q(1) nz by (auto simp: at_def)
    then have sk: "Suc k < length as" using nz next_of_drop_0[OF H, of "Suc k"] by simp
    have rd: "reads q bs" "r_iterationInitialized q" using q(1) by (simp_all add: at_def)
    obtain r2 where l: "loadEntryArray (of_nat (as ! Suc k)) q = (Inr (), r2)" "at r2 bs as es (Suc k) 0"
      "r_currentSeqnum r2 = r_currentSeqnum q" "stat r2 = stat q"
      using load_run[OF H sk rd] by blast
    have "stepped r2 bs as es log c (nextLoop f r2)"
      using l q kc f hdr by (intro nextLoop_fresh[OF H c _ l(2)]) (auto simp: stat_def)
    then have "stepped r bs as es log c (nextLoop f r2)"
      using l(4) q(3) by (intro stepped_stat[of r2 r]) simp_all
    moreover have "nextLoop (Suc f) q = nextLoop f r2"
      using scan_used[OF q(1)] off[OF q(1)] nz nx next_of_drop[of "Suc k" as] sk l(1)
      by (simp add: bindE_Inr thenE_Inr)
    ultimately show ?thesis by simp
  qed
  show ?thesis
  proof (cases "r_nextEntryArrayOffset r = 0")
    case False
    with follow[OF at cur refl] f1 show ?thesis by simp
  next
    case stale: True
    have cmp: "r_currentSeqnum r < h_TailEntrySeqnum (r_header r) \<longleftrightarrow> c < length log"
      using cur hdr unat_of_nat64[OF c] unat_of_nat64[OF ln] by (simp add: word_less_nat_alt)
    show ?thesis
    proof (cases "c < length log")
      case False
      then have "nextLoop fuel r = (Inl EOF, r)"
        using f1 scan_used[OF at] off[OF at] stale cmp by (simp add: bindE_Inr)
      with False at cur kc show ?thesis by (auto simp: stepped_def)
    next
      case True
      obtain r1 where rl: "reloadTail r = (Inr (), r1)" "at r1 bs as es k 1"
        "r_nextEntryArrayOffset r1 = next_of (drop (Suc k) as)"
        "r_currentSeqnum r1 = r_currentSeqnum r" "stat r1 = stat r"
        using reload_run[OF H at] by blast
      have nz: "r_nextEntryArrayOffset r1 \<noteq> 0"
        using rl(3) next_of_drop_0[OF H, of "Suc k"] kc True n by simp
      then have "nextLoop fuel r = nextLoop f1 r1"
        using f1 scan_used[OF at] off[OF at] stale cmp True rl(1)
        by (simp add: bindE_Inr thenE_Inr tailHasMore_def)
      with follow[OF rl(2) _ rl(5) nz f2(2)] rl(4) cur f2(1) show ?thesis by simp
    qed
  qed
qed

lemma next_fuel_enough:
  assumes "holds_log bs h as es log" and "reads r bs"
  shows "length as + 3 < next_fuel r"
proof -
  have "length as \<le> length bs"
  proof -
    have "set as \<subseteq> {..< length bs}"
    proof
      fix a assume "a \<in> set as"
      then obtain hdr e where ob: "h a = Some (JArray hdr [of_nat e])"
        using chain_arrays[OF holds_logD(2)[OF assms(1)]] by blast
      have "heap_ok bs h" using holds_logD(1)[OF assms(1)] by (simp add: file_ok_def)
      from heap_okD(3)[OF this ob] show "a \<in> {..< length bs}" by simp
    qed
    then have "card (set as) \<le> length bs" using card_mono[of "{..< length bs}" "set as"] by simp
    moreover have "distinct as" using assms(1) unfolding holds_log_def by blast
    ultimately show ?thesis by (simp add: distinct_card)
  qed
  moreover have "0 < length bs" using assms(1) unfolding holds_log_def by auto
  ultimately show ?thesis using assms(2) by (simp add: next_fuel_def reads_def)
qed

lemma nextEntry_ready:
  assumes H: "holds_log bs h as es log" and r: "ready r bs as es log c" and ne: "log \<noteq> []"
  shows "stepped r bs as es log c (nextEntry r)"
proof (cases "r_iterationInitialized r")
  case True
  then obtain k where at: "at r bs as es k 1" "k < c" using r by (auto simp: ready_def)
  have "stepped r bs as es log c (nextLoop (next_fuel r) r)"
    using r next_fuel_enough[OF H, of r] by (intro nextLoop_used[OF H _ _ at(1) _ at(2)])
      (auto simp: ready_def header_of_log_def)
  with True show ?thesis by (simp add: nextEntry_def)
next
  case False
  let ?r = "r\<lparr>r_iterationInitialized := True\<rparr>"
  have pos: "0 < length as" using ne holds_logD(5)[OF H] by simp
  have hd0: "h_EntryArrayOffset (r_header r) = of_nat (as ! 0)"
    using r pos next_of_drop[of 0 as] by (simp add: ready_def header_of_log_def)
  have rd: "reads ?r bs" "r_iterationInitialized ?r" using r by (simp_all add: ready_def reads_def)
  obtain r2 where l: "loadEntryArray (of_nat (as ! 0)) ?r = (Inr (), r2)" "at r2 bs as es 0 0"
    "r_currentSeqnum r2 = r_currentSeqnum ?r" "stat r2 = stat ?r"
    using load_run[OF H pos rd] by blast
  have rd2: "reads r2 bs" using l(2) by (simp add: at_def)
  have "stepped r2 bs as es log c (nextLoop (next_fuel r2) r2)"
    using r l next_fuel_enough[OF H rd2]
    by (intro nextLoop_fresh[OF H _ _ l(2)]) (auto simp: ready_def header_of_log_def stat_def)
  then have "stepped r bs as es log c (nextLoop (next_fuel r2) r2)"
    using l(4) by (intro stepped_stat[of r2 r]) simp_all
  moreover have "nextEntry r = nextLoop (next_fuel r2) r2"
    using False hd0 array_at(2)[OF H pos] l(1) by (simp add: nextEntry_def Let_def thenE_Inr)
  ultimately show ?thesis by simp
qed

end
