(* ===== verification/JournalRoundtrip.thy ===== *)
theory JournalRoundtrip
  imports ReaderLog
begin

text \<open>
  What a reader of \<open>pkg/journalfile\<close> sees of what a writer wrote: the entries come back in order,
  filters select among them, a cursor resumes after its entry, a reader follows a growing file,
  and a file opened again for appending continues its log.
\<close>

section \<open>Reading to the end\<close>

definition entries_from :: "nat \<Rightarrow> lentry list \<Rightarrow> jentry list" where
  "entries_from c log = List.map (\<lambda>i. entry_of (Suc i) (log ! i)) [c ..< length log]"

text \<open>The loop of a client: \<open>Next\<close> until it fails.\<close>

fun drain :: "nat \<Rightarrow> reader \<Rightarrow> jentry list \<times> jerr option \<times> reader" where
  "drain 0 r = ([], None, r)"
| "drain (Suc fuel) r =
     (case Next r of
        (Inl e, r') \<Rightarrow> ([], Some e, r')
      | (Inr en, r') \<Rightarrow> (case drain fuel r' of (ens, e, r'') \<Rightarrow> (en # ens, e, r'')))"

lemma entries_from_step:
  "c < length log \<Longrightarrow> entries_from c log = entry_of (Suc c) (log ! c) # entries_from (Suc c) log"
  by (simp add: entries_from_def upt_conv_Cons)

lemma entries_from_end: "length log \<le> c \<Longrightarrow> entries_from c log = []"
  by (simp add: entries_from_def)

lemma length_entries_from [simp]: "length (entries_from c log) = length log - c"
  by (simp add: entries_from_def)

lemma ready_next:
  assumes H: "holds_log bs h as es log" and r: "ready r bs as es log c" and ne: "log \<noteq> []"
  shows "c < length log \<Longrightarrow> \<exists>r'. nextEntry r = (Inr (entry_of (Suc c) (log ! c)), r') \<and>
      ready r' bs as es log (Suc c) \<and> stat r' = stat r"
    and "length log \<le> c \<Longrightarrow> \<exists>r'. nextEntry r = (Inl EOF, r') \<and>
      ready r' bs as es log c \<and> stat r' = stat r"
proof -
  obtain x r' where n: "nextEntry r = (x, r')" by force
  have st: "stepped r bs as es log c (x, r')" using nextEntry_ready[OF H r ne] n by simp
  then have stat: "stat r' = stat r" by (simp add: stepped_def)
  then have base: "reads r' bs" "header_of_log (r_header r') as log"
    using r by (auto simp: stat_def ready_def reads_def)
  have ln: "length log < 2 ^ 32" by (rule holds_logD(6)[OF H])
  show "\<exists>r'. nextEntry r = (Inr (entry_of (Suc c) (log ! c)), r') \<and>
      ready r' bs as es log (Suc c) \<and> stat r' = stat r" if "c < length log"
    using st that n base stat ln by (auto simp: stepped_def ready_def)
  show "\<exists>r'. nextEntry r = (Inl EOF, r') \<and> ready r' bs as es log c \<and> stat r' = stat r"
    if "length log \<le> c"
    using st that n base stat r by (auto simp: stepped_def ready_def)
qed

lemma Next_ready:
  assumes H: "holds_log bs h as es log" and ne: "log \<noteq> []"
  shows "ready r bs as es log c \<Longrightarrow>
    (case filter (matchesEntry (r_matches r)) (entries_from c log) of
       [] \<Rightarrow> \<exists>r'. Next r = (Inl EOF, r') \<and> ready r' bs as es log (max c (length log)) \<and> stat r' = stat r
     | e # rest \<Rightarrow> \<exists>r' c'. Next r = (Inr e, r') \<and> ready r' bs as es log c' \<and> stat r' = stat r \<and>
         c < c' \<and> c' \<le> length log \<and>
         filter (matchesEntry (r_matches r)) (entries_from c' log) = rest)"
proof (induction "length log - c" arbitrary: c r)
  case 0
  then have "length log \<le> c" by simp
  from ready_next(2)[OF H "0.prems" ne this] obtain r' where
    "nextEntry r = (Inl EOF, r')" "ready r' bs as es log c" "stat r' = stat r" by blast
  with \<open>length log \<le> c\<close> show ?case
    by (subst Next.simps) (simp add: entries_from_end max_absorb1)
next
  case (Suc n)
  then have c: "c < length log" by simp
  let ?e = "entry_of (Suc c) (log ! c)"
  from ready_next(1)[OF H Suc.prems ne c] obtain r1 where
    n: "nextEntry r = (Inr ?e, r1)" and r1: "ready r1 bs as es log (Suc c)" "stat r1 = stat r" by blast
  have m: "r_matches r1 = r_matches r" using r1(2) by (simp add: stat_def)
  show ?case
  proof (cases "matchesEntry (r_matches r) ?e")
    case True
    with n m have "Next r = (Inr ?e, r1)" by (subst Next.simps) simp
    with True r1 c show ?thesis
      by (auto simp: entries_from_step intro!: exI[of _ r1] exI[of _ "Suc c"])
  next
    case False
    with n m have nx: "Next r = Next r1" by (subst Next.simps) simp
    have "n = length log - Suc c" using Suc.hyps(2) by simp
    from Suc.hyps(1)[OF this r1(1)] False c m nx r1(2) show ?thesis
      by (simp add: entries_from_step max_def split: list.split_asm list.split)
        (fastforce)+
  qed
qed

lemma drain_ready:
  assumes H: "holds_log bs h as es log" and ne: "log \<noteq> []"
  shows "ready r bs as es log c \<Longrightarrow> length log - c < fuel \<Longrightarrow>
    \<exists>r'. drain fuel r = (filter (matchesEntry (r_matches r)) (entries_from c log), Some EOF, r') \<and>
      ready r' bs as es log (max c (length log)) \<and> stat r' = stat r"
proof (induction fuel arbitrary: r c)
  case 0
  then show ?case by simp
next
  case (Suc fuel)
  show ?case
  proof (cases "filter (matchesEntry (r_matches r)) (entries_from c log)")
    case Nil
    with Next_ready[OF H ne Suc.prems(1)] show ?thesis by auto
  next
    case (Cons e rest)
    with Next_ready[OF H ne Suc.prems(1)] obtain r1 c' where
      n: "Next r = (Inr e, r1)" and r1: "ready r1 bs as es log c'" "stat r1 = stat r"
      "c < c'" "c' \<le> length log"
      "filter (matchesEntry (r_matches r)) (entries_from c' log) = rest" by auto
    have "length log - c' < fuel" using Suc.prems(2) r1(3,4) by arith
    from Suc.IH[OF r1(1) this] obtain r2 where
      "drain fuel r1 = (filter (matchesEntry (r_matches r1)) (entries_from c' log), Some EOF, r2)"
      "ready r2 bs as es log (max c' (length log))" "stat r2 = stat r1" by blast
    moreover have "r_matches r1 = r_matches r" using r1(2) by (simp add: stat_def)
    ultimately show ?thesis using n r1 Cons by (auto simp: max_def)
  qed
qed

section \<open>Opening a file that holds a log\<close>

lemma OpenRead_ready:
  assumes H: "holds_log bs h as es log" and hdr: "header_of_log hdr as log"
    and wf: "wf_header hdr" and here: "slice 0 HeaderSize bs = enc_header hdr"
  shows "\<exists>r. OpenRead path (Some bs) [] = Inr r \<and> ready r bs as es log 0 \<and> r_matches r = [] \<and>
    \<not> r_iterationInitialized r \<and> r_entryArrayOffset r = 0"
proof -
  let ?r = "\<lparr>r_f = \<lparr>bytes = bs, pos = 0, locked = False, faults = []\<rparr>, r_path = path,
              r_header = dec_header (replicate HeaderSize (CHR 0x00)), r_currentSeqnum = 0,
              r_entryArrayOffset = 0, r_entryArrayEntries = [], r_entryArrayIndex = 0,
              r_nextEntryArrayOffset = 0, r_iterationInitialized = False, r_decodedEntries = 0,
              r_matches = []\<rparr>"
  have small: "HeaderSize \<le> length bs" "length bs < 2 ^ 32" using H by (simp_all add: holds_log_def)
  have "r_readAt 0 HeaderSize ?r = (Inr (enc_header hdr), ?r)"
    using r_readAt_inside[of ?r bs 0 0 HeaderSize] small here by (simp add: reads_def)
  then have "readHeader ?r = (Inr (), ?r\<lparr>r_header := hdr\<rparr>)"
    using header_codec.dec_enc[OF wf] hdr
    by (simp add: readHeader_def bindE_Inr mapErrE_Inr header_of_log_def)
  then show ?thesis
    using hdr by (intro exI[of _ "?r\<lparr>r_header := hdr\<rparr>"]) (simp add: OpenRead_def ready_def reads_def)
qed

lemma seek_ready:
  assumes "ready r bs as es log c" and "c' < 2 ^ 64"
  shows "ready (resetIteration (r\<lparr>r_currentSeqnum := of_nat c'\<rparr>)) bs as es log c'"
  using assms by (simp add: ready_def resetIteration_def reads_def)

lemma ready_matches [simp]:
  "ready (AddMatch f v r) bs as es log c = ready r bs as es log c"
  "r_matches (AddMatch f v r) = r_matches r @ [(f, v)]"
  by (simp_all add: AddMatch_def ready_def reads_def at_def)

definition add_matches :: "(string \<times> string) list \<Rightarrow> reader \<Rightarrow> reader" where
  "add_matches ms r = fold (\<lambda>(f, v). AddMatch f v) ms r"

lemma add_matches_ready:
  "ready (add_matches ms r) bs as es log c = ready r bs as es log c \<and>
   r_matches (add_matches ms r) = r_matches r @ ms"
proof (induction ms arbitrary: r)
  case Nil
  then show ?case by (simp add: add_matches_def)
next
  case (Cons m ms)
  obtain f v where m: "m = (f, v)" by force
  have "add_matches (m # ms) r = add_matches ms (AddMatch f v r)" by (simp add: add_matches_def m)
  with Cons.IH[of "AddMatch f v r"] show ?case by (simp add: m)
qed

section \<open>Cursors\<close>

lemma parse_formatCursor: "parseCursor (formatCursor seqnum bootID) = Inr seqnum"
proof -
  have no: "CHR '';'' \<notin> set (format_uint (unat seqnum))"
    by (rule format_uint_notin) simp
  then have sp: "go_split (formatCursor seqnum bootID) '';'' =
      (''s='' @ format_uint (unat seqnum)) # go_split (''b='' @ hex_string bootID) '';''"
    using go_split_single_Cons[of "CHR '';''" "''s='' @ format_uint (unat seqnum)"
        "''b='' @ hex_string bootID"]
    by (simp add: formatCursor_def)
  have "unat seqnum < 2 ^ 64" using unsigned_less[of seqnum] by simp
  then have "parse_uint 64 (format_uint (unat seqnum)) = Some (unat seqnum)"
    by (rule parse_uint_format)
  then show ?thesis
    unfolding parseCursor_def sp parseCursorParts.simps cut_prefix_append by simp
qed

section \<open>Writing, then reading\<close>

definition data_of :: "(u64 \<times> (string \<times> string) list) list \<Rightarrow> string set" where
  "data_of es = (\<Union>e \<in> set es. datum ` set (snd e))"

definition named :: "(u64 \<times> (string \<times> string) list) list \<Rightarrow> bool" where
  "named es = list_all (\<lambda>e. list_all (\<lambda>kv. CHR ''='' \<notin> set (fst kv)) (snd e)) es"

text \<open>The entries as the reader presents them, numbered from a first sequence number.\<close>

definition seen :: "nat \<Rightarrow> id128 \<Rightarrow> (u64 \<times> (string \<times> string) list) list \<Rightarrow> jentry list" where
  "seen i boot es = List.map (\<lambda>(k, now, kvs). entry_of (i + k) (now, boot, kvs)) (enumerate 1 es)"

definition stamp :: "id128 \<Rightarrow> (u64 \<times> (string \<times> string) list) list \<Rightarrow> lentry list" where
  "stamp boot es = List.map (\<lambda>(now, kvs). (now, boot, kvs)) es"

lemma length_stamp [simp]: "length (stamp boot es) = length es"
  by (simp add: stamp_def)

lemma seen_entries: "seen (length log) boot es = entries_from (length log) (log @ stamp boot es)"
  by (rule nth_equalityI)
    (auto simp: seen_def entries_from_def stamp_def nth_append nth_enumerate_eq split: prod.splits)

lemma named_keys: "named es \<Longrightarrow> data_of es \<subseteq> D \<Longrightarrow> \<forall>e \<in> set es. keys_ok D (snd e)"
  by (fastforce simp: named_def data_of_def keys_ok_def list_all_iff)

lemma named_stamp:
  "named es \<Longrightarrow> \<forall>l \<in> set (stamp boot es). \<forall>kv \<in> set (snd (snd l)). CHR ''='' \<notin> set (fst kv)"
  by (fastforce simp: named_def stamp_def list_all_iff)

lemma named_stamps:
  "named es1 \<Longrightarrow> named es2 \<Longrightarrow> \<forall>l \<in> set (stamp b1 es1 @ stamp b2 es2).
     \<forall>kv \<in> set (snd (snd l)). CHR ''='' \<notin> set (fst kv)"
  unfolding set_append ball_Un by (intro conjI named_stamp)

text \<open>One writer: a new file, entries, \<open>Sync\<close>.\<close>

definition write_file ::
  "siphash \<Rightarrow> string \<Rightarrow> id128 \<Rightarrow> id128 \<Rightarrow> id128 \<Rightarrow> id128 \<Rightarrow> (u64 \<times> (string \<times> string) list) list \<Rightarrow> jerr + jfile"
where
  "write_file sip path machine boot fid sid es =
     (case Create path None [] machine boot (Some fid) (Some sid) of
        (Inl e, _) \<Rightarrow> Inl e
      | (Inr s, _) \<Rightarrow>
          (case thenE (append_all sip es) Sync s of (Inl e, _) \<Rightarrow> Inl e | (Inr _, s') \<Rightarrow> Inr s'))"

definition ids_ok :: "id128 \<Rightarrow> id128 \<Rightarrow> id128 \<Rightarrow> id128 \<Rightarrow> bool" where
  "ids_ok machine boot fid sid \<longleftrightarrow>
     length machine = 16 \<and> length boot = 16 \<and> length fid = 16 \<and> length sid = 16"

lemma write_file_run:
  assumes ids: "ids_ok machine boot fid sid" and named: "named es"
    and nc: "no_collision sip fid D" and D: "data_of es \<subseteq> D"
    and room: "initial_size + total_cost es < 2 ^ 32"
  shows "\<exists>s h as ps. write_file sip path machine boot fid sid es = Inr s \<and>
    log_inv sip D s h as ps (stamp boot es) \<and> \<not> jf_dirty s \<and> jf_bootID s = boot \<and>
    h_FileID (jf_header s) = fid \<and> fsize s \<le> initial_size + total_cost es"
proof -
  obtain s0 where c: "Create path None [] machine boot (Some fid) (Some sid) = (Inr s0, Some (bytes (jf_f s0)))"
    and s0: "log_inv sip D s0 initial_heap [] [] []" "fsize s0 = initial_size" "jf_bootID s0 = boot"
      "h_FileID (jf_header s0) = fid"
    using Create_run[of fid sid machine boot path sip D] ids unfolding ids_ok_def by blast
  obtain s1 h as ps where a: "append_all sip es s0 = (Inr (), s1)"
    and s1: "log_inv sip D s1 h as ps (stamp boot es)" "fsize s1 \<le> initial_size + total_cost es"
      "jf_bootID s1 = boot" "h_FileID (jf_header s1) = fid"
    using append_all_run[OF s0(1) named_keys[OF named D]] nc room s0 by (auto simp: stamp_def)
  obtain s2 where y: "Sync s1 = (Inr (), s2)" and s2: "log_inv sip D s2 h as ps (stamp boot es)"
    "\<not> jf_dirty s2" "fsize s2 = fsize s1" "jf_bootID s2 = jf_bootID s1"
    "h_FileID (jf_header s2) = h_FileID (jf_header s1)"
    using Sync_run[OF s1(1)] by blast
  have "write_file sip path machine boot fid sid es = Inr s2"
    using c a y by (simp add: write_file_def thenE_Inr)
  with s2 s1 show ?thesis by (intro exI[of _ s2] exI[of _ h] exI[of _ as] exI[of _ ps]) simp
qed

text \<open>More entries in an open file, synced.\<close>

lemma grow_run:
  assumes "log_inv sip D s h as ps log" and "named es" and "data_of es \<subseteq> D"
    and "no_collision sip (h_FileID (jf_header s)) D" and "fsize s + total_cost es < 2 ^ 32"
  shows "\<exists>s2 s3 h' as' ps'. append_all sip es s = (Inr (), s2) \<and> Sync s2 = (Inr (), s3) \<and>
    log_inv sip D s3 h' (as @ as') (ps @ ps') (log @ stamp (jf_bootID s) es) \<and> \<not> jf_dirty s3"
proof -
  obtain s2 h' as' ps' where a: "append_all sip es s = (Inr (), s2)"
    and s2: "log_inv sip D s2 h' (as @ as') (ps @ ps') (log @ stamp (jf_bootID s) es)"
    using append_all_run[OF assms(1) named_keys[OF assms(2,3)] assms(4,5)] by (auto simp: stamp_def)
  obtain s3 where "Sync s2 = (Inr (), s3)" "log_inv sip D s3 h' (as @ as') (ps @ ps') (log @ stamp (jf_bootID s) es)" "\<not> jf_dirty s3"
    using Sync_run[OF s2] by blast
  with a show ?thesis by blast
qed

text \<open>A new file, and what the same writer adds to it once it is synced.\<close>

lemma written_twice:
  assumes "ids_ok machine boot fid sid" and "named es1" and "named es2" and "no_collision sip fid (data_of (es1 @ es2))"
    and "initial_size + total_cost es1 + total_cost es2 < 2 ^ 32"
  shows "\<exists>s1 h1 as1 ps1 s2 s3 h2 as2 ps2. write_file sip path machine boot fid sid es1 = Inr s1 \<and>
    log_inv sip (data_of (es1 @ es2)) s1 h1 as1 ps1 (stamp boot es1) \<and> \<not> jf_dirty s1 \<and>
    append_all sip es2 s1 = (Inr (), s2) \<and> Sync s2 = (Inr (), s3) \<and>
    log_inv sip (data_of (es1 @ es2)) s3 h2 (as1 @ as2) (ps1 @ ps2) (stamp boot es1 @ stamp boot es2) \<and> \<not> jf_dirty s3"
proof -
  have D: "data_of es1 \<subseteq> data_of (es1 @ es2)" "data_of es2 \<subseteq> data_of (es1 @ es2)" by (auto simp: data_of_def)
  obtain s1 h1 as1 ps1 where w: "write_file sip path machine boot fid sid es1 = Inr s1"
    and s1: "log_inv sip (data_of (es1 @ es2)) s1 h1 as1 ps1 (stamp boot es1)" "\<not> jf_dirty s1" "jf_bootID s1 = boot"
      "h_FileID (jf_header s1) = fid" "fsize s1 \<le> initial_size + total_cost es1"
    using write_file_run[OF assms(1,2,4) D(1), where path = path] assms(5) by auto
  have "fsize s1 + total_cost es2 < 2 ^ 32" using s1(5) assms(5) by linarith
  with grow_run[OF s1(1) assms(3) D(2), unfolded s1(3,4)] assms(4) w s1(1,2) show ?thesis by blast
qed

text \<open>One reader: open, optionally seek, add filters, read to the end.\<close>

definition read_file ::
  "string \<Rightarrow> string \<Rightarrow> string option \<Rightarrow> (string \<times> string) list \<Rightarrow> nat \<Rightarrow> jerr + (jentry list \<times> jerr option)"
where
  "read_file path content cursor ms fuel =
     (case OpenRead path (Some content) [] of
        Inl e \<Rightarrow> Inl e
      | Inr r \<Rightarrow>
          (case (case cursor of None \<Rightarrow> (Inr (), r) | Some c \<Rightarrow> SeekCursor c r) of
             (Inl e, _) \<Rightarrow> Inl e
           | (Inr _, r) \<Rightarrow> (case drain fuel (add_matches ms r) of (ens, e, _) \<Rightarrow> Inr (ens, e))))"

lemma synced_header:
  assumes "log_inv sip D s h as ps log" and "\<not> jf_dirty s"
  shows "slice 0 HeaderSize (bytes (jf_f s)) = enc_header (jf_header s)" and "wf_header (jf_header s)"
  using assms winvD(10)[of sip D "set as" s h] unfolding log_inv_def by blast+

text \<open>A reader on a file without entries.\<close>

lemma Next_empty:
  assumes "h_EntryArrayOffset (r_header r) = 0" and "\<not> r_iterationInitialized r"
  shows "Next r = (Inl EOF, r\<lparr>r_iterationInitialized := True\<rparr>)"
  using assms by (subst Next.simps) (simp add: nextEntry_def Let_def)

lemma drain_empty:
  assumes "h_EntryArrayOffset (r_header r) = 0" and "\<not> r_iterationInitialized r" and "0 < fuel"
  shows "drain fuel r = ([], Some EOF, r\<lparr>r_iterationInitialized := True\<rparr>)"
  using assms by (cases fuel) (simp_all add: Next_empty)

lemma keys_of_stamp:
  "named es \<Longrightarrow> log = stamp boot es \<Longrightarrow>
   \<forall>l \<in> set log. \<forall>kv \<in> set (snd (snd l)). CHR ''='' \<notin> set (fst kv)"
  using named_stamp by blast

lemma read_log:
  assumes inv: "log_inv sip D s h as ps log" and clean: "\<not> jf_dirty s"
    and keys: "\<forall>l \<in> set log. \<forall>kv \<in> set (snd (snd l)). CHR ''='' \<notin> set (fst kv)"
    and cur: "case cursor of None \<Rightarrow> c = 0 | Some cs \<Rightarrow> parseCursor cs = Inr (of_nat c)"
    and c: "c < 2 ^ 64" and fuel: "length log - c < fuel"
  shows "read_file path (bytes (jf_f s)) cursor ms fuel =
    Inr (filter (matchesEntry ms) (entries_from c log), Some EOF)"
proof -
  note H = log_inv_holds[OF inv keys]
  note hd = synced_header[OF inv clean]
  obtain r where o: "OpenRead path (Some (bytes (jf_f s))) [] = Inr r"
    and r: "ready r (bytes (jf_f s)) as ps log 0" "r_matches r = []" "\<not> r_iterationInitialized r"
    using OpenRead_ready[OF H hd(2,1)] by blast
  let ?seek = "case cursor of None \<Rightarrow> (Inr (), r) | Some c \<Rightarrow> SeekCursor c r"
  obtain r1 where sk: "?seek = (Inr (), r1)" and r1: "ready r1 (bytes (jf_f s)) as ps log c"
    "r_matches r1 = []" "\<not> r_iterationInitialized r1"
  proof (cases cursor)
    case None
    with that[of r] r cur show ?thesis by simp
  next
    case (Some cs)
    with that[of "resetIteration (r\<lparr>r_currentSeqnum := of_nat c\<rparr>)"] seek_ready[OF r(1) c] r cur
    show ?thesis by (simp add: SeekCursor_def resetIteration_def)
  qed
  let ?r2 = "add_matches ms r1"
  have r2: "ready ?r2 (bytes (jf_f s)) as ps log c" "r_matches ?r2 = ms"
    using add_matches_ready[of ms r1] r1 by auto
  have "\<exists>r3. drain fuel ?r2 = (filter (matchesEntry ms) (entries_from c log), Some EOF, r3)"
  proof (cases "log = []")
    case False
    from drain_ready[OF H(1) False r2(1) fuel] r2(2) show ?thesis by auto
  next
    case True
    have "header_of_log (r_header ?r2) as log" using r2(1) by (simp add: ready_def)
    moreover have "as = []" using True holds_logD(5)[OF H(1)] by simp
    ultimately have "h_EntryArrayOffset (r_header ?r2) = 0"
      by (simp add: header_of_log_def next_of_def)
    moreover have "\<not> r_iterationInitialized ?r2"
      using r2(1) \<open>as = []\<close> by (auto simp: ready_def at_def)
    ultimately show ?thesis using drain_empty[of ?r2 fuel] fuel True
      by (simp add: entries_from_def)
  qed
  then show ?thesis using o sk by (auto simp: read_file_def)
qed

lemma entries_stamp: "entries_from 0 (stamp boot es) = seen 0 boot es"
  using seen_entries[of "[]" boot es] by simp

lemma drop_entries: "entries_from c log = drop c (entries_from 0 log)"
  by (simp add: entries_from_def drop_map)

lemma seen_append:
  "entries_from 0 (stamp b1 es1 @ stamp b2 es2) = seen 0 b1 es1 @ seen (length es1) b2 es2"
proof -
  have "seen (length es1) b2 es2 = entries_from (length es1) (stamp b1 es1 @ stamp b2 es2)"
    using seen_entries[of "stamp b1 es1" b2 es2] by simp
  moreover have "seen 0 b1 es1 = take (length es1) (entries_from 0 (stamp b1 es1 @ stamp b2 es2))"
    unfolding entries_stamp[symmetric]
    by (rule nth_equalityI) (simp_all add: entries_from_def nth_append)
  ultimately show ?thesis by (simp add: drop_entries[of "length es1"])
qed

text \<open>
  C1. What is written to a new journal file and synced is what a reader finds: every entry, in
  order, numbered from 1, with its time, boot id and fields; with filters, exactly the entries
  that match them; and then the end of the file.
\<close>

theorem journal_roundtrip:
  assumes "ids_ok machine boot fid sid" and "named es" and "no_collision sip fid (data_of es)"
    and "initial_size + total_cost es < 2 ^ 32"
  shows "\<exists>s. write_file sip path machine boot fid sid es = Inr s \<and>
    (\<forall>ms. read_file path (bytes (jf_f s)) None ms (Suc (length es)) =
       Inr (filter (matchesEntry ms) (seen 0 boot es), Some EOF))"
proof -
  obtain s h as ps where w: "write_file sip path machine boot fid sid es = Inr s"
    and inv: "log_inv sip (data_of es) s h as ps (stamp boot es)" and clean: "\<not> jf_dirty s"
    using write_file_run[OF assms(1-3) subset_refl assms(4)] by blast
  have "read_file path (bytes (jf_f s)) None ms (Suc (length es)) =
      Inr (filter (matchesEntry ms) (seen 0 boot es), Some EOF)" for ms
    using read_log[OF inv clean named_stamp[OF assms(2)], where cursor = None and c = 0 and fuel = "Suc (length es)"]
    by (simp add: entries_stamp)
  with w show ?thesis by blast
qed

text \<open>
  C2. The cursor of an entry resumes reading right after it: nothing is lost and nothing is
  seen twice.
\<close>

theorem cursor_resumes:
  assumes "ids_ok machine boot fid sid" and "named es" and "no_collision sip fid (data_of es)"
    and "initial_size + total_cost es < 2 ^ 32" and "i < length es"
  shows "\<exists>s. write_file sip path machine boot fid sid es = Inr s \<and>
    (\<forall>ms. read_file path (bytes (jf_f s)) (Some (GetCursor (seen 0 boot es ! i))) ms (Suc (length es)) =
       Inr (filter (matchesEntry ms) (drop (Suc i) (seen 0 boot es)), Some EOF))"
proof -
  obtain s h as ps where w: "write_file sip path machine boot fid sid es = Inr s"
    and inv: "log_inv sip (data_of es) s h as ps (stamp boot es)" and clean: "\<not> jf_dirty s"
    using write_file_run[OF assms(1-3) subset_refl assms(4)] by blast
  have n: "length es < 2 ^ 32" using log_inv_length(1)[OF inv] by simp
  have "je_Seqnum (seen 0 boot es ! i) = of_nat (Suc i)"
    using assms(5) unfolding entries_stamp[symmetric]
    by (simp add: entries_from_def entry_of_def split: prod.split)
  then have "parseCursor (GetCursor (seen 0 boot es ! i)) = Inr (of_nat (Suc i))"
    unfolding GetCursor_def parse_formatCursor by simp
  then have "read_file path (bytes (jf_f s)) (Some (GetCursor (seen 0 boot es ! i))) ms (Suc (length es)) =
      Inr (filter (matchesEntry ms) (drop (Suc i) (seen 0 boot es)), Some EOF)" for ms
    using read_log[OF inv clean named_stamp[OF assms(2)],
        where cursor = "Some (GetCursor (seen 0 boot es ! i))" and c = "Suc i" and
          fuel = "Suc (length es)"] n assms(5)
    by (simp add: drop_entries[of "Suc i"] entries_stamp)
  with w show ?thesis by blast
qed

section \<open>Writing again\<close>

text \<open>Another process opens the file, appends to it and syncs.\<close>

definition append_file ::
  "siphash \<Rightarrow> string \<Rightarrow> string \<Rightarrow> id128 \<Rightarrow> (u64 \<times> (string \<times> string) list) list \<Rightarrow> jerr + jfile"
where
  "append_file sip path content boot es =
     (case OpenAppend path (Some content) [] (Some boot) of
        Inl e \<Rightarrow> Inl e
      | Inr s \<Rightarrow>
          (case thenE (append_all sip es) Sync s of (Inl e, _) \<Rightarrow> Inl e | (Inr _, s') \<Rightarrow> Inr s'))"

text \<open>
  C3. A journal file survives a restart of its writer: a second writer that opens the file for
  appending continues the same log, with the sequence numbers following on, and a reader finds
  the entries of both.
\<close>

theorem reopen_continues:
  assumes ids: "ids_ok machine boot fid sid" "length boot2 = 16" and named: "named es1" "named es2"
    and nc: "no_collision sip fid (data_of (es1 @ es2))"
    and room: "initial_size + total_cost es1 + total_cost es2 < 2 ^ 32"
  shows "\<exists>s1 s2. write_file sip path machine boot fid sid es1 = Inr s1 \<and>
    append_file sip path (bytes (jf_f s1)) boot2 es2 = Inr s2 \<and>
    (\<forall>ms. read_file path (bytes (jf_f s2)) None ms (Suc (length es1 + length es2)) =
       Inr (filter (matchesEntry ms) (seen 0 boot es1 @ seen (length es1) boot2 es2), Some EOF))"
proof -
  let ?D = "data_of (es1 @ es2)"
  have D: "data_of es1 \<subseteq> ?D" "data_of es2 \<subseteq> ?D" by (auto simp: data_of_def)
  obtain s1 h1 as1 ps1 where w: "write_file sip path machine boot fid sid es1 = Inr s1"
    and s1: "log_inv sip ?D s1 h1 as1 ps1 (stamp boot es1)" "\<not> jf_dirty s1"
      "h_FileID (jf_header s1) = fid" "fsize s1 \<le> initial_size + total_cost es1"
    using write_file_run[OF ids(1) named(1) nc D(1), where path = path] room by auto
  obtain s2 where o: "OpenAppend path (Some (bytes (jf_f s1))) [] (Some boot2) = Inr s2"
    and s2: "log_inv sip ?D s2 h1 as1 ps1 (stamp boot es1)" "jf_bootID s2 = boot2"
      "fsize s2 = fsize s1" "h_FileID (jf_header s2) = h_FileID (jf_header s1)"
    using OpenAppend_run[OF s1(1,2) ids(2), of path] by blast
  have "fsize s2 + total_cost es2 < 2 ^ 32" using s1(4) s2(3) room by linarith
  from grow_run[OF s2(1) named(2) D(2) _ this] nc obtain s3 s4 h3 as3 ps3 where
    a: "append_all sip es2 s2 = (Inr (), s3)" and y: "Sync s3 = (Inr (), s4)"
    and s4: "log_inv sip ?D s4 h3 as3 ps3 (stamp boot es1 @ stamp boot2 es2)" "\<not> jf_dirty s4"
    unfolding s1(3) s2(2,4) by blast
  have ap: "append_file sip path (bytes (jf_f s1)) boot2 es2 = Inr s4"
    using o a y by (simp add: append_file_def thenE_Inr)
  have keys: "\<forall>l \<in> set (stamp boot es1 @ stamp boot2 es2).
      \<forall>kv \<in> set (snd (snd l)). CHR ''='' \<notin> set (fst kv)"
    using named_stamps[OF named] .
  have "read_file path (bytes (jf_f s4)) None ms (Suc (length es1 + length es2)) =
      Inr (filter (matchesEntry ms) (seen 0 boot es1 @ seen (length es1) boot2 es2), Some EOF)" for ms
    using read_log[OF s4 keys, where cursor = None and c = 0 and
        fuel = "Suc (length es1 + length es2)"]
    by (simp add: seen_append)
  with w ap show ?thesis by blast
qed

section \<open>Following a file that grows\<close>

text \<open>The bytes under an open reader are those another process has written since.\<close>

definition grown :: "string \<Rightarrow> reader \<Rightarrow> reader" where
  "grown bs r = r\<lparr>r_f := (r_f r)\<lparr>bytes := bs\<rparr>\<rparr>"

text \<open>
  A follower: read to the end, let the writer append and sync, \<open>Refresh\<close>, read to the end again.
\<close>

definition follow ::
  "siphash \<Rightarrow> string \<Rightarrow> jfile \<Rightarrow> (u64 \<times> (string \<times> string) list) list \<Rightarrow> nat \<Rightarrow>
   (jentry list \<times> jentry list) option"
where
  "follow sip path s es fuel =
     (case OpenRead path (Some (bytes (jf_f s))) [] of
        Inl e \<Rightarrow> None
      | Inr r \<Rightarrow>
          (case drain fuel r of (first, _, r1) \<Rightarrow>
          (case thenE (append_all sip es) Sync s of
             (Inl e, _) \<Rightarrow> None
           | (Inr _, s') \<Rightarrow>
               (case Refresh (grown (bytes (jf_f s')) r1) of
                  (Inl e, _) \<Rightarrow> None
                | (Inr _, r2) \<Rightarrow> (case drain fuel r2 of (second, _, _) \<Rightarrow> Some (first, second))))))"

lemma at_grown:
  assumes "at r bs as ps k 1" and "holds_log bs h as ps log" and "holds_log bs' h' (as @ as') (ps @ ps') log'"
  shows "at (grown bs' r) bs' (as @ as') (ps @ ps') k 1"
proof -
  have k: "k < length as" "k < length ps"
    using assms(1) holds_logD(4,5)[OF assms(2)] by (auto simp: at_def)
  have "r_nextEntryArrayOffset r = next_of (drop (Suc k) as) \<or> r_nextEntryArrayOffset r = 0"
    using assms(1) by (auto simp: at_def)
  then have "r_nextEntryArrayOffset r = next_of (drop (Suc k) (as @ as')) \<or> r_nextEntryArrayOffset r = 0"
    unfolding next_of_drop by (auto simp: nth_append)
  with assms(1) k show ?thesis by (auto simp: at_def grown_def reads_def nth_append)
qed

lemma Refresh_ready:
  assumes r: "ready r bs as ps log c" and H: "holds_log bs h as ps log"
    and H': "holds_log bs' h' (as @ as') (ps @ ps') log'" and hdr: "header_of_log hdr (as @ as') log'"
    and wf: "wf_header hdr" and here: "slice 0 HeaderSize bs' = enc_header hdr"
  shows "\<exists>r'. Refresh (grown bs' r) = (Inr (), r') \<and> ready r' bs' (as @ as') (ps @ ps') log' c \<and>
    r_matches r' = r_matches r"
proof -
  let ?g = "grown bs' r"
  have rd: "reads ?g bs'" using r by (simp add: ready_def grown_def reads_def)
  have small: "HeaderSize \<le> length bs'" "length bs' < 2 ^ 32" using H' by (simp_all add: holds_log_def)
  have "r_readAt 0 HeaderSize ?g = (Inr (enc_header hdr), ?g)"
    using r_readAt_inside[OF rd, of 0 0 HeaderSize] small here by simp
  then have run: "Refresh ?g = (Inr (), ?g\<lparr>r_header := hdr\<rparr>)"
    using header_codec.dec_enc[OF wf] hdr
    by (simp add: Refresh_def readHeader_def bindE_Inr mapErrE_Inr header_of_log_def)
  have "at (?g\<lparr>r_header := hdr\<rparr>) bs' (as @ as') (ps @ ps') k 1" if "at r bs as ps k 1" for k
    using at_grown[OF that H H'] by (simp add: at_def reads_def)
  then have "ready (?g\<lparr>r_header := hdr\<rparr>) bs' (as @ as') (ps @ ps') log' c"
    using r hdr rd by (auto simp: ready_def reads_def grown_def)
  with run show ?thesis by (intro exI[of _ "?g\<lparr>r_header := hdr\<rparr>"]) (simp add: grown_def)
qed

text \<open>
  C4. A follower of a file that already had entries sees every new entry exactly once, after the
  ones it has read.
\<close>

theorem follow_sees_all:
  assumes ids: "ids_ok machine boot fid sid" and named: "named es1" "named es2"
    and nc: "no_collision sip fid (data_of (es1 @ es2))"
    and room: "initial_size + total_cost es1 + total_cost es2 < 2 ^ 32" and ne: "es1 \<noteq> []"
  shows "\<exists>s. write_file sip path machine boot fid sid es1 = Inr s \<and>
    follow sip path s es2 (Suc (length es1 + length es2)) =
      Some (seen 0 boot es1, seen (length es1) boot es2)"
proof -
  let ?D = "data_of (es1 @ es2)"
  let ?fuel = "Suc (length es1 + length es2)"
  let ?log1 = "stamp boot es1"
  let ?log2 = "?log1 @ stamp boot es2"
  obtain s1 h1 as1 ps1 s2 s3 h2 as2 ps2 where w: "write_file sip path machine boot fid sid es1 = Inr s1"
    and s1: "log_inv sip ?D s1 h1 as1 ps1 ?log1" "\<not> jf_dirty s1"
    and a: "append_all sip es2 s1 = (Inr (), s2)" and y: "Sync s2 = (Inr (), s3)"
    and s3: "log_inv sip ?D s3 h2 (as1 @ as2) (ps1 @ ps2) ?log2" "\<not> jf_dirty s3"
    using written_twice[OF ids named nc room, of path] by blast
  have keys: "\<forall>l \<in> set ?log2. \<forall>kv \<in> set (snd (snd l)). CHR ''='' \<notin> set (fst kv)"
    using named_stamps[OF named] .
  note H1 = log_inv_holds[OF s1(1) named_stamp[OF named(1)]] and hd1 = synced_header[OF s1(1,2)]
  note H2 = log_inv_holds[OF s3(1) keys] and hd2 = synced_header[OF s3]
  have ne1: "?log1 \<noteq> []" "?log2 \<noteq> []" using ne by (simp_all add: stamp_def)
  obtain r where o: "OpenRead path (Some (bytes (jf_f s1))) [] = Inr r"
    and r: "ready r (bytes (jf_f s1)) as1 ps1 ?log1 0" "r_matches r = []"
    using OpenRead_ready[OF H1 hd1(2,1)] by blast
  obtain r1 where d1: "drain ?fuel r = (seen 0 boot es1, Some EOF, r1)"
    and r1: "ready r1 (bytes (jf_f s1)) as1 ps1 ?log1 (length es1)" "stat r1 = stat r"
    using drain_ready[OF H1(1) ne1(1) r(1), of ?fuel] r(2)
    by (auto simp: entries_stamp matchesEntry_def)
  obtain r2 where rf: "Refresh (grown (bytes (jf_f s3)) r1) = (Inr (), r2)"
    and r2: "ready r2 (bytes (jf_f s3)) (as1 @ as2) (ps1 @ ps2) ?log2 (length es1)"
      "r_matches r2 = r_matches r1"
    using Refresh_ready[OF r1(1) H1(1) H2 hd2(2,1)] by blast
  have "r_matches r2 = []" using r2(2) r1(2) r(2) by (simp add: stat_def)
  then obtain r3 where d2: "drain ?fuel r2 = (seen (length es1) boot es2, Some EOF, r3)"
    using drain_ready[OF H2(1) ne1(2) r2(1), of ?fuel] seen_entries[of ?log1 boot es2]
    by (auto simp: matchesEntry_def)
  have "follow sip path s1 es2 ?fuel = Some (seen 0 boot es1, seen (length es1) boot es2)"
    using o d1 a y rf d2 by (simp add: follow_def thenE_Inr)
  with w show ?thesis by blast
qed

lemma drain_stuck:
  assumes "r_iterationInitialized q" and "r_entryArrayOffset q = 0"
  shows "drain (Suc n) q = ([], Some EOF, q)"
proof -
  have "next_fuel q = Suc (next_fuel q - 1)" by (simp add: next_fuel_def)
  then have "nextEntry q = (Inl EOF, q)" using assms by (metis nextEntry_def nextLoop.simps(2))
  then show ?thesis by (simp add: Next.simps)
qed


section \<open>Instances\<close>

definition sample_sip :: siphash where
  "sample_sip k0 k1 d = of_nat (le_dec d)"

definition sample_id :: id128 where
  "sample_id = replicate 16 (CHR ''7'')"

definition sample_log :: "(u64 \<times> (string \<times> string) list) list" where
  "sample_log = [(5000000, [(''A'', ''x'')]), (6000001, [(''B'', ''y''), (''A'', ''x'')])]"

lemma sample_ids: "ids_ok sample_id sample_id sample_id sample_id"
  by (simp add: ids_ok_def sample_id_def)

lemma sample_named: "named sample_log"
  by (simp add: named_def sample_log_def)

lemma sample_distinct: "no_collision sample_sip sample_id (data_of sample_log)"
  by (auto simp: no_collision_def data_of_def sample_log_def datum_def inj_on_def SipHash24_def
      sample_sip_def)

lemma sample_nonempty: "sample_log \<noteq> []"
  by (simp add: sample_log_def)

lemma sample_room: "initial_size + total_cost sample_log < 2 ^ 32"
  by (simp add: initial_size_def total_cost_def sample_log_def entry_cost_def data_cost_def datum_def)

theorem journal_roundtrip_witness:
  "\<exists>s. write_file sample_sip ''j'' sample_id sample_id sample_id sample_id sample_log = Inr s \<and>
    (\<forall>ms. read_file ''j'' (bytes (jf_f s)) None ms (Suc (length sample_log)) =
       Inr (filter (matchesEntry ms) (seen 0 sample_id sample_log), Some EOF))"
  by (rule journal_roundtrip[OF sample_ids sample_named sample_distinct sample_room])

theorem cursor_resumes_witness:
  "\<exists>s. write_file sample_sip ''j'' sample_id sample_id sample_id sample_id sample_log = Inr s \<and>
    (\<forall>ms. read_file ''j'' (bytes (jf_f s)) (Some (GetCursor (seen 0 sample_id sample_log ! 0))) ms
        (Suc (length sample_log)) =
       Inr (filter (matchesEntry ms) (drop (Suc 0) (seen 0 sample_id sample_log)), Some EOF))"
  by (rule cursor_resumes[OF sample_ids sample_named sample_distinct sample_room])
    (simp add: sample_log_def)

lemma sample_twice: "data_of (sample_log @ sample_log) = data_of sample_log"
  by (simp add: data_of_def)

lemma sample_room2: "initial_size + total_cost sample_log + total_cost sample_log < 2 ^ 32"
  by (simp add: initial_size_def total_cost_def sample_log_def entry_cost_def data_cost_def datum_def)

theorem reopen_continues_witness:
  "\<exists>s1 s2. write_file sample_sip ''j'' sample_id sample_id sample_id sample_id sample_log = Inr s1 \<and>
    append_file sample_sip ''j'' (bytes (jf_f s1)) (replicate 16 (CHR ''8'')) sample_log = Inr s2 \<and>
    (\<forall>ms. read_file ''j'' (bytes (jf_f s2)) None ms (Suc (length sample_log + length sample_log)) =
       Inr (filter (matchesEntry ms) (seen 0 sample_id sample_log @
         seen (length sample_log) (replicate 16 (CHR ''8'')) sample_log), Some EOF))"
  by (rule reopen_continues[OF sample_ids _ sample_named sample_named _ sample_room2])
    (simp_all add: sample_twice sample_distinct)

theorem follow_sees_all_witness:
  "\<exists>s. write_file sample_sip ''j'' sample_id sample_id sample_id sample_id sample_log = Inr s \<and>
    follow sample_sip ''j'' s sample_log (Suc (length sample_log + length sample_log)) =
      Some (seen 0 sample_id sample_log, seen (length sample_log) sample_id sample_log)"
  by (rule follow_sees_all[OF sample_ids sample_named sample_named _ sample_room2])
    (simp_all add: sample_twice sample_distinct sample_nonempty)


end
