(* ===== verification/Float64.thy ===== *)
theory Float64
  imports GoStrings Complex_Main "HOL-Library.Log_Nat"
begin

text \<open>
  Go's \<open>float64\<close> as the code uses it: parsing, rounding to 53 bits, comparison, conversion to
  integers and printing with \<open>%.nf\<close>. A finite value is the rational number it stands for; the
  sign of zero is not kept, since nothing here tells the two zeros apart.
\<close>

datatype f64 = NaN | Inf bool | Fin rat

section \<open>Rounding\<close>

definition round_half_even :: "rat \<Rightarrow> int" where
  "round_half_even q =
     (let f = \<lfloor>q\<rfloor>; r = q - of_int f in
      if r < 1/2 then f else if r > 1/2 then f + 1 else if even f then f else f + 1)"

text \<open>The exponent of the leading bit of a positive number.\<close>

definition top_bit :: "rat \<Rightarrow> int" where
  "top_bit q =
     (let (a, b) = quotient_of q; k = bitlen a - bitlen b in
      if (2::rat) powi k \<le> q then k else k - 1)"

text \<open>Rounding of a number that is not negative: 53 bits, the least exponent, and overflow.\<close>

definition round_pos :: "rat \<Rightarrow> rat option" where
  "round_pos q =
     (let e = max (- 1074) (top_bit q - 52);
          v = of_int (round_half_even (q / 2 powi e)) * 2 powi e
      in if v < 2 ^ 1024 then Some v else None)"

definition f64_round :: "rat \<Rightarrow> f64" where
  "f64_round q =
     (if q = 0 then Fin 0
      else case round_pos \<bar>q\<bar> of
        None \<Rightarrow> Inf (q < 0)
      | Some v \<Rightarrow> Fin (if q < 0 then - v else v))"

section \<open>Arithmetic and comparison\<close>

definition f64_of_nat :: "nat \<Rightarrow> f64" where "f64_of_nat n = f64_round (of_nat n)"

fun f64_le :: "f64 \<Rightarrow> rat \<Rightarrow> bool" where
  "f64_le NaN c = False"
| "f64_le (Inf neg) c = neg"
| "f64_le (Fin q) c = (q \<le> c)"

fun f64_gt :: "f64 \<Rightarrow> rat \<Rightarrow> bool" where
  "f64_gt NaN c = False"
| "f64_gt (Inf neg) c = (\<not> neg)"
| "f64_gt (Fin q) c = (q > c)"

text \<open>Multiplication and division by a positive finite constant.\<close>

fun f64_scale :: "f64 \<Rightarrow> rat \<Rightarrow> f64" where
  "f64_scale NaN c = NaN"
| "f64_scale (Inf neg) c = Inf neg"
| "f64_scale (Fin q) c = f64_round (q * c)"

fun f64_mul :: "f64 \<Rightarrow> f64 \<Rightarrow> f64" where
  "f64_mul (Fin a) (Fin b) = f64_round (a * b)"
| "f64_mul (Inf n) (Fin b) = (if b = 0 then NaN else Inf (n \<noteq> (b < 0)))"
| "f64_mul (Fin a) (Inf n) = (if a = 0 then NaN else Inf (n \<noteq> (a < 0)))"
| "f64_mul (Inf n) (Inf m) = Inf (n \<noteq> m)"
| "f64_mul NaN _ = NaN"
| "f64_mul _ NaN = NaN"

text \<open>
  \<open>uint64(x)\<close>: the integer part where it fits; elsewhere the language leaves the result to the
  implementation, which is the parameter \<open>oor\<close>.
\<close>

definition f64_to_u64 :: "(f64 \<Rightarrow> u64) \<Rightarrow> f64 \<Rightarrow> u64" where
  "f64_to_u64 oor x =
     (case x of
        Fin q \<Rightarrow> if -1 < q \<and> q < 2 ^ 64 then (if q < 0 then 0 else of_nat (nat \<lfloor>q\<rfloor>)) else oor x
      | _ \<Rightarrow> oor x)"

section \<open>Parsing\<close>

text \<open>\<open>strconv.ParseFloat(s, 64)\<close>: decimal and hexadecimal texts, infinities and NaN.\<close>

definition lower :: "byte \<Rightarrow> byte" where
  "lower c = (let n = of_char c :: nat in if 65 \<le> n \<and> n \<le> 90 then char_of (n + 32) else c)"

definition hex_val :: "byte \<Rightarrow> nat option" where
  "hex_val c = (let n = of_char (lower c) :: nat in if 97 \<le> n \<and> n \<le> 102 then Some (n - 87) else None)"

definition base_digit :: "nat \<Rightarrow> byte \<Rightarrow> nat option" where
  "base_digit base c =
     (case digit_val c of Some d \<Rightarrow> Some d | None \<Rightarrow> if base = 16 then hex_val c else None)"

text \<open>The digits: the number they form without point, the digits after the point, and the rest.\<close>

fun read_mantissa :: "nat \<Rightarrow> bool \<Rightarrow> bool \<Rightarrow> nat \<Rightarrow> nat \<Rightarrow> string \<Rightarrow> bool \<times> nat \<times> nat \<times> string" where
  "read_mantissa base dot digits mant fr [] = (digits, mant, fr, [])"
| "read_mantissa base dot digits mant fr (c # cs) =
     (if c = CHR ''_'' then read_mantissa base dot digits mant fr cs
      else if c = CHR ''.'' then
        (if dot then (digits, mant, fr, c # cs) else read_mantissa base True digits mant fr cs)
      else case base_digit base c of
        Some d \<Rightarrow> read_mantissa base dot True (base * mant + d) (if dot then fr + 1 else fr) cs
      | None \<Rightarrow> (digits, mant, fr, c # cs))"

fun read_exp_digits :: "nat \<Rightarrow> string \<Rightarrow> nat option" where
  "read_exp_digits e [] = Some e"
| "read_exp_digits e (c # cs) =
     (if c = CHR ''_'' then read_exp_digits e cs
      else case digit_val c of
        Some d \<Rightarrow> read_exp_digits (if e < 10000 then 10 * e + d else e) cs
      | None \<Rightarrow> None)"

definition take_sign :: "string \<Rightarrow> bool \<times> string" where
  "take_sign s = (case s of [] \<Rightarrow> (False, []) | c # cs \<Rightarrow>
     if c = CHR ''-'' then (True, cs) else if c = CHR ''+'' then (False, cs) else (False, s))"

definition read_exponent :: "byte \<Rightarrow> string \<Rightarrow> int option" where
  "read_exponent expChar s =
     (case s of
        [] \<Rightarrow> if expChar = CHR ''p'' then None else Some 0
      | c # cs \<Rightarrow>
          if lower c \<noteq> expChar then None
          else case take_sign cs of (neg, ds) \<Rightarrow>
            (case ds of
               [] \<Rightarrow> None
             | d # _ \<Rightarrow>
                 if digit_val d = None then None
                 else map_option (\<lambda>e. if neg then - int e else int e) (read_exp_digits 0 ds)))"

text \<open>Underscores stand between digits, or between a base prefix and a digit.\<close>

fun underscores_ok :: "bool \<Rightarrow> byte \<Rightarrow> string \<Rightarrow> bool" where
  "underscores_ok hex i [] = (i \<noteq> CHR ''_'')"
| "underscores_ok hex i (c # cs) =
     (if digit_val c \<noteq> None \<or> hex \<and> hex_val c \<noteq> None then underscores_ok hex (CHR ''0'') cs
      else if c = CHR ''_'' then i = CHR ''0'' \<and> underscores_ok hex c cs
      else i \<noteq> CHR ''_'' \<and> underscores_ok hex (CHR ''!'') cs)"

definition is_hex :: "string \<Rightarrow> bool" where
  "is_hex t = (case t of a # b # _ # _ \<Rightarrow> a = CHR ''0'' \<and> lower b = CHR ''x'' | _ \<Rightarrow> False)"

definition read_number :: "string \<Rightarrow> rat option" where
  "read_number t =
     (let hex = is_hex t; ds = (if hex then drop 2 t else t); base = (if hex then 16 else 10) in
      case read_mantissa base False False 0 0 ds of (digits, mant, fr, rest) \<Rightarrow>
        if \<not> digits then None
        else case read_exponent (if hex then CHR ''p'' else CHR ''e'') rest of
          None \<Rightarrow> None
        | Some e \<Rightarrow>
            if CHR ''_'' \<in> set ds \<and> \<not> underscores_ok hex (if hex then CHR ''0'' else CHR ''^'') ds then None
            else Some (if hex then of_nat mant * 2 powi (e - 4 * int fr)
                       else of_nat mant * 10 powi (e - int fr)))"

definition ParseFloat :: "string \<Rightarrow> f64 option" where
  "ParseFloat s =
     (let (neg, t) = take_sign s; l = map lower t in
      if l = ''inf'' \<or> l = ''infinity'' then Some (Inf neg)
      else if map lower s = ''nan'' then Some NaN
      else case read_number t of
        None \<Rightarrow> None
      | Some q \<Rightarrow> (case f64_round (if neg then - q else q) of Fin r \<Rightarrow> Some (Fin r) | _ \<Rightarrow> None))"

section \<open>Printing\<close>

text \<open>\<open>%.nf\<close> of a finite number.\<close>

definition pad_left :: "nat \<Rightarrow> byte \<Rightarrow> string \<Rightarrow> string" where
  "pad_left w c s = replicate (w - length s) c @ s"

definition format_fixed :: "nat \<Rightarrow> rat \<Rightarrow> string" where
  "format_fixed n q =
     (let k = nat (round_half_even (\<bar>q\<bar> * 10 ^ n)) in
      (if q < 0 then ''-'' else []) @ format_uint (k div 10 ^ n) @
      (if n = 0 then [] else ''.'' @ pad_left n (CHR ''0'') (format_uint (k mod 10 ^ n))))"

fun format_f64 :: "nat \<Rightarrow> f64 \<Rightarrow> string" where
  "format_f64 n NaN = ''NaN''"
| "format_f64 n (Inf neg) = (if neg then ''-Inf'' else ''+Inf'')"
| "format_f64 n (Fin q) = format_fixed n q"

section \<open>Integers below \<open>2 ^ 53\<close> are exact\<close>

lemma round_half_even_int [simp]: "round_half_even (of_int i) = i"
  by (simp add: round_half_even_def)

lemma round_half_even_nat [simp]: "round_half_even (of_nat n) = int n"
  using round_half_even_int[of "int n"] by simp

lemma top_bit_le:
  assumes "n < 2 ^ 53"
  shows "top_bit (of_nat n) \<le> 52"
proof -
  have q: "quotient_of (of_nat n) = (int n, 1)"
    using quotient_of_int[of "int n"] by (simp add: Rat.of_int_def)
  have "bitlen (int n) \<le> 53"
    using assms by (simp add: bitlen_le_iff_power)
  moreover have "bitlen 1 = 1" by (simp add: bitlen_def floorlog_def)
  ultimately show ?thesis by (simp add: top_bit_def q Let_def)
qed

lemma f64_round_nat:
  assumes "n < 2 ^ 53"
  shows "f64_round (of_nat n) = Fin (of_nat n)"
proof (cases "n = 0")
  case True
  then show ?thesis by (simp add: f64_round_def)
next
  case False
  let ?e = "max (- 1074) (top_bit (of_nat n) - 52)"
  have "?e \<le> 0" using top_bit_le[OF assms] by simp
  then obtain k where k: "?e = - int k" by (metis nonpos_int_cases)
  have "(of_nat n :: rat) / 2 powi ?e = of_nat (n * 2 ^ k)"
    by (simp add: k power_int_minus divide_inverse)
  moreover have "round_half_even (of_nat n * 2 ^ k) = int (n * 2 ^ k)"
    using round_half_even_nat[of "n * 2 ^ k"] by simp
  ultimately have "of_int (round_half_even (of_nat n / 2 powi ?e)) * 2 powi ?e = (of_nat n :: rat)"
    unfolding k by (simp add: power_int_minus divide_inverse)
  moreover have "(of_nat n :: rat) < 2 ^ 1024"
  proof -
    have "n < 2 ^ 1024" using assms by (rule less_le_trans) (rule power_increasing, simp_all)
    then have "(of_nat n :: rat) < of_nat (2 ^ 1024)" by (simp only: of_nat_less_iff)
    then show ?thesis by simp
  qed
  ultimately show ?thesis using False by (simp add: f64_round_def round_pos_def Let_def)
qed

end
