(* ===== verification/ResourceLimits.thy ===== *)
theory ResourceLimits
  imports Float64
begin

text \<open>
  \<open>internal/backend/limits.go\<close> and the translation of limits into unit properties in
  \<open>internal/backend/systemd/dbus.go\<close>. The number of CPUs and the text of \<open>/proc/meminfo\<close> are
  parameters; so is \<open>oor\<close>, what \<open>uint64(x)\<close> gives for a float outside its range.
\<close>

section \<open>Limits\<close>

record limits =
  CPUs :: f64
  CPUWeight :: u64
  IOWeight :: u64
  MemoryHigh :: u64
  MemoryMax :: u64
  SwapMax :: u64
  NoSwap :: bool
  TasksMax :: u64

definition noLimits :: limits where
  "noLimits = \<lparr>CPUs = Fin 0, CPUWeight = 0, IOWeight = 0, MemoryHigh = 0, MemoryMax = 0,
     SwapMax = 0, NoSwap = False, TasksMax = 0\<rparr>"

definition IsZero :: "limits \<Rightarrow> bool" where "IsZero l = (l = noLimits)"

text \<open>\<open>meminfo\<close> scans the lines of the file, which is \<open>None\<close> where it cannot be opened.\<close>

fun meminfo_lines :: "string list \<Rightarrow> string \<Rightarrow> u64" where
  "meminfo_lines [] name = 0"
| "meminfo_lines (l # ls) name =
     (case go_fields l of
        f # v # _ \<Rightarrow>
          if f = name then of_nat (parse_uint_value 64 v) * 1024 else meminfo_lines ls name
      | _ \<Rightarrow> meminfo_lines ls name)"

definition meminfo :: "string option \<Rightarrow> string \<Rightarrow> u64" where
  "meminfo proc name =
     (case proc of None \<Rightarrow> 0 | Some text \<Rightarrow> meminfo_lines (scan_lines text) name)"

definition DefaultLimits :: "nat \<Rightarrow> string option \<Rightarrow> limits" where
  "DefaultLimits numCPU proc =
     (let l = noLimits\<lparr>CPUWeight := 50, IOWeight := 50, TasksMax := 4096\<rparr>;
          l = (if numCPU > 2 then l\<lparr>CPUs := f64_of_nat (numCPU - 2)\<rparr> else l);
          total = meminfo proc ''MemTotal:'';
          l = (if total > 0 then l\<lparr>MemoryHigh := total div 2, MemoryMax := total div 4 * 3\<rparr> else l)
      in l\<lparr>SwapMax := meminfo proc ''SwapTotal:'' div 2\<rparr>)"

definition SliceLimits :: "nat \<Rightarrow> string option \<Rightarrow> limits" where
  "SliceLimits numCPU proc =
     (let l = noLimits;
          l = (if numCPU > 1 then l\<lparr>CPUs := f64_of_nat (numCPU - 1)\<rparr> else l);
          total = meminfo proc ''MemTotal:''
      in if total > 0 then l\<lparr>MemoryMax := total div 10 * 9\<rparr> else l)"

section \<open>Sizes\<close>

definition upper :: "byte \<Rightarrow> byte" where
  "upper c = (let n = of_char c :: nat in if 97 \<le> n \<and> n \<le> 122 then char_of (n - 32) else c)"

definition unit_mult :: "byte \<Rightarrow> nat option" where
  "unit_mult c =
     (if upper c = CHR ''K'' then Some (2 ^ 10) else if upper c = CHR ''M'' then Some (2 ^ 20)
      else if upper c = CHR ''G'' then Some (2 ^ 30) else if upper c = CHR ''T'' then Some (2 ^ 40)
      else None)"

text \<open>The text without its unit, and the factor of the unit.\<close>

definition split_unit :: "string \<Rightarrow> string \<times> nat" where
  "split_unit s =
     (if s = [] then (s, 1)
      else case unit_mult (last s) of None \<Rightarrow> (s, 1) | Some k \<Rightarrow> (butlast s, k))"

datatype size_error = BadPercentage string | NoTotalMemory string | BadSize string

definition ParseSize :: "string option \<Rightarrow> (f64 \<Rightarrow> u64) \<Rightarrow> string \<Rightarrow> size_error + u64" where
  "ParseSize proc oor s0 =
     (let s = trim_space s0 in
      case cut_suffix s ''%'' of
        Some pct \<Rightarrow>
          (case ParseFloat pct of
             None \<Rightarrow> Inl (BadPercentage s)
           | Some p \<Rightarrow>
               if f64_le p 0 \<or> f64_gt p 100 then Inl (BadPercentage s)
               else let total = meminfo proc ''MemTotal:'' in
                 if total = 0 then Inl (NoTotalMemory s)
                 else Inr (f64_to_u64 oor (f64_scale (f64_mul (f64_of_nat (unat total)) p) (1 / 100))))
      | None \<Rightarrow>
          (case split_unit s of (t, mult) \<Rightarrow>
            (case ParseFloat t of
               None \<Rightarrow> Inl (BadSize t)
             | Some v \<Rightarrow> if f64_le v 0 then Inl (BadSize t)
                 else Inr (f64_to_u64 oor (f64_scale v (of_nat mult))))))"

section \<open>Parsing a specification\<close>

datatype limit_cause = NotPositive | BadNumber | InSize size_error

datatype limit_error =
    WantKeyValue string
  | UnknownLimit string
  | BadLimit string string limit_cause

text \<open>The state of the loop: the limits so far, \<open>highSet\<close> and \<open>swapSet\<close>.\<close>

record parse_state =
  ps_limits :: limits
  highSet :: bool
  swapSet :: bool

definition parse_weight :: "string \<Rightarrow> limit_cause + u64" where
  "parse_weight value = (case parse_uint 64 value of None \<Rightarrow> Inl BadNumber | Some n \<Rightarrow> Inr (of_nat n))"

definition size_cause :: "size_error + 'a \<Rightarrow> limit_cause + 'a" where
  "size_cause r = (case r of Inl e \<Rightarrow> Inl (InSize e) | Inr v \<Rightarrow> Inr v)"

definition set_limits :: "parse_state \<Rightarrow> (limits \<Rightarrow> 'a \<Rightarrow> limits) \<Rightarrow> limit_cause + 'a \<Rightarrow> limit_cause + parse_state" where
  "set_limits st upd r = (case r of Inl e \<Rightarrow> Inl e | Inr v \<Rightarrow> Inr (st\<lparr>ps_limits := upd (ps_limits st) v\<rparr>))"

definition is_off :: "string \<Rightarrow> bool" where
  "is_off value = (value = ''off'' \<or> value = ''none'' \<or> value = ''0'')"

definition limit_cpus :: "string \<Rightarrow> parse_state \<Rightarrow> limit_cause + parse_state" where
  "limit_cpus value st =
     (if is_off value then Inr (st\<lparr>ps_limits := (ps_limits st)\<lparr>CPUs := Fin 0\<rparr>\<rparr>)
      else set_limits st (\<lambda>l v. l\<lparr>CPUs := v\<rparr>)
        (case ParseFloat value of None \<Rightarrow> Inl BadNumber
         | Some v \<Rightarrow> if f64_le v 0 then Inl NotPositive else Inr v))"

definition limit_mem :: "string option \<Rightarrow> (f64 \<Rightarrow> u64) \<Rightarrow> string \<Rightarrow> parse_state \<Rightarrow> limit_cause + parse_state" where
  "limit_mem proc oor value st =
     (if is_off value then Inr (st\<lparr>ps_limits := (ps_limits st)\<lparr>MemoryMax := 0, MemoryHigh := 0\<rparr>\<rparr>)
      else set_limits st
        (\<lambda>l v. let l = l\<lparr>MemoryMax := v\<rparr>;
                   l = (if \<not> highSet st then l\<lparr>MemoryHigh := v div 10 * 9\<rparr> else l)
               in if \<not> swapSet st then l\<lparr>SwapMax := 0, NoSwap := True\<rparr> else l)
        (size_cause (ParseSize proc oor value)))"

definition limit_swap :: "string option \<Rightarrow> (f64 \<Rightarrow> u64) \<Rightarrow> string \<Rightarrow> parse_state \<Rightarrow> limit_cause + parse_state" where
  "limit_swap proc oor value st0 =
     (let st = st0\<lparr>swapSet := True\<rparr> in
      if value = ''off'' \<or> value = ''none'' then
        Inr (st\<lparr>ps_limits := (ps_limits st)\<lparr>SwapMax := 0, NoSwap := False\<rparr>\<rparr>)
      else if value = ''0'' then Inr (st\<lparr>ps_limits := (ps_limits st)\<lparr>SwapMax := 0, NoSwap := True\<rparr>\<rparr>)
      else set_limits st (\<lambda>l v. l\<lparr>NoSwap := False, SwapMax := v\<rparr>) (size_cause (ParseSize proc oor value)))"

definition limit_high :: "string option \<Rightarrow> (f64 \<Rightarrow> u64) \<Rightarrow> string \<Rightarrow> parse_state \<Rightarrow> limit_cause + parse_state" where
  "limit_high proc oor value st0 =
     (let st = st0\<lparr>highSet := True\<rparr> in
      if is_off value then Inr (st\<lparr>ps_limits := (ps_limits st)\<lparr>MemoryHigh := 0\<rparr>\<rparr>)
      else set_limits st (\<lambda>l v. l\<lparr>MemoryHigh := v\<rparr>) (size_cause (ParseSize proc oor value)))"

definition limit_count :: "(limits \<Rightarrow> u64 \<Rightarrow> limits) \<Rightarrow> string \<Rightarrow> parse_state \<Rightarrow> limit_cause + parse_state" where
  "limit_count upd value st =
     set_limits st upd (if is_off value then Inr 0 else parse_weight value)"

definition limit_key ::
  "string option \<Rightarrow> (f64 \<Rightarrow> u64) \<Rightarrow> string \<Rightarrow> string \<Rightarrow> parse_state \<Rightarrow> (limit_cause + parse_state) option" where
  "limit_key proc oor key value st =
     (if key = ''cpus'' \<or> key = ''cpu'' then Some (limit_cpus value st)
      else if key = ''weight'' then Some (limit_count (\<lambda>l v. l\<lparr>CPUWeight := v\<rparr>) value st)
      else if key = ''io-weight'' then Some (limit_count (\<lambda>l v. l\<lparr>IOWeight := v\<rparr>) value st)
      else if key = ''mem'' \<or> key = ''memory'' then Some (limit_mem proc oor value st)
      else if key = ''swap'' then Some (limit_swap proc oor value st)
      else if key = ''high'' then Some (limit_high proc oor value st)
      else if key = ''tasks'' then Some (limit_count (\<lambda>l v. l\<lparr>TasksMax := v\<rparr>) value st)
      else None)"

fun limit_parts ::
  "string option \<Rightarrow> (f64 \<Rightarrow> u64) \<Rightarrow> string list \<Rightarrow> parse_state \<Rightarrow> limit_error + limits" where
  "limit_parts proc oor [] st = Inr (ps_limits st)"
| "limit_parts proc oor (part # parts) st =
     (case go_cut (trim_space part) ''='' of
        None \<Rightarrow> Inl (WantKeyValue part)
      | Some (key, value) \<Rightarrow>
          (case limit_key proc oor key value st of
             None \<Rightarrow> Inl (UnknownLimit key)
           | Some (Inl e) \<Rightarrow> Inl (BadLimit key value e)
           | Some (Inr st') \<Rightarrow> limit_parts proc oor parts st'))"

definition ParseLimits :: "string option \<Rightarrow> (f64 \<Rightarrow> u64) \<Rightarrow> string \<Rightarrow> limits \<Rightarrow> limit_error + limits" where
  "ParseLimits proc oor spec0 base =
     (let spec = trim_space spec0 in
      if spec = [] then Inr base
      else if spec = ''off'' \<or> spec = ''none'' \<or> spec = ''unlimited'' then Inr noLimits
      else limit_parts proc oor (go_split spec '','') \<lparr>ps_limits = base, highSet = False, swapSet = False\<rparr>)"

section \<open>Unit properties\<close>

definition limit_prop :: "string \<Rightarrow> u64 \<Rightarrow> (string \<times> u64) list" where
  "limit_prop name value = (if value > 0 then [(name, value)] else [])"

definition limitProperties :: "(f64 \<Rightarrow> u64) \<Rightarrow> limits \<Rightarrow> (string \<times> u64) list" where
  "limitProperties oor l =
     limit_prop ''CPUWeight'' (CPUWeight l) @
     limit_prop ''IOWeight'' (IOWeight l) @
     limit_prop ''CPUQuotaPerSecUSec'' (f64_to_u64 oor (f64_scale (CPUs l) 1000000)) @
     limit_prop ''MemoryHigh'' (MemoryHigh l) @
     limit_prop ''MemoryMax'' (MemoryMax l) @
     limit_prop ''TasksMax'' (TasksMax l) @
     (if NoSwap l then [(''MemorySwapMax'', 0)] else limit_prop ''MemorySwapMax'' (SwapMax l))"

section \<open>Reading decimal numbers\<close>

lemma read_mantissa_digits:
  "parse_digits m ds = Some n \<Longrightarrow>
   read_mantissa 10 False b m 0 ds = (b \<or> ds \<noteq> [], n, 0, [])"
proof (induction ds arbitrary: m b)
  case Nil
  then show ?case by simp
next
  case (Cons c cs)
  then obtain d where d: "digit_val c = Some d" "parse_digits (10 * m + d) cs = Some n"
    by (auto split: option.splits)
  moreover have "c \<noteq> CHR ''_''" "c \<noteq> CHR ''.''"
    using d(1) by (auto simp: digit_val_def split: if_splits)
  ultimately show ?case using Cons.IH[OF d(2), of True] by (simp add: base_digit_def)
qed

lemma format_uint_digit: "c \<in> set (format_uint n) \<Longrightarrow> 48 \<le> (of_char c :: nat) \<and> of_char c \<le> (57 :: nat)"
  using itoa_base_digits[of n] by (auto simp: format_uint_def of_char_digit)

lemma digit_text:
  assumes "48 \<le> (of_char c :: nat)" and "of_char c \<le> (57 :: nat)"
  shows "\<not> is_space c" "lower c = c" "c \<noteq> CHR ''_''" "c \<noteq> CHR ''-''" "c \<noteq> CHR ''+''" "c \<noteq> CHR ''i''"
    "c \<noteq> CHR ''n''" "c \<noteq> CHR ''x''"
  using assms by (auto simp: is_space_def lower_def)

lemma is_hex_digits: "is_hex (format_uint n) = False"
proof (cases "is_hex (format_uint n)")
  case True
  then obtain a b t where f: "format_uint n = a # b # t" and x: "lower b = CHR ''x''"
    by (auto simp: is_hex_def split: list.splits)
  have "48 \<le> (of_char b :: nat) \<and> of_char b \<le> (57 :: nat)"
    by (rule format_uint_digit[of b n]) (simp add: f)
  with x digit_text(2,8)[of b] show ?thesis by simp
qed simp

lemma ParseFloat_digits:
  assumes "n < 2 ^ 53"
  shows "ParseFloat (format_uint n) = Some (Fin (of_nat n))"
proof -
  obtain c cs where c: "format_uint n = c # cs" by (cases "format_uint n") (auto simp: format_uint_def)
  note d = digit_text[OF conjunct1[OF format_uint_digit] conjunct2[OF format_uint_digit]]
  have dc: "c \<in> set (format_uint n)" by (simp add: c)
  have "take_sign (format_uint n) = (False, format_uint n)"
    using d(4,5)[OF dc dc] by (simp add: take_sign_def c)
  moreover have "map lower (format_uint n) \<noteq> ''inf''" "map lower (format_uint n) \<noteq> ''infinity''"
    "map lower (format_uint n) \<noteq> ''nan''"
    using d(2,6,7)[OF dc dc] by (simp_all add: c)
  moreover have "read_number (format_uint n) = Some (of_nat n)"
  proof -
    have "CHR ''_'' \<notin> set (format_uint n)" using d(3) by blast
    moreover have "read_mantissa 10 False False 0 0 (format_uint n) = (True, n, 0, [])"
      using read_mantissa_digits[of 0 "format_uint n" n False] parse_digits_itoa[of n] c
      by (simp add: format_uint_def)
    ultimately show ?thesis
      by (simp add: read_number_def is_hex_digits read_exponent_def Let_def)
  qed
  ultimately show ?thesis by (simp add: ParseFloat_def Let_def f64_round_nat[OF assms])
qed

section \<open>Sizes with a unit\<close>

lemma unit_mult_pos: "unit_mult c = Some k \<Longrightarrow> k \<noteq> 0 \<and> \<not> is_space c \<and> c \<noteq> CHR ''%'' \<and> c \<noteq> CHR '',''"
  by (auto simp: unit_mult_def upper_def is_space_def split: if_splits)

lemma dropWhile_noop: "s \<noteq> [] \<Longrightarrow> \<not> P (hd s) \<Longrightarrow> dropWhile P s = s"
  by (cases s) simp_all

lemma trim_space_noop:
  "s \<noteq> [] \<Longrightarrow> \<not> is_space (hd s) \<Longrightarrow> \<not> is_space (last s) \<Longrightarrow> trim_space s = s"
  by (simp add: trim_space_def dropWhile_noop hd_rev)

lemma trim_space_all: "\<forall>c \<in> set s. \<not> is_space c \<Longrightarrow> trim_space s = s"
  by (cases "s = []") (simp add: trim_space_def, simp add: trim_space_noop)

lemma f64_to_u64_nat:
  assumes "m < 2 ^ 64"
  shows "f64_to_u64 oor (Fin (of_nat m)) = of_nat m"
proof -
  have "(of_nat m :: rat) < of_nat (2 ^ 64)" using assms by (simp only: of_nat_less_iff)
  then show ?thesis by (simp add: f64_to_u64_def less_le_trans[of "-1" "0 :: rat"])
qed

lemma ParseSize_unit_exact:
  assumes "0 < n" and "n * k < 2 ^ 53" and "unit_mult c = Some k"
  shows "ParseSize proc oor (format_uint n @ [c]) = Inr (of_nat (n * k))"
proof -
  from unit_mult_pos[OF assms(3)] have k: "k \<noteq> 0" "\<not> is_space c" "c \<noteq> CHR ''%''" by auto
  have "n \<le> n * k" using k by simp
  then have n: "n < 2 ^ 53" using assms(2) by (rule le_less_trans)
  have t: "trim_space (format_uint n @ [c]) = format_uint n @ [c]"
    using k(2) digit_text(1)[OF conjunct1[OF format_uint_digit] conjunct2[OF format_uint_digit]]
    by (intro trim_space_all) auto
  have p: "cut_suffix (format_uint n @ [c]) ''%'' = None"
    using k(3) by (simp add: cut_suffix_def has_suffix_def)
  have "f64_scale (Fin (of_nat n)) (of_nat k) = Fin (of_nat (n * k))"
    using f64_round_nat[OF assms(2)] by simp
  moreover have "f64_to_u64 oor (Fin (of_nat (n * k))) = of_nat (n * k)"
    by (rule f64_to_u64_nat) (rule less_trans[OF assms(2)], simp)
  moreover have "split_unit (format_uint n @ [c]) = (format_uint n, k)"
    by (simp add: split_unit_def assms(3))
  ultimately show ?thesis using assms(1)
    by (simp add: ParseSize_def t p Let_def ParseFloat_digits[OF n])
qed

section \<open>Specifications\<close>

text \<open>A value as users write it: no comma, and no white space around it.\<close>

definition plain :: "string \<Rightarrow> bool" where
  "plain s = list_all (\<lambda>c. \<not> is_space c \<and> c \<noteq> CHR '','') s"

lemma plain_append [simp]: "plain (s @ t) \<longleftrightarrow> plain s \<and> plain t"
  by (simp add: plain_def)

lemma plain_Nil [simp]: "plain []"
  by (simp add: plain_def)

lemma plain_Cons [simp]: "plain (c # s) \<longleftrightarrow> \<not> is_space c \<and> c \<noteq> CHR '','' \<and> plain s"
  by (simp add: plain_def)

lemma plainD: "plain s \<Longrightarrow> \<forall>c \<in> set s. \<not> is_space c" "plain s \<Longrightarrow> CHR '','' \<notin> set s"
  by (auto simp: plain_def list_all_iff)

lemma plain_keys:
  "plain ''mem''" "plain ''swap''" "plain ''high''" "plain ''=''"
  by (simp_all add: plain_def is_space_def)

lemma limit_parts_key:
  assumes "plain key" and "plain v" and "CHR ''='' \<notin> set key"
  shows "limit_parts proc oor ((key @ ''='' @ v) # parts) st =
     (case limit_key proc oor key v st of
        None \<Rightarrow> Inl (UnknownLimit key)
      | Some (Inl e) \<Rightarrow> Inl (BadLimit key v e)
      | Some (Inr st') \<Rightarrow> limit_parts proc oor parts st')"
proof -
  have "trim_space (key @ ''='' @ v) = key @ ''='' @ v"
    by (rule trim_space_all[OF plainD(1)]) (simp add: assms is_space_def)
  then show ?thesis using go_cut_single[OF assms(3), of v] by simp
qed

lemma ParseLimits_two:
  assumes "plain a" and "plain b" and "CHR ''='' \<in> set a"
  shows "ParseLimits proc oor (a @ '','' @ b) base =
    limit_parts proc oor [a, b] \<lparr>ps_limits = base, highSet = False, swapSet = False\<rparr>"
proof -
  let ?s = "a @ '','' @ b"
  have "a \<noteq> []" using assms(3) by auto
  have sp: "\<not> is_space c" if "c \<in> set ?s" for c
    using that plainD(1)[OF assms(1)] plainD(1)[OF assms(2)] by (auto simp: is_space_def)
  then have t: "trim_space ?s = ?s" by (intro trim_space_all) blast
  have "?s \<noteq> t" if "CHR ''='' \<notin> set t" for t using assms(3) that by auto
  then have n: "?s \<noteq> ''off''" "?s \<noteq> ''none''" "?s \<noteq> ''unlimited''" by simp_all
  have "go_split ?s '','' = [a, b]"
    using go_split_single_Cons[OF plainD(2)[OF assms(1)], of b]
      go_split_single_noop[OF plainD(2)[OF assms(2)]] by simp
  with t n \<open>a \<noteq> []\<close> show ?thesis by (simp add: ParseLimits_def Let_def)
qed

lemmas limit_steps = limit_key_def limit_mem_def limit_swap_def limit_high_def set_limits_def
  size_cause_def Let_def

lemma limit_parts_two:
  assumes "plain a" and "plain b" and "plain k1" and "plain k2"
    and "CHR ''='' \<notin> set k1" and "CHR ''='' \<notin> set k2"
  shows "limit_parts proc oor [k1 @ ''='' @ a, k2 @ ''='' @ b] st = Inr l \<longleftrightarrow>
    (\<exists>st1 st2. limit_key proc oor k1 a st = Some (Inr st1) \<and>
      limit_key proc oor k2 b st1 = Some (Inr st2) \<and> l = ps_limits st2)"
  unfolding limit_parts_key[OF assms(3) assms(1) assms(5)] limit_parts_key[OF assms(4) assms(2) assms(6)]
  by (auto split: option.splits sum.splits)

lemma mem_swap_keys:
  "(\<exists>st1 st2. limit_mem proc oor a st = Inr st1 \<and> limit_swap proc oor b st1 = Inr st2 \<and> l = ps_limits st2) \<longleftrightarrow>
   (\<exists>st1 st2. limit_swap proc oor b st = Inr st1 \<and> limit_mem proc oor a st1 = Inr st2 \<and> l = ps_limits st2)"
  by (cases "is_off a"; cases "b = ''off'' \<or> b = ''none''"; cases "b = ''0''";
      cases "ParseSize proc oor a"; cases "ParseSize proc oor b";
      cases "ps_limits st") (simp_all add: limit_steps)

lemma mem_high_keys:
  assumes "\<not> is_off a"
  shows "(\<exists>st1 st2. limit_mem proc oor a st = Inr st1 \<and> limit_high proc oor b st1 = Inr st2 \<and> l = ps_limits st2) \<longleftrightarrow>
   (\<exists>st1 st2. limit_high proc oor b st = Inr st1 \<and> limit_mem proc oor a st1 = Inr st2 \<and> l = ps_limits st2)"
  using assms
  by (cases "is_off b"; cases "ParseSize proc oor a"; cases "ParseSize proc oor b";
      cases "ps_limits st") (simp_all add: limit_steps)

lemma limit_specs:
  assumes "plain a" and "plain b" and "plain k1" and "plain k2"
    and "CHR ''='' \<notin> set k1" and "CHR ''='' \<notin> set k2"
  shows "ParseLimits proc oor (k1 @ ''='' @ a @ '','' @ k2 @ ''='' @ b) base = Inr l \<longleftrightarrow>
    (\<exists>st1 st2. limit_key proc oor k1 a \<lparr>ps_limits = base, highSet = False, swapSet = False\<rparr> = Some (Inr st1) \<and>
      limit_key proc oor k2 b st1 = Some (Inr st2) \<and> l = ps_limits st2)"
  using ParseLimits_two[of "k1 @ ''='' @ a" "k2 @ ''='' @ b" proc oor base]
    limit_parts_two[OF assms, of proc oor "\<lparr>ps_limits = base, highSet = False, swapSet = False\<rparr>" l] assms
  by (simp add: is_space_def del: limit_parts.simps)

lemma limit_keys:
  "limit_key proc oor ''mem'' = (\<lambda>v st. Some (limit_mem proc oor v st))"
  "limit_key proc oor ''swap'' = (\<lambda>v st. Some (limit_swap proc oor v st))"
  "limit_key proc oor ''high'' = (\<lambda>v st. Some (limit_high proc oor v st))"
  by (simp_all add: limit_key_def fun_eq_iff)

lemma plain_size: "unit_mult c = Some k \<Longrightarrow> plain (format_uint n @ [c]) \<and> \<not> is_off (format_uint n @ [c])"
proof -
  assume c: "unit_mult c = Some k"
  have "plain (format_uint n)"
    using format_uint_digit[of _ n] by (force simp: plain_def list_all_iff is_space_def)
  moreover have "c \<noteq> CHR ''f''" "c \<noteq> CHR ''e''" "c \<noteq> CHR ''0''"
    using c by (auto simp: unit_mult_def upper_def char_of_def split: if_splits)
  then have "\<not> is_off (format_uint n @ [c])" by (auto simp: is_off_def snoc_eq_iff_butlast)
  ultimately show ?thesis using unit_mult_pos[OF c] by simp
qed

lemma ParseLimits_mem:
  assumes "plain v" and "\<not> is_off v" and "ParseSize proc oor v = Inr x"
  shows "ParseLimits proc oor (''mem='' @ v) base =
    Inr (base\<lparr>MemoryMax := x, MemoryHigh := x div 10 * 9, SwapMax := 0, NoSwap := True\<rparr>)"
proof -
  let ?s = "''mem='' @ v"
  have t: "trim_space ?s = ?s"
    using plainD(1)[OF assms(1)] by (intro trim_space_all) (auto simp: is_space_def)
  have "go_split ?s '','' = [?s]"
    using plainD(2)[OF assms(1)] by (intro go_split_single_noop) simp
  with t show ?thesis
    using limit_parts_key[of "''mem''" v proc oor "[]"] assms plain_keys
    by (simp add: ParseLimits_def limit_keys limit_steps del: limit_parts.simps(2))
qed

lemma half_byte: "ParseSize proc oor ''0.5'' = Inr 0"
proof -
  have "top_bit (1 / 2) = - 1" by code_simp
  then have "f64_round (1 / 2) = Fin (1 / 2)"
    by (simp add: f64_round_def round_pos_def Let_def power_int_minus round_half_even_def)
  moreover have "read_number ''0.5'' = Some (1 / 2)"
    by (simp add: read_number_def is_hex_def base_digit_def digit_val_def read_exponent_def
        lower_def power_int_minus Let_def)
  ultimately have "ParseFloat ''0.5'' = Some (Fin (1 / 2))"
    by (simp add: ParseFloat_def take_sign_def lower_def)
  moreover have "trim_space ''0.5'' = ''0.5''" by (intro trim_space_all) (simp add: is_space_def)
  moreover have "split_unit ''0.5'' = (''0.5'', 1)"
    by (simp add: split_unit_def unit_mult_def upper_def)
  ultimately show ?thesis using \<open>f64_round (1 / 2) = Fin (1 / 2)\<close>
    by (simp add: ParseSize_def cut_suffix_def has_suffix_def f64_to_u64_def)
qed

section \<open>Properties\<close>

text \<open>
  C10. The order in which a specification gives \<open>mem\<close> and \<open>swap\<close> does not matter, and neither does
  the order of \<open>mem\<close> and \<open>high\<close> where \<open>mem\<close> is a size: whichever comes first, an explicit swap or
  high limit is kept beside the memory cap.
\<close>

theorem limit_order_irrelevant:
  assumes "plain a" and "plain b"
  shows "(ParseLimits proc oor (''mem='' @ a @ '',swap='' @ b) base = Inr l \<longleftrightarrow>
      ParseLimits proc oor (''swap='' @ b @ '',mem='' @ a) base = Inr l) \<and>
    (\<not> is_off a \<longrightarrow>
      (ParseLimits proc oor (''mem='' @ a @ '',high='' @ b) base = Inr l \<longleftrightarrow>
       ParseLimits proc oor (''high='' @ b @ '',mem='' @ a) base = Inr l))"
proof (intro conjI impI)
  let ?st = "\<lparr>ps_limits = base, highSet = False, swapSet = False\<rparr>"
  note k = limit_specs[where proc = proc and oor = oor and base = base and l = l]
  note key = limit_keys
  show "ParseLimits proc oor (''mem='' @ a @ '',swap='' @ b) base = Inr l \<longleftrightarrow>
      ParseLimits proc oor (''swap='' @ b @ '',mem='' @ a) base = Inr l"
    using k[of a b "''mem''" "''swap''"] k[of b a "''swap''" "''mem''"] assms plain_keys
      mem_swap_keys[of proc oor a ?st b l] by (simp add: key)
  assume "\<not> is_off a"
  then show "ParseLimits proc oor (''mem='' @ a @ '',high='' @ b) base = Inr l \<longleftrightarrow>
      ParseLimits proc oor (''high='' @ b @ '',mem='' @ a) base = Inr l"
    using k[of a b "''mem''" "''high''"] k[of b a "''high''" "''mem''"] assms plain_keys
      mem_high_keys[of a proc oor ?st b l] by (simp add: key)
qed

lemma format_uint_small: "format_uint 8 = ''8''" "format_uint (Suc 0) = ''1''"
  by (simp_all add: format_uint_def itoa_base.simps digit_char_def) code_simp+

lemma units: "unit_mult (CHR ''G'') = Some (2 ^ 30)" "unit_mult (CHR ''M'') = Some (2 ^ 20)"
  by (simp_all add: unit_mult_def upper_def)

lemma ParseSize_samples:
  "ParseSize proc oor ''8G'' = Inr (2 ^ 33)" "ParseSize proc oor ''1G'' = Inr (2 ^ 30)"
  using ParseSize_unit_exact[OF _ _ units(1), of 8 proc oor]
    ParseSize_unit_exact[OF _ _ units(1), of 1 proc oor] by (simp_all add: format_uint_small)

theorem limit_order_irrelevant_witness:
  "ParseLimits None (\<lambda>_. 0) ''swap=1G,mem=8G'' noLimits =
   Inr (noLimits\<lparr>MemoryMax := 2 ^ 33, MemoryHigh := 7730941131, SwapMax := 2 ^ 30\<rparr>)"
proof -
  let ?l = "noLimits\<lparr>MemoryMax := 2 ^ 33, MemoryHigh := 7730941131, SwapMax := 2 ^ 30\<rparr>"
  have "ParseLimits None (\<lambda>_. 0) ''mem=8G,swap=1G'' noLimits = Inr ?l"
    using limit_specs[of "''8G''" "''1G''" "''mem''" "''swap''" None "\<lambda>_. 0" noLimits ?l]
    by (simp add: plain_keys is_space_def limit_keys limit_steps is_off_def ParseSize_samples noLimits_def)
  then show ?thesis
    using limit_order_irrelevant[of "''8G''" "''1G''" None "\<lambda>_. 0" noLimits ?l]
    by (simp add: is_space_def)
qed



text \<open>
  The checks that a value is positive let NaN pass, and a size below one byte becomes no
  limit: \<open>cpus=nan\<close> and \<open>mem=0.5\<close> are accepted, the second as no memory limit with swap forbidden.
\<close>

theorem odd_values_accepted:
  "ParseLimits proc oor ''cpus=nan'' base = Inr (base\<lparr>CPUs := NaN\<rparr>) \<and>
   ParseLimits proc oor ''mem=0.5'' base =
     Inr (base\<lparr>MemoryMax := 0, MemoryHigh := 0, SwapMax := 0, NoSwap := True\<rparr>)"
proof
  have t: "trim_space ''cpus=nan'' = ''cpus=nan''"
    by (intro trim_space_all) (simp add: is_space_def)
  have "go_split ''cpus=nan'' '','' = [''cpus=nan'']" by (rule go_split_single_noop) simp
  then show "ParseLimits proc oor ''cpus=nan'' base = Inr (base\<lparr>CPUs := NaN\<rparr>)"
    using t limit_parts_key[of "''cpus''" "''nan''" proc oor "[]"]
    by (simp add: ParseLimits_def limit_key_def limit_cpus_def is_off_def set_limits_def Let_def
        ParseFloat_def take_sign_def lower_def is_space_def del: limit_parts.simps(2))
  have "ParseSize proc oor ''0.5'' = Inr 0" by (rule half_byte)
  then show "ParseLimits proc oor ''mem=0.5'' base =
      Inr (base\<lparr>MemoryMax := 0, MemoryHigh := 0, SwapMax := 0, NoSwap := True\<rparr>)"
    using ParseLimits_mem[of "''0.5''" proc oor 0 base] by (simp add: is_off_def is_space_def)
qed

text \<open>
  Turning the memory limit off forgets an explicit \<open>high\<close> limit that stands before it, though
  not one that stands after it.
\<close>

theorem mem_off_forgets_high:
  "ParseLimits proc oor ''high=8G,mem=off'' base = Inr (base\<lparr>MemoryMax := 0, MemoryHigh := 0\<rparr>) \<and>
   ParseLimits proc oor ''mem=off,high=8G'' base = Inr (base\<lparr>MemoryMax := 0, MemoryHigh := 2 ^ 33\<rparr>)"
  using limit_specs[of "''8G''" "''off''" "''high''" "''mem''" proc oor base]
    limit_specs[of "''off''" "''8G''" "''mem''" "''high''" proc oor base]
  by (cases base) (simp add: plain_keys is_space_def limit_keys limit_steps is_off_def ParseSize_samples)

end
