(* ===== verification/EventLog.thy ===== *)
theory EventLog
  imports GoStrings
begin

text \<open>
  \<open>internal/journal/types.go\<close>, \<open>fake.go\<close> and \<open>combined.go\<close>: events, the helpers that emit them,
  the in-memory event log, and the log combined of a sink and a source. The interface
  \<open>EventLog\<close> is the locale \<open>event_log\<close>; the in-memory log provides it.
\<close>

section \<open>Events and filters\<close>

type_synonym fieldmap = "string \<Rightarrow> string option"

record event_record =
  ev_Cursor :: string
  ev_Timestamp :: int
  ev_Message :: string
  ev_Fields :: fieldmap

type_synonym event_filter = "string \<times> string"

definition EventStarted :: string where "EventStarted = ''started''"
definition EventExited :: string where "EventExited = ''exited''"
definition EventScreen :: string where "EventScreen = ''screen''"
definition EventStats :: string where "EventStats = ''stats''"

definition FieldEvent :: string where "FieldEvent = ''SWASH_EVENT''"
definition FieldSession :: string where "FieldSession = ''SWASH_SESSION''"
definition FieldCommand :: string where "FieldCommand = ''SWASH_COMMAND''"
definition FieldExitCode :: string where "FieldExitCode = ''SWASH_EXIT_CODE''"

lemmas field_names = EventStarted_def EventExited_def EventScreen_def EventStats_def
  FieldEvent_def FieldSession_def FieldCommand_def FieldExitCode_def

definition FilterBySession :: "string \<Rightarrow> event_filter" where
  "FilterBySession sessionID = (FieldSession, sessionID)"

definition FilterByEvent :: "string \<Rightarrow> event_filter" where
  "FilterByEvent kind = (FieldEvent, kind)"

section \<open>Emitting\<close>

text \<open>The helpers call one method of the log; it is their first argument.\<close>

definition started_fields :: "string \<Rightarrow> string list \<Rightarrow> fieldmap \<Rightarrow> fieldmap" where
  "started_fields sessionID command tags =
     tags(FieldEvent \<mapsto> EventStarted, FieldSession \<mapsto> sessionID, FieldCommand \<mapsto> go_join command '' '')"

definition EmitStarted ::
  "(string \<Rightarrow> fieldmap \<Rightarrow> 'r) \<Rightarrow> string \<Rightarrow> string list \<Rightarrow> fieldmap \<Rightarrow> 'r" where
  "EmitStarted write sessionID command tags =
     write ''Session started'' (started_fields sessionID command tags)"

definition exited_fields :: "string \<Rightarrow> int \<Rightarrow> string list \<Rightarrow> fieldmap \<Rightarrow> fieldmap" where
  "exited_fields sessionID exitCode command tags =
     tags(FieldEvent \<mapsto> EventExited, FieldSession \<mapsto> sessionID, FieldExitCode \<mapsto> itoa exitCode,
       FieldCommand \<mapsto> go_join command '' '')"

definition EmitExited ::
  "(string \<Rightarrow> fieldmap \<Rightarrow> 'r) \<Rightarrow> string \<Rightarrow> int \<Rightarrow> string list \<Rightarrow> fieldmap \<Rightarrow> 'r" where
  "EmitExited write sessionID exitCode command tags =
     write ''Session exited'' (exited_fields sessionID exitCode command tags)"

definition output_fields :: "int \<Rightarrow> fieldmap \<Rightarrow> fieldmap" where
  "output_fields fd extraFields = [''FD'' \<mapsto> itoa fd] ++ extraFields"

definition WriteOutput :: "(string \<Rightarrow> fieldmap \<Rightarrow> 'r) \<Rightarrow> int \<Rightarrow> string \<Rightarrow> fieldmap \<Rightarrow> 'r" where
  "WriteOutput write fd text extraFields = write text (output_fields fd extraFields)"

definition EmitScreen :: "(string \<Rightarrow> fieldmap \<Rightarrow> 'r) \<Rightarrow> string \<Rightarrow> string \<Rightarrow> int \<Rightarrow> int \<Rightarrow> 'r" where
  "EmitScreen write sessionID screenText rows cols = write screenText
     [FieldEvent \<mapsto> EventScreen, FieldSession \<mapsto> sessionID, ''ROWS'' \<mapsto> itoa rows, ''COLS'' \<mapsto> itoa cols]"

definition EmitSessionEvent ::
  "(string \<Rightarrow> fieldmap \<Rightarrow> 'r) \<Rightarrow> string \<Rightarrow> string \<Rightarrow> string \<Rightarrow> fieldmap \<Rightarrow> 'r" where
  "EmitSessionEvent writeSync sessionID event message extraFields =
     writeSync message (extraFields(FieldEvent \<mapsto> event, FieldSession \<mapsto> sessionID))"

section \<open>The in-memory log\<close>

datatype log_error = JournalClosed | Timeout | SinkError | SourceError

record fake_journal =
  fj_entries :: "event_record list"
  fj_cursor :: int
  fj_closed :: bool

definition NewFakeJournal :: fake_journal where
  "NewFakeJournal = \<lparr>fj_entries = [], fj_cursor = 0, fj_closed = False\<rparr>"

definition writeEntry :: "int \<Rightarrow> string \<Rightarrow> fieldmap \<Rightarrow> (log_error, fake_journal, unit) eff" where
  "writeEntry now message fs f =
     (if fj_closed f then (Inl JournalClosed, f)
      else let cursor = fj_cursor f + 1 in
        (Inr (), f\<lparr>fj_cursor := cursor, fj_entries := fj_entries f @
          [\<lparr>ev_Cursor = itoa cursor, ev_Timestamp = now, ev_Message = message, ev_Fields = fs\<rparr>]\<rparr>))"

definition FakeWrite :: "int \<Rightarrow> string \<Rightarrow> fieldmap \<Rightarrow> (log_error, fake_journal, unit) eff" where
  "FakeWrite now message fs = writeEntry now message fs"

definition FakeWriteSync :: "int \<Rightarrow> string \<Rightarrow> fieldmap \<Rightarrow> (log_error, fake_journal, unit) eff" where
  "FakeWriteSync now message fs = writeEntry now message fs"

text \<open>The zero time is \<open>None\<close>.\<close>

definition AddEntry :: "int \<Rightarrow> event_record \<Rightarrow> bool \<Rightarrow> fake_journal \<Rightarrow> fake_journal" where
  "AddEntry now entry zeroTime f =
     (let cursor = fj_cursor f + 1;
          entry = (if ev_Cursor entry = [] then entry\<lparr>ev_Cursor := itoa cursor\<rparr> else entry);
          entry = (if zeroTime then entry\<lparr>ev_Timestamp := now\<rparr> else entry)
      in f\<lparr>fj_cursor := cursor, fj_entries := fj_entries f @ [entry]\<rparr>)"

definition matchesFilters :: "event_record \<Rightarrow> event_filter list \<Rightarrow> bool" where
  "matchesFilters entry ms = list_all (\<lambda>(f, v). ev_Fields entry f = Some v) ms"

text \<open>The index after the first entry with the cursor; the start if there is none.\<close>

fun after_cursor :: "event_record list \<Rightarrow> string \<Rightarrow> nat \<Rightarrow> nat" where
  "after_cursor [] cursor i = 0"
| "after_cursor (e # es) cursor i =
     (if ev_Cursor e = cursor then i + 1 else after_cursor es cursor (i + 1))"

definition startIdx :: "fake_journal \<Rightarrow> string \<Rightarrow> nat" where
  "startIdx f cursor = (if cursor \<noteq> [] then after_cursor (fj_entries f) cursor 0 else 0)"

definition FakePoll ::
  "event_filter list \<Rightarrow> string \<Rightarrow> fake_journal \<Rightarrow> log_error + (event_record list \<times> string)" where
  "FakePoll ms cursor f =
     (if fj_closed f then Inl JournalClosed
      else let found = filter (\<lambda>e. matchesFilters e ms) (drop (startIdx f cursor) (fj_entries f)) in
        Inr (found, if found = [] then [] else ev_Cursor (last found)))"

text \<open>
  \<open>Follow\<close>: what it yields in one pass over the entries, and over the states in which its
  successive passes find the log; it ends when the log is closed.
\<close>

definition follow_pass ::
  "event_filter list \<Rightarrow> nat \<Rightarrow> fake_journal \<Rightarrow> event_record list \<times> nat" where
  "follow_pass ms idx f =
     (filter (\<lambda>e. matchesFilters e ms) (drop idx (fj_entries f)), max idx (length (fj_entries f)))"

fun follow_passes :: "event_filter list \<Rightarrow> nat \<Rightarrow> fake_journal list \<Rightarrow> event_record list" where
  "follow_passes ms idx [] = []"
| "follow_passes ms idx (f # fs) =
     (if fj_closed f then []
      else case follow_pass ms idx f of (out, idx') \<Rightarrow> out @ follow_passes ms idx' fs)"

definition FakeFollow :: "event_filter list \<Rightarrow> string \<Rightarrow> fake_journal \<Rightarrow> fake_journal list \<Rightarrow> event_record list" where
  "FakeFollow ms cursor f0 states = follow_passes ms (startIdx f0 cursor) states"

definition FakeClose :: "fake_journal \<Rightarrow> fake_journal" where
  "FakeClose f = f\<lparr>fj_closed := True\<rparr>"

definition Entries :: "fake_journal \<Rightarrow> event_record list" where
  "Entries f = fj_entries f"

definition IsClosed :: "fake_journal \<Rightarrow> bool" where
  "IsClosed f = fj_closed f"

definition Clear :: "fake_journal \<Rightarrow> fake_journal" where
  "Clear f = f\<lparr>fj_entries := [], fj_cursor := 0\<rparr>"

section \<open>The combined log\<close>

text \<open>
  The sink is a method on the state of the world, the source a query of it. \<open>waitForNonce\<close> polls
  the states in which the world is when its attempts before the deadline run.
\<close>

definition nonce_filter :: "string \<Rightarrow> event_filter list" where
  "nonce_filter nonce = [(''SWASH_WRITE_NONCE'', nonce)]"

fun waitForNonce ::
  "(event_filter list \<Rightarrow> string \<Rightarrow> 's \<Rightarrow> log_error + (event_record list \<times> string)) \<Rightarrow>
   string \<Rightarrow> 's list \<Rightarrow> log_error + unit" where
  "waitForNonce poll nonce [] = Inl Timeout"
| "waitForNonce poll nonce (w # ws) =
     (case poll (nonce_filter nonce) [] w of
        Inr (entries, _) \<Rightarrow> if entries \<noteq> [] then Inr () else waitForNonce poll nonce ws
      | Inl _ \<Rightarrow> waitForNonce poll nonce ws)"

text \<open>
  \<open>later\<close> gives the states of the attempts from the state the write left.
\<close>

definition CombinedWriteSync ::
  "(string \<Rightarrow> fieldmap \<Rightarrow> (log_error, 's, unit) eff) \<Rightarrow>
   (event_filter list \<Rightarrow> string \<Rightarrow> 's \<Rightarrow> log_error + (event_record list \<times> string)) \<Rightarrow>
   string \<Rightarrow> ('s \<Rightarrow> 's list) \<Rightarrow> string \<Rightarrow> fieldmap \<Rightarrow> 's \<Rightarrow> (log_error + unit) \<times> 's" where
  "CombinedWriteSync sink poll nonce later message fs w =
     (case sink message (fs(''SWASH_WRITE_NONCE'' \<mapsto> nonce)) w of
        (Inl e, w') \<Rightarrow> (Inl e, w')
      | (Inr _, w') \<Rightarrow> (waitForNonce poll nonce (later w'), last (w' # later w')))"

text \<open>Both parts are closed; the first error is returned.\<close>

definition CombinedClose :: "log_error option \<Rightarrow> log_error option \<Rightarrow> log_error option" where
  "CombinedClose sinkErr sourceErr = (case sinkErr of Some e \<Rightarrow> Some e | None \<Rightarrow> sourceErr)"

section \<open>The interface\<close>

text \<open>
  What the clients of an event log rely on: the log is a sequence of records, a write that
  succeeds appends one, and polling from the cursor of a record returns the matching records
  after it.
\<close>

text \<open>The cursor a poll returns: of its last record; if there is none, the one it had or none.\<close>

definition next_cursor :: "string \<Rightarrow> event_record list \<Rightarrow> string \<Rightarrow> bool" where
  "next_cursor c0 found c \<longleftrightarrow> (if found = [] then c = [] \<or> c = c0 else c = ev_Cursor (last found))"

text \<open>
  Reading: every record has a cursor, and polling for filters on different fields returns the
  matching records, from the start or after the record of a cursor.
\<close>

locale event_source =
  fixes good :: "'s \<Rightarrow> bool" and recs :: "'s \<Rightarrow> event_record list"
    and poll :: "event_filter list \<Rightarrow> string \<Rightarrow> 's \<Rightarrow> log_error + (event_record list \<times> string)"
  assumes cursor_some: "good s \<Longrightarrow> r \<in> set (recs s) \<Longrightarrow> ev_Cursor r \<noteq> []"
    and poll_start: "good s \<Longrightarrow> distinct (map fst ms) \<Longrightarrow>
      \<exists>c. poll ms [] s = Inr (filter (\<lambda>e. matchesFilters e ms) (recs s), c) \<and>
      next_cursor [] (filter (\<lambda>e. matchesFilters e ms) (recs s)) c"
    and poll_resume: "good s \<Longrightarrow> distinct (map fst ms) \<Longrightarrow> k < length (recs s) \<Longrightarrow>
      \<exists>c. poll ms (ev_Cursor (recs s ! k)) s =
      Inr (filter (\<lambda>e. matchesFilters e ms) (drop (Suc k) (recs s)), c) \<and>
      next_cursor (ev_Cursor (recs s ! k)) (filter (\<lambda>e. matchesFilters e ms) (drop (Suc k) (recs s))) c"

text \<open>
  Writing: what can be stored is appended, with the fields the log makes of those it is given.
\<close>

locale event_log = event_source good recs poll
  for good :: "'s \<Rightarrow> bool" and recs :: "'s \<Rightarrow> event_record list"
    and poll :: "event_filter list \<Rightarrow> string \<Rightarrow> 's \<Rightarrow> log_error + (event_record list \<times> string)" +
  fixes emit :: "string \<Rightarrow> fieldmap \<Rightarrow> (log_error, 's, unit) eff"
    and storable :: "'s \<Rightarrow> string \<Rightarrow> fieldmap \<Rightarrow> bool" and stored :: "string \<Rightarrow> fieldmap \<Rightarrow> fieldmap"
  assumes write_ok: "good s \<Longrightarrow> storable s m fs \<Longrightarrow> \<exists>s' r. emit m fs s = (Inr (), s') \<and> good s' \<and>
      recs s' = recs s @ [r] \<and> ev_Message r = m \<and> ev_Fields r = stored m fs"
begin

lemma write_poll:
  assumes "good s" and "storable s m fs" and "distinct (map fst ms)"
    and "\<And>r. ev_Fields r = stored m fs \<Longrightarrow> matchesFilters r ms"
  shows "\<exists>s' r c. emit m fs s = (Inr (), s') \<and> good s' \<and> ev_Message r = m \<and> ev_Fields r = stored m fs \<and>
    poll ms [] s' = Inr (filter (\<lambda>e. matchesFilters e ms) (recs s) @ [r], c)"
proof -
  obtain s' r where w: "emit m fs s = (Inr (), s')" "good s'" "recs s' = recs s @ [r]"
    "ev_Message r = m" "ev_Fields r = stored m fs" using write_ok[OF assms(1,2)] by blast
  moreover obtain c where "poll ms [] s' = Inr (filter (\<lambda>e. matchesFilters e ms) (recs s'), c)"
    using poll_start[OF w(2) assms(3)] by blast
  ultimately show ?thesis using assms(4)[OF w(5)] by auto
qed

lemma write_resume:
  assumes "good s" and "storable s m fs" and "distinct (map fst ms)" and "recs s \<noteq> []"
  shows "\<exists>s' r c. emit m fs s = (Inr (), s') \<and> ev_Message r = m \<and> ev_Fields r = stored m fs \<and>
    poll ms (ev_Cursor (last (recs s))) s' = Inr (if matchesFilters r ms then [r] else [], c)"
proof -
  obtain s' r where w: "emit m fs s = (Inr (), s')" "good s'" "recs s' = recs s @ [r]"
    "ev_Message r = m" "ev_Fields r = stored m fs" using write_ok[OF assms(1,2)] by blast
  let ?k = "length (recs s) - 1"
  have k: "?k < length (recs s')" "recs s' ! ?k = last (recs s)" "drop (Suc ?k) (recs s') = [r]"
    using w(3) assms(4) by (auto simp: last_conv_nth nth_append)
  from poll_resume[OF w(2) assms(3) k(1)] w k show ?thesis by auto
qed

lemma write_sync:
  assumes "good s" and "storable s m (fs(''SWASH_WRITE_NONCE'' \<mapsto> nonce))"
    and "stored m (fs(''SWASH_WRITE_NONCE'' \<mapsto> nonce)) ''SWASH_WRITE_NONCE'' = Some nonce"
    and "\<And>w. later w = w # rest w"
  shows "\<exists>s'. CombinedWriteSync emit poll nonce later m fs s = (Inr (), s')"
proof -
  let ?fs = "fs(''SWASH_WRITE_NONCE'' \<mapsto> nonce)"
  have "distinct (map fst (nonce_filter nonce))" by (simp add: nonce_filter_def)
  moreover have "matchesFilters r (nonce_filter nonce)" if "ev_Fields r = stored m ?fs" for r
    using that assms(3) by (simp add: matchesFilters_def nonce_filter_def)
  ultimately obtain s' r c where
    "emit m ?fs s = (Inr (), s')"
    "poll (nonce_filter nonce) [] s' =
       Inr (filter (\<lambda>e. matchesFilters e (nonce_filter nonce)) (recs s) @ [r], c)"
    using write_poll[OF assms(1,2)] by blast
  then show ?thesis by (simp add: CombinedWriteSync_def assms(4))
qed

end

section \<open>The in-memory log provides it\<close>

text \<open>The cursors of a log that was only written to are the numbers of its entries.\<close>

definition numbered :: "fake_journal \<Rightarrow> bool" where
  "numbered f \<longleftrightarrow> \<not> fj_closed f \<and> fj_cursor f = int (length (fj_entries f)) \<and>
     (\<forall>i < length (fj_entries f). ev_Cursor (fj_entries f ! i) = format_uint (Suc i))"

lemma format_uint_inj: "format_uint a = format_uint b \<Longrightarrow> a = b"
  by (metis format_uint_def option.inject parse_digits_itoa)

lemma after_cursor_at:
  "k < length es \<Longrightarrow> (\<forall>i < k. ev_Cursor (es ! i) \<noteq> c) \<Longrightarrow> ev_Cursor (es ! k) = c \<Longrightarrow>
   after_cursor es c j = j + Suc k"
proof (induction es arbitrary: k j)
  case Nil
  then show ?case by simp
next
  case (Cons e es)
  show ?case
  proof (cases k)
    case 0
    with Cons.prems show ?thesis by simp
  next
    case (Suc k')
    have "\<forall>i < k'. ev_Cursor (es ! i) \<noteq> c" using Cons.prems(2) Suc by fastforce
    with Cons Suc show ?thesis by (auto dest: spec[of _ 0])
  qed
qed

lemma itoa_nat: "itoa (int n) = format_uint n"
  by (simp add: itoa_def)

lemma startIdx_numbered:
  assumes "numbered f" and "k < length (fj_entries f)"
  shows "startIdx f (ev_Cursor (fj_entries f ! k)) = Suc k"
proof -
  have c: "ev_Cursor (fj_entries f ! i) = format_uint (Suc i)" if "i < length (fj_entries f)" for i
    using assms(1) that by (simp add: numbered_def)
  have "format_uint (Suc k) \<noteq> []" by (simp add: format_uint_def)
  moreover have "after_cursor (fj_entries f) (format_uint (Suc k)) 0 = 0 + Suc k"
    using assms(2) c format_uint_inj by (intro after_cursor_at) auto
  ultimately show ?thesis using c[OF assms(2)] by (simp add: startIdx_def)
qed

lemma fake_write:
  assumes "numbered f"
  shows "\<exists>f' r. FakeWrite now m fs f = (Inr (), f') \<and> numbered f' \<and>
      fj_entries f' = fj_entries f @ [r] \<and> ev_Message r = m \<and> ev_Fields r = fs"
proof -
  have "itoa (fj_cursor f + 1) = format_uint (Suc (length (fj_entries f)))"
    using assms itoa_nat[of "Suc (length (fj_entries f))"] by (simp add: numbered_def algebra_simps)
  then show ?thesis
    using assms by (auto simp: FakeWrite_def writeEntry_def Let_def numbered_def nth_append less_Suc_eq)
qed

interpretation fake: event_log numbered fj_entries FakePoll "FakeWrite now" "\<lambda>s m fs. True" "\<lambda>m fs. fs"
proof
  fix s :: fake_journal and m fs ms
  assume g: "numbered s"
  show "\<exists>s' r. FakeWrite now m fs s = (Inr (), s') \<and> numbered s' \<and>
      fj_entries s' = fj_entries s @ [r] \<and> ev_Message r = m \<and> ev_Fields r = fs"
    by (rule fake_write[OF g])
  show "\<exists>c. FakePoll ms [] s = Inr (filter (\<lambda>e. matchesFilters e ms) (fj_entries s), c) \<and>
      next_cursor [] (filter (\<lambda>e. matchesFilters e ms) (fj_entries s)) c"
    using g by (simp add: FakePoll_def numbered_def startIdx_def Let_def next_cursor_def)
  fix r assume "r \<in> set (fj_entries s)"
  then show "ev_Cursor r \<noteq> []" using g by (auto simp: numbered_def in_set_conv_nth format_uint_def)
next
  fix s :: fake_journal and ms k
  assume g: "numbered s"
  assume "k < length (fj_entries s)"
  then show "\<exists>c. FakePoll ms (ev_Cursor (fj_entries s ! k)) s =
      Inr (filter (\<lambda>e. matchesFilters e ms) (drop (Suc k) (fj_entries s)), c) \<and>
      next_cursor (ev_Cursor (fj_entries s ! k)) (filter (\<lambda>e. matchesFilters e ms) (drop (Suc k) (fj_entries s))) c"
    using g startIdx_numbered[OF g] by (simp add: FakePoll_def numbered_def Let_def next_cursor_def)
qed

section \<open>Properties\<close>

lemma two_fields: "distinct (map fst [FilterBySession sid, FilterByEvent ev])"
  by (simp add: FilterBySession_def FilterByEvent_def field_names)

text \<open>
  An event emitted with \<open>EmitStarted\<close> or \<open>EmitExited\<close> is found by its session and kind,
  whatever tags the session has: no tag can hide or change its identity.
\<close>

theorem lifecycle_events_found:
  assumes "numbered f"
  shows "\<exists>f1 r1 c1 f2 r2 c2.
    EmitStarted (FakeWrite t1) sid command tags f = (Inr (), f1) \<and>
    FakePoll [FilterBySession sid, FilterByEvent EventStarted] [] f1 =
      Inr (filter (\<lambda>e. matchesFilters e [FilterBySession sid, FilterByEvent EventStarted]) (fj_entries f) @ [r1], c1) \<and>
    ev_Fields r1 FieldCommand = Some (go_join command '' '') \<and>
    EmitExited (FakeWrite t2) sid code command tags f1 = (Inr (), f2) \<and>
    FakePoll [FilterBySession sid, FilterByEvent EventExited] [] f2 =
      Inr (filter (\<lambda>e. matchesFilters e [FilterBySession sid, FilterByEvent EventExited]) (fj_entries f1) @ [r2], c2) \<and>
    ev_Fields r2 FieldExitCode = Some (itoa code)"
proof -
  have m1: "matchesFilters r [FilterBySession sid, FilterByEvent EventStarted]"
    if "ev_Fields r = started_fields sid command tags" for r
    using that by (simp add: matchesFilters_def FilterBySession_def FilterByEvent_def
        started_fields_def field_names)
  have m2: "matchesFilters r [FilterBySession sid, FilterByEvent EventExited]"
    if "ev_Fields r = exited_fields sid code command tags" for r
    using that by (simp add: matchesFilters_def FilterBySession_def FilterByEvent_def
        exited_fields_def field_names)
  obtain f1 r1 c1 where a: "FakeWrite t1 ''Session started'' (started_fields sid command tags) f = (Inr (), f1)"
    "numbered f1" "ev_Fields r1 = started_fields sid command tags"
    "FakePoll [FilterBySession sid, FilterByEvent EventStarted] [] f1 =
      Inr (filter (\<lambda>e. matchesFilters e [FilterBySession sid, FilterByEvent EventStarted]) (fj_entries f) @ [r1], c1)"
    using fake.write_poll[OF assms TrueI two_fields m1, where now = t1] by blast
  obtain f2 r2 c2 where b: "FakeWrite t2 ''Session exited'' (exited_fields sid code command tags) f1 = (Inr (), f2)"
    "ev_Fields r2 = exited_fields sid code command tags"
    "FakePoll [FilterBySession sid, FilterByEvent EventExited] [] f2 =
      Inr (filter (\<lambda>e. matchesFilters e [FilterBySession sid, FilterByEvent EventExited]) (fj_entries f1) @ [r2], c2)"
    using fake.write_poll[OF a(2) TrueI two_fields m2, where now = t2] by blast
  have "ev_Fields r1 FieldCommand = Some (go_join command '' '')"
    "ev_Fields r2 FieldExitCode = Some (itoa code)"
    using a(3) b(2) by (simp_all add: started_fields_def exited_fields_def field_names)
  with a b show ?thesis unfolding EmitStarted_def EmitExited_def by blast
qed

lemma numbered_new: "numbered NewFakeJournal"
  by (simp add: numbered_def NewFakeJournal_def)

theorem lifecycle_events_found_witness:
  "\<exists>f1 r1 c1 f2 r2 c2.
    EmitStarted (FakeWrite 1) ''AB'' [''ls''] [''SWASH_EVENT'' \<mapsto> ''other''] NewFakeJournal = (Inr (), f1) \<and>
    FakePoll [FilterBySession ''AB'', FilterByEvent EventStarted] [] f1 =
      Inr (filter (\<lambda>e. matchesFilters e [FilterBySession ''AB'', FilterByEvent EventStarted]) (fj_entries NewFakeJournal) @ [r1], c1) \<and>
    ev_Fields r1 FieldCommand = Some (go_join [''ls''] '' '') \<and>
    EmitExited (FakeWrite 2) ''AB'' 7 [''ls''] [''SWASH_EVENT'' \<mapsto> ''other''] f1 = (Inr (), f2) \<and>
    FakePoll [FilterBySession ''AB'', FilterByEvent EventExited] [] f2 =
      Inr (filter (\<lambda>e. matchesFilters e [FilterBySession ''AB'', FilterByEvent EventExited]) (fj_entries f1) @ [r2], c2) \<and>
    ev_Fields r2 FieldExitCode = Some (itoa 7)"
  by (rule lifecycle_events_found[OF numbered_new])

text \<open>A log that only grows, as its readers see it.\<close>

fun growing :: "fake_journal list \<Rightarrow> bool" where
  "growing [] = True"
| "growing [f] = (\<not> fj_closed f)"
| "growing (f # g # fs) =
     (\<not> fj_closed f \<and> (\<exists>es. fj_entries g = fj_entries f @ es) \<and> growing (g # fs))"

lemma growing_last: "growing (f # fs) \<Longrightarrow> \<exists>xs. fj_entries (last (f # fs)) = fj_entries f @ xs"
proof (induction fs arbitrary: f)
  case Nil
  then show ?case by simp
next
  case (Cons g fs)
  then obtain es where es: "fj_entries g = fj_entries f @ es" "growing (g # fs)" by auto
  from Cons.IH[OF es(2)] obtain xs where "fj_entries (last (g # fs)) = fj_entries g @ xs" ..
  with es(1) show ?case by (intro exI[of _ "es @ xs"]) simp
qed

lemma follow_passes_growing:
  assumes "growing (f # fs)" and "idx \<le> length (fj_entries f)"
  shows "follow_passes ms idx (f # fs) =
    filter (\<lambda>e. matchesFilters e ms) (drop idx (fj_entries (last (f # fs))))"
  using assms
proof (induction fs arbitrary: f idx)
  case Nil
  then show ?case by (simp add: follow_pass_def)
next
  case (Cons g fs)
  then obtain es where es: "fj_entries g = fj_entries f @ es" "growing (g # fs)" "\<not> fj_closed f"
    by auto
  let ?n = "length (fj_entries f)"
  have ih: "follow_passes ms ?n (g # fs) =
      filter (\<lambda>e. matchesFilters e ms) (drop ?n (fj_entries (last (g # fs))))"
    using es by (intro Cons.IH) simp_all
  obtain xs where xs: "fj_entries (last (g # fs)) = fj_entries f @ es @ xs"
    using growing_last[OF es(2)] es(1) by auto
  have "follow_passes ms idx (f # g # fs) =
      filter (\<lambda>e. matchesFilters e ms) (drop idx (fj_entries f)) @ follow_passes ms ?n (g # fs)"
    using es(3) Cons.prems(2) by (simp add: follow_pass_def max_absorb2 del: follow_passes.simps(2)
        add: follow_passes.simps(2)[of ms idx f "g # fs"])
  also have "\<dots> = filter (\<lambda>e. matchesFilters e ms) (drop idx (fj_entries f) @ es @ xs)"
    unfolding ih xs by simp
  also have "drop idx (fj_entries f) @ es @ xs = drop idx (fj_entries (last (f # g # fs)))"
    using xs Cons.prems(2) by simp
  finally show ?case .
qed

text \<open>
  \<open>Follow\<close> yields every matching entry after its cursor exactly once and in order, however
  the writes fall between its passes.
\<close>

theorem follow_exactly_once:
  assumes "growing (f # fs)" and "startIdx f cursor \<le> length (fj_entries f)"
  shows "FakeFollow ms cursor f (f # fs) =
    filter (\<lambda>e. matchesFilters e ms) (drop (startIdx f cursor) (fj_entries (last (f # fs))))"
  unfolding FakeFollow_def using assms by (rule follow_passes_growing)

text \<open>
  A poll of the in-memory log that finds nothing returns the empty cursor, and polling from that
  one starts over: callers must keep the cursor they had, as \<open>PollSessionOutput\<close> does.
\<close>

lemma empty_poll_restarts:
  assumes "numbered f" and "fj_entries f \<noteq> []" and "distinct (map fst ms)"
  shows "FakePoll ms (ev_Cursor (last (fj_entries f))) f = Inr ([], []) \<and>
    (\<exists>c. FakePoll ms [] f = Inr (filter (\<lambda>e. matchesFilters e ms) (fj_entries f), c))"
proof -
  let ?k = "length (fj_entries f) - 1"
  have k: "?k < length (fj_entries f)" "fj_entries f ! ?k = last (fj_entries f)"
    using assms(2) by (simp_all add: last_conv_nth)
  have "FakePoll ms (ev_Cursor (last (fj_entries f))) f = Inr ([], [])"
    using startIdx_numbered[OF assms(1) k(1)] k assms(1)
    by (simp add: FakePoll_def numbered_def Let_def)
  with fake.poll_start[OF assms(1,3)] show ?thesis by blast
qed

definition sample_journal :: fake_journal where
  "sample_journal = snd (FakeWrite 1 ''m'' [''FD'' \<mapsto> ''1''] NewFakeJournal)"

lemma numbered_sample: "numbered sample_journal" "fj_entries sample_journal \<noteq> []"
  using fake_write[OF numbered_new, of 1 "''m''" "[''FD'' \<mapsto> ''1'']"]
  by (auto simp: sample_journal_def)

theorem follow_exactly_once_witness:
  "FakeFollow [] [] NewFakeJournal [NewFakeJournal, sample_journal] =
    filter (\<lambda>e. matchesFilters e []) (drop (startIdx NewFakeJournal []) (fj_entries (last [NewFakeJournal, sample_journal])))"
  using follow_exactly_once[of NewFakeJournal "[sample_journal]" "[]" "[]"] numbered_sample(1)
  by (simp add: NewFakeJournal_def numbered_def startIdx_def)

end
