(* ===== verification/SystemdUnits.thy ===== *)
theory SystemdUnits
  imports ResourceLimits EventLog
begin

text \<open>
  Starting and listing sessions as transient systemd units: \<open>unit.go\<close>, \<open>process_types.go\<close>,
  \<open>process_backend.go\<close> and \<open>dbus.go\<close> of \<open>internal/backend/systemd\<close>, and the environment a session
  gets, \<open>internal/host/login.go\<close>. The calls of the D-Bus library are parameters: the properties it
  returns for a unit, the units it lists, the outcome of a job.
\<close>

section \<open>Environment\<close>

type_synonym env = "string \<Rightarrow> string option"

definition getenv :: "env \<Rightarrow> string \<Rightarrow> string" where
  "getenv e k = (case e k of None \<Rightarrow> [] | Some v \<Rightarrow> v)"

fun env_chars :: "nat \<Rightarrow> string \<Rightarrow> bool" where
  "env_chars i [] = True"
| "env_chars i (c # cs) =
     (let n = of_char c :: nat in
      if c = CHR ''_'' \<or> 65 \<le> n \<and> n \<le> 90 \<or> 97 \<le> n \<and> n \<le> 122 then env_chars (i + 1) cs
      else if 48 \<le> n \<and> n \<le> 57 \<and> i > 0 then env_chars (i + 1) cs
      else False)"

definition validEnvName :: "string \<Rightarrow> bool" where
  "validEnvName name = (name \<noteq> [] \<and> env_chars 0 name)"

fun forward_env :: "string list \<Rightarrow> env \<Rightarrow> env" where
  "forward_env [] m = m"
| "forward_env (e # es) m =
     (case go_cut e ''='' of
        None \<Rightarrow> forward_env es m
      | Some (name, value) \<Rightarrow>
          if has_prefix name ''_'' \<or> \<not> validEnvName name then forward_env es m
          else forward_env es (m(name \<mapsto> value)))"

definition ForwardedEnvironment :: "string list \<Rightarrow> env" where
  "ForwardedEnvironment environ = forward_env environ Map.empty"

fun passwd_lines :: "string \<Rightarrow> string list \<Rightarrow> string" where
  "passwd_lines want [] = []"
| "passwd_lines want (l # ls) =
     (let f = go_split l '':'' in if length f \<ge> 7 \<and> f ! 2 = want then f ! 6 else passwd_lines want ls)"

definition passwdShell :: "string option \<Rightarrow> int \<Rightarrow> string" where
  "passwdShell passwd uid =
     (case passwd of None \<Rightarrow> [] | Some text \<Rightarrow> passwd_lines (itoa uid) (scan_lines text))"

definition loginShell :: "string option \<Rightarrow> int \<Rightarrow> (string \<Rightarrow> bool) \<Rightarrow> env \<Rightarrow> string" where
  "loginShell passwd uid exists e =
     (let shell = passwdShell passwd uid in
      if shell \<noteq> [] \<and> exists shell then shell
      else if getenv e ''SHELL'' \<noteq> [] then getenv e ''SHELL''
      else ''/bin/sh'')"

definition LoginCommand :: "string \<Rightarrow> string list \<Rightarrow> string list" where
  "LoginCommand shell command = [shell, ''-l'', ''-c'', ''exec \"$@\"'', ''swash''] @ command"

text \<open>\<open>GenID\<close> from six random bytes.\<close>

definition GenID :: "u8 list \<Rightarrow> string" where
  "GenID b =
     map (\<lambda>i. if i < 3 then char_of (65 + unat (b ! i) mod 26) else char_of (48 + unat (b ! i) mod 10)) [0..<6]"

section \<open>Names\<close>

definition rootSlicePrefix :: "env \<Rightarrow> string" where
  "rootSlicePrefix e = (if getenv e ''SWASH_ROOT_SLICE'' \<noteq> [] then getenv e ''SWASH_ROOT_SLICE'' else ''swash'')"

definition RootSlice :: "env \<Rightarrow> string" where
  "RootSlice e = rootSlicePrefix e @ ''.slice''"

definition HostUnit :: "string \<Rightarrow> string" where
  "HostUnit sessionID = ''swash-host-'' @ sessionID @ ''.service''"

definition SessionID :: "string \<Rightarrow> string" where
  "SessionID u = trim_prefix (trim_suffix u ''.service'') ''swash-host-''"

section \<open>Units on the bus\<close>

datatype variant = VString string | VUint64 u64 | VUint32 u32 | VBool bool | VStrings "string list"

type_synonym properties = "string \<Rightarrow> variant option"

datatype sd_error = Dbus string | NoActiveState | JobFailed string | CtxDone

record unit_info =
  u_Name :: string
  u_State :: string
  u_Description :: string
  u_Started :: "u64 option"
  u_MainPID :: u32
  u_WorkingDir :: string
  u_Slice :: string

definition prop_string :: "properties \<Rightarrow> string \<Rightarrow> string" where
  "prop_string p k = (case p k of Some (VString s) \<Rightarrow> s | _ \<Rightarrow> [])"

text \<open>
  The assertion that \<open>ActiveState\<close> is a string panics where it is not. The time of a unit is that
  of its \<open>ActiveEnterTimestamp\<close> in microseconds, if it has one.
\<close>

definition GetUnit ::
  "(string \<Rightarrow> string + properties) \<Rightarrow> (string \<Rightarrow> string + properties) \<Rightarrow> string \<Rightarrow> sd_error + unit_info" where
  "GetUnit unit_props service_props name =
     (case unit_props name of
        Inl e \<Rightarrow> Inl (Dbus e)
      | Inr p \<Rightarrow>
          (case p ''ActiveState'' of
             Some (VString st) \<Rightarrow>
               (let u = \<lparr>u_Name = name, u_State = st, u_Description = prop_string p ''Description'',
                     u_Started = (case p ''ActiveEnterTimestamp'' of
                        Some (VUint64 ts) \<Rightarrow> if ts > 0 then Some ts else None | _ \<Rightarrow> None),
                     u_MainPID = 0, u_WorkingDir = [], u_Slice = []\<rparr>
                in case service_props name of
                     Inl _ \<Rightarrow> Inr u
                   | Inr q \<Rightarrow> Inr (u\<lparr>
                       u_MainPID := (case q ''MainPID'' of Some (VUint32 n) \<Rightarrow> n | _ \<Rightarrow> 0),
                       u_WorkingDir := prop_string q ''WorkingDirectory'',
                       u_Slice := prop_string q ''Slice''\<rparr>))
           | _ \<Rightarrow> Inl NoActiveState))"

text \<open>Units that cannot be queried are left out; the panic is not an error the loop can skip.\<close>

fun get_units :: "(string \<Rightarrow> sd_error + unit_info) \<Rightarrow> string list \<Rightarrow> sd_error + unit_info list" where
  "get_units get [] = Inr []"
| "get_units get (n # ns) =
     (case get n of
        Inl NoActiveState \<Rightarrow> Inl NoActiveState
      | Inl _ \<Rightarrow> get_units get ns
      | Inr u \<Rightarrow> (case get_units get ns of Inl e \<Rightarrow> Inl e | Inr us \<Rightarrow> Inr (u # us)))"

definition ListUnits ::
  "(string list \<Rightarrow> string list \<Rightarrow> string + string list) \<Rightarrow> (string \<Rightarrow> sd_error + unit_info) \<Rightarrow>
   string list \<Rightarrow> string list \<Rightarrow> sd_error + unit_info list" where
  "ListUnits by_patterns get patterns states =
     (case by_patterns states patterns of Inl e \<Rightarrow> Inl (Dbus e) | Inr names \<Rightarrow> get_units get names)"

text \<open>A job ends with a result, or the context ends first.\<close>

definition job_result :: "string + string option \<Rightarrow> sd_error option" where
  "job_result r =
     (case r of
        Inl e \<Rightarrow> Some (Dbus e)
      | Inr None \<Rightarrow> Some CtxDone
      | Inr (Some res) \<Rightarrow> if res \<noteq> ''done'' then Some (JobFailed res) else None)"

definition StopUnit :: "(string \<Rightarrow> string \<Rightarrow> string + string option) \<Rightarrow> string \<Rightarrow> sd_error option" where
  "StopUnit stop name = job_result (stop name ''replace'')"

definition KillUnit :: "(string \<Rightarrow> int \<Rightarrow> string option) \<Rightarrow> string \<Rightarrow> int \<Rightarrow> sd_error option" where
  "KillUnit kill name signal = map_option Dbus (kill name signal)"

definition SetUnitLimits ::
  "(f64 \<Rightarrow> u64) \<Rightarrow> (string \<Rightarrow> (string \<times> u64) list \<Rightarrow> string option) \<Rightarrow> string \<Rightarrow> limits \<Rightarrow> sd_error option" where
  "SetUnitLimits oor set_props name l =
     (let props = limitProperties oor l in
      if props = [] then None else map_option Dbus (set_props name props))"

section \<open>Transient units\<close>

record transient_spec =
  t_Unit :: string
  t_Slice :: string
  t_ServiceType :: string
  t_BusName :: string
  t_WorkingDir :: string
  t_Description :: string
  t_Environment :: env
  t_Command :: "string list"
  t_Collect :: bool
  t_KillMode :: string
  t_TimeoutStop :: int
  t_Limits :: limits

definition escapeExecArgs :: "string list \<Rightarrow> string list" where
  "escapeExecArgs args = map (\<lambda>arg. replace_all arg ''$'' ''$$'') args"

text \<open>
  The properties of the unit. \<open>order\<close> is the order in which the loop meets the variables of the
  environment. \<open>ExecStart\<close> stands for the structure the library builds of the arguments.
\<close>

definition transient_properties ::
  "(f64 \<Rightarrow> u64) \<Rightarrow> string list \<Rightarrow> transient_spec \<Rightarrow> (string \<times> variant) list" where
  "transient_properties oor order spec =
     [(''ExecStart'', VStrings (escapeExecArgs (t_Command spec))),
      (''Description'', VString (t_Description spec))] @
     (if t_Slice spec \<noteq> [] then [(''Slice'', VString (t_Slice spec))] else []) @
     (if t_ServiceType spec \<noteq> [] then [(''Type'', VString (t_ServiceType spec))] else []) @
     (if t_WorkingDir spec \<noteq> [] then [(''WorkingDirectory'', VString (t_WorkingDir spec))] else []) @
     (if t_BusName spec \<noteq> [] then [(''BusName'', VString (t_BusName spec))] else []) @
     (if order \<noteq> [] then
        [(''Environment'', VStrings (map (\<lambda>k. k @ ''='' @ getenv (t_Environment spec) k) order))] else []) @
     [(''StandardOutput'', VString ''journal''), (''StandardError'', VString ''journal''),
      (''OOMPolicy'', VString ''continue''), (''IOAccounting'', VBool True)] @
     (if t_Collect spec then [(''CollectMode'', VString ''inactive-or-failed'')] else []) @
     (if t_KillMode spec \<noteq> [] then [(''KillMode'', VString (t_KillMode spec))] else []) @
     (if t_TimeoutStop spec > 0 then
        [(''TimeoutStopUSec'', VUint64 (of_int (t_TimeoutStop spec div 1000)))] else []) @
     map (\<lambda>(n, v). (n, VUint64 v)) (limitProperties oor (t_Limits spec))"

definition StartTransient ::
  "(f64 \<Rightarrow> u64) \<Rightarrow> string list \<Rightarrow>
   (string \<Rightarrow> string \<Rightarrow> (string \<times> variant) list \<Rightarrow> string + string option) \<Rightarrow>
   transient_spec \<Rightarrow> sd_error option" where
  "StartTransient oor order start spec =
     job_result (start (t_Unit spec) ''replace'' (transient_properties oor order spec))"

section \<open>The process manager\<close>

record process_status =
  ps_SessionID :: string
  ps_Description :: string
  ps_Started :: "u64 option"
  ps_PID :: u32
  ps_WorkingDir :: string

record process_spec =
  sp_SessionID :: string
  sp_Command :: "string list"
  sp_Description :: string
  sp_WorkingDir :: string
  sp_Environment :: env
  sp_BusName :: string
  sp_Collect :: bool
  sp_Limits :: limits

definition PM_spec :: "env \<Rightarrow> process_spec \<Rightarrow> transient_spec" where
  "PM_spec e spec =
     \<lparr>t_Unit = HostUnit (sp_SessionID spec), t_Slice = RootSlice e, t_ServiceType = ''notify'',
      t_BusName = sp_BusName spec, t_WorkingDir = sp_WorkingDir spec,
      t_Description = sp_Description spec, t_Environment = sp_Environment spec,
      t_Command = sp_Command spec, t_Collect = sp_Collect spec, t_KillMode = ''mixed'',
      t_TimeoutStop = 5000000000, t_Limits = sp_Limits spec\<rparr>"

text \<open>The slice's limits come first; that they fail is ignored.\<close>

definition PM_Start ::
  "(string \<Rightarrow> limits \<Rightarrow> 'w \<Rightarrow> sd_error option \<times> 'w) \<Rightarrow> (transient_spec \<Rightarrow> 'w \<Rightarrow> sd_error option \<times> 'w) \<Rightarrow>
   nat \<Rightarrow> string option \<Rightarrow> env \<Rightarrow> process_spec \<Rightarrow> 'w \<Rightarrow> sd_error option \<times> 'w" where
  "PM_Start setl start numCPU proc e spec w =
     (case setl (RootSlice e) (SliceLimits numCPU proc) w of (_, w') \<Rightarrow> start (PM_spec e spec) w')"

definition PM_Stop :: "(string \<Rightarrow> sd_error option) \<Rightarrow> string \<Rightarrow> sd_error option" where
  "PM_Stop stop sessionID = stop (HostUnit sessionID)"

definition PM_Kill :: "(string \<Rightarrow> int \<Rightarrow> sd_error option) \<Rightarrow> string \<Rightarrow> int \<Rightarrow> sd_error option" where
  "PM_Kill kill sessionID signal = kill (HostUnit sessionID) signal"

definition unit_status :: "unit_info \<Rightarrow> process_status" where
  "unit_status u = \<lparr>ps_SessionID = SessionID (u_Name u), ps_Description = u_Description u,
     ps_Started = u_Started u, ps_PID = u_MainPID u, ps_WorkingDir = u_WorkingDir u\<rparr>"

definition PM_List ::
  "(string list \<Rightarrow> string list \<Rightarrow> sd_error + unit_info list) \<Rightarrow> env \<Rightarrow> sd_error + process_status list" where
  "PM_List list_units e =
     (case list_units [''swash-host-*.service''] [''active'', ''activating'', ''deactivating''] of
        Inl err \<Rightarrow> Inl err
      | Inr units \<Rightarrow> Inr (map unit_status (filter (\<lambda>u. u_Slice u = RootSlice e) units)))"

section \<open>Properties\<close>

lemma SessionID_HostUnit [simp]: "SessionID (HostUnit sid) = sid"
  using trim_suffix_append[of "''swash-host-'' @ sid" "''.service''"]
  by (simp add: SessionID_def HostUnit_def trim_prefix_def cut_prefix_def has_prefix_def)

text \<open>
  What systemd documents of the arguments of \<open>ExecStart\<close>: two dollar signs stand for one, and text
  without a dollar sign for itself.
\<close>

lemma expand_replaced:
  assumes "\<And>t. CHR ''$'' \<notin> set t \<Longrightarrow> expand t = t"
    and "\<And>t u. CHR ''$'' \<notin> set t \<Longrightarrow> expand (t @ ''$$'' @ u) = t @ ''$'' @ expand u"
    and "\<forall>t \<in> set ts. CHR ''$'' \<notin> set t"
  shows "expand (go_join ts ''$$'') = go_join ts ''$''"
  using assms(3)
proof (induction ts)
  case Nil
  then show ?case using assms(1)[of "[]"] by simp
next
  case (Cons t ts)
  show ?case
  proof (cases "ts = []")
    case True
    with Cons.prems show ?thesis using assms(1) by simp
  next
    case False
    with Cons assms(2)[of t "go_join ts ''$$''"] show ?thesis by (simp add: go_join_Cons)
  qed
qed

lemma expand_escaped:
  assumes "\<And>t. CHR ''$'' \<notin> set t \<Longrightarrow> expand t = t"
    and "\<And>t u. CHR ''$'' \<notin> set t \<Longrightarrow> expand (t @ ''$$'' @ u) = t @ ''$'' @ expand u"
  shows "map expand (escapeExecArgs args) = args"
proof -
  have "expand (replace_all arg ''$'' ''$$'') = arg" for arg
    using expand_replaced[OF assms, of "go_split arg ''$''"] go_split_single_notin go_join_split[of arg "''$''"]
    by (simp add: replace_all_def)
  then show ?thesis by (simp add: escapeExecArgs_def comp_def)
qed

text \<open>
  The command of a session reaches it unchanged through systemd's expansion of dollar signs.
\<close>

theorem arguments_survive_systemd:
  assumes "\<And>t. CHR ''$'' \<notin> set t \<Longrightarrow> expand t = t"
    and "\<And>t u. CHR ''$'' \<notin> set t \<Longrightarrow> expand (t @ ''$$'' @ u) = t @ ''$'' @ expand u"
  shows "\<exists>args rest. transient_properties oor order spec = (''ExecStart'', VStrings args) # rest \<and>
    map expand args = t_Command spec"
  using expand_escaped[OF assms] by (simp add: transient_properties_def)

text \<open>An expansion with that behaviour.\<close>

fun dollars :: "string \<Rightarrow> string" where
  "dollars [] = []"
| "dollars [c] = [c]"
| "dollars (c # d # cs) =
     (if c = CHR ''$'' \<and> d = CHR ''$'' then c # dollars cs else c # dollars (d # cs))"

lemma dollars_plain: "CHR ''$'' \<notin> set t \<Longrightarrow> dollars t = t"
  by (induction t rule: dollars.induct) auto

lemma dollars_pair: "CHR ''$'' \<notin> set t \<Longrightarrow> dollars (t @ ''$$'' @ u) = t @ ''$'' @ dollars u"
proof (induction t)
  case Nil
  then show ?case by simp
next
  case (Cons c t)
  then show ?case by (cases t) auto
qed

definition sample_spec :: process_spec where
  "sample_spec = \<lparr>sp_SessionID = ''ABC123'', sp_Command = [''echo'', ''$HOME $$''], sp_Description = [],
     sp_WorkingDir = [], sp_Environment = Map.empty, sp_BusName = [], sp_Collect = True,
     sp_Limits = noLimits\<rparr>"

theorem arguments_survive_systemd_witness:
  "\<exists>args rest. transient_properties (\<lambda>_. 0) [] (PM_spec Map.empty sample_spec) =
      (''ExecStart'', VStrings args) # rest \<and> map dollars args = [''echo'', ''$HOME $$'']"
  using arguments_survive_systemd[OF dollars_plain dollars_pair, of "\<lambda>_. 0" "[]" "PM_spec Map.empty sample_spec"]
  by (simp add: PM_spec_def sample_spec_def)

text \<open>
  A session is listed by the identifier it was started under, exactly while systemd lists its
  unit in the configured slice; units of other slices are never listed.
\<close>

theorem listed_sessions:
  assumes "list_units [''swash-host-*.service''] [''active'', ''activating'', ''deactivating''] = Inr units"
    and "\<forall>u \<in> set units. \<exists>sid. u_Name u = HostUnit sid"
  shows "\<exists>sts. PM_List list_units e = Inr sts \<and>
    (\<forall>spec. (\<exists>st \<in> set sts. ps_SessionID st = sp_SessionID spec) \<longleftrightarrow>
      (\<exists>u \<in> set units. u_Name u = t_Unit (PM_spec e spec) \<and> u_Slice u = t_Slice (PM_spec e spec)))"
proof -
  let ?sts = "map unit_status (filter (\<lambda>u. u_Slice u = RootSlice e) units)"
  have "(\<exists>st \<in> set ?sts. ps_SessionID st = sid) \<longleftrightarrow>
      (\<exists>u \<in> set units. u_Name u = HostUnit sid \<and> u_Slice u = RootSlice e)" for sid
    using assms(2) by (force simp: unit_status_def)
  then show ?thesis using assms(1) by (simp add: PM_List_def PM_spec_def)
qed

theorem listed_sessions_witness:
  "\<exists>sts. PM_List (\<lambda>_ _. Inr [\<lparr>u_Name = ''swash-host-ABC123.service'', u_State = ''active'',
        u_Description = [], u_Started = None, u_MainPID = 7, u_WorkingDir = [], u_Slice = ''swash.slice''\<rparr>])
      Map.empty = Inr sts \<and> (\<exists>st \<in> set sts. ps_SessionID st = sp_SessionID sample_spec)"
proof -
  let ?u = "\<lparr>u_Name = ''swash-host-ABC123.service'', u_State = ''active'',
        u_Description = [], u_Started = None, u_MainPID = 7, u_WorkingDir = [], u_Slice = ''swash.slice''\<rparr>"
  have n: "u_Name ?u = HostUnit ''ABC123''" by (simp add: HostUnit_def)
  then have "\<forall>u \<in> set [?u]. \<exists>sid. u_Name u = HostUnit sid" by (simp only: list.set) blast
  from listed_sessions[OF refl this, of Map.empty] obtain sts where
    "PM_List (\<lambda>_ _. Inr [?u]) Map.empty = Inr sts"
    "(\<exists>st \<in> set sts. ps_SessionID st = sp_SessionID sample_spec) \<longleftrightarrow>
      (\<exists>u \<in> set [?u]. u_Name u = t_Unit (PM_spec Map.empty sample_spec) \<and>
        u_Slice u = t_Slice (PM_spec Map.empty sample_spec))" by blast
  then show ?thesis using n
    by (simp add: PM_spec_def sample_spec_def RootSlice_def rootSlicePrefix_def getenv_def)
qed

lemma forward_env_pairs:
  assumes "\<forall>(n, v) \<in> set kvs. CHR ''='' \<notin> set n" and "distinct (map fst kvs)"
  shows "forward_env (map (\<lambda>(n, v). n @ ''='' @ v) kvs) m name =
    (if validEnvName name \<and> \<not> has_prefix name ''_'' \<and> name \<in> fst ` set kvs then map_of kvs name else m name)"
  using assms
proof (induction kvs arbitrary: m)
  case Nil
  then show ?case by simp
next
  case (Cons nv kvs)
  obtain n v where nv: "nv = (n, v)" by force
  with Cons.prems have "go_cut (n @ CHR ''='' # v) ''='' = Some (n, v)" by (simp add: go_cut_single)
  with Cons nv show ?case by (auto simp: image_iff)
qed

text \<open>
  A session started from an environment gets exactly its variables with valid names that do
  not begin with an underscore, with their values.
\<close>

theorem environment_forwarded:
  assumes "\<forall>(n, v) \<in> set kvs. CHR ''='' \<notin> set n" and "distinct (map fst kvs)"
  shows "ForwardedEnvironment (map (\<lambda>(n, v). n @ ''='' @ v) kvs) name =
    (if validEnvName name \<and> \<not> has_prefix name ''_'' then map_of kvs name else None)"
  using forward_env_pairs[OF assms, of Map.empty name] map_of_eq_None_iff[of kvs name]
  by (auto simp: ForwardedEnvironment_def)

theorem environment_forwarded_witness:
  "ForwardedEnvironment [''HOME=/h'', ''_=/bin/x'', ''SENTRY-TRACE=1''] ''HOME'' = Some ''/h'' \<and>
   ForwardedEnvironment [''HOME=/h'', ''_=/bin/x'', ''SENTRY-TRACE=1''] ''_'' = None"
  using environment_forwarded[of "[(''HOME'', ''/h''), (''_'', ''/bin/x''), (''SENTRY-TRACE'', ''1'')]"]
  by (simp add: validEnvName_def has_prefix_def)

end
