(* ===== verification/Protocol.thy ===== *)
theory Protocol
  imports GoStrings
begin

text \<open>
  \<open>internal/protocol/protocol.go\<close>: how the output of a process becomes log entries. The reader
  \<open>r\<close> is the sequence of results of its \<open>Read\<close> calls: a chunk of bytes, and whether an error (or
  the end) came with it. What is emitted must not depend on where the chunks are cut.
\<close>

section \<open>State\<close>

datatype protocol = ProtocolShell | ProtocolSSE

text \<open>One call of the output handler.\<close>

type_synonym emitted = "int \<times> string \<times> (string \<Rightarrow> string option)"

record protocol_reader =
  pr_protocol :: protocol
  pr_fd :: int
  pr_fields :: "string \<Rightarrow> string option"
  pr_buf :: string

type_synonym reads = "(string \<times> bool) list"

definition NewProtocolReader :: "protocol \<Rightarrow> int \<Rightarrow> (string \<Rightarrow> string option) \<Rightarrow> protocol_reader" where
  "NewProtocolReader p fd fs = \<lparr>pr_protocol = p, pr_fd = fd, pr_fields = fs, pr_buf = []\<rparr>"

definition handle :: "protocol_reader \<Rightarrow> string \<Rightarrow> emitted" where
  "handle p text = (pr_fd p, text, pr_fields p)"

definition newline :: string where "newline = [CHR 0x0A]"

section \<open>Lines\<close>

text \<open>
  The inner loop: every complete line of the buffer, and what is left of it.
  \<open>ReadString\<close> returns the line with its newline, which \<open>TrimSuffix\<close> removes.
\<close>

function emit_lines :: "string \<Rightarrow> string list \<times> string" where
  "emit_lines buf =
     (case go_cut buf newline of
        None \<Rightarrow> ([], buf)
      | Some (line, rest) \<Rightarrow>
          (case emit_lines rest of (ls, r) \<Rightarrow> (trim_suffix (line @ newline) newline # ls, r)))"
  by pat_completeness auto
termination
  by (relation "measure length") (auto simp: newline_def dest!: go_cut_recompose)

declare emit_lines.simps [simp del]

fun processLines :: "protocol_reader \<Rightarrow> string \<Rightarrow> reads \<Rightarrow> emitted list" where
  "processLines p lineBuf [] = []"
| "processLines p lineBuf ((b, err) # rs) =
     (case (if b \<noteq> [] then emit_lines (lineBuf @ b) else ([], lineBuf)) of
        (ls, lineBuf) \<Rightarrow>
          List.map (handle p) ls @
          (if err then (if lineBuf \<noteq> [] then [handle p lineBuf] else [])
           else processLines p lineBuf rs))"

section \<open>Server-sent events\<close>

definition data_line :: "string \<Rightarrow> string option" where
  "data_line line =
     (case cut_prefix line ''data:'' of None \<Rightarrow> None | Some d \<Rightarrow> Some (trim_prefix d '' ''))"

fun collect :: "string list \<Rightarrow> string list" where
  "collect [] = []"
| "collect (l # ls) = (case data_line l of None \<Rightarrow> collect ls | Some d \<Rightarrow> d # collect ls)"

definition parseSSEEvent :: "protocol_reader \<Rightarrow> string \<Rightarrow> emitted list" where
  "parseSSEEvent p event =
     (let dataLines = collect (go_split event newline) in
      if dataLines \<noteq> [] then [handle p (go_join dataLines newline)] else [])"

definition blank :: string where "blank = [CHR 0x0A, CHR 0x0A]"

function emitSSEEvents :: "protocol_reader \<Rightarrow> emitted list \<times> protocol_reader" where
  "emitSSEEvents p =
     (case go_cut (pr_buf p) blank of
        None \<Rightarrow> ([], p)
      | Some (before, after) \<Rightarrow>
          (case emitSSEEvents (p\<lparr>pr_buf := after\<rparr>) of
             (os, p') \<Rightarrow> (parseSSEEvent (p\<lparr>pr_buf := after\<rparr>) before @ os, p')))"
  by pat_completeness auto
termination
  by (relation "measure (\<lambda>p. length (pr_buf p))") (auto simp: blank_def dest!: go_cut_recompose)

declare emitSSEEvents.simps [simp del]

fun processSSE :: "protocol_reader \<Rightarrow> reads \<Rightarrow> emitted list" where
  "processSSE p [] = []"
| "processSSE p ((b, err) # rs) =
     (case (if b \<noteq> [] then emitSSEEvents (p\<lparr>pr_buf := pr_buf p @ b\<rparr>) else ([], p)) of
        (os, p) \<Rightarrow>
          os @ (if err then (if pr_buf p \<noteq> [] then parseSSEEvent p (pr_buf p) else [])
                else processSSE p rs))"

definition Process :: "protocol_reader \<Rightarrow> reads \<Rightarrow> emitted list" where
  "Process p rs =
     (case pr_protocol p of ProtocolSSE \<Rightarrow> processSSE p rs | ProtocolShell \<Rightarrow> processLines p [] rs)"

section \<open>Lines do not depend on the chunks\<close>

text \<open>Every line of the whole output; a last line without newline counts unless it is empty.\<close>

definition lines_of :: "string \<Rightarrow> string list" where
  "lines_of s = (let ls = go_split s newline in
     if last ls = [] then butlast ls else ls)"

lemma emit_lines_split: "emit_lines s = (butlast (go_split s newline), last (go_split s newline))"
proof (induction s rule: emit_lines.induct)
  case (1 s)
  show ?case
  proof (cases "go_cut s newline")
    case None
    then show ?thesis by (subst emit_lines.simps) (simp add: go_split_none)
  next
    case (Some ab)
    obtain a b where ab: "ab = (a, b)" by force
    with Some have c: "go_cut s newline = Some (a, b)" by simp
    moreover have "newline \<noteq> []" by (simp add: newline_def)
    ultimately show ?thesis using "1.IH"[OF Some ab[symmetric]]
      by (subst emit_lines.simps) (simp add: go_split_some)
  qed
qed

text \<open>A complete reading: the last read, and only it, reports the end.\<close>

definition complete_reads :: "reads \<Rightarrow> bool" where
  "complete_reads rs = (rs \<noteq> [] \<and> snd (last rs) \<and> list_all (\<lambda>r. \<not> snd r) (butlast rs))"

definition received :: "reads \<Rightarrow> string" where
  "received rs = concat (List.map fst rs)"

lemma complete_Cons:
  "complete_reads (r # rs) \<longleftrightarrow> (if rs = [] then snd r else \<not> snd r \<and> complete_reads rs)"
  by (auto simp: complete_reads_def)

lemma received_Cons [simp]: "received [] = []" "received (r # rs) = fst r @ received rs"
  by (simp_all add: received_def)

lemma map_butlast_last: "xs \<noteq> [] \<Longrightarrow> List.map f (butlast xs) @ [f (last xs)] = List.map f xs"
  by (metis append_butlast_last_id list.simps(8,9) map_append)

lemma processLines_complete:
  "complete_reads rs \<Longrightarrow> go_split buf newline = [buf] \<Longrightarrow>
   processLines p buf rs = List.map (handle p) (lines_of (buf @ received rs))"
proof (induction rs arbitrary: buf)
  case Nil
  then show ?case by (simp add: complete_reads_def)
next
  case (Cons r rs)
  obtain b err where r: "r = (b, err)" by force
  let ?ls = "butlast (go_split (buf @ b) newline)" and ?rest = "last (go_split (buf @ b) newline)"
  have n: "newline \<noteq> []" by (simp add: newline_def)
  have now: "(if b \<noteq> [] then emit_lines (buf @ b) else ([], buf)) = (?ls, ?rest)"
    using Cons.prems(2) by (simp add: emit_lines_split)
  show ?case
  proof (cases "rs = []")
    case True
    with Cons.prems(1) r have "err" by (simp add: complete_Cons)
    moreover note map_butlast_last[OF go_split_not_Nil, of "handle p" "buf @ b" newline]
    ultimately show ?thesis using True r now by (simp add: lines_of_def Let_def)
  next
    case False
    with Cons.prems(1) r have "\<not> err" and c: "complete_reads rs" by (simp_all add: complete_Cons)
    have ih: "processLines p ?rest rs = List.map (handle p) (lines_of (?rest @ received rs))"
      by (rule Cons.IH[OF c go_split_last[OF n]])
    have "lines_of (buf @ b @ received rs) = ?ls @ lines_of (?rest @ received rs)"
      using go_split_more[OF n, of "buf @ b" "received rs"]
      by (simp add: lines_of_def Let_def butlast_append)
    with ih \<open>\<not> err\<close> r now show ?thesis by simp
  qed
qed

text \<open>
  C6. However the output of a process is cut into reads, the shell protocol emits its lines, each
  without its newline, and at the end the unfinished line if it is not empty.
\<close>

theorem lines_whatever_the_chunks:
  assumes "complete_reads rs" and "pr_protocol p = ProtocolShell"
  shows "Process p rs = List.map (\<lambda>l. (pr_fd p, l, pr_fields p)) (lines_of (received rs))"
proof -
  have "go_split [] newline = [[]]" by (subst go_split.simps) (simp add: newline_def)
  then show ?thesis
    using processLines_complete[OF assms(1), of "[]" p] assms(2)
    by (simp add: Process_def handle_def)
qed

theorem lines_whatever_the_chunks_witness:
  "Process (NewProtocolReader ProtocolShell 1 Map.empty) [(''ab'', False), (''c'' @ newline @ ''d'', False), ([], True)]
   = [(1, ''abc'', Map.empty), (1, ''d'', Map.empty)]"
proof -
  have s: "go_split (''abc'' @ CHR 0x0A # ''d'') [CHR 0x0A] = [''abc'', ''d'']"
    using go_split_single_Cons[of "CHR 0x0A" "''abc''" "''d''"] go_split_single_noop[of "CHR 0x0A" "''d''"]
    by simp
  show ?thesis
    by (subst lines_whatever_the_chunks)
      (simp_all add: complete_reads_def NewProtocolReader_def lines_of_def newline_def s[simplified])
qed

section \<open>Server-sent events do not depend on the chunks\<close>

lemma parse_buf [simp]: "parseSSEEvent (p\<lparr>pr_buf := b\<rparr>) e = parseSSEEvent p e"
  by (simp add: parseSSEEvent_def handle_def Let_def)

lemma blank_nonempty [simp]: "blank \<noteq> []"
  by (simp add: blank_def)

lemma emitSSE_split:
  "emitSSEEvents p =
     (concat (List.map (parseSSEEvent p) (butlast (go_split (pr_buf p) blank))),
      p\<lparr>pr_buf := last (go_split (pr_buf p) blank)\<rparr>)"
proof (induction p rule: emitSSEEvents.induct)
  case (1 p)
  show ?case
  proof (cases "go_cut (pr_buf p) blank")
    case None
    then show ?thesis by (subst emitSSEEvents.simps) (simp add: go_split_none)
  next
    case (Some ab)
    obtain a b where ab: "ab = (a, b)" by force
    with Some have c: "go_cut (pr_buf p) blank = Some (a, b)" by simp
    from "1.IH"[OF Some ab[symmetric]] c show ?thesis
      by (subst emitSSEEvents.simps) (simp add: go_split_some cong: map_cong)
  qed
qed

lemma parse_empty: "parseSSEEvent p [] = []"
proof -
  have "go_split [] newline = [[]]" by (subst go_split.simps) (simp add: newline_def)
  then show ?thesis by (simp add: parseSSEEvent_def data_line_def cut_prefix_def has_prefix_def)
qed

lemma processSSE_complete:
  "complete_reads rs \<Longrightarrow> go_split (pr_buf p) blank = [pr_buf p] \<Longrightarrow>
   processSSE p rs = concat (List.map (parseSSEEvent p) (go_split (pr_buf p @ received rs) blank))"
proof (induction rs arbitrary: p)
  case Nil
  then show ?case by (simp add: complete_reads_def)
next
  case (Cons r rs)
  obtain b err where r: "r = (b, err)" by force
  let ?s = "pr_buf p @ b"
  let ?os = "concat (List.map (parseSSEEvent p) (butlast (go_split ?s blank)))"
  let ?p = "p\<lparr>pr_buf := last (go_split ?s blank)\<rparr>"
  have now: "(if b \<noteq> [] then emitSSEEvents (p\<lparr>pr_buf := pr_buf p @ b\<rparr>) else ([], p)) = (?os, ?p)"
    using Cons.prems(2) by (simp add: emitSSE_split cong: map_cong)
  show ?case
  proof (cases "rs = []")
    case True
    with Cons.prems(1) r have "err" by (simp add: complete_Cons)
    moreover have "go_split ?s blank = butlast (go_split ?s blank) @ [last (go_split ?s blank)]" by simp
    then have "concat (List.map (parseSSEEvent p) (go_split ?s blank)) =
        ?os @ parseSSEEvent p (last (go_split ?s blank))"
      by (metis concat_append map_append concat.simps list.simps(8,9) append_Nil2)
    ultimately show ?thesis using True r now by (auto simp: parse_empty)
  next
    case False
    with Cons.prems(1) r have "\<not> err" and c: "complete_reads rs" by (simp_all add: complete_Cons)
    have ih: "processSSE ?p rs =
        concat (List.map (parseSSEEvent ?p) (go_split (pr_buf ?p @ received rs) blank))"
      using go_split_last[OF blank_nonempty, of ?s] by (intro Cons.IH[OF c]) simp
    have "go_split (?s @ received rs) blank =
        butlast (go_split ?s blank) @ go_split (pr_buf ?p @ received rs) blank"
      using go_split_more[OF blank_nonempty, of ?s "received rs"] by simp
    with ih \<open>\<not> err\<close> r now show ?thesis by (simp cong: map_cong)
  qed
qed

text \<open>
  C7. The events of a server-sent stream are the blocks between blank lines of the whole output,
  however it is cut into reads, even in the middle of a blank line; each block with data lines is
  emitted once, as its data lines joined by newlines.
\<close>

theorem sse_whatever_the_chunks:
  assumes "complete_reads rs" and "pr_protocol p = ProtocolSSE" and "pr_buf p = []"
  shows "Process p rs = concat (List.map (parseSSEEvent p) (go_split (received rs) blank))"
proof -
  have "go_split [] blank = [[]]" by (subst go_split.simps) (simp add: blank_def)
  then show ?thesis using processSSE_complete[OF assms(1), of p] assms(2,3) by (simp add: Process_def)
qed

theorem sse_whatever_the_chunks_witness:
  "Process (NewProtocolReader ProtocolSSE 1 Map.empty)
     [(''data: a'' @ newline, False), (newline @ ''data:b'', True)] =
   concat (List.map (parseSSEEvent (NewProtocolReader ProtocolSSE 1 Map.empty))
     (go_split (''data: a'' @ newline @ newline @ ''data:b'') blank))"
  using sse_whatever_the_chunks[of "[(''data: a'' @ newline, False), (newline @ ''data:b'', True)]"
      "NewProtocolReader ProtocolSSE 1 Map.empty"]
  by (simp add: complete_reads_def NewProtocolReader_def)

end
