(* ===== verification/SessionLog.thy ===== *)
theory SessionLog
  imports EventLog Protocol "HOL-Library.Multiset"
begin

text \<open>
  What both backends read out of the event log: the output of a session, its exit, its saved
  screen and the history. \<open>PollSessionOutput\<close>, \<open>FollowSession\<close>, \<open>GetScreen\<close> and \<open>ListHistory\<close> of
  \<open>internal/backend/systemd/backend.go\<close> and \<open>internal/backend/posix/stub.go\<close>. The log is the
  parameter \<open>poll\<close>; times are nanoseconds, formatted by the parameter \<open>fmt\<close>.
\<close>

definition ev_field :: "event_record \<Rightarrow> string \<Rightarrow> string" where
  "ev_field e k = (case ev_Fields e k of None \<Rightarrow> [] | Some v \<Rightarrow> v)"

section \<open>Output\<close>

record output_event =
  oe_Cursor :: string
  oe_Timestamp :: int
  oe_Text :: string
  oe_FD :: int

definition is_output :: "event_record \<Rightarrow> bool" where
  "is_output e = (ev_Message e \<noteq> [] \<and> ev_field e ''FD'' \<noteq> [])"

definition output_of :: "event_record \<Rightarrow> output_event" where
  "output_of e = \<lparr>oe_Cursor = ev_Cursor e, oe_Timestamp = ev_Timestamp e div 1000000000,
     oe_Text = ev_Message e, oe_FD = (if ev_field e ''FD'' = ''2'' then 2 else 1)\<rparr>"

fun output_events :: "event_record list \<Rightarrow> output_event list" where
  "output_events [] = []"
| "output_events (e # es) =
     (if ev_Message e = [] \<or> ev_field e ''FD'' = [] then output_events es
      else output_of e # output_events es)"

definition PollSessionOutput ::
  "(event_filter list \<Rightarrow> string \<Rightarrow> 'w \<Rightarrow> log_error + (event_record list \<times> string)) \<Rightarrow>
   string \<Rightarrow> string \<Rightarrow> 'w \<Rightarrow> log_error + (output_event list \<times> string)" where
  "PollSessionOutput poll sessionID cursor w =
     (case poll [FilterBySession sessionID] cursor w of
        Inl e \<Rightarrow> Inl e
      | Inr (entries, newCursor) \<Rightarrow>
          Inr (output_events entries, if newCursor = [] then cursor else newCursor))"

section \<open>Following a session\<close>

datatype follow_result =
  FollowCompleted | FollowTimedOut | FollowCancelled | FollowOutputLimit | FollowKilled

definition exit_code :: "event_record \<Rightarrow> int" where
  "exit_code e = (let codeStr = ev_field e FieldExitCode in
     if codeStr \<noteq> [] then parse_int_value codeStr else 0)"

text \<open>One event: what is printed, the bytes counted, and the result if it ends the following.\<close>

definition follow_event ::
  "int \<Rightarrow> int \<Rightarrow> event_record \<Rightarrow> string list \<times> int \<times> (int \<times> follow_result) option" where
  "follow_event outputLimit outputBytes e =
     (if ev_field e FieldEvent = EventExited then ([], outputBytes, Some (exit_code e, FollowCompleted))
      else if is_output e then
        (if outputLimit > 0 then
           let outputBytes = outputBytes + (int (length (ev_Message e)) + 1) in
           ([ev_Message e], outputBytes,
            if outputBytes > outputLimit then Some (0, FollowOutputLimit) else None)
         else ([ev_Message e], outputBytes, None))
      else ([], outputBytes, None))"

definition ctx_result :: "bool \<Rightarrow> int \<times> follow_result" where
  "ctx_result deadlineExceeded = (0, if deadlineExceeded then FollowTimedOut else FollowCancelled)"

text \<open>
  The posix loop over the events the log yields; when they end, the context says why.
\<close>

fun px_follow ::
  "int \<Rightarrow> int \<Rightarrow> event_record list \<Rightarrow> bool \<Rightarrow> string list \<times> (int \<times> follow_result)" where
  "px_follow outputLimit outputBytes [] deadline = ([], ctx_result deadline)"
| "px_follow outputLimit outputBytes (e # es) deadline =
     (case follow_event outputLimit outputBytes e of
        (out, _, Some r) \<Rightarrow> (out, r)
      | (out, bytes, None) \<Rightarrow>
          (case px_follow outputLimit bytes es deadline of (out', r) \<Rightarrow> (out @ out', r)))"

text \<open>
  The systemd loop: which branch of its \<open>select\<close> is taken each time. \<open>CheckUnit\<close> carries what
  \<open>sessionIsLive\<close> returned (\<open>None\<close> for an error) and the time.
\<close>

datatype follow_step =
    GotEvent event_record
  | EventsClosed bool
  | CheckUnit "bool option" int
  | CtxDone bool

definition disappearanceGrace :: int where "disappearanceGrace = 500000000"

fun sd_follow ::
  "int \<Rightarrow> int \<Rightarrow> int option \<Rightarrow> follow_step list \<Rightarrow> string list \<times> (int \<times> follow_result) option" where
  "sd_follow outputLimit outputBytes missingSince [] = ([], None)"
| "sd_follow outputLimit outputBytes missingSince (step # steps) =
     (case step of
        GotEvent e \<Rightarrow>
          (case follow_event outputLimit outputBytes e of
             (out, _, Some r) \<Rightarrow> (out, Some r)
           | (out, bytes, None) \<Rightarrow>
               (case sd_follow outputLimit bytes missingSince steps of (out', r) \<Rightarrow> (out @ out', r)))
      | EventsClosed deadline \<Rightarrow> ([], Some (ctx_result deadline))
      | CheckUnit live now \<Rightarrow>
          (if live = None \<or> live = Some True then sd_follow outputLimit outputBytes None steps
           else case missingSince of
             None \<Rightarrow> sd_follow outputLimit outputBytes (Some now) steps
           | Some t \<Rightarrow>
               if now - t \<ge> disappearanceGrace then ([], Some (0, FollowKilled))
               else sd_follow outputLimit outputBytes missingSince steps)
      | CtxDone deadline \<Rightarrow> ([], Some (ctx_result deadline)))"

definition FollowSession_systemd :: "int \<Rightarrow> follow_step list \<Rightarrow> string list \<times> (int \<times> follow_result) option" where
  "FollowSession_systemd outputLimit steps = sd_follow outputLimit 0 None steps"

text \<open>The posix backend gives up as cancelled when it cannot open the log.\<close>

definition FollowSession_posix ::
  "bool \<Rightarrow> int \<Rightarrow> event_record list \<Rightarrow> bool \<Rightarrow> string list \<times> (int \<times> follow_result)" where
  "FollowSession_posix opened outputLimit es deadline =
     (if \<not> opened then ([], (0, FollowCancelled)) else px_follow outputLimit 0 es deadline)"

section \<open>Screens\<close>

datatype screen_error = ScreenLog log_error | NoScreen string

text \<open>\<open>live\<close> is the screen of a running session, where one answers.\<close>

definition GetScreen ::
  "(event_filter list \<Rightarrow> string \<Rightarrow> 'w \<Rightarrow> log_error + (event_record list \<times> string)) \<Rightarrow>
   string option \<Rightarrow> string \<Rightarrow> 'w \<Rightarrow> screen_error + string" where
  "GetScreen poll live sessionID w =
     (case live of
        Some screen \<Rightarrow> Inr screen
      | None \<Rightarrow>
          (case poll [FilterByEvent EventScreen, FilterBySession sessionID] [] w of
             Inl e \<Rightarrow> Inl (ScreenLog e)
           | Inr (entries, _) \<Rightarrow>
               if entries = [] then Inl (NoScreen sessionID) else Inr (ev_Message (last entries))))"

section \<open>History\<close>

record history_session =
  hs_ID :: string
  hs_Status :: string
  hs_ExitCode :: "int option"
  hs_Command :: string
  hs_Started :: string

text \<open>Grouping by session: later records overwrite earlier ones.\<close>

fun last_by_session :: "event_record list \<Rightarrow> (string \<Rightarrow> event_record option) \<Rightarrow> (string \<Rightarrow> event_record option)" where
  "last_by_session [] m = m"
| "last_by_session (e # es) m =
     (let sid = ev_field e FieldSession in
      if sid = [] then last_by_session es m else last_by_session es (m(sid \<mapsto> e)))"

definition recorded_code :: "event_record \<Rightarrow> int option" where
  "recorded_code e = (let s = ev_field e FieldExitCode in if s = [] then None else parse_int s)"

text \<open>The lifecycle of a session is the last record of each kind, if there is one.\<close>

record lifecycle =
  lc_started :: "event_record option"
  lc_exited :: "event_record option"

definition lifecycles :: "event_record list \<Rightarrow> event_record list \<Rightarrow> string \<Rightarrow> lifecycle option" where
  "lifecycles started exited sid =
     (let s = last_by_session started Map.empty sid; x = last_by_session exited Map.empty sid in
      if s = None \<and> x = None then None else Some \<lparr>lc_started = s, lc_exited = x\<rparr>)"

definition exit_counts :: "lifecycle \<Rightarrow> bool" where
  "exit_counts item =
     (case (lc_exited item, lc_started item) of
        (None, _) \<Rightarrow> False
      | (Some x, None) \<Rightarrow> True
      | (Some x, Some s) \<Rightarrow> \<not> ev_Timestamp x < ev_Timestamp s)"

text \<open>The zero time of a session without a start is overwritten, since its exit counts.\<close>

definition history_item :: "(int \<Rightarrow> string) \<Rightarrow> string \<Rightarrow> lifecycle \<Rightarrow> int \<times> history_session" where
  "history_item fmt sid item =
     (let (command, startedAt) = (case lc_started item of
            Some s \<Rightarrow> (ev_field s FieldCommand, ev_Timestamp s)
          | None \<Rightarrow> (case lc_exited item of
              Some x \<Rightarrow> (ev_field x FieldCommand, ev_Timestamp x) | None \<Rightarrow> ([], 0))) in
      case (if exit_counts item then lc_exited item else None) of
        Some x \<Rightarrow> (ev_Timestamp x, \<lparr>hs_ID = sid, hs_Status = ''exited'', hs_ExitCode = recorded_code x,
             hs_Command = command, hs_Started = fmt startedAt\<rparr>)
      | None \<Rightarrow> (startedAt, \<lparr>hs_ID = sid, hs_Status = ''killed'', hs_ExitCode = None,
             hs_Command = command, hs_Started = fmt startedAt\<rparr>))"

text \<open>
  \<open>sort.Slice\<close> by \<open>After\<close>, newest first. It keeps no order among equal times; neither does the map
  the items come from, so \<open>order\<close>, the order in which its keys are met, settles both.
\<close>

definition newest_first :: "(int \<times> 'a) list \<Rightarrow> 'a list" where
  "newest_first items = map snd (sort_key (\<lambda>i. - fst i) items)"

definition history_items ::
  "(int \<Rightarrow> string) \<Rightarrow> string list \<Rightarrow> (string \<Rightarrow> lifecycle option) \<Rightarrow> string list \<Rightarrow> (int \<times> history_session) list" where
  "history_items fmt live bySession order =
     concat (map (\<lambda>sid. if sid \<in> set live then []
       else case bySession sid of None \<Rightarrow> [] | Some item \<Rightarrow> [history_item fmt sid item]) order)"

datatype 'u history_error = HistoryLog log_error | HistoryLive 'u

text \<open>
  \<open>w1\<close> and \<open>w2\<close> are the log when the started and the exited events are read; the live sessions
  are listed in between.
\<close>

definition ListHistory_systemd ::
  "(event_filter list \<Rightarrow> string \<Rightarrow> 'w \<Rightarrow> log_error + (event_record list \<times> string)) \<Rightarrow>
   (int \<Rightarrow> string) \<Rightarrow> string list \<Rightarrow> 'w \<Rightarrow> 'u + string list \<Rightarrow> 'w \<Rightarrow> 'u history_error + history_session list" where
  "ListHistory_systemd poll fmt order w1 live w2 =
     (case poll [FilterByEvent EventStarted] [] w1 of
        Inl e \<Rightarrow> Inl (HistoryLog e)
      | Inr (started, _) \<Rightarrow>
          (case live of
             Inl e \<Rightarrow> Inl (HistoryLive e)
           | Inr liveIDs \<Rightarrow>
               (case poll [FilterByEvent EventExited] [] w2 of
                  Inl e \<Rightarrow> Inl (HistoryLog e)
                | Inr (exited, _) \<Rightarrow>
                    Inr (newest_first (history_items fmt liveIDs (lifecycles started exited) order)))))"

definition posix_item :: "(int \<Rightarrow> string) \<Rightarrow> string \<Rightarrow> event_record \<Rightarrow> int \<times> history_session" where
  "posix_item fmt sid r =
     (ev_Timestamp r, \<lparr>hs_ID = sid, hs_Status = ''exited'', hs_ExitCode = recorded_code r,
        hs_Command = ev_field r FieldCommand, hs_Started = fmt (ev_Timestamp r)\<rparr>)"

definition ListHistory_posix ::
  "(event_filter list \<Rightarrow> string \<Rightarrow> 'w \<Rightarrow> log_error + (event_record list \<times> string)) \<Rightarrow>
   (int \<Rightarrow> string) \<Rightarrow> string list \<Rightarrow> 'w \<Rightarrow> log_error + history_session list" where
  "ListHistory_posix poll fmt order w =
     (case poll [FilterByEvent EventExited] [] w of
        Inl e \<Rightarrow> Inl e
      | Inr (exited, _) \<Rightarrow>
          Inr (newest_first (concat (map (\<lambda>sid. case last_by_session exited Map.empty sid of
             None \<Rightarrow> [] | Some r \<Rightarrow> [posix_item fmt sid r]) order))))"

section \<open>Polling again and again\<close>

lemma output_events_filter: "output_events es = map output_of (filter is_output es)"
  by (induction es) (simp_all add: is_output_def)

fun poll_output ::
  "(event_filter list \<Rightarrow> string \<Rightarrow> 'w \<Rightarrow> log_error + (event_record list \<times> string)) \<Rightarrow>
   string \<Rightarrow> string \<Rightarrow> 'w list \<Rightarrow> output_event list" where
  "poll_output poll sid cursor [] = []"
| "poll_output poll sid cursor (w # ws) =
     (case PollSessionOutput poll sid cursor w of
        Inl _ \<Rightarrow> []
      | Inr (evs, c) \<Rightarrow> evs @ poll_output poll sid c ws)"

text \<open>States of a log that only grows.\<close>

fun log_states :: "('w \<Rightarrow> bool) \<Rightarrow> ('w \<Rightarrow> event_record list) \<Rightarrow> 'w list \<Rightarrow> bool" where
  "log_states good recs [] = True"
| "log_states good recs [w] = good w"
| "log_states good recs (w # v # ws) =
     (good w \<and> (\<exists>es. recs v = recs w @ es) \<and> log_states good recs (v # ws))"

lemma log_states_last:
  "log_states good recs (w # ws) \<Longrightarrow> \<exists>es. recs (last (w # ws)) = recs w @ es"
proof (induction ws arbitrary: w)
  case Nil
  then show ?case by simp
next
  case (Cons v ws)
  then obtain es where es: "recs v = recs w @ es" "log_states good recs (v # ws)" by auto
  from Cons.IH[OF es(2)] es(1) show ?case by (metis append.assoc last_ConsR list.distinct(1))
qed

lemma last_filter_at:
  assumes "filter P xs \<noteq> []"
  shows "\<exists>j < length xs. last (filter P xs) = xs ! j \<and> filter P (drop (Suc j) xs) = []"
  using assms
proof (induction xs rule: rev_induct)
  case Nil
  then show ?case by simp
next
  case (snoc x xs)
  show ?case
  proof (cases "P x")
    case True
    then show ?thesis by (intro exI[of _ "length xs"]) simp
  next
    case False
    with snoc obtain j where "j < length xs" "last (filter P xs) = xs ! j" "filter P (drop (Suc j) xs) = []"
      by auto
    with False show ?thesis by (intro exI[of _ j]) (simp add: nth_append)
  qed
qed

text \<open>
  The cursor \<open>c\<close> stands at position \<open>k\<close>: nothing that matches lies between its record and \<open>k\<close>.
\<close>

definition cursor_at :: "event_record list \<Rightarrow> event_filter list \<Rightarrow> string \<Rightarrow> nat \<Rightarrow> bool" where
  "cursor_at es ms c k \<longleftrightarrow> k \<le> length es \<and>
     (c = [] \<and> filter (\<lambda>e. matchesFilters e ms) (take k es) = [] \<or>
      (\<exists>j < k. c = ev_Cursor (es ! j) \<and> filter (\<lambda>e. matchesFilters e ms) (drop (Suc j) (take k es)) = []))"

lemma cursor_at_more:
  assumes "cursor_at es ms c k"
  shows "cursor_at (es @ es') ms c k"
proof -
  have k: "k \<le> length es" using assms by (simp add: cursor_at_def)
  then have "take k (es @ es') = take k es" "\<And>j. j < k \<Longrightarrow> (es @ es') ! j = es ! j"
    by (simp_all add: nth_append)
  with assms k show ?thesis unfolding cursor_at_def by (metis length_append trans_le_add1)
qed

context event_source
begin

lemma poll_from:
  assumes "good s" and "distinct (map fst ms)" and "cursor_at (recs s) ms c k"
  shows "\<exists>c'. poll ms c s = Inr (filter (\<lambda>e. matchesFilters e ms) (drop k (recs s)), c') \<and>
    next_cursor c (filter (\<lambda>e. matchesFilters e ms) (drop k (recs s))) c'"
proof -
  let ?f = "filter (\<lambda>e. matchesFilters e ms)" and ?es = "recs s"
  have k: "k \<le> length ?es" using assms(3) by (simp add: cursor_at_def)
  from assms(3) consider "c = []" "?f (take k ?es) = []"
    | j where "j < k" "c = ev_Cursor (?es ! j)" "?f (drop (Suc j) (take k ?es)) = []"
    unfolding cursor_at_def by blast
  then show ?thesis
  proof cases
    case 1
    have "?f ?es = ?f (take k ?es) @ ?f (drop k ?es)" by (metis append_take_drop_id filter_append)
    with 1 poll_start[OF assms(1,2)] show ?thesis by simp
  next
    case 2
    have "drop (Suc j) ?es = drop (Suc j) (take k ?es) @ drop k ?es"
      using \<open>j < k\<close> by (metis Suc_leI append_take_drop_id drop_drop drop_take le_add_diff_inverse2)
    then have "?f (drop (Suc j) ?es) = ?f (drop k ?es)" using 2(3) by simp
    with poll_resume[OF assms(1,2), of j] 2 k show ?thesis by simp
  qed
qed

text \<open>What a poll returns, and where the cursor stands that its caller keeps.\<close>

lemma poll_advances:
  assumes "good s" and "distinct (map fst ms)" and "cursor_at (recs s) ms c k"
  shows "\<exists>c'. poll ms c s = Inr (filter (\<lambda>e. matchesFilters e ms) (drop k (recs s)), c') \<and>
    cursor_at (recs s) ms (if c' = [] then c else c') (length (recs s))"
proof -
  let ?f = "filter (\<lambda>e. matchesFilters e ms)" and ?es = "recs s"
  let ?found = "?f (drop k ?es)"
  obtain c1 where c1: "poll ms c s = Inr (?found, c1)" "next_cursor c ?found c1"
    using poll_from[OF assms] by auto
  have k: "k \<le> length ?es" using assms(3) by (simp add: cursor_at_def)
  let ?c = "if c1 = [] then c else c1"
  have "cursor_at ?es ms ?c (length ?es)"
  proof (cases "?found = []")
    case True
    then have "?c = c" using c1(2) by (auto simp: next_cursor_def)
    moreover have eq: "?f (drop i ?es) = ?f (drop i (take k ?es))" if "i \<le> k" for i
    proof -
      have "drop i ?es = drop i (take k ?es) @ drop k ?es"
        using that by (metis append_take_drop_id drop_drop drop_take le_add_diff_inverse2)
      with True show ?thesis by simp
    qed
    moreover have "cursor_at ?es ms c (length ?es)"
      using assms(3) eq[of 0] eq[of "Suc _"] k unfolding cursor_at_def by fastforce
    ultimately show ?thesis by simp
  next
    case False
    then have c: "c1 = ev_Cursor (last ?found)" using c1(2) by (simp add: next_cursor_def)
    have all: "?f ?es = ?f (take k ?es) @ ?found" by (metis append_take_drop_id filter_append)
    then have "?f ?es \<noteq> []" "last (?f ?es) = last ?found" using False by simp_all
    with last_filter_at[of "\<lambda>e. matchesFilters e ms" ?es] obtain j where
      j: "j < length ?es" "last ?found = ?es ! j" "?f (drop (Suc j) ?es) = []" by metis
    then have "c1 \<noteq> []" using c cursor_some[OF assms(1), of "?es ! j"] by simp
    with j c show ?thesis by (auto simp: cursor_at_def)
  qed
  with c1(1) show ?thesis by blast
qed

lemma poll_session_from:
  assumes "good s" and "cursor_at (recs s) [FilterBySession sid] c k"
  shows "\<exists>c'. PollSessionOutput poll sid c s =
      Inr (output_events (filter (\<lambda>e. matchesFilters e [FilterBySession sid]) (drop k (recs s))), c') \<and>
    cursor_at (recs s) [FilterBySession sid] c' (length (recs s))"
  using poll_advances[OF assms(1) _ assms(2)] by (auto simp: PollSessionOutput_def)

lemma poll_output_all:
  "log_states good recs (w # ws) \<Longrightarrow> cursor_at (recs w) [FilterBySession sid] c k \<Longrightarrow>
   poll_output poll sid c (w # ws) =
     output_events (filter (\<lambda>e. matchesFilters e [FilterBySession sid]) (drop k (recs (last (w # ws)))))"
proof (induction ws arbitrary: w c k)
  case Nil
  then show ?case using poll_session_from[of w sid c k] by auto
next
  case (Cons v ws)
  then obtain es where es: "good w" "recs v = recs w @ es" "log_states good recs (v # ws)" by auto
  obtain c' where c': "PollSessionOutput poll sid c w =
      Inr (output_events (filter (\<lambda>e. matchesFilters e [FilterBySession sid]) (drop k (recs w))), c')"
    "cursor_at (recs w) [FilterBySession sid] c' (length (recs w))"
    using poll_session_from[OF es(1) Cons.prems(2)] by blast
  then have "cursor_at (recs v) [FilterBySession sid] c' (length (recs w))"
    using cursor_at_more es(2) by metis
  from Cons.IH[OF es(3) this] obtain rest where
    rest: "poll_output poll sid c' (v # ws) = output_events (filter (\<lambda>e. matchesFilters e [FilterBySession sid])
        (drop (length (recs w)) (recs (last (v # ws)))))" by blast
  obtain fs where fs: "recs (last (v # ws)) = recs w @ fs"
    using log_states_last[OF es(3)] es(2) by auto
  have "k \<le> length (recs w)" using Cons.prems(2) by (simp add: cursor_at_def)
  then show ?case using c'(1) rest fs by (simp add: output_events_filter)
qed

lemma poll_output_start:
  "log_states good recs (w # ws) \<Longrightarrow>
   poll_output poll sid [] (w # ws) =
     output_events (filter (\<lambda>e. matchesFilters e [FilterBySession sid]) (recs (last (w # ws))))"
  using poll_output_all[of w ws sid "[]" 0] by (simp add: cursor_at_def)

end

section \<open>From the pipe to the reader\<close>

lemma itoa_not_Nil: "itoa i \<noteq> []"
  by (simp add: itoa_def format_uint_def)

lemma minus_char: "of_char (CHR ''-'') < (48 :: nat)"
  by simp

lemma itoa_inj: "itoa i = itoa j \<Longrightarrow> i = j"
proof -
  have n: "CHR ''-'' # t \<noteq> format_uint n" for n t
    using format_uint_notin[of "CHR ''-''" n] by (metis list.set_intros(1) minus_char)
  assume "itoa i = itoa j"
  with n n[symmetric] show "i = j"
    by (cases "i < 0"; cases "j < 0") (auto simp: itoa_def eq_nat_nat_iff dest!: format_uint_inj)
qed

lemma itoa_eq_2: "itoa fd = ''2'' \<longleftrightarrow> fd = 2"
proof -
  have "itoa 2 = ''2''" by (simp add: itoa_def format_uint_def itoa_base.simps digit_char_def) code_simp
  then show ?thesis using itoa_inj by metis
qed

text \<open>What the hosts do with each line the protocol reader emits.\<close>

definition write_outputs ::
  "(string \<Rightarrow> fieldmap \<Rightarrow> (log_error, 'w, unit) eff) \<Rightarrow> emitted list \<Rightarrow> (log_error, 'w, unit) eff" where
  "write_outputs emit os = forE os (\<lambda>(fd, l, fs). WriteOutput emit fd l fs)"

context event_log
begin

lemma write_outputs_recs:
  "good s \<Longrightarrow> \<forall>(fd, l, fs) \<in> set os. \<forall>s. good s \<longrightarrow> storable s l (output_fields fd fs) \<Longrightarrow>
   \<exists>s' rs. write_outputs emit os s = (Inr (), s') \<and> good s' \<and> recs s' = recs s @ rs \<and>
     map (\<lambda>r. (ev_Message r, ev_Fields r)) rs = map (\<lambda>(fd, l, fs). (l, stored l (output_fields fd fs))) os"
proof (induction os arbitrary: s)
  case Nil
  then show ?case by (simp add: write_outputs_def)
next
  case (Cons x os)
  obtain fd l fs where x: "x = (fd, l, fs)" by (cases x)
  obtain s1 r where w: "emit l (output_fields fd fs) s = (Inr (), s1)" "good s1"
    "recs s1 = recs s @ [r]" "ev_Message r = l" "ev_Fields r = stored l (output_fields fd fs)"
    using write_ok[OF Cons.prems(1), of l "output_fields fd fs"] Cons.prems x by auto
  from Cons.IH[OF w(2)] Cons.prems(2) obtain s' rs where "write_outputs emit os s1 = (Inr (), s')" "good s'"
    "recs s' = recs s1 @ rs"
    "map (\<lambda>r. (ev_Message r, ev_Fields r)) rs = map (\<lambda>(fd, l, fs). (l, stored l (output_fields fd fs))) os"
    by auto
  with w x show ?case
    by (intro exI[of _ s'] exI[of _ "r # rs"])
      (simp add: write_outputs_def WriteOutput_def thenE_Inr)
qed

lemma session_output_recs:
  assumes "fs FieldSession = Some sid" and "fs ''FD'' = None"
    and "map (\<lambda>r. (ev_Message r, ev_Fields r)) rs = map (\<lambda>l. (l, output_fields fd fs)) ls"
  shows "map (\<lambda>e. (oe_FD e, oe_Text e))
      (output_events (filter (\<lambda>e. matchesFilters e [FilterBySession sid]) rs)) =
    map (\<lambda>l. (if fd = 2 then 2 else 1, l)) (filter (\<lambda>l. l \<noteq> []) ls)"
  using assms(3)
proof (induction rs arbitrary: ls)
  case Nil
  then show ?case by simp
next
  case (Cons r rs)
  then obtain l ls' where ls: "ls = l # ls'" by (cases ls) auto
  with Cons.prems have l: "ev_Message r = l" "ev_Fields r = output_fields fd fs"
    "map (\<lambda>r. (ev_Message r, ev_Fields r)) rs = map (\<lambda>l. (l, output_fields fd fs)) ls'"
    by simp_all
  have "matchesFilters r [FilterBySession sid]"
    using assms(1) l(2) by (simp add: matchesFilters_def FilterBySession_def output_fields_def map_add_Some_iff)
  moreover have "ev_field r ''FD'' = itoa fd"
    using assms(2) l(2) by (simp add: ev_field_def output_fields_def map_add_def)
  moreover have "itoa fd \<noteq> []" "itoa fd = ''2'' \<longleftrightarrow> fd = 2"
    by (simp_all add: itoa_not_Nil itoa_eq_2)
  ultimately show ?case using Cons.IH[OF l(3)] ls l(1) by (simp add: output_of_def)
qed

end

section \<open>Lemmas on following and history\<close>

definition exits :: "event_record \<Rightarrow> bool" where
  "exits e = (ev_field e FieldEvent = EventExited)"

definition printed_bytes :: "string list \<Rightarrow> int" where
  "printed_bytes out = sum_list (map (\<lambda>l. int (length l) + 1) out)"

lemma printed_bytes_simps [simp]:
  "printed_bytes [] = 0" "printed_bytes (l # ls) = int (length l) + 1 + printed_bytes ls"
  "printed_bytes (xs @ ys) = printed_bytes xs + printed_bytes ys"
  by (simp_all add: printed_bytes_def)

lemma printed_bytes_nonneg [simp]: "0 \<le> printed_bytes ls"
  by (induction ls) simp_all

lemma px_follow_exit:
  "limit \<le> 0 \<Longrightarrow> \<forall>x \<in> set pre. \<not> exits x \<Longrightarrow> exits e \<Longrightarrow>
   px_follow limit b (pre @ e # post) d =
     (map ev_Message (filter is_output pre), (exit_code e, FollowCompleted))"
proof (induction pre arbitrary: b)
  case Nil
  then show ?case by (simp add: follow_event_def exits_def)
next
  case (Cons x pre)
  then show ?case by (simp add: follow_event_def exits_def)
qed

text \<open>What is printed, seen from a state with \<open>b\<close> bytes counted.\<close>

lemma sd_follow_limit:
  "limit > 0 \<Longrightarrow> b \<le> limit \<Longrightarrow> sd_follow limit b miss steps = (out, r) \<Longrightarrow>
   (b + printed_bytes out > limit \<longleftrightarrow> r = Some (0, FollowOutputLimit)) \<and>
   (out = [] \<or> b + printed_bytes (butlast out) \<le> limit)"
proof (induction steps arbitrary: b miss out r)
  case Nil
  then show ?case by simp
next
  case (Cons st steps)
  show ?case
  proof (cases st)
    case (GotEvent e)
    show ?thesis
    proof (cases "exits e")
      case True
      with Cons.prems GotEvent show ?thesis by (auto simp: follow_event_def exits_def)
    next
      case ne: False
      show ?thesis
      proof (cases "is_output e")
        case False
        with Cons.prems GotEvent ne Cons.IH[OF Cons.prems(1,2)] show ?thesis
          by (auto simp: follow_event_def exits_def split: prod.splits)
      next
        case out: True
        let ?b = "b + (int (length (ev_Message e)) + 1)"
        show ?thesis
        proof (cases "?b > limit")
          case True
          with Cons.prems GotEvent ne out show ?thesis
            by (auto simp: follow_event_def exits_def Let_def)
        next
          case False
          obtain out' r' where o: "sd_follow limit ?b miss steps = (out', r')" by force
          have "out = ev_Message e # out'" "r = r'"
            using Cons.prems GotEvent ne out False o by (auto simp: follow_event_def exits_def Let_def)
          with Cons.IH[OF Cons.prems(1) _ o] False Cons.prems(2) show ?thesis
            by (cases "out' = []") (simp_all add: add.assoc)
        qed
      qed
    qed
  next
    case (CheckUnit live now)
    have "b \<le> limit" "limit > 0" by fact+
    with Cons.prems(3) CheckUnit show ?thesis
      using Cons.IH[OF Cons.prems(1,2), of _ out r]
      by (auto split: option.splits if_splits)
  qed (use Cons.prems in \<open>auto simp: ctx_result_def split: if_splits\<close>)
qed

text \<open>No check from the first missing one on found the session live, or failed.\<close>

fun all_missing :: "follow_step list \<Rightarrow> bool" where
  "all_missing [] = True"
| "all_missing (CheckUnit live now # steps) = (live = Some False \<and> all_missing steps)"
| "all_missing (_ # steps) = all_missing steps"

definition missing_for :: "int option \<Rightarrow> follow_step list \<Rightarrow> bool" where
  "missing_for miss steps \<longleftrightarrow>
     (\<exists>t1 mid t2 after. miss = Some t1 \<and> steps = mid @ CheckUnit (Some False) t2 # after \<and>
        all_missing mid \<and> t2 - t1 \<ge> disappearanceGrace) \<or>
     (\<exists>before t1 mid t2 after.
        steps = before @ CheckUnit (Some False) t1 # mid @ CheckUnit (Some False) t2 # after \<and>
        all_missing mid \<and> t2 - t1 \<ge> disappearanceGrace)"

lemma missing_for_none:
  assumes "missing_for None steps"
  shows "missing_for miss (st # steps)"
proof -
  from assms obtain before t1 mid t2 after where
    "steps = before @ CheckUnit (Some False) t1 # mid @ CheckUnit (Some False) t2 # after"
    "all_missing mid" "t2 - t1 \<ge> disappearanceGrace" unfolding missing_for_def by blast
  moreover from this have "st # steps =
    (st # before) @ CheckUnit (Some False) t1 # mid @ CheckUnit (Some False) t2 # after" by simp
  ultimately show ?thesis unfolding missing_for_def by blast
qed

lemma missing_for_keep:
  assumes "missing_for miss steps" and "all_missing [st]"
  shows "missing_for miss (st # steps)"
proof (cases "missing_for None steps")
  case True
  then show ?thesis by (rule missing_for_none)
next
  case False
  with assms(1) obtain t1 mid t2 after where m: "miss = Some t1" "all_missing mid"
    "steps = mid @ CheckUnit (Some False) t2 # after" "t2 - t1 \<ge> disappearanceGrace"
    unfolding missing_for_def by blast
  have "all_missing (st # mid)" using assms(2) m(2) by (cases st) simp_all
  moreover have "st # steps = (st # mid) @ CheckUnit (Some False) t2 # after" using m(3) by simp
  ultimately show ?thesis using m unfolding missing_for_def by blast
qed

lemma missing_for_first:
  assumes "missing_for (Some t) steps"
  shows "missing_for None (CheckUnit (Some False) t # steps)"
proof (cases "missing_for None steps")
  case True
  then show ?thesis by (rule missing_for_none)
next
  case False
  with assms obtain mid t2 after where "all_missing mid"
    "steps = mid @ CheckUnit (Some False) t2 # after" "t2 - t \<ge> disappearanceGrace"
    unfolding missing_for_def by blast
  then show ?thesis unfolding missing_for_def by (metis append_Nil)
qed

lemma missing_for_now: "now - t \<ge> disappearanceGrace \<Longrightarrow> missing_for (Some t) (CheckUnit (Some False) now # steps)"
  unfolding missing_for_def by (metis all_missing.simps(1) append_Nil)

lemma follow_event_not_killed:
  "follow_event limit b e = (out, b', Some (c, r)) \<Longrightarrow> r \<noteq> FollowKilled"
  by (auto simp: follow_event_def Let_def split: if_splits)

lemma sd_follow_killed:
  "sd_follow limit b miss steps = (out, Some (c, FollowKilled)) \<Longrightarrow> missing_for miss steps"
proof (induction steps arbitrary: b miss out)
  case Nil
  then show ?case by simp
next
  case (Cons st steps)
  show ?case
  proof (cases st)
    case (GotEvent e)
    obtain o1 b1 r1 where f: "follow_event limit b e = (o1, b1, r1)" by (metis prod_cases3)
    have "r1 = None"
      using Cons.prems GotEvent f follow_event_not_killed[of limit b e o1 b1 c FollowKilled]
      by (cases r1) auto
    then obtain out' where "sd_follow limit b1 miss steps = (out', Some (c, FollowKilled))"
      using Cons.prems GotEvent f by (auto split: prod.splits)
    from Cons.IH[OF this] GotEvent show ?thesis by (intro missing_for_keep) simp_all
  next
    case (CheckUnit live now)
    show ?thesis
    proof (cases "live = None \<or> live = Some True")
      case True
      then have "sd_follow limit b None steps = (out, Some (c, FollowKilled))"
        using Cons.prems CheckUnit by simp
      from Cons.IH[OF this] show ?thesis by (rule missing_for_none)
    next
      case False
      then have live: "live = Some False" by auto
      show ?thesis
      proof (cases miss)
        case None
        then have "sd_follow limit b (Some now) steps = (out, Some (c, FollowKilled))"
          using Cons.prems CheckUnit live by simp
        from missing_for_first[OF Cons.IH[OF this]] None CheckUnit live show ?thesis by simp
      next
        case (Some t)
        show ?thesis
        proof (cases "now - t \<ge> disappearanceGrace")
          case True
          with Some CheckUnit live show ?thesis by (simp add: missing_for_now)
        next
          case False
          then have "sd_follow limit b miss steps = (out, Some (c, FollowKilled))"
            using Cons.prems CheckUnit live Some by simp
          from Cons.IH[OF this] CheckUnit live show ?thesis by (intro missing_for_keep) simp_all
        qed
      qed
    qed
  qed (use Cons.prems in \<open>auto simp: ctx_result_def split: if_splits\<close>)
qed

text \<open>History.\<close>

definition records_of :: "string \<Rightarrow> event_record list \<Rightarrow> event_record list" where
  "records_of sid es = filter (\<lambda>e. ev_field e FieldSession = sid) es"

lemma last_by_session_eq:
  "sid \<noteq> [] \<Longrightarrow> last_by_session es m sid =
     (if records_of sid es = [] then m sid else Some (last (records_of sid es)))"
  by (induction es arbitrary: m) (auto simp: records_of_def Let_def)

lemma last_by_session_nil: "last_by_session es m [] = m []"
  by (induction es arbitrary: m) (auto simp: Let_def)

lemma newest_first_items:
  "\<exists>items'. newest_first items = map snd items' \<and> mset items' = mset items \<and>
     sorted_wrt (\<lambda>x y. fst x \<ge> fst y) items'"
proof (intro exI conjI)
  let ?s = "sort_key (\<lambda>i. - fst i) items"
  show "newest_first items = map snd ?s" by (simp add: newest_first_def)
  show "mset ?s = mset items" by simp
  have "sorted (map (\<lambda>i. - fst i) ?s)" by simp
  then show "sorted_wrt (\<lambda>x y. fst x \<ge> fst y) ?s" by (simp add: sorted_map)
qed

lemma history_items_simple:
  assumes "set order = dom lc"
  shows "history_items fmt live lc order =
    map (\<lambda>sid. history_item fmt sid (the (lc sid))) (filter (\<lambda>sid. sid \<notin> set live) order)"
proof -
  have "\<forall>sid \<in> set order. lc sid \<noteq> None" using assms by auto
  then show ?thesis unfolding history_items_def by (induction order) (auto split: option.splits)
qed

lemma history_item_id [simp]: "hs_ID (snd (history_item fmt sid item)) = sid"
  by (simp add: history_item_def Let_def split: option.splits prod.splits)

section \<open>Properties\<close>


lemma two_states: "log_states numbered fj_entries [NewFakeJournal, sample_journal]"
  using numbered_new numbered_sample(1) by (simp add: NewFakeJournal_def)


text \<open>
  C18. The lines a process prints reach the readers of its session: of what the reader of a pipe
  emits, exactly the lines that are not blank are delivered, in order and under their descriptor,
  however the output was cut into reads.
\<close>

theorem shell_output_delivered:
  assumes "numbered f" and "complete_reads rs" and "tags FieldSession = Some sid" and "tags ''FD'' = None"
  shows "\<exists>f' evs c. write_outputs (FakeWrite now) (Process (NewProtocolReader ProtocolShell fd tags) rs) f = (Inr (), f') \<and>
    PollSessionOutput FakePoll sid [] f' = Inr (output_events
      (filter (\<lambda>e. matchesFilters e [FilterBySession sid]) (fj_entries f)) @ evs, c) \<and>
    map (\<lambda>e. (oe_FD e, oe_Text e)) evs =
      map (\<lambda>l. (if fd = 2 then 2 else 1, l)) (filter (\<lambda>l. l \<noteq> []) (lines_of (received rs)))"
proof -
  have p: "Process (NewProtocolReader ProtocolShell fd tags) rs = map (\<lambda>l. (fd, l, tags)) (lines_of (received rs))"
    using processLines_complete[OF assms(2), of "[]" "NewProtocolReader ProtocolShell fd tags"]
    by (simp add: Process_def handle_def NewProtocolReader_def go_split_single_noop newline_def)
  obtain f' rs' where w: "write_outputs (FakeWrite now) (map (\<lambda>l. (fd, l, tags)) (lines_of (received rs))) f = (Inr (), f')"
    "numbered f'" "fj_entries f' = fj_entries f @ rs'"
    "map (\<lambda>r. (ev_Message r, ev_Fields r)) rs' = map (\<lambda>l. (l, output_fields fd tags)) (lines_of (received rs))"
    using fake.write_outputs_recs[OF assms(1), where now = now and os = "map (\<lambda>l. (fd, l, tags)) (lines_of (received rs))"]
    by (auto simp: comp_def)
  have "cursor_at (fj_entries f') [FilterBySession sid] [] 0" by (simp add: cursor_at_def)
  from fake.poll_session_from[OF w(2) this] obtain c where
    "PollSessionOutput FakePoll sid [] f' = Inr (output_events
      (filter (\<lambda>e. matchesFilters e [FilterBySession sid]) (fj_entries f')), c)" by auto
  with w p fake.session_output_recs[OF assms(3,4) w(4)] show ?thesis
    by (auto simp: output_events_filter)
qed

theorem shell_output_delivered_witness:
  "\<exists>f' evs c. write_outputs (FakeWrite 1) (Process (NewProtocolReader ProtocolShell 2 [FieldSession \<mapsto> ''S''])
      [(''a'', False), (newline @ newline @ ''b'', True)]) NewFakeJournal = (Inr (), f') \<and>
    PollSessionOutput FakePoll ''S'' [] f' = Inr (evs, c) \<and> map (\<lambda>e. (oe_FD e, oe_Text e)) evs = [(2, ''a''), (2, ''b'')]"
proof -
  let ?rs = "[(''a'', False), (newline @ newline @ ''b'', True)]"
  have "go_split (''a'' @ CHR 0x0A # [] @ CHR 0x0A # ''b'') [CHR 0x0A] = [''a'', [], ''b'']"
    using go_split_single_Cons[of "CHR 0x0A" "''a''" "[] @ CHR 0x0A # ''b''"]
      go_split_single_Cons[of "CHR 0x0A" "[]" "''b''"] go_split_single_noop[of "CHR 0x0A" "''b''"] by simp
  then have l: "lines_of (received ?rs) = [''a'', [], ''b'']"
    by (simp add: lines_of_def received_def newline_def)
  have "complete_reads ?rs" by (simp add: complete_reads_def)
  from shell_output_delivered[OF numbered_new this, of "[FieldSession \<mapsto> ''S'']" "''S''" 1 2]
  show ?thesis unfolding l by (simp add: NewFakeJournal_def FieldSession_def output_events_filter)
qed

text \<open>What is recorded at the exit of a session is read as its exit, with its code.\<close>

lemma exited_record:
  assumes "ev_Fields e = exited_fields sid code command tags" and "- (2 ^ 63) \<le> code" and "code < 2 ^ 63"
  shows "exits e" and "exit_code e = code"
  using assms(1) parse_int_value_itoa[OF assms(2,3)] itoa_not_Nil[of code]
  by (simp_all add: exits_def exit_code_def ev_field_def exited_fields_def field_names)

text \<open>
  Following a session without an output limit prints its output lines before its first exited
  event and returns the code recorded there, whatever comes after. (A restart records such an event.)
\<close>

theorem follow_returns_first_exit:
  assumes "limit \<le> 0" and "\<forall>x \<in> set pre. ev_field x FieldEvent \<noteq> EventExited"
    and "ev_Fields e = exited_fields sid code command tags" and "- (2 ^ 63) \<le> code" and "code < 2 ^ 63"
  shows "FollowSession_posix True limit (pre @ e # post) deadline =
    (map ev_Message (filter is_output pre), (code, FollowCompleted))"
proof -
  note exited_record[OF assms(3-5)]
  moreover have "\<forall>x \<in> set pre. \<not> exits x" using assms(2) by (simp add: exits_def)
  ultimately show ?thesis using px_follow_exit[OF assms(1), of pre e 0 post deadline]
    by (simp add: FollowSession_posix_def)
qed

definition sample_event :: "string \<Rightarrow> fieldmap \<Rightarrow> event_record" where
  "sample_event m fs = \<lparr>ev_Cursor = ''1'', ev_Timestamp = 0, ev_Message = m, ev_Fields = fs\<rparr>"

theorem follow_returns_first_exit_witness:
  "FollowSession_posix True 0 ([sample_event ''hi'' [''FD'' \<mapsto> ''1'']] @
      sample_event ''Session exited'' (exited_fields ''S'' 3 [] Map.empty) #
      [sample_event ''Session started'' (started_fields ''S'' [] Map.empty)]) False =
    ([''hi''], (3, FollowCompleted))"
proof -
  have o: "is_output (sample_event ''hi'' [''FD'' \<mapsto> ''1''])"
    by (simp add: is_output_def sample_event_def ev_field_def)
  show ?thesis
    by (subst follow_returns_first_exit[where code = 3 and sid = "''S''" and command = "[]" and tags = Map.empty])
      (use o in \<open>simp_all add: sample_event_def ev_field_def field_names\<close>)
qed

text \<open>
  The output limit is enforced at the line that exceeds it: everything printed before the last
  line fits, and the following ends for the limit exactly when what was printed does not.
\<close>

theorem output_limit_exact:
  assumes "limit > 0" and "FollowSession_systemd limit steps = (out, r)"
  shows "(printed_bytes out > limit \<longleftrightarrow> r = Some (0, FollowOutputLimit)) \<and>
    (out \<noteq> [] \<longrightarrow> printed_bytes (butlast out) \<le> limit)"
  using sd_follow_limit[OF assms(1), of 0 None steps out r] assms
  by (auto simp: FollowSession_systemd_def)

theorem output_limit_exact_witness:
  "FollowSession_systemd 4 [GotEvent (sample_event ''hi'' [''FD'' \<mapsto> ''1'']), GotEvent (sample_event ''ho'' [''FD'' \<mapsto> ''1''])]
     = ([''hi'', ''ho''], Some (0, FollowOutputLimit)) \<and> printed_bytes [''hi'', ''ho''] > 4"
proof -
  let ?s = "[GotEvent (sample_event ''hi'' [''FD'' \<mapsto> ''1'']), GotEvent (sample_event ''ho'' [''FD'' \<mapsto> ''1''])]"
  have f: "FollowSession_systemd 4 ?s = ([''hi'', ''ho''], Some (0, FollowOutputLimit))"
    by (simp add: FollowSession_systemd_def follow_event_def sample_event_def ev_field_def is_output_def
        field_names Let_def)
  with output_limit_exact[OF _ f] show ?thesis by simp
qed

text \<open>
  A session is reported as killed only if the checks found its unit missing at two times at
  least half a second apart and at every check in between: a check that finds it, or that fails,
  starts the wait anew.
\<close>

lemma killed_only_after_grace:
  assumes "FollowSession_systemd limit steps = (out, Some (code, FollowKilled))"
  shows "\<exists>before t1 mid t2 after.
    steps = before @ CheckUnit (Some False) t1 # mid @ CheckUnit (Some False) t2 # after \<and>
    all_missing mid \<and> t2 - t1 \<ge> 500000000"
  using sd_follow_killed[of limit 0 None steps out code] assms
  by (auto simp: FollowSession_systemd_def missing_for_def disappearanceGrace_def)

lemma lifecycles_records:
  "lifecycles started exited sid = (if sid = [] \<or> records_of sid started = [] \<and> records_of sid exited = [] then None
      else Some \<lparr>lc_started = (if records_of sid started = [] then None else Some (last (records_of sid started))),
        lc_exited = (if records_of sid exited = [] then None else Some (last (records_of sid exited)))\<rparr>)"
  by (cases "sid = []") (simp_all add: lifecycles_def last_by_session_eq last_by_session_nil Let_def)

lemma history_item_status:
  assumes "sid \<in> dom (lifecycles started exited)" and "(t, h) = history_item fmt sid (the (lifecycles started exited sid))"
  shows "let s = records_of (hs_ID h) started; x = records_of (hs_ID h) exited in
      if x \<noteq> [] \<and> (s \<noteq> [] \<longrightarrow> ev_Timestamp (last s) \<le> ev_Timestamp (last x))
      then hs_Status h = ''exited'' \<and> hs_ExitCode h = recorded_code (last x) \<and> t = ev_Timestamp (last x)
      else hs_Status h = ''killed'' \<and> hs_ExitCode h = None \<and> t = ev_Timestamp (last s)"
proof -
  have "h = snd (history_item fmt sid (the (lifecycles started exited sid)))"
    "t = fst (history_item fmt sid (the (lifecycles started exited sid)))"
    using assms(2) by (metis snd_conv, metis fst_conv)
  with assms(1) lifecycles_records[of started exited sid] show ?thesis
    by (auto simp: history_item_def exit_counts_def Let_def split: if_splits)
qed


definition sample_started :: event_record where
  "sample_started = sample_event ''Session started'' (started_fields ''S'' [''ls''] Map.empty)"

definition sample_exited :: event_record where
  "sample_exited = sample_event ''Session exited'' (exited_fields ''S'' 3 [''ls''] Map.empty)"

definition sample_log :: fake_journal where
  "sample_log = \<lparr>fj_entries = [sample_started, sample_exited], fj_cursor = 2, fj_closed = False\<rparr>"

lemma sample_polls:
  "FakePoll [FilterByEvent EventStarted] [] sample_log = Inr ([sample_started], ''1'')"
  "FakePoll [FilterByEvent EventExited] [] sample_log = Inr ([sample_exited], ''1'')"
  by (simp_all add: FakePoll_def startIdx_def sample_log_def matchesFilters_def FilterByEvent_def
      sample_started_def sample_exited_def sample_event_def started_fields_def exited_fields_def field_names)

lemma sample_records:
  "records_of sid [sample_started] = (if sid = ''S'' then [sample_started] else [])"
  "records_of sid [sample_exited] = (if sid = ''S'' then [sample_exited] else [])"
  "recorded_code sample_exited = Some 3"
  using parse_int_itoa[of 3] itoa_not_Nil[of 3]
  by (auto simp: records_of_def ev_field_def sample_started_def sample_exited_def sample_event_def
      started_fields_def exited_fields_def field_names recorded_code_def)

lemma sample_dom: "dom (lifecycles [sample_started] [sample_exited]) = {''S''}"
proof -
  have "lifecycles [sample_started] [sample_exited] sid \<noteq> None \<longleftrightarrow> sid = ''S''" for sid
    by (cases "sid = []")
      (simp_all add: lifecycles_def last_by_session_eq last_by_session_nil sample_records Let_def del: last_by_session.simps)
  then show ?thesis by (auto simp: dom_def)
qed

lemma single_list: "distinct xs \<Longrightarrow> set xs = {a} \<Longrightarrow> xs = [a]"
  by (cases xs; cases "tl xs") auto


end
