(* ===== verification/SessionStats.thy ===== *)
theory SessionStats
  imports Float64 EventLog
begin

text \<open>
  \<open>internal/host/stats.go\<close>: the resource usage of a session, the totals that are recorded on its
  exited event, and how both are rendered.
\<close>

section \<open>Snapshots\<close>

record proc_stats =
  pr_PID :: int
  pr_Comm :: string
  pr_CPUPercent :: f64

record stats =
  CPUUsec :: u64
  CPUPercent :: f64
  MemCurrent :: u64
  MemPeak :: u64
  MemMax :: u64
  Swap :: u64
  SwapPeak :: u64
  OOMKills :: u64
  Procs :: int
  DiskRead :: u64
  DiskWrite :: u64
  DiskReadRate :: f64
  DiskWriteRate :: f64
  NetRx :: u64
  NetTx :: u64
  NetRxRate :: f64
  NetTxRate :: f64
  NetConns :: int
  CPUPressure :: f64
  MemPressure :: f64
  IOPressure :: f64
  Top :: "proc_stats list"

definition zeroStats :: stats where
  "zeroStats = \<lparr>CPUUsec = 0, CPUPercent = Fin 0, MemCurrent = 0, MemPeak = 0, MemMax = 0, Swap = 0,
     SwapPeak = 0, OOMKills = 0, Procs = 0, DiskRead = 0, DiskWrite = 0, DiskReadRate = Fin 0,
     DiskWriteRate = Fin 0, NetRx = 0, NetTx = 0, NetRxRate = Fin 0, NetTxRate = Fin 0, NetConns = 0,
     CPUPressure = Fin 0, MemPressure = Fin 0, IOPressure = Fin 0, Top = []\<rparr>"

section \<open>Totals on the exited event\<close>

definition u64_text :: "u64 \<Rightarrow> string" where "u64_text n = format_uint (unat n)"

definition some_total :: "string \<Rightarrow> u64 \<Rightarrow> fieldmap" where
  "some_total k n = (if n > 0 then [k \<mapsto> u64_text n] else Map.empty)"

definition ExitFields :: "stats \<Rightarrow> fieldmap" where
  "ExitFields s =
     [''SWASH_CPU_USEC'' \<mapsto> u64_text (CPUUsec s), ''SWASH_DISK_READ'' \<mapsto> u64_text (DiskRead s),
      ''SWASH_DISK_WRITE'' \<mapsto> u64_text (DiskWrite s), ''SWASH_NET_RX'' \<mapsto> u64_text (NetRx s),
      ''SWASH_NET_TX'' \<mapsto> u64_text (NetTx s)] ++
     some_total ''SWASH_MEM_PEAK'' (MemPeak s) ++
     some_total ''SWASH_SWAP_PEAK'' (SwapPeak s) ++
     some_total ''SWASH_OOM_KILLS'' (OOMKills s)"

definition get_total :: "fieldmap \<Rightarrow> string \<Rightarrow> u64" where
  "get_total fs k = of_nat (parse_uint_value 64 (case fs k of None \<Rightarrow> [] | Some v \<Rightarrow> v))"

definition StatsFromExitFields :: "fieldmap \<Rightarrow> stats" where
  "StatsFromExitFields fs = zeroStats\<lparr>
     CPUUsec := get_total fs ''SWASH_CPU_USEC'',
     MemPeak := get_total fs ''SWASH_MEM_PEAK'',
     SwapPeak := get_total fs ''SWASH_SWAP_PEAK'',
     OOMKills := get_total fs ''SWASH_OOM_KILLS'',
     DiskRead := get_total fs ''SWASH_DISK_READ'',
     DiskWrite := get_total fs ''SWASH_DISK_WRITE'',
     NetRx := get_total fs ''SWASH_NET_RX'',
     NetTx := get_total fs ''SWASH_NET_TX''\<rparr>"

section \<open>Rendering\<close>

text \<open>
  The bytes of the separators and arrows, which are not ASCII in the source.
\<close>

definition separator :: string where "separator = '' '' @ [CHR 0xC2, CHR 0xB7] @ '' ''"
definition times_sign :: string where "times_sign = [CHR 0xC3, CHR 0x97]"
definition arrow_down :: string where "arrow_down = [CHR 0xE2, CHR 0x86, CHR 0x93]"
definition arrow_up :: string where "arrow_up = [CHR 0xE2, CHR 0x86, CHR 0x91]"

text \<open>\<open>FormatBytes\<close>: the loop over the units, with \<open>v\<close> already divided once per unit tried.\<close>

fun format_units :: "rat \<Rightarrow> string \<Rightarrow> string option" where
  "format_units v [] = None"
| "format_units v (u # us) =
     (let v = v / 1024 in
      if v < 1024 \<or> us = [] then
        Some ((if v < 10 then format_fixed 1 v else format_fixed 0 v) @ [u])
      else format_units v us)"

definition FormatBytes :: "u64 \<Rightarrow> string" where
  "FormatBytes n =
     (if unat n < 1024 then format_uint (unat n) @ ''B''
      else case f64_of_nat (unat n) of
        Fin v \<Rightarrow> (case format_units v ''KMGTP'' of Some s \<Rightarrow> s | None \<Rightarrow> format_uint (unat n) @ ''B'')
      | _ \<Rightarrow> [])"

text \<open>
  Durations are in nanoseconds; \<open>Seconds\<close>, \<open>Minutes\<close> and \<open>Hours\<close> are the float sum of the whole units
  and the rest.
\<close>

definition pad2 :: "nat \<Rightarrow> string" where "pad2 n = pad_left 2 (CHR ''0'') (format_uint n)"

definition dur_float :: "int \<Rightarrow> int \<Rightarrow> f64" where
  "dur_float unit d = (case (f64_round (of_int (d div unit)), f64_round (of_int (d mod unit) / of_int unit)) of
     (Fin a, Fin b) \<Rightarrow> f64_round (a + b) | _ \<Rightarrow> NaN)"

definition f64_int :: "f64 \<Rightarrow> nat" where
  "f64_int x = (case x of Fin q \<Rightarrow> nat \<lfloor>q\<rfloor> | _ \<Rightarrow> 0)"

definition FormatDuration :: "int \<Rightarrow> string" where
  "FormatDuration d =
     (let sec = dur_float 1000000000 d; mn = dur_float 60000000000 d; hr = dur_float 3600000000000 d in
      if d < 1000000000 then itoa (if d < 0 then - (- d div 1000000) else d div 1000000) @ ''ms''
      else if d < 60000000000 then format_f64 0 sec @ ''s''
      else if d < 3600000000000 then format_uint (f64_int mn) @ ''m'' @ pad2 (f64_int sec mod 60) @ ''s''
      else format_uint (f64_int hr) @ ''h'' @ pad2 (f64_int mn mod 60) @ ''m'')"

definition rate_part :: "(f64 \<Rightarrow> u64) \<Rightarrow> f64 \<Rightarrow> string" where
  "rate_part oor rate =
     (if f64_gt rate 1024 \<or> rate = Fin 1024 then '' +'' @ FormatBytes (f64_to_u64 oor rate) @ ''/s'' else [])"

definition io_dir :: "(f64 \<Rightarrow> u64) \<Rightarrow> string \<times> u64 \<times> f64 \<Rightarrow> string list" where
  "io_dir oor d =
     (case d of (label, n, rate) \<Rightarrow>
        if n = 0 then []
        else [label @ (if length label = 1 \<and> (of_char (label ! 0) :: nat) < 128 then '' '' else []) @
              FormatBytes n @ rate_part oor rate])"

definition ioPart ::
  "(f64 \<Rightarrow> u64) \<Rightarrow> string \<Rightarrow> string \<Rightarrow> u64 \<Rightarrow> f64 \<Rightarrow> string \<Rightarrow> u64 \<Rightarrow> f64 \<Rightarrow> string" where
  "ioPart oor name inLabel inn inRate outLabel out outRate =
     (let parts = io_dir oor (inLabel, inn, inRate) @ io_dir oor (outLabel, out, outRate) in
      if parts = [] then [] else name @ '' '' @ go_join parts '' '')"

definition percent :: "string \<Rightarrow> f64 \<Rightarrow> string" where
  "percent name v = name @ '' '' @ format_f64 0 v @ ''%''"

definition f64_ge :: "f64 \<Rightarrow> rat \<Rightarrow> bool" where
  "f64_ge x c = (f64_gt x c \<or> x = Fin c)"

definition Line :: "(f64 \<Rightarrow> u64) \<Rightarrow> stats \<Rightarrow> string" where
  "Line oor s =
     (let mem = ''mem '' @ FormatBytes (MemCurrent s) @
            (if MemMax s > 0 then ''/'' @ FormatBytes (MemMax s) else []) @
            (if Swap s \<ge> 2 ^ 20 then '' +swap '' @ FormatBytes (Swap s) else []);
          d = ioPart oor ''disk'' ''r'' (DiskRead s) (DiskReadRate s) ''w'' (DiskWrite s) (DiskWriteRate s);
          n = ioPart oor ''net'' arrow_down (NetRx s) (NetRxRate s) arrow_up (NetTx s) (NetTxRate s);
          conns = '' ('' @ itoa (NetConns s) @ '' conn)'';
          top = map (\<lambda>p. percent (pr_Comm p) (pr_CPUPercent p)) (filter (\<lambda>p. f64_ge (pr_CPUPercent p) 1) (Top s));
          procs = (if Procs s = 1 then ''1 proc'' else itoa (Procs s) @ '' procs'') @
            (if top \<noteq> [] then '' ('' @ go_join top '', '' @ '')'' else []);
          stalls = map (\<lambda>(name, v). percent name v) (filter (\<lambda>(name, v). f64_ge v 5)
            [(''cpu'', CPUPressure s), (''mem'', MemPressure s), (''io'', IOPressure s)])
      in go_join ([percent ''cpu'' (CPUPercent s), mem] @
           (if OOMKills s > 0 then [''OOM-KILLED '' @ times_sign @ u64_text (OOMKills s)] else []) @
           (if d \<noteq> [] then [d] else []) @
           (if n \<noteq> [] then [n @ (if NetConns s > 0 then conns else [])]
            else if NetConns s > 0 then [''net idle'' @ conns] else []) @
           [procs] @
           (if stalls \<noteq> [] then [''stalled on '' @ go_join stalls '', ''] else [])) separator)"

text \<open>The product of the microseconds wraps around as \<open>int64\<close> does.\<close>

definition Summary :: "(f64 \<Rightarrow> u64) \<Rightarrow> stats \<Rightarrow> string" where
  "Summary oor s =
     (let d = ioPart oor ''disk'' ''r'' (DiskRead s) (Fin 0) ''w'' (DiskWrite s) (Fin 0);
          n = ioPart oor ''net'' arrow_down (NetRx s) (Fin 0) arrow_up (NetTx s) (Fin 0)
      in go_join ([''cpu '' @ FormatDuration (sint (CPUUsec s * 1000))] @
           (if MemPeak s > 0 then [''mem peak '' @ FormatBytes (MemPeak s)] else []) @
           (if SwapPeak s \<ge> 2 ^ 20 then [''swap peak '' @ FormatBytes (SwapPeak s)] else []) @
           (if OOMKills s > 0 then [''OOM-KILLED '' @ times_sign @ u64_text (OOMKills s)] else []) @
           (if d \<noteq> [] then [d] else []) @
           (if n \<noteq> [] then [n] else [])) separator)"

section \<open>Properties\<close>

lemma u64_text_value: "of_nat (parse_uint_value 64 (u64_text n)) = n"
proof -
  have "unat n < 2 ^ LENGTH(64)" by (rule unsigned_less)
  then show ?thesis by (simp add: u64_text_def parse_uint_value_format)
qed

lemma no_total: "of_nat (parse_uint_value 64 []) = (0 :: u64)"
  by (simp add: parse_uint_value_def)

text \<open>
  The totals of a session survive on its exited event, whatever its other tags: reading the
  fields of the event gives back every total, also those that are left out for being zero.
\<close>

lemma totals_roundtrip:
  assumes "dom tags \<inter> {''SWASH_MEM_PEAK'', ''SWASH_SWAP_PEAK'', ''SWASH_OOM_KILLS''} = {}"
  shows "StatsFromExitFields (exited_fields sid code command (tags ++ ExitFields s)) =
     zeroStats\<lparr>CPUUsec := CPUUsec s, MemPeak := MemPeak s, SwapPeak := SwapPeak s, OOMKills := OOMKills s,
       DiskRead := DiskRead s, DiskWrite := DiskWrite s, NetRx := NetRx s, NetTx := NetTx s\<rparr>"
proof -
  let ?fs = "exited_fields sid code command (tags ++ ExitFields s)"
  have t: "tags ''SWASH_MEM_PEAK'' = None" "tags ''SWASH_SWAP_PEAK'' = None" "tags ''SWASH_OOM_KILLS'' = None"
    using assms by auto
  have z: "x = 0" if "\<not> 0 < x" for x :: u64 using that by (simp add: word_gt_0)
  note defs = get_total_def exited_fields_def ExitFields_def some_total_def field_names u64_text_value map_add_def
    no_total t
  have "get_total ?fs ''SWASH_CPU_USEC'' = CPUUsec s" "get_total ?fs ''SWASH_DISK_READ'' = DiskRead s"
    "get_total ?fs ''SWASH_DISK_WRITE'' = DiskWrite s" "get_total ?fs ''SWASH_NET_RX'' = NetRx s"
    "get_total ?fs ''SWASH_NET_TX'' = NetTx s"
    by (simp_all add: defs)
  moreover have "get_total ?fs ''SWASH_MEM_PEAK'' = MemPeak s" "get_total ?fs ''SWASH_SWAP_PEAK'' = SwapPeak s"
    "get_total ?fs ''SWASH_OOM_KILLS'' = OOMKills s"
    by (auto simp: defs dest: z)
  ultimately show ?thesis by (simp add: StatsFromExitFields_def)
qed

lemma totals_roundtrip_witness:
  "StatsFromExitFields (exited_fields ''S'' 0 [''ls''] ([''TAG'' \<mapsto> ''x''] ++ ExitFields (zeroStats\<lparr>MemPeak := 7\<rparr>))) =
     zeroStats\<lparr>MemPeak := 7\<rparr>"
  using totals_roundtrip[of "[''TAG'' \<mapsto> ''x'']" "''S''" 0 "[''ls'']" "zeroStats\<lparr>MemPeak := 7\<rparr>"]
  by (simp add: zeroStats_def)

end
