(* ===== verification/HostLifecycle.thy ===== *)
theory HostLifecycle
  imports SessionLog SessionStats
begin

text \<open>
  \<open>internal/host/host.go\<close>: a session's host. \<open>RunTask\<close>, the two readers of the task's pipes and the
  goroutine that waits for the process are the threads of a step relation; what the process does,
  which branch a \<open>select\<close> takes and whether a write to the event log succeeds are its choices. The
  log is the in-memory one of \<open>EventLog\<close>.
\<close>

section \<open>Reading a pipe, chunk by chunk\<close>

text \<open>
  The body of the loops of \<open>processLines\<close> and \<open>processSSE\<close> for one result of \<open>Read\<close>; the buffer of
  both is kept in \<open>pr_buf\<close>.
\<close>

definition reader_chunk :: "protocol_reader \<Rightarrow> string \<times> bool \<Rightarrow> emitted list \<times> protocol_reader" where
  "reader_chunk p r =
     (case r of (b, err) \<Rightarrow>
       (case pr_protocol p of
          ProtocolShell \<Rightarrow>
            (case (if b \<noteq> [] then emit_lines (pr_buf p @ b) else ([], pr_buf p)) of
               (ls, buf) \<Rightarrow>
                 (map (handle p) ls @ (if err \<and> buf \<noteq> [] then [handle p buf] else []), p\<lparr>pr_buf := buf\<rparr>))
        | ProtocolSSE \<Rightarrow>
            (case (if b \<noteq> [] then emitSSEEvents (p\<lparr>pr_buf := pr_buf p @ b\<rparr>) else ([], p)) of
               (os, p') \<Rightarrow>
                 (os @ (if err \<and> pr_buf p' \<noteq> [] then parseSSEEvent p' (pr_buf p') else []), p'))))"

fun feed :: "protocol_reader \<Rightarrow> reads \<Rightarrow> emitted list" where
  "feed p [] = []"
| "feed p (r # rs) =
     fst (reader_chunk p r) @ (if snd r then [] else feed (snd (reader_chunk p r)) rs)"

fun after_chunks :: "protocol_reader \<Rightarrow> reads \<Rightarrow> protocol_reader" where
  "after_chunks p [] = p"
| "after_chunks p (r # rs) = after_chunks (snd (reader_chunk p r)) rs"

text \<open>A thread that reads: what it still has to hand to the output handler, and what it has read.\<close>

record reader =
  rd_p :: protocol_reader
  rd_queue :: "emitted list"
  rd_open :: bool
  rd_seen :: reads

definition new_reader :: "protocol_reader \<Rightarrow> reader" where
  "new_reader p = \<lparr>rd_p = p, rd_queue = [], rd_open = True, rd_seen = []\<rparr>"

definition rd_read :: "string \<times> bool \<Rightarrow> reader \<Rightarrow> reader" where
  "rd_read r rd =
     (case reader_chunk (rd_p rd) r of (os, p) \<Rightarrow>
        \<lparr>rd_p = p, rd_queue = os, rd_open = (\<not> snd r), rd_seen = rd_seen rd @ [r]\<rparr>)"

section \<open>State of a host\<close>

definition FieldStats :: string where "FieldStats = ''SWASH_STATS''"

datatype run_result = RunOk | StartFailed | EventError | NotifyFailed | Cancelled

text \<open>Where \<open>RunTask\<close> is.\<close>

datatype phase =
    Starting | EmitStart | Notify | Waiting | Terminating run_result | Restarting | Returned run_result

text \<open>Where the goroutine that waits for the process is; \<open>Finished\<close> is a closed \<open>doneChan\<close>.\<close>

datatype waiter = NoTask | Running | Reaped int | Announce int | Finished

record host_config =
  hc_sessionID :: string
  hc_command :: "string list"
  hc_protocol :: protocol
  hc_tags :: fieldmap
  hc_started :: fieldmap

text \<open>
  \<open>h_closed\<close>: the read ends of the pipes are closed. \<open>h_base\<close> is where the log stood when the
  current task was started and \<open>h_failed\<close> that one of its writes failed; no code reads the two.
\<close>

record host =
  h_running :: bool
  h_exitCode :: "int option"
  h_stdin :: bool
  h_restart :: bool
  h_cancelled :: bool
  h_phase :: phase
  h_waiter :: waiter
  h_rd :: "int \<Rightarrow> reader"
  h_closed :: bool
  h_eventError :: bool
  h_log :: fake_journal
  h_base :: nat
  h_failed :: bool

text \<open>\<open>NewHost\<close> merges the session into the tags.\<close>

definition NewHost :: "string \<Rightarrow> string list \<Rightarrow> protocol \<Rightarrow> fieldmap \<Rightarrow> fieldmap \<Rightarrow> host_config" where
  "NewHost sessionID command proto tags started =
     \<lparr>hc_sessionID = sessionID, hc_command = command, hc_protocol = proto,
      hc_tags = tags(FieldSession \<mapsto> sessionID), hc_started = started\<rparr>"

definition mergeFields :: "fieldmap \<Rightarrow> fieldmap \<Rightarrow> fieldmap" where
  "mergeFields base extra = base ++ extra"

definition host_init :: "fake_journal \<Rightarrow> host" where
  "host_init f0 = \<lparr>h_running = False, h_exitCode = None, h_stdin = False, h_restart = False,
     h_cancelled = False, h_phase = Starting, h_waiter = NoTask,
     h_rd = (\<lambda>_. new_reader (NewProtocolReader ProtocolShell 0 Map.empty)), h_closed = False,
     h_eventError = False, h_log = f0, h_base = 0, h_failed = False\<rparr>"

section \<open>Control methods\<close>

datatype control_error = NoProcess | NoTaskRunning | RestartInProgress

record host_status =
  st_Running :: bool
  st_ExitCode :: "int option"
  st_Command :: "string list"

definition Gist :: "host_config \<Rightarrow> host \<Rightarrow> host_status" where
  "Gist c h = \<lparr>st_Running = h_running h, st_ExitCode = h_exitCode h, st_Command = hc_command c\<rparr>"

text \<open>What the write to the open pipe returns is the parameter \<open>w\<close>.\<close>

definition SendInput :: "(string \<Rightarrow> control_error + nat) \<Rightarrow> string \<Rightarrow> host \<Rightarrow> control_error + nat" where
  "SendInput w data h = (if \<not> h_running h \<or> \<not> h_stdin h then Inl NoProcess else w data)"

text \<open>\<open>proc\<close> is set exactly while the goroutine has not taken the exit into account.\<close>

definition has_proc :: "host \<Rightarrow> bool" where
  "has_proc h = (case h_waiter h of Running \<Rightarrow> True | Reaped _ \<Rightarrow> True | _ \<Rightarrow> False)"

definition Kill :: "(unit \<Rightarrow> control_error + unit) \<Rightarrow> host \<Rightarrow> control_error + unit" where
  "Kill signal h = (if \<not> has_proc h then Inl NoProcess else signal ())"

definition Restart :: "host \<Rightarrow> (control_error + unit) \<times> host" where
  "Restart h =
     (if \<not> h_running h then (Inl NoTaskRunning, h)
      else if h_restart h then (Inl RestartInProgress, h)
      else (Inr (), h\<lparr>h_restart := True\<rparr>))"

section \<open>Steps\<close>

text \<open>A write to the log succeeds, or fails and leaves it as it is.\<close>

inductive logs :: "string \<Rightarrow> fieldmap \<Rightarrow> fake_journal \<Rightarrow> bool \<Rightarrow> fake_journal \<Rightarrow> bool" where
  logs_ok: "FakeWrite now m fs f = (Inr (), f') \<Longrightarrow> logs m fs f True f'"
| logs_fail: "logs m fs f False f"

text \<open>A write whose failure is reported on the channel of event errors.\<close>

definition logged :: "bool \<Rightarrow> fake_journal \<Rightarrow> host \<Rightarrow> host" where
  "logged ok f h = (if ok then h\<lparr>h_log := f\<rparr> else h\<lparr>h_log := f, h_eventError := True, h_failed := True\<rparr>)"

text \<open>\<open>startTaskProcess\<close> after the process was started.\<close>

definition start_task :: "host_config \<Rightarrow> host \<Rightarrow> host" where
  "start_task c h = h\<lparr>h_running := True, h_stdin := True, h_waiter := Running, h_phase := EmitStart,
     h_rd := (\<lambda>fd. new_reader (NewProtocolReader (if fd = 1 then hc_protocol c else ProtocolShell) fd (hc_tags c))),
     h_closed := False, h_eventError := False, h_base := length (fj_entries (h_log h)), h_failed := False\<rparr>"

definition set_exited :: "int \<Rightarrow> host \<Rightarrow> host" where
  "set_exited code h = h\<lparr>h_exitCode := Some code, h_running := False, h_stdin := False, h_waiter := Announce code\<rparr>"

definition readers_done :: "host \<Rightarrow> bool" where
  "readers_done h = (\<forall>fd \<in> {1, 2}. \<not> rd_open (h_rd h fd) \<and> rd_queue (h_rd h fd) = [])"

inductive host_step :: "host_config \<Rightarrow> host \<Rightarrow> host \<Rightarrow> bool" for c where
  start_failed: "h_phase h = Starting \<Longrightarrow> host_step c h (h\<lparr>h_phase := Returned StartFailed\<rparr>)"
| started: "h_phase h = Starting \<Longrightarrow> host_step c h (start_task c h)"
| emit_started: "h_phase h = EmitStart \<Longrightarrow>
    EmitStarted (\<lambda>m fs. (m, fs)) (hc_sessionID c) (hc_command c) (mergeFields (hc_tags c) (hc_started c)) = (m, fs) \<Longrightarrow>
    logs m fs (h_log h) ok f \<Longrightarrow>
    host_step c h (h\<lparr>h_log := f, h_phase := (if ok then Notify else Terminating EventError)\<rparr>)"
| notified: "h_phase h = Notify \<Longrightarrow> host_step c h (h\<lparr>h_phase := Waiting\<rparr>)"
| notify_failed: "h_phase h = Notify \<Longrightarrow> host_step c h (h\<lparr>h_phase := Terminating NotifyFailed\<rparr>)"
| read_chunk: "h_waiter h \<noteq> NoTask \<Longrightarrow> fd \<in> {1, 2} \<Longrightarrow> rd_open (h_rd h fd) \<Longrightarrow> rd_queue (h_rd h fd) = [] \<Longrightarrow>
    (h_closed h \<longrightarrow> r = ([], True)) \<Longrightarrow>
    host_step c h (h\<lparr>h_rd := (h_rd h)(fd := rd_read r (h_rd h fd))\<rparr>)"
| write_line: "h_waiter h \<noteq> NoTask \<Longrightarrow> fd \<in> {1, 2} \<Longrightarrow> rd_queue (h_rd h fd) = (n, l, fs) # q \<Longrightarrow>
    WriteOutput (\<lambda>m fs. (m, fs)) n l fs = (m, fs') \<Longrightarrow> logs m fs' (h_log h) ok f \<Longrightarrow>
    host_step c h (logged ok f (h\<lparr>h_rd := (h_rd h)(fd := (h_rd h fd)\<lparr>rd_queue := q\<rparr>)\<rparr>))"
| reaped: "h_waiter h = Running \<Longrightarrow> host_step c h (h\<lparr>h_waiter := Reaped code\<rparr>)"
| exited: "h_waiter h = Reaped code \<Longrightarrow> readers_done h \<Longrightarrow> host_step c h (set_exited code h)"
| emit_exited: "h_waiter h = Announce code \<Longrightarrow>
    EmitExited (\<lambda>m fs. (m, fs)) (hc_sessionID c) code (hc_command c) (mergeFields (hc_tags c) (ExitFields usage)) = (m, fs) \<Longrightarrow>
    logs m fs (h_log h) ok f \<Longrightarrow>
    host_step c h (logged ok f (h\<lparr>h_waiter := Finished\<rparr>))"
| task_done: "h_phase h = Waiting \<Longrightarrow> h_waiter h = Finished \<Longrightarrow>
    host_step c h (h\<lparr>h_phase := Returned (if h_eventError h then EventError else RunOk), h_eventError := False\<rparr>)"
| event_error: "h_phase h = Waiting \<Longrightarrow> h_eventError h \<Longrightarrow>
    host_step c h (h\<lparr>h_phase := Terminating EventError, h_eventError := False\<rparr>)"
| restart: "h_phase h = Waiting \<Longrightarrow> h_restart h \<Longrightarrow>
    host_step c h (h\<lparr>h_phase := Restarting, h_restart := False, h_closed := True\<rparr>)"
| cancelled: "h_phase h = Waiting \<Longrightarrow> h_cancelled h \<Longrightarrow> host_step c h (h\<lparr>h_phase := Terminating Cancelled\<rparr>)"
| grace_over: "h_phase h = Terminating r \<Longrightarrow> h_waiter h \<noteq> Finished \<Longrightarrow> host_step c h (h\<lparr>h_closed := True\<rparr>)"
| terminated: "h_phase h = Terminating r \<Longrightarrow> h_waiter h = Finished \<Longrightarrow> host_step c h (h\<lparr>h_phase := Returned r\<rparr>)"
| restarted: "h_phase h = Restarting \<Longrightarrow> h_waiter h = Finished \<Longrightarrow> host_step c h (h\<lparr>h_phase := Starting\<rparr>)"
| record_stats: "\<forall>r. h_phase h \<noteq> Returned r \<Longrightarrow>
    logs (Line oor usage) (mergeFields (hc_tags c) [FieldEvent \<mapsto> EventStats, FieldStats \<mapsto> data]) (h_log h) ok f \<Longrightarrow>
    host_step c h (h\<lparr>h_log := f\<rparr>)"
| ask_restart: "Restart h = (r, h') \<Longrightarrow> host_step c h h'"
| cancel: "host_step c h (h\<lparr>h_cancelled := True\<rparr>)"

inductive reachable :: "host_config \<Rightarrow> fake_journal \<Rightarrow> host \<Rightarrow> bool" for c f0 where
  init: "reachable c f0 (host_init f0)"
| step: "reachable c f0 h \<Longrightarrow> host_step c h h' \<Longrightarrow> reachable c f0 h'"

inductive_cases host_stepE: "host_step c h h'"
inductive_cases logsE: "logs m fs f ok f'"

section \<open>Results of a run\<close>

datatype host_error = RunError run_result | NoStatus | HostLog log_error | NotReady

definition completedTaskResult :: "run_result \<Rightarrow> host_status \<Rightarrow> host_error + int" where
  "completedTaskResult runErr status =
     (case runErr of
        Cancelled \<Rightarrow> Inr 0
      | RunOk \<Rightarrow> (case st_ExitCode status of None \<Rightarrow> Inl NoStatus | Some code \<Rightarrow> Inr code)
      | e \<Rightarrow> Inl (RunError e))"

text \<open>\<open>ready\<close>: whether notifying the service manager succeeds. \<open>emit\<close> is the log's \<open>Write\<close>.\<close>

definition failedStartResult ::
  "(string \<Rightarrow> fieldmap \<Rightarrow> (log_error, 'w, unit) eff) \<Rightarrow> bool \<Rightarrow> string \<Rightarrow> string list \<Rightarrow> fieldmap \<Rightarrow> fieldmap \<Rightarrow>
   string \<Rightarrow> (host_error, 'w, int) eff" where
  "failedStartResult emit ready sessionID command tags started startErr =
     (let fs = tags(FieldSession \<mapsto> sessionID) in
      thenE (mapErrE HostLog (EmitStarted emit sessionID command (mergeFields tags started)))
      (thenE (mapErrE HostLog (WriteOutput emit 2 (''swash: '' @ startErr) fs))
      (thenE (mapErrE HostLog (EmitExited emit sessionID 127 command tags))
      (if ready then returnE 127 else failE NotReady))))"

text \<open>
  \<open>execProcess.Wait\<close>: the code of a process that was waited for, from whether \<open>Wait\<close> failed, and
  the signal or the status it reports.
\<close>

datatype wait_status = Success | ExitStatus int | Signaled int | WaitError

definition wait_code :: "wait_status \<Rightarrow> int" where
  "wait_code w = (case w of Success \<Rightarrow> 0 | ExitStatus n \<Rightarrow> n | Signaled s \<Rightarrow> 128 + s | WaitError \<Rightarrow> 1)"

section \<open>What a reader emits\<close>

lemma handle_buf [simp]: "handle (p\<lparr>pr_buf := b\<rparr>) = handle p"
  by (simp add: handle_def fun_eq_iff)

lemma processLines_buf [simp]: "processLines (p\<lparr>pr_buf := x\<rparr>) b rs = processLines p b rs"
  by (induction p b rs rule: processLines.induct) (auto split: prod.splits)

lemma feed_shell: "pr_protocol p = ProtocolShell \<Longrightarrow> feed p rs = processLines p (pr_buf p) rs"
proof (induction rs arbitrary: p)
  case Nil
  then show ?case by simp
next
  case (Cons r rs)
  obtain b err where r: "r = (b, err)" by force
  obtain ls buf where l: "(if b \<noteq> [] then emit_lines (pr_buf p @ b) else ([], pr_buf p)) = (ls, buf)" by force
  have "feed (p\<lparr>pr_buf := buf\<rparr>) rs = processLines p buf rs"
    using Cons.IH[of "p\<lparr>pr_buf := buf\<rparr>"] Cons.prems by simp
  with l r Cons.prems show ?case by (auto simp: reader_chunk_def)
qed

lemma emitSSE_same: "emitSSEEvents p = (os, p') \<Longrightarrow> \<exists>b. p' = p\<lparr>pr_buf := b\<rparr>"
  by (auto simp: emitSSE_split)

lemma feed_sse: "pr_protocol p = ProtocolSSE \<Longrightarrow> feed p rs = processSSE p rs"
proof (induction rs arbitrary: p)
  case Nil
  then show ?case by simp
next
  case (Cons r rs)
  obtain b err where r: "r = (b, err)" by force
  obtain os p' where o: "(if b \<noteq> [] then emitSSEEvents (p\<lparr>pr_buf := pr_buf p @ b\<rparr>) else ([], p)) = (os, p')"
    by force
  then have "pr_protocol p' = ProtocolSSE"
    using Cons.prems emitSSE_same[of "p\<lparr>pr_buf := pr_buf p @ b\<rparr>" os p'] by (auto split: if_splits)
  from Cons.IH[OF this] o r Cons.prems show ?case by (auto simp: reader_chunk_def)
qed

lemma feed_Process: "pr_buf p = [] \<Longrightarrow> feed p rs = Process p rs"
  by (cases "pr_protocol p") (simp_all add: Process_def feed_shell feed_sse)

lemma feed_snoc:
  "\<forall>r \<in> set rs. \<not> snd r \<Longrightarrow> feed p (rs @ [r]) = feed p rs @ fst (reader_chunk (after_chunks p rs) r)"
  by (induction rs arbitrary: p) simp_all

lemma after_chunks_snoc: "after_chunks p (rs @ [r]) = snd (reader_chunk (after_chunks p rs) r)"
  by (induction rs arbitrary: p) simp_all

lemma parse_emitted: "x \<in> set (parseSSEEvent p e) \<Longrightarrow> fst x = pr_fd p \<and> snd (snd x) = pr_fields p"
  by (auto simp: parseSSEEvent_def handle_def Let_def split: if_splits)

lemma reader_chunk_same:
  "pr_fd (snd (reader_chunk p r)) = pr_fd p \<and> pr_fields (snd (reader_chunk p r)) = pr_fields p"
  by (cases r; cases "pr_protocol p")
    (auto simp: reader_chunk_def emitSSE_split split: prod.splits if_splits)

lemma reader_chunk_emitted:
  "x \<in> set (fst (reader_chunk p r)) \<Longrightarrow> fst x = pr_fd p \<and> snd (snd x) = pr_fields p"
  by (cases r; cases "pr_protocol p")
    (auto simp: reader_chunk_def emitSSE_split handle_def split: prod.splits if_splits dest!: parse_emitted)

lemma after_chunks_same: "pr_fd (after_chunks p rs) = pr_fd p \<and> pr_fields (after_chunks p rs) = pr_fields p"
  by (induction rs arbitrary: p) (simp_all add: reader_chunk_same)

section \<open>Kinds of records\<close>

definition starts :: "event_record \<Rightarrow> bool" where
  "starts e = (ev_field e FieldEvent = EventStarted)"

definition is_line :: "event_record \<Rightarrow> bool" where
  "is_line e = (ev_Fields e ''FD'' \<noteq> None)"

text \<open>The tags of a session do not pose as events or output.\<close>

definition config_ok :: "host_config \<Rightarrow> bool" where
  "config_ok c = (hc_tags c ''FD'' = None \<and> hc_tags c FieldEvent = None \<and> hc_started c ''FD'' = None)"

lemma logs_entries:
  "logs m fs f ok f' \<Longrightarrow>
   if ok then \<exists>r. fj_entries f' = fj_entries f @ [r] \<and> ev_Message r = m \<and> ev_Fields r = fs else f' = f"
  by (erule logsE) (auto simp: FakeWrite_def writeEntry_def Let_def split: if_splits)

lemma ExitFields_no_FD: "ExitFields s ''FD'' = None"
  by (simp add: ExitFields_def some_total_def map_add_def)

lemmas kind_defs = starts_def exits_def is_line_def ev_field_def field_names mergeFields_def
  output_fields_def started_fields_def exited_fields_def config_ok_def map_add_def

lemma kind_started:
  "config_ok c \<Longrightarrow> ev_Fields r = started_fields sid cmd (mergeFields (hc_tags c) (hc_started c)) \<Longrightarrow>
   starts r \<and> \<not> exits r \<and> \<not> is_line r"
  by (simp add: kind_defs)

lemma kind_exited:
  "config_ok c \<Longrightarrow> ev_Fields r = exited_fields sid code cmd (mergeFields (hc_tags c) (ExitFields u)) \<Longrightarrow>
   exits r \<and> \<not> starts r \<and> \<not> is_line r \<and> ev_Fields r FieldExitCode = Some (itoa code)"
  by (simp add: kind_defs ExitFields_no_FD)

lemma kind_stats:
  "config_ok c \<Longrightarrow> ev_Fields r = mergeFields (hc_tags c) [FieldEvent \<mapsto> EventStats, FieldStats \<mapsto> data] \<Longrightarrow>
   \<not> exits r \<and> \<not> starts r \<and> \<not> is_line r"
  by (simp add: kind_defs FieldStats_def)

lemma kind_output:
  "config_ok c \<Longrightarrow> ev_Fields r = output_fields fd (hc_tags c) \<Longrightarrow>
   is_line r \<and> \<not> exits r \<and> \<not> starts r"
  by (simp add: kind_defs)

section \<open>Control\<close>

lemma has_proc_iff: "has_proc h \<longleftrightarrow> h_waiter h = Running \<or> (\<exists>code. h_waiter h = Reaped code)"
  by (simp add: has_proc_def split: waiter.splits)

text \<open>The updates a step makes beside the field it is about.\<close>

lemmas update_defs = start_task_def set_exited_def logged_def Restart_def

lemma logs_length: "logs m fs f ok f' \<Longrightarrow> length (fj_entries f) \<le> length (fj_entries f')"
  using logs_entries[of m fs f ok f'] by (auto split: if_splits)

text \<open>Whether the process runs, as \<open>Gist\<close> reports it and \<open>SendInput\<close> and \<open>Kill\<close> check it.\<close>

definition inv_running :: "host \<Rightarrow> bool" where
  "inv_running h \<longleftrightarrow> h_running h = has_proc h \<and> h_stdin h = has_proc h"

lemma inv_running_step: "host_step c h h' \<Longrightarrow> inv_running h \<Longrightarrow> inv_running h'"
  by (erule host_step.cases) (auto simp: inv_running_def has_proc_iff update_defs split: if_splits)

text \<open>How \<open>RunTask\<close> and the goroutine that waits keep in step.\<close>

definition inv_phase :: "host \<Rightarrow> bool" where
  "inv_phase h \<longleftrightarrow> h_phase h \<noteq> Terminating RunOk \<and>
     (h_phase h = Starting \<longrightarrow> h_waiter h = NoTask \<or> h_waiter h = Finished) \<and>
     (h_waiter h = NoTask \<longrightarrow> h_phase h = Starting \<or> h_phase h = Returned StartFailed) \<and>
     (\<forall>r. h_phase h = Returned r \<longrightarrow> h_waiter h = Finished \<or> h_waiter h = NoTask \<and> r = StartFailed)"

lemma inv_phase_step: "host_step c h h' \<Longrightarrow> inv_phase h \<Longrightarrow> inv_phase h'"
  by (erule host_step.cases) (auto simp: inv_phase_def update_defs split: if_splits)

definition inv_base :: "host \<Rightarrow> bool" where
  "inv_base h \<longleftrightarrow> h_base h \<le> length (fj_entries (h_log h))"

lemma inv_base_step: "host_step c h h' \<Longrightarrow> inv_base h \<Longrightarrow> inv_base h'"
  by (erule host_step.cases) (auto simp: inv_base_def update_defs dest!: logs_length split: if_splits)

text \<open>The exit is announced only after both readers have ended.\<close>

definition inv_done :: "host \<Rightarrow> bool" where
  "inv_done h \<longleftrightarrow>
     (\<forall>code. h_waiter h = Announce code \<longrightarrow> readers_done h \<and> h_exitCode h = Some code) \<and>
     (h_waiter h = Finished \<longrightarrow> readers_done h \<and> h_exitCode h \<noteq> None)"

lemma inv_done_step: "host_step c h h' \<Longrightarrow> inv_done h \<Longrightarrow> inv_done h'"
  by (erule host_step.cases) (auto simp: inv_done_def readers_done_def update_defs split: if_splits)

text \<open>A failed write is on its way to the result.\<close>

definition inv_failed :: "host \<Rightarrow> bool" where
  "inv_failed h \<longleftrightarrow> (h_failed h \<longrightarrow>
     h_eventError h \<and> h_phase h \<noteq> Returned RunOk \<or> h_phase h \<in> {Terminating EventError, Returned EventError})"

lemma inv_failed_step:
  "host_step c h h' \<Longrightarrow> inv_failed h \<Longrightarrow> inv_phase h \<Longrightarrow> inv_done h \<Longrightarrow> inv_failed h'"
  by (erule host_step.cases)
    (auto simp: inv_failed_def inv_phase_def inv_done_def readers_done_def update_defs split: if_splits)

section \<open>The log of a task\<close>

definition task_log :: "host \<Rightarrow> event_record list" where
  "task_log h = drop (h_base h) (fj_entries (h_log h))"

lemma task_log_logs:
  assumes "logs m fs (h_log h) ok f" and "inv_base h"
  shows "ok \<and> (\<exists>r. drop (h_base h) (fj_entries f) = task_log h @ [r] \<and> ev_Message r = m \<and> ev_Fields r = fs) \<or>
    \<not> ok \<and> f = h_log h"
  using logs_entries[OF assms(1)] assms(2) by (auto simp: task_log_def inv_base_def split: if_splits)

lemma drop_task_log: "drop (h_base h) (fj_entries (h_log h)) = task_log h"
  by (simp add: task_log_def)

text \<open>No line follows the exit.\<close>

definition quiet :: "event_record list \<Rightarrow> bool" where
  "quiet es = (filter is_line (dropWhile (\<lambda>e. \<not> exits e) es) = [])"

lemma quiet_no_exit: "filter exits es = [] \<Longrightarrow> quiet es"
  by (auto simp: quiet_def filter_empty_conv dropWhile_eq_Nil_conv[THEN iffD2])

lemma quiet_snoc: "quiet es \<Longrightarrow> \<not> is_line x \<Longrightarrow> quiet (es @ [x])"
  unfolding quiet_def by (cases "\<forall>e \<in> set es. \<not> exits e") (auto simp: dropWhile_append1 dropWhile_append2)

definition inv_order :: "host \<Rightarrow> bool" where
  "inv_order h \<longleftrightarrow>
     (h_phase h = EmitStart \<longrightarrow> filter starts (task_log h) = []) \<and>
     (h_phase h \<in> {Notify, Waiting, Returned RunOk} \<longrightarrow> (\<exists>r. filter starts (task_log h) = [r])) \<and>
     (h_waiter h \<notin> {NoTask, Finished} \<longrightarrow> filter exits (task_log h) = []) \<and>
     (h_waiter h = Finished \<longrightarrow> quiet (task_log h) \<and>
        (h_failed h \<or> (\<exists>r code. filter exits (task_log h) = [r] \<and> h_exitCode h = Some code \<and>
           ev_Fields r FieldExitCode = Some (itoa code))))"

lemma task_log_simps [simp]:
  "task_log (h\<lparr>h_phase := p\<rparr>) = task_log h" "task_log (h\<lparr>h_waiter := w\<rparr>) = task_log h"
  "task_log (h\<lparr>h_rd := rd\<rparr>) = task_log h" "task_log (h\<lparr>h_closed := b\<rparr>) = task_log h"
  "task_log (h\<lparr>h_eventError := b\<rparr>) = task_log h" "task_log (h\<lparr>h_restart := b\<rparr>) = task_log h"
  "task_log (h\<lparr>h_cancelled := b\<rparr>) = task_log h" "task_log (h\<lparr>h_failed := b\<rparr>) = task_log h"
  "task_log (h\<lparr>h_exitCode := x\<rparr>) = task_log h" "task_log (h\<lparr>h_running := b\<rparr>) = task_log h"
  "task_log (h\<lparr>h_stdin := b\<rparr>) = task_log h" "task_log (set_exited code h) = task_log h" "task_log (start_task c h) = []"
  "task_log (h\<lparr>h_log := f\<rparr>) = drop (h_base h) (fj_entries f)"
  by (simp_all add: task_log_def set_exited_def start_task_def)

definition p0 :: "host_config \<Rightarrow> int \<Rightarrow> protocol_reader" where
  "p0 c fd = NewProtocolReader (if fd = 1 then hc_protocol c else ProtocolShell) fd (hc_tags c)"

definition logged_lines :: "host_config \<Rightarrow> int \<Rightarrow> event_record list \<Rightarrow> string list" where
  "logged_lines c fd es = map ev_Message (filter (\<lambda>e. ev_Fields e = output_fields fd (hc_tags c)) es)"

definition inv_rd :: "host_config \<Rightarrow> int \<Rightarrow> bool \<Rightarrow> event_record list \<Rightarrow> reader \<Rightarrow> bool" where
  "inv_rd c fd failed es rd \<longleftrightarrow>
     rd_p rd = after_chunks (p0 c fd) (rd_seen rd) \<and>
     (\<forall>r \<in> set (butlast (rd_seen rd)). \<not> snd r) \<and> rd_open rd = (\<forall>r \<in> set (rd_seen rd). \<not> snd r) \<and>
     (\<forall>x \<in> set (rd_queue rd). fst x = fd \<and> snd (snd x) = hc_tags c) \<and>
     (\<not> failed \<longrightarrow> logged_lines c fd es @ map (fst \<circ> snd) (rd_queue rd) =
        map (fst \<circ> snd) (feed (p0 c fd) (rd_seen rd)))"

lemma inv_rd_new: "inv_rd c fd failed [] (new_reader (p0 c fd))"
  by (simp add: inv_rd_def new_reader_def logged_lines_def)

lemma inv_rd_read:
  assumes "inv_rd c fd failed es rd" and "rd_open rd" and "rd_queue rd = []"
  shows "inv_rd c fd failed es (rd_read r rd)"
proof -
  have p: "pr_fd (p0 c fd) = fd" "pr_fields (p0 c fd) = hc_tags c"
    by (simp_all add: p0_def NewProtocolReader_def)
  have "\<forall>r \<in> set (rd_seen rd). \<not> snd r" using assms(1,2) by (simp add: inv_rd_def)
  note f = feed_snoc[OF this, of "p0 c fd" r]
  show ?thesis
    using assms f reader_chunk_emitted[of _ "rd_p rd" r] after_chunks_same[of "p0 c fd" "rd_seen rd"]
    by (auto simp: inv_rd_def rd_read_def after_chunks_snoc p split: prod.splits)
qed

lemma inv_rd_write:
  assumes "inv_rd c fd failed es rd" and "rd_queue rd = (n, l, fs) # q"
    and "ev_Message r = l" and "ev_Fields r = output_fields n fs"
  shows "inv_rd c fd failed (es @ [r]) (rd\<lparr>rd_queue := q\<rparr>)"
  using assms by (auto simp: inv_rd_def logged_lines_def)

lemma inv_rd_drop:
  "inv_rd c fd failed es rd \<Longrightarrow> rd_queue rd = x # q \<Longrightarrow> inv_rd c fd True es (rd\<lparr>rd_queue := q\<rparr>)"
  by (simp add: inv_rd_def)

lemma inv_rd_failed: "inv_rd c fd failed es rd \<Longrightarrow> inv_rd c fd True es' rd"
  by (simp add: inv_rd_def)

lemma inv_rd_other:
  "inv_rd c fd failed es rd \<Longrightarrow> ev_Fields r \<noteq> output_fields fd (hc_tags c) \<Longrightarrow> inv_rd c fd failed (es @ [r]) rd"
  by (simp add: inv_rd_def logged_lines_def)

definition inv_readers :: "host_config \<Rightarrow> host \<Rightarrow> bool" where
  "inv_readers c h \<longleftrightarrow> (h_waiter h \<noteq> NoTask \<longrightarrow>
     (\<forall>fd \<in> {1, 2}. inv_rd c fd (h_failed h) (task_log h) (h_rd h fd)))"

lemma not_output: "config_ok c \<Longrightarrow> \<not> is_line r \<Longrightarrow> ev_Fields r \<noteq> output_fields fd (hc_tags c)"
  by (auto simp: kind_defs)

lemma other_output: "config_ok c \<Longrightarrow> fd \<noteq> fd' \<Longrightarrow> output_fields fd (hc_tags c) \<noteq> output_fields fd' (hc_tags c)"
proof
  assume c: "config_ok c" "fd \<noteq> fd'" and e: "output_fields fd (hc_tags c) = output_fields fd' (hc_tags c)"
  have "output_fields n (hc_tags c) ''FD'' = Some (itoa n)" for n
    using c(1) by (simp add: output_fields_def config_ok_def map_add_def)
  with e c(2) itoa_inj[of fd fd'] show False by (metis option.inject)
qed

text \<open>A write beside the readers.\<close>

lemma inv_readers_other:
  assumes "inv_readers c h" and "inv_base h" and "logs m fs (h_log h) ok f"
    and "\<And>r. ev_Fields r = fs \<Longrightarrow> \<not> is_line r" and "config_ok c"
  shows "h_waiter h \<noteq> NoTask \<longrightarrow> (\<forall>fd \<in> {1, 2}. inv_rd c fd (h_failed h) (drop (h_base h) (fj_entries f)) (h_rd h fd))"
  using task_log_logs[OF assms(3,2)] assms(1) inv_rd_other not_output[OF assms(5)] assms(4)
  by (auto simp: inv_readers_def task_log_def)

lemma inv_readers_step:
  assumes "host_step c h h'" and "inv_readers c h" and "inv_base h" and "inv_phase h" and "config_ok c"
  shows "inv_readers c h'"
  using assms(1)
proof (cases rule: host_step.cases)
  case started
  then show ?thesis using inv_rd_new[of c 1 False] inv_rd_new[of c 2 False]
    by (simp add: inv_readers_def) (simp add: start_task_def p0_def)
next
  case (emit_started m fs ok f)
  from emit_started(3) have m: "fs = started_fields (hc_sessionID c) (hc_command c) (mergeFields (hc_tags c) (hc_started c))"
    by (simp add: EmitStarted_def)
  note o = inv_readers_other[OF assms(2,3) emit_started(4) _ assms(5)]
  show ?thesis unfolding emit_started(1) inv_readers_def
    using o kind_started[OF assms(5)] m by simp
next
  case (read_chunk fd r)
  have "inv_rd c fd (h_failed h) (task_log h) (rd_read r (h_rd h fd))"
    by (rule inv_rd_read) (use assms(2) read_chunk in \<open>auto simp: inv_readers_def\<close>)
  with read_chunk(1) assms(2) show ?thesis by (auto simp: inv_readers_def)
next
  case (write_line fd n l fs q m fs' ok f)
  have w: "m = l" "fs' = output_fields n fs" using write_line(5) by (simp_all add: WriteOutput_def)
  have inv: "inv_rd c k (h_failed h) (task_log h) (h_rd h k)" if "k \<in> {1, 2}" for k
    using assms(2) write_line(2) that by (auto simp: inv_readers_def)
  have q: "n = fd" "fs = hc_tags c" using inv[OF write_line(3)] write_line(4) by (simp_all add: inv_rd_def)
  let ?h = "h\<lparr>h_rd := (h_rd h)(fd := (h_rd h fd)\<lparr>rd_queue := q\<rparr>)\<rparr>"
  show ?thesis
  proof (cases ok)
    case True
    then obtain r where r: "drop (h_base h) (fj_entries f) = task_log h @ [r]" "ev_Message r = l"
      "ev_Fields r = output_fields n fs" using task_log_logs[OF write_line(6) assms(3)] w by blast
    have "inv_rd c k (h_failed h) (task_log h @ [r]) (((h_rd h)(fd := (h_rd h fd)\<lparr>rd_queue := q\<rparr>)) k)"
      if "k \<in> {1, 2}" for k
      using inv_rd_write[OF inv[OF write_line(3)] write_line(4) r(2,3)] inv_rd_other[OF inv[OF that]]
        other_output[OF assms(5), of fd k] r(3) q by (cases "k = fd") auto
    with True r(1) write_line(1) show ?thesis by (simp add: inv_readers_def logged_def)
  next
    case False
    have "inv_rd c k True es (((h_rd h)(fd := (h_rd h fd)\<lparr>rd_queue := q\<rparr>)) k)" if "k \<in> {1, 2}" for k es
      using inv_rd_drop[OF inv[OF write_line(3)] write_line(4)] inv_rd_failed[OF inv[OF that]] inv_rd_failed
      by (cases "k = fd") auto
    with False write_line(1) show ?thesis by (simp add: inv_readers_def logged_def)
  qed
next
  case (emit_exited code usage m fs ok f)
  from emit_exited(3) have m: "fs = exited_fields (hc_sessionID c) code (hc_command c) (mergeFields (hc_tags c) (ExitFields usage))"
    by (simp add: EmitExited_def)
  note o = inv_readers_other[OF assms(2,3) emit_exited(4) _ assms(5)]
  show ?thesis unfolding emit_exited(1) inv_readers_def
    using o kind_exited[OF assms(5)] m emit_exited(2) inv_rd_failed by (auto simp: logged_def)
next
  case (record_stats oor usage data ok f)
  note o = inv_readers_other[OF assms(2,3) record_stats(3) _ assms(5)]
  show ?thesis unfolding record_stats(1) inv_readers_def
    using o kind_stats[OF assms(5)] by simp
qed (use assms(2,4) in \<open>auto simp: inv_readers_def inv_phase_def set_exited_def Restart_def split: if_splits\<close>)

lemma inv_order_step:
  assumes "host_step c h h'" and "inv_order h" and "inv_base h" and "inv_phase h" and "inv_done h"
    and "inv_readers c h" and "config_ok c"
  shows "inv_order h'"
  using assms(1)
proof (cases rule: host_step.cases)
  case started
  then show ?thesis by (simp add: inv_order_def) (simp add: start_task_def)
next
  case (emit_started m fs ok f)
  from emit_started(3) have m: "fs = started_fields (hc_sessionID c) (hc_command c) (mergeFields (hc_tags c) (hc_started c))"
    by (simp add: EmitStarted_def)
  show ?thesis unfolding emit_started(1)
    using task_log_logs[OF emit_started(4) assms(3)] kind_started[OF assms(7)] m emit_started(2) assms(2) quiet_snoc
    by (auto simp: inv_order_def drop_task_log)
next
  case (write_line fd n l fs q m fs' ok f)
  have w: "fs' = output_fields n fs" using write_line(5) by (simp add: WriteOutput_def)
  have "inv_rd c fd (h_failed h) (task_log h) (h_rd h fd)"
    using assms(6) write_line(2,3) by (auto simp: inv_readers_def)
  then have "fs = hc_tags c" using write_line(4) by (simp add: inv_rd_def)
  moreover have "h_waiter h \<noteq> Finished" using assms(5) write_line(3,4) by (auto simp: inv_done_def readers_done_def)
  ultimately show ?thesis unfolding write_line(1)
    using task_log_logs[OF write_line(6) assms(3)] kind_output[OF assms(7)] w assms(2)
    by (auto simp: inv_order_def logged_def drop_task_log)
next
  case (exited code)
  then show ?thesis using assms(2) by (simp add: inv_order_def) (simp add: set_exited_def)
next
  case (emit_exited code usage m fs ok f)
  from emit_exited(3) have m: "fs = exited_fields (hc_sessionID c) code (hc_command c) (mergeFields (hc_tags c) (ExitFields usage))"
    by (simp add: EmitExited_def)
  have o: "filter exits (task_log h) = []" "h_exitCode h = Some code" "h_phase h \<noteq> Returned RunOk"
    using emit_exited(2) assms(2,4,5) by (auto simp: inv_order_def inv_done_def inv_phase_def)
  show ?thesis
  proof (cases ok)
    case True
    then obtain r where r: "drop (h_base h) (fj_entries f) = task_log h @ [r]" "ev_Fields r = fs"
      using task_log_logs[OF emit_exited(4) assms(3)] by blast
    note k = kind_exited[OF assms(7) r(2)[unfolded m]]
    have "quiet (task_log h @ [r])" by (rule quiet_snoc[OF quiet_no_exit[OF o(1)]]) (use k in simp)
    with True r(1) k o assms(2) emit_exited(1) show ?thesis by (simp add: inv_order_def logged_def)
  next
    case False
    then have "f = h_log h" using task_log_logs[OF emit_exited(4) assms(3)] by blast
    with False o assms(2) quiet_no_exit[OF o(1)] emit_exited(1) show ?thesis
      by (simp add: inv_order_def logged_def drop_task_log)
  qed
next
  case (record_stats oor usage data ok f)
  show ?thesis
  proof (cases ok)
    case True
    then obtain r where r: "drop (h_base h) (fj_entries f) = task_log h @ [r]"
      "ev_Fields r = mergeFields (hc_tags c) [FieldEvent \<mapsto> EventStats, FieldStats \<mapsto> data]"
      using task_log_logs[OF record_stats(3) assms(3)] by blast
    with kind_stats[OF assms(7) r(2)] record_stats(1) assms(2) quiet_snoc[of "task_log h" r]
    show ?thesis by (simp add: inv_order_def)
  next
    case False
    then have "f = h_log h" using task_log_logs[OF record_stats(3) assms(3)] by blast
    with record_stats(1) assms(2) show ?thesis by (simp add: inv_order_def drop_task_log)
  qed
next
  case start_failed
  then show ?thesis using assms(2,4) by (simp add: inv_order_def inv_phase_def)
next
  case notified
  then show ?thesis using assms(2,4) by (simp add: inv_order_def inv_phase_def)
next
  case notify_failed
  then show ?thesis using assms(2,4) by (simp add: inv_order_def inv_phase_def)
next
  case (read_chunk fd r)
  then show ?thesis using assms(2,4) by (simp add: inv_order_def inv_phase_def)
next
  case (reaped code)
  then show ?thesis using assms(2,4) by (simp add: inv_order_def inv_phase_def)
next
  case task_done
  then show ?thesis using assms(2,4) by (simp add: inv_order_def inv_phase_def)
next
  case event_error
  then show ?thesis using assms(2,4) by (simp add: inv_order_def inv_phase_def)
next
  case restart
  then show ?thesis using assms(2,4) by (simp add: inv_order_def inv_phase_def)
next
  case cancelled
  then show ?thesis using assms(2,4) by (simp add: inv_order_def inv_phase_def)
next
  case (grace_over r)
  then show ?thesis using assms(2,4) by (simp add: inv_order_def inv_phase_def)
next
  case (terminated r)
  then show ?thesis using assms(2,4) by (simp add: inv_order_def inv_phase_def)
next
  case restarted
  then show ?thesis using assms(2,4) by (simp add: inv_order_def inv_phase_def)
next
  case (ask_restart r)
  then have "h' = h \<or> h' = h\<lparr>h_restart := True\<rparr>" by (auto simp: Restart_def split: if_splits)
  then show ?thesis using assms(2) by (elim disjE) (simp_all add: inv_order_def)
next
  case cancel
  then show ?thesis using assms(2,4) by (simp add: inv_order_def inv_phase_def)
qed

section \<open>Reachable states\<close>

text \<open>Everything that holds of a host of a configuration with proper tags.\<close>

definition host_inv :: "host_config \<Rightarrow> host \<Rightarrow> bool" where
  "host_inv c h \<longleftrightarrow> inv_running h \<and> inv_phase h \<and> inv_failed h \<and> inv_base h \<and> inv_done h \<and>
     inv_readers c h \<and> inv_order h"

lemma host_inv_init: "host_inv c (host_init f0)"
  by (simp add: host_inv_def inv_running_def has_proc_iff inv_phase_def inv_failed_def inv_base_def
      inv_done_def inv_readers_def inv_order_def host_init_def)

lemma host_inv_step: "config_ok c \<Longrightarrow> host_step c h h' \<Longrightarrow> host_inv c h \<Longrightarrow> host_inv c h'"
  unfolding host_inv_def
  by (intro conjI; elim conjE)
    (rule inv_running_step inv_phase_step inv_failed_step inv_base_step inv_done_step
      inv_readers_step inv_order_step; assumption)+

lemma host_inv_reachable:
  assumes "reachable c f0 h" and "config_ok c"
  shows "host_inv c h"
  using assms(1)
  by (induction rule: reachable.induct) (simp_all add: host_inv_init host_inv_step[OF assms(2)])

section \<open>No state is a dead end\<close>

lemma drain:
  assumes "h_waiter h \<noteq> NoTask" and "fd \<in> {1, 2}"
  shows "\<exists>h'. (host_step c)\<^sup>*\<^sup>* h h' \<and> rd_queue (h_rd h' fd) = [] \<and> rd_open (h_rd h' fd) = rd_open (h_rd h fd) \<and>
    h_waiter h' = h_waiter h \<and> h_phase h' = h_phase h \<and> (\<forall>k. k \<noteq> fd \<longrightarrow> h_rd h' k = h_rd h k)"
  using assms(1)
proof (induction "rd_queue (h_rd h fd)" arbitrary: h)
  case Nil
  then show ?case by (intro exI[of _ h]) simp
next
  case (Cons x q)
  obtain n l fs where x: "x = (n, l, fs)" by (cases x)
  let ?h = "logged False (h_log h) (h\<lparr>h_rd := (h_rd h)(fd := (h_rd h fd)\<lparr>rd_queue := q\<rparr>)\<rparr>)"
  have s: "host_step c h ?h"
    using Cons.hyps(2)[symmetric] x
    by (intro write_line[OF Cons.prems assms(2) _ _ logs_fail, where n = n and l = l and fs = fs and q = q])
      (auto simp: WriteOutput_def)
  have "q = rd_queue (h_rd ?h fd)" "h_waiter ?h \<noteq> NoTask" using Cons.prems by (simp_all add: logged_def)
  from Cons.hyps(1)[OF this] obtain h' where h': "(host_step c)\<^sup>*\<^sup>* ?h h'" "rd_queue (h_rd h' fd) = []"
    "rd_open (h_rd h' fd) = rd_open (h_rd ?h fd)" "h_waiter h' = h_waiter ?h" "h_phase h' = h_phase ?h"
    "\<forall>k. k \<noteq> fd \<longrightarrow> h_rd h' k = h_rd ?h k" by blast
  show ?case
    by (rule exI[of _ h']) (use h' converse_rtranclp_into_rtranclp[of "host_step c", OF s h'(1)] in \<open>simp add: logged_def\<close>)
qed

lemma close_reader:
  assumes "h_waiter h \<noteq> NoTask" and "fd \<in> {1, 2}"
  shows "\<exists>h'. (host_step c)\<^sup>*\<^sup>* h h' \<and> rd_queue (h_rd h' fd) = [] \<and> \<not> rd_open (h_rd h' fd) \<and>
    h_waiter h' = h_waiter h \<and> h_phase h' = h_phase h \<and> (\<forall>k. k \<noteq> fd \<longrightarrow> h_rd h' k = h_rd h k)"
proof -
  obtain h1 where h1: "(host_step c)\<^sup>*\<^sup>* h h1" "rd_queue (h_rd h1 fd) = []" "h_waiter h1 = h_waiter h"
    "h_phase h1 = h_phase h" "\<forall>k. k \<noteq> fd \<longrightarrow> h_rd h1 k = h_rd h k" using drain[OF assms, of c] by blast
  show ?thesis
  proof (cases "rd_open (h_rd h1 fd)")
    case False
    with h1 show ?thesis by blast
  next
    case True
    let ?h2 = "h1\<lparr>h_rd := (h_rd h1)(fd := rd_read ([], True) (h_rd h1 fd))\<rparr>"
    have s: "host_step c h1 ?h2" using h1 True assms by (intro read_chunk) auto
    have o: "\<not> rd_open (h_rd ?h2 fd)" by (simp add: rd_read_def split: prod.splits)
    have w2: "h_waiter ?h2 \<noteq> NoTask" using h1(3) assms(1) by simp
    obtain h3 where h3: "(host_step c)\<^sup>*\<^sup>* ?h2 h3" "rd_queue (h_rd h3 fd) = []"
      "rd_open (h_rd h3 fd) = rd_open (h_rd ?h2 fd)" "h_waiter h3 = h_waiter ?h2" "h_phase h3 = h_phase ?h2"
      "\<forall>k. k \<noteq> fd \<longrightarrow> h_rd h3 k = h_rd ?h2 k" using drain[OF w2 assms(2), of c] by blast
    have "(host_step c)\<^sup>*\<^sup>* h h3"
      by (rule rtranclp_trans[OF rtranclp.rtrancl_into_rtrancl[OF h1(1) s] h3(1)])
    with h1 h3 o show ?thesis by (intro exI[of _ h3]) simp
  qed
qed

lemma finish_task:
  assumes "inv_done h" and "h_waiter h \<noteq> NoTask"
  shows "\<exists>h'. (host_step c)\<^sup>*\<^sup>* h h' \<and> h_waiter h' = Finished \<and> h_phase h' = h_phase h"
proof -
  have announce: "\<exists>h'. (host_step c)\<^sup>*\<^sup>* h h' \<and> h_waiter h' = Finished \<and> h_phase h' = h_phase h"
    if "h_waiter h = Announce code" for h :: host and code
    using emit_exited[OF that, of c zeroStats _ _ False "h_log h"] logs_fail
    by (intro exI[of _ "logged False (h_log h) (h\<lparr>h_waiter := Finished\<rparr>)"])
      (auto simp: EmitExited_def logged_def intro!: r_into_rtranclp)
  have reaped': "\<exists>h'. (host_step c)\<^sup>*\<^sup>* h h' \<and> h_waiter h' = Finished \<and> h_phase h' = h_phase h"
    if r: "h_waiter h = Reaped code" for h :: host and code
  proof -
    obtain h1 where h1: "(host_step c)\<^sup>*\<^sup>* h h1" "rd_queue (h_rd h1 1) = []" "\<not> rd_open (h_rd h1 1)"
      "h_waiter h1 = Reaped code" "h_phase h1 = h_phase h" using close_reader[of h 1 c] r by auto
    obtain h2 where h2: "(host_step c)\<^sup>*\<^sup>* h1 h2" "rd_queue (h_rd h2 2) = []" "\<not> rd_open (h_rd h2 2)"
      "h_waiter h2 = Reaped code" "h_phase h2 = h_phase h1" "h_rd h2 1 = h_rd h1 1"
      using close_reader[of h1 2 c] h1(4) by auto
    have "readers_done h2" using h1 h2 by (simp add: readers_done_def)
    from exited[OF h2(4) this, of c] have s: "host_step c h2 (set_exited code h2)" .
    obtain h3 where h3: "(host_step c)\<^sup>*\<^sup>* (set_exited code h2) h3" "h_waiter h3 = Finished"
      "h_phase h3 = h_phase (set_exited code h2)"
      using announce[of "set_exited code h2" code] by (auto simp: set_exited_def)
    have "(host_step c)\<^sup>*\<^sup>* h h3"
      by (rule rtranclp_trans[OF rtranclp.rtrancl_into_rtrancl[OF rtranclp_trans[OF h1(1) h2(1)] s] h3(1)])
    with h1(5) h2(5) h3(2,3) show ?thesis by (intro exI[of _ h3]) (simp add: set_exited_def)
  qed
  show ?thesis
  proof (cases "h_waiter h")
    case Running
    have s: "host_step c h (h\<lparr>h_waiter := Reaped 0\<rparr>)" by (rule reaped[OF Running])
    obtain h' where "(host_step c)\<^sup>*\<^sup>* (h\<lparr>h_waiter := Reaped 0\<rparr>) h'" "h_waiter h' = Finished" "h_phase h' = h_phase h"
      using reaped'[of "h\<lparr>h_waiter := Reaped 0\<rparr>" 0] by auto
    then show ?thesis using converse_rtranclp_into_rtranclp[of "host_step c", OF s] by blast
  qed (use assms announce reaped' in \<open>auto intro: exI[of _ h]\<close>)
qed

text \<open>From where \<open>RunTask\<close> is when the task has finished, it returns.\<close>

lemma return_when_finished:
  assumes "h_waiter h = Finished \<or> h_phase h = Starting \<or> (\<exists>r. h_phase h = Returned r)"
  shows "\<exists>h' r. (host_step c)\<^sup>*\<^sup>* h h' \<and> h_phase h' = Returned r"
proof -
  have t: "\<exists>h' r. (host_step c)\<^sup>*\<^sup>* h h' \<and> h_phase h' = Returned r" if "host_step c h h1" "host_step c h1 h2"
    "h_phase h2 = Returned r" for h1 h2 r
    using that by (meson converse_rtranclp_into_rtranclp r_into_rtranclp)
  have o: "\<exists>h' r. (host_step c)\<^sup>*\<^sup>* h h' \<and> h_phase h' = Returned r" if "host_step c h h1" "h_phase h1 = Returned r" for h1 r
    using that by blast
  show ?thesis
  proof (cases "h_phase h")
    case Starting
    from start_failed[OF this, of c] show ?thesis by (rule o) simp
  next
    case EmitStart
    let ?h1 = "h\<lparr>h_log := h_log h, h_phase := (if False then Notify else Terminating EventError)\<rparr>"
    have "host_step c h ?h1" by (rule emit_started[OF EmitStart _ logs_fail]) (simp add: EmitStarted_def)
    moreover have "host_step c ?h1 (?h1\<lparr>h_phase := Returned EventError\<rparr>)"
      by (rule terminated) (use assms EmitStart in auto)
    ultimately show ?thesis by (rule t) simp
  next
    case Notify
    let ?h1 = "h\<lparr>h_phase := Terminating NotifyFailed\<rparr>"
    have "host_step c h ?h1" by (rule notify_failed[OF Notify])
    moreover have "host_step c ?h1 (?h1\<lparr>h_phase := Returned NotifyFailed\<rparr>)"
      by (rule terminated) (use assms Notify in auto)
    ultimately show ?thesis by (rule t) simp
  next
    case Waiting
    show ?thesis by (rule o[OF task_done[OF Waiting]]) (use assms Waiting in auto)
  next
    case (Terminating r)
    show ?thesis by (rule o[OF terminated[OF Terminating]]) (use assms Terminating in auto)
  next
    case Restarting
    let ?h1 = "h\<lparr>h_phase := Starting\<rparr>"
    have "host_step c h ?h1" by (rule restarted[OF Restarting]) (use assms Restarting in auto)
    moreover have "host_step c ?h1 (?h1\<lparr>h_phase := Returned StartFailed\<rparr>)" by (rule start_failed) simp
    ultimately show ?thesis by (rule t) simp
  next
    case (Returned r)
    then show ?thesis by blast
  qed
qed

section \<open>Properties\<close>

lemma seen_complete:
  assumes "inv_rd c fd False es rd" and "\<not> rd_open rd" and "rd_queue rd = []"
  shows "complete_reads (rd_seen rd)" and "logged_lines c fd es = map (fst \<circ> snd) (Process (p0 c fd) (rd_seen rd))"
proof -
  have b: "\<forall>r \<in> set (butlast (rd_seen rd)). \<not> snd r" and "\<exists>r \<in> set (rd_seen rd). snd r"
    using assms by (simp_all add: inv_rd_def)
  then have n: "rd_seen rd \<noteq> []" by auto
  with \<open>\<exists>r \<in> set (rd_seen rd). snd r\<close> have "\<exists>r \<in> set (butlast (rd_seen rd) @ [last (rd_seen rd)]). snd r" by simp
  with b have "snd (last (rd_seen rd))" by (metis Un_iff empty_iff empty_set insert_iff list.simps(15) set_append)
  with b n show "complete_reads (rd_seen rd)" by (simp add: complete_reads_def list_all_iff)
  have "pr_buf (p0 c fd) = []" by (simp add: p0_def NewProtocolReader_def)
  with assms feed_Process show "logged_lines c fd es = map (fst \<circ> snd) (Process (p0 c fd) (rd_seen rd))"
    by (simp add: inv_rd_def)
qed

lemma returned_log:
  assumes "host_inv c h" and "h_phase h = Returned RunOk"
  shows "\<exists>code x. h_exitCode h = Some code \<and> filter exits (task_log h) = [x] \<and>
      ev_Fields x FieldExitCode = Some (itoa code) \<and> quiet (task_log h) \<and>
      (\<exists>s. filter starts (task_log h) = [s]) \<and>
      (\<forall>fd \<in> {1, 2}. complete_reads (rd_seen (h_rd h fd)) \<and>
        logged_lines c fd (task_log h) = map (fst \<circ> snd) (Process (p0 c fd) (rd_seen (h_rd h fd))))"
proof -
  have w: "h_waiter h = Finished" "\<not> h_failed h"
    using assms by (auto simp: host_inv_def inv_phase_def inv_failed_def)
  have o: "\<exists>s. filter starts (task_log h) = [s]" "quiet (task_log h)"
    "\<exists>x code. filter exits (task_log h) = [x] \<and> h_exitCode h = Some code \<and> ev_Fields x FieldExitCode = Some (itoa code)"
    using assms w by (auto simp: host_inv_def inv_order_def)
  have "readers_done h" using assms(1) w by (simp add: host_inv_def inv_done_def)
  then have r: "complete_reads (rd_seen (h_rd h fd)) \<and>
      logged_lines c fd (task_log h) = map (fst \<circ> snd) (Process (p0 c fd) (rd_seen (h_rd h fd)))"
    if "fd \<in> {1, 2}" for fd
    using assms(1) w that seen_complete[of c fd "task_log h" "h_rd h fd"]
    by (auto simp: host_inv_def inv_readers_def readers_done_def)
  from o r show ?thesis by blast
qed

text \<open>
  C24. When \<open>RunTask\<close> returns without an error, the log of its last task is complete: one started
  event, every line of both pipes as their protocols cut them, one exited event with the code
  that \<open>Gist\<close> reports, and no line after that event.
\<close>

theorem clean_run_recorded:
  assumes "reachable c f0 h" and "config_ok c" and "h_phase h = Returned RunOk"
  shows "\<exists>code x. h_exitCode h = Some code \<and> filter exits (task_log h) = [x] \<and>
      ev_Fields x FieldExitCode = Some (itoa code) \<and> quiet (task_log h) \<and>
      (\<exists>s. filter starts (task_log h) = [s]) \<and>
      (\<forall>fd \<in> {1, 2}. complete_reads (rd_seen (h_rd h fd)) \<and>
        logged_lines c fd (task_log h) = map (fst \<circ> snd) (Process (p0 c fd) (rd_seen (h_rd h fd))))"
  by (rule returned_log[OF host_inv_reachable[OF assms(1,2)] assms(3)])

text \<open>A run of steps with a concrete host: a task that prints nothing and ends at once.\<close>

definition quick_config :: host_config where
  "quick_config = NewHost ''S'' [''true''] ProtocolShell Map.empty Map.empty"

lemma quick_config_ok: "config_ok quick_config"
  by (simp add: quick_config_def NewHost_def config_ok_def field_names)

definition quick_exited :: event_record where
  "quick_exited = \<lparr>ev_Cursor = ''1'', ev_Timestamp = 1, ev_Message = ''Session exited'',
     ev_Fields = exited_fields ''S'' 0 [''true''] (hc_tags quick_config ++ ExitFields zeroStats)\<rparr>"

definition quick_started :: event_record where
  "quick_started = \<lparr>ev_Cursor = ''2'', ev_Timestamp = 2, ev_Message = ''Session started'',
     ev_Fields = started_fields ''S'' [''true''] (hc_tags quick_config)\<rparr>"

definition quick_log :: fake_journal where
  "quick_log = \<lparr>fj_entries = [quick_exited, quick_started], fj_cursor = 2, fj_closed = False\<rparr>"

lemma itoa_12: "itoa 1 = ''1''" "itoa 2 = ''2''"
  by (simp_all add: itoa_def format_uint_def itoa_base.simps digit_char_def) code_simp+

lemma read_end: "reader_chunk (p0 quick_config fd) ([], True) = ([], p0 quick_config fd)"
  by (simp add: reader_chunk_def p0_def NewProtocolReader_def quick_config_def NewHost_def)

text \<open>The goroutine that waits reaches its write before \<open>RunTask\<close> does.\<close>

lemma quick_run:
  "\<exists>h. reachable quick_config NewFakeJournal h \<and> h_phase h = Returned RunOk \<and> h_exitCode h = Some 0 \<and>
     h_log h = quick_log \<and> h_base h = 0"
proof -
  let ?c = quick_config
  let ?h1 = "start_task ?c (host_init NewFakeJournal)"
  let ?h2 = "?h1\<lparr>h_rd := (h_rd ?h1)(1 := rd_read ([], True) (h_rd ?h1 1))\<rparr>"
  let ?h3 = "?h2\<lparr>h_rd := (h_rd ?h2)(2 := rd_read ([], True) (h_rd ?h2 2))\<rparr>"
  let ?h4 = "?h3\<lparr>h_waiter := Reaped 0\<rparr>"
  let ?h5 = "set_exited 0 ?h4"
  let ?f6 = "\<lparr>fj_entries = [quick_exited], fj_cursor = 1, fj_closed = False\<rparr>"
  let ?h6 = "logged True ?f6 (?h5\<lparr>h_waiter := Finished\<rparr>)"
  let ?h7 = "?h6\<lparr>h_log := quick_log, h_phase := (if True then Notify else Terminating EventError)\<rparr>"
  let ?h8 = "?h7\<lparr>h_phase := Waiting\<rparr>"
  let ?h9 = "?h8\<lparr>h_phase := Returned (if h_eventError ?h8 then EventError else RunOk), h_eventError := False\<rparr>"
  have rd: "h_rd ?h1 fd = new_reader (p0 ?c fd)" for fd by (simp add: start_task_def p0_def)
  have rr: "rd_read ([], True) (new_reader (p0 ?c fd)) = \<lparr>rd_p = p0 ?c fd, rd_queue = [], rd_open = False, rd_seen = [([], True)]\<rparr>" for fd
    by (simp add: rd_read_def new_reader_def read_end)
  note r0 = reachable.init[of ?c NewFakeJournal]
  note r1 = reachable.step[OF r0 started]
  have r1: "reachable ?c NewFakeJournal ?h1" by (rule r1) (simp add: host_init_def)
  have r2: "reachable ?c NewFakeJournal ?h2"
    by (rule reachable.step[OF r1 read_chunk]) (simp_all add: rd new_reader_def, simp_all add: start_task_def)
  have r3: "reachable ?c NewFakeJournal ?h3"
    by (rule reachable.step[OF r2 read_chunk]) (simp_all add: rd new_reader_def, simp_all add: start_task_def)
  have r4: "reachable ?c NewFakeJournal ?h4"
    by (rule reachable.step[OF r3 reaped]) (simp add: start_task_def)
  have r5: "reachable ?c NewFakeJournal ?h5"
    by (rule reachable.step[OF r4 exited]) (simp_all add: readers_done_def rd rr)
  have w6: "FakeWrite 1 ''Session exited'' (ev_Fields quick_exited) NewFakeJournal = (Inr (), ?f6)"
    by (simp add: FakeWrite_def writeEntry_def NewFakeJournal_def quick_exited_def itoa_12)
  have l6: "logs ''Session exited'' (ev_Fields quick_exited) (h_log ?h5) True ?f6"
    using logs_ok[OF w6] by (simp add: set_exited_def start_task_def host_init_def)
  have r6: "reachable ?c NewFakeJournal ?h6"
    by (rule reachable.step[OF r5 emit_exited[OF _ _ l6, of 0 ?c zeroStats]])
      (simp_all add: set_exited_def EmitExited_def quick_exited_def mergeFields_def, simp add: quick_config_def NewHost_def)
  have w7: "FakeWrite 2 ''Session started'' (ev_Fields quick_started) ?f6 = (Inr (), quick_log)"
    by (simp add: FakeWrite_def writeEntry_def quick_started_def quick_log_def itoa_12)
  have l7: "logs ''Session started'' (ev_Fields quick_started) (h_log ?h6) True quick_log"
    using logs_ok[OF w7] by (simp add: logged_def)
  have p6: "h_phase ?h6 = EmitStart" by (simp add: logged_def set_exited_def start_task_def)
  have r7: "reachable ?c NewFakeJournal ?h7"
    by (rule reachable.step[OF r6 emit_started[OF p6 _ l7]])
      (simp add: EmitStarted_def quick_started_def mergeFields_def, simp add: quick_config_def NewHost_def)
  have r8: "reachable ?c NewFakeJournal ?h8" by (rule reachable.step[OF r7 notified]) simp
  have r9: "reachable ?c NewFakeJournal ?h9" by (rule reachable.step[OF r8 task_done]) (simp_all add: logged_def)
  show ?thesis
    by (rule exI[of _ ?h9], intro conjI, rule r9)
      (simp_all add: logged_def set_exited_def start_task_def host_init_def NewFakeJournal_def)
qed

theorem clean_run_recorded_witness:
  "\<exists>h. reachable quick_config NewFakeJournal h \<and> h_phase h = Returned RunOk \<and>
    (\<exists>x. filter exits (task_log h) = [x] \<and> ev_Fields x FieldExitCode = Some (itoa 0)) \<and>
    logged_lines quick_config 1 (task_log h) = map (fst \<circ> snd) (Process (p0 quick_config 1) (rd_seen (h_rd h 1)))"
proof -
  obtain h where h: "reachable quick_config NewFakeJournal h" "h_phase h = Returned RunOk" "h_exitCode h = Some 0"
    using quick_run by blast
  from clean_run_recorded[OF h(1) quick_config_ok h(2)] h(3) have
    "\<exists>x. filter exits (task_log h) = [x] \<and> ev_Fields x FieldExitCode = Some (itoa 0)"
    "logged_lines quick_config 1 (task_log h) = map (fst \<circ> snd) (Process (p0 quick_config 1) (rd_seen (h_rd h 1)))"
    by auto
  with h(1,2) show ?thesis by blast
qed



text \<open>
  C26. A task that ends before \<open>RunTask\<close> has emitted its started event can leave its exited event
  first in the log; the history then reports a session that ran to the end with code 0 as killed.
\<close>

theorem fast_exit_listed_killed:
  "\<exists>h hs. reachable quick_config NewFakeJournal h \<and> h_phase h = Returned RunOk \<and> h_exitCode h = Some 0 \<and>
    ListHistory_systemd FakePoll fmt [''S''] (h_log h) (Inr [] :: unit + string list) (h_log h) = Inr [hs] \<and>
    hs_ID hs = ''S'' \<and> hs_Status hs = ''killed'' \<and> hs_ExitCode hs = None"
proof -
  obtain h where h: "reachable quick_config NewFakeJournal h" "h_phase h = Returned RunOk" "h_exitCode h = Some 0"
    "h_log h = quick_log" using quick_run by blast
  have k: "starts quick_started" "\<not> exits quick_started" "exits quick_exited" "\<not> starts quick_exited"
    "ev_field quick_started FieldSession = ''S''" "ev_field quick_exited FieldSession = ''S''"
    by (simp_all add: quick_started_def quick_exited_def kind_defs)
  have m: "matchesFilters e [FilterByEvent EventStarted] = starts e" "matchesFilters e [FilterByEvent EventExited] = exits e" for e
    by (auto simp: matchesFilters_def FilterByEvent_def starts_def exits_def ev_field_def field_names split: option.splits)
  have p: "FakePoll [FilterByEvent EventStarted] [] quick_log = Inr ([quick_started], ''2'')"
    "FakePoll [FilterByEvent EventExited] [] quick_log = Inr ([quick_exited], ''1'')"
    by (simp_all add: FakePoll_def startIdx_def quick_log_def m k) (simp_all add: quick_started_def quick_exited_def)
  have lc: "lifecycles [quick_started] [quick_exited] ''S'' =
      Some \<lparr>lc_started = Some quick_started, lc_exited = Some quick_exited\<rparr>"
    by (simp add: lifecycles_def k Let_def)
  let ?hs = "snd (history_item fmt ''S'' \<lparr>lc_started = Some quick_started, lc_exited = Some quick_exited\<rparr>)"
  have "ListHistory_systemd FakePoll fmt [''S''] quick_log (Inr [] :: unit + string list) quick_log = Inr [?hs]"
    by (simp add: ListHistory_systemd_def p history_items_def lc newest_first_def del: last_by_session.simps)
  moreover have "hs_Status ?hs = ''killed'' \<and> hs_ExitCode ?hs = None"
    by (simp add: history_item_def exit_counts_def quick_started_def quick_exited_def Let_def)
  ultimately show ?thesis using h by (intro exI[of _ h] exI[of _ ?hs]) simp
qed

text \<open>
  C27. A command that cannot be started is recorded as a session all the same: with a started event,
  an error line on descriptor 2 and an exit with code 127, in this order.
\<close>

theorem failed_start_recorded:
  assumes "numbered f"
  shows "\<exists>f' s l x. failedStartResult (FakeWrite now) ready sid command tags started err f =
      (if ready then Inr 127 else Inl NotReady, f') \<and>
    fj_entries f' = fj_entries f @ [s, l, x] \<and> starts s \<and> ev_field s FieldSession = sid \<and>
    ev_Message l = ''swash: '' @ err \<and> ev_field l FieldSession = sid \<and>
    (tags ''FD'' = None \<longrightarrow> is_output l \<and> oe_FD (output_of l) = 2) \<and>
    exits x \<and> ev_field x FieldSession = sid \<and> recorded_code x = Some 127"
proof -
  let ?fs = "tags(FieldSession \<mapsto> sid)"
  obtain f1 s where s: "FakeWrite now ''Session started'' (started_fields sid command (mergeFields tags started)) f = (Inr (), f1)"
    "numbered f1" "fj_entries f1 = fj_entries f @ [s]" "ev_Fields s = started_fields sid command (mergeFields tags started)"
    using fake_write[OF assms] by metis
  obtain f2 l where l: "FakeWrite now (''swash: '' @ err) (output_fields 2 ?fs) f1 = (Inr (), f2)"
    "numbered f2" "fj_entries f2 = fj_entries f1 @ [l]" "ev_Message l = ''swash: '' @ err" "ev_Fields l = output_fields 2 ?fs"
    using fake_write[OF s(2)] by metis
  obtain f3 x where x: "FakeWrite now ''Session exited'' (exited_fields sid 127 command tags) f2 = (Inr (), f3)"
    "fj_entries f3 = fj_entries f2 @ [x]" "ev_Fields x = exited_fields sid 127 command tags"
    using fake_write[OF l(2)] by metis
  have r: "failedStartResult (FakeWrite now) ready sid command tags started err f =
      (if ready then Inr 127 else Inl NotReady, f3)"
    using s(1) l(1) x(1) by (simp add: failedStartResult_def EmitStarted_def WriteOutput_def EmitExited_def
        thenE_Inr mapErrE_Inr Let_def)
  have "starts s" "ev_field s FieldSession = sid" using s(4) by (simp_all add: kind_defs)
  moreover have "exits x" "ev_field x FieldSession = sid" "recorded_code x = Some 127"
    using x(3) parse_int_itoa[of 127] itoa_not_Nil[of 127]
    by (simp_all add: kind_defs recorded_code_def Let_def)
  moreover have "ev_field l FieldSession = sid" "tags ''FD'' = None \<longrightarrow> is_output l \<and> oe_FD (output_of l) = 2"
    using l(4,5) by (simp_all add: kind_defs is_output_def output_of_def itoa_12)
  ultimately show ?thesis using r s(3) l(3,4) x(2)
    by (intro exI[of _ f3] exI[of _ s] exI[of _ l] exI[of _ x]) simp
qed

theorem failed_start_recorded_witness:
  "\<exists>f' s l x. failedStartResult (FakeWrite 1) True ''S'' [''nope''] Map.empty Map.empty ''not found'' NewFakeJournal = (Inr 127, f') \<and>
    fj_entries f' = [s, l, x] \<and> is_output l \<and> recorded_code x = Some 127"
  using failed_start_recorded[OF numbered_new, of 1 True "''S''" "[''nope'']" Map.empty Map.empty "''not found''"]
  by (auto simp: NewFakeJournal_def)

end
