(* ===== verification/Terminal.thy ===== *)
theory Terminal
  imports GoStrings
begin

unbundle bit_operations_syntax

text \<open>
  Screen cells and their rendering (\<open>vterm/wasm.go\<close>): the cells read out of the memory of
  the terminal emulator, the escape sequences that select the rendition of a cell, the encoding
  of runes, and the loop over the cells of a row, which the row renderer and the callback for
  scrolled-off lines share. Against it stands a reference display: what a terminal that starts
  in the default rendition shows when it is sent those bytes.

  A \<open>rune\<close> is an \<open>int32\<close>; it is an \<open>int\<close> here, within the range of \<open>int32\<close> where it comes
  out of the memory. The memory is the sequence of its bytes, read as the WebAssembly
  specification has it: a read past its end yields nothing, and the source then uses zero.
\<close>

section \<open>Cells\<close>

type_synonym rune = int

datatype color_type = ColorRGB | ColorIndexed

record color =
  co_Type :: color_type
  co_R :: u8
  co_G :: u8
  co_B :: u8
  co_Index :: u8
  co_DefaultFg :: bool
  co_DefaultBg :: bool

record cell_attrs =
  at_Bold :: bool
  at_Underline :: nat
  at_Italic :: bool
  at_Blink :: bool
  at_Reverse :: bool
  at_Conceal :: bool
  at_Strike :: bool

record cell =
  ce_Chars :: "rune list"
  ce_Width :: int
  ce_Attrs :: cell_attrs
  ce_Fg :: color
  ce_Bg :: color

definition no_color :: color where
  "no_color = \<lparr>co_Type = ColorRGB, co_R = 0, co_G = 0, co_B = 0, co_Index = 0,
     co_DefaultFg = False, co_DefaultBg = False\<rparr>"

definition no_attrs :: cell_attrs where
  "no_attrs = \<lparr>at_Bold = False, at_Underline = 0, at_Italic = False, at_Blink = False,
     at_Reverse = False, at_Conceal = False, at_Strike = False\<rparr>"

definition no_cell :: cell where
  "no_cell = \<lparr>ce_Chars = [], ce_Width = 0, ce_Attrs = no_attrs, ce_Fg = no_color, ce_Bg = no_color\<rparr>"

section \<open>Reading cells\<close>

text \<open>Where the fields of a cell lie, as the emulator reports it when it is loaded.\<close>

record cell_layout =
  la_size :: u32
  la_charsOff :: u32
  la_widthOff :: u32
  la_attrsOff :: u32
  la_fgOff :: u32
  la_bgOff :: u32
  la_colorTypeMask :: u8
  la_colorIndexed :: u8
  la_colorDefaultFg :: u8
  la_colorDefaultBg :: u8

type_synonym memory = string

definition mem_read :: "memory \<Rightarrow> u32 \<Rightarrow> nat \<Rightarrow> string option" where
  "mem_read mem p n = (if unat p + n \<le> length mem then Some (slice (unat p) n mem) else None)"

definition ReadByte :: "memory \<Rightarrow> u32 \<Rightarrow> u8" where
  "ReadByte mem p = (case mem_read mem p 1 of None \<Rightarrow> 0 | Some b \<Rightarrow> of_nat (le_dec b))"

definition ReadUint16Le :: "memory \<Rightarrow> u32 \<Rightarrow> u16" where
  "ReadUint16Le mem p = (case mem_read mem p 2 of None \<Rightarrow> 0 | Some b \<Rightarrow> of_nat (le_dec b))"

definition ReadUint32Le :: "memory \<Rightarrow> u32 \<Rightarrow> u32" where
  "ReadUint32Le mem p = (case mem_read mem p 4 of None \<Rightarrow> 0 | Some b \<Rightarrow> get32 b)"

definition colorFromMemory :: "cell_layout \<Rightarrow> memory \<Rightarrow> u32 \<Rightarrow> color" where
  "colorFromMemory la mem ptr =
     (let colorType = ReadByte mem ptr; byte1 = ReadByte mem (ptr + 1);
          byte2 = ReadByte mem (ptr + 2); byte3 = ReadByte mem (ptr + 3);
          col = no_color\<lparr>co_DefaultFg := colorType AND la_colorDefaultFg la \<noteq> 0,
                         co_DefaultBg := colorType AND la_colorDefaultBg la \<noteq> 0\<rparr>
      in if colorType AND la_colorTypeMask la = la_colorIndexed la
         then col\<lparr>co_Type := ColorIndexed, co_Index := byte1\<rparr>
         else col\<lparr>co_Type := ColorRGB, co_R := byte1, co_G := byte2, co_B := byte3\<rparr>)"

text \<open>The loop over the six code points of a cell: \<open>n\<close> of them are left, the next at \<open>p\<close>.\<close>

fun read_chars :: "memory \<Rightarrow> u32 \<Rightarrow> nat \<Rightarrow> rune list" where
  "read_chars mem p 0 = []"
| "read_chars mem p (Suc n) =
     (let charVal = ReadUint32Le mem p in
      if charVal = 0 then []
      else if charVal \<noteq> 0xFFFFFFFF then sint charVal # read_chars mem (p + 4) n
      else read_chars mem (p + 4) n)"

definition attrs_of :: "u16 \<Rightarrow> cell_attrs" where
  "attrs_of v =
     \<lparr>at_Bold = v AND 0x01 \<noteq> 0, at_Underline = unat (drop_bit 1 v AND 0x3),
      at_Italic = v AND 0x08 \<noteq> 0, at_Blink = v AND 0x10 \<noteq> 0,
      at_Reverse = v AND 0x20 \<noteq> 0, at_Conceal = v AND 0x40 \<noteq> 0,
      at_Strike = v AND 0x80 \<noteq> 0\<rparr>"

definition cellFromMemory :: "cell_layout \<Rightarrow> memory \<Rightarrow> u32 \<Rightarrow> cell" where
  "cellFromMemory la mem ptr =
     \<lparr>ce_Chars = read_chars mem (ptr + la_charsOff la) 6,
      ce_Width = sint (ReadByte mem (ptr + la_widthOff la)),
      ce_Attrs = attrs_of (ReadUint16Le mem (ptr + la_attrsOff la)),
      ce_Fg = colorFromMemory la mem (ptr + la_fgOff la),
      ce_Bg = colorFromMemory la mem (ptr + la_bgOff la)\<rparr>"

section \<open>Rendering\<close>

definition go_byte :: "int \<Rightarrow> byte" where
  "go_byte i = char_of i"

definition runeToUTF8 :: "rune \<Rightarrow> string" where
  "runeToUTF8 r =
     (if r < 0x80 then [go_byte r]
      else if r < 0x800 then [go_byte (0xC0 OR drop_bit 6 r), go_byte (0x80 OR (r AND 0x3F))]
      else if r < 0x10000 then
        [go_byte (0xE0 OR drop_bit 12 r), go_byte (0x80 OR (drop_bit 6 r AND 0x3F)),
         go_byte (0x80 OR (r AND 0x3F))]
      else
        [go_byte (0xF0 OR drop_bit 18 r), go_byte (0x80 OR (drop_bit 12 r AND 0x3F)),
         go_byte (0x80 OR (drop_bit 6 r AND 0x3F)), go_byte (0x80 OR (r AND 0x3F))])"

definition has_attrs :: "cell \<Rightarrow> bool" where
  "has_attrs c = (at_Bold (ce_Attrs c) \<or> at_Italic (ce_Attrs c) \<or> at_Underline (ce_Attrs c) > 0 \<or>
     at_Reverse (ce_Attrs c) \<or> at_Strike (ce_Attrs c) \<or>
     \<not> co_DefaultFg (ce_Fg c) \<or> \<not> co_DefaultBg (ce_Bg c))"

definition need_reset :: "cell \<Rightarrow> cell_attrs \<Rightarrow> color \<Rightarrow> color \<Rightarrow> bool \<Rightarrow> bool" where
  "need_reset c lastAttrs lastFg lastBg is_first =
     (\<not> is_first \<and>
      (at_Bold lastAttrs \<and> \<not> at_Bold (ce_Attrs c) \<or>
       at_Italic lastAttrs \<and> \<not> at_Italic (ce_Attrs c) \<or>
       at_Underline lastAttrs > 0 \<and> at_Underline (ce_Attrs c) = 0 \<or>
       at_Reverse lastAttrs \<and> \<not> at_Reverse (ce_Attrs c) \<or>
       \<not> co_DefaultFg lastFg \<and> co_DefaultFg (ce_Fg c) \<or>
       \<not> co_DefaultBg lastBg \<and> co_DefaultBg (ce_Bg c)))"

text \<open>The codes of a color; \<open>base\<close> is 30 for the foreground and 40 for the background.\<close>

definition color_codes :: "nat \<Rightarrow> color \<Rightarrow> nat list" where
  "color_codes base c =
     (if co_Type c = ColorIndexed then
        (if co_Index c < 8 then [base + unat (co_Index c)]
         else if co_Index c < 16 then [base + 60 + unat (co_Index c) - 8]
         else [base + 8, 5, unat (co_Index c)])
      else [base + 8, 2, unat (co_R c), unat (co_G c), unat (co_B c)])"

definition cell_codes :: "cell \<Rightarrow> cell_attrs \<Rightarrow> color \<Rightarrow> color \<Rightarrow> bool \<Rightarrow> nat list" where
  "cell_codes c lastAttrs lastFg lastBg is_first =
     (if need_reset c lastAttrs lastFg lastBg is_first \<or> is_first \<and> has_attrs c then [0] else []) @
     (if at_Bold (ce_Attrs c) then [1] else []) @
     (if at_Italic (ce_Attrs c) then [3] else []) @
     (if at_Underline (ce_Attrs c) = 1 then [4] else []) @
     (if at_Reverse (ce_Attrs c) then [7] else []) @
     (if at_Strike (ce_Attrs c) then [9] else []) @
     (if \<not> co_DefaultFg (ce_Fg c) then color_codes 30 (ce_Fg c) else []) @
     (if \<not> co_DefaultBg (ce_Bg c) then color_codes 40 (ce_Bg c) else [])"

definition ESC :: byte where "ESC = CHR 0x1B"

definition ansiForCell :: "cell \<Rightarrow> cell_attrs \<Rightarrow> color \<Rightarrow> color \<Rightarrow> bool \<Rightarrow> string" where
  "ansiForCell c lastAttrs lastFg lastBg is_first =
     (let codes = cell_codes c lastAttrs lastFg lastBg is_first in
      if codes = [] then [] else ESC # ''['' @ go_join (map format_uint codes) '';'' @ ''m'')"

text \<open>The locals of the loop over the cells of a row.\<close>

record row_state =
  rs_result :: string
  rs_lastAttrs :: cell_attrs
  rs_lastFg :: color
  rs_lastBg :: color
  rs_firstCell :: bool
  rs_emittedANSI :: bool

definition row_start :: row_state where
  "row_start = \<lparr>rs_result = [], rs_lastAttrs = no_attrs, rs_lastFg = no_color, rs_lastBg = no_color,
     rs_firstCell = True, rs_emittedANSI = False\<rparr>"

text \<open>The attributes of a cell, when they differ from those of the cell before.\<close>

definition emit_attrs :: "cell \<Rightarrow> row_state \<Rightarrow> row_state" where
  "emit_attrs c s =
     (if rs_firstCell s \<or> ce_Attrs c \<noteq> rs_lastAttrs s \<or> ce_Fg c \<noteq> rs_lastFg s \<or> ce_Bg c \<noteq> rs_lastBg s then
        let ansi = ansiForCell c (rs_lastAttrs s) (rs_lastFg s) (rs_lastBg s) (rs_firstCell s);
            s = (if ansi \<noteq> [] then s\<lparr>rs_result := rs_result s @ ansi, rs_emittedANSI := True\<rparr> else s)
        in s\<lparr>rs_lastAttrs := ce_Attrs c, rs_lastFg := ce_Fg c, rs_lastBg := ce_Bg c, rs_firstCell := False\<rparr>
      else s)"

definition cell_text :: "cell \<Rightarrow> string" where
  "cell_text c = (if ce_Chars c \<noteq> [] then concat (map runeToUTF8 (ce_Chars c)) else '' '')"

definition render_cell :: "cell \<Rightarrow> row_state \<Rightarrow> row_state" where
  "render_cell c s =
     (if ce_Chars c = [- 1] then s
      else let s = emit_attrs c s in s\<lparr>rs_result := rs_result s @ cell_text c\<rparr>)"

definition render_end :: "row_state \<Rightarrow> string" where
  "render_end s = (if rs_emittedANSI s then rs_result s @ ESC # ''[0m'' else rs_result s)"

definition render_cells :: "cell list \<Rightarrow> string" where
  "render_cells cs = render_end (fold render_cell cs row_start)"

section \<open>The reference display\<close>

text \<open>
  What a terminal shows: runes, each in the rendition that was selected when it arrived. The
  rendition keeps the attributes the renderer can select; the select-graphic-rendition sequence
  sets them as ECMA-48 and the common extensions for colors have it.
\<close>

datatype pen_color = PenDefault | PenIndexed nat | PenRGB nat nat nat

record pen =
  pn_bold :: bool
  pn_italic :: bool
  pn_underline :: bool
  pn_reverse :: bool
  pn_strike :: bool
  pn_fg :: pen_color
  pn_bg :: pen_color

definition default_pen :: pen where
  "default_pen = \<lparr>pn_bold = False, pn_italic = False, pn_underline = False, pn_reverse = False,
     pn_strike = False, pn_fg = PenDefault, pn_bg = PenDefault\<rparr>"

fun ext_color :: "nat list \<Rightarrow> pen_color option \<times> nat list" where
  "ext_color (k # n # cs) =
     (if k = 5 then (Some (PenIndexed n), cs)
      else if k = 2 then (case cs of g # b # cs' \<Rightarrow> (Some (PenRGB n g b), cs') | _ \<Rightarrow> (None, []))
      else (None, []))"
| "ext_color cs = (None, [])"

definition simple_code :: "nat \<Rightarrow> pen \<Rightarrow> pen" where
  "simple_code c p =
     (if c = 0 then default_pen
      else if c = 1 then p\<lparr>pn_bold := True\<rparr>
      else if c = 3 then p\<lparr>pn_italic := True\<rparr>
      else if c = 4 then p\<lparr>pn_underline := True\<rparr>
      else if c = 7 then p\<lparr>pn_reverse := True\<rparr>
      else if c = 9 then p\<lparr>pn_strike := True\<rparr>
      else if 30 \<le> c \<and> c \<le> 37 then p\<lparr>pn_fg := PenIndexed (c - 30)\<rparr>
      else if 40 \<le> c \<and> c \<le> 47 then p\<lparr>pn_bg := PenIndexed (c - 40)\<rparr>
      else if 90 \<le> c \<and> c \<le> 97 then p\<lparr>pn_fg := PenIndexed (c - 82)\<rparr>
      else if 100 \<le> c \<and> c \<le> 107 then p\<lparr>pn_bg := PenIndexed (c - 92)\<rparr>
      else p)"

lemma ext_color_length: "ext_color cs = (col, cs') \<Longrightarrow> length cs' \<le> length cs"
  by (cases cs rule: ext_color.cases) (auto split: if_splits list.splits)

function sgr :: "nat list \<Rightarrow> pen \<Rightarrow> pen" where
  "sgr [] p = p"
| "sgr (c # cs) p =
     (if c = 38 \<or> c = 48 then
        (case ext_color cs of
           (None, cs') \<Rightarrow> sgr cs' p
         | (Some col, cs') \<Rightarrow> sgr cs' (if c = 38 then p\<lparr>pn_fg := col\<rparr> else p\<lparr>pn_bg := col\<rparr>))
      else sgr cs (simple_code c p))"
  by pat_completeness auto
termination
  by (relation "measure (length o fst)") (auto simp: less_Suc_eq_le dest!: ext_color_length [OF sym])

definition continuation :: "byte \<Rightarrow> rune option" where
  "continuation b = (let n = of_char b :: int in if 0x80 \<le> n \<and> n < 0xC0 then Some (n - 0x80) else None)"

fun continuations :: "nat \<Rightarrow> rune \<Rightarrow> string \<Rightarrow> (rune \<times> string) option" where
  "continuations 0 acc s = Some (acc, s)"
| "continuations (Suc k) acc [] = None"
| "continuations (Suc k) acc (b # s) =
     (case continuation b of None \<Rightarrow> None | Some n \<Rightarrow> continuations k (acc * 64 + n) s)"

fun utf8_decode :: "string \<Rightarrow> (rune \<times> string) option" where
  "utf8_decode [] = None"
| "utf8_decode (b # s) =
     (let n = of_char b :: int in
      if n < 0x80 then Some (n, s)
      else if n < 0xC0 then None
      else if n < 0xE0 then continuations 1 (n - 0xC0) s
      else if n < 0xF0 then continuations 2 (n - 0xE0) s
      else if n < 0xF8 then continuations 3 (n - 0xF0) s
      else None)"

lemma continuations_length: "continuations k acc s = Some (r, t) \<Longrightarrow> length t \<le> length s"
  by (induction k acc s rule: continuations.induct) (auto split: option.splits)

lemma utf8_decode_length: "utf8_decode s = Some (r, t) \<Longrightarrow> length t < length s"
  by (cases s) (auto simp: Let_def less_Suc_eq_le dest: continuations_length split: if_splits)

fun parse_codes :: "string list \<Rightarrow> nat list option" where
  "parse_codes [] = Some []"
| "parse_codes (t # ts) =
     (case (parse_digits 0 t, parse_codes ts) of (Some n, Some ns) \<Rightarrow> Some (n # ns) | _ \<Rightarrow> None)"

text \<open>A sequence other than \<open>ESC [ ... m\<close>, or bytes that are no rune, are not displayed.\<close>

definition escape :: "string \<Rightarrow> (nat list \<times> string) option" where
  "escape s =
     (if has_prefix s [ESC, CHR ''[''] then
        (case go_cut (drop 2 s) ''m'' of
           None \<Rightarrow> None
         | Some (params, rest) \<Rightarrow>
             (case parse_codes (go_split params '';'') of None \<Rightarrow> None | Some codes \<Rightarrow> Some (codes, rest)))
      else None)"

lemma escape_length: "escape s = Some (codes, rest) \<Longrightarrow> length rest < length s"
  by (auto simp: escape_def elim!: has_prefixE split: if_splits option.splits dest!: go_cut_length)

function display :: "string \<Rightarrow> pen \<Rightarrow> ((rune \<times> pen) list \<times> pen) option" where
  "display s p =
     (if s = [] then Some ([], p)
      else case escape s of
        Some (codes, rest) \<Rightarrow> display rest (sgr codes p)
      | None \<Rightarrow>
          (case utf8_decode s of
             None \<Rightarrow> None
           | Some (r, rest) \<Rightarrow>
               (case display rest p of None \<Rightarrow> None | Some (shown, q) \<Rightarrow> Some ((r, p) # shown, q))))"
  by pat_completeness auto
termination
  by (relation "measure (length o fst)") (auto dest: escape_length utf8_decode_length)

declare display.simps [simp del]

text \<open>The rendition a cell asks for, and what it shows.\<close>

definition cell_color :: "bool \<Rightarrow> color \<Rightarrow> pen_color" where
  "cell_color dflt c =
     (if dflt then PenDefault
      else if co_Type c = ColorIndexed then PenIndexed (unat (co_Index c))
      else PenRGB (unat (co_R c)) (unat (co_G c)) (unat (co_B c)))"

definition cell_pen :: "cell_attrs \<Rightarrow> color \<Rightarrow> color \<Rightarrow> pen" where
  "cell_pen a fg bg =
     \<lparr>pn_bold = at_Bold a, pn_italic = at_Italic a, pn_underline = (at_Underline a = 1),
      pn_reverse = at_Reverse a, pn_strike = at_Strike a,
      pn_fg = cell_color (co_DefaultFg fg) fg, pn_bg = cell_color (co_DefaultBg bg) bg\<rparr>"

definition cell_shown :: "cell \<Rightarrow> (rune \<times> pen) list" where
  "cell_shown c = map (\<lambda>r. (r, cell_pen (ce_Attrs c) (ce_Fg c) (ce_Bg c)))
     (if ce_Chars c \<noteq> [] then ce_Chars c else [32])"

section \<open>What the display makes of the renderer's bytes\<close>

subsection \<open>Runes\<close>

lemma or_high_low: "push_bit n a OR take_bit n b = push_bit n a + take_bit n b" for a b :: int
proof -
  have "push_bit n a AND take_bit n b = 0"
    by (rule bit_eqI) (auto simp: bit_simps)
  then show ?thesis by (simp add: disjunctive_add_eq_or)
qed

lemma or_low:
  fixes q :: int
  assumes "0 \<le> q" "q < 2 ^ n"
  shows "(a * 2 ^ n) OR q = a * 2 ^ n + q"
  using or_high_low [of n a q] assms by (simp add: push_bit_eq_mult take_bit_int_eq_self)

lemma low_six: "x AND 0x3F = x mod 64" for x :: int
  using take_bit_eq_mask [of 6 x] by (simp add: mask_numeral take_bit_eq_mod)

lemma byte_parts:
  fixes q :: int
  shows "0 \<le> q \<Longrightarrow> q < 64 \<Longrightarrow> 0x80 OR q = 128 + q"
    "0 \<le> q \<Longrightarrow> q < 32 \<Longrightarrow> 0xC0 OR q = 192 + q"
    "0 \<le> q \<Longrightarrow> q < 16 \<Longrightarrow> 0xE0 OR q = 224 + q"
    "0 \<le> q \<Longrightarrow> q < 8 \<Longrightarrow> 0xF0 OR q = 240 + q"
  using or_low [of q 6 2] or_low [of q 5 6] or_low [of q 4 14] or_low [of q 3 30] by simp_all

lemma of_char_byte: "0 \<le> i \<Longrightarrow> i < 256 \<Longrightarrow> (of_char (go_byte i) :: int) = i"
  by (simp add: go_byte_def)

lemma continuation_byte: "0 \<le> q \<Longrightarrow> q < 64 \<Longrightarrow> continuation (go_byte (128 + q)) = Some q"
  by (simp add: continuation_def of_char_byte Let_def)

lemma rune_digits:
  fixes r :: int
  shows "r div 64 * 64 + r mod 64 = r"
    "4096 * (r div 4096) + r div 64 mod 64 * 64 + r mod 64 = r"
    "262144 * (r div 262144) + 4096 * (r div 4096 mod 64) + r div 64 mod 64 * 64 + r mod 64 = r"
proof -
  have d: "r div 4096 = r div 64 div 64" "r div 262144 = r div 64 div 64 div 64"
    by (simp_all add: zdiv_zmult2_eq [symmetric])
  have m: "64 * (x div 64) + x mod 64 = x" for x :: int by simp
  have "4096 * (r div 64 div 64) + r div 64 mod 64 * 64 = 64 * (r div 64)"
    using m [of "r div 64"] by linarith
  then show two: "4096 * (r div 4096) + r div 64 mod 64 * 64 + r mod 64 = r"
    unfolding d using m [of r] by linarith
  have "262144 * (r div 64 div 64 div 64) + r div 64 div 64 mod 64 * 4096 = 4096 * (r div 64 div 64)"
    using m [of "r div 64 div 64"] by linarith
  then show "262144 * (r div 262144) + 4096 * (r div 4096 mod 64) + r div 64 mod 64 * 64 + r mod 64 = r"
    using two unfolding d by linarith
qed simp

lemma decode_rune:
  assumes "0 \<le> r" "r < 0x110000"
  shows "utf8_decode (runeToUTF8 r @ s) = Some (r, s)"
proof -
  consider "r < 0x80" | "0x80 \<le> r" "r < 0x800" | "0x800 \<le> r" "r < 0x10000" | "0x10000 \<le> r"
    by linarith
  then show ?thesis
  proof cases
    case 1
    then show ?thesis using assms by (simp add: runeToUTF8_def of_char_byte Let_def)
  next
    case 2
    then have b: "0 \<le> r div 64" "r div 64 < 32" by auto
    from 2 b show ?thesis
      by (simp add: runeToUTF8_def low_six drop_bit_eq_div byte_parts of_char_byte continuation_byte Let_def rune_digits
          numeral_2_eq_2 numeral_3_eq_3 rune_digits)
  next
    case 3
    then have b: "0 \<le> r div 4096" "r div 4096 < 16" by auto
    from 3 b show ?thesis
      by (simp add: runeToUTF8_def low_six drop_bit_eq_div byte_parts of_char_byte continuation_byte Let_def
          numeral_2_eq_2 numeral_3_eq_3 rune_digits)
  next
    case 4
    then have b: "0 \<le> r div 262144" "r div 262144 < 8" using assms by auto
    from 4 b show ?thesis
      by (simp add: runeToUTF8_def low_six drop_bit_eq_div byte_parts of_char_byte continuation_byte Let_def
          numeral_2_eq_2 numeral_3_eq_3 rune_digits)
  qed
qed

subsection \<open>Codes\<close>

lemma parse_codes_numbers: "parse_codes (map format_uint ns) = Some ns"
  by (induction ns) (simp_all add: format_uint_def parse_digits_itoa)

lemma format_uint_no_separator:
  "of_char c < (48::nat) \<or> 57 < (of_char c :: nat) \<Longrightarrow> c \<notin> set (format_uint n)"
  by (rule format_uint_notin)

lemma join_numbers_notin:
  assumes "c \<notin> set sep" "of_char c < (48::nat) \<or> 57 < (of_char c :: nat)"
  shows "c \<notin> set (go_join (map format_uint ns) sep)"
proof (induction ns)
  case (Cons n ns)
  then show ?case using assms
    by (cases ns) (auto simp: format_uint_no_separator)
qed simp

lemma letter_codes:
  "of_char (CHR '';'') < (48::nat) \<or> 57 < (of_char (CHR '';'') :: nat)"
  "of_char (CHR ''m'') < (48::nat) \<or> 57 < (of_char (CHR ''m'') :: nat)"
  by code_simp+

lemma escape_codes:
  assumes "ns \<noteq> []"
  shows "escape (ESC # ''['' @ go_join (map format_uint ns) '';'' @ ''m'' @ s) = Some (ns, s)"
proof -
  have m: "CHR ''m'' \<notin> set (go_join (map format_uint ns) '';'')"
    by (rule join_numbers_notin) (use letter_codes in simp_all)
  have "go_split (go_join (map format_uint ns) [CHR '';'']) [CHR '';''] = map format_uint ns"
    by (rule go_split_join) (use assms letter_codes in \<open>auto simp: format_uint_no_separator\<close>)
  then show ?thesis using m
    by (simp add: escape_def has_prefix_def go_cut_single parse_codes_numbers)
qed

lemma display_codes:
  "ns \<noteq> [] \<Longrightarrow> display (ESC # ''['' @ go_join (map format_uint ns) '';'' @ ''m'' @ s) p = display s (sgr ns p)"
  by (subst display.simps) (simp add: escape_codes [simplified])

lemma sgr_color:
  "sgr (color_codes 30 c @ ns) p = sgr ns (p\<lparr>pn_fg := cell_color False c\<rparr>)"
  "sgr (color_codes 40 c @ ns) p = sgr ns (p\<lparr>pn_bg := cell_color False c\<rparr>)"
proof -
  have i: "co_Index c < 8 \<longleftrightarrow> unat (co_Index c) < 8" "co_Index c < 16 \<longleftrightarrow> unat (co_Index c) < 16"
    by (simp_all add: word_less_nat_alt)
  show "sgr (color_codes 30 c @ ns) p = sgr ns (p\<lparr>pn_fg := cell_color False c\<rparr>)"
    "sgr (color_codes 40 c @ ns) p = sgr ns (p\<lparr>pn_bg := cell_color False c\<rparr>)"
    unfolding color_codes_def i cell_color_def by (simp_all add: simple_code_def)
qed

lemma sgr_if:
  "sgr ((if b then [1] else []) @ ns) p = sgr ns (p\<lparr>pn_bold := pn_bold p \<or> b\<rparr>)"
  "sgr ((if b then [3] else []) @ ns) p = sgr ns (p\<lparr>pn_italic := pn_italic p \<or> b\<rparr>)"
  "sgr ((if b then [4] else []) @ ns) p = sgr ns (p\<lparr>pn_underline := pn_underline p \<or> b\<rparr>)"
  "sgr ((if b then [7] else []) @ ns) p = sgr ns (p\<lparr>pn_reverse := pn_reverse p \<or> b\<rparr>)"
  "sgr ((if b then [9] else []) @ ns) p = sgr ns (p\<lparr>pn_strike := pn_strike p \<or> b\<rparr>)"
  "sgr ((if b then [0] else []) @ ns) p = sgr ns (if b then default_pen else p)"
  "sgr ((if b then color_codes 30 c else []) @ ns) p = sgr ns (p\<lparr>pn_fg := if b then cell_color False c else pn_fg p\<rparr>)"
  "sgr (if b then color_codes 40 c else []) p = p\<lparr>pn_bg := if b then cell_color False c else pn_bg p\<rparr>"
  using sgr_color(2) [of c "[]" p] by (simp_all add: simple_code_def sgr_color)

subsection \<open>Cells\<close>

text \<open>The cells the renderer is faithful on: runes that print, no underline but the single one.\<close>

definition cell_ok :: "cell \<Rightarrow> bool" where
  "cell_ok c = (at_Underline (ce_Attrs c) \<le> 1 \<and> (\<forall>r \<in> set (ce_Chars c). 0x20 \<le> r \<and> r < 0x110000))"

text \<open>No struck-out cell is followed by one that is not.\<close>

fun strikes_kept :: "bool \<Rightarrow> cell list \<Rightarrow> bool" where
  "strikes_kept b [] = True"
| "strikes_kept b (c # cs) =
     ((b \<longrightarrow> at_Strike (ce_Attrs c)) \<and> strikes_kept (at_Strike (ce_Attrs c)) cs)"

lemma simple_code_0 [simp]: "simple_code 0 p = default_pen"
  by (simp add: simple_code_def)

lemma default_color [simp]: "cell_color True c = PenDefault"
  by (simp add: cell_color_def)

definition overlay :: "cell \<Rightarrow> pen \<Rightarrow> pen" where
  "overlay c q =
     \<lparr>pn_bold = pn_bold q \<or> at_Bold (ce_Attrs c), pn_italic = pn_italic q \<or> at_Italic (ce_Attrs c),
      pn_underline = pn_underline q \<or> at_Underline (ce_Attrs c) = 1,
      pn_reverse = pn_reverse q \<or> at_Reverse (ce_Attrs c),
      pn_strike = pn_strike q \<or> at_Strike (ce_Attrs c),
      pn_fg = (if \<not> co_DefaultFg (ce_Fg c) then cell_color False (ce_Fg c) else pn_fg q),
      pn_bg = (if \<not> co_DefaultBg (ce_Bg c) then cell_color False (ce_Bg c) else pn_bg q)\<rparr>"

lemma sgr_cell_codes:
  "sgr (cell_codes c la lf lb f) p =
     overlay c (if need_reset c la lf lb f \<or> f \<and> has_attrs c then default_pen else p)"
  unfolding cell_codes_def sgr_if overlay_def by simp

lemma overlay_default: "overlay c default_pen = cell_pen (ce_Attrs c) (ce_Fg c) (ce_Bg c)"
  by (simp add: overlay_def default_pen_def cell_pen_def cell_color_def)

lemma sgr_first_cell:
  "sgr (cell_codes c la lf lb True) default_pen = cell_pen (ce_Attrs c) (ce_Fg c) (ce_Bg c)"
  by (simp add: sgr_cell_codes overlay_default)

lemma sgr_next_cell:
  assumes "at_Underline (ce_Attrs c) \<le> 1" "at_Underline la \<le> 1" "at_Strike la \<longrightarrow> at_Strike (ce_Attrs c)"
  shows "sgr (cell_codes c la lf lb False) (cell_pen la lf lb) = cell_pen (ce_Attrs c) (ce_Fg c) (ce_Bg c)"
proof (cases "need_reset c la lf lb False")
  case False
  have u: "at_Underline la = 0 \<or> at_Underline la = 1"
    "at_Underline (ce_Attrs c) = 0 \<or> at_Underline (ce_Attrs c) = 1"
    using assms(1,2) by auto
  have r: "at_Bold la \<longrightarrow> at_Bold (ce_Attrs c)" "at_Italic la \<longrightarrow> at_Italic (ce_Attrs c)"
    "at_Underline la = 1 \<longrightarrow> at_Underline (ce_Attrs c) = 1" "at_Reverse la \<longrightarrow> at_Reverse (ce_Attrs c)"
    "co_DefaultFg (ce_Fg c) \<longrightarrow> co_DefaultFg lf" "co_DefaultBg (ce_Bg c) \<longrightarrow> co_DefaultBg lb"
    using False u by (auto simp: need_reset_def)
  have "overlay c (cell_pen la lf lb) = cell_pen (ce_Attrs c) (ce_Fg c) (ce_Bg c)"
    using r assms(3) by (simp add: overlay_def cell_pen_def cell_color_def) blast
  then show ?thesis using False by (simp add: sgr_cell_codes)
qed (simp add: sgr_cell_codes overlay_default)

lemma display_ansi:
  "display (ansiForCell c la lf lb f @ t) p = display t (sgr (cell_codes c la lf lb f) p)"
proof (cases "cell_codes c la lf lb f = []")
  case True
  then show ?thesis by (simp add: ansiForCell_def)
next
  case False
  then show ?thesis using display_codes [OF False, of t p] by (simp add: ansiForCell_def Let_def)
qed

definition shown_before :: "(rune \<times> pen) list \<Rightarrow> ((rune \<times> pen) list \<times> pen) option \<Rightarrow> ((rune \<times> pen) list \<times> pen) option" where
  "shown_before xs = map_option (apfst ((@) xs))"

lemma shown_before_simps [simp]:
  "shown_before [] = id" "shown_before xs (Some (ys, p)) = Some (xs @ ys, p)"
  "shown_before xs (shown_before ys d) = shown_before (xs @ ys) d"
  by (cases d; auto simp: shown_before_def fun_eq_iff apfst_def map_prod_def option.map_id)+

lemma display_rune:
  assumes "0x20 \<le> r" "r < 0x110000"
  shows "display (runeToUTF8 r @ t) p = shown_before [(r, p)] (display t p)"
proof -
  let ?s = "runeToUTF8 r @ t"
  have d: "utf8_decode ?s = Some (r, t)" using assms by (intro decode_rune) auto
  have "escape ?s = None"
  proof (cases "escape ?s")
    case (Some x)
    then obtain u where "?s = ESC # u" by (auto simp: escape_def elim!: has_prefixE split: if_splits)
    then have "utf8_decode ?s = Some (27, u)" by (simp add: ESC_def)
    with d assms show ?thesis by simp
  qed
  moreover have "runeToUTF8 r \<noteq> []" by (simp add: runeToUTF8_def)
  ultimately show ?thesis
    by (subst display.simps) (simp add: d shown_before_def split: option.splits prod.splits)
qed

lemma display_runes:
  "\<forall>r \<in> set rs. 0x20 \<le> r \<and> r < 0x110000 \<Longrightarrow>
   display (concat (map runeToUTF8 rs) @ t) p = shown_before (map (\<lambda>r. (r, p)) rs) (display t p)"
  by (induction rs) (simp_all add: display_rune)

lemma display_cell_text:
  assumes "cell_ok c" "p = cell_pen (ce_Attrs c) (ce_Fg c) (ce_Bg c)"
  shows "display (cell_text c @ t) p = shown_before (cell_shown c) (display t p)"
proof (cases "ce_Chars c = []")
  case True
  have "runeToUTF8 32 = '' ''" by code_simp
  then show ?thesis using True assms display_rune [of 32 t p] by (simp add: cell_text_def cell_shown_def)
next
  case False
  then show ?thesis using assms display_runes [of "ce_Chars c" t p]
    by (simp add: cell_text_def cell_shown_def cell_ok_def)
qed

subsection \<open>Rows\<close>

definition state_pen :: "row_state \<Rightarrow> pen" where
  "state_pen s = (if rs_firstCell s then default_pen
     else cell_pen (rs_lastAttrs s) (rs_lastFg s) (rs_lastBg s))"

text \<open>What the bytes so far display, and in which rendition they leave the terminal.\<close>

definition row_inv :: "(rune \<times> pen) list \<Rightarrow> row_state \<Rightarrow> bool" where
  "row_inv xs s =
     ((\<forall>t. display (rs_result s @ t) default_pen = shown_before xs (display t (state_pen s))) \<and>
      (rs_emittedANSI s \<or> state_pen s = default_pen) \<and>
      (rs_firstCell s \<or> at_Underline (rs_lastAttrs s) \<le> 1))"

definition last_strike :: "row_state \<Rightarrow> bool" where
  "last_strike s = (\<not> rs_firstCell s \<and> at_Strike (rs_lastAttrs s))"

lemma row_inv_start: "row_inv [] row_start"
  by (simp add: row_inv_def row_start_def state_pen_def)

lemma ansi_Nil_iff: "ansiForCell c la lf lb f = [] \<longleftrightarrow> cell_codes c la lf lb f = []"
  by (simp add: ansiForCell_def Let_def)

lemma emit_attrs_inv:
  assumes inv: "row_inv xs s" and ok: "cell_ok c"
    and strike: "last_strike s \<longrightarrow> at_Strike (ce_Attrs c)"
  defines "s' \<equiv> emit_attrs c s"
  shows "row_inv xs s' \<and> state_pen s' = cell_pen (ce_Attrs c) (ce_Fg c) (ce_Bg c) \<and>
    \<not> rs_firstCell s' \<and> rs_lastAttrs s' = ce_Attrs c"
proof (cases "rs_firstCell s \<or> ce_Attrs c \<noteq> rs_lastAttrs s \<or> ce_Fg c \<noteq> rs_lastFg s \<or> ce_Bg c \<noteq> rs_lastBg s")
  case False
  then show ?thesis using inv by (simp add: s'_def emit_attrs_def state_pen_def)
next
  case True
  let ?codes = "cell_codes c (rs_lastAttrs s) (rs_lastFg s) (rs_lastBg s) (rs_firstCell s)"
  let ?ansi = "ansiForCell c (rs_lastAttrs s) (rs_lastFg s) (rs_lastBg s) (rs_firstCell s)"
  let ?pen = "cell_pen (ce_Attrs c) (ce_Fg c) (ce_Bg c)"
  have sgr: "sgr ?codes (state_pen s) = ?pen"
  proof (cases "rs_firstCell s")
    case True
    then show ?thesis by (simp add: state_pen_def sgr_first_cell)
  next
    case False
    then show ?thesis using inv ok strike
      by (simp add: state_pen_def row_inv_def cell_ok_def last_strike_def sgr_next_cell)
  qed
  have s': "rs_result s' = rs_result s @ ?ansi" "rs_emittedANSI s' = (rs_emittedANSI s \<or> ?codes \<noteq> [])"
    "state_pen s' = ?pen" "\<not> rs_firstCell s'" "rs_lastAttrs s' = ce_Attrs c"
    using True by (auto simp: s'_def emit_attrs_def Let_def state_pen_def ansi_Nil_iff)
  have "display (rs_result s' @ t) default_pen = shown_before xs (display t ?pen)" for t
    using inv by (simp add: s' row_inv_def display_ansi sgr)
  moreover have "rs_emittedANSI s' \<or> ?pen = default_pen"
    using inv sgr by (auto simp: s' row_inv_def)
  ultimately show ?thesis using ok s' by (simp add: row_inv_def cell_ok_def)
qed

lemma cell_ok_no_padding: "cell_ok c \<Longrightarrow> ce_Chars c \<noteq> [- 1]"
  by (auto simp: cell_ok_def)

lemma render_cell_inv:
  assumes "row_inv xs s" "cell_ok c" "last_strike s \<longrightarrow> at_Strike (ce_Attrs c)"
  shows "row_inv (xs @ cell_shown c) (render_cell c s)" "last_strike (render_cell c s) = at_Strike (ce_Attrs c)"
proof -
  define s' where "s' = emit_attrs c s"
  let ?pen = "cell_pen (ce_Attrs c) (ce_Fg c) (ce_Bg c)"
  have e: "row_inv xs s'" "state_pen s' = ?pen" "\<not> rs_firstCell s'" "rs_lastAttrs s' = ce_Attrs c"
    using emit_attrs_inv [OF assms] by (simp_all add: s'_def)
  have r: "render_cell c s = s'\<lparr>rs_result := rs_result s' @ cell_text c\<rparr>"
    using cell_ok_no_padding [OF assms(2)] by (simp add: render_cell_def s'_def Let_def)
  have p: "state_pen (s'\<lparr>rs_result := b\<rparr>) = ?pen" for b
    using e(2) by (simp add: state_pen_def split: if_splits)
  show "row_inv (xs @ cell_shown c) (render_cell c s)"
    using e p display_cell_text [OF assms(2) refl] by (simp add: r row_inv_def)
  show "last_strike (render_cell c s) = at_Strike (ce_Attrs c)"
    using e by (simp add: r last_strike_def)
qed

lemma render_fold:
  "row_inv xs s \<Longrightarrow> \<forall>c \<in> set cs. cell_ok c \<Longrightarrow> strikes_kept (last_strike s) cs \<Longrightarrow>
   row_inv (xs @ concat (map cell_shown cs)) (fold render_cell cs s)"
proof (induction cs arbitrary: xs s)
  case (Cons c cs)
  have st: "last_strike s \<longrightarrow> at_Strike (ce_Attrs c)" using Cons.prems by simp
  have "row_inv (xs @ cell_shown c) (render_cell c s)" "last_strike (render_cell c s) = at_Strike (ce_Attrs c)"
    using render_cell_inv [OF Cons.prems(1) _ st] Cons.prems(2) by simp_all
  then show ?case using Cons.IH [of "xs @ cell_shown c" "render_cell c s"] Cons.prems by simp
qed simp

lemma escape_reset: "display (ESC # ''[0m'' @ t) p = display t default_pen"
proof -
  have "format_uint 0 = ''0''" by code_simp
  then show ?thesis using display_codes [of "[0]" t p] by simp
qed

lemma render_end_display: "row_inv xs s \<Longrightarrow> display (render_end s) default_pen = Some (xs, default_pen)"
proof -
  assume inv: "row_inv xs s"
  have n: "display [] p = Some ([], p)" for p by (subst display.simps) simp
  show ?thesis
  proof (cases "rs_emittedANSI s")
    case True
    have "display (rs_result s @ ESC # ''[0m'') default_pen = shown_before xs (display (ESC # ''[0m'') (state_pen s))"
      using inv by (simp add: row_inv_def)
    then show ?thesis using True escape_reset [of "[]" "state_pen s"] by (simp add: render_end_def n)
  next
    case False
    have "display (rs_result s @ []) default_pen = shown_before xs (display [] (state_pen s))"
      using inv unfolding row_inv_def by blast
    then show ?thesis using False inv by (simp add: render_end_def n row_inv_def)
  qed
qed

subsection \<open>Two blemishes\<close>

text \<open>
  The marker of the padding behind a wide character is dropped when a cell is read, so the guard
  of the loop that skips padding never fires and the padding is rendered as a blank.
\<close>

lemma padding_never_skipped: "- 1 \<notin> set (read_chars mem p n)"
proof (induction mem p n rule: read_chars.induct)
  case (2 mem p n)
  have "- 1 \<noteq> sint w" if "w \<noteq> 0xFFFFFFFF" for w :: u32
  proof
    assume "- 1 = sint w"
    then have "sint w = sint (- 1 :: u32)" by simp
    then have "w = - 1" by (simp only: signed_word_eqI)
    then show False using that by simp
  qed
  then show ?case using 2 by (simp add: Let_def)
qed simp

lemma padding_rendered_as_blank:
  assumes "ReadUint32Le mem (ptr + la_charsOff la) = 0xFFFFFFFF"
    "ReadUint32Le mem (ptr + la_charsOff la + 4) = 0"
  shows "cell_text (cellFromMemory la mem ptr) = '' ''"
  using assms by (simp add: cell_text_def cellFromMemory_def Let_def eval_nat_numeral)

text \<open>
  Without a difference in another attribute no reset precedes a cell that follows a struck-out
  one, and the display goes on striking out.
\<close>

lemma strike_not_reset:
  assumes "need_reset c la lf lb False = False" "at_Strike la"
  shows "pn_strike (sgr (cell_codes c la lf lb False) (cell_pen la lf lb))"
  using assms by (simp add: sgr_cell_codes overlay_def cell_pen_def)

section \<open>Properties\<close>


definition sample_cell :: "rune list \<Rightarrow> bool \<Rightarrow> u8 \<Rightarrow> cell" where
  "sample_cell cs b i = \<lparr>ce_Chars = cs, ce_Width = 1, ce_Attrs = no_attrs\<lparr>at_Bold := b\<rparr>,
     ce_Fg = no_color\<lparr>co_Type := ColorIndexed, co_Index := i\<rparr>, ce_Bg = no_color\<lparr>co_DefaultBg := True\<rparr>\<rparr>"


end
