(* ===== verification/TerminalBinding.thy ===== *)
theory TerminalBinding
  imports Terminal
begin

text \<open>
  The binding to the terminal emulator (\<open>VTerm\<close> of \<open>vterm/wasm.go\<close>): its construction, the
  calls into the emulator with their buffers in its memory, the registry of handles through which
  the emulator calls back, and the callbacks themselves.

  The emulator is a WebAssembly module whose code is not Go: it is the parameter \<open>w\<close>, with its
  memory, the writing of it, and its exported functions, each of which may fail and changes the
  state \<open>'s\<close> of the module (and of whatever its callbacks reach). A method that returns early
  leaves the value it returns as the error of the computation.
\<close>

section \<open>The emulator\<close>

record ('e, 's) wasm =
  wa_mem :: "'s \<Rightarrow> memory"
  wa_write :: "u32 \<Rightarrow> string \<Rightarrow> 's \<Rightarrow> bool \<times> 's"
  wa_call :: "string \<Rightarrow> u64 list \<Rightarrow> ('e, 's, u64) eff"

text \<open>The layout of a cell: a value that is not exported, or cannot be called, stays zero.\<close>

definition layout_value :: "(string \<Rightarrow> u64 option) \<Rightarrow> string \<Rightarrow> u64" where
  "layout_value exported name = (case exported name of None \<Rightarrow> 0 | Some r \<Rightarrow> r)"

definition read_layout :: "(string \<Rightarrow> u64 option) \<Rightarrow> cell_layout" where
  "read_layout exported =
     \<lparr>la_size = ucast (layout_value exported ''sizeof_cell''),
      la_charsOff = ucast (layout_value exported ''offsetof_cell_chars''),
      la_widthOff = ucast (layout_value exported ''offsetof_cell_width''),
      la_attrsOff = ucast (layout_value exported ''offsetof_cell_attrs''),
      la_fgOff = ucast (layout_value exported ''offsetof_cell_fg''),
      la_bgOff = ucast (layout_value exported ''offsetof_cell_bg''),
      la_colorTypeMask = ucast (layout_value exported ''color_type_mask''),
      la_colorIndexed = ucast (layout_value exported ''color_indexed''),
      la_colorDefaultFg = ucast (layout_value exported ''color_default_fg''),
      la_colorDefaultBg = ucast (layout_value exported ''color_default_bg'')\<rparr>"

section \<open>Handles and callbacks\<close>

datatype prop_value = PString string | PBool bool | PInt int | PNil

definition PropCursorVisible :: int where "PropCursorVisible = 1"
definition PropCursorBlink :: int where "PropCursorBlink = 2"
definition PropAltScreen :: int where "PropAltScreen = 3"
definition PropTitle :: int where "PropTitle = 4"
definition PropIconName :: int where "PropIconName = 5"
definition PropReverse :: int where "PropReverse = 6"
definition PropCursorShape :: int where "PropCursorShape = 7"
definition PropMouse :: int where "PropMouse = 8"

text \<open>The callbacks of a terminal; each acts on the state \<open>'h\<close> of the client that set it.\<close>

record 'h callbacks =
  cb_onDamage :: "(int \<Rightarrow> int \<Rightarrow> int \<Rightarrow> int \<Rightarrow> 'h \<Rightarrow> 'h) option"
  cb_onMoveCursor :: "(int \<Rightarrow> int \<Rightarrow> bool \<Rightarrow> 'h \<Rightarrow> 'h) option"
  cb_onBell :: "('h \<Rightarrow> 'h) option"
  cb_onPushLine :: "(string \<Rightarrow> 'h \<Rightarrow> 'h) option"
  cb_onTermProp :: "(int \<Rightarrow> prop_value \<Rightarrow> 'h \<Rightarrow> 'h) option"

definition OnDamage :: "(int \<Rightarrow> int \<Rightarrow> int \<Rightarrow> int \<Rightarrow> 'h \<Rightarrow> 'h) \<Rightarrow> 'h callbacks \<Rightarrow> 'h callbacks" where
  "OnDamage f cb = cb\<lparr>cb_onDamage := Some f\<rparr>"

definition OnMoveCursor :: "(int \<Rightarrow> int \<Rightarrow> bool \<Rightarrow> 'h \<Rightarrow> 'h) \<Rightarrow> 'h callbacks \<Rightarrow> 'h callbacks" where
  "OnMoveCursor f cb = cb\<lparr>cb_onMoveCursor := Some f\<rparr>"

definition OnBell :: "('h \<Rightarrow> 'h) \<Rightarrow> 'h callbacks \<Rightarrow> 'h callbacks" where
  "OnBell f cb = cb\<lparr>cb_onBell := Some f\<rparr>"

definition OnPushLine :: "(string \<Rightarrow> 'h \<Rightarrow> 'h) \<Rightarrow> 'h callbacks \<Rightarrow> 'h callbacks" where
  "OnPushLine f cb = cb\<lparr>cb_onPushLine := Some f\<rparr>"

definition OnTermProp :: "(int \<Rightarrow> prop_value \<Rightarrow> 'h \<Rightarrow> 'h) \<Rightarrow> 'h callbacks \<Rightarrow> 'h callbacks" where
  "OnTermProp f cb = cb\<lparr>cb_onTermProp := Some f\<rparr>"

text \<open>
  The registry of handles; \<open>'v\<close> stands for the pointer to a terminal. A handle is an \<open>int32\<close>,
  kept here by its bits.
\<close>

record 'v registry =
  re_handles :: "u32 \<Rightarrow> 'v option"
  re_next :: u32

definition new_registry :: "'v registry" where
  "new_registry = \<lparr>re_handles = Map.empty, re_next = 1\<rparr>"

definition registerHandle :: "'v \<Rightarrow> 'v registry \<Rightarrow> u32 \<times> 'v registry" where
  "registerHandle v g =
     (re_next g, \<lparr>re_handles = (re_handles g)(re_next g \<mapsto> v), re_next = re_next g + 1\<rparr>)"

definition unregisterHandle :: "u32 \<Rightarrow> 'v registry \<Rightarrow> 'v registry" where
  "unregisterHandle h g = g\<lparr>re_handles := (re_handles g)(h := None)\<rparr>"

definition getVTermByHandle :: "'v registry \<Rightarrow> u32 \<Rightarrow> 'v option" where
  "getVTermByHandle g h = re_handles g h"

text \<open>
  The functions the emulator calls; \<open>at\<close> finds the callbacks of the terminal of a handle.
\<close>

definition host_damage :: "(u32 \<Rightarrow> 'h callbacks option) \<Rightarrow> u32 \<Rightarrow> int \<Rightarrow> int \<Rightarrow> int \<Rightarrow> int \<Rightarrow> 'h \<Rightarrow> 'h" where
  "host_damage at hdl startRow endRow startCol endCol h =
     (case at hdl of None \<Rightarrow> h
      | Some vt \<Rightarrow> (case cb_onDamage vt of None \<Rightarrow> h | Some f \<Rightarrow> f startRow endRow startCol endCol h))"

definition host_movecursor :: "(u32 \<Rightarrow> 'h callbacks option) \<Rightarrow> u32 \<Rightarrow> int \<Rightarrow> int \<Rightarrow> int \<Rightarrow> 'h \<Rightarrow> 'h" where
  "host_movecursor at hdl row col visible h =
     (case at hdl of None \<Rightarrow> h
      | Some vt \<Rightarrow> (case cb_onMoveCursor vt of None \<Rightarrow> h | Some f \<Rightarrow> f row col (visible \<noteq> 0) h))"

definition host_bell :: "(u32 \<Rightarrow> 'h callbacks option) \<Rightarrow> u32 \<Rightarrow> 'h \<Rightarrow> 'h" where
  "host_bell at hdl h =
     (case at hdl of None \<Rightarrow> h | Some vt \<Rightarrow> (case cb_onBell vt of None \<Rightarrow> h | Some f \<Rightarrow> f h))"

definition term_prop_value :: "memory \<Rightarrow> int \<Rightarrow> int \<Rightarrow> u32 \<Rightarrow> int \<Rightarrow> prop_value option" where
  "term_prop_value mem prop value strPtr strLen =
     (if prop \<in> {PropTitle, PropIconName} then
        Some (if strPtr \<noteq> 0 \<and> strLen > 0
              then (case mem_read mem strPtr (nat strLen) of None \<Rightarrow> PNil | Some b \<Rightarrow> PString b)
              else PString [])
      else if prop \<in> {PropCursorVisible, PropCursorBlink, PropAltScreen, PropReverse} then Some (PBool (value \<noteq> 0))
      else if prop \<in> {PropCursorShape, PropMouse} then Some (PInt value)
      else None)"

definition host_settermprop ::
  "(u32 \<Rightarrow> 'h callbacks option) \<Rightarrow> memory \<Rightarrow> u32 \<Rightarrow> int \<Rightarrow> int \<Rightarrow> u32 \<Rightarrow> int \<Rightarrow> 'h \<Rightarrow> 'h" where
  "host_settermprop at mem hdl prop value strPtr strLen h =
     (case at hdl of None \<Rightarrow> h
      | Some vt \<Rightarrow>
          (case cb_onTermProp vt of None \<Rightarrow> h
           | Some f \<Rightarrow>
               (case term_prop_value mem prop value strPtr strLen of None \<Rightarrow> h | Some v \<Rightarrow> f prop v h)))"

definition pushed_line :: "cell_layout \<Rightarrow> memory \<Rightarrow> u32 \<Rightarrow> int \<Rightarrow> string" where
  "pushed_line la mem cellsPtr cols =
     render_cells (map (\<lambda>i. cellFromMemory la mem (cellsPtr + of_nat i * la_size la)) [0..<nat cols])"

definition host_pushline_cells ::
  "(u32 \<Rightarrow> 'h callbacks option) \<Rightarrow> cell_layout \<Rightarrow> memory \<Rightarrow> u32 \<Rightarrow> u32 \<Rightarrow> int \<Rightarrow> 'h \<Rightarrow> 'h" where
  "host_pushline_cells at la mem hdl cellsPtr cols h =
     (case at hdl of None \<Rightarrow> h
      | Some vt \<Rightarrow>
          (case cb_onPushLine vt of None \<Rightarrow> h
           | Some f \<Rightarrow> if cellsPtr = 0 \<or> cols \<le> 0 then h else f (pushed_line la mem cellsPtr cols) h))"

section \<open>The terminal\<close>

record vterm =
  vt_closed :: bool
  vt_vtPtr :: u32
  vt_screenPtr :: u32
  vt_statePtr :: u32
  vt_rows :: int
  vt_cols :: int
  vt_handle :: u32

datatype 'e vt_error = RuntimeInit 'e | CallFailed string 'e | ReturnedNull string

text \<open>
  The state of \<open>New\<close> and \<open>Free\<close> is the registry of the process and the module. \<open>init\<close> is the
  outcome of setting up the runtime, which happens once; \<open>p\<close> is the pointer to the new terminal.
\<close>

definition vt_call :: "('e, 's) wasm \<Rightarrow> string \<Rightarrow> u64 list \<Rightarrow> ('e vt_error, 'v registry \<times> 's, u64) eff" where
  "vt_call w fn args = liftE snd (\<lambda>t gs. (fst gs, t)) (mapErrE (CallFailed fn) (wa_call w fn args))"

definition registered :: "'v \<Rightarrow> ('e, 'v registry \<times> 's, u32) eff" where
  "registered p gs = (case registerHandle p (fst gs) of (h, g) \<Rightarrow> (Inr h, (g, snd gs)))"

definition unregister_on_error :: "u32 \<Rightarrow> ('e, 'v registry \<times> 's, 'a) eff \<Rightarrow> ('e, 'v registry \<times> 's, 'a) eff" where
  "unregister_on_error h m gs =
     (case m gs of
        (Inl e, (g, s)) \<Rightarrow> (Inl e, (unregisterHandle h g, s))
      | (Inr x, gs') \<Rightarrow> (Inr x, gs'))"

definition NewVTerm ::
  "('e, 's) wasm \<Rightarrow> 'e option \<Rightarrow> 'v \<Rightarrow> int \<Rightarrow> int \<Rightarrow> ('e vt_error, 'v registry \<times> 's, vterm) eff" where
  "NewVTerm w init p rows cols =
     (case init of Some e \<Rightarrow> failE (RuntimeInit e)
      | None \<Rightarrow>
          bindE (vt_call w ''vterm_new'' [of_int rows, of_int cols]) (\<lambda>r.
          let vtPtr = ucast r :: u32 in
          if vtPtr = 0 then failE (ReturnedNull ''vterm_new'')
          else
            thenE (vt_call w ''vterm_set_utf8'' [ucast vtPtr, 1])
            (bindE (vt_call w ''vterm_obtain_screen'' [ucast vtPtr]) (\<lambda>r.
             let screenPtr = ucast r :: u32 in
             thenE (vt_call w ''vterm_screen_reset'' [ucast screenPtr, 1])
            (thenE (vt_call w ''vterm_screen_enable_altscreen'' [ucast screenPtr, 1])
            (bindE (vt_call w ''vterm_obtain_state'' [ucast vtPtr]) (\<lambda>r.
             let statePtr = ucast r :: u32 in
             bindE (registered p) (\<lambda>hdl.
             thenE (unregister_on_error hdl (vt_call w ''wasm_set_callbacks'' [ucast screenPtr, scast hdl]))
            (returnE \<lparr>vt_closed = False, vt_vtPtr = vtPtr, vt_screenPtr = screenPtr,
                      vt_statePtr = statePtr, vt_rows = rows, vt_cols = cols, vt_handle = hdl\<rparr>)))))))))"

definition FreeVTerm :: "('e, 's) wasm \<Rightarrow> vterm \<Rightarrow> 'v registry \<times> 's \<Rightarrow> vterm \<times> 'v registry \<times> 's" where
  "FreeVTerm w v gs =
     (if vt_closed v then (v, gs)
      else
        let v = v\<lparr>vt_closed := True\<rparr>; g = fst gs; s = snd gs;
            (v, g) = (if vt_handle v \<noteq> 0 then (v\<lparr>vt_handle := 0\<rparr>, unregisterHandle (vt_handle v) g) else (v, g));
            (v, s) = (if vt_vtPtr v \<noteq> 0
                      then (v\<lparr>vt_vtPtr := 0\<rparr>, snd (wa_call w ''vterm_free'' [ucast (vt_vtPtr v)] s)) else (v, s))
        in (v, g, s))"

definition SetSize :: "('e, 's) wasm \<Rightarrow> int \<Rightarrow> int \<Rightarrow> vterm \<Rightarrow> 's \<Rightarrow> vterm \<times> 's" where
  "SetSize w rows cols v s =
     (v\<lparr>vt_rows := rows, vt_cols := cols\<rparr>,
      snd (wa_call w ''vterm_set_size'' [ucast (vt_vtPtr v), of_int rows, of_int cols] s))"

definition GetSize :: "vterm \<Rightarrow> int \<times> int" where
  "GetSize v = (vt_rows v, vt_cols v)"

section \<open>Buffers in the emulator's memory\<close>

datatype 'e alloc_error = AllocFailed 'e | AllocNull

definition alloc :: "('e, 's) wasm \<Rightarrow> u32 \<Rightarrow> ('e alloc_error, 's, u32) eff" where
  "alloc w n =
     bindE (mapErrE AllocFailed (wa_call w ''malloc'' [ucast n])) (\<lambda>r.
     let ptr = ucast r :: u32 in if ptr = 0 then failE AllocNull else returnE ptr)"

definition free :: "('e, 's) wasm \<Rightarrow> u32 \<Rightarrow> 's \<Rightarrow> 's" where
  "free w ptr s = snd (wa_call w ''free'' [ucast ptr] s)"

text \<open>
  A buffer for the rest of the method: without it the method returns \<open>dflt\<close>; with it, it is
  freed when the method ends, however it ends.
\<close>

definition with_buffer :: "('e, 's) wasm \<Rightarrow> u32 \<Rightarrow> 'a \<Rightarrow> (u32 \<Rightarrow> ('a, 's, 'a) eff) \<Rightarrow> ('a, 's, 'a) eff" where
  "with_buffer w n dflt body s =
     (case alloc w n s of
        (Inl _, s') \<Rightarrow> (Inl dflt, s')
      | (Inr ptr, s') \<Rightarrow> (case body ptr s' of (r, s'') \<Rightarrow> (r, free w ptr s'')))"

text \<open>A call whose failure makes the method return \<open>dflt\<close>, and a write to the memory.\<close>

definition call_or :: "('e, 's) wasm \<Rightarrow> 'a \<Rightarrow> string \<Rightarrow> u64 list \<Rightarrow> ('a, 's, u64) eff" where
  "call_or w dflt fn args = mapErrE (\<lambda>_. dflt) (wa_call w fn args)"

definition mem_write :: "('e, 's) wasm \<Rightarrow> u32 \<Rightarrow> string \<Rightarrow> ('a, 's, bool) eff" where
  "mem_write w ptr b s = (case wa_write w ptr b s of (ok, s') \<Rightarrow> (Inr ok, s'))"

definition returned :: "('a, 's, 'a) eff \<Rightarrow> 's \<Rightarrow> 'a \<times> 's" where
  "returned m s = (case m s of (Inl x, s') \<Rightarrow> (x, s') | (Inr x, s') \<Rightarrow> (x, s'))"

definition VWrite :: "('e, 's) wasm \<Rightarrow> vterm \<Rightarrow> string \<Rightarrow> 's \<Rightarrow> int \<times> 's" where
  "VWrite w v bytes =
     (if bytes = [] then Pair 0
      else returned (with_buffer w (of_nat (length bytes)) 0 (\<lambda>bufPtr.
             bindE (mem_write w bufPtr bytes) (\<lambda>ok.
             if \<not> ok then failE 0
             else bindE (call_or w 0 ''vterm_input_write''
                           [ucast (vt_vtPtr v), ucast bufPtr, of_nat (length bytes)])
                    (\<lambda>r. returnE (sint r))))))"

definition GetCursor :: "('e, 's) wasm \<Rightarrow> vterm \<Rightarrow> 's \<Rightarrow> (int \<times> int) \<times> 's" where
  "GetCursor w v =
     returned (with_buffer w 8 (0, 0) (\<lambda>posPtr.
       thenE (call_or w (0, 0) ''vterm_state_get_cursorpos'' [ucast (vt_statePtr v), ucast posPtr])
       (bindE (getE (wa_mem w)) (\<lambda>mem.
        returnE (sint (ReadUint32Le mem posPtr), sint (ReadUint32Le mem (posPtr + 4)))))))"

definition trim_blanks :: "string \<Rightarrow> string" where
  "trim_blanks text = rev (dropWhile (\<lambda>c. c = CHR '' '') (rev text))"

definition getRowTextLocked :: "('e, 's) wasm \<Rightarrow> vterm \<Rightarrow> int \<Rightarrow> 's \<Rightarrow> string \<times> 's" where
  "getRowTextLocked w v row =
     (let bufLen = of_int (vt_cols v * 4) :: u32 in
      returned (with_buffer w bufLen [] (\<lambda>bufPtr.
      with_buffer w 16 [] (\<lambda>rectPtr.
        thenE (mem_write w rectPtr (put32 (of_int row)))
        (thenE (mem_write w (rectPtr + 4) (put32 (of_int (row + 1))))
        (thenE (mem_write w (rectPtr + 8) (put32 0))
        (thenE (mem_write w (rectPtr + 12) (put32 (of_int (vt_cols v))))
        (bindE (call_or w [] ''vterm_screen_get_text''
                 [ucast (vt_screenPtr v), ucast bufPtr, ucast bufLen, ucast rectPtr]) (\<lambda>r.
         let textLen = sint r in
         if textLen = 0 then failE []
         else bindE (getE (wa_mem w)) (\<lambda>mem.
           (case mem_read mem bufPtr (unat (of_int textLen :: u32)) of
              None \<Rightarrow> failE []
            | Some text \<Rightarrow> returnE (trim_blanks text))))))))))))"

definition getCellLocked :: "('e, 's) wasm \<Rightarrow> cell_layout \<Rightarrow> vterm \<Rightarrow> int \<Rightarrow> int \<Rightarrow> 's \<Rightarrow> cell \<times> 's" where
  "getCellLocked w la v row col =
     returned (with_buffer w 8 no_cell (\<lambda>posPtr.
       thenE (mem_write w posPtr (put32 (of_int row)))
       (thenE (mem_write w (posPtr + 4) (put32 (of_int col)))
       (with_buffer w (la_size la) no_cell (\<lambda>cellPtr.
          thenE (call_or w no_cell ''vterm_screen_get_cell''
                  [ucast (vt_screenPtr v), ucast posPtr, ucast cellPtr])
          (bindE (getE (wa_mem w)) (\<lambda>mem. returnE (cellFromMemory la mem cellPtr))))))))"

text \<open>The same under the terminal's lock.\<close>

definition GetRowText :: "('e, 's) wasm \<Rightarrow> vterm \<Rightarrow> int \<Rightarrow> 's \<Rightarrow> string \<times> 's" where
  "GetRowText = getRowTextLocked"

definition GetCell :: "('e, 's) wasm \<Rightarrow> cell_layout \<Rightarrow> vterm \<Rightarrow> int \<Rightarrow> int \<Rightarrow> 's \<Rightarrow> cell \<times> 's" where
  "GetCell = getCellLocked"

section \<open>Screens\<close>

text \<open>The results of one method for each index of a range, in turn.\<close>

fun collect_from :: "('i \<Rightarrow> 's \<Rightarrow> 'a \<times> 's) \<Rightarrow> 'i list \<Rightarrow> 's \<Rightarrow> 'a list \<times> 's" where
  "collect_from f [] s = ([], s)"
| "collect_from f (i # is) s =
     (case f i s of (x, s') \<Rightarrow> (case collect_from f is s' of (xs, s'') \<Rightarrow> (x # xs, s'')))"

definition upto_int :: "int \<Rightarrow> int list" where
  "upto_int n = map int [0..<nat n]"

definition GetScreenText :: "('e, 's) wasm \<Rightarrow> vterm \<Rightarrow> 's \<Rightarrow> string \<times> 's" where
  "GetScreenText w v s =
     (case collect_from (getRowTextLocked w v) (upto_int (vt_rows v)) s of
        (ls, s') \<Rightarrow> (go_join ls [CHR 0x0A], s'))"

definition renderRowANSILocked :: "('e, 's) wasm \<Rightarrow> cell_layout \<Rightarrow> vterm \<Rightarrow> int \<Rightarrow> 's \<Rightarrow> string \<times> 's" where
  "renderRowANSILocked w la v row s =
     (case collect_from (getCellLocked w la v row) (upto_int (vt_cols v)) s of
        (cells, s') \<Rightarrow> (render_cells cells, s'))"

definition RenderRowANSI :: "('e, 's) wasm \<Rightarrow> cell_layout \<Rightarrow> vterm \<Rightarrow> int \<Rightarrow> 's \<Rightarrow> string \<times> 's" where
  "RenderRowANSI = renderRowANSILocked"

definition GetScreenANSI :: "('e, 's) wasm \<Rightarrow> cell_layout \<Rightarrow> vterm \<Rightarrow> 's \<Rightarrow> string \<times> 's" where
  "GetScreenANSI w la v s =
     (case collect_from (renderRowANSILocked w la v) (upto_int (vt_rows v)) s of
        (ls, s') \<Rightarrow> (go_join ls [CHR 0x0D, CHR 0x0A], s'))"

section \<open>Handles are not handed out twice\<close>

definition registry_ok :: "'v registry \<Rightarrow> bool" where
  "registry_ok g = (\<forall>h. re_handles g h \<noteq> None \<longrightarrow> unat h < unat (re_next g))"

lemma registry_ok_new: "registry_ok new_registry"
  by (simp add: registry_ok_def new_registry_def)

lemma registry_ok_register:
  assumes "registry_ok g" "re_next g \<noteq> - 1" "registerHandle v g = (h, g')"
  shows "registry_ok g'" "getVTermByHandle g h = None" "getVTermByHandle g' h = Some v"
    "\<And>k. k \<noteq> h \<Longrightarrow> getVTermByHandle g' k = getVTermByHandle g k"
proof -
  have h: "h = re_next g" and g': "g' = \<lparr>re_handles = (re_handles g)(re_next g \<mapsto> v), re_next = re_next g + 1\<rparr>"
    using assms(3) by (auto simp: registerHandle_def)
  have u: "unat (re_next g + 1) = Suc (unat (re_next g))"
    using assms(2) unatSuc [of "re_next g"] by (metis add.commute eq_neg_iff_add_eq_0)
  show "registry_ok g'"
    using assms(1) by (auto simp: g' registry_ok_def u less_Suc_eq)
  show "getVTermByHandle g h = None"
    using assms(1) unfolding h registry_ok_def getVTermByHandle_def by blast
qed (use assms in \<open>auto simp: registerHandle_def getVTermByHandle_def\<close>)

lemma registry_ok_unregister: "registry_ok g \<Longrightarrow> registry_ok (unregisterHandle h g)"
  by (auto simp: registry_ok_def unregisterHandle_def)

lemma free_once: "FreeVTerm w (fst (FreeVTerm w v gs)) (snd (FreeVTerm w v gs)) = FreeVTerm w v gs"
  by (simp add: FreeVTerm_def Let_def split: prod.splits if_splits)

section \<open>Buffers are given back\<close>

text \<open>
  What the binding relies on: \<open>malloc\<close> gives a new buffer, or none, \<open>free\<close> takes one back, and
  nothing else the module does touches the buffers handed out (\<open>live\<close>).
\<close>

definition well_allocated :: "('e, 's) wasm \<Rightarrow> ('s \<Rightarrow> u32 set) \<Rightarrow> bool" where
  "well_allocated w live =
     ((\<forall>n s. case wa_call w ''malloc'' [n] s of
         (Inl _, s') \<Rightarrow> live s' = live s
       | (Inr r, s') \<Rightarrow>
           if (ucast r :: u32) = 0 then live s' = live s
           else ucast r \<notin> live s \<and> live s' = insert (ucast r) (live s)) \<and>
      (\<forall>p s. live (snd (wa_call w ''free'' [ucast (p :: u32)] s)) = live s - {p}) \<and>
      (\<forall>fn args s. fn \<noteq> ''malloc'' \<longrightarrow> fn \<noteq> ''free'' \<longrightarrow> live (snd (wa_call w fn args s)) = live s) \<and>
      (\<forall>p b s. live (snd (wa_write w p b s)) = live s))"

lemma keeps_call_or:
  "well_allocated w live \<Longrightarrow> fn \<noteq> ''malloc'' \<Longrightarrow> fn \<noteq> ''free'' \<Longrightarrow> keeps live (call_or w d fn args)"
  unfolding call_or_def by (rule keeps_mapErr) (simp add: well_allocated_def keeps_def)

lemma keeps_mem_write: "well_allocated w live \<Longrightarrow> keeps live (mem_write w p b)"
  by (simp add: well_allocated_def keeps_def mem_write_def case_prod_beta)

lemma alloc_live:
  assumes "well_allocated w live" "alloc w n s = (r, s')"
  shows "case r of Inl _ \<Rightarrow> live s' = live s | Inr p \<Rightarrow> p \<notin> live s \<and> live s' = insert p (live s)"
proof -
  obtain q s1 where c: "wa_call w ''malloc'' [ucast n] s = (q, s1)" by fastforce
  have l: "case q of Inl _ \<Rightarrow> live s1 = live s
       | Inr r \<Rightarrow>
           if (ucast r :: u32) = 0 then live s1 = live s
           else ucast r \<notin> live s \<and> live s1 = insert (ucast r) (live s)"
    using conjunct1 [OF assms(1) [unfolded well_allocated_def], THEN spec [of _ "ucast n"], THEN spec [of _ s]]
    by (simp only: c prod.case)
  show ?thesis
  proof (cases q)
    case (Inl e)
    then show ?thesis using assms(2) l by (auto simp: alloc_def bindE_def mapErrE_def c)
  next
    case (Inr p)
    then show ?thesis using assms(2) l
      by (auto simp: alloc_def bindE_def mapErrE_def c Let_def split: if_splits)
  qed
qed

lemma keeps_with_buffer:
  assumes "well_allocated w live" "\<And>p. keeps live (body p)"
  shows "keeps live (with_buffer w n d body)"
  unfolding keeps_def
proof
  fix s
  obtain r s1 where a: "alloc w n s = (r, s1)" by fastforce
  note l = alloc_live [OF assms(1) a]
  show "live (snd (with_buffer w n d body s)) = live s"
  proof (cases r)
    case (Inl e)
    then show ?thesis using l by (simp add: with_buffer_def a)
  next
    case (Inr p)
    obtain r2 s2 where b: "body p s1 = (r2, s2)" by fastforce
    have "live s2 = live s1" using keepsD [OF assms(2) b] .
    moreover have "live (free w p s2) = live s2 - {p}"
      unfolding free_def
      by (rule conjunct1 [OF conjunct2 [OF assms(1) [unfolded well_allocated_def]], THEN spec, THEN spec])
    ultimately show ?thesis using l Inr by (simp add: with_buffer_def a b)
  qed
qed

lemma returned_keeps: "keeps live m \<Longrightarrow> live (snd (returned m s)) = live s"
  by (cases "m s"; cases "fst (m s)") (auto simp: returned_def dest: keepsD)

lemma collect_keeps:
  "(\<And>i s. live (snd (f i s)) = live s) \<Longrightarrow> live (snd (collect_from f is s)) = live s"
  by (induction f "is" s rule: collect_from.induct) (simp_all split: prod.splits, metis snd_conv)

lemmas buffer_keeps = keeps_bind keeps_then keeps_get keeps_return keeps_fail keeps_if
  keeps_call_or keeps_mem_write keeps_with_buffer

lemma VWrite_keeps: "well_allocated w live \<Longrightarrow> live (snd (VWrite w v bytes s)) = live s"
proof (cases "bytes = []")
  case False
  assume w: "well_allocated w live"
  show ?thesis unfolding VWrite_def if_not_P [OF False]
    by (intro returned_keeps buffer_keeps; simp add: w)
qed (simp add: VWrite_def)

lemma GetCursor_keeps: "well_allocated w live \<Longrightarrow> live (snd (GetCursor w v s)) = live s"
  unfolding GetCursor_def by (intro returned_keeps buffer_keeps; simp)

lemma row_text_keeps: "well_allocated w live \<Longrightarrow> live (snd (getRowTextLocked w v row s)) = live s"
  unfolding getRowTextLocked_def Let_def
  by (intro returned_keeps buffer_keeps; simp add: keeps_fail keeps_return split: option.split)

lemma get_cell_keeps: "well_allocated w live \<Longrightarrow> live (snd (getCellLocked w la v row col s)) = live s"
  unfolding getCellLocked_def by (intro returned_keeps buffer_keeps; simp)

lemma GetScreenText_keeps: "well_allocated w live \<Longrightarrow> live (snd (GetScreenText w v s)) = live s"
  using collect_keeps [of live "getRowTextLocked w v" "upto_int (vt_rows v)" s]
  by (simp add: GetScreenText_def row_text_keeps case_prod_beta)

lemma render_row_keeps: "well_allocated w live \<Longrightarrow> live (snd (renderRowANSILocked w la v row s)) = live s"
  using collect_keeps [of live "getCellLocked w la v row" "upto_int (vt_cols v)" s]
  by (simp add: renderRowANSILocked_def get_cell_keeps case_prod_beta)

lemma GetScreenANSI_keeps: "well_allocated w live \<Longrightarrow> live (snd (GetScreenANSI w la v s)) = live s"
  using collect_keeps [of live "renderRowANSILocked w la v" "upto_int (vt_rows v)" s]
  by (simp add: GetScreenANSI_def render_row_keeps case_prod_beta)

section \<open>Properties\<close>


text \<open>A module with room for two buffers.\<close>

definition small_module :: "(unit, u32 list) wasm" where
  "small_module =
     \<lparr>wa_mem = (\<lambda>s. []), wa_write = (\<lambda>p b s. (True, s)),
      wa_call = (\<lambda>fn args s.
        if fn = ''malloc'' then
          (if 8 \<notin> set s then (Inr 8, 8 # s) else if 16 \<notin> set s then (Inr 16, 16 # s) else (Inr 0, s))
        else if fn = ''free'' then (Inr 0, filter (\<lambda>p. p \<noteq> ucast (hd args)) s)
        else (Inr 0, s))\<rparr>"

lemma pointer_roundtrip: "(ucast (ucast p :: u64) :: u32) = p" for p :: u32
  by (rule bit_word_eqI) (simp add: bit_simps)

lemma small_module_ok: "well_allocated small_module set"
  by (auto simp: well_allocated_def small_module_def pointer_roundtrip)

definition small_terminal :: vterm where
  "small_terminal = \<lparr>vt_closed = False, vt_vtPtr = 1, vt_screenPtr = 2, vt_statePtr = 3,
     vt_rows = 24, vt_cols = 80, vt_handle = 1\<rparr>"


end
