(* ===== verification/TTYHost.thy ===== *)
theory TTYHost
  imports HostLifecycle TerminalBinding "HOL-Library.AList"
begin

text \<open>
  The host of an interactive session (\<open>internal/host/tty.go\<close>): its state, the callbacks it hangs
  on the terminal emulator, its control methods, and the attaching and detaching of clients. The
  emulator is the parameter \<open>em\<close>: what it holds after input or a new size, with the callbacks it
  makes on the way, and what it shows. The pseudo-terminal is its size and whether it is open.

  An attached client is entered with the size of its terminal and what was written to its pipe.
\<close>

section \<open>State\<close>

datatype emu_event = Pushed string | Prop int prop_value

record 'v emulator =
  em_write :: "string \<Rightarrow> 'v \<Rightarrow> 'v \<times> emu_event list"
  em_set_size :: "int \<Rightarrow> int \<Rightarrow> 'v \<Rightarrow> 'v \<times> emu_event list"
  em_ansi :: "'v \<Rightarrow> string"
  em_cursor :: "'v \<Rightarrow> int \<times> int"

record client =
  cl_rows :: int
  cl_cols :: int
  cl_sent :: "string list"

record tty_config =
  tc_sessionID :: string
  tc_command :: "string list"
  tc_tags :: fieldmap
  tc_started :: fieldmap

record 'v tty =
  t_rows :: int
  t_cols :: int
  t_vt :: 'v
  t_proc :: bool
  t_pty :: bool
  t_ptySize :: "u16 \<times> u16"
  t_running :: bool
  t_exitCode :: "int option"
  t_title :: string
  t_alternateScreen :: bool
  t_scrollback :: "string list"
  t_clients :: "(string \<times> client) list"
  t_nextClientID :: nat
  t_restart :: bool
  t_eventErr :: bool

definition maxScrollback :: nat where "maxScrollback = 10000"

text \<open>\<open>NewTTYHost\<close>; \<open>new\<close> makes the emulator for a size.\<close>

definition NewTTYHost ::
  "(int \<Rightarrow> int \<Rightarrow> 'x + 'v) \<Rightarrow> string \<Rightarrow> string list \<Rightarrow> int \<Rightarrow> int \<Rightarrow> fieldmap \<Rightarrow> fieldmap \<Rightarrow> 'x + (tty_config \<times> 'v tty)" where
  "NewTTYHost new sessionID command rows0 cols0 tags started =
     (let rows = (if rows0 \<le> 0 then 24 else rows0); cols = (if cols0 \<le> 0 then 80 else cols0) in
      case new rows cols of Inl e \<Rightarrow> Inl e
      | Inr vt \<Rightarrow>
          Inr (\<lparr>tc_sessionID = sessionID, tc_command = command,
                tc_tags = tags(FieldSession \<mapsto> sessionID), tc_started = started\<rparr>,
               \<lparr>t_rows = rows, t_cols = cols, t_vt = vt, t_proc = False, t_pty = False, t_ptySize = (0, 0),
                t_running = False, t_exitCode = None, t_title = [], t_alternateScreen = False,
                t_scrollback = [], t_clients = [], t_nextClientID = 0, t_restart = False, t_eventErr = False\<rparr>))"

section \<open>Callbacks of the emulator\<close>

text \<open>
  A line that leaves the screen: kept in the scrollback and written to the log, unless the
  alternate screen is active. \<open>ok\<close> is the outcome of the write, whose failure is reported.
\<close>

definition keep_line :: "string \<Rightarrow> string list \<Rightarrow> string list" where
  "keep_line line sb = (let sb = sb @ [line] in if length sb > maxScrollback then tl sb else sb)"

definition onPushLine :: "string \<Rightarrow> bool \<Rightarrow> 'v tty \<Rightarrow> 'v tty" where
  "onPushLine line ok t =
     (if t_alternateScreen t then t
      else t\<lparr>t_scrollback := keep_line line (t_scrollback t), t_eventErr := (t_eventErr t \<or> \<not> ok)\<rparr>)"

definition onTermProp :: "int \<Rightarrow> prop_value \<Rightarrow> 'v tty \<Rightarrow> 'v tty" where
  "onTermProp prop val t =
     (if prop = PropTitle then (case val of PString title \<Rightarrow> t\<lparr>t_title := title\<rparr> | _ \<Rightarrow> t)
      else if prop = PropAltScreen then (case val of PBool alt \<Rightarrow> t\<lparr>t_alternateScreen := alt\<rparr> | _ \<Rightarrow> t)
      else t)"

section \<open>Control methods\<close>

definition tty_Gist :: "tty_config \<Rightarrow> 'v tty \<Rightarrow> host_status" where
  "tty_Gist c t = \<lparr>st_Running = t_running t, st_ExitCode = t_exitCode t, st_Command = tc_command c\<rparr>"

definition tty_SendInput :: "(string \<Rightarrow> control_error + nat) \<Rightarrow> string \<Rightarrow> 'v tty \<Rightarrow> control_error + nat" where
  "tty_SendInput w data t = (if \<not> t_running t \<or> \<not> t_pty t then Inl NoProcess else w data)"

definition tty_Kill :: "(unit \<Rightarrow> control_error + unit) \<Rightarrow> 'v tty \<Rightarrow> control_error + unit" where
  "tty_Kill signal t = (if \<not> t_proc t then Inl NoProcess else signal ())"

definition closePTYMaster :: "'v tty \<Rightarrow> 'v tty" where
  "closePTYMaster t = t\<lparr>t_pty := False\<rparr>"

text \<open>\<open>running\<close> is false before \<open>RunTask\<close> has made the channel that a restart is signalled on.\<close>

definition tty_Restart :: "'v tty \<Rightarrow> (control_error + unit) \<times> 'v tty" where
  "tty_Restart t =
     (if \<not> t_running t then (Inl NoTaskRunning, t)
      else if t_restart t then (Inl RestartInProgress, t)
      else (Inr (), t\<lparr>t_restart := True\<rparr>))"

definition u16_of :: "int \<Rightarrow> u16" where "u16_of i = of_int i"

text \<open>The callbacks that the emulator makes while it is resized come after it, here without the lock.\<close>

definition Resize :: "'v emulator \<Rightarrow> int \<Rightarrow> int \<Rightarrow> 'v tty \<Rightarrow> 'v tty \<times> emu_event list" where
  "Resize em rows cols t =
     (case em_set_size em rows cols (t_vt t) of (vt, evs) \<Rightarrow>
        let t = t\<lparr>t_rows := rows, t_cols := cols, t_vt := vt\<rparr> in
        (if t_pty t then t\<lparr>t_ptySize := (u16_of rows, u16_of cols)\<rparr> else t, evs))"

definition GetScrollback :: "int \<Rightarrow> 'v tty \<Rightarrow> string list" where
  "GetScrollback n t =
     (if n \<le> 0 \<or> t_scrollback t = [] then []
      else let count = min (nat n) (length (t_scrollback t)) in drop (length (t_scrollback t) - count) (t_scrollback t))"

definition GetTitle :: "'v tty \<Rightarrow> string" where "GetTitle t = t_title t"

definition GetMode :: "'v tty \<Rightarrow> bool" where "GetMode t = t_alternateScreen t"

section \<open>Clients\<close>

datatype attach_error = TooSmall int int int int | PipeFailed

definition default_size :: "int \<Rightarrow> int \<Rightarrow> int \<times> int" where
  "default_size clientRows clientCols =
     (if clientRows \<le> 0 then 24 else clientRows, if clientCols \<le> 0 then 80 else clientCols)"

text \<open>
  The size when a client comes: the first one sets it, a later one must have room for it. The
  callbacks that the emulator makes while it is resized are the second part of the result.
\<close>

definition attach_size ::
  "'v emulator \<Rightarrow> int \<Rightarrow> int \<Rightarrow> 'v tty \<Rightarrow> attach_error + ('v tty \<times> emu_event list)" where
  "attach_size em clientRows clientCols t =
     (if t_clients t = [] then
        (case em_set_size em clientRows clientCols (t_vt t) of (vt, evs) \<Rightarrow>
           let t = t\<lparr>t_rows := clientRows, t_cols := clientCols, t_vt := vt\<rparr> in
           Inr (if t_pty t then t\<lparr>t_ptySize := (u16_of clientRows, u16_of clientCols)\<rparr> else t, evs))
      else if clientRows < t_rows t \<or> clientCols < t_cols t
        then Inl (TooSmall (t_cols t) (t_rows t) clientCols clientRows)
      else Inr (t, []))"

definition screen_snapshot :: "'v emulator \<Rightarrow> 'v \<Rightarrow> string" where
  "screen_snapshot em vt =
     (case em_cursor em vt of (curRow, curCol) \<Rightarrow>
        em_ansi em vt @ ESC # ''['' @ itoa (curRow + 1) @ '';'' @ itoa (curCol + 1) @ ''H'')"

record attached =
  as_rows :: int
  as_cols :: int
  as_screenANSI :: string
  as_clientID :: string

definition add_client :: "'v emulator \<Rightarrow> int \<Rightarrow> int \<Rightarrow> 'v tty \<Rightarrow> attached \<times> 'v tty" where
  "add_client em clientRows clientCols t =
     (let n = t_nextClientID t + 1; clientID = CHR ''c'' # itoa (int n) in
      (\<lparr>as_rows = t_rows t, as_cols = t_cols t, as_screenANSI = screen_snapshot em (t_vt t), as_clientID = clientID\<rparr>,
       t\<lparr>t_nextClientID := n,
         t_clients := AList.update clientID \<lparr>cl_rows = clientRows, cl_cols = clientCols, cl_sent = []\<rparr> (t_clients t)\<rparr>))"

text \<open>
  \<open>pipes\<close>: both pipes could be made. An attach whose resizing makes callbacks does not come to
  an end: a callback takes the lock that the attach holds.
\<close>

definition attachFilesLocked ::
  "'v emulator \<Rightarrow> bool \<Rightarrow> int \<Rightarrow> int \<Rightarrow> 'v tty \<Rightarrow> ((attach_error + attached) \<times> 'v tty) option" where
  "attachFilesLocked em pipes clientRows clientCols t =
     (case default_size clientRows clientCols of (rows, cols) \<Rightarrow>
        (case attach_size em rows cols t of
           Inl e \<Rightarrow> Some (Inl e, t)
         | Inr (t', evs) \<Rightarrow>
             if evs \<noteq> [] then None
             else if \<not> pipes then Some (Inl PipeFailed, t')
             else (case add_client em rows cols t' of (a, t'') \<Rightarrow> Some (Inr a, t''))))"

definition Detach :: "string \<Rightarrow> 'v tty \<Rightarrow> bool \<times> 'v tty" where
  "Detach clientID t =
     (case map_of (t_clients t) clientID of
        None \<Rightarrow> (False, t)
      | Some _ \<Rightarrow> (True, t\<lparr>t_clients := AList.delete clientID (t_clients t)\<rparr>))"

text \<open>The end of \<open>forwardAttachedInput\<close>: the client is forgotten, if it still is attached.\<close>

definition input_closed :: "string \<Rightarrow> 'v tty \<Rightarrow> 'v tty" where
  "input_closed clientID t = t\<lparr>t_clients := AList.delete clientID (t_clients t)\<rparr>"

definition GetAttachedClients :: "'v tty \<Rightarrow> nat \<times> int \<times> int" where
  "GetAttachedClients t = (length (t_clients t), t_rows t, t_cols t)"

definition broadcast :: "string \<Rightarrow> 'v tty \<Rightarrow> 'v tty" where
  "broadcast b t = t\<lparr>t_clients := map (\<lambda>(i, cl). (i, cl\<lparr>cl_sent := cl_sent cl @ [b]\<rparr>)) (t_clients t)\<rparr>"

text \<open>\<open>startTTYProcess\<close> once the process runs, and \<open>Close\<close>.\<close>

definition tty_started :: "'v tty \<Rightarrow> 'v tty" where
  "tty_started t = t\<lparr>t_proc := True, t_pty := True, t_running := True,
     t_ptySize := (u16_of (t_rows t), u16_of (t_cols t))\<rparr>"

definition tty_finished :: "'v tty \<Rightarrow> 'v tty" where
  "tty_finished t = t\<lparr>t_running := False, t_proc := False, t_pty := False\<rparr>"

definition tty_Close :: "'v tty \<Rightarrow> 'v tty" where
  "tty_Close t = t\<lparr>t_pty := False\<rparr>"

end
