(* ===== verification/TTYLifecycle.thy ===== *)
theory TTYLifecycle
  imports TTYHost
begin

text \<open>
  The life of an interactive session (\<open>RunTask\<close>, \<open>startTTYProcess\<close> and the methods that run
  beside them in \<open>internal/host/tty.go\<close>) as a step relation, with the two locks involved: the
  lock of the host, and the lock of the terminal, which its methods hold while the emulator
  runs and makes its callbacks, and which is taken under the lock of the host when a client
  attaches. A step is what one goroutine does up to where it next has to wait.
\<close>

section \<open>States\<close>

text \<open>
  The goroutine that reads the pseudo-terminal and then sees the process off: its code and the
  screen it saves are what it has in hand.
\<close>

datatype tty_reader =
    NoReader | Reading | GotExit int | GotScreen int string | ScreenSaved int | ExitSaved int | ReaderDone int

text \<open>
  The lock of the host between two steps: free, or held by a client that attaches and has not
  got the lock of the terminal yet, or that has got it and is caught in one of its own callbacks.
\<close>

datatype host_lock = Unlocked | AttachWaits bool int int | AttachCaught

text \<open>
  \<open>s_chunk\<close> is what was read and is not sent to the clients yet, \<open>s_writing\<close> that it is being
  written to the terminal, and \<open>s_events\<close> the callbacks the emulator has still to make, for that
  write or for a change of size; the lock of the terminal is held as long as there are any.
  \<open>s_base\<close>, \<open>s_failed\<close> and \<open>s_final\<close> are read by no step: where the log stood when the task was
  started, that one of its writes failed before \<open>RunTask\<close> returned, and the screen its reader found at
  its end.
\<close>

record 'v tsys =
  s_t :: "'v tty"
  s_phase :: phase
  s_reader :: tty_reader
  s_chunk :: "string option"
  s_writing :: bool
  s_events :: "emu_event list"
  s_lock :: host_lock
  s_cancelled :: bool
  s_log :: fake_journal
  s_base :: nat
  s_failed :: bool
  s_final :: string

definition terminal_free :: "'v tsys \<Rightarrow> bool" where
  "terminal_free s = (\<not> s_writing s \<and> s_events s = [] \<and> s_lock s \<noteq> AttachCaught)"

definition tty_logged :: "bool \<Rightarrow> fake_journal \<Rightarrow> 'v tsys \<Rightarrow> 'v tsys" where
  "tty_logged ok f s =
     (if ok then s\<lparr>s_log := f\<rparr>
      else s\<lparr>s_log := f, s_t := (s_t s)\<lparr>t_eventErr := True\<rparr>,
             s_failed := (case s_phase s of Returned _ \<Rightarrow> s_failed s | _ \<Rightarrow> True)\<rparr>)"

definition tty_start :: "'v tsys \<Rightarrow> 'v tsys" where
  "tty_start s = s\<lparr>s_t := tty_started (s_t s), s_phase := EmitStart, s_reader := Reading,
     s_chunk := None, s_writing := False, s_base := length (fj_entries (s_log s)), s_failed := False\<rparr>"

definition tsys_init :: "'v tty \<Rightarrow> fake_journal \<Rightarrow> 'v tsys" where
  "tsys_init t f0 = \<lparr>s_t = t, s_phase = Starting, s_reader = NoReader, s_chunk = None, s_writing = False,
     s_events = [], s_lock = Unlocked, s_cancelled = False, s_log = f0, s_base = 0, s_failed = False,
     s_final = []\<rparr>"

section \<open>Steps\<close>

inductive tty_step :: "'v emulator \<Rightarrow> tty_config \<Rightarrow> 'v tsys \<Rightarrow> 'v tsys \<Rightarrow> bool" for em c where
  start_failed: "s_phase s = Starting \<Longrightarrow> tty_step em c s (s\<lparr>s_phase := Returned StartFailed\<rparr>)"
| started: "s_phase s = Starting \<Longrightarrow> s_lock s = Unlocked \<Longrightarrow> tty_step em c s (tty_start s)"
| emit_started: "s_phase s = EmitStart \<Longrightarrow>
    EmitStarted (\<lambda>m fs. (m, fs)) (tc_sessionID c) (tc_command c) (mergeFields (tc_tags c) (tc_started c)) = (m, fs) \<Longrightarrow>
    logs m fs (s_log s) ok f \<Longrightarrow>
    tty_step em c s (s\<lparr>s_log := f, s_phase := (if ok then Notify else Terminating EventError)\<rparr>)"
| notified: "s_phase s = Notify \<Longrightarrow> tty_step em c s (s\<lparr>s_phase := Waiting\<rparr>)"
| notify_failed: "s_phase s = Notify \<Longrightarrow> tty_step em c s (s\<lparr>s_phase := Terminating NotifyFailed\<rparr>)"
| read_chunk: "s_reader s = Reading \<Longrightarrow> s_chunk s = None \<Longrightarrow> t_pty (s_t s) \<Longrightarrow> terminal_free s \<Longrightarrow>
    em_write em b (t_vt (s_t s)) = (vt, evs) \<Longrightarrow>
    tty_step em c s (s\<lparr>s_t := (s_t s)\<lparr>t_vt := vt\<rparr>, s_chunk := Some b, s_writing := True, s_events := evs\<rparr>)"
| line_pushed: "s_events s = Pushed line # evs \<Longrightarrow> s_lock s = Unlocked \<Longrightarrow> \<not> t_alternateScreen (s_t s) \<Longrightarrow>
    WriteOutput (\<lambda>m fs. (m, fs)) 1 line (tc_tags c) = (m, fs) \<Longrightarrow> logs m fs (s_log s) ok f \<Longrightarrow>
    tty_step em c s (tty_logged ok f (s\<lparr>s_t := onPushLine line ok (s_t s), s_events := evs\<rparr>))"
| line_dropped: "s_events s = Pushed line # evs \<Longrightarrow> s_lock s = Unlocked \<Longrightarrow> t_alternateScreen (s_t s) \<Longrightarrow>
    tty_step em c s (s\<lparr>s_t := onPushLine line ok (s_t s), s_events := evs\<rparr>)"
| prop_set: "s_events s = Prop prop val # evs \<Longrightarrow> s_lock s = Unlocked \<Longrightarrow>
    tty_step em c s (s\<lparr>s_t := onTermProp prop val (s_t s), s_events := evs\<rparr>)"
| written: "s_writing s \<Longrightarrow> s_events s = [] \<Longrightarrow> tty_step em c s (s\<lparr>s_writing := False\<rparr>)"
| sent: "s_chunk s = Some b \<Longrightarrow> \<not> s_writing s \<Longrightarrow> s_lock s = Unlocked \<Longrightarrow>
    tty_step em c s (s\<lparr>s_t := broadcast b (s_t s), s_chunk := None\<rparr>)"
| exited: "s_reader s = Reading \<Longrightarrow> s_chunk s = None \<Longrightarrow> s_lock s = Unlocked \<Longrightarrow>
    tty_step em c s (s\<lparr>s_t := (s_t s)\<lparr>t_exitCode := Some code\<rparr>, s_reader := GotExit code\<rparr>)"
| snapshot: "s_reader s = GotExit code \<Longrightarrow> terminal_free s \<Longrightarrow> em_ansi em (t_vt (s_t s)) = screen \<Longrightarrow>
    tty_step em c s (s\<lparr>s_reader := GotScreen code screen, s_final := screen\<rparr>)"
| save_screen: "s_reader s = GotScreen code screen \<Longrightarrow> s_lock s = Unlocked \<Longrightarrow>
    EmitScreen (\<lambda>m fs. (m, fs)) (tc_sessionID c) screen (t_rows (s_t s)) (t_cols (s_t s)) = (m, fs) \<Longrightarrow>
    logs m fs (s_log s) ok f \<Longrightarrow>
    tty_step em c s (tty_logged ok f (s\<lparr>s_reader := ScreenSaved code\<rparr>))"
| save_exit: "s_reader s = ScreenSaved code \<Longrightarrow>
    EmitExited (\<lambda>m fs. (m, fs)) (tc_sessionID c) code (tc_command c) (mergeFields (tc_tags c) (ExitFields usage)) = (m, fs) \<Longrightarrow>
    logs m fs (s_log s) ok f \<Longrightarrow>
    tty_step em c s (tty_logged ok f (s\<lparr>s_reader := ExitSaved code\<rparr>))"
| cleaned_up: "s_reader s = ExitSaved code \<Longrightarrow> s_lock s = Unlocked \<Longrightarrow>
    tty_step em c s (s\<lparr>s_t := tty_finished (s_t s), s_reader := ReaderDone code\<rparr>)"
| task_done: "s_phase s = Waiting \<Longrightarrow> s_reader s = ReaderDone code \<Longrightarrow>
    tty_step em c s (s\<lparr>s_phase := Returned (if t_eventErr (s_t s) then EventError else RunOk),
                      s_t := (s_t s)\<lparr>t_eventErr := False\<rparr>\<rparr>)"
| event_error: "s_phase s = Waiting \<Longrightarrow> t_eventErr (s_t s) \<Longrightarrow>
    tty_step em c s (s\<lparr>s_phase := Terminating EventError, s_t := (s_t s)\<lparr>t_eventErr := False\<rparr>\<rparr>)"
| restart: "s_phase s = Waiting \<Longrightarrow> t_restart (s_t s) \<Longrightarrow>
    tty_step em c s (s\<lparr>s_phase := Restarting, s_t := (s_t s)\<lparr>t_restart := False\<rparr>\<rparr>)"
| cancelled: "s_phase s = Waiting \<Longrightarrow> s_cancelled s \<Longrightarrow> tty_step em c s (s\<lparr>s_phase := Terminating Cancelled\<rparr>)"
| close_pty: "s_phase s = Restarting \<or> s_phase s = Terminating r \<Longrightarrow> s_lock s = Unlocked \<Longrightarrow>
    tty_step em c s (s\<lparr>s_t := closePTYMaster (s_t s)\<rparr>)"
| terminated: "s_phase s = Terminating r \<Longrightarrow> s_reader s = ReaderDone code \<Longrightarrow>
    tty_step em c s (s\<lparr>s_phase := Returned r\<rparr>)"
| restarted: "s_phase s = Restarting \<Longrightarrow> s_reader s = ReaderDone code \<Longrightarrow> tty_step em c s (s\<lparr>s_phase := Starting\<rparr>)"
| record_stats: "\<forall>r. s_phase s \<noteq> Returned r \<Longrightarrow>
    logs (Line oor usage) (mergeFields (tc_tags c) [FieldEvent \<mapsto> EventStats, FieldStats \<mapsto> data]) (s_log s) ok f \<Longrightarrow>
    tty_step em c s (s\<lparr>s_log := f\<rparr>)"
| ask_restart: "s_lock s = Unlocked \<Longrightarrow> tty_Restart (s_t s) = (r, t) \<Longrightarrow> tty_step em c s (s\<lparr>s_t := t\<rparr>)"
| cancel: "tty_step em c s (s\<lparr>s_cancelled := True\<rparr>)"
| attach: "s_lock s = Unlocked \<Longrightarrow> tty_step em c s (s\<lparr>s_lock := AttachWaits pipes rows cols\<rparr>)"
| attached: "s_lock s = AttachWaits pipes rows cols \<Longrightarrow> terminal_free s \<Longrightarrow>
    attachFilesLocked em pipes rows cols (s_t s) = Some (r, t) \<Longrightarrow>
    tty_step em c s (s\<lparr>s_lock := Unlocked, s_t := t\<rparr>)"
| attach_caught: "s_lock s = AttachWaits pipes rows cols \<Longrightarrow> terminal_free s \<Longrightarrow>
    attachFilesLocked em pipes rows cols (s_t s) = None \<Longrightarrow>
    tty_step em c s (s\<lparr>s_lock := AttachCaught\<rparr>)"
| detach: "s_lock s = Unlocked \<Longrightarrow> Detach clientID (s_t s) = (r, t) \<Longrightarrow> tty_step em c s (s\<lparr>s_t := t\<rparr>)"
| client_gone: "s_lock s = Unlocked \<Longrightarrow> tty_step em c s (s\<lparr>s_t := input_closed clientID (s_t s)\<rparr>)"
| resize: "s_lock s = Unlocked \<Longrightarrow> terminal_free s \<Longrightarrow> Resize em rows cols (s_t s) = (t, evs) \<Longrightarrow>
    tty_step em c s (s\<lparr>s_t := t, s_events := evs\<rparr>)"

inductive tty_reachable :: "'v emulator \<Rightarrow> tty_config \<Rightarrow> 'v tty \<Rightarrow> fake_journal \<Rightarrow> 'v tsys \<Rightarrow> bool" for em c t0 f0 where
  init: "tty_reachable em c t0 f0 (tsys_init t0 f0)"
| step: "tty_reachable em c t0 f0 s \<Longrightarrow> tty_step em c s s' \<Longrightarrow> tty_reachable em c t0 f0 s'"

section \<open>Deadlock\<close>

text \<open>
  A client that attaches holds the lock of the host and waits for the terminal, while the
  terminal waits to make a callback that needs the lock of the host; or the client itself is
  caught in such a callback. The task is not over.
\<close>

definition deadlocked :: "'v tsys \<Rightarrow> bool" where
  "deadlocked s \<longleftrightarrow>
     (s_lock s = AttachCaught \<or> (\<exists>pipes rows cols. s_lock s = AttachWaits pipes rows cols) \<and> s_events s \<noteq> []) \<and>
     s_reader s \<noteq> NoReader \<and> (\<forall>code. s_reader s \<noteq> ReaderDone code) \<and>
     s_phase s \<noteq> Starting \<and> (\<forall>r. s_phase s \<noteq> Returned r)"

lemma deadlocked_step: "tty_step em c s s' \<Longrightarrow> deadlocked s \<Longrightarrow> deadlocked s'"
  by (erule tty_step.cases) (auto simp: deadlocked_def tty_logged_def terminal_free_def)

lemma deadlocked_steps: "(tty_step em c)\<^sup>*\<^sup>* s s' \<Longrightarrow> deadlocked s \<Longrightarrow> deadlocked s'"
  by (induction rule: rtranclp_induct) (auto intro: deadlocked_step)

section \<open>Invariants\<close>

text \<open>How \<open>RunTask\<close> and the goroutine that reads keep in step.\<close>

definition tinv_phase :: "'v tsys \<Rightarrow> bool" where
  "tinv_phase s \<longleftrightarrow> s_phase s \<noteq> Terminating RunOk \<and>
     (s_phase s = Starting \<longrightarrow> s_reader s = NoReader \<or> (\<exists>code. s_reader s = ReaderDone code)) \<and>
     (s_reader s = NoReader \<longrightarrow> s_phase s = Starting \<or> s_phase s = Returned StartFailed) \<and>
     (\<forall>r. s_phase s = Returned r \<longrightarrow> (\<exists>code. s_reader s = ReaderDone code) \<or> s_reader s = NoReader \<and> r = StartFailed)"

text \<open>\<open>simp\<close> finds the changes a step makes to the parts of the state.\<close>

lemmas tty_update_defs = tty_logged_def tty_start_def tty_started_def tty_finished_def closePTYMaster_def
  onPushLine_def onTermProp_def broadcast_def input_closed_def

lemma tinv_phase_step: "tty_step em c s s' \<Longrightarrow> tinv_phase s \<Longrightarrow> tinv_phase s'"
  by (erule tty_step.cases) (auto simp: tinv_phase_def tty_logged_def tty_start_def)

definition tinv_base :: "fake_journal \<Rightarrow> 'v tsys \<Rightarrow> bool" where
  "tinv_base f0 s \<longleftrightarrow> s_base s \<le> length (fj_entries (s_log s)) \<and> fj_closed (s_log s) = fj_closed f0"

lemma logs_closed: "logs m fs f ok f' \<Longrightarrow> fj_closed f' = fj_closed f"
  by (erule logsE) (auto simp: FakeWrite_def writeEntry_def Let_def split: if_splits)

lemma tinv_base_step: "tty_step em c s s' \<Longrightarrow> tinv_base f0 s \<Longrightarrow> tinv_base f0 s'"
  by (erule tty_step.cases)
    (auto simp: tinv_base_def tty_logged_def tty_start_def dest: logs_length logs_closed)

text \<open>The code in hand is the one that is reported.\<close>

definition tinv_code :: "'v tsys \<Rightarrow> bool" where
  "tinv_code s \<longleftrightarrow> (case s_reader s of
     NoReader \<Rightarrow> True | Reading \<Rightarrow> True
   | GotExit code \<Rightarrow> t_exitCode (s_t s) = Some code
   | GotScreen code screen \<Rightarrow> t_exitCode (s_t s) = Some code \<and> s_final s = screen
   | ScreenSaved code \<Rightarrow> t_exitCode (s_t s) = Some code
   | ExitSaved code \<Rightarrow> t_exitCode (s_t s) = Some code
   | ReaderDone code \<Rightarrow> t_exitCode (s_t s) = Some code)"

lemma attach_exitCode: "attachFilesLocked em p r k t = Some (x, t') \<Longrightarrow> t_exitCode t' = t_exitCode t"
  by (auto simp: attachFilesLocked_def attach_size_def add_client_def default_size_def Let_def
      split: prod.splits sum.splits if_splits)

lemma method_exitCode:
  "Detach i t = (b, t') \<Longrightarrow> t_exitCode t' = t_exitCode t"
  "tty_Restart t = (x, t') \<Longrightarrow> t_exitCode t' = t_exitCode t"
  "Resize em rows cols t = (t', evs) \<Longrightarrow> t_exitCode t' = t_exitCode t"
  by (auto simp: Detach_def tty_Restart_def Resize_def Let_def split: option.splits if_splits prod.splits)

lemma update_exitCode [simp]:
  "t_exitCode (onPushLine line ok t) = t_exitCode t" "t_exitCode (onTermProp prop val t) = t_exitCode t"
  "t_exitCode (broadcast b t) = t_exitCode t" "t_exitCode (input_closed i t) = t_exitCode t"
  "t_exitCode (closePTYMaster t) = t_exitCode t" "t_exitCode (tty_finished t) = t_exitCode t"
  by (simp_all add: tty_update_defs split: prop_value.split)

lemma tinv_code_step: "tty_step em c s s' \<Longrightarrow> tinv_code s \<Longrightarrow> tinv_code s'"
  by (erule tty_step.cases)
    (auto simp: tinv_code_def tty_logged_def tty_start_def attach_exitCode method_exitCode split: tty_reader.splits)

text \<open>A failed write is on its way to the result.\<close>

definition tinv_failed :: "'v tsys \<Rightarrow> bool" where
  "tinv_failed s \<longleftrightarrow> (s_failed s \<longrightarrow>
     t_eventErr (s_t s) \<and> s_phase s \<noteq> Returned RunOk \<or> s_phase s \<in> {Terminating EventError, Returned EventError})"

lemma attach_eventErr: "attachFilesLocked em p r k t = Some (x, t') \<Longrightarrow> t_eventErr t' = t_eventErr t"
  by (auto simp: attachFilesLocked_def attach_size_def add_client_def default_size_def Let_def
      split: prod.splits sum.splits if_splits)

lemma method_eventErr:
  "Detach i t = (b, t') \<Longrightarrow> t_eventErr t' = t_eventErr t"
  "tty_Restart t = (x, t') \<Longrightarrow> t_eventErr t' = t_eventErr t"
  "Resize em rows cols t = (t', evs) \<Longrightarrow> t_eventErr t' = t_eventErr t"
  by (auto simp: Detach_def tty_Restart_def Resize_def Let_def split: option.splits if_splits prod.splits)

lemma update_eventErr [simp]:
  "t_eventErr (onPushLine line ok t) = (t_eventErr t \<or> \<not> t_alternateScreen t \<and> \<not> ok)"
  "t_eventErr (onTermProp prop val t) = t_eventErr t"
  "t_eventErr (broadcast b t) = t_eventErr t" "t_eventErr (input_closed i t) = t_eventErr t"
  "t_eventErr (closePTYMaster t) = t_eventErr t" "t_eventErr (tty_finished t) = t_eventErr t"
  by (auto simp add: tty_update_defs split: prop_value.split)

lemma tinv_failed_step:
  "tty_step em c s s' \<Longrightarrow> tinv_failed s \<Longrightarrow> tinv_phase s \<Longrightarrow> tinv_failed s'"
  by (erule tty_step.cases)
    (auto simp: tinv_failed_def tinv_phase_def tty_logged_def tty_start_def attach_eventErr method_eventErr
      split: phase.splits)

section \<open>The log of a task\<close>

definition is_screen :: "event_record \<Rightarrow> bool" where
  "is_screen e = (ev_field e FieldEvent = EventScreen)"

text \<open>The tags of a session do not pose as events.\<close>

definition tags_ok :: "tty_config \<Rightarrow> bool" where
  "tags_ok c = (tc_tags c FieldEvent = None)"

definition tty_log :: "'v tsys \<Rightarrow> event_record list" where
  "tty_log s = drop (s_base s) (fj_entries (s_log s))"

text \<open>The records of a task: \<open>k\<close> of its screens, \<open>n\<close> of its exits.\<close>

definition screen_saved :: "tty_config \<Rightarrow> string \<Rightarrow> event_record list \<Rightarrow> bool" where
  "screen_saved c screen es \<longleftrightarrow> (\<exists>x. filter is_screen es = [x] \<and> ev_Message x = screen \<and>
     ev_Fields x FieldEvent = Some EventScreen \<and> ev_Fields x FieldSession = Some (tc_sessionID c))"

definition exit_saved :: "int \<Rightarrow> event_record list \<Rightarrow> bool" where
  "exit_saved code es \<longleftrightarrow> (\<exists>y. filter exits es = [y] \<and> ev_Fields y FieldExitCode = Some (itoa code))"

definition reader_log :: "tty_config \<Rightarrow> string \<Rightarrow> tty_reader \<Rightarrow> event_record list \<Rightarrow> bool" where
  "reader_log c final rd es \<longleftrightarrow> (case rd of
     NoReader \<Rightarrow> True
   | Reading \<Rightarrow> filter is_screen es = [] \<and> filter exits es = []
   | GotExit _ \<Rightarrow> filter is_screen es = [] \<and> filter exits es = []
   | GotScreen _ _ \<Rightarrow> filter is_screen es = [] \<and> filter exits es = []
   | ScreenSaved _ \<Rightarrow> screen_saved c final es \<and> filter exits es = []
   | ExitSaved code \<Rightarrow> screen_saved c final es \<and> exit_saved code es
   | ReaderDone code \<Rightarrow> screen_saved c final es \<and> exit_saved code es)"

definition start_log :: "phase \<Rightarrow> event_record list \<Rightarrow> bool" where
  "start_log p es \<longleftrightarrow> (p = EmitStart \<longrightarrow> filter starts es = []) \<and>
     (p \<in> {Notify, Waiting, Returned RunOk} \<longrightarrow> (\<exists>r. filter starts es = [r]))"

definition tinv_log :: "tty_config \<Rightarrow> 'v tsys \<Rightarrow> bool" where
  "tinv_log c s \<longleftrightarrow> start_log (s_phase s) (tty_log s) \<and>
     (s_failed s \<or> reader_log c (s_final s) (s_reader s) (tty_log s))"

lemmas tty_kind_defs = starts_def exits_def is_screen_def ev_field_def field_names mergeFields_def
  output_fields_def started_fields_def exited_fields_def tags_ok_def map_add_def

lemma tty_kind_started:
  "ev_Fields r = started_fields sid cmd fs \<Longrightarrow> starts r \<and> \<not> exits r \<and> \<not> is_screen r"
  by (simp add: tty_kind_defs)

lemma tty_kind_exited:
  "ev_Fields r = exited_fields sid code cmd fs \<Longrightarrow>
   exits r \<and> \<not> starts r \<and> \<not> is_screen r \<and> ev_Fields r FieldExitCode = Some (itoa code)"
  by (simp add: tty_kind_defs)

lemma tty_kind_screen:
  "ev_Fields r = [FieldEvent \<mapsto> EventScreen, FieldSession \<mapsto> sid, ''ROWS'' \<mapsto> rows, ''COLS'' \<mapsto> cols] \<Longrightarrow>
   is_screen r \<and> \<not> exits r \<and> \<not> starts r \<and> ev_Fields r FieldEvent = Some EventScreen \<and>
   ev_Fields r FieldSession = Some sid"
  by (simp add: tty_kind_defs FieldSession_def)

lemma tty_kind_stats:
  "tags_ok c \<Longrightarrow> ev_Fields r = mergeFields (tc_tags c) [FieldEvent \<mapsto> EventStats, FieldStats \<mapsto> data] \<Longrightarrow>
   \<not> exits r \<and> \<not> starts r \<and> \<not> is_screen r"
  by (simp add: tty_kind_defs FieldStats_def)

lemma tty_kind_output:
  "tags_ok c \<Longrightarrow> ev_Fields r = output_fields fd (tc_tags c) \<Longrightarrow> \<not> exits r \<and> \<not> starts r \<and> \<not> is_screen r"
  by (simp add: tty_kind_defs)

lemma reader_log_other:
  "\<not> is_screen r \<Longrightarrow> \<not> exits r \<Longrightarrow> reader_log c final rd (es @ [r]) = reader_log c final rd es"
  by (simp add: reader_log_def screen_saved_def exit_saved_def split: tty_reader.split)

lemma start_log_other: "\<not> starts r \<Longrightarrow> start_log p (es @ [r]) = start_log p es"
  by (simp add: start_log_def)

lemma tty_log_write:
  assumes "logs m fs (s_log s) ok f" and "tinv_base f0 s"
  shows "ok \<and> (\<exists>r. drop (s_base s) (fj_entries f) = tty_log s @ [r] \<and> ev_Message r = m \<and> ev_Fields r = fs) \<or>
    \<not> ok \<and> f = s_log s"
  using logs_entries [OF assms(1)] assms(2) by (auto simp: tty_log_def tinv_base_def split: if_splits)

lemma drop_tty_log: "drop (s_base s) (fj_entries (s_log s)) = tty_log s"
  by (simp add: tty_log_def)

lemma tty_log_simps [simp]:
  "tty_log (s\<lparr>s_t := t\<rparr>) = tty_log s" "tty_log (s\<lparr>s_phase := p\<rparr>) = tty_log s"
  "tty_log (s\<lparr>s_reader := rd\<rparr>) = tty_log s" "tty_log (s\<lparr>s_chunk := b\<rparr>) = tty_log s"
  "tty_log (s\<lparr>s_writing := w\<rparr>) = tty_log s" "tty_log (s\<lparr>s_events := evs\<rparr>) = tty_log s"
  "tty_log (s\<lparr>s_lock := l\<rparr>) = tty_log s" "tty_log (s\<lparr>s_cancelled := w\<rparr>) = tty_log s"
  "tty_log (s\<lparr>s_failed := w\<rparr>) = tty_log s" "tty_log (s\<lparr>s_final := b'\<rparr>) = tty_log s"
  "tty_log (s\<lparr>s_log := f\<rparr>) = drop (s_base s) (fj_entries f)" "tty_log (tty_start s) = []"
  by (simp_all add: tty_log_def tty_start_def)

lemma tty_logged_simps [simp]:
  "s_phase (tty_logged ok f s) = s_phase s" "s_reader (tty_logged ok f s) = s_reader s"
  "s_final (tty_logged ok f s) = s_final s" "s_log (tty_logged ok f s) = f" "s_base (tty_logged ok f s) = s_base s"
  "tty_log (tty_logged ok f s) = drop (s_base s) (fj_entries f)"
  "s_failed (tty_logged ok f s) = (s_failed s \<or> \<not> ok \<and> (\<forall>r. s_phase s \<noteq> Returned r))"
  by (auto simp add: tty_log_def tty_logged_def split: phase.split)

lemma tinv_log_step:
  assumes "tty_step em c s s'" and "tinv_log c s" and "tinv_base f0 s" and "tinv_phase s"
    and "tinv_code s" and "tags_ok c"
  shows "tinv_log c s'"
  using assms(1)
proof (cases rule: tty_step.cases)
  case started
  then show ?thesis by (simp add: tinv_log_def start_log_def reader_log_def) (simp add: tty_start_def)
next
  case (emit_started m fs ok f)
  have m: "fs = started_fields (tc_sessionID c) (tc_command c) (mergeFields (tc_tags c) (tc_started c))"
    using emit_started(3) by (simp add: EmitStarted_def)
  show ?thesis unfolding emit_started(1)
    using tty_log_write [OF emit_started(4) assms(3)] tty_kind_started m emit_started(2) assms(2) reader_log_other
    by (auto simp: tinv_log_def start_log_def drop_tty_log)
next
  case (line_pushed line evs m fs ok f)
  have m: "fs = output_fields 1 (tc_tags c)" using line_pushed(5) by (simp add: WriteOutput_def)
  show ?thesis unfolding line_pushed(1)
    using tty_log_write [OF line_pushed(6) assms(3)] tty_kind_output [OF assms(6)] m assms(2)
    by (auto simp: tinv_log_def start_log_other reader_log_other drop_tty_log)
next
  case (save_screen code screen m fs ok f)
  have m: "fs = [FieldEvent \<mapsto> EventScreen, FieldSession \<mapsto> tc_sessionID c,
      ''ROWS'' \<mapsto> itoa (t_rows (s_t s)), ''COLS'' \<mapsto> itoa (t_cols (s_t s))]" "m = screen"
    using save_screen(4) by (simp_all add: EmitScreen_def)
  have p: "s_phase s \<noteq> Returned r" for r using assms(4) save_screen(2) by (auto simp: tinv_phase_def)
  have fin: "s_final s = screen" using assms(5) save_screen(2) by (simp add: tinv_code_def)
  have st: "start_log (s_phase s) (tty_log s)" using assms(2) by (simp add: tinv_log_def)
  consider (ok) r where "ok" "drop (s_base s) (fj_entries f) = tty_log s @ [r]" "ev_Message r = m" "ev_Fields r = fs"
    | (bad) "\<not> ok" "f = s_log s" using tty_log_write [OF save_screen(5) assms(3)] by blast
  then show ?thesis
  proof cases
    case ok
    note k = tty_kind_screen [OF ok(4) [unfolded m]]
    have "s_failed s \<or> filter is_screen (tty_log s) = [] \<and> filter exits (tty_log s) = []"
      using assms(2) save_screen(2) by (simp add: tinv_log_def reader_log_def)
    then show ?thesis unfolding save_screen(1) tinv_log_def
      using ok k st m fin by (auto simp add: reader_log_def screen_saved_def start_log_other)
  next
    case bad
    then show ?thesis unfolding save_screen(1) tinv_log_def using p st by (simp add: drop_tty_log)
  qed
next
  case (save_exit code usage m fs ok f)
  have m: "fs = exited_fields (tc_sessionID c) code (tc_command c) (mergeFields (tc_tags c) (ExitFields usage))"
    using save_exit(3) by (simp add: EmitExited_def)
  have p: "s_phase s \<noteq> Returned r" for r using assms(4) save_exit(2) by (auto simp: tinv_phase_def)
  have st: "start_log (s_phase s) (tty_log s)" using assms(2) by (simp add: tinv_log_def)
  consider (ok) r where "ok" "drop (s_base s) (fj_entries f) = tty_log s @ [r]" "ev_Message r = m" "ev_Fields r = fs"
    | (bad) "\<not> ok" "f = s_log s" using tty_log_write [OF save_exit(4) assms(3)] by blast
  then show ?thesis
  proof cases
    case ok
    note k = tty_kind_exited [OF ok(4) [unfolded m]]
    have "s_failed s \<or> screen_saved c (s_final s) (tty_log s) \<and> filter exits (tty_log s) = []"
      using assms(2) save_exit(2) by (simp add: tinv_log_def reader_log_def)
    then show ?thesis unfolding save_exit(1) tinv_log_def
      using ok k st by (auto simp add: reader_log_def screen_saved_def exit_saved_def start_log_other)
  next
    case bad
    then show ?thesis unfolding save_exit(1) tinv_log_def using p st by (simp add: drop_tty_log)
  qed
next
  case (record_stats oor usage data ok f)
  show ?thesis unfolding record_stats(1)
    using tty_log_write [OF record_stats(3) assms(3)] tty_kind_stats [OF assms(6)] assms(2)
    by (auto simp: tinv_log_def start_log_other reader_log_other drop_tty_log)
qed (use assms(2,4) in \<open>auto simp: tinv_log_def tinv_phase_def reader_log_def start_log_def\<close>)

section \<open>Shape of the terminal\<close>

text \<open>
  The scrollback is bounded, the clients have different names, none of which is used again, and
  terminals of some size.
\<close>

definition client_ok :: "nat \<Rightarrow> string \<times> client \<Rightarrow> bool" where
  "client_ok m ic \<longleftrightarrow> 0 < cl_rows (snd ic) \<and> 0 < cl_cols (snd ic) \<and>
     (\<exists>n. fst ic = CHR ''c'' # itoa (int n) \<and> n \<le> m)"

definition clients_named :: "'v tty \<Rightarrow> bool" where
  "clients_named t \<longleftrightarrow> distinct (map fst (t_clients t)) \<and> list_all (client_ok (t_nextClientID t)) (t_clients t)"

definition tty_wf :: "'v tty \<Rightarrow> bool" where
  "tty_wf t \<longleftrightarrow> length (t_scrollback t) \<le> maxScrollback \<and> clients_named t"

text \<open>Every client has room for the terminal.\<close>

definition clients_fit :: "'v tty \<Rightarrow> bool" where
  "clients_fit t \<longleftrightarrow> (\<forall>(i, cl) \<in> set (t_clients t). t_rows t \<le> cl_rows cl \<and> t_cols t \<le> cl_cols cl)"

lemma keep_line_bound: "length sb \<le> maxScrollback \<Longrightarrow> length (keep_line line sb) \<le> maxScrollback"
  by (auto simp: keep_line_def Let_def)

lemma set_alist_delete: "set (AList.delete k xs) \<subseteq> set xs"
  by (auto simp: AList.delete_eq)

lemma update_fresh: "k \<notin> fst ` set xs \<Longrightarrow> AList.update k v xs = xs @ [(k, v)]"
  by (induction xs) auto

lemma wf_delete: "tty_wf t \<Longrightarrow> tty_wf (t\<lparr>t_clients := AList.delete i (t_clients t)\<rparr>)"
  using set_alist_delete [of i "t_clients t"]
  by (auto simp: tty_wf_def clients_named_def AList.distinct_delete list_all_iff)

lemma wf_simps [simp]:
  "tty_wf (t\<lparr>t_rows := r\<rparr>) = tty_wf t" "tty_wf (t\<lparr>t_cols := r\<rparr>) = tty_wf t"
  "tty_wf (t\<lparr>t_vt := v\<rparr>) = tty_wf t" "tty_wf (t\<lparr>t_proc := b\<rparr>) = tty_wf t"
  "tty_wf (t\<lparr>t_pty := b\<rparr>) = tty_wf t" "tty_wf (t\<lparr>t_ptySize := z\<rparr>) = tty_wf t"
  "tty_wf (t\<lparr>t_running := b\<rparr>) = tty_wf t" "tty_wf (t\<lparr>t_exitCode := x\<rparr>) = tty_wf t"
  "tty_wf (t\<lparr>t_title := l\<rparr>) = tty_wf t" "tty_wf (t\<lparr>t_alternateScreen := b\<rparr>) = tty_wf t"
  "tty_wf (t\<lparr>t_restart := b\<rparr>) = tty_wf t" "tty_wf (t\<lparr>t_eventErr := b\<rparr>) = tty_wf t"
  by (simp_all add: tty_wf_def clients_named_def)

lemma same_name_and_size:
  "fst \<circ> (\<lambda>(i, cl). (i, cl\<lparr>cl_sent := g cl\<rparr>)) = fst"
  "client_ok m \<circ> (\<lambda>(i, cl). (i, cl\<lparr>cl_sent := g cl\<rparr>)) = client_ok m"
  by (auto simp: fun_eq_iff client_ok_def)

lemma wf_broadcast: "tty_wf t \<Longrightarrow> tty_wf (broadcast b t)"
  by (simp add: tty_wf_def clients_named_def broadcast_def list.pred_map same_name_and_size)

lemma wf_onPushLine: "tty_wf t \<Longrightarrow> tty_wf (onPushLine line ok t)"
  by (simp add: tty_wf_def clients_named_def onPushLine_def keep_line_bound)

text \<open>A successful attach: the new client comes last, under a new name.\<close>

lemma attach_success:
  assumes "attachFilesLocked em pipes r k t = Some (Inr a, t')" "clients_named t"
  shows "\<exists>rows cols. default_size r k = (rows, cols) \<and>
    t_clients t' = t_clients t @ [(as_clientID a, \<lparr>cl_rows = rows, cl_cols = cols, cl_sent = []\<rparr>)] \<and>
    as_clientID a \<notin> fst ` set (t_clients t) \<and>
    as_clientID a = CHR ''c'' # itoa (int (t_nextClientID t')) \<and> t_nextClientID t' = t_nextClientID t + 1 \<and>
    t_scrollback t' = t_scrollback t \<and> as_rows a = t_rows t' \<and> as_cols a = t_cols t' \<and>
    (if t_clients t = [] then t_rows t' = rows \<and> t_cols t' = cols
     else t_rows t' = t_rows t \<and> t_cols t' = t_cols t \<and> t_rows t \<le> rows \<and> t_cols t \<le> cols)"
proof -
  obtain rows cols where d: "default_size r k = (rows, cols)" by fastforce
  obtain t1 where t1: "attach_size em rows cols t = Inr (t1, [])" and add: "add_client em rows cols t1 = (a, t')"
    using assms(1) d by (auto simp: attachFilesLocked_def split: sum.splits prod.splits if_splits)
  have same: "t_clients t1 = t_clients t" "t_nextClientID t1 = t_nextClientID t" "t_scrollback t1 = t_scrollback t"
    and size: "if t_clients t = [] then t_rows t1 = rows \<and> t_cols t1 = cols
       else t_rows t1 = t_rows t \<and> t_cols t1 = t_cols t \<and> t_rows t \<le> rows \<and> t_cols t \<le> cols"
    using t1 by (auto simp: attach_size_def Let_def split: if_splits prod.splits)
  let ?id = "CHR ''c'' # itoa (int (t_nextClientID t + 1))"
  have fresh: "?id \<notin> fst ` set (t_clients t)"
  proof
    assume "?id \<in> fst ` set (t_clients t)"
    then obtain n where "itoa (int (t_nextClientID t + 1)) = itoa (int n)" "n \<le> t_nextClientID t"
      using assms(2) by (fastforce simp: clients_named_def list_all_iff client_ok_def)
    from itoa_inj [OF this(1)] this(2) show False by simp
  qed
  have "as_clientID a = ?id" "as_rows a = t_rows t1" "as_cols a = t_cols t1"
    and t': "t' = t1\<lparr>t_nextClientID := t_nextClientID t + 1,
      t_clients := t_clients t @ [(?id, \<lparr>cl_rows = rows, cl_cols = cols, cl_sent = []\<rparr>)]\<rparr>"
    using add same update_fresh [OF fresh] by (auto simp: add_client_def Let_def)
  with d size fresh same show ?thesis by simp
qed

lemma default_size_positive: "default_size r k = (rows, cols) \<Longrightarrow> 0 < rows \<and> 0 < cols"
  by (auto simp: default_size_def split: if_splits)

lemma attach_other:
  "attachFilesLocked em pipes r k t = Some (Inl e, t') \<Longrightarrow>
   t_clients t' = t_clients t \<and> t_nextClientID t' = t_nextClientID t \<and> t_scrollback t' = t_scrollback t"
  by (auto simp: attachFilesLocked_def attach_size_def Let_def default_size_def
      split: sum.splits prod.splits if_splits)

lemma wf_attach:
  assumes "attachFilesLocked em pipes r k t = Some (x, t')" "tty_wf t"
  shows "tty_wf t'"
proof (cases x)
  case (Inl e)
  then show ?thesis using attach_other [of em pipes r k t e t'] assms
    by (simp add: tty_wf_def clients_named_def)
next
  case (Inr a)
  have n: "clients_named t" and l: "length (t_scrollback t) \<le> maxScrollback" using assms(2) by (simp_all add: tty_wf_def)
  obtain rows cols where s: "default_size r k = (rows, cols)"
    "t_clients t' = t_clients t @ [(as_clientID a, \<lparr>cl_rows = rows, cl_cols = cols, cl_sent = []\<rparr>)]"
    "as_clientID a \<notin> fst ` set (t_clients t)" "as_clientID a = CHR ''c'' # itoa (int (t_nextClientID t'))"
    "t_nextClientID t' = t_nextClientID t + 1" "t_scrollback t' = t_scrollback t"
    using attach_success [OF assms(1) [unfolded Inr] n] by blast
  have "list_all (client_ok (t_nextClientID t')) (t_clients t)"
    using n s(5) unfolding clients_named_def list_all_iff client_ok_def by (metis le_add1 le_trans)
  moreover have "client_ok (t_nextClientID t') (as_clientID a, \<lparr>cl_rows = rows, cl_cols = cols, cl_sent = []\<rparr>)"
    using default_size_positive [OF s(1)] s(4) unfolding client_ok_def by auto
  ultimately have "clients_named t'" using n s(2,3) by (simp add: clients_named_def)
  then show ?thesis using l s(6) by (simp add: tty_wf_def)
qed

lemma wf_methods:
  "tty_wf t \<Longrightarrow> Detach i t = (b, t') \<Longrightarrow> tty_wf t'"
  "tty_wf t \<Longrightarrow> tty_Restart t = (x, t') \<Longrightarrow> tty_wf t'"
  "tty_wf t \<Longrightarrow> Resize em rows cols t = (t', evs) \<Longrightarrow> tty_wf t'"
  using wf_delete [of t i]
  by (auto simp: Detach_def tty_Restart_def Resize_def Let_def split: option.splits if_splits prod.splits)

lemma wf_onTermProp: "tty_wf t \<Longrightarrow> tty_wf (onTermProp prop val t)"
  by (simp add: onTermProp_def split: prop_value.split)

lemma wf_step: "tty_step em c s s' \<Longrightarrow> tty_wf (s_t s) \<Longrightarrow> tty_wf (s_t s')"
  by (erule tty_step.cases)
    (auto simp: tty_logged_def tty_start_def tty_started_def tty_finished_def closePTYMaster_def
      input_closed_def wf_onPushLine wf_onTermProp wf_broadcast wf_delete intro: wf_attach wf_methods)

section \<open>Reachable states\<close>

definition tty_inv :: "tty_config \<Rightarrow> fake_journal \<Rightarrow> 'v tsys \<Rightarrow> bool" where
  "tty_inv c f0 s \<longleftrightarrow> tinv_phase s \<and> tinv_base f0 s \<and> tinv_code s \<and> tinv_failed s \<and> tinv_log c s"

lemma tty_inv_init: "tty_inv c f0 (tsys_init t0 f0)"
  by (simp add: tty_inv_def tinv_phase_def tinv_base_def tinv_code_def tinv_failed_def tinv_log_def
      start_log_def reader_log_def tsys_init_def)

lemma tty_inv_step: "tags_ok c \<Longrightarrow> tty_step em c s s' \<Longrightarrow> tty_inv c f0 s \<Longrightarrow> tty_inv c f0 s'"
  unfolding tty_inv_def
  by (intro conjI; elim conjE)
    (rule tinv_phase_step tinv_base_step tinv_code_step tinv_failed_step tinv_log_step; assumption)+

lemma tty_inv_reachable:
  assumes "tty_reachable em c t0 f0 s" and "tags_ok c"
  shows "tty_inv c f0 s"
  using assms(1)
  by (induction rule: tty_reachable.induct) (simp_all add: tty_inv_init tty_inv_step [OF assms(2)])

lemma wf_reachable: "tty_reachable em c t0 f0 s \<Longrightarrow> tty_wf t0 \<Longrightarrow> tty_wf (s_t s)"
  by (induction rule: tty_reachable.induct) (simp_all add: tsys_init_def wf_step)

text \<open>The saved screen is what \<open>GetScreen\<close> finds once the session is over.\<close>

lemma screen_found:
  assumes "screen_saved c screen (drop n (fj_entries f))" "\<not> fj_closed f"
  shows "GetScreen FakePoll None (tc_sessionID c) f = Inr screen"
proof -
  let ?m = "\<lambda>e. matchesFilters e [FilterByEvent EventScreen, FilterBySession (tc_sessionID c)]"
  obtain x where x: "filter is_screen (drop n (fj_entries f)) = [x]" "ev_Message x = screen"
    "ev_Fields x FieldEvent = Some EventScreen" "ev_Fields x FieldSession = Some (tc_sessionID c)"
    using assms(1) by (auto simp: screen_saved_def)
  have m: "?m e \<Longrightarrow> is_screen e" for e
    by (simp add: matchesFilters_def FilterByEvent_def is_screen_def ev_field_def)
  have mx: "?m x" using x by (simp add: matchesFilters_def FilterByEvent_def FilterBySession_def)
  have "filter ?m (filter is_screen (drop n (fj_entries f))) = filter ?m (drop n (fj_entries f))"
    unfolding filter_filter by (rule filter_cong [OF refl]) (use m in blast)
  then have d: "filter ?m (drop n (fj_entries f)) = [x]" using x(1) mx by simp
  have "filter ?m (fj_entries f) = filter ?m (take n (fj_entries f)) @ [x]"
    using d by (metis append_take_drop_id filter_append)
  then have l: "filter ?m (fj_entries f) \<noteq> []" "last (filter ?m (fj_entries f)) = x" by simp_all
  show ?thesis using l assms(2) x(2) by (simp add: GetScreen_def FakePoll_def startIdx_def)
qed

section \<open>Properties\<close>

text \<open>
  C30. Attaching can hang a session for good: when the emulator makes a callback while it takes
  in output, or while a first client resizes it, there is a reachable state from which \<open>RunTask\<close>
  never returns, whatever happens next. The client holds the lock of the host and waits for the
  terminal, whose callback waits for the lock of the host; or it is the client's own resizing
  that makes the callback.
\<close>

theorem attach_can_hang_host:
  fixes em :: "'v emulator"
  assumes "(\<exists>b vt e evs. em_write em b (t_vt t0) = (vt, e # evs)) \<or>
    t_clients t0 = [] \<and> (\<exists>rows cols vt e evs. 0 < rows \<and> 0 < cols \<and> em_set_size em rows cols (t_vt t0) = (vt, e # evs))"
  shows "\<exists>s. tty_reachable em c t0 f0 s \<and> (\<forall>s' r. (tty_step em c)\<^sup>*\<^sup>* s s' \<longrightarrow> s_phase s' \<noteq> Returned r)"
proof -
  let ?s1 = "tty_start (tsys_init t0 f0)"
  have r1: "tty_reachable em c t0 f0 ?s1"
    by (rule tty_reachable.step [OF tty_reachable.init started]) (simp_all add: tsys_init_def)
  have r2: "tty_reachable em c t0 f0 (?s1\<lparr>s_lock := AttachWaits True rows cols\<rparr>)" for rows cols
    by (rule tty_reachable.step [OF r1 attach]) (simp add: tsys_init_def tty_start_def)
  have "\<exists>s. tty_reachable em c t0 f0 s \<and> deadlocked s"
    using assms
  proof (elim disjE exE conjE)
    fix b vt e evs
    assume w: "em_write em b (t_vt t0) = (vt, e # evs)"
    let ?s2 = "?s1\<lparr>s_lock := AttachWaits True 1 1\<rparr>"
    have "tty_step em c ?s2 (?s2\<lparr>s_t := (s_t ?s2)\<lparr>t_vt := vt\<rparr>, s_chunk := Some b, s_writing := True, s_events := e # evs\<rparr>)"
      by (rule read_chunk) (simp_all add: tty_start_def tsys_init_def tty_started_def terminal_free_def w)
    from tty_reachable.step [OF r2 this] show ?thesis
      by (intro exI conjI, assumption) (auto simp add: deadlocked_def tty_start_def)
  next
    fix rows cols vt e evs
    assume z: "t_clients t0 = []" "0 < rows" "0 < cols" "em_set_size em rows cols (t_vt t0) = (vt, e # evs)"
    let ?s2 = "?s1\<lparr>s_lock := AttachWaits True rows cols\<rparr>"
    have "tty_step em c ?s2 (?s2\<lparr>s_lock := AttachCaught\<rparr>)"
      by (rule attach_caught [of _ True rows cols])
        (use z in \<open>simp_all add: tty_start_def tsys_init_def tty_started_def terminal_free_def
           attachFilesLocked_def attach_size_def default_size_def Let_def\<close>)
    from tty_reachable.step [OF r2 this] show ?thesis
      by (intro exI conjI, assumption) (auto simp add: deadlocked_def tty_start_def)
  qed
  then show ?thesis using deadlocked_steps unfolding deadlocked_def by blast
qed

text \<open>
  C31. When \<open>RunTask\<close> returns without an error, the log of its last task has one started event,
  the exited event with the code that \<open>Gist\<close> reports, and the screen the task left, which is
  what asking for the screen of the ended session returns.
\<close>

theorem clean_tty_run_recorded:
  assumes "tty_reachable em c t0 f0 s" "tags_ok c" "\<not> fj_closed f0" "s_phase s = Returned RunOk"
  shows "\<exists>code. t_exitCode (s_t s) = Some code \<and> exit_saved code (tty_log s) \<and>
    (\<exists>r. filter starts (tty_log s) = [r]) \<and>
    GetScreen FakePoll None (tc_sessionID c) (s_log s) = Inr (s_final s)"
proof -
  have i: "tty_inv c f0 s" by (rule tty_inv_reachable [OF assms(1,2)])
  obtain code where code: "s_reader s = ReaderDone code"
    using i assms(4) by (auto simp: tty_inv_def tinv_phase_def)
  have f: "\<not> s_failed s" using i assms(4) by (auto simp: tty_inv_def tinv_failed_def)
  have l: "screen_saved c (s_final s) (tty_log s)" "exit_saved code (tty_log s)" "\<exists>r. filter starts (tty_log s) = [r]"
    using i f code assms(4) by (auto simp: tty_inv_def tinv_log_def reader_log_def start_log_def)
  have "\<not> fj_closed (s_log s)" using i assms(3) by (simp add: tty_inv_def tinv_base_def)
  then have "GetScreen FakePoll None (tc_sessionID c) (s_log s) = Inr (s_final s)"
    by (intro screen_found [of c "s_final s" "s_base s"]) (use l(1) in \<open>simp_all add: tty_log_def\<close>)
  moreover have "t_exitCode (s_t s) = Some code" using i code by (simp add: tty_inv_def tinv_code_def)
  ultimately show ?thesis using l by blast
qed

text \<open>
  C32. In every state of a session the scrollback holds at most its bound of lines and the clients
  have names of their own; a client that attaches gets a new name and the size of the terminal,
  and every client that fitted before fits after.
\<close>

theorem terminal_well_formed:
  assumes "tty_reachable em c t0 f0 s" "tty_wf t0"
  shows "tty_wf (s_t s) \<and>
    (\<forall>pipes rows cols a t. attachFilesLocked em pipes rows cols (s_t s) = Some (Inr a, t) \<longrightarrow>
       as_clientID a \<notin> fst ` set (t_clients (s_t s)) \<and> as_rows a = t_rows t \<and> as_cols a = t_cols t \<and>
       length (t_clients t) = length (t_clients (s_t s)) + 1 \<and> (clients_fit (s_t s) \<longrightarrow> clients_fit t))"
proof (intro conjI allI impI)
  show wf: "tty_wf (s_t s)" by (rule wf_reachable [OF assms])
  fix pipes rows cols a t
  assume "attachFilesLocked em pipes rows cols (s_t s) = Some (Inr a, t)"
  then obtain r k where A:
    "t_clients t = t_clients (s_t s) @ [(as_clientID a, \<lparr>cl_rows = r, cl_cols = k, cl_sent = []\<rparr>)]"
    "as_clientID a \<notin> fst ` set (t_clients (s_t s))" "as_rows a = t_rows t" "as_cols a = t_cols t"
    "if t_clients (s_t s) = [] then t_rows t = r \<and> t_cols t = k
     else t_rows t = t_rows (s_t s) \<and> t_cols t = t_cols (s_t s) \<and> t_rows (s_t s) \<le> r \<and> t_cols (s_t s) \<le> k"
    using attach_success [of em pipes rows cols "s_t s" a t] wf unfolding tty_wf_def by blast
  then show "as_clientID a \<notin> fst ` set (t_clients (s_t s))" "as_rows a = t_rows t" "as_cols a = t_cols t"
    "length (t_clients t) = length (t_clients (s_t s)) + 1" by simp_all
  assume "clients_fit (s_t s)"
  then show "clients_fit t"
    using A(1,5) by (cases "t_clients (s_t s) = []") (auto simp: clients_fit_def)
qed

section \<open>Concrete sessions\<close>

text \<open>An emulator that repeats its input to the scrollback and shows the number of lines.\<close>

definition echo_emulator :: "nat emulator" where
  "echo_emulator = \<lparr>em_write = (\<lambda>b n. (n + 1, [Pushed b])), em_set_size = (\<lambda>r k n. (n, [])),
     em_ansi = (\<lambda>n. itoa (int n)), em_cursor = (\<lambda>n. (0, 0))\<rparr>"

definition echo_config :: tty_config where
  "echo_config = \<lparr>tc_sessionID = ''S'', tc_command = [''sh''], tc_tags = [FieldSession \<mapsto> ''S''], tc_started = Map.empty\<rparr>"

definition echo_tty :: "nat tty" where
  "echo_tty = \<lparr>t_rows = 24, t_cols = 80, t_vt = 0, t_proc = False, t_pty = False, t_ptySize = (0, 0),
     t_running = False, t_exitCode = None, t_title = [], t_alternateScreen = False, t_scrollback = [],
     t_clients = [], t_nextClientID = 0, t_restart = False, t_eventErr = False\<rparr>"

lemma NewTTYHost_echo:
  "NewTTYHost (\<lambda>_ _. Inr 0 :: unit + nat) ''S'' [''sh''] 0 0 Map.empty Map.empty = Inr (echo_config, echo_tty)"
  by (simp add: NewTTYHost_def echo_config_def echo_tty_def Let_def)

lemma echo_tags_ok: "tags_ok echo_config"
  by (simp add: tags_ok_def echo_config_def field_names FieldSession_def)

lemma echo_wf: "tty_wf echo_tty"
  by (simp add: tty_wf_def clients_named_def echo_tty_def)

lemma log_writable: "\<not> fj_closed f \<Longrightarrow> \<exists>f'. logs m fs f True f' \<and> \<not> fj_closed f'"
  using logs_ok [of 0 m fs f] by (auto simp: FakeWrite_def writeEntry_def Let_def)

text \<open>A task that ends at once, in any session with a log that can be written.\<close>

lemma quiet_task:
  assumes "\<not> fj_closed f0" "\<not> t_eventErr t0"
  shows "\<exists>s. tty_reachable em c t0 f0 s \<and> s_phase s = Returned RunOk \<and> t_exitCode (s_t s) = Some 0"
proof -
  let ?s1 = "tty_start (tsys_init t0 f0)"
  let ?fs1 = "started_fields (tc_sessionID c) (tc_command c) (mergeFields (tc_tags c) (tc_started c))"
  obtain f1 where f1: "logs ''Session started'' ?fs1 f0 True f1" "\<not> fj_closed f1"
    using log_writable [OF assms(1)] by blast
  let ?s2 = "?s1\<lparr>s_log := f1, s_phase := (if True then Notify else Terminating EventError)\<rparr>"
  let ?s3 = "?s2\<lparr>s_phase := Waiting\<rparr>"
  let ?s4 = "?s3\<lparr>s_t := (s_t ?s3)\<lparr>t_exitCode := Some 0\<rparr>, s_reader := GotExit 0\<rparr>"
  let ?scr = "em_ansi em (t_vt (s_t ?s4))"
  let ?s5 = "?s4\<lparr>s_reader := GotScreen 0 ?scr, s_final := ?scr\<rparr>"
  let ?fs6 = "[FieldEvent \<mapsto> EventScreen, FieldSession \<mapsto> tc_sessionID c,
      ''ROWS'' \<mapsto> itoa (t_rows (s_t ?s5)), ''COLS'' \<mapsto> itoa (t_cols (s_t ?s5))]"
  obtain f2 where f2: "logs ?scr ?fs6 f1 True f2" "\<not> fj_closed f2" using log_writable [OF f1(2)] by blast
  let ?s6 = "tty_logged True f2 (?s5\<lparr>s_reader := ScreenSaved 0\<rparr>)"
  let ?fs7 = "exited_fields (tc_sessionID c) 0 (tc_command c) (mergeFields (tc_tags c) (ExitFields zeroStats))"
  obtain f3 where f3: "logs ''Session exited'' ?fs7 f2 True f3" using log_writable [OF f2(2)] by blast
  let ?s7 = "tty_logged True f3 (?s6\<lparr>s_reader := ExitSaved 0\<rparr>)"
  let ?s8 = "?s7\<lparr>s_t := tty_finished (s_t ?s7), s_reader := ReaderDone 0\<rparr>"
  let ?s9 = "?s8\<lparr>s_phase := Returned (if t_eventErr (s_t ?s8) then EventError else RunOk),
      s_t := (s_t ?s8)\<lparr>t_eventErr := False\<rparr>\<rparr>"
  note d = tsys_init_def tty_start_def tty_started_def tty_logged_def terminal_free_def
  have r1: "tty_reachable em c t0 f0 ?s1"
    by (rule tty_reachable.step [OF tty_reachable.init started]) (simp_all add: d)
  have r2: "tty_reachable em c t0 f0 ?s2"
    by (rule tty_reachable.step [OF r1 emit_started [where m = "''Session started''" and fs = ?fs1]])
      (use f1 in \<open>simp_all add: d EmitStarted_def\<close>)
  have r3: "tty_reachable em c t0 f0 ?s3" by (rule tty_reachable.step [OF r2 notified]) simp
  have r4: "tty_reachable em c t0 f0 ?s4" by (rule tty_reachable.step [OF r3 exited]) (simp_all add: d)
  have r5: "tty_reachable em c t0 f0 ?s5" by (rule tty_reachable.step [OF r4 snapshot]) (simp_all add: d)
  have r6: "tty_reachable em c t0 f0 ?s6"
    by (rule tty_reachable.step [OF r5 save_screen [where m = ?scr and fs = ?fs6]])
      (use f2 in \<open>simp_all add: d EmitScreen_def\<close>)
  have r7: "tty_reachable em c t0 f0 ?s7"
    by (rule tty_reachable.step [OF r6 save_exit [where m = "''Session exited''" and fs = ?fs7 and usage = zeroStats]])
      (use f3 in \<open>simp_all add: d EmitExited_def\<close>)
  have r8: "tty_reachable em c t0 f0 ?s8" by (rule tty_reachable.step [OF r7 cleaned_up]) (simp_all add: d)
  have r9: "tty_reachable em c t0 f0 ?s9"
    by (rule tty_reachable.step [OF r8 task_done]) (simp_all add: d)
  show ?thesis
    by (rule exI [of _ ?s9], intro conjI, rule r9) (use assms(2) in \<open>simp_all add: d\<close>)
qed

theorem attach_can_hang_host_witness:
  "\<exists>s. tty_reachable echo_emulator echo_config echo_tty NewFakeJournal s \<and>
     (\<forall>s' r. (tty_step echo_emulator echo_config)\<^sup>*\<^sup>* s s' \<longrightarrow> s_phase s' \<noteq> Returned r)"
  by (rule attach_can_hang_host) (simp add: echo_emulator_def)

theorem clean_tty_run_recorded_witness:
  "\<exists>s. tty_reachable echo_emulator echo_config echo_tty NewFakeJournal s \<and> exit_saved 0 (tty_log s) \<and>
     GetScreen FakePoll None ''S'' (s_log s) = Inr (s_final s)"
proof -
  obtain s where s: "tty_reachable echo_emulator echo_config echo_tty NewFakeJournal s"
    "s_phase s = Returned RunOk" "t_exitCode (s_t s) = Some 0"
    using quiet_task [of NewFakeJournal echo_tty] by (auto simp: NewFakeJournal_def echo_tty_def)
  from clean_tty_run_recorded [OF s(1) echo_tags_ok _ s(2)] s(3)
  have "exit_saved 0 (tty_log s) \<and> GetScreen FakePoll None (tc_sessionID echo_config) (s_log s) = Inr (s_final s)"
    by (auto simp: NewFakeJournal_def)
  with s(1) show ?thesis by (auto simp: echo_config_def)
qed

theorem terminal_well_formed_witness:
  "tty_wf (s_t (tsys_init echo_tty NewFakeJournal)) \<and>
   (\<exists>a t. attachFilesLocked echo_emulator True 30 100 echo_tty = Some (Inr a, t) \<and>
      as_clientID a = ''c1'' \<and> length (t_clients t) = 1 \<and> clients_fit t)"
proof -
  note w = terminal_well_formed [OF tty_reachable.init [of echo_emulator echo_config echo_tty NewFakeJournal] echo_wf]
  have t0: "s_t (tsys_init echo_tty NewFakeJournal) = echo_tty" by (simp add: tsys_init_def)
  have n: "t_clients echo_tty = []" "clients_fit echo_tty" by (simp_all add: echo_tty_def clients_fit_def)
  have "itoa 1 = ''1''" by (rule itoa_12)
  then obtain a t where a: "attachFilesLocked echo_emulator True 30 100 echo_tty = Some (Inr a, t)" "as_clientID a = ''c1''"
    by (simp add: attachFilesLocked_def attach_size_def default_size_def add_client_def echo_emulator_def
        echo_tty_def Let_def)
  have "length (t_clients t) = 1" "clients_fit t"
    using w [unfolded t0, THEN conjunct2, rule_format, OF a(1)] n by simp_all
  with w [unfolded t0, THEN conjunct1] a t0 show ?thesis by auto
qed

text \<open>
  A client that attaches after a chunk was written to the terminal and before it is sent to the
  clients finds the chunk on its screen and receives it once more.
\<close>

lemma chunk_twice:
  assumes "s_chunk s = Some b" "\<not> s_writing s" "s_lock s = AttachWaits True rows cols" "terminal_free s"
    "attachFilesLocked em True rows cols (s_t s) = Some (Inr a, t)" "clients_named (s_t s)"
  shows "\<exists>s' cl. (tty_step em c)\<^sup>*\<^sup>* s s' \<and> (as_clientID a, cl) \<in> set (t_clients (s_t s')) \<and> cl_sent cl = [b]"
proof -
  obtain r k where A: "t_clients t = t_clients (s_t s) @ [(as_clientID a, \<lparr>cl_rows = r, cl_cols = k, cl_sent = []\<rparr>)]"
    using attach_success [OF assms(5,6)] by blast
  let ?s1 = "s\<lparr>s_lock := Unlocked, s_t := t\<rparr>"
  have s1: "tty_step em c s ?s1" by (rule attached [OF assms(3,4,5)])
  have s2: "tty_step em c ?s1 (?s1\<lparr>s_t := broadcast b (s_t ?s1), s_chunk := None\<rparr>)"
    by (rule sent) (use assms in simp_all)
  show ?thesis
    by (intro exI conjI, rule rtranclp.rtrancl_into_rtrancl [OF r_into_rtranclp [of "tty_step em c", OF s1] s2])
      (auto simp: broadcast_def A)
qed

end
