(* ===== verification/SqliteLog.thy ===== *)
theory SqliteLog
  imports SessionLog "HOL-Library.List_Lexorder" "HOL-Library.Char_ord"
begin

unbundle bit_operations_syntax

text \<open>
  The event log of the portable backend (\<open>internal/journal/sqlite.go\<close>): events and their fields
  in two tables of a SQLite database. The SQL statements of the source are the operations on the
  tables below. What the database adds is a parameter: at which statement of a transaction it
  reports an error, if at any, and the clock. The fields of an event are stored as JSON; \<open>enc\<close>
  and \<open>dec\<close> stand for \<open>json.Marshal\<close> and \<open>json.Unmarshal\<close>, which are inverse on maps of valid
  UTF-8 (and replace bytes that are not).
\<close>

section \<open>Tables\<close>

record sq_event =
  se_id :: int
  se_timestamp_ns :: int
  se_message :: string
  se_fields_json :: string

record sq_field =
  sf_event_id :: int
  sf_name :: string
  sf_value :: string

text \<open>\<open>sq_seq\<close> is the last identifier given out (\<open>AUTOINCREMENT\<close>).\<close>

record sq_db =
  sq_events :: "sq_event list"
  sq_fields :: "sq_field list"
  sq_seq :: int

definition empty_db :: sq_db where
  "empty_db = \<lparr>sq_events = [], sq_fields = [], sq_seq = 0\<rparr>"

section \<open>Writing\<close>

text \<open>Where a transaction fails, and with which code.\<close>

datatype sq_stage = AtBegin | AtEvent | AtField nat | AtCommit

type_synonym sq_fault = "(sq_stage \<times> u32) option"

datatype sq_error = SqStage sq_stage u32

definition stored_fields :: "string \<Rightarrow> fieldmap \<Rightarrow> fieldmap" where
  "stored_fields message fs = fs(''MESSAGE'' \<mapsto> message, ''PRIORITY'' \<mapsto> ''6'')"

definition fails_at :: "sq_fault \<Rightarrow> sq_stage \<Rightarrow> u32 option" where
  "fails_at fault st = (case fault of None \<Rightarrow> None | Some (st', code) \<Rightarrow> if st' = st then Some code else None)"

text \<open>A statement of the transaction, on the tables as the transaction sees them.\<close>

definition sq_exec :: "sq_fault \<Rightarrow> sq_stage \<Rightarrow> (sq_db \<Rightarrow> sq_db) \<Rightarrow> (sq_error, sq_db, unit) eff" where
  "sq_exec fault st f db =
     (case fails_at fault st of Some code \<Rightarrow> (Inl (SqStage st code), db) | None \<Rightarrow> (Inr (), f db))"

definition insert_event :: "int \<Rightarrow> string \<Rightarrow> string \<Rightarrow> sq_db \<Rightarrow> sq_db" where
  "insert_event now message encoded db =
     (let i = sq_seq db + 1 in
      db\<lparr>sq_seq := i, sq_events := sq_events db @
        [\<lparr>se_id = i, se_timestamp_ns = now, se_message = message, se_fields_json = encoded\<rparr>]\<rparr>)"

definition insert_field :: "int \<Rightarrow> string \<Rightarrow> string \<Rightarrow> sq_db \<Rightarrow> sq_db" where
  "insert_field eventID key val db =
     db\<lparr>sq_fields := sq_fields db @ [\<lparr>sf_event_id = eventID, sf_name = key, sf_value = val\<rparr>]\<rparr>"

fun insert_fields :: "sq_fault \<Rightarrow> nat \<Rightarrow> int \<Rightarrow> (string \<times> string) list \<Rightarrow> (sq_error, sq_db, unit) eff" where
  "insert_fields fault n eventID [] = returnE ()"
| "insert_fields fault n eventID ((key, val) # kvs) =
     thenE (sq_exec fault (AtField n) (insert_field eventID key val)) (insert_fields fault (Suc n) eventID kvs)"

text \<open>
  One attempt (\<open>write\<close>): a transaction that is rolled back unless it is committed. \<open>kvs\<close> are the
  stored fields in the order of their sorted names.
\<close>

definition sq_write :: "sq_fault \<Rightarrow> int \<Rightarrow> string \<Rightarrow> string \<Rightarrow> (string \<times> string) list \<Rightarrow> (sq_error, sq_db, unit) eff" where
  "sq_write fault now encoded message kvs db =
     (case thenE (sq_exec fault AtBegin (\<lambda>t. t))
        (thenE (sq_exec fault AtEvent (insert_event now message encoded))
        (bindE (getE sq_seq) (\<lambda>eventID.
         thenE (insert_fields fault 0 eventID kvs)
        (sq_exec fault AtCommit (\<lambda>t. t))))) db of
        (Inl e, _) \<Rightarrow> (Inl e, db)
      | (Inr _, db') \<Rightarrow> (Inr (), db'))"

definition isSQLiteBusy :: "sq_error \<Rightarrow> bool" where
  "isSQLiteBusy e = (case e of SqStage _ code \<Rightarrow> code AND 0xFF = 5 \<or> code AND 0xFF = 6)"

text \<open>
  The operation is tried until it fails with something else than a busy database, or succeeds;
  \<open>n\<close> counts the attempts. It may never return.
\<close>

partial_function (option) retrySQLiteBusy ::
  "(nat \<Rightarrow> (sq_error, sq_db, unit) eff) \<Rightarrow> nat \<Rightarrow> sq_db \<Rightarrow> ((sq_error + unit) \<times> sq_db) option" where
  "retrySQLiteBusy operation n db =
     (case operation n db of
        (Inl e, db') \<Rightarrow> if isSQLiteBusy e then retrySQLiteBusy operation (Suc n) db' else Some (Inl e, db')
      | (Inr u, db') \<Rightarrow> Some (Inr u, db'))"

text \<open>
  \<open>Write\<close>: \<open>faults\<close> and \<open>clock\<close> are what each attempt meets. The fields are inserted in the
  order of their names.
\<close>

definition key_values :: "fieldmap \<Rightarrow> (string \<times> string) list" where
  "key_values fs = map (\<lambda>k. (k, case fs k of None \<Rightarrow> [] | Some v \<Rightarrow> v)) (sorted_list_of_set (dom fs))"

definition SQLiteWrite ::
  "(fieldmap \<Rightarrow> string) \<Rightarrow> (nat \<Rightarrow> sq_fault) \<Rightarrow> (nat \<Rightarrow> int) \<Rightarrow> string \<Rightarrow> fieldmap \<Rightarrow>
   sq_db \<Rightarrow> ((sq_error + unit) \<times> sq_db) option" where
  "SQLiteWrite enc faults clock message fs =
     (let storedFields = stored_fields message fs; encoded = enc storedFields in
      retrySQLiteBusy (\<lambda>n. sq_write (faults n) (clock n) encoded message (key_values storedFields)) 0)"

section \<open>Polling\<close>

text \<open>The filters by field: the values asked of each, in the order of the names.\<close>

definition group_add :: "event_filter \<Rightarrow> (string \<times> string list) list \<Rightarrow> (string \<times> string list) list" where
  "group_add flt g =
     (case map_of g (fst flt) of
        None \<Rightarrow> g @ [(fst flt, [snd flt])]
      | Some _ \<Rightarrow> map (\<lambda>(f, vs). (f, if f = fst flt then vs @ [snd flt] else vs)) g)"

definition group_filters :: "event_filter list \<Rightarrow> (string \<times> string list) list" where
  "group_filters ms = sort_key fst (fold group_add ms [])"

datatype sq_arg = ArgInt int | ArgText string

definition poll_query :: "(string \<times> string list) list \<Rightarrow> string" where
  "poll_query groups =
     ''SELECT e.id, e.timestamp_ns, e.message, e.fields_json FROM events e WHERE e.id > ?'' @
     concat (map (\<lambda>(f, vs).
       '' AND EXISTS (SELECT 1 FROM event_fields f WHERE f.event_id = e.id AND f.name = ? AND f.value IN ('' @
       go_join (map (\<lambda>v. ''?'') vs) '','' @ ''))'') groups) @
     '' ORDER BY e.id''"

definition poll_args :: "int \<Rightarrow> (string \<times> string list) list \<Rightarrow> sq_arg list" where
  "poll_args afterID groups = ArgInt afterID # concat (map (\<lambda>(f, vs). ArgText f # map ArgText vs) groups)"

text \<open>What the query selects with these arguments.\<close>

definition has_field :: "sq_db \<Rightarrow> int \<Rightarrow> string \<times> string list \<Rightarrow> bool" where
  "has_field db i g = list_ex (\<lambda>r. sf_event_id r = i \<and> sf_name r = fst g \<and> sf_value r \<in> set (snd g)) (sq_fields db)"

definition select_events :: "int \<Rightarrow> (string \<times> string list) list \<Rightarrow> sq_db \<Rightarrow> sq_event list" where
  "select_events afterID groups db =
     sort_key se_id (filter (\<lambda>e. se_id e > afterID \<and> list_all (has_field db (se_id e)) groups) (sq_events db))"

definition sq_record :: "(string \<Rightarrow> fieldmap option) \<Rightarrow> sq_event \<Rightarrow> event_record option" where
  "sq_record dec e = map_option (\<lambda>fs. \<lparr>ev_Cursor = itoa (se_id e), ev_Timestamp = se_timestamp_ns e,
     ev_Message = se_message e, ev_Fields = fs\<rparr>) (dec (se_fields_json e))"

fun scan_events :: "(string \<Rightarrow> fieldmap option) \<Rightarrow> sq_event list \<Rightarrow> string \<Rightarrow> (event_record list \<times> string) option" where
  "scan_events dec [] lastCursor = Some ([], lastCursor)"
| "scan_events dec (e # es) lastCursor =
     (case sq_record dec e of
        None \<Rightarrow> None
      | Some r \<Rightarrow> map_option (apfst ((#) r)) (scan_events dec es (ev_Cursor r)))"

text \<open>\<open>fault\<close>: the query or the iteration of its rows fails.\<close>

definition SQLitePoll ::
  "(string \<Rightarrow> fieldmap option) \<Rightarrow> bool \<Rightarrow> event_filter list \<Rightarrow> string \<Rightarrow> sq_db \<Rightarrow>
   log_error + (event_record list \<times> string)" where
  "SQLitePoll dec fault ms cursor db =
     (let afterID = parse_int_value cursor in
      if fault then Inl SourceError
      else case scan_events dec (select_events afterID (group_filters ms) db) cursor of
        None \<Rightarrow> Inl SourceError
      | Some found \<Rightarrow> Inr found)"

text \<open>
  \<open>Follow\<close>: what it yields over the states in which its polls find the database; it ends at the
  first poll that fails.
\<close>

fun SQLiteFollow ::
  "(string \<Rightarrow> fieldmap option) \<Rightarrow> event_filter list \<Rightarrow> string \<Rightarrow> (bool \<times> sq_db) list \<Rightarrow> event_record list" where
  "SQLiteFollow dec ms current [] = []"
| "SQLiteFollow dec ms current ((fault, db) # later) =
     (case SQLitePoll dec fault ms current db of
        Inl _ \<Rightarrow> []
      | Inr (rs, next) \<Rightarrow> rs @ SQLiteFollow dec ms next later)"

lemma placeholders_match_arguments:
  "length (filter (\<lambda>c. c = CHR ''?'') (poll_query groups)) = length (poll_args afterID groups)"
proof -
  have j: "length (filter (\<lambda>c. c = CHR ''?'') (go_join (map (\<lambda>v. ''?'') vs) '','')) = length vs" for vs :: "string list"
    by (induction vs rule: induct_list012) simp_all
  show ?thesis
    by (induction groups) (auto simp: poll_query_def poll_args_def j)
qed

section \<open>Writing returns, and is all or nothing\<close>

definition busy_result :: "sq_error + unit \<Rightarrow> bool" where
  "busy_result r = (case r of Inl e \<Rightarrow> isSQLiteBusy e | Inr _ \<Rightarrow> False)"

text \<open>The attempts of a write that all find the database \<open>db\<close>.\<close>

definition write_attempt :: "(fieldmap \<Rightarrow> string) \<Rightarrow> (nat \<Rightarrow> sq_fault) \<Rightarrow> (nat \<Rightarrow> int) \<Rightarrow> string \<Rightarrow> fieldmap \<Rightarrow>
    sq_db \<Rightarrow> nat \<Rightarrow> (sq_error + unit) \<times> sq_db" where
  "write_attempt enc faults clock message fs db n =
     sq_write (faults n) (clock n) (enc (stored_fields message fs)) message (key_values (stored_fields message fs)) db"

lemma sq_write_error: "sq_write fault now encoded message kvs db = (Inl e, db') \<Longrightarrow> db' = db"
  by (auto simp: sq_write_def split: prod.splits sum.splits)

lemma retry_step:
  "retrySQLiteBusy op n db =
     (if busy_result (fst (op n db)) then retrySQLiteBusy op (Suc n) (snd (op n db)) else Some (op n db))"
  by (subst retrySQLiteBusy.simps) (auto simp: busy_result_def split: prod.splits sum.splits)

lemma retry_finds:
  assumes "\<And>n e db'. op n db = (Inl e, db') \<Longrightarrow> db' = db"
    and "\<And>j. n \<le> j \<Longrightarrow> j < n + k \<Longrightarrow> busy_result (fst (op j db))" and "\<not> busy_result (fst (op (n + k) db))"
  shows "retrySQLiteBusy op n db = Some (op (n + k) db)"
  using assms(2,3)
proof (induction k arbitrary: n)
  case 0
  then show ?case by (subst retry_step) simp
next
  case (Suc k)
  have b: "busy_result (fst (op n db))" using Suc.prems(1)[of n] by simp
  then have "snd (op n db) = db"
    using assms(1)[of n] by (cases "op n db") (auto simp: busy_result_def split: sum.splits)
  moreover have "retrySQLiteBusy op (Suc n) db = Some (op (Suc n + k) db)"
    using Suc.prems by (intro Suc.IH) auto
  ultimately show ?case using b by (subst retry_step) simp
qed

text \<open>\<open>y\<close> is the result of the first attempt that does not find the database busy.\<close>

definition first_free :: "(nat \<Rightarrow> (sq_error, sq_db, unit) eff) \<Rightarrow> nat \<Rightarrow> sq_db \<Rightarrow> (sq_error + unit) \<times> sq_db \<Rightarrow> bool" where
  "first_free op n db y \<longleftrightarrow> (\<forall>n e db'. op n db = (Inl e, db') \<longrightarrow> db' = db) \<longrightarrow>
   (\<exists>k. y = op (n + k) db \<and> \<not> busy_result (fst y) \<and> (\<forall>j \<ge> n. j < n + k \<longrightarrow> busy_result (fst (op j db))))"

lemma retry_returns:
  assumes "retrySQLiteBusy op n db = Some y"
  shows "first_free op n db y"
proof (rule retrySQLiteBusy.raw_induct[where P = first_free, OF _ assms])
  fix rec op n db y
  assume 1: "\<And>op n db y. rec op n db = Some y \<Longrightarrow> first_free op n db y"
    "(case op n db of (Inl e, db') \<Rightarrow> if isSQLiteBusy e then rec op (Suc n) db' else Some (Inl e, db')
      | (Inr u, db') \<Rightarrow> Some (Inr u, db')) = Some y"
  obtain r d where o: "op n db = (r, d)" by (rule prod.exhaust)
  show "first_free op n db y" unfolding first_free_def
  proof (intro impI, cases "busy_result r")
    case True
    assume a: "\<forall>n e db'. op n db = (Inl e, db') \<longrightarrow> db' = db"
    from True obtain e where e: "r = Inl e" "isSQLiteBusy e" by (auto simp: busy_result_def split: sum.splits)
    have d: "d = db" by (rule a[rule_format]) (use o e(1) in simp)
    have "rec op (Suc n) db = Some y" using 1(2) unfolding o e(1) d by (simp add: e(2))
    from 1(1)[OF this, unfolded first_free_def, THEN mp, OF a] obtain k where
      k: "y = op (Suc n + k) db" "\<not> busy_result (fst y)"
      "\<forall>j \<ge> Suc n. j < Suc n + k \<longrightarrow> busy_result (fst (op j db))" by (elim exE conjE)
    have "busy_result (fst (op j db))" if "n \<le> j" "j < n + Suc k" for j
    proof (cases "j = n")
      case True
      then show ?thesis using o e by (simp add: busy_result_def)
    next
      case False
      with that have "Suc n \<le> j" "j < Suc n + k" by simp_all
      with k(3) show ?thesis by simp
    qed
    then show "\<exists>k. y = op (n + k) db \<and> \<not> busy_result (fst y) \<and>
        (\<forall>j \<ge> n. j < n + k \<longrightarrow> busy_result (fst (op j db)))"
      using k(1,2) by (intro exI[of _ "Suc k"]) simp
  next
    case False
    then have "y = (r, d)" using 1(2) unfolding o by (cases r) (simp_all add: busy_result_def)
    with False o show "\<exists>k. y = op (n + k) db \<and> \<not> busy_result (fst y) \<and>
        (\<forall>j \<ge> n. j < n + k \<longrightarrow> busy_result (fst (op j db)))"
      by (intro exI[of _ 0]) simp
  qed
qed

lemma insert_fields_ok:
  "insert_fields None n i kvs db =
     (Inr (), db\<lparr>sq_fields := sq_fields db @ map (\<lambda>(k, v). \<lparr>sf_event_id = i, sf_name = k, sf_value = v\<rparr>) kvs\<rparr>)"
  by (induction kvs arbitrary: n db)
    (auto simp: thenE_def bindE_def sq_exec_def fails_at_def insert_field_def)

lemma insert_fields_cases:
  "(\<exists>e d. insert_fields fault n i kvs db = (Inl e, d)) \<or> insert_fields fault n i kvs db = insert_fields None n i kvs db"
proof (induction kvs arbitrary: n db)
  case Nil
  then show ?case by simp
next
  case (Cons kv kvs)
  show ?case using Cons[of "Suc n" "insert_field i (fst kv) (snd kv) db"]
    by (cases kv) (auto simp: thenE_def bindE_def sq_exec_def fails_at_def[of None] split: option.splits)
qed

text \<open>What a committed write leaves.\<close>

definition committed :: "int \<Rightarrow> string \<Rightarrow> string \<Rightarrow> (string \<times> string) list \<Rightarrow> sq_db \<Rightarrow> sq_db" where
  "committed now encoded message kvs db =
     (let i = sq_seq db + 1 in
      \<lparr>sq_events = sq_events db @
         [\<lparr>se_id = i, se_timestamp_ns = now, se_message = message, se_fields_json = encoded\<rparr>],
       sq_fields = sq_fields db @ map (\<lambda>(k, v). \<lparr>sf_event_id = i, sf_name = k, sf_value = v\<rparr>) kvs,
       sq_seq = i\<rparr>)"

lemma sq_write_ok: "sq_write None now encoded message kvs db = (Inr (), committed now encoded message kvs db)"
  by (simp add: sq_write_def committed_def sq_exec_def fails_at_def thenE_def bindE_def insert_event_def
      insert_fields_ok Let_def)

lemma sq_write_success:
  "sq_write fault now encoded message kvs db = (Inr (), db') \<Longrightarrow> db' = committed now encoded message kvs db"
  using insert_fields_cases[of fault 0 "sq_seq db + 1" kvs "insert_event now message encoded db"]
  by (auto simp: sq_write_def committed_def sq_exec_def thenE_def bindE_def insert_event_def
      insert_fields_ok Let_def split: option.splits prod.splits sum.splits)

text \<open>
  C33. A write to the portable log returns exactly if one of its attempts does not find the
  database busy, and then with the result of the first such attempt: on an error nothing is
  stored, on success one event with one row for each of its fields.
\<close>

theorem sqlite_write_returns:
  "(case SQLiteWrite enc faults clock message fs db of
      None \<Rightarrow> \<forall>n. busy_result (fst (write_attempt enc faults clock message fs db n))
    | Some (r, db') \<Rightarrow> \<exists>n. (r, db') = write_attempt enc faults clock message fs db n \<and> \<not> busy_result r \<and>
        (\<forall>j < n. busy_result (fst (write_attempt enc faults clock message fs db j))) \<and>
        db' = (if r = Inr () then committed (clock n) (enc (stored_fields message fs)) message
                 (key_values (stored_fields message fs)) db else db))"
proof -
  let ?op = "\<lambda>n. sq_write (faults n) (clock n) (enc (stored_fields message fs)) message (key_values (stored_fields message fs))"
  let ?at = "write_attempt enc faults clock message fs db"
  have op: "?op n db = ?at n" for n by (simp add: write_attempt_def)
  have e: "\<forall>n e db'. ?op n db = (Inl e, db') \<longrightarrow> db' = db" using sq_write_error by blast
  have w: "SQLiteWrite enc faults clock message fs db = retrySQLiteBusy ?op 0 db"
    by (simp add: SQLiteWrite_def Let_def)
  show ?thesis
  proof (cases "retrySQLiteBusy ?op 0 db")
    case None
    have False if "\<not> busy_result (fst (?at n))" for n
    proof -
      let ?n = "LEAST n. \<not> busy_result (fst (?at n))"
      have "retrySQLiteBusy ?op 0 db = Some (?op (0 + ?n) db)"
        using LeastI[of "\<lambda>n. \<not> busy_result (fst (?at n))", OF that] not_less_Least
        by (intro retry_finds) (auto simp: op dest: e[rule_format, unfolded op])
      with None show False by simp
    qed
    with None w show ?thesis by auto
  next
    case (Some y)
    from retry_returns[OF Some, unfolded first_free_def] e obtain n where n: "y = ?at n" "\<not> busy_result (fst y)"
      "\<forall>j < n. busy_result (fst (?at j))" by (auto simp: op)
    obtain r db' where y: "y = (r, db')" by fastforce
    have d: "db' = (if r = Inr () then committed (clock n) (enc (stored_fields message fs)) message
        (key_values (stored_fields message fs)) db else db)"
      using n(1) y sq_write_success sq_write_error by (cases r) (auto simp: write_attempt_def eq_commute[of "(_, _)"])
    have "\<not> busy_result r" using n(2) unfolding y by simp
    with n y d have "(r, db') = ?at n \<and> \<not> busy_result r \<and> (\<forall>j < n. busy_result (fst (?at j))) \<and>
        db' = (if r = Inr () then committed (clock n) (enc (stored_fields message fs)) message
          (key_values (stored_fields message fs)) db else db)" by simp
    then show ?thesis unfolding w Some y option.case prod.case by (rule exI)
  qed
qed

definition busy_once :: "nat \<Rightarrow> sq_fault" where
  "busy_once n = (if n = 0 then Some (AtCommit, 0x0105) else None)"

theorem sqlite_write_returns_witness:
  "SQLiteWrite (\<lambda>_. ''{}'') busy_once (\<lambda>_. 7) ''m'' (\<lambda>_. None) empty_db =
    Some (Inr (), committed 7 ''{}'' ''m'' (key_values (stored_fields ''m'' (\<lambda>_. None))) empty_db)"
proof -
  let ?at = "write_attempt (\<lambda>_. ''{}'') busy_once (\<lambda>_. 7) ''m'' (\<lambda>_. None) empty_db"
  have a: "?at 1 = (Inr (), committed 7 ''{}'' ''m'' (key_values (stored_fields ''m'' (\<lambda>_. None))) empty_db)"
    by (simp add: write_attempt_def busy_once_def sq_write_ok)
  have f: "insert_fields (busy_once 0) n i kvs db = insert_fields None n i kvs db" for n i kvs db
    by (induction kvs arbitrary: n db) (auto simp: sq_exec_def fails_at_def busy_once_def thenE_def bindE_def)
  have e: "fails_at (busy_once 0) st = (if st = AtCommit then Some 0x0105 else None)" for st
    by (simp add: fails_at_def busy_once_def)
  have "?at 0 = (Inl (SqStage AtCommit 0x0105), empty_db)"
    by (simp add: write_attempt_def sq_write_def sq_exec_def e thenE_def bindE_def insert_fields_ok f)
  then have b: "busy_result (fst (?at 0))" by (simp add: busy_result_def isSQLiteBusy_def)
  obtain r db' n where y: "SQLiteWrite (\<lambda>_. ''{}'') busy_once (\<lambda>_. 7) ''m'' (\<lambda>_. None) empty_db = Some (r, db')"
    "(r, db') = ?at n" "\<not> busy_result r" "\<forall>j < n. busy_result (fst (?at j))"
    using sqlite_write_returns[of "\<lambda>_. ''{}''" busy_once "\<lambda>_. 7" "''m''" "\<lambda>_. None" empty_db] a
    by (cases "SQLiteWrite (\<lambda>_. ''{}'') busy_once (\<lambda>_. 7) ''m'' (\<lambda>_. None) empty_db") (auto simp: busy_result_def dest: spec[of _ 1])
  have "n \<noteq> 0" using y(2,3) b by (metis fst_conv)
  moreover have "\<not> n > 1" using y(4) a by (auto simp: busy_result_def dest!: spec[of _ 1])
  ultimately have "n = 1" by simp
  with y(1,2) a show ?thesis by simp
qed

section \<open>The tables as a sequence of records\<close>

text \<open>
  The abstract log: the events as records. In a database that only this code writes, the events
  are numbered in order, and the rows of an event are the fields it was stored with.
\<close>

definition sq_recs :: "(string \<Rightarrow> fieldmap option) \<Rightarrow> sq_db \<Rightarrow> event_record list" where
  "sq_recs dec db = map (\<lambda>e. the (sq_record dec e)) (sq_events db)"

definition rows_are :: "sq_db \<Rightarrow> int \<Rightarrow> fieldmap \<Rightarrow> bool" where
  "rows_are db i fs \<longleftrightarrow>
     (\<forall>f v. \<lparr>sf_event_id = i, sf_name = f, sf_value = v\<rparr> \<in> set (sq_fields db) \<longleftrightarrow> fs f = Some v)"

definition event_ok :: "(string \<Rightarrow> fieldmap option) \<Rightarrow> sq_db \<Rightarrow> sq_event \<Rightarrow> bool" where
  "event_ok dec db e \<longleftrightarrow> (\<exists>fs. dec (se_fields_json e) = Some fs \<and> rows_are db (se_id e) fs)"

definition sq_ok :: "(string \<Rightarrow> fieldmap option) \<Rightarrow> sq_db \<Rightarrow> bool" where
  "sq_ok dec db \<longleftrightarrow> sq_seq db = int (length (sq_events db)) \<and> sq_seq db < 2 ^ 63 \<and>
     (\<forall>i < length (sq_events db). se_id (sq_events db ! i) = int i + 1) \<and>
     (\<forall>e \<in> set (sq_events db). event_ok dec db e) \<and>
     (\<forall>r \<in> set (sq_fields db). sf_event_id r \<le> sq_seq db)"

lemma sq_okD:
  assumes "sq_ok dec db"
  shows "sq_seq db = int (length (sq_events db))" and "length (sq_events db) < 2 ^ 63"
    and "i < length (sq_events db) \<Longrightarrow> se_id (sq_events db ! i) = int i + 1"
    and "e \<in> set (sq_events db) \<Longrightarrow> event_ok dec db e"
    and "r \<in> set (sq_fields db) \<Longrightarrow> sf_event_id r \<le> sq_seq db"
  using assms by (auto simp: sq_ok_def)

text \<open>What the filters ask: of each field named, one of the values given for it.\<close>

definition matches_query :: "event_filter list \<Rightarrow> event_record \<Rightarrow> bool" where
  "matches_query ms r \<longleftrightarrow> (\<forall>f \<in> fst ` set ms. \<exists>v. (f, v) \<in> set ms \<and> ev_Fields r f = Some v)"

lemma matches_query_distinct:
  assumes "distinct (map fst ms)"
  shows "matches_query ms r = matchesFilters r ms"
proof -
  have "v = v'" if "(f, v) \<in> set ms" "(f, v') \<in> set ms" for f v v'
    using assms that by (metis eq_key_imp_eq_value)
  then show ?thesis unfolding matches_query_def matchesFilters_def list_all_iff by fastforce
qed

definition groups_of :: "event_filter list \<Rightarrow> (string \<times> string list) list \<Rightarrow> bool" where
  "groups_of ms g \<longleftrightarrow> (\<forall>f. (\<exists>vs. (f, vs) \<in> set g) \<longleftrightarrow> (\<exists>v. (f, v) \<in> set ms)) \<and>
     (\<forall>f vs v. (f, vs) \<in> set g \<longrightarrow> (v \<in> set vs \<longleftrightarrow> (f, v) \<in> set ms))"

lemma set_group_add:
  "set (group_add (f, v) g) =
     (if \<exists>vs. (f, vs) \<in> set g then (\<lambda>(f', vs). (f', if f' = f then vs @ [v] else vs)) ` set g
      else insert (f, [v]) (set g))"
proof (cases "map_of g f")
  case None
  then have "\<nexists>vs. (f, vs) \<in> set g" by (metis map_of_eq_None_iff fst_conv image_eqI)
  with None show ?thesis by (auto simp: group_add_def)
next
  case (Some vs)
  then have "\<exists>vs. (f, vs) \<in> set g" by (meson map_of_SomeD)
  with Some show ?thesis by (simp add: group_add_def cong: if_cong)
qed

lemma group_add_groups:
  assumes "groups_of ms g"
  shows "groups_of (ms @ [(f, v)]) (group_add (f, v) g)"
proof (cases "\<exists>vs. (f, vs) \<in> set g")
  case True
  have "(\<exists>vs. (f', vs) \<in> set (group_add (f, v) g)) \<longleftrightarrow> (\<exists>vs. (f', vs) \<in> set g)" for f'
    using True by (force simp: set_group_add)
  moreover have "(\<exists>v'. (f', v') \<in> set (ms @ [(f, v)])) \<longleftrightarrow> (\<exists>v'. (f', v') \<in> set ms)" for f'
    using True assms by (auto simp: groups_of_def)
  moreover have "w \<in> set vs \<longleftrightarrow> (f', w) \<in> set (ms @ [(f, v)])"
    if "(f', vs) \<in> set (group_add (f, v) g)" for f' vs w
  proof -
    from that True obtain vs0 where "(f', vs0) \<in> set g" "vs = (if f' = f then vs0 @ [v] else vs0)"
      by (auto simp: set_group_add split: if_splits)
    with assms show ?thesis by (auto simp: groups_of_def)
  qed
  ultimately show ?thesis using assms unfolding groups_of_def by auto
next
  case False
  then have n: "(f, v') \<notin> set ms" for v' using assms by (auto simp: groups_of_def)
  have s: "set (group_add (f, v) g) = insert (f, [v]) (set g)" using False by (simp add: set_group_add)
  show ?thesis unfolding groups_of_def s
  proof (intro conjI allI impI)
    fix f'
    show "(\<exists>vs. (f', vs) \<in> insert (f, [v]) (set g)) \<longleftrightarrow> (\<exists>v'. (f', v') \<in> set (ms @ [(f, v)]))"
      using assms by (auto simp: groups_of_def)
  next
    fix f' vs w
    assume a: "(f', vs) \<in> insert (f, [v]) (set g)"
    show "w \<in> set vs \<longleftrightarrow> (f', w) \<in> set (ms @ [(f, v)])"
    proof (cases "(f', vs) \<in> set g")
      case True
      with False have "f' \<noteq> f" by blast
      with True assms show ?thesis by (simp add: groups_of_def)
    next
      case False
      with a n show ?thesis by simp
    qed
  qed
qed

lemma group_filters_groups: "groups_of ms (group_filters ms)"
proof -
  have "groups_of (rev ns) (foldr group_add ns [])" for ns
  proof (induction ns)
    case (Cons n ns)
    then show ?case by (cases n) (simp add: group_add_groups)
  qed (simp add: groups_of_def)
  from this[of "rev ms"] have "groups_of ms (fold group_add ms [])" by (simp add: foldr_conv_fold)
  then show ?thesis by (simp add: group_filters_def groups_of_def)
qed

lemma has_field_iff:
  assumes "rows_are db i fs"
  shows "has_field db i (f, vs) \<longleftrightarrow> (\<exists>v \<in> set vs. fs f = Some v)"
proof -
  have r: "r = \<lparr>sf_event_id = i, sf_name = f, sf_value = v\<rparr> \<longleftrightarrow>
      sf_event_id r = i \<and> sf_name r = f \<and> sf_value r = v" for r v
    by (cases r) auto
  have "fs f = Some v \<longleftrightarrow> (\<exists>r \<in> set (sq_fields db). sf_event_id r = i \<and> sf_name r = f \<and> sf_value r = v)" for v
    using assms by (auto simp: rows_are_def simp flip: r)
  then show ?thesis by (auto simp: has_field_def list_ex_iff)
qed

lemma selects_matching:
  assumes "rows_are db (se_id e) (ev_Fields r)"
  shows "list_all (has_field db (se_id e)) (group_filters ms) \<longleftrightarrow> matches_query ms r"
proof -
  let ?g = "group_filters ms"
  have g: "(\<exists>vs. (f, vs) \<in> set ?g) \<longleftrightarrow> f \<in> fst ` set ms" "(f, vs) \<in> set ?g \<Longrightarrow> v \<in> set vs \<longleftrightarrow> (f, v) \<in> set ms"
    for f vs v using group_filters_groups[of ms] by (force simp: groups_of_def)+
  have "list_all (has_field db (se_id e)) ?g \<longleftrightarrow>
      (\<forall>f vs. (f, vs) \<in> set ?g \<longrightarrow> (\<exists>v. (f, v) \<in> set ms \<and> ev_Fields r f = Some v))"
    using g(2) by (fastforce simp: list_all_iff has_field_iff[OF assms])
  then show ?thesis using g(1) unfolding matches_query_def by blast
qed

lemma event_okD:
  assumes "sq_ok dec db" and "e \<in> set (sq_events db)"
  shows "sq_record dec e = Some (the (sq_record dec e))"
    and "rows_are db (se_id e) (ev_Fields (the (sq_record dec e)))"
    and "ev_Cursor (the (sq_record dec e)) = itoa (se_id e)"
  using sq_okD(4)[OF assms] by (auto simp: event_ok_def sq_record_def)

lemma scan_records:
  assumes "\<forall>e \<in> set es. sq_record dec e = Some (the (sq_record dec e))"
  shows "scan_events dec es c = Some (map (\<lambda>e. the (sq_record dec e)) es,
    if es = [] then c else ev_Cursor (the (sq_record dec (last es))))"
  using assms
proof (induction es arbitrary: c)
  case (Cons e es)
  then obtain r where "sq_record dec e = Some r" by auto
  with Cons show ?case by simp
qed simp

lemma filter_after:
  fixes f :: "'a \<Rightarrow> int"
  assumes "\<forall>i < length xs. f (xs ! i) = int i + 1 + d" and "d \<ge> 0"
  shows "filter (\<lambda>x. f x > k \<and> P x) xs = filter P (drop (nat (k - d)) xs)"
  using assms
proof (induction xs arbitrary: d)
  case (Cons x xs)
  have x: "f x = 1 + d" using Cons.prems(1) by auto
  have "\<forall>i < length xs. f (xs ! i) = int i + 1 + (d + 1)" using Cons.prems(1) by fastforce
  then have ih: "filter (\<lambda>x. f x > k \<and> P x) xs = filter P (drop (nat (k - (d + 1))) xs)"
    using Cons.prems(2) by (intro Cons.IH) simp_all
  show ?case
  proof (cases "k - d \<le> 0")
    case True
    then show ?thesis using x ih by simp
  next
    case False
    then have "nat (k - d) = Suc (nat (k - (d + 1)))" by simp
    then show ?thesis using x ih False by simp
  qed
qed simp

lemma select_is:
  assumes "sq_ok dec db"
  shows "select_events k (group_filters ms) db =
    filter (\<lambda>e. matches_query ms (the (sq_record dec e))) (drop (nat k) (sq_events db))"
proof -
  let ?es = "sq_events db"
  let ?P = "\<lambda>e. list_all (has_field db (se_id e)) (group_filters ms)"
  have ids: "se_id (?es ! i) = int i + 1" if "i < length ?es" for i using sq_okD(3)[OF assms that] .
  then have f: "filter (\<lambda>e. se_id e > k \<and> ?P e) ?es = filter ?P (drop (nat k) ?es)"
    using filter_after[of ?es se_id 0 k ?P] by simp
  have "sorted (map se_id ?es)" by (simp add: sorted_iff_nth_mono ids)
  then have "sorted (map se_id (drop (nat k) ?es))" by (metis drop_map sorted_wrt_drop)
  then have "sorted (map se_id (filter ?P (drop (nat k) ?es)))" by (rule sorted_filter)
  then have "select_events k (group_filters ms) db = filter ?P (drop (nat k) ?es)"
    unfolding select_events_def f by (rule sort_key_id_if_sorted)
  also have "\<dots> = filter (\<lambda>e. matches_query ms (the (sq_record dec e))) (drop (nat k) ?es)"
    using event_okD(2)[OF assms] by (intro filter_cong refl selects_matching) (auto dest: in_set_dropD)
  finally show ?thesis .
qed

lemma poll_is:
  assumes "sq_ok dec db"
  shows "SQLitePoll dec False ms cursor db =
    (let found = filter (matches_query ms) (drop (nat (parse_int_value cursor)) (sq_recs dec db)) in
     Inr (found, if found = [] then cursor else ev_Cursor (last found)))"
proof -
  let ?r = "\<lambda>e. the (sq_record dec e)"
  let ?es = "filter (\<lambda>e. matches_query ms (?r e)) (drop (nat (parse_int_value cursor)) (sq_events db))"
  have m: "map ?r ?es = filter (matches_query ms) (drop (nat (parse_int_value cursor)) (sq_recs dec db))"
    by (simp add: sq_recs_def filter_map o_def drop_map)
  moreover have "scan_events dec ?es cursor = Some (map ?r ?es, if ?es = [] then cursor else ev_Cursor (?r (last ?es)))"
    using event_okD(1)[OF assms] by (intro scan_records) (auto dest: in_set_dropD)
  ultimately show ?thesis
    by (simp add: SQLitePoll_def select_is[OF assms] Let_def last_map flip: m)
qed

lemma key_values_set:
  "finite (dom fs) \<Longrightarrow> (k, v) \<in> set (key_values fs) \<longleftrightarrow> fs k = Some v"
  by (auto simp: key_values_def)

lemma finite_stored: "finite (dom fs) \<Longrightarrow> finite (dom (stored_fields m fs))"
  by (simp add: stored_fields_def)

text \<open>What can be brought back: the identifiers do not run out, and JSON keeps the fields.\<close>

definition sq_storable :: "(fieldmap \<Rightarrow> string) \<Rightarrow> (string \<Rightarrow> fieldmap option) \<Rightarrow> sq_db \<Rightarrow> string \<Rightarrow> fieldmap \<Rightarrow> bool" where
  "sq_storable enc dec db m fs \<longleftrightarrow> finite (dom fs) \<and> sq_seq db + 1 < 2 ^ 63 \<and>
     dec (enc (stored_fields m fs)) = Some (stored_fields m fs)"

definition stored_record :: "int \<Rightarrow> int \<Rightarrow> string \<Rightarrow> fieldmap \<Rightarrow> event_record" where
  "stored_record i now m fs =
     \<lparr>ev_Cursor = itoa i, ev_Timestamp = now, ev_Message = m, ev_Fields = stored_fields m fs\<rparr>"

lemma committed_sim:
  fixes now :: int
  assumes "sq_ok dec db" and "sq_storable enc dec db m fs"
  defines "db' \<equiv> committed now (enc (stored_fields m fs)) m (key_values (stored_fields m fs)) db"
  shows "sq_ok dec db' \<and> sq_recs dec db' = sq_recs dec db @ [stored_record (sq_seq db + 1) now m fs]"
proof -
  let ?sf = "stored_fields m fs"
  let ?i = "sq_seq db + 1"
  let ?e = "\<lparr>se_id = ?i, se_timestamp_ns = now, se_message = m, se_fields_json = enc ?sf\<rparr>"
  note st = assms(2)[unfolded sq_storable_def]
  have fin: "finite (dom ?sf)" using st by (simp add: finite_stored)
  have ev: "sq_events db' = sq_events db @ [?e]" and sq: "sq_seq db' = ?i"
    and fl: "sq_fields db' = sq_fields db @ map (\<lambda>(k, v). \<lparr>sf_event_id = ?i, sf_name = k, sf_value = v\<rparr>) (key_values ?sf)"
    by (simp_all add: db'_def committed_def Let_def)
  have new: "rows_are db' ?i ?sf"
    using sq_okD(5)[OF assms(1)] by (force simp: rows_are_def fl key_values_set[OF fin])
  have old: "event_ok dec db' e" if "e \<in> set (sq_events db)" for e
  proof -
    have "se_id e \<noteq> ?i" using that sq_okD(1,3)[OF assms(1)] by (auto simp: in_set_conv_nth)
    then have "rows_are db' (se_id e) gs \<longleftrightarrow> rows_are db (se_id e) gs" for gs by (force simp: rows_are_def fl)
    then show ?thesis using sq_okD(4)[OF assms(1) that] by (simp add: event_ok_def)
  qed
  have "event_ok dec db' e" if "e \<in> set (sq_events db')" for e
    using that old new st by (auto simp: ev event_ok_def)
  moreover have "\<forall>r \<in> set (sq_fields db'). sf_event_id r \<le> sq_seq db'"
    using sq_okD(5)[OF assms(1)] by (force simp: fl sq)
  moreover have "\<forall>i < length (sq_events db'). se_id (sq_events db' ! i) = int i + 1"
    using sq_okD(1,3)[OF assms(1)] by (auto simp: ev nth_append less_Suc_eq)
  ultimately have "sq_ok dec db'" using sq_okD(1)[OF assms(1)] st by (simp add: sq_ok_def ev sq)
  moreover have "sq_recs dec db' = sq_recs dec db @ [stored_record ?i now m fs]"
    using st by (simp add: sq_recs_def ev sq_record_def stored_record_def)
  ultimately show ?thesis by blast
qed

definition sq_emit :: "(fieldmap \<Rightarrow> string) \<Rightarrow> int \<Rightarrow> string \<Rightarrow> fieldmap \<Rightarrow> (log_error, sq_db, unit) eff" where
  "sq_emit enc now m fs db =
     (case sq_write None now (enc (stored_fields m fs)) m (key_values (stored_fields m fs)) db of
        (Inl _, db') \<Rightarrow> (Inl SinkError, db')
      | (Inr _, db') \<Rightarrow> (Inr (), db'))"

lemma sq_recs_cursor:
  assumes "sq_ok dec db" and "k < length (sq_recs dec db)"
  shows "ev_Cursor (sq_recs dec db ! k) = itoa (int k + 1)" and "parse_int_value (itoa (int k + 1)) = int k + 1"
proof -
  have k: "k < length (sq_events db)" using assms(2) by (simp add: sq_recs_def)
  then show "ev_Cursor (sq_recs dec db ! k) = itoa (int k + 1)"
    by (simp add: sq_recs_def event_okD(3)[OF assms(1)] sq_okD(3)[OF assms(1)])
  show "parse_int_value (itoa (int k + 1)) = int k + 1"
    using k sq_okD(2)[OF assms(1)] by (intro parse_int_value_itoa) simp_all
qed

lemma poll_is_distinct:
  assumes "sq_ok dec db" and "distinct (map fst ms)"
  shows "SQLitePoll dec False ms cursor db =
    (let found = filter (\<lambda>e. matchesFilters e ms) (drop (nat (parse_int_value cursor)) (sq_recs dec db)) in
     Inr (found, if found = [] then cursor else ev_Cursor (last found)))"
proof -
  have "matches_query ms = (\<lambda>e. matchesFilters e ms)"
    by (simp add: fun_eq_iff matches_query_distinct[OF assms(2)])
  then show ?thesis unfolding poll_is[OF assms(1)] by simp
qed

lemma parse_int_value_Nil: "parse_int_value [] = 0"
  by (simp add: parse_int_value_def parse_uint_value_def)

text \<open>The portable log is an event log.\<close>

interpretation sqlite: event_log "sq_ok dec" "sq_recs dec" "SQLitePoll dec False" "sq_emit enc now"
  "sq_storable enc dec" stored_fields
proof (unfold_locales, goal_cases)
  case (1 db r)
  then obtain k where "k < length (sq_recs dec db)" "r = sq_recs dec db ! k" by (auto simp: in_set_conv_nth)
  with sq_recs_cursor[OF 1(1)] show ?case by (simp add: itoa_not_Nil)
next
  case (2 db ms)
  then show ?case
    by (simp add: poll_is_distinct Let_def next_cursor_def parse_int_value_Nil)
next
  case (3 db ms k)
  then show ?case
    by (simp add: poll_is_distinct sq_recs_cursor Let_def next_cursor_def nat_add_distrib)
next
  case (4 db m fs)
  then show ?case using committed_sim[OF 4, of now]
    by (simp add: sq_emit_def sq_write_ok stored_record_def)
qed

text \<open>
  C34. The tables implement the sequence of records: a write that succeeds, after whatever busy
  attempts, appends one record with the next number as its cursor, and a poll then returns, in
  order, the records after its cursor that have for each field named in the filters one of the
  values given for it.
\<close>

theorem sqlite_refines_log:
  assumes "sq_ok dec db" and "sq_storable enc dec db m fs"
    and "SQLiteWrite enc faults clock m fs db = Some (Inr (), db')"
  shows "\<exists>n. sq_ok dec db' \<and> sq_recs dec db' = sq_recs dec db @ [stored_record (sq_seq db + 1) (clock n) m fs] \<and>
    SQLitePoll dec False ms cursor db' =
      (let found = filter (matches_query ms) (drop (nat (parse_int_value cursor))
         (sq_recs dec db @ [stored_record (sq_seq db + 1) (clock n) m fs])) in
       Inr (found, if found = [] then cursor else ev_Cursor (last found)))"
proof -
  obtain n where n: "sq_write (faults n) (clock n) (enc (stored_fields m fs)) m (key_values (stored_fields m fs)) db
      = (Inr (), db')"
    using retry_returns[OF assms(3)[unfolded SQLiteWrite_def Let_def], unfolded first_free_def] sq_write_error
    by (metis add_0)
  then have "db' = committed (clock n) (enc (stored_fields m fs)) m (key_values (stored_fields m fs)) db"
    by (rule sq_write_success)
  with committed_sim[OF assms(1,2), of "clock n"] have
    d: "sq_ok dec db'" "sq_recs dec db' = sq_recs dec db @ [stored_record (sq_seq db + 1) (clock n) m fs]" by simp_all
  show ?thesis using d poll_is[OF d(1), of ms cursor] by auto
qed

text \<open>A code for maps with the two fields every event has.\<close>

definition code2 :: "fieldmap \<Rightarrow> string" where
  "code2 fs = (case fs ''MESSAGE'' of None \<Rightarrow> [] | Some v \<Rightarrow> v)"

definition decode2 :: "string \<Rightarrow> fieldmap option" where
  "decode2 s = Some (stored_fields s (\<lambda>_. None))"

lemma sq_ok_empty: "sq_ok dec empty_db"
  by (simp add: sq_ok_def empty_db_def)

theorem sqlite_refines_log_witness:
  "SQLitePoll decode2 False [(''PRIORITY'', ''5''), (''PRIORITY'', ''6'')] []
     (committed 7 (code2 (stored_fields ''m'' (\<lambda>_. None))) ''m'' (key_values (stored_fields ''m'' (\<lambda>_. None))) empty_db) =
     Inr ([stored_record 1 7 ''m'' (\<lambda>_. None)], itoa 1)"
proof -
  let ?db = "committed 7 (code2 (stored_fields ''m'' (\<lambda>_. None))) ''m'' (key_values (stored_fields ''m'' (\<lambda>_. None))) empty_db"
  have st: "sq_storable code2 decode2 empty_db ''m'' (\<lambda>_. None)"
    by (simp add: sq_storable_def empty_db_def decode2_def code2_def stored_fields_def)
  have w: "SQLiteWrite code2 (\<lambda>_. None) (\<lambda>_. 7) ''m'' (\<lambda>_. None) empty_db = Some (Inr (), ?db)"
    unfolding SQLiteWrite_def Let_def by (subst retry_step) (simp add: sq_write_ok busy_result_def)
  have m: "matches_query [(''PRIORITY'', ''5''), (''PRIORITY'', ''6'')] (stored_record 1 7 ''m'' (\<lambda>_. None))"
    by (simp add: matches_query_def stored_record_def stored_fields_def)
  show ?thesis
    using sqlite_refines_log[OF sq_ok_empty st w, of "[(''PRIORITY'', ''5''), (''PRIORITY'', ''6'')]" "[]"] m
    by (simp add: parse_int_value_Nil Let_def sq_recs_def empty_db_def) (simp add: stored_record_def)
qed

text \<open>The portable log delivers every output line once to a client that polls again and again.\<close>

lemma portable_polling_delivers_once:
  assumes "log_states (sq_ok dec) (sq_recs dec) (db # dbs)"
  shows "poll_output (SQLitePoll dec False) sid [] (db # dbs) =
    output_events (filter (\<lambda>e. ev_Fields e FieldSession = Some sid) (sq_recs dec (last (db # dbs))))"
  using sqlite.poll_output_start[OF assms] by (simp add: matchesFilters_def FilterBySession_def)

text \<open>\<open>Follow\<close> on databases that only grow yields every matching record after its cursor once.\<close>

lemma sqlite_poll_at:
  assumes "sq_ok dec db" and "distinct (map fst ms)" and "cursor_at (sq_recs dec db) ms c k"
  shows "\<exists>c'. SQLitePoll dec False ms c db = Inr (filter (\<lambda>e. matchesFilters e ms) (drop k (sq_recs dec db)), c') \<and>
    cursor_at (sq_recs dec db) ms c' (length (sq_recs dec db))"
proof -
  obtain c' where c: "SQLitePoll dec False ms c db = Inr (filter (\<lambda>e. matchesFilters e ms) (drop k (sq_recs dec db)), c')"
    "cursor_at (sq_recs dec db) ms (if c' = [] then c else c') (length (sq_recs dec db))"
    using sqlite.poll_advances[OF assms] by blast
  let ?found = "filter (\<lambda>e. matchesFilters e ms) (drop k (sq_recs dec db))"
  have "c' = (if ?found = [] then c else ev_Cursor (last ?found))"
    using c(1) unfolding poll_is_distinct[OF assms(1,2)] by (simp add: Let_def) metis
  moreover have "ev_Cursor (last ?found) \<noteq> []" if "?found \<noteq> []"
    using last_in_set[OF that] by (intro sqlite.cursor_some[OF assms(1)]) (auto dest: in_set_dropD)
  ultimately have "c' = c" if "c' = []" using that by metis
  with c show ?thesis by (auto split: if_splits)
qed

lemma sqlite_follow_once:
  "log_states (sq_ok dec) (sq_recs dec) (db # dbs) \<Longrightarrow> distinct (map fst ms) \<Longrightarrow> cursor_at (sq_recs dec db) ms c k \<Longrightarrow>
   SQLiteFollow dec ms c (map (Pair False) (db # dbs)) =
     filter (\<lambda>e. matchesFilters e ms) (drop k (sq_recs dec (last (db # dbs))))"
proof (induction dbs arbitrary: db c k)
  case Nil
  with sqlite_poll_at[of dec db ms c k] show ?case by auto
next
  case (Cons v dbs)
  then obtain es where es: "sq_ok dec db" "sq_recs dec v = sq_recs dec db @ es"
    "log_states (sq_ok dec) (sq_recs dec) (v # dbs)" by auto
  obtain c' where c': "SQLitePoll dec False ms c db = Inr (filter (\<lambda>e. matchesFilters e ms) (drop k (sq_recs dec db)), c')"
    "cursor_at (sq_recs dec db) ms c' (length (sq_recs dec db))"
    using sqlite_poll_at[OF es(1) Cons.prems(2,3)] by blast
  then have "cursor_at (sq_recs dec v) ms c' (length (sq_recs dec db))" using cursor_at_more es(2) by metis
  note ih = Cons.IH[OF es(3) Cons.prems(2) this]
  obtain fs where fs: "sq_recs dec (last (v # dbs)) = sq_recs dec db @ fs"
    using log_states_last[OF es(3)] es(2) by auto
  have "k \<le> length (sq_recs dec db)" using Cons.prems(3) by (simp add: cursor_at_def)
  then show ?case using c'(1) ih fs by simp
qed

end
