(* ===== verification/SocketSink.thy ===== *)
theory SocketSink
  imports EventLog
begin

text \<open>
  Writing to the journal over its socket (\<open>internal/journal/socket.go\<close>): the encoding of an
  entry, and the sink with its connection. What the operating system answers is a parameter of
  each write. \<open>decode_entry\<close> is the native protocol of the journal as its documentation
  describes it, for the reader of what is sent.
\<close>

section \<open>The encoding of an entry\<close>

definition appendField :: "string \<Rightarrow> string \<Rightarrow> string \<Rightarrow> string" where
  "appendField buf key val =
     (if CHR 0x0A \<in> set val
      then buf @ key @ [CHR 0x0A] @ put64 (of_nat (length val)) @ val @ [CHR 0x0A]
      else buf @ key @ ''='' @ val @ [CHR 0x0A])"

text \<open>The custom fields come in the order in which the map is iterated.\<close>

definition encodeEntry :: "string \<Rightarrow> (string \<times> string) list \<Rightarrow> string" where
  "encodeEntry message kvs =
     fold (\<lambda>(k, v) buf. appendField buf k v) kvs (appendField (appendField [] ''MESSAGE'' message) ''PRIORITY'' ''6'')"

section \<open>The sink\<close>

definition DefaultSocketPath :: string where
  "DefaultSocketPath = ''/run/systemd/journal/socket''"

definition portableDatagramLimit :: nat where
  "portableDatagramLimit = 1800"

record socket_sink =
  ss_path :: string
  ss_conn :: bool

definition NewSocketSink :: "string \<Rightarrow> socket_sink" where
  "NewSocketSink socketPath = \<lparr>ss_path = (if socketPath = [] then DefaultSocketPath else socketPath), ss_conn = False\<rparr>"

text \<open>
  The answers of the system: whether the socket can be dialled; what becomes of a datagram; at
  which step passing a file fails, if at any.
\<close>

datatype datagram_result = DatagramSent | DatagramTooBig | DatagramFailed

datatype large_step = LargeCreate | LargeWrite | LargeRewind | LargeRawConn | LargeControl | LargeSend

record socket_answers =
  an_dial :: bool
  an_datagram :: datagram_result
  an_large :: "large_step option"

datatype socket_error = DialError | DatagramError | LargeError large_step

text \<open>What arrives at the other end: a datagram, or a file with the entry.\<close>

datatype socket_message = Datagram string | PassedFile string

definition ensureConn :: "socket_answers \<Rightarrow> (socket_error, socket_sink, unit) eff" where
  "ensureConn an s =
     (if ss_conn s then (Inr (), s)
      else if an_dial an then (Inr (), s\<lparr>ss_conn := True\<rparr>) else (Inl DialError, s))"

definition writeLargeEntry :: "socket_answers \<Rightarrow> string \<Rightarrow> (socket_error, socket_sink, socket_message list) eff" where
  "writeLargeEntry an entry s =
     (case an_large an of
        None \<Rightarrow> (Inr [PassedFile entry], s)
      | Some st \<Rightarrow> (Inl (LargeError st), if st = LargeSend then s\<lparr>ss_conn := False\<rparr> else s))"

definition SocketWrite ::
  "socket_answers \<Rightarrow> string \<Rightarrow> (string \<times> string) list \<Rightarrow> (socket_error, socket_sink, socket_message list) eff" where
  "SocketWrite an message kvs =
     thenE (ensureConn an)
      (let entry = encodeEntry message kvs in
       bindE (getE ss_path) (\<lambda>path.
       if length entry > portableDatagramLimit \<and> path \<noteq> DefaultSocketPath then writeLargeEntry an entry
       else case an_datagram an of
         DatagramSent \<Rightarrow> returnE [Datagram entry]
       | DatagramTooBig \<Rightarrow>
           if path \<noteq> DefaultSocketPath then writeLargeEntry an entry
           else thenE (modifyE (\<lambda>s. s\<lparr>ss_conn := False\<rparr>)) (failE DatagramError)
       | DatagramFailed \<Rightarrow> thenE (modifyE (\<lambda>s. s\<lparr>ss_conn := False\<rparr>)) (failE DatagramError)))"

definition SocketClose :: "socket_sink \<Rightarrow> socket_sink" where
  "SocketClose s = s\<lparr>ss_conn := False\<rparr>"

definition SocketPath :: "socket_sink \<Rightarrow> string" where
  "SocketPath s = ss_path s"

text \<open>The environment is a function from names to values, the empty one if unset.\<close>

definition SetSocketPathFromEnv :: "(string \<Rightarrow> string) \<Rightarrow> string" where
  "SetSocketPathFromEnv getenv =
     (let path = getenv ''SWASH_JOURNAL_SOCKET'' in if path \<noteq> [] then path else DefaultSocketPath)"

definition OpenSystemd_sink :: "(string \<Rightarrow> string) \<Rightarrow> socket_sink" where
  "OpenSystemd_sink getenv =
     NewSocketSink (let socket = getenv ''SWASH_JOURNAL_SOCKET'' in if socket \<noteq> [] then socket else DefaultSocketPath)"

section \<open>Reading what is sent\<close>

function decode_entry :: "string \<Rightarrow> (string \<times> string) list option" where
  "decode_entry s =
     (if s = [] then Some []
      else let line = takeWhile (\<lambda>c. c \<noteq> CHR 0x0A) s; rest = drop (Suc (length line)) s in
        if length line \<ge> length s then None
        else if CHR ''='' \<in> set line
        then let key = takeWhile (\<lambda>c. c \<noteq> CHR ''='') line in
          map_option ((#) (key, drop (Suc (length key)) line)) (decode_entry rest)
        else let n = unat (get64 (take 8 rest)); val = take n (drop 8 rest) in
          if length rest < 8 + n + 1 \<or> rest ! (8 + n) \<noteq> CHR 0x0A then None
          else map_option ((#) (line, val)) (decode_entry (drop (8 + n + 1) rest)))"
  by auto
termination
  by (relation "measure length") (auto simp: Let_def)

declare decode_entry.simps [simp del]

definition key_ok :: "string \<Rightarrow> bool" where
  "key_ok k \<longleftrightarrow> CHR 0x0A \<notin> set k \<and> CHR ''='' \<notin> set k"

definition field_ok :: "string \<times> string \<Rightarrow> bool" where
  "field_ok kv \<longleftrightarrow> key_ok (fst kv) \<and> length (snd kv) < 2 ^ 64"

lemma takeWhile_line: "CHR 0x0A \<notin> set xs \<Longrightarrow> takeWhile (\<lambda>c. c \<noteq> CHR 0x0A) (xs @ CHR 0x0A # ys) = xs"
  by (induction xs) auto

lemma takeWhile_key: "CHR ''='' \<notin> set xs \<Longrightarrow> takeWhile (\<lambda>c. c \<noteq> CHR ''='') (xs @ CHR ''='' # ys) = xs"
  by (induction xs) auto

lemma decode_field:
  assumes "field_ok (k, v)"
  shows "decode_entry (appendField [] k v @ s) = map_option ((#) (k, v)) (decode_entry s)"
proof (cases "CHR 0x0A \<in> set v")
  case True
  let ?rest = "put64 (of_nat (length v)) @ v @ CHR 0x0A # s"
  have n: "unat (of_nat (length v) :: u64) = length v" using assms by (simp add: field_ok_def)
  have k: "CHR 0x0A \<notin> set k" "CHR ''='' \<notin> set k" using assms by (simp_all add: field_ok_def key_ok_def)
  have line: "takeWhile (\<lambda>c. c \<noteq> CHR 0x0A) (k @ CHR 0x0A # ?rest) = k" using k(1) by (rule takeWhile_line)
  have "decode_entry (k @ CHR 0x0A # ?rest) =
      (if length ?rest < 8 + length v + 1 \<or> ?rest ! (8 + length v) \<noteq> CHR 0x0A then None
       else map_option ((#) (k, take (length v) (drop 8 ?rest))) (decode_entry (drop (8 + length v + 1) ?rest)))"
    by (subst decode_entry.simps) (simp only: line Let_def; simp add: k n)
  also have "\<dots> = map_option ((#) (k, v)) (decode_entry s)"
    by (simp add: nth_append)
  finally show ?thesis using True by (simp add: appendField_def)
next
  case False
  have k: "CHR 0x0A \<notin> set (k @ CHR ''='' # v)" "CHR ''='' \<notin> set k"
    using assms False by (simp_all add: field_ok_def key_ok_def)
  have line: "takeWhile (\<lambda>c. c \<noteq> CHR 0x0A) ((k @ CHR ''='' # v) @ CHR 0x0A # s) = k @ CHR ''='' # v"
    using k(1) by (rule takeWhile_line)
  have "decode_entry ((k @ CHR ''='' # v) @ CHR 0x0A # s) = map_option ((#) (k, v)) (decode_entry s)"
    by (subst decode_entry.simps) (simp only: line Let_def takeWhile_key[OF k(2)]; simp)
  then show ?thesis using False by (simp add: appendField_def)
qed

lemma decode_Nil: "decode_entry [] = Some []"
  by (subst decode_entry.simps) simp

lemma appendField_append: "appendField buf k v = buf @ appendField [] k v"
  by (simp add: appendField_def)

lemma encode_concat:
  "encodeEntry message kvs =
     concat (map (\<lambda>(k, v). appendField [] k v) ((''MESSAGE'', message) # (''PRIORITY'', ''6'') # kvs))"
proof -
  have "fold (\<lambda>(k, v) buf. appendField buf k v) kvs buf = buf @ concat (map (\<lambda>(k, v). appendField [] k v) kvs)" for buf
  proof (induction kvs arbitrary: buf)
    case (Cons kv kvs)
    show ?case using Cons[of "appendField buf (fst kv) (snd kv)"]
      by (simp add: case_prod_beta appendField_append[of buf])
  qed simp
  then show ?thesis by (simp add: encodeEntry_def appendField_append[of "appendField [] ''MESSAGE'' message"])
qed

lemma decode_fields:
  "list_all field_ok kvs \<Longrightarrow> decode_entry (concat (map (\<lambda>(k, v). appendField [] k v) kvs)) = Some kvs"
proof (induction kvs)
  case (Cons kv kvs)
  then show ?case by (cases kv) (simp add: decode_field)
qed (simp add: decode_Nil)

lemma decode_encode:
  assumes "list_all field_ok kvs" and "length message < 2 ^ 64"
  shows "decode_entry (encodeEntry message kvs) = Some ((''MESSAGE'', message) # (''PRIORITY'', ''6'') # kvs)"
  unfolding encode_concat using assms by (intro decode_fields) (simp add: field_ok_def key_ok_def)

lemma SocketWrite_cases:
  assumes "SocketWrite an message kvs s = (r, s')"
  defines "entry \<equiv> encodeEntry message kvs"
  shows "ss_path s' = ss_path s \<and>
    (case r of
       Inr msgs \<Rightarrow> ss_conn s' \<and>
         (msgs = [Datagram entry] \<and> (ss_path s \<noteq> DefaultSocketPath \<longrightarrow> length entry \<le> portableDatagramLimit) \<or>
          msgs = [PassedFile entry] \<and> ss_path s \<noteq> DefaultSocketPath)
     | Inl e \<Rightarrow> ss_conn s' \<longrightarrow> (\<exists>st. e = LargeError st \<and> st \<noteq> LargeSend))"
  using assms
  by (auto simp: SocketWrite_def ensureConn_def writeLargeEntry_def thenE_def bindE_def Let_def
      split: if_splits datagram_result.splits option.splits)

text \<open>
  C35. A write to the journal socket that succeeds has handed over exactly one message, and whoever
  reads it by the native protocol of the journal finds the message, the priority and every field
  with its value, whatever bytes the values hold; only to the portable daemon is it passed as a
  file, and never does that daemon get a datagram over its limit. A failed transmission drops the
  connection.
\<close>

theorem socket_write_delivers:
  assumes "list_all field_ok kvs" and "length message < 2 ^ 64" and "SocketWrite an message kvs s = (r, s')"
  shows "case r of
      Inr msgs \<Rightarrow> ss_conn s' \<and> (\<exists>entry.
        decode_entry entry = Some ((''MESSAGE'', message) # (''PRIORITY'', ''6'') # kvs) \<and>
        (msgs = [Datagram entry] \<and> (ss_path s \<noteq> DefaultSocketPath \<longrightarrow> length entry \<le> portableDatagramLimit) \<or>
         msgs = [PassedFile entry] \<and> ss_path s \<noteq> DefaultSocketPath))
    | Inl e \<Rightarrow> ss_conn s' \<longrightarrow> (\<exists>st. e = LargeError st \<and> st \<noteq> LargeSend)"
  using SocketWrite_cases[OF assms(3)] decode_encode[OF assms(1,2)] by (cases r) auto

theorem socket_write_delivers_witness:
  "\<exists>entry. SocketWrite \<lparr>an_dial = True, an_datagram = DatagramTooBig, an_large = None\<rparr> ''m''
      [(''TEXT'', [CHR 0x0A])] (NewSocketSink ''/tmp/j'') =
      (Inr [PassedFile entry], \<lparr>ss_path = ''/tmp/j'', ss_conn = True\<rparr>) \<and>
    decode_entry entry = Some [(''MESSAGE'', ''m''), (''PRIORITY'', ''6''), (''TEXT'', [CHR 0x0A])]"
proof -
  let ?an = "\<lparr>an_dial = True, an_datagram = DatagramTooBig, an_large = None\<rparr>"
  let ?e = "encodeEntry ''m'' [(''TEXT'', [CHR 0x0A])]"
  have w: "SocketWrite ?an ''m'' [(''TEXT'', [CHR 0x0A])] (NewSocketSink ''/tmp/j'') =
      (Inr [PassedFile ?e], \<lparr>ss_path = ''/tmp/j'', ss_conn = True\<rparr>)"
    by (simp add: SocketWrite_def ensureConn_def writeLargeEntry_def thenE_def bindE_def Let_def
        NewSocketSink_def DefaultSocketPath_def)
  have "list_all field_ok [(''TEXT'', [CHR 0x0A])]" by (simp add: field_ok_def key_ok_def)
  from socket_write_delivers[OF this _ w] w show ?thesis by (auto simp: NewSocketSink_def)
qed

end
