(* ===== verification/GoJson.thy ===== *)
theory GoJson
  imports Float64 "HOL-Library.List_Lexorder" "HOL-Library.Char_ord"
begin

text \<open>
  What the sources use of \<open>unicode/utf8\<close> and \<open>encoding/json\<close>: text as a JSON string carries it, and the
  encoding and decoding of a list of strings and of a map of strings, byte for byte. They are the
  language's standard library. A value of another shape is an error, as \<open>Unmarshal\<close> reports it.
\<close>

section \<open>Text in JSON\<close>

text \<open>The length of the rune that starts the string, 0 if none does (\<open>utf8.DecodeRune\<close>).\<close>

definition utf8_cont :: "nat \<Rightarrow> string \<Rightarrow> bool" where
  "utf8_cont i s \<longleftrightarrow> i < length s \<and> 0x80 \<le> (of_char (s ! i) :: nat) \<and> (of_char (s ! i) :: nat) < 0xC0"

definition utf8_second :: "nat \<Rightarrow> nat \<Rightarrow> string \<Rightarrow> bool" where
  "utf8_second lo hi s \<longleftrightarrow> 1 < length s \<and> lo \<le> (of_char (s ! 1) :: nat) \<and> (of_char (s ! 1) :: nat) \<le> hi"

definition lead2 :: "nat \<Rightarrow> string \<Rightarrow> bool" where
  "lead2 b s \<longleftrightarrow> 0xC2 \<le> b \<and> b \<le> 0xDF \<and> utf8_cont 1 s"

definition lead3 :: "nat \<Rightarrow> string \<Rightarrow> bool" where
  "lead3 b s \<longleftrightarrow> 0xE0 \<le> b \<and> b \<le> 0xEF \<and>
     utf8_second (if b = 0xE0 then 0xA0 else 0x80) (if b = 0xED then 0x9F else 0xBF) s \<and> utf8_cont 2 s"

definition lead4 :: "nat \<Rightarrow> string \<Rightarrow> bool" where
  "lead4 b s \<longleftrightarrow> 0xF0 \<le> b \<and> b \<le> 0xF4 \<and>
     utf8_second (if b = 0xF0 then 0x90 else 0x80) (if b = 0xF4 then 0x8F else 0xBF) s \<and>
     utf8_cont 2 s \<and> utf8_cont 3 s"

definition rune_len :: "string \<Rightarrow> nat" where
  "rune_len s =
     (case s of [] \<Rightarrow> 0
      | c # _ \<Rightarrow>
          let b = (of_char c :: nat) in
          if b < 0x80 then 1 else if lead2 b s then 2 else if lead3 b s then 3 else if lead4 b s then 4 else 0)"

function json_text :: "string \<Rightarrow> string" where
  "json_text s =
     (if s = [] then []
      else if rune_len s = 0 then [CHR 0xEF, CHR 0xBF, CHR 0xBD] @ json_text (tl s)
      else take (rune_len s) s @ json_text (drop (rune_len s) s))"
  by auto
termination
  by (relation "measure length") auto

function utf8_ok :: "string \<Rightarrow> bool" where
  "utf8_ok s = (if s = [] then True else if rune_len s = 0 then False else utf8_ok (drop (rune_len s) s))"
  by auto
termination
  by (relation "measure length") auto

declare json_text.simps [simp del] utf8_ok.simps [simp del]

lemma json_text_ok: "utf8_ok s \<Longrightarrow> json_text s = s"
proof (induction s rule: utf8_ok.induct)
  case (1 s)
  show ?case
  proof (cases "s = []")
    case False
    with 1(2) have r: "rune_len s \<noteq> 0" "utf8_ok (drop (rune_len s) s)"
      by (subst (asm) utf8_ok.simps; simp split: if_splits)+
    have "json_text s = take (rune_len s) s @ json_text (drop (rune_len s) s)"
      using False r(1) by (subst json_text.simps) simp
    then show ?thesis using 1(1)[OF False r(1) r(2)] by simp
  qed (simp add: json_text.simps)
qed

lemma ascii_ok: "\<forall>c \<in> set s. of_char c < (0x80 :: nat) \<Longrightarrow> utf8_ok s"
proof (induction s)
  case Nil
  then show ?case by (simp add: utf8_ok.simps)
next
  case (Cons c s)
  then have "rune_len (c # s) = 1" by (simp add: rune_len_def)
  with Cons show ?case by (subst utf8_ok.simps) simp
qed

section \<open>Strings\<close>

text \<open>The encoder escapes for HTML and for JavaScript.\<close>

definition esc_byte :: "byte \<Rightarrow> string" where
  "esc_byte c =
     (if c = CHR 0x22 \<or> c = CHR 0x5C then [CHR 0x5C, c]
      else if c = CHR 0x08 then [CHR 0x5C, CHR ''b'']
      else if c = CHR 0x0C then [CHR 0x5C, CHR ''f'']
      else if c = CHR 0x0A then [CHR 0x5C, CHR ''n'']
      else if c = CHR 0x0D then [CHR 0x5C, CHR ''r'']
      else if c = CHR 0x09 then [CHR 0x5C, CHR ''t'']
      else if of_char c < (32 :: nat) \<or> c = CHR ''<'' \<or> c = CHR ''>'' \<or> c = CHR ''&'' then
        [CHR 0x5C, CHR ''u'', CHR ''0'', CHR ''0''] @ hex_byte c
      else [c])"

function quote_runes :: "string \<Rightarrow> string" where
  "quote_runes s =
     (if s = [] then []
      else if of_char (hd s) < (0x80 :: nat) then esc_byte (hd s) @ quote_runes (tl s)
      else if rune_len s = 0 then [CHR 0x5C] @ ''ufffd'' @ quote_runes (tl s)
      else if take 3 s = [CHR 0xE2, CHR 0x80, CHR 0xA8] then [CHR 0x5C] @ ''u2028'' @ quote_runes (drop 3 s)
      else if take 3 s = [CHR 0xE2, CHR 0x80, CHR 0xA9] then [CHR 0x5C] @ ''u2029'' @ quote_runes (drop 3 s)
      else take (rune_len s) s @ quote_runes (drop (rune_len s) s))"
  by auto
termination
  by (relation "measure length") auto

definition json_quote :: "string \<Rightarrow> string" where
  "json_quote s = [CHR 0x22] @ quote_runes s @ [CHR 0x22]"

text \<open>\<open>utf8.EncodeRune\<close> of a code point that is not a surrogate.\<close>

definition utf8_encode :: "nat \<Rightarrow> string" where
  "utf8_encode n =
     (if n < 0x80 then [char_of n]
      else if n < 0x800 then [char_of (0xC0 + n div 64), char_of (0x80 + n mod 64)]
      else if n < 0x10000 then
        [char_of (0xE0 + n div 4096), char_of (0x80 + n div 64 mod 64), char_of (0x80 + n mod 64)]
      else [char_of (0xF0 + n div 262144), char_of (0x80 + n div 4096 mod 64),
            char_of (0x80 + n div 64 mod 64), char_of (0x80 + n mod 64)])"

text \<open>\<open>getu4\<close> behind the \<open>u\<close>, and the rest.\<close>

fun hex4 :: "string \<Rightarrow> (nat \<times> string) option" where
  "hex4 (a # b # c # d # s) =
     (case (base_digit 16 a, base_digit 16 b, base_digit 16 c, base_digit 16 d) of
        (Some p, Some q, Some r, Some t) \<Rightarrow> Some (((p * 16 + q) * 16 + r) * 16 + t, s)
      | _ \<Rightarrow> None)"
| "hex4 _ = None"

definition is_surrogate :: "nat \<Rightarrow> bool" where
  "is_surrogate n \<longleftrightarrow> 0xD800 \<le> n \<and> n < 0xE000"

text \<open>A pair of surrogates is one code point, a lone one the replacement character.\<close>

definition surrogate :: "nat \<Rightarrow> string \<Rightarrow> string \<times> string" where
  "surrogate n s =
     (case (if has_prefix s [CHR 0x5C, CHR ''u''] then hex4 (drop 2 s) else None) of
        Some (m, r) \<Rightarrow>
          if n < 0xDC00 \<and> 0xDC00 \<le> m \<and> m < 0xE000 then (utf8_encode ((n - 0xD800) * 1024 + (m - 0xDC00) + 0x10000), r)
          else (utf8_encode 0xFFFD, s)
      | None \<Rightarrow> (utf8_encode 0xFFFD, s))"

text \<open>What a backslash and the bytes behind it stand for, and the rest.\<close>

definition unescape :: "string \<Rightarrow> (string \<times> string) option" where
  "unescape s =
     (case s of [] \<Rightarrow> None
      | c # t \<Rightarrow>
          if c = CHR 0x22 \<or> c = CHR 0x5C \<or> c = CHR ''/'' then Some ([c], t)
          else if c = CHR ''b'' then Some ([CHR 0x08], t)
          else if c = CHR ''f'' then Some ([CHR 0x0C], t)
          else if c = CHR ''n'' then Some ([CHR 0x0A], t)
          else if c = CHR ''r'' then Some ([CHR 0x0D], t)
          else if c = CHR ''t'' then Some ([CHR 0x09], t)
          else if c = CHR ''u'' then
            (case hex4 t of None \<Rightarrow> None
             | Some (n, r) \<Rightarrow> Some (if is_surrogate n then surrogate n r else (utf8_encode n, r)))
          else None)"

lemma hex4_shorter: "hex4 s = Some (n, r) \<Longrightarrow> length r < length s"
  by (induction s rule: hex4.induct) (auto split: option.splits)

lemma surrogate_shorter: "length (snd (surrogate n s)) \<le> length s"
  by (auto simp: surrogate_def split: option.splits dest!: hex4_shorter)

lemma unescape_shorter:
  assumes "unescape s = Some (t, r)"
  shows "length r < length s"
proof (cases s)
  case Nil
  with assms show ?thesis by (simp add: unescape_def)
next
  case (Cons c q)
  show ?thesis
  proof (cases "c = CHR ''u''")
    case True
    with assms Cons obtain n p where "hex4 q = Some (n, p)" "r = p \<or> r = snd (surrogate n p)"
      by (auto simp: unescape_def split: option.splits if_splits)
    with hex4_shorter[of q n p] surrogate_shorter[of n p] Cons show ?thesis by auto
  qed (use assms Cons in \<open>auto simp: unescape_def split: if_splits\<close>)
qed

text \<open>The string in front of the next quote, and the rest.\<close>

function unquote :: "string \<Rightarrow> (string \<times> string) option" where
  "unquote s =
     (if s = [] then None
      else if hd s = CHR 0x22 then Some ([], tl s)
      else if hd s = CHR 0x5C then
        (case unescape (tl s) of None \<Rightarrow> None
         | Some tr \<Rightarrow> map_option (\<lambda>(u, q). (fst tr @ u, q)) (unquote (snd tr)))
      else if of_char (hd s) < (32 :: nat) then None
      else if rune_len s = 0 then map_option (\<lambda>(u, q). (utf8_encode 0xFFFD @ u, q)) (unquote (tl s))
      else map_option (\<lambda>(u, q). (take (rune_len s) s @ u, q)) (unquote (drop (rune_len s) s)))"
  by pat_completeness auto
termination
proof (relation "measure length", simp)
  fix s tr assume "s \<noteq> []" "unescape (tl s) = Some tr"
  then show "(snd tr, s) \<in> measure length"
    using unescape_shorter[of "tl s" "fst tr" "snd tr"] by (cases s) auto
qed auto

declare quote_runes.simps [simp del] unquote.simps [simp del]

lemma lead_more:
  assumes "k \<le> length s"
  shows "2 \<le> k \<Longrightarrow> lead2 b (take k s @ t) = lead2 b s"
    and "3 \<le> k \<Longrightarrow> lead3 b (take k s @ t) = lead3 b s"
    and "4 \<le> k \<Longrightarrow> lead4 b (take k s @ t) = lead4 b s"
  using assms by (auto simp: lead2_def lead3_def lead4_def utf8_cont_def utf8_second_def nth_append)

lemma lead_length: "lead2 b s \<Longrightarrow> 2 \<le> length s" "lead3 b s \<Longrightarrow> 3 \<le> length s" "lead4 b s \<Longrightarrow> 4 \<le> length s"
  by (simp_all add: lead2_def lead3_def lead4_def utf8_cont_def)

lemma rune_len_hd:
  "s \<noteq> [] \<Longrightarrow> of_char (hd s) = b \<Longrightarrow> rune_len s =
     (if b < 0x80 then 1 else if lead2 b s then 2 else if lead3 b s then 3 else if lead4 b s then 4 else 0)"
  by (cases s) (auto simp: rune_len_def)

lemma rune_len_le: "rune_len s \<le> length s"
proof (cases "s = []")
  case False
  then have "1 \<le> length s" by (cases s) auto
  then show ?thesis unfolding rune_len_hd[OF False refl]
    using lead_length[of "of_char (hd s)" s] by simp
qed (simp add: rune_len_def)

lemma rune_len_more:
  assumes "0 < rune_len s"
  shows "rune_len (take (rune_len s) s @ t) = rune_len s"
proof -
  have ne: "s \<noteq> []" using assms by (auto simp: rune_len_def)
  define k where "k = rune_len s"
  have k: "0 < k" "k \<le> length s" using assms rune_len_le[of s] by (simp_all add: k_def)
  then have ne': "take k s @ t \<noteq> []" and hd: "of_char (hd (take k s @ t)) = (of_char (hd s) :: nat)"
    using ne by (cases s; cases k; simp)+
  have "rune_len (take k s @ t) = k"
    using k_def[unfolded rune_len_hd[OF ne refl]] k(1) lead_more[OF k(2), where t = t]
    unfolding rune_len_hd[OF ne' hd] by (simp split: if_splits)
  then show ?thesis by (simp add: k_def)
qed

lemma base_digit_char: "d < 16 \<Longrightarrow> base_digit 16 (digit_char d) = Some d"
  by (auto simp: base_digit_def hex_val_def lower_def digit_char_def digit_val_def Let_def)

lemma base_digit_zero: "base_digit 16 (CHR ''0'') = Some 0"
  by (simp add: base_digit_def digit_val_def)

lemma utf8_encode_special:
  "utf8_encode 0xFFFD = [CHR 0xEF, CHR 0xBF, CHR 0xBD]"
  "utf8_encode 0x2028 = [CHR 0xE2, CHR 0x80, CHR 0xA8]"
  "utf8_encode 0x2029 = [CHR 0xE2, CHR 0x80, CHR 0xA9]"
  by (simp_all add: utf8_encode_def char_of_eq_iff take_bit_eq_mod)

lemma unquote_byte:
  assumes "of_char c < (0x80 :: nat)"
  shows "unquote (esc_byte c @ t) = map_option (\<lambda>(u, q). (c # u, q)) (unquote t)"
proof (cases "of_char c < (32 :: nat) \<or> c = CHR ''<'' \<or> c = CHR ''>'' \<or> c = CHR ''&''")
  case True
  have h: "hex4 (CHR ''0'' # CHR ''0'' # digit_char (of_char c div 16) # digit_char (of_char c mod 16) # t) =
      Some (of_char c, t)"
    using assms by (simp add: base_digit_char base_digit_zero)
  show ?thesis using True assms
    by (subst unquote.simps) (simp add: esc_byte_def unescape_def hex_byte_def h is_surrogate_def utf8_encode_def del: hex4.simps)
next
  case False
  then show ?thesis using assms
    by (subst unquote.simps) (simp add: esc_byte_def unescape_def rune_len_def)
qed

lemma unquote_rune:
  assumes "0 < rune_len s" and "\<not> of_char (hd s) < (0x80 :: nat)"
  shows "unquote (take (rune_len s) s @ t) = map_option (\<lambda>(u, q). (take (rune_len s) s @ u, q)) (unquote t)"
proof -
  have ne: "s \<noteq> []" using assms by (auto simp: rune_len_def)
  define k where "k = rune_len s"
  have k: "0 < k" "k \<le> length s" "rune_len (take k s @ t) = k"
    using assms(1) rune_len_le[of s] rune_len_more[OF assms(1)] by (simp_all add: k_def)
  then have ne': "take k s @ t \<noteq> []" and hd: "hd (take k s @ t) = hd s"
    using ne by (cases s; cases k; simp)+
  have "hd s \<noteq> CHR 0x22" "hd s \<noteq> CHR 0x5C" "\<not> of_char (hd s) < (32 :: nat)" using assms(2) by auto
  with ne' hd k show ?thesis unfolding k_def[symmetric] by (subst unquote.simps) (simp del: append_is_Nil_conv)
qed

lemma unquote_quoted: "unquote (quote_runes s @ CHR 0x22 # t) = Some (json_text s, t)"
proof (induction s rule: quote_runes.induct)
  case (1 s)
  consider "s = []" | "s \<noteq> []" "of_char (hd s) < (0x80 :: nat)"
    | "s \<noteq> []" "\<not> of_char (hd s) < (0x80 :: nat)" "rune_len s = 0"
    | "s \<noteq> []" "\<not> of_char (hd s) < (0x80 :: nat)" "0 < rune_len s" by auto
  then show ?case
  proof cases
    case 2
    then have r: "rune_len s = 1" by (simp add: rune_len_hd)
    show ?thesis using 2 1(1) r unquote_byte[OF 2(2)]
      by (subst quote_runes.simps, subst json_text.simps) (cases s; simp)
  next
    case 3
    have "unquote ([CHR 0x5C] @ ''ufffd'' @ q) = map_option (\<lambda>(u, q). (utf8_encode 0xFFFD @ u, q)) (unquote q)" for q
      by (subst unquote.simps) (simp add: unescape_def base_digit_def hex_val_def lower_def digit_val_def is_surrogate_def)
    with 3 1(2) show ?thesis
      by (subst quote_runes.simps, subst json_text.simps) (simp add: utf8_encode_special)
  next
    case 4
    show ?thesis
    proof (cases "take 3 s = [CHR 0xE2, CHR 0x80, CHR 0xA8] \<or> take 3 s = [CHR 0xE2, CHR 0x80, CHR 0xA9]")
      case True
      then obtain e where e: "take 3 s = [CHR 0xE2, CHR 0x80, e]" "e = CHR 0xA8 \<or> e = CHR 0xA9" by metis
      then have "s = [CHR 0xE2, CHR 0x80, e] @ drop 3 s" using append_take_drop_id[of 3 s] by simp
      moreover have "rune_len ([CHR 0xE2, CHR 0x80, e] @ q) = 3" for q
        using e(2) by (auto simp: rune_len_def lead2_def lead3_def utf8_cont_def utf8_second_def)
      ultimately have r: "rune_len s = 3" by metis
      have "unquote ([CHR 0x5C] @ ''u2028'' @ q) =
          map_option (\<lambda>(u, q). ([CHR 0xE2, CHR 0x80, CHR 0xA8] @ u, q)) (unquote q)"
        "unquote ([CHR 0x5C] @ ''u2029'' @ q) =
          map_option (\<lambda>(u, q). ([CHR 0xE2, CHR 0x80, CHR 0xA9] @ u, q)) (unquote q)" for q
        by (subst unquote.simps; simp add: unescape_def base_digit_def hex_val_def lower_def digit_val_def
          is_surrogate_def utf8_encode_special)+
      with 4 1(3,4) True r show ?thesis
        by (subst quote_runes.simps, subst json_text.simps) auto
    next
      case False
      with 4 1(5) unquote_rune[OF 4(3,2)] show ?thesis
        by (subst quote_runes.simps, subst json_text.simps) simp
    qed
  qed (simp add: quote_runes.simps unquote.simps json_text.simps)
qed

section \<open>Lists and maps\<close>

definition json_list :: "string list \<Rightarrow> string" where
  "json_list xs = ''['' @ go_join (map json_quote xs) '','' @ '']''"

text \<open>A map is written in the order of its keys.\<close>

definition map_pairs :: "(string \<Rightarrow> string option) \<Rightarrow> (string \<times> string) list" where
  "map_pairs m = map (\<lambda>k. (k, case m k of None \<Rightarrow> [] | Some v \<Rightarrow> v)) (sorted_list_of_set (dom m))"

definition json_pair :: "string \<times> string \<Rightarrow> string" where
  "json_pair kv = json_quote (fst kv) @ '':'' @ json_quote (snd kv)"

definition json_map :: "(string \<times> string) list \<Rightarrow> string" where
  "json_map kvs = ''{'' @ go_join (map json_pair kvs) '','' @ ''}''"

definition json_space :: "byte \<Rightarrow> bool" where
  "json_space c = (c \<in> {CHR 0x20, CHR 0x09, CHR 0x0A, CHR 0x0D})"

definition skip_space :: "string \<Rightarrow> string" where
  "skip_space s = dropWhile json_space s"

text \<open>A string, or \<open>null\<close>, which leaves the empty string.\<close>

definition read_string :: "string \<Rightarrow> (string \<times> string) option" where
  "read_string s = (case cut_prefix s [CHR 0x22] of None \<Rightarrow> None | Some r \<Rightarrow> unquote r)"

definition read_item :: "string \<Rightarrow> (string \<times> string) option" where
  "read_item s = (case cut_prefix s ''null'' of Some r \<Rightarrow> Some ([], r) | None \<Rightarrow> read_string s)"

definition read_pair :: "string \<Rightarrow> ((string \<times> string) \<times> string) option" where
  "read_pair s =
     (case read_string s of
        None \<Rightarrow> None
      | Some (k, r) \<Rightarrow>
          (case cut_prefix (skip_space r) '':'' of
             None \<Rightarrow> None
           | Some q \<Rightarrow> map_option (\<lambda>(v, t). ((k, v), t)) (read_item (skip_space q))))"

text \<open>Items with commas in between, up to the closing bracket; the fuel is the length of the text.\<close>

fun read_items :: "nat \<Rightarrow> (string \<Rightarrow> ('a \<times> string) option) \<Rightarrow> byte \<Rightarrow> string \<Rightarrow> ('a list \<times> string) option" where
  "read_items 0 item close s = None"
| "read_items (Suc n) item close s =
     (case item (skip_space s) of
        None \<Rightarrow> None
      | Some (x, r) \<Rightarrow>
          (case skip_space r of
             [] \<Rightarrow> None
           | c # q \<Rightarrow>
               if c = close then Some ([x], q)
               else if c = CHR '','' then map_option (\<lambda>(xs, t). (x # xs, t)) (read_items n item close q)
               else None))"

text \<open>A whole text: \<open>null\<close>, no items, or items; only white space may follow.\<close>

definition read_all :: "(string \<Rightarrow> ('a \<times> string) option) \<Rightarrow> byte \<Rightarrow> byte \<Rightarrow> string \<Rightarrow> 'a list option" where
  "read_all item open_with close s =
     (case skip_space s of
        [] \<Rightarrow> None
      | c # q \<Rightarrow>
          (case (if c # take 3 q = ''null'' then Some ([], drop 3 q)
                 else if c \<noteq> open_with then None
                 else case skip_space q of
                   [] \<Rightarrow> None
                 | d # t \<Rightarrow> if d = close then Some ([], t) else read_items (length q) item close q) of
             Some (xs, r) \<Rightarrow> if skip_space r = [] then Some xs else None
           | None \<Rightarrow> None))"

definition Unmarshal_list :: "string \<Rightarrow> string list option" where
  "Unmarshal_list = read_all read_item (CHR ''['') (CHR '']'')"

text \<open>A key that is there twice has its last value.\<close>

definition Unmarshal_map :: "string \<Rightarrow> (string \<Rightarrow> string option) option" where
  "Unmarshal_map s = map_option (\<lambda>kvs. map_of (rev kvs)) (read_all read_pair (CHR ''{'') (CHR ''}'') s)"

lemma skip_nonspace: "\<not> json_space c \<Longrightarrow> skip_space (c # s) = c # s"
  by (simp add: skip_space_def)

lemma read_quoted: "read_string (json_quote x @ t) = Some (json_text x, t)"
  using cut_prefix_append[of "[CHR 0x22]" "quote_runes x @ CHR 0x22 # t"]
  by (simp add: read_string_def json_quote_def unquote_quoted)

lemma read_item_quoted: "read_item (json_quote x @ t) = Some (json_text x, t)"
  using read_quoted[of x t] by (simp add: read_item_def json_quote_def cut_prefix_def has_prefix_def)

lemma read_pair_quoted: "read_pair (json_pair kv @ t) = Some ((json_text (fst kv), json_text (snd kv)), t)"
proof -
  have "cut_prefix (skip_space (CHR '':'' # json_quote (snd kv) @ t)) '':'' = Some (json_quote (snd kv) @ t)"
    by (simp add: skip_nonspace json_space_def cut_prefix_def has_prefix_def)
  moreover have "skip_space (json_quote (snd kv) @ t) = json_quote (snd kv) @ t"
    by (simp add: json_quote_def skip_nonspace json_space_def)
  ultimately show ?thesis by (simp add: read_pair_def json_pair_def read_quoted read_item_quoted)
qed

lemma read_items_joined:
  assumes "\<And>x t. item (enc x @ t) = Some (dec x, t)" and "\<And>x. \<exists>q. enc x = CHR 0x22 # q"
    and "close \<noteq> CHR '',''" and "\<not> json_space close"
  shows "xs \<noteq> [] \<Longrightarrow> length xs \<le> n \<Longrightarrow>
    read_items n item close (go_join (map enc xs) '','' @ close # t) = Some (map dec xs, t)"
proof (induction xs arbitrary: n)
  case (Cons x xs)
  then obtain m where n: "n = Suc m" by (cases n) auto
  have sk: "skip_space (enc y @ q) = enc y @ q" for y q
    using assms(2)[of y] by (auto simp: skip_nonspace json_space_def)
  show ?case
  proof (cases "xs = []")
    case True
    with n assms show ?thesis by (simp add: sk skip_nonspace)
  next
    case False
    have "\<not> json_space (CHR '','')" by (simp add: json_space_def)
    with n False Cons assms(1,3) show ?thesis by (simp add: go_join_Cons sk skip_nonspace)
  qed
qed simp

lemma length_joined: "(\<And>x. 0 < length (enc x)) \<Longrightarrow> length xs \<le> length (go_join (map enc xs) '','')"
proof (induction xs)
  case (Cons x xs)
  then show ?case using Cons.prems[of x] by (cases "xs = []") (auto simp: go_join_Cons Suc_le_eq)
qed simp

lemma read_all_joined:
  assumes "\<And>x t. item (enc x @ t) = Some (dec x, t)" and "\<And>x. \<exists>q. enc x = CHR 0x22 # q"
    and "close \<noteq> CHR '',''" and "\<not> json_space close" and "close \<noteq> CHR 0x22"
    and "\<not> json_space open_with" and "open_with \<noteq> CHR ''n''"
  shows "read_all item open_with close (open_with # go_join (map enc xs) '','' @ [close]) = Some (map dec xs)"
proof (cases "xs = []")
  case True
  with assms(4,6,7) show ?thesis by (simp add: read_all_def skip_nonspace) (simp add: skip_space_def)
next
  case False
  then obtain x ys where xs: "xs = x # ys" by (cases xs) auto
  obtain q where q: "go_join (map enc xs) '','' @ [close] = CHR 0x22 # q"
    using assms(2)[of x] xs by (cases "ys = []") (auto simp: go_join_Cons)
  have l: "length xs \<le> length (go_join (map enc xs) '','' @ [close])"
    using length_joined[of enc xs] assms(2) by (metis le_trans length_append le_add1 length_greater_0_conv list.distinct(1))
  have "read_items (length (go_join (map enc xs) '','' @ [close])) item close (go_join (map enc xs) '','' @ close # []) =
      Some (map dec xs, [])"
    by (rule read_items_joined[OF assms(1-4) False l])
  then have r: "read_items (length (CHR 0x22 # q)) item close (CHR 0x22 # q) = Some (map dec xs, [])"
    by (simp only: q)
  have s: "skip_space (CHR 0x22 # q) = CHR 0x22 # q" by (simp add: skip_nonspace json_space_def)
  have "read_all item open_with close (open_with # CHR 0x22 # q) = Some (map dec xs)"
    using r s assms(5-7) by (simp add: read_all_def skip_nonspace del: read_items.simps) (simp add: skip_space_def)
  then show ?thesis by (simp only: q)
qed

lemma Unmarshal_json_list: "Unmarshal_list (json_list xs) = Some (map json_text xs)"
  unfolding Unmarshal_list_def json_list_def
  using read_all_joined[of read_item json_quote json_text "CHR '']''" "CHR ''[''" xs, OF read_item_quoted]
  by (simp add: json_quote_def json_space_def)

lemma Unmarshal_json_map:
  "Unmarshal_map (json_map kvs) = Some (map_of (rev (map (\<lambda>(k, v). (json_text k, json_text v)) kvs)))"
  unfolding Unmarshal_map_def json_map_def
  using read_all_joined[of read_pair json_pair "\<lambda>(k, v). (json_text k, json_text v)" "CHR ''}''" "CHR ''{''" kvs]
  by (simp add: read_pair_quoted case_prod_beta) (simp add: json_pair_def json_quote_def json_space_def)

lemma map_of_pairs: "finite (dom m) \<Longrightarrow> map_of (map_pairs m) = m"
  by (rule ext) (auto simp: map_pairs_def map_of_map_restrict restrict_map_def comp_def split: option.splits)

end
