(* ===== verification/ControlSocket.thy ===== *)
theory ControlSocket
  imports TTYHost GoJson
begin

text \<open>
  The control socket of a portable session: the server in its host
  (\<open>internal/host/unix_server.go\<close>) and the client (\<open>internal/backend/posix/client.go\<close>). Requests and
  responses are those of \<open>net/http\<close>. A JSON body is the value it encodes, as \<open>encoding/json\<close> writes
  and reads it, where strings lose bytes that are not UTF-8; \<open>render\<close> is its text, for a reader
  that takes it as text. An attach is a raw exchange of bytes and is modelled as one.
\<close>

section \<open>Requests and responses\<close>

datatype json = JNull | JNum int | JBool bool | JStr string | JArr "json list" | JObj "(string \<times> json) list"

datatype body = NoBody | Bytes string | Json json

record request =
  rq_method :: string
  rq_path :: string
  rq_query :: "(string \<times> string) list"
  rq_body :: body

record response =
  rs_status :: int
  rs_body :: body

definition jget :: "string \<Rightarrow> json \<Rightarrow> json option" where
  "jget k j = (case j of JObj kvs \<Rightarrow> map_of kvs k | _ \<Rightarrow> None)"

text \<open>
  Decoding a field of a struct: a missing one, or null, keeps its zero value; one of another type,
  or a number out of range, is an error.
\<close>

definition dec_int32 :: "json option \<Rightarrow> int option" where
  "dec_int32 f =
     (case f of None \<Rightarrow> Some 0 | Some JNull \<Rightarrow> Some 0
      | Some (JNum n) \<Rightarrow> if - (2 ^ 31) \<le> n \<and> n < 2 ^ 31 then Some n else None
      | Some _ \<Rightarrow> None)"

definition dec_int :: "json option \<Rightarrow> int option" where
  "dec_int f =
     (case f of None \<Rightarrow> Some 0 | Some JNull \<Rightarrow> Some 0
      | Some (JNum n) \<Rightarrow> if - (2 ^ 63) \<le> n \<and> n < 2 ^ 63 then Some n else None
      | Some _ \<Rightarrow> None)"

definition dec_bool :: "json option \<Rightarrow> bool option" where
  "dec_bool f = (case f of None \<Rightarrow> Some False | Some JNull \<Rightarrow> Some False | Some (JBool b) \<Rightarrow> Some b | Some _ \<Rightarrow> None)"

definition dec_str :: "json option \<Rightarrow> string option" where
  "dec_str f = (case f of None \<Rightarrow> Some [] | Some JNull \<Rightarrow> Some [] | Some (JStr s) \<Rightarrow> Some s | Some _ \<Rightarrow> None)"

definition dec_strs :: "json option \<Rightarrow> string list option" where
  "dec_strs f =
     (case f of None \<Rightarrow> Some [] | Some JNull \<Rightarrow> Some []
      | Some (JArr js) \<Rightarrow> those (map (\<lambda>j. dec_str (Some j)) js) | Some _ \<Rightarrow> None)"

definition json_of :: "body \<Rightarrow> json option" where
  "json_of b = (case b of Json (JObj kvs) \<Rightarrow> Some (JObj kvs) | Json JNull \<Rightarrow> Some (JObj []) | _ \<Rightarrow> None)"

definition body_bytes :: "(json \<Rightarrow> string) \<Rightarrow> body \<Rightarrow> string" where
  "body_bytes render b = (case b of NoBody \<Rightarrow> [] | Bytes s \<Rightarrow> s | Json j \<Rightarrow> render j)"

section \<open>The server\<close>

text \<open>What the server calls: the session, and for an interactive one its terminal.\<close>

record 's session_ops =
  so_Gist :: "'s \<Rightarrow> string + host_status"
  so_Stats :: "'s \<Rightarrow> string + string"
  so_SendInput :: "string \<Rightarrow> 's \<Rightarrow> (string + int) \<times> 's"
  so_Kill :: "'s \<Rightarrow> (string + unit) \<times> 's"
  so_Restart :: "'s \<Rightarrow> (string + unit) \<times> 's"

record 's terminal_ops =
  to_GetScreenText :: "'s \<Rightarrow> string + string"
  to_GetScreenANSI :: "'s \<Rightarrow> string + string"
  to_GetCursor :: "'s \<Rightarrow> string + (int \<times> int)"
  to_GetTitle :: "'s \<Rightarrow> string + string"
  to_GetMode :: "'s \<Rightarrow> string + bool"
  to_Resize :: "int \<Rightarrow> int \<Rightarrow> 's \<Rightarrow> (string + unit) \<times> 's"
  to_GetAttachedClients :: "'s \<Rightarrow> string + (int \<times> int \<times> int)"
  to_Detach :: "string \<Rightarrow> 's \<Rightarrow> (string + unit) \<times> 's"

definition http_error :: "string \<Rightarrow> int \<Rightarrow> response" where
  "http_error msg code = \<lparr>rs_status = code, rs_body = Bytes (msg @ [CHR 0x0A])\<rparr>"

definition ok_json :: "(string \<times> json) list \<Rightarrow> response" where
  "ok_json kvs = \<lparr>rs_status = 200, rs_body = Json (JObj kvs)\<rparr>"

definition ok_text :: "string \<Rightarrow> response" where
  "ok_text t = \<lparr>rs_status = 200, rs_body = Bytes t\<rparr>"

definition ok_empty :: response where
  "ok_empty = \<lparr>rs_status = 200, rs_body = NoBody\<rparr>"

text \<open>A handler that asks, and one that acts; the status of their errors.\<close>

definition answer :: "('a \<Rightarrow> response) \<Rightarrow> string + 'a \<Rightarrow> response" where
  "answer f r = (case r of Inl e \<Rightarrow> http_error e 500 | Inr x \<Rightarrow> f x)"

definition act :: "int \<Rightarrow> ('a \<Rightarrow> response) \<Rightarrow> (string + 'a) \<times> 's \<Rightarrow> response \<times> 's" where
  "act code f r = (case r of (Inl e, s) \<Rightarrow> (http_error e code, s) | (Inr x, s) \<Rightarrow> (f x, s))"

definition gist_json :: "host_status \<Rightarrow> (string \<times> json) list" where
  "gist_json st =
     [(''running'', JBool (st_Running st)),
      (''exit_code'', case st_ExitCode st of None \<Rightarrow> JNull | Some code \<Rightarrow> JNum code),
      (''command'', JArr (map (\<lambda>c. JStr (json_text c)) (st_Command st)))]"

definition query_get :: "(string \<times> string) list \<Rightarrow> string \<Rightarrow> string" where
  "query_get q k = (case map_of q k of None \<Rightarrow> [] | Some v \<Rightarrow> v)"

definition handle_resize :: "'s terminal_ops \<Rightarrow> body \<Rightarrow> 's \<Rightarrow> response \<times> 's" where
  "handle_resize h b s =
     (case json_of b of
        None \<Rightarrow> (http_error ''invalid JSON'' 400, s)
      | Some j \<Rightarrow>
          (case (dec_int32 (jget ''rows'' j), dec_int32 (jget ''cols'' j)) of
             (Some rows, Some cols) \<Rightarrow> act 400 (\<lambda>_. ok_empty) (to_Resize h rows cols s)
           | _ \<Rightarrow> (http_error ''invalid JSON'' 400, s)))"

definition handle_detach :: "'s terminal_ops \<Rightarrow> body \<Rightarrow> 's \<Rightarrow> response \<times> 's" where
  "handle_detach h b s =
     (case json_of b of
        None \<Rightarrow> (http_error ''invalid JSON'' 400, s)
      | Some j \<Rightarrow>
          (case dec_str (jget ''client_id'' j) of
             None \<Rightarrow> (http_error ''invalid JSON'' 400, s)
           | Some clientID \<Rightarrow>
               if clientID = [] then (http_error ''client_id required'' 400, s)
               else act 400 (\<lambda>_. ok_empty) (to_Detach h clientID s)))"

text \<open>The paths that the server knows, with their methods.\<close>

definition session_routes :: "(string \<times> string) list" where
  "session_routes = [(''/gist'', ''GET''), (''/stats'', ''GET''), (''/input'', ''POST''), (''/kill'', ''POST''), (''/restart'', ''POST'')]"

definition terminal_routes :: "(string \<times> string) list" where
  "terminal_routes =
     [(''/tty/screen'', ''GET''), (''/tty/cursor'', ''GET''), (''/tty/title'', ''GET''), (''/tty/mode'', ''GET''),
      (''/tty/resize'', ''POST''), (''/tty/clients'', ''GET''), (''/tty/detach'', ''POST'')]"

definition serve_session :: "(json \<Rightarrow> string) \<Rightarrow> 's session_ops \<Rightarrow> request \<Rightarrow> 's \<Rightarrow> response \<times> 's" where
  "serve_session render so rq s =
     (if rq_path rq = ''/gist'' then (answer (\<lambda>st. ok_json (gist_json st)) (so_Gist so s), s)
      else if rq_path rq = ''/stats'' then (answer ok_text (so_Stats so s), s)
      else if rq_path rq = ''/input''
        then act 400 (\<lambda>n. ok_json [(''bytes'', JNum n)]) (so_SendInput so (body_bytes render (rq_body rq)) s)
      else if rq_path rq = ''/kill'' then act 500 (\<lambda>_. ok_empty) (so_Kill so s)
      else act 500 (\<lambda>_. ok_empty) (so_Restart so s))"

definition registerTTYHandlers :: "'s terminal_ops \<Rightarrow> request \<Rightarrow> 's \<Rightarrow> response \<times> 's" where
  "registerTTYHandlers h rq s =
     (if rq_path rq = ''/tty/screen'' then
        (if query_get (rq_query rq) ''format'' = ''text'' then answer ok_text (to_GetScreenText h s)
         else answer ok_text (to_GetScreenANSI h s), s)
      else if rq_path rq = ''/tty/cursor''
        then (answer (\<lambda>(row, col). ok_json [(''col'', JNum col), (''row'', JNum row)]) (to_GetCursor h s), s)
      else if rq_path rq = ''/tty/title'' then (answer ok_text (to_GetTitle h s), s)
      else if rq_path rq = ''/tty/mode''
        then (answer (\<lambda>alt. ok_json [(''alt_screen'', JBool alt)]) (to_GetMode h s), s)
      else if rq_path rq = ''/tty/resize'' then handle_resize h (rq_body rq) s
      else if rq_path rq = ''/tty/clients''
        then (answer (\<lambda>(n, rows, cols). ok_json [(''cols'', JNum cols), (''count'', JNum n), (''rows'', JNum rows)])
          (to_GetAttachedClients h s), s)
      else handle_detach h (rq_body rq) s)"

text \<open>The patterns of the multiplexer: a GET pattern also takes HEAD.\<close>

definition route :: "(string \<times> string) list \<Rightarrow> request \<Rightarrow> int" where
  "route rs rq =
     (case map_of rs (rq_path rq) of
        None \<Rightarrow> 404
      | Some m \<Rightarrow> if rq_method rq = m \<or> m = ''GET'' \<and> rq_method rq = ''HEAD'' then 200 else 405)"

definition ServeUnix ::
  "(json \<Rightarrow> string) \<Rightarrow> 's session_ops \<Rightarrow> 's terminal_ops option \<Rightarrow> request \<Rightarrow> 's \<Rightarrow> response \<times> 's" where
  "ServeUnix render so ttyHost rq s =
     (let code = route (session_routes @ (if ttyHost = None then [] else terminal_routes)) rq in
      if code = 404 then (http_error ''404 page not found'' 404, s)
      else if code = 405 then (http_error ''Method Not Allowed'' 405, s)
      else case ttyHost of
        None \<Rightarrow> serve_session render so rq s
      | Some h \<Rightarrow> if map_of session_routes (rq_path rq) \<noteq> None then serve_session render so rq s
                  else registerTTYHandlers h rq s)"

section \<open>The client\<close>

text \<open>What becomes of a request: a response, or none when the connection fails.\<close>

type_synonym 's transport = "request \<Rightarrow> 's \<Rightarrow> response option \<times> 's"

datatype client_error = EmptySessionID | EmptySocketPath | NetError | HttpStatus int string | BadResponse

record unix_client =
  uc_sessionID :: string
  uc_socketPath :: string

definition Connect :: "string \<Rightarrow> string \<Rightarrow> client_error + unix_client" where
  "Connect sessionID socketPath =
     (if sessionID = [] then Inl EmptySessionID
      else if socketPath = [] then Inl EmptySocketPath
      else Inr \<lparr>uc_sessionID = sessionID, uc_socketPath = socketPath\<rparr>)"

text \<open>\<open>url.Parse\<close> of the paths used: a path, and a query after a question mark.\<close>

definition parse_query :: "string \<Rightarrow> (string \<times> string) list" where
  "parse_query q =
     (if q = [] then []
      else map (\<lambda>kv. case go_cut kv ''='' of None \<Rightarrow> (kv, []) | Some (k, v) \<Rightarrow> (k, v)) (go_split q ''&''))"

definition newRequest :: "string \<Rightarrow> string \<Rightarrow> body \<Rightarrow> request" where
  "newRequest m path b =
     (case go_cut path ''?'' of
        None \<Rightarrow> \<lparr>rq_method = m, rq_path = path, rq_query = [], rq_body = b\<rparr>
      | Some (p, q) \<Rightarrow> \<lparr>rq_method = m, rq_path = p, rq_query = parse_query q, rq_body = b\<rparr>)"

definition status_error :: "(json \<Rightarrow> string) \<Rightarrow> response \<Rightarrow> client_error" where
  "status_error render rs = HttpStatus (rs_status rs) (trim_space (body_bytes render (rs_body rs)))"

text \<open>A request, and what is made of a response with status 200.\<close>

definition exchange ::
  "(json \<Rightarrow> string) \<Rightarrow> 's transport \<Rightarrow> request \<Rightarrow> (body \<Rightarrow> 'a option) \<Rightarrow> 's \<Rightarrow> (client_error + 'a) \<times> 's" where
  "exchange render net rq out s =
     (case net rq s of
        (None, s') \<Rightarrow> (Inl NetError, s')
      | (Some rs, s') \<Rightarrow>
          (if rs_status rs \<noteq> 200 then Inl (status_error render rs)
           else case out (rs_body rs) of None \<Rightarrow> Inl BadResponse | Some x \<Rightarrow> Inr x, s'))"

definition getText :: "(json \<Rightarrow> string) \<Rightarrow> 's transport \<Rightarrow> string \<Rightarrow> 's \<Rightarrow> (client_error + string) \<times> 's" where
  "getText render net path = exchange render net (newRequest ''GET'' path NoBody) (\<lambda>b. Some (body_bytes render b))"

definition doJSON ::
  "(json \<Rightarrow> string) \<Rightarrow> 's transport \<Rightarrow> string \<Rightarrow> string \<Rightarrow> (string \<times> json) list option \<Rightarrow> (json \<Rightarrow> 'a option) option \<Rightarrow> 'a \<Rightarrow>
   's \<Rightarrow> (client_error + 'a) \<times> 's" where
  "doJSON render net m path in_val out_val none =
     exchange render net (newRequest m path (case in_val of None \<Rightarrow> NoBody | Some kvs \<Rightarrow> Json (JObj kvs)))
       (\<lambda>b. case out_val of None \<Rightarrow> Some none | Some dec \<Rightarrow> Option.bind (json_of b) dec)"

definition dec_status :: "json \<Rightarrow> host_status option" where
  "dec_status j =
     (case (dec_bool (jget ''running'' j),
            (case jget ''exit_code'' j of None \<Rightarrow> Some None | Some JNull \<Rightarrow> Some None | f \<Rightarrow> map_option Some (dec_int f)),
            dec_strs (jget ''command'' j)) of
        (Some r, Some e, Some c) \<Rightarrow> Some \<lparr>st_Running = r, st_ExitCode = e, st_Command = c\<rparr>
      | _ \<Rightarrow> None)"

definition uc_Gist :: "(json \<Rightarrow> string) \<Rightarrow> 's transport \<Rightarrow> 's \<Rightarrow> (client_error + host_status) \<times> 's" where
  "uc_Gist render net = doJSON render net ''GET'' ''/gist'' None (Some dec_status) \<lparr>st_Running = False, st_ExitCode = None, st_Command = []\<rparr>"

definition uc_Stats :: "(json \<Rightarrow> string) \<Rightarrow> 's transport \<Rightarrow> 's \<Rightarrow> (client_error + string) \<times> 's" where
  "uc_Stats render net = getText render net ''/stats''"

definition uc_Kill :: "(json \<Rightarrow> string) \<Rightarrow> 's transport \<Rightarrow> 's \<Rightarrow> (client_error + unit) \<times> 's" where
  "uc_Kill render net = doJSON render net ''POST'' ''/kill'' None None ()"

definition uc_Restart :: "(json \<Rightarrow> string) \<Rightarrow> 's transport \<Rightarrow> 's \<Rightarrow> (client_error + unit) \<times> 's" where
  "uc_Restart render net = doJSON render net ''POST'' ''/restart'' None None ()"

definition uc_SendInput :: "(json \<Rightarrow> string) \<Rightarrow> 's transport \<Rightarrow> string \<Rightarrow> 's \<Rightarrow> (client_error + int) \<times> 's" where
  "uc_SendInput render net input =
     exchange render net (newRequest ''POST'' ''/input'' (Bytes input))
       (\<lambda>b. Option.bind (json_of b) (\<lambda>j. dec_int (jget ''bytes'' j)))"

definition uc_GetScreenText :: "(json \<Rightarrow> string) \<Rightarrow> 's transport \<Rightarrow> 's \<Rightarrow> (client_error + string) \<times> 's" where
  "uc_GetScreenText render net = getText render net ''/tty/screen?format=text''"

definition uc_GetScreenANSI :: "(json \<Rightarrow> string) \<Rightarrow> 's transport \<Rightarrow> 's \<Rightarrow> (client_error + string) \<times> 's" where
  "uc_GetScreenANSI render net = getText render net ''/tty/screen?format=ansi''"

definition dec_pair :: "string \<Rightarrow> string \<Rightarrow> json \<Rightarrow> (int \<times> int) option" where
  "dec_pair a b j =
     (case (dec_int32 (jget a j), dec_int32 (jget b j)) of (Some x, Some y) \<Rightarrow> Some (x, y) | _ \<Rightarrow> None)"

definition uc_GetCursor :: "(json \<Rightarrow> string) \<Rightarrow> 's transport \<Rightarrow> 's \<Rightarrow> (client_error + (int \<times> int)) \<times> 's" where
  "uc_GetCursor render net = doJSON render net ''GET'' ''/tty/cursor'' None (Some (dec_pair ''row'' ''col'')) (0, 0)"

definition uc_GetTitle :: "(json \<Rightarrow> string) \<Rightarrow> 's transport \<Rightarrow> 's \<Rightarrow> (client_error + string) \<times> 's" where
  "uc_GetTitle render net = getText render net ''/tty/title''"

definition uc_GetMode :: "(json \<Rightarrow> string) \<Rightarrow> 's transport \<Rightarrow> 's \<Rightarrow> (client_error + bool) \<times> 's" where
  "uc_GetMode render net =
     doJSON render net ''GET'' ''/tty/mode'' None (Some (\<lambda>j. dec_bool (jget ''alt_screen'' j))) False"

definition uc_Resize :: "(json \<Rightarrow> string) \<Rightarrow> 's transport \<Rightarrow> int \<Rightarrow> int \<Rightarrow> 's \<Rightarrow> (client_error + unit) \<times> 's" where
  "uc_Resize render net rows cols =
     doJSON render net ''POST'' ''/tty/resize'' (Some [(''cols'', JNum cols), (''rows'', JNum rows)]) None ()"

definition uc_Detach :: "(json \<Rightarrow> string) \<Rightarrow> 's transport \<Rightarrow> string \<Rightarrow> 's \<Rightarrow> (client_error + unit) \<times> 's" where
  "uc_Detach render net clientID =
     doJSON render net ''POST'' ''/tty/detach'' (Some [(''client_id'', JStr (json_text clientID))]) None ()"

definition uc_GetAttachedClients ::
  "(json \<Rightarrow> string) \<Rightarrow> 's transport \<Rightarrow> 's \<Rightarrow> (client_error + (int \<times> int \<times> int)) \<times> 's" where
  "uc_GetAttachedClients render net = doJSON render net ''GET'' ''/tty/clients'' None
     (Some (\<lambda>j. case (dec_int32 (jget ''count'' j), dec_pair ''rows'' ''cols'' j) of
        (Some n, Some (r, c)) \<Rightarrow> Some (n, r, c) | _ \<Rightarrow> None)) (0, 0, 0)"

text \<open>\<open>int32(n)\<close>.\<close>

definition int32 :: "int \<Rightarrow> int" where
  "int32 n = sint (word_of_int n :: 32 word)"

text \<open>
  \<open>WaitExited\<close>: what it sends for the answers of the ticks up to now; \<open>None\<close> is the client being
  closed. The channel is closed after the code.
\<close>

datatype exit_wait = StillWaiting | ClosedWithout | ExitedWith int

fun uc_WaitExited :: "(client_error + host_status) option list \<Rightarrow> exit_wait" where
  "uc_WaitExited [] = StillWaiting"
| "uc_WaitExited (None # ts) = ClosedWithout"
| "uc_WaitExited (Some (Inl e) # ts) = ExitedWith (- 1)"
| "uc_WaitExited (Some (Inr st) # ts) =
     (case st_ExitCode st of
        Some code \<Rightarrow> if \<not> st_Running st then ExitedWith (int32 code) else uc_WaitExited ts
      | None \<Rightarrow> uc_WaitExited ts)"

section \<open>The methods through the socket\<close>

definition via_socket :: "(json \<Rightarrow> string) \<Rightarrow> 's session_ops \<Rightarrow> 's terminal_ops option \<Rightarrow> 's transport" where
  "via_socket render so h rq s = (case ServeUnix render so h rq s of (rs, s') \<Rightarrow> (Some rs, s'))"

text \<open>An error of a method arrives as a status with the trimmed text.\<close>

definition remote :: "int \<Rightarrow> string + 'a \<Rightarrow> client_error + 'a" where
  "remote code r = (case r of Inl e \<Rightarrow> Inl (HttpStatus code (trim_space e)) | Inr x \<Rightarrow> Inr x)"

lemma trim_space_newline: "trim_space (e @ [CHR 0x0A]) = trim_space e"
proof -
  have s: "is_space (CHR 0x0A)" by (simp add: is_space_def)
  have d: "dropWhile P (xs @ ys) = (if dropWhile P xs = [] then dropWhile P ys else dropWhile P xs @ ys)"
    for P and xs ys :: "'a list" by (induction xs) auto
  show ?thesis
  proof (cases "dropWhile is_space e = []")
    case True
    then show ?thesis unfolding trim_space_def by (simp only: d if_True) (simp add: s)
  next
    case False
    then show ?thesis unfolding trim_space_def by (simp only: d if_False) (simp add: s)
  qed
qed

definition int64_ok :: "int \<Rightarrow> bool" where "int64_ok n \<longleftrightarrow> - (2 ^ 63) \<le> n \<and> n < 2 ^ 63"
definition int32_ok :: "int \<Rightarrow> bool" where "int32_ok n \<longleftrightarrow> - (2 ^ 31) \<le> n \<and> n < 2 ^ 31"

text \<open>
  What the methods return is of the types they have, and the command is text.
\<close>

definition session_typed :: "'s session_ops \<Rightarrow> 's \<Rightarrow> bool" where
  "session_typed so s \<longleftrightarrow>
     (\<forall>st. so_Gist so s = Inr st \<longrightarrow> list_all utf8_ok (st_Command st) \<and>
        (case st_ExitCode st of None \<Rightarrow> True | Some code \<Rightarrow> int64_ok code)) \<and>
     (\<forall>d n s'. so_SendInput so d s = (Inr n, s') \<longrightarrow> int64_ok n)"

definition terminal_typed :: "'s terminal_ops \<Rightarrow> 's \<Rightarrow> bool" where
  "terminal_typed h s \<longleftrightarrow>
     (\<forall>r c. to_GetCursor h s = Inr (r, c) \<longrightarrow> int32_ok r \<and> int32_ok c) \<and>
     (\<forall>n r c. to_GetAttachedClients h s = Inr (n, r, c) \<longrightarrow> int32_ok n \<and> int32_ok r \<and> int32_ok c)"

lemma newRequest_path:
  "CHR ''?'' \<notin> set path \<Longrightarrow> newRequest m path b = \<lparr>rq_method = m, rq_path = path, rq_query = [], rq_body = b\<rparr>"
  by (simp add: newRequest_def go_cut_single_None[THEN iffD2])

lemma newRequest_screen:
  "CHR ''='' \<notin> set f \<Longrightarrow> CHR ''&'' \<notin> set f \<Longrightarrow> newRequest m (''/tty/screen'' @ ''?format='' @ f) b =
     \<lparr>rq_method = m, rq_path = ''/tty/screen'', rq_query = [(''format'', f)], rq_body = b\<rparr>"
proof -
  assume f: "CHR ''='' \<notin> set f" "CHR ''&'' \<notin> set f"
  have "go_cut (''/tty/screen'' @ CHR ''?'' # ''format='' @ f) ''?'' = Some (''/tty/screen'', ''format='' @ f)"
    by (rule go_cut_single) simp
  moreover have "go_split (''format='' @ f) ''&'' = [''format='' @ f]"
    using f by (intro go_split_single_noop) simp
  moreover have "go_cut (''format'' @ CHR ''='' # f) ''='' = Some (''format'', f)"
    by (rule go_cut_single) simp
  ultimately show ?thesis by (simp add: newRequest_def parse_query_def)
qed

lemma screen_requests:
  "newRequest m ''/tty/screen?format=text'' b =
     \<lparr>rq_method = m, rq_path = ''/tty/screen'', rq_query = [(''format'', ''text'')], rq_body = b\<rparr>"
  "newRequest m ''/tty/screen?format=ansi'' b =
     \<lparr>rq_method = m, rq_path = ''/tty/screen'', rq_query = [(''format'', ''ansi'')], rq_body = b\<rparr>"
  using newRequest_screen[of "''text''" m b] newRequest_screen[of "''ansi''" m b] by simp_all

lemmas client_defs = exchange_def getText_def doJSON_def newRequest_path screen_requests via_socket_def ServeUnix_def route_def
  session_routes_def terminal_routes_def serve_session_def registerTTYHandlers_def answer_def act_def
  ok_json_def ok_text_def ok_empty_def http_error_def remote_def status_error_def body_bytes_def json_of_def jget_def

lemma those_texts: "list_all utf8_ok cs \<Longrightarrow> those (map (\<lambda>c. Some (json_text c)) cs) = Some cs"
  by (induction cs) (simp_all add: json_text_ok)

lemma dec_status_gist:
  assumes "list_all utf8_ok (st_Command st)" and "case st_ExitCode st of None \<Rightarrow> True | Some code \<Rightarrow> int64_ok code"
  shows "dec_status (JObj (gist_json st)) = Some st"
  using assms those_texts[OF assms(1)]
  by (cases st; cases "st_ExitCode st")
    (auto simp: dec_status_def gist_json_def jget_def dec_bool_def dec_int_def dec_strs_def dec_str_def comp_def int64_ok_def)

lemma gist_via_socket:
  assumes "session_typed so s"
  shows "uc_Gist render (via_socket render so h) s = (remote 500 (so_Gist so s), s)"
proof (cases "so_Gist so s")
  case (Inl e)
  then show ?thesis by (cases h) (simp_all add: uc_Gist_def client_defs trim_space_newline)
next
  case (Inr st)
  then have "dec_status (JObj (gist_json st)) = Some st"
    using assms by (intro dec_status_gist) (simp_all add: session_typed_def)
  with Inr show ?thesis by (cases h) (simp_all add: uc_Gist_def client_defs)
qed

lemma stats_via_socket: "uc_Stats render (via_socket render so h) s = (remote 500 (so_Stats so s), s)"
  by (cases h; cases "so_Stats so s") (simp_all add: uc_Stats_def client_defs trim_space_newline)

lemma input_via_socket:
  assumes "session_typed so s"
  shows "uc_SendInput render (via_socket render so h) d s = apfst (remote 400) (so_SendInput so d s)"
proof -
  obtain r s' where r: "so_SendInput so d s = (r, s')" by (rule prod.exhaust)
  then have "dec_int (jget ''bytes'' (JObj [(''bytes'', JNum n)])) = Some n" if "r = Inr n" for n
    using that assms by (auto simp: session_typed_def dec_int_def jget_def int64_ok_def)
  with r show ?thesis
    by (cases h; cases r) (simp_all add: uc_SendInput_def client_defs trim_space_newline)
qed

lemma kill_via_socket: "uc_Kill render (via_socket render so h) s = apfst (remote 500) (so_Kill so s)"
  by (cases h; cases "so_Kill so s"; cases "fst (so_Kill so s)")
    (auto simp: uc_Kill_def client_defs trim_space_newline)

lemma restart_via_socket: "uc_Restart render (via_socket render so h) s = apfst (remote 500) (so_Restart so s)"
  by (cases h; cases "so_Restart so s"; cases "fst (so_Restart so s)")
    (auto simp: uc_Restart_def client_defs trim_space_newline)

lemma texts_via_socket:
  "uc_GetScreenText render (via_socket render so (Some h)) s = (remote 500 (to_GetScreenText h s), s)"
  "uc_GetScreenANSI render (via_socket render so (Some h)) s = (remote 500 (to_GetScreenANSI h s), s)"
  "uc_GetTitle render (via_socket render so (Some h)) s = (remote 500 (to_GetTitle h s), s)"
  by (cases "to_GetScreenText h s"; cases "to_GetScreenANSI h s"; cases "to_GetTitle h s";
      simp add: uc_GetScreenText_def uc_GetScreenANSI_def uc_GetTitle_def client_defs query_get_def trim_space_newline)+

lemma mode_via_socket: "uc_GetMode render (via_socket render so (Some h)) s = (remote 500 (to_GetMode h s), s)"
  by (cases "to_GetMode h s") (simp_all add: uc_GetMode_def client_defs dec_bool_def trim_space_newline)

lemma cursor_via_socket:
  assumes "terminal_typed h s"
  shows "uc_GetCursor render (via_socket render so (Some h)) s = (remote 500 (to_GetCursor h s), s)"
  using assms by (cases "to_GetCursor h s")
    (auto simp: uc_GetCursor_def client_defs dec_pair_def dec_int32_def terminal_typed_def int32_ok_def trim_space_newline)

lemma clients_via_socket:
  assumes "terminal_typed h s"
  shows "uc_GetAttachedClients render (via_socket render so (Some h)) s = (remote 500 (to_GetAttachedClients h s), s)"
  using assms by (cases "to_GetAttachedClients h s")
    (auto simp: uc_GetAttachedClients_def client_defs dec_pair_def dec_int32_def terminal_typed_def int32_ok_def trim_space_newline)

lemma resize_via_socket:
  assumes "int32_ok rows" and "int32_ok cols"
  shows "uc_Resize render (via_socket render so (Some h)) rows cols s = apfst (remote 400) (to_Resize h rows cols s)"
  using assms by (cases "to_Resize h rows cols s"; cases "fst (to_Resize h rows cols s)")
    (auto simp: uc_Resize_def client_defs handle_resize_def dec_int32_def int32_ok_def trim_space_newline)

lemma detach_via_socket:
  assumes "utf8_ok i" and "i \<noteq> []"
  shows "uc_Detach render (via_socket render so (Some h)) i s = apfst (remote 400) (to_Detach h i s)"
  using assms by (cases "to_Detach h i s"; cases "fst (to_Detach h i s)")
    (auto simp: uc_Detach_def client_defs handle_detach_def dec_str_def json_text_ok trim_space_newline)

text \<open>
  C36. The control socket is transparent: every method called through client, socket and server has
  the effect and the result of the method of the session or its terminal, its error becoming a
  status with the text.
\<close>

theorem control_socket_transparent:
  fixes render :: "json \<Rightarrow> string"
  assumes "session_typed so s" and "terminal_typed h s" and "int32_ok rows" and "int32_ok cols"
    and "utf8_ok i" and "i \<noteq> []"
  defines "net \<equiv> via_socket render so (Some h)"
  shows "uc_Gist render net s = (remote 500 (so_Gist so s), s) \<and>
    uc_Stats render net s = (remote 500 (so_Stats so s), s) \<and>
    uc_SendInput render net d s = apfst (remote 400) (so_SendInput so d s) \<and>
    uc_Kill render net s = apfst (remote 500) (so_Kill so s) \<and>
    uc_Restart render net s = apfst (remote 500) (so_Restart so s) \<and>
    uc_GetScreenText render net s = (remote 500 (to_GetScreenText h s), s) \<and>
    uc_GetScreenANSI render net s = (remote 500 (to_GetScreenANSI h s), s) \<and>
    uc_GetTitle render net s = (remote 500 (to_GetTitle h s), s) \<and>
    uc_GetMode render net s = (remote 500 (to_GetMode h s), s) \<and>
    uc_GetCursor render net s = (remote 500 (to_GetCursor h s), s) \<and>
    uc_GetAttachedClients render net s = (remote 500 (to_GetAttachedClients h s), s) \<and>
    uc_Resize render net rows cols s = apfst (remote 400) (to_Resize h rows cols s) \<and>
    uc_Detach render net i s = apfst (remote 400) (to_Detach h i s)"
  unfolding net_def
  using gist_via_socket[OF assms(1)] stats_via_socket input_via_socket[OF assms(1)] kill_via_socket
    restart_via_socket texts_via_socket mode_via_socket cursor_via_socket[OF assms(2)]
    clients_via_socket[OF assms(2)] resize_via_socket[OF assms(3,4)] detach_via_socket[OF assms(5,6)]
  by (intro conjI)

section \<open>An interactive session behind the socket\<close>

definition control_message :: "control_error \<Rightarrow> string" where
  "control_message e =
     (case e of
        NoProcess \<Rightarrow> ''no process running''
      | NoTaskRunning \<Rightarrow> ''no task running''
      | RestartInProgress \<Rightarrow> ''restart already in progress'')"

definition with_message :: "control_error + 'a \<Rightarrow> string + 'a" where
  "with_message r = (case r of Inl e \<Rightarrow> Inl (control_message e) | Inr x \<Rightarrow> Inr x)"

text \<open>
  The methods of the terminal's host as the server calls them. \<open>w\<close> and \<open>signal\<close> are the
  pseudo-terminal and the process, \<open>stats\<close> the statistics and \<open>screen\<close> the plain text of the
  screen; setting the size of the pseudo-terminal succeeds.
\<close>

definition tty_session ::
  "(string \<Rightarrow> control_error + nat) \<Rightarrow> (unit \<Rightarrow> control_error + unit) \<Rightarrow> string \<Rightarrow> tty_config \<Rightarrow> 'v tty session_ops" where
  "tty_session w signal stats c =
     \<lparr>so_Gist = (\<lambda>t. Inr (tty_Gist c t)),
      so_Stats = (\<lambda>t. Inr stats),
      so_SendInput = (\<lambda>d t. (map_sum id int (with_message (tty_SendInput w d t)), t)),
      so_Kill = (\<lambda>t. (with_message (tty_Kill signal t), t)),
      so_Restart = (\<lambda>t. apfst with_message (tty_Restart t))\<rparr>"

definition tty_terminal :: "'v emulator \<Rightarrow> ('v \<Rightarrow> string) \<Rightarrow> 'v tty terminal_ops" where
  "tty_terminal em screen =
     \<lparr>to_GetScreenText = (\<lambda>t. Inr (screen (t_vt t))),
      to_GetScreenANSI = (\<lambda>t. Inr (em_ansi em (t_vt t))),
      to_GetCursor = (\<lambda>t. Inr (map_prod int32 int32 (em_cursor em (t_vt t)))),
      to_GetTitle = (\<lambda>t. Inr (GetTitle t)),
      to_GetMode = (\<lambda>t. Inr (GetMode t)),
      to_Resize = (\<lambda>rows cols t. (Inr (), fst (Resize em rows cols t))),
      to_GetAttachedClients = (\<lambda>t. Inr (case GetAttachedClients t of (n, r, c) \<Rightarrow> (int32 (int n), int32 r, int32 c))),
      to_Detach = (\<lambda>i t. case Detach i t of (found, t') \<Rightarrow>
        (if found then Inr () else Inl (''client '' @ i @ '' not attached''), t'))\<rparr>"

definition fixed_emulator :: "string emulator" where
  "fixed_emulator = \<lparr>em_write = (\<lambda>b v. (v @ b, [])), em_set_size = (\<lambda>r c v. (v, [])), em_ansi = (\<lambda>v. v),
     em_cursor = (\<lambda>v. (2, 7))\<rparr>"

definition sample_config :: tty_config where
  "sample_config = \<lparr>tc_sessionID = ''ABC123'', tc_command = [''sh''], tc_tags = Map.empty, tc_started = Map.empty\<rparr>"

definition sample_tty :: "string tty" where
  "sample_tty = \<lparr>t_rows = 24, t_cols = 80, t_vt = ''$ '', t_proc = True, t_pty = True, t_ptySize = (24, 80),
     t_running = True, t_exitCode = None, t_title = ''sh'', t_alternateScreen = False, t_scrollback = [],
     t_clients = [], t_nextClientID = 0, t_restart = True, t_eventErr = False\<rparr>"

lemma int32_in: "int32_ok (int32 n)"
proof -
  have "- (2 ^ 31) \<le> sint x" "sint x < 2 ^ 31" for x :: "32 word"
    using sint_ge[of x] sint_lt[of x] by simp_all
  then show ?thesis by (simp add: int32_ok_def int32_def)
qed

lemma int32_same: "int32_ok n \<Longrightarrow> int32 n = n"
  unfolding int32_ok_def int32_def by (subst sint_sbintrunc') (auto intro!: signed_take_bit_int_eq_self)

lemma sample_typed:
  "session_typed (tty_session (\<lambda>d. Inr 5) (\<lambda>_. Inr ()) ''{}'' sample_config) sample_tty"
  "terminal_typed (tty_terminal fixed_emulator (\<lambda>v. v)) sample_tty"
  by (auto simp: session_typed_def terminal_typed_def tty_session_def tty_terminal_def sample_config_def sample_tty_def
      tty_Gist_def with_message_def tty_SendInput_def int64_ok_def ascii_ok fixed_emulator_def int32_in
      GetAttachedClients_def)

theorem control_socket_transparent_witness:
  "uc_Restart (\<lambda>_. []) (via_socket (\<lambda>_. []) (tty_session (\<lambda>d. Inr 5) (\<lambda>_. Inr ()) ''{}'' sample_config)
      (Some (tty_terminal fixed_emulator (\<lambda>v. v)))) sample_tty =
    (Inl (HttpStatus 500 (trim_space ''restart already in progress'')), sample_tty)"
proof -
  have "int32_ok 24" "int32_ok 80" by (simp_all add: int32_ok_def)
  moreover have "utf8_ok ''c1''" by (simp add: ascii_ok)
  ultimately show ?thesis
    using control_socket_transparent[OF sample_typed, of 24 80 "''c1''" "\<lambda>_. []" "[]"]
    by (simp add: tty_session_def tty_Restart_def sample_tty_def with_message_def remote_def control_message_def)
qed

section \<open>Attaching\<close>

definition CRLF :: string where "CRLF = [CHR 0x0D, CHR 0x0A]"

text \<open>The lines up to the first empty one, and what follows it (\<open>net/textproto\<close>).\<close>

function read_head :: "string \<Rightarrow> (string list \<times> string) option" where
  "read_head s =
     (case go_cut s [CHR 0x0A] of
        None \<Rightarrow> None
      | Some (l, r) \<Rightarrow>
          if drop_cr l = [] then Some ([], r) else map_option (apfst ((#) (drop_cr l))) (read_head r))"
  by auto
termination
  by (relation "measure length") (auto dest: go_cut_recompose)

declare read_head.simps [simp del]

text \<open>What \<open>Attach\<close> of the client writes, and how the server reads it.\<close>

definition attach_request :: "int \<Rightarrow> int \<Rightarrow> string" where
  "attach_request rows cols =
     ''GET /tty/attach?cols='' @ itoa cols @ ''&rows='' @ itoa rows @ '' HTTP/1.1'' @ CRLF @
     ''Host: swash'' @ CRLF @ ''Connection: keep-alive'' @ CRLF @ CRLF"

definition read_request :: "string \<Rightarrow> (request \<times> string) option" where
  "read_request s =
     (case read_head s of
        Some (line # _, rest) \<Rightarrow>
          (case go_split line '' '' of
             [m, target, proto] \<Rightarrow> Some (newRequest m target NoBody, rest)
           | _ \<Rightarrow> None)
      | _ \<Rightarrow> None)"

definition attach_sizes :: "request \<Rightarrow> int \<times> int" where
  "attach_sizes rq =
     (int32 (parse_int_value (query_get (rq_query rq) ''rows'')), int32 (parse_int_value (query_get (rq_query rq) ''cols'')))"

text \<open>The response after which the connection is a stream.\<close>

definition handshake :: "attached \<Rightarrow> string" where
  "handshake a =
     ''HTTP/1.1 200 OK'' @ CRLF @
     ''Content-Length: '' @ itoa (int (length (as_screenANSI a))) @ CRLF @
     ''Content-Type: text/plain'' @ CRLF @
     ''X-Swash-Rows: '' @ itoa (int32 (as_rows a)) @ CRLF @
     ''X-Swash-Cols: '' @ itoa (int32 (as_cols a)) @ CRLF @
     ''X-Swash-Client-Id: '' @ as_clientID a @ CRLF @
     CRLF @ as_screenANSI a"

text \<open>
  The handler of an attach; \<open>attach\<close> is \<open>AttachIO\<close>. A failure is an ordinary response.
\<close>

definition serve_attach ::
  "(int \<Rightarrow> int \<Rightarrow> 's \<Rightarrow> ((string + attached) \<times> 's) option) \<Rightarrow> request \<Rightarrow> 's \<Rightarrow> ((response + string) \<times> 's) option" where
  "serve_attach attach rq s =
     (case attach_sizes rq of (rows, cols) \<Rightarrow>
        (case attach rows cols s of
           None \<Rightarrow> None
         | Some (Inl e, s') \<Rightarrow> Some (Inl (http_error e 400), s')
         | Some (Inr a, s') \<Rightarrow> Some (Inr (handshake a), s')))"

text \<open>\<open>http.ReadResponse\<close>: status, headers, the body by its length, and what is left to be read.\<close>

definition header_of :: "string \<Rightarrow> string \<times> string" where
  "header_of line = (case go_cut line '':'' of None \<Rightarrow> (line, []) | Some (k, v) \<Rightarrow> (k, trim_space v))"

record raw_response =
  rr_status :: int
  rr_headers :: "(string \<times> string) list"
  rr_body :: string
  rr_rest :: string

definition read_response :: "string \<Rightarrow> raw_response option" where
  "read_response s =
     (case read_head s of
        Some (line # hs, rest) \<Rightarrow>
          (let n = nat (parse_int_value (query_get (map header_of hs) ''Content-Length'')) in
           if length rest < n then None
           else Some \<lparr>rr_status = parse_int_value (go_split line '' '' ! 1), rr_headers = map header_of hs,
                      rr_body = take n rest, rr_rest = drop n rest\<rparr>)
      | _ \<Rightarrow> None)"

definition parse_int32 :: "string \<Rightarrow> int" where
  "parse_int32 s = max (- (2 ^ 31)) (min (2 ^ 31 - 1) (parse_int_value s))"

text \<open>
  \<open>Attach\<close> of the client on what it reads: the attachment, and the stream of output that
  follows.
\<close>

definition uc_Attach :: "string \<Rightarrow> (client_error + (attached \<times> string))" where
  "uc_Attach s =
     (case read_response s of
        None \<Rightarrow> Inl BadResponse
      | Some r \<Rightarrow>
          if rr_status r \<noteq> 200 then Inl (HttpStatus (rr_status r) (trim_space (rr_body r)))
          else Inr (\<lparr>as_rows = parse_int32 (query_get (rr_headers r) ''X-Swash-Rows''),
                     as_cols = parse_int32 (query_get (rr_headers r) ''X-Swash-Cols''),
                     as_screenANSI = rr_body r,
                     as_clientID = query_get (rr_headers r) ''X-Swash-Client-Id''\<rparr>, rr_rest r))"

subsection \<open>Heads\<close>

definition plain_line :: "string \<Rightarrow> bool" where
  "plain_line l \<longleftrightarrow> l \<noteq> [] \<and> CHR 0x0A \<notin> set l"

lemma read_head_line:
  "plain_line l \<Longrightarrow> read_head (l @ CRLF @ r) = map_option (apfst ((#) l)) (read_head r)"
proof -
  assume l: "plain_line l"
  have "go_cut ((l @ [CHR 0x0D]) @ CHR 0x0A # r) [CHR 0x0A] = Some (l @ [CHR 0x0D], r)"
    using l by (intro go_cut_single) (simp add: plain_line_def)
  then show ?thesis using l by (subst read_head.simps) (simp add: CRLF_def drop_cr_def plain_line_def)
qed

lemma read_head_end: "read_head (CRLF @ r) = Some ([], r)"
proof -
  have "go_cut ([CHR 0x0D] @ CHR 0x0A # r) [CHR 0x0A] = Some ([CHR 0x0D], r)"
    by (intro go_cut_single) simp
  then show ?thesis by (subst read_head.simps) (simp add: CRLF_def drop_cr_def)
qed

lemma itoa_chars: "c \<in> set (itoa i) \<Longrightarrow> c = CHR ''-'' \<or> (\<exists>d < 10. c = digit_char d)"
  using itoa_base_digits by (auto simp: itoa_def format_uint_def split: if_splits)

lemma itoa_notin:
  "c \<noteq> CHR ''-'' \<Longrightarrow> of_char c < (48::nat) \<or> 57 < (of_char c :: nat) \<Longrightarrow> c \<notin> set (itoa i)"
  using format_uint_notin[of c] by (auto simp: itoa_def)

text \<open>A text that \<open>strings.TrimSpace\<close> leaves alone.\<close>

definition trimmed :: "string \<Rightarrow> bool" where
  "trimmed s \<longleftrightarrow> list_all (\<lambda>c. \<not> is_space c) s"

lemma trim_space_trimmed:
  assumes "trimmed s"
  shows "trim_space (CHR '' '' # s) = s"
proof -
  have sp: "is_space (CHR '' '')" by (simp add: is_space_def)
  have d: "dropWhile P xs = xs" if "\<forall>x \<in> set xs. \<not> P x" for P and xs :: string
    using that by (cases xs) simp_all
  have "dropWhile is_space s = s" "dropWhile is_space (rev s) = rev s"
    using assms by (simp_all add: d trimmed_def list_all_iff)
  with sp show ?thesis by (simp add: trim_space_def)
qed

lemma trimmed_itoa: "trimmed (itoa i)"
  unfolding trimmed_def list_all_iff is_space_def by (auto simp: itoa_notin)

lemma header_of_text:
  "CHR '':'' \<notin> set k \<Longrightarrow> trimmed v \<Longrightarrow> header_of (k @ '': '' @ v) = (k, v)"
  using go_cut_single[of "CHR '':''" k "CHR '' '' # v"] by (simp add: header_of_def trim_space_trimmed)

lemma plain_lines:
  "plain_line (''GET /tty/attach?cols='' @ itoa cols @ ''&rows='' @ itoa rows @ '' HTTP/1.1'')"
  "plain_line ''Host: swash''" "plain_line ''Connection: keep-alive''"
  "plain_line ''HTTP/1.1 200 OK''" "plain_line ''Content-Type: text/plain''"
  "plain_line (''Content-Length: '' @ itoa n)"
  "plain_line (''X-Swash-Rows: '' @ itoa n)" "plain_line (''X-Swash-Cols: '' @ itoa n)"
  "CHR 0x0A \<notin> set i \<Longrightarrow> plain_line (''X-Swash-Client-Id: '' @ i)"
  by (simp_all add: plain_line_def itoa_notin)

lemma request_sizes:
  assumes "int32_ok rows" and "int32_ok cols"
  shows "\<exists>rq. read_request (attach_request rows cols) = Some (rq, []) \<and> rq_method rq = ''GET'' \<and>
    rq_path rq = ''/tty/attach'' \<and> attach_sizes rq = (rows, cols)"
proof -
  let ?q = "''cols='' @ itoa cols @ ''&rows='' @ itoa rows"
  let ?line = "''GET /tty/attach?cols='' @ itoa cols @ ''&rows='' @ itoa rows @ '' HTTP/1.1''"
  have h: "read_head (attach_request rows cols) = Some ([?line, ''Host: swash'', ''Connection: keep-alive''], [])"
    using read_head_line[OF plain_lines(1)[of cols rows], of "''Host: swash'' @ CRLF @ ''Connection: keep-alive'' @ CRLF @ CRLF"]
      read_head_line[OF plain_lines(2), of "''Connection: keep-alive'' @ CRLF @ CRLF"]
      read_head_line[OF plain_lines(3), of CRLF] read_head_end[of "[]"]
    by (simp add: attach_request_def)
  have n: "CHR '' '' \<notin> set (itoa i)" "CHR ''&'' \<notin> set (itoa i)" "CHR ''='' \<notin> set (itoa i)" for i
    by (simp_all add: itoa_notin)
  have l: "go_split ?line '' '' = [''GET'', ''/tty/attach?'' @ ?q, ''HTTP/1.1'']"
    using go_split_single_Cons[of "CHR '' ''" "''GET''" "''/tty/attach?'' @ ?q @ '' HTTP/1.1''"]
      go_split_single_Cons[of "CHR '' ''" "''/tty/attach?'' @ ?q" "''HTTP/1.1''"]
      go_split_single_noop[of "CHR '' ''" "''HTTP/1.1''"] by (simp add: n)
  have "go_cut (''/tty/attach'' @ CHR ''?'' # ?q) ''?'' = Some (''/tty/attach'', ?q)" by (rule go_cut_single) simp
  moreover have "go_split ?q ''&'' = [''cols='' @ itoa cols, ''rows='' @ itoa rows]"
    using go_split_single_Cons[of "CHR ''&''" "''cols='' @ itoa cols" "''rows='' @ itoa rows"]
      go_split_single_noop[of "CHR ''&''" "''rows='' @ itoa rows"] by (simp add: n)
  moreover have "go_cut (''cols='' @ v) ''='' = Some (''cols'', v)" "go_cut (''rows='' @ v) ''='' = Some (''rows'', v)" for v
    using go_cut_single[of "CHR ''=''" "''cols''" v] go_cut_single[of "CHR ''=''" "''rows''" v] by simp_all
  ultimately have "newRequest ''GET'' (''/tty/attach?'' @ ?q) NoBody =
      \<lparr>rq_method = ''GET'', rq_path = ''/tty/attach'', rq_query = [(''cols'', itoa cols), (''rows'', itoa rows)], rq_body = NoBody\<rparr>"
    by (simp add: newRequest_def parse_query_def)
  moreover have "parse_int_value (itoa rows) = rows" "parse_int_value (itoa cols) = cols"
    using assms by (simp_all add: parse_int_value_itoa int32_ok_def)
  ultimately show ?thesis
    using assms l by (simp add: read_request_def h attach_sizes_def query_get_def int32_same)
qed

lemma read_handshake:
  assumes "trimmed (as_clientID a)" and "length (as_screenANSI a) < 2 ^ 63"
  shows "read_response (handshake a @ later) = Some \<lparr>rr_status = 200,
    rr_headers = [(''Content-Length'', itoa (int (length (as_screenANSI a)))), (''Content-Type'', ''text/plain''),
      (''X-Swash-Rows'', itoa (int32 (as_rows a))), (''X-Swash-Cols'', itoa (int32 (as_cols a))),
      (''X-Swash-Client-Id'', as_clientID a)],
    rr_body = as_screenANSI a, rr_rest = later\<rparr>"
proof -
  let ?n = "int (length (as_screenANSI a))"
  let ?hs = "[''Content-Length: '' @ itoa ?n, ''Content-Type: text/plain'',
      ''X-Swash-Rows: '' @ itoa (int32 (as_rows a)), ''X-Swash-Cols: '' @ itoa (int32 (as_cols a)),
      ''X-Swash-Client-Id: '' @ as_clientID a]"
  have i: "CHR 0x0A \<notin> set (as_clientID a)"
    using assms(1) by (auto simp: trimmed_def list_all_iff is_space_def)
  let ?t6 = "CRLF @ as_screenANSI a @ later"
  let ?t5 = "''X-Swash-Client-Id: '' @ as_clientID a @ CRLF @ ?t6"
  let ?t4 = "''X-Swash-Cols: '' @ itoa (int32 (as_cols a)) @ CRLF @ ?t5"
  let ?t3 = "''X-Swash-Rows: '' @ itoa (int32 (as_rows a)) @ CRLF @ ?t4"
  let ?t2 = "''Content-Type: text/plain'' @ CRLF @ ?t3"
  have "read_head (handshake a @ later) = Some (''HTTP/1.1 200 OK'' # ?hs, as_screenANSI a @ later)"
    using read_head_line[OF plain_lines(4), of "''Content-Length: '' @ itoa ?n @ CRLF @ ?t2"]
      read_head_line[OF plain_lines(6)[of ?n], of ?t2] read_head_line[OF plain_lines(5), of ?t3]
      read_head_line[OF plain_lines(7)[of "int32 (as_rows a)"], of ?t4]
      read_head_line[OF plain_lines(8)[of "int32 (as_cols a)"], of ?t5]
      read_head_line[OF plain_lines(9)[OF i], of ?t6] read_head_end[of "as_screenANSI a @ later"]
    by (simp add: handshake_def)
  moreover have "map header_of ?hs = [(''Content-Length'', itoa ?n), (''Content-Type'', ''text/plain''),
      (''X-Swash-Rows'', itoa (int32 (as_rows a))), (''X-Swash-Cols'', itoa (int32 (as_cols a))),
      (''X-Swash-Client-Id'', as_clientID a)]"
    using header_of_text[of "''Content-Length''" "itoa ?n"] header_of_text[of "''Content-Type''" "''text/plain''"]
      header_of_text[of "''X-Swash-Rows''" "itoa (int32 (as_rows a))"]
      header_of_text[of "''X-Swash-Cols''" "itoa (int32 (as_cols a))"]
      header_of_text[of "''X-Swash-Client-Id''" "as_clientID a"] assms(1)
    by (simp add: trimmed_itoa) (simp add: trimmed_def is_space_def)
  moreover have "parse_int_value (itoa ?n) = ?n" using assms(2) by (simp add: parse_int_value_itoa)
  moreover have "go_split ''HTTP/1.1 200 OK'' '' '' = [''HTTP/1.1'', ''200'', ''OK'']"
    using go_split_single_Cons[of "CHR '' ''" "''HTTP/1.1''" "''200 OK''"]
      go_split_single_Cons[of "CHR '' ''" "''200''" "''OK''"] go_split_single_noop[of "CHR '' ''" "''OK''"] by simp
  moreover have "parse_int_value ''200'' = 200"
    by (simp add: parse_int_value_def parse_uint_value_def digit_val_def)
  ultimately show ?thesis by (simp add: read_response_def query_get_def)
qed

definition attach_message :: "attach_error \<Rightarrow> string" where
  "attach_message e =
     (case e of
        TooSmall needCols needRows haveCols haveRows \<Rightarrow>
          ''terminal too small (need '' @ itoa needCols @ ''x'' @ itoa needRows @ '', have '' @ itoa haveCols @ ''x'' @
          itoa haveRows @ '') - resize your terminal or wait for other clients to disconnect''
      | PipeFailed \<Rightarrow> ''creating pipe'')"

definition AttachIO :: "'v emulator \<Rightarrow> bool \<Rightarrow> int \<Rightarrow> int \<Rightarrow> 'v tty \<Rightarrow> ((string + attached) \<times> 'v tty) option" where
  "AttachIO em pipes rows cols t = map_option (apfst (map_sum attach_message id)) (attachFilesLocked em pipes rows cols t)"

lemma attached_ok:
  assumes "attachFilesLocked em pipes rows cols t = Some (Inr a, t')"
    and "int32_ok rows" and "int32_ok cols" and "int32_ok (t_rows t)" and "int32_ok (t_cols t)"
  shows "int32_ok (as_rows a) \<and> int32_ok (as_cols a) \<and> trimmed (as_clientID a)"
proof -
  have "trimmed (CHR ''c'' # itoa n)" for n
    using trimmed_itoa[of n] by (simp add: trimmed_def is_space_def)
  moreover have "int32_ok 24" "int32_ok 80" by (simp_all add: int32_ok_def)
  ultimately show ?thesis using assms
    by (auto simp: attachFilesLocked_def attach_size_def add_client_def default_size_def Let_def
        split: prod.splits sum.splits if_splits)
qed

lemma parse_int32_itoa: "int32_ok n \<Longrightarrow> parse_int32 (itoa n) = n"
  by (simp add: parse_int32_def parse_int_value_itoa int32_ok_def)

text \<open>
  C37. Attaching over the socket: the sizes the client asks for reach the host, and when the host
  attaches it, the client reads back the size, the name and the screen, byte for byte, and every
  byte the host sends after the screen is the start of the stream it is given.
\<close>

theorem attach_over_socket:
  assumes "int32_ok rows" and "int32_ok cols" and "int32_ok (t_rows t)" and "int32_ok (t_cols t)"
    and "attachFilesLocked em pipes rows cols t = Some (Inr a, t')" and "length (as_screenANSI a) < 2 ^ 63"
  shows "\<exists>rq. read_request (attach_request rows cols) = Some (rq, []) \<and>
    serve_attach (AttachIO em pipes) rq t = Some (Inr (handshake a), t') \<and>
    uc_Attach (handshake a @ later) = Inr (a, later)"
proof -
  obtain rq where rq: "read_request (attach_request rows cols) = Some (rq, [])" "attach_sizes rq = (rows, cols)"
    using request_sizes[OF assms(1,2)] by blast
  have ok: "int32_ok (as_rows a)" "int32_ok (as_cols a)" "trimmed (as_clientID a)"
    using attached_ok[OF assms(5,1-4)] by simp_all
  have "serve_attach (AttachIO em pipes) rq t = Some (Inr (handshake a), t')"
    by (simp add: serve_attach_def rq(2) AttachIO_def assms(5))
  moreover have "uc_Attach (handshake a @ later) = Inr (a, later)"
    unfolding uc_Attach_def read_handshake[OF ok(3) assms(6)]
    by (simp add: query_get_def parse_int32_itoa int32_same ok)
  ultimately show ?thesis using rq(1) by blast
qed

theorem attach_over_socket_witness:
  "\<exists>rq a t'. read_request (attach_request 50 120) = Some (rq, []) \<and>
    serve_attach (AttachIO fixed_emulator True) rq sample_tty = Some (Inr (handshake a), t') \<and>
    uc_Attach (handshake a @ ''output'') = Inr (a, ''output'') \<and> as_rows a = 50 \<and> as_clientID a = ''c'' @ itoa 1"
proof -
  let ?a = "\<lparr>as_rows = 50, as_cols = 120, as_screenANSI = screen_snapshot fixed_emulator ''$ '', as_clientID = ''c'' @ itoa 1\<rparr>"
  obtain t' where t: "attachFilesLocked fixed_emulator True 50 120 sample_tty = Some (Inr ?a, t')"
    by (simp add: attachFilesLocked_def attach_size_def add_client_def default_size_def sample_tty_def
        fixed_emulator_def screen_snapshot_def Let_def)
  have o: "int32_ok 50" "int32_ok 120" "int32_ok (t_rows sample_tty)" "int32_ok (t_cols sample_tty)"
    by (simp_all add: int32_ok_def sample_tty_def)
  have "length (as_screenANSI ?a) < 2 ^ 63"
    by (simp add: screen_snapshot_def fixed_emulator_def itoa_def format_uint_def itoa_base.simps[of 10 3]
        itoa_base.simps[of 10 8])
  from attach_over_socket[OF o t this, of "''output''"] show ?thesis by force
qed

end
