(* ===== verification/GoPaths.thy ===== *)
theory GoPaths
  imports GoStrings
begin

text \<open>
  \<open>path/filepath\<close> on Unix, as far as the sources use it: \<open>Clean\<close> and \<open>Join\<close>.
\<close>

text \<open>The components kept so far, last one first.\<close>

fun clean_parts :: "bool \<Rightarrow> string list \<Rightarrow> string list \<Rightarrow> string list" where
  "clean_parts rooted kept [] = rev kept"
| "clean_parts rooted kept (p # ps) =
     (if p = [] \<or> p = ''.'' then clean_parts rooted kept ps
      else if p = ''..'' then
        (case kept of
           [] \<Rightarrow> clean_parts rooted (if rooted then [] else [p]) ps
         | k # ks \<Rightarrow> if k = ''..'' then clean_parts rooted (p # kept) ps else clean_parts rooted ks ps)
      else clean_parts rooted (p # kept) ps)"

definition path_clean :: "string \<Rightarrow> string" where
  "path_clean p =
     (let rooted = has_prefix p ''/''; q = go_join (clean_parts rooted [] (go_split p ''/'')) ''/'' in
      if rooted then CHR ''/'' # q else if q = [] then ''.'' else q)"

definition path_join :: "string list \<Rightarrow> string" where
  "path_join ps = (case dropWhile (\<lambda>p. p = []) ps of [] \<Rightarrow> [] | qs \<Rightarrow> path_clean (go_join qs ''/''))"

text \<open>The size of a list of components with a separator after each.\<close>

definition parts_size :: "string list \<Rightarrow> nat" where
  "parts_size ps = sum_list (map (\<lambda>p. length p + 1) ps)"

lemma parts_size_simps [simp]:
  "parts_size [] = 0" "parts_size (p # ps) = length p + 1 + parts_size ps"
  "parts_size (ps @ qs) = parts_size ps + parts_size qs" "parts_size (rev ps) = parts_size ps"
  by (simp_all add: parts_size_def rev_map[symmetric] sum_list_rev)

lemma length_go_join: "ps \<noteq> [] \<Longrightarrow> length (go_join ps [c]) + 1 = parts_size ps"
  by (induction ps rule: induct_list012) simp_all

lemma clean_parts_size: "parts_size (clean_parts rooted kept ps) \<le> parts_size kept + parts_size ps"
proof (induction rooted kept ps rule: clean_parts.induct)
  case (2 rooted kept p ps)
  then show ?case by (auto split: list.splits if_splits)
qed simp

text \<open>Cleaning never makes a path longer, but for the empty one.\<close>

lemma length_path_clean:
  assumes "p \<noteq> []"
  shows "length (path_clean p) \<le> length p"
proof -
  let ?r = "has_prefix p ''/''"
  let ?q = "go_join (clean_parts ?r [] (go_split p ''/'')) ''/''"
  have s: "parts_size (go_split p ''/'') = length p + 1"
    using length_go_join[of "go_split p ''/''" "CHR ''/''"] by (simp add: go_join_split)
  have q: "length ?q \<le> parts_size (clean_parts ?r [] (go_split p ''/'')) - 1"
    using length_go_join[of "clean_parts ?r [] (go_split p ''/'')" "CHR ''/''"]
    by (cases "clean_parts ?r [] (go_split p ''/'') = []") simp_all
  show ?thesis
  proof (cases ?r)
    case False
    then have "length ?q \<le> length p" using q s clean_parts_size[of ?r "[]" "go_split p ''/''"] by simp
    then show ?thesis using False assms by (cases p) (simp_all add: path_clean_def Let_def)
  next
    case True
    then obtain t where t: "p = CHR ''/'' # t" by (auto elim: has_prefixE)
    have "go_split p ''/'' = [] # go_split t ''/''"
      using go_split_single_Cons[of "CHR ''/''" "[]" t] t by simp
    then have "clean_parts ?r [] (go_split p ''/'') = clean_parts ?r [] (go_split t ''/'')"
      "parts_size (go_split t ''/'') = length p" using s by simp_all
    then have "length ?q \<le> length p - 1" using q clean_parts_size[of ?r "[]" "go_split t ''/''"] by simp
    then show ?thesis using True assms by (cases p) (simp_all add: path_clean_def Let_def)
  qed
qed

text \<open>A name that is one component, and a path that \<open>Clean\<close> leaves alone.\<close>

definition plain_name :: "string \<Rightarrow> bool" where
  "plain_name n \<longleftrightarrow> n \<noteq> [] \<and> n \<noteq> ''.'' \<and> n \<noteq> ''..'' \<and> CHR ''/'' \<notin> set n"

definition clean_path :: "string \<Rightarrow> bool" where
  "clean_path p \<longleftrightarrow> (\<exists>ns. ns \<noteq> [] \<and> list_all plain_name ns \<and> p = CHR ''/'' # go_join ns ''/'')"

lemma clean_parts_plain: "list_all plain_name ps \<Longrightarrow> clean_parts rooted kept ps = rev kept @ ps"
  by (induction ps arbitrary: kept) (simp_all add: plain_name_def)

lemma go_split_names: "list_all plain_name ns \<Longrightarrow> ns \<noteq> [] \<Longrightarrow> go_split (go_join ns ''/'') ''/'' = ns"
proof (induction ns rule: induct_list012)
  case (2 n)
  then show ?case by (simp add: plain_name_def go_split_single_noop)
next
  case (3 n m ns)
  then show ?case
    using go_split_single_Cons[of "CHR ''/''" n "go_join (m # ns) ''/''"] by (simp add: plain_name_def)
qed simp

lemma path_clean_rooted:
  assumes "list_all plain_name ns" and "ns \<noteq> []"
  shows "path_clean (CHR ''/'' # go_join ns ''/'') = CHR ''/'' # go_join ns ''/''"
proof -
  have "go_split (CHR ''/'' # go_join ns ''/'') ''/'' = [] # ns"
    using go_split_single_Cons[of "CHR ''/''" "[]" "go_join ns ''/''"] go_split_names[OF assms] by simp
  then show ?thesis
    using assms by (simp add: path_clean_def has_prefix_single clean_parts_plain Let_def)
qed

lemma path_join_clean:
  assumes "clean_path p" and "list_all plain_name ns"
  shows "path_join (p # ns) = go_join (p # ns) ''/''" and "clean_path (path_join (p # ns))"
proof -
  obtain ms where ms: "ms \<noteq> []" "list_all plain_name ms" "p = CHR ''/'' # go_join ms ''/''"
    using assms(1) by (auto simp: clean_path_def)
  have j: "go_join (p # ns) ''/'' = CHR ''/'' # go_join (ms @ ns) ''/''"
  proof (cases "ns = []")
    case False
    have "go_join (ms @ ns) ''/'' = go_join ms ''/'' @ ''/'' @ go_join ns ''/''" if "ms \<noteq> []" for ms
      using that False by (induction ms rule: induct_list012) (simp_all add: go_join_Cons)
    with False ms show ?thesis by (simp add: go_join_Cons)
  qed (simp add: ms)
  have "path_join (p # ns) = path_clean (go_join (p # ns) ''/'')" by (simp add: path_join_def ms(3))
  also have "\<dots> = CHR ''/'' # go_join (ms @ ns) ''/''"
    unfolding j using ms assms(2) by (intro path_clean_rooted) simp_all
  finally have e: "path_join (p # ns) = CHR ''/'' # go_join (ms @ ns) ''/''" .
  then show "path_join (p # ns) = go_join (p # ns) ''/''" using j by simp
  show "clean_path (path_join (p # ns))" unfolding e clean_path_def using ms assms(2)
    by (intro exI[of _ "ms @ ns"]) simp
qed

end
