(* ===== verification/Sampler.thy ===== *)
theory Sampler
  imports SessionStats GoPaths "HOL-Library.AList"
begin

text \<open>
  \<open>internal/host/sampler_linux.go\<close>: what a session uses, from the files of \<open>/proc\<close> and of its cgroup
  and from the byte counters the kernel keeps of its TCP connections. The files, directories and
  links, and the answers of the kernel on the netlink socket, are the parameter \<open>pv\<close>. A result
  \<open>None\<close> is a panic of the Go code, which would end the host.
\<close>

unbundle bit_operations_syntax

section \<open>What the sampler sees\<close>

record proc_view =
  pv_file :: "string \<Rightarrow> string option"
  pv_dir :: "string \<Rightarrow> string list option"
  pv_link :: "string \<Rightarrow> string option"
  pv_diag :: "nat \<Rightarrow> string list"
  pv_self :: int
  pv_pagesize :: u64

text \<open>Values of a parser whose error is dropped.\<close>

definition uint_value :: "string \<Rightarrow> u64" where
  "uint_value s = of_nat (parse_uint_value 64 s)"

definition float_value :: "string \<Rightarrow> f64" where
  "float_value s =
     (case ParseFloat s of
        Some f \<Rightarrow> f
      | None \<Rightarrow>
          (case take_sign s of (neg, t) \<Rightarrow>
             (case read_number t of None \<Rightarrow> Fin 0 | Some q \<Rightarrow> f64_round (if neg then - q else q))))"

fun f64_div :: "f64 \<Rightarrow> f64 \<Rightarrow> f64" where
  "f64_div (Fin a) (Fin b) = (if b = 0 then (if a = 0 then NaN else Inf (a < 0)) else f64_round (a / b))"
| "f64_div (Inf n) (Fin b) = Inf (n \<noteq> (b < 0))"
| "f64_div (Fin a) (Inf n) = Fin 0"
| "f64_div (Inf n) (Inf m) = NaN"
| "f64_div NaN _ = NaN"
| "f64_div _ NaN = NaN"

section \<open>Processes\<close>

definition last_index_byte :: "string \<Rightarrow> byte \<Rightarrow> nat option" where
  "last_index_byte s c = map_option (\<lambda>i. length s - 1 - i) (index_byte (rev s) c)"

record proc_stat =
  ps_comm :: string
  ps_session :: int
  ps_utime :: u64
  ps_stime :: u64
  ps_start :: u64
  ps_rss :: u64

text \<open>\<open>int(n)\<close> of a \<open>uint64\<close>.\<close>

definition int_of_u64 :: "u64 \<Rightarrow> int" where
  "int_of_u64 n = sint n"

definition parse_proc_stat :: "string \<Rightarrow> proc_stat option" where
  "parse_proc_stat data =
     (case (index_byte data (CHR ''(''), last_index_byte data (CHR '')'')) of
        (Some open_at, Some end_at) \<Rightarrow>
          (if end_at < open_at then None
           else let flds = go_fields (drop (end_at + 1) data); num = (\<lambda>field. uint_value (flds ! (field - 3))) in
             if length flds < 22 then None
             else Some \<lparr>ps_comm = slice (open_at + 1) (end_at - open_at - 1) data, ps_session = int_of_u64 (num 6),
               ps_utime = num 14, ps_stime = num 15, ps_start = num 22, ps_rss = num 24\<rparr>)
      | _ \<Rightarrow> None)"

definition proc_path :: "int \<Rightarrow> string \<Rightarrow> string" where
  "proc_path pid name = ''/proc/'' @ itoa pid @ ''/'' @ name"

definition readProcStat :: "proc_view \<Rightarrow> int \<Rightarrow> proc_stat option" where
  "readProcStat pv pid = Option.bind (pv_file pv (proc_path pid ''stat'')) parse_proc_stat"

fun scan_io :: "string list \<Rightarrow> u64 \<times> u64 \<Rightarrow> u64 \<times> u64" where
  "scan_io [] rw = rw"
| "scan_io (l # ls) (r, w) =
     (let (key, val) = (case go_cut l '': '' of None \<Rightarrow> (l, []) | Some kv \<Rightarrow> kv); v = uint_value val in
      scan_io ls (if key = ''read_bytes'' then (v, w) else if key = ''write_bytes'' then (r, v) else (r, w)))"

definition readProcIO :: "proc_view \<Rightarrow> int \<Rightarrow> (u64 \<times> u64) option" where
  "readProcIO pv pid = map_option (\<lambda>text. scan_io (scan_lines text) (0, 0)) (pv_file pv (proc_path pid ''io''))"

definition readPids :: "proc_view \<Rightarrow> string \<Rightarrow> int \<Rightarrow> int list" where
  "readPids pv path exclude =
     (case pv_file pv path of
        None \<Rightarrow> []
      | Some text \<Rightarrow> filter (\<lambda>pid. pid \<noteq> exclude) (List.map_filter parse_int (go_fields text)))"

definition sessionPids :: "proc_view \<Rightarrow> int \<Rightarrow> int list" where
  "sessionPids pv sid =
     (case pv_dir pv ''/proc'' of
        None \<Rightarrow> []
      | Some names \<Rightarrow>
          filter (\<lambda>pid. case readProcStat pv pid of Some st \<Rightarrow> ps_session st = sid | None \<Rightarrow> False)
            (List.map_filter parse_int names))"

definition socket_inode :: "string \<Rightarrow> u64 option" where
  "socket_inode target =
     Option.bind (cut_prefix target ''socket:['') (\<lambda>rest. map_option of_nat (parse_uint 64 (trim_suffix rest '']'')))"

text \<open>The inodes of the sockets of a process, without repetition; they come into a set.\<close>

definition socketInodes :: "proc_view \<Rightarrow> int \<Rightarrow> u64 list \<Rightarrow> u64 list" where
  "socketInodes pv pid into =
     (let dir = proc_path pid ''fd'' in
      case pv_dir pv dir of
        None \<Rightarrow> into
      | Some names \<Rightarrow>
          fold List.insert
            (List.map_filter (\<lambda>n. Option.bind (pv_link pv (path_join [dir, n])) socket_inode) names) into)"

section \<open>Pressure and the cgroup\<close>

definition psi_field :: "string \<Rightarrow> f64 option" where
  "psi_field field = map_option float_value (cut_prefix field ''avg10='')"

text \<open>The value of the first \<open>avg10\<close> in a line that begins with \<open>some\<close>.\<close>

definition psiSome :: "string \<Rightarrow> f64" where
  "psiSome text =
     (case concat (map (\<lambda>line. case cut_prefix line ''some '' of
          None \<Rightarrow> [] | Some rest \<Rightarrow> List.map_filter psi_field (go_fields rest)) (go_split text [CHR 0x0A])) of
        [] \<Rightarrow> Fin 0 | f # _ \<Rightarrow> f)"

record sampled_stats = stats +
  sm_Time :: int
  sm_Elapsed :: f64
  sm_CPULimit :: f64

definition cg_file :: "proc_view \<Rightarrow> string \<Rightarrow> string \<Rightarrow> string" where
  "cg_file pv dir name =
     trim_space (case pv_file pv (path_join [dir, name]) of None \<Rightarrow> [] | Some text \<Rightarrow> text)"

definition cg_number :: "proc_view \<Rightarrow> string \<Rightarrow> string \<Rightarrow> u64" where
  "cg_number pv dir name = uint_value (cg_file pv dir name)"

definition cg_keyed :: "proc_view \<Rightarrow> string \<Rightarrow> string \<Rightarrow> string \<Rightarrow> string" where
  "cg_keyed pv dir name key =
     (case List.map_filter (\<lambda>line. case go_cut line '' '' of Some (k, v) \<Rightarrow> if k = key then Some v else None | None \<Rightarrow> None)
        (go_split (cg_file pv dir name) [CHR 0x0A]) of
        [] \<Rightarrow> [] | v # _ \<Rightarrow> v)"

definition cpu_limit :: "string \<Rightarrow> f64 option" where
  "cpu_limit text =
     (case go_cut text '' '' of
        None \<Rightarrow> None
      | Some (quota, period) \<Rightarrow>
          if quota = ''max'' then None
          else let q = float_value quota; p = float_value period in
            if f64_gt p 0 then Some (f64_mul (f64_div q p) (Fin 100)) else None)"

fun add_io :: "string list \<Rightarrow> u64 \<times> u64 \<Rightarrow> u64 \<times> u64" where
  "add_io [] rw = rw"
| "add_io (f # fs) (r, w) =
     (let (key, val) = (case go_cut f ''='' of None \<Rightarrow> (f, []) | Some kv \<Rightarrow> kv); v = uint_value val in
      add_io fs (if key = ''rbytes'' then (r + v, w) else if key = ''wbytes'' then (r, w + v) else (r, w)))"

text \<open>\<open>readCgroup\<close>; the second part of the result says that the disk totals are the cgroup's.\<close>

definition readCgroup :: "proc_view \<Rightarrow> string \<Rightarrow> sampled_stats \<Rightarrow> sampled_stats \<times> bool" where
  "readCgroup pv dir st =
     (let st = st\<lparr>CPUUsec := uint_value (cg_keyed pv dir ''cpu.stat'' ''usage_usec''),
                  MemCurrent := cg_number pv dir ''memory.current'',
                  MemPeak := cg_number pv dir ''memory.peak'',
                  MemMax := cg_number pv dir ''memory.max'',
                  Swap := cg_number pv dir ''memory.swap.current'',
                  SwapPeak := cg_number pv dir ''memory.swap.peak'',
                  OOMKills := uint_value (cg_keyed pv dir ''memory.events'' ''oom_kill'')\<rparr>;
          st = (case cpu_limit (cg_file pv dir ''cpu.max'') of None \<Rightarrow> st | Some l \<Rightarrow> st\<lparr>sm_CPULimit := l\<rparr>);
          st = st\<lparr>CPUPressure := psiSome (cg_file pv dir ''cpu.pressure''),
                  MemPressure := psiSome (cg_file pv dir ''memory.pressure''),
                  IOPressure := psiSome (cg_file pv dir ''io.pressure'')\<rparr> in
      case pv_file pv (path_join [dir, ''io.stat'']) of
        None \<Rightarrow> (st, False)
      | Some text \<Rightarrow>
          (case add_io (concat (map go_fields (go_split text [CHR 0x0A]))) (DiskRead st, DiskWrite st) of
             (r, w) \<Rightarrow> (st\<lparr>DiskRead := r, DiskWrite := w\<rparr>, True)))"

section \<open>TCP counters\<close>

text \<open>
  \<open>binary.NativeEndian\<close> on the machines the code is built for, which are little-endian.
\<close>

definition u16_at :: "nat \<Rightarrow> string \<Rightarrow> nat" where "u16_at i b = le_dec (slice i 2 b)"
definition u32_at :: "nat \<Rightarrow> string \<Rightarrow> nat" where "u32_at i b = le_dec (slice i 4 b)"

text \<open>\<open>(n + 3) &^ 3\<close>.\<close>

definition align4 :: "nat \<Rightarrow> nat" where "align4 n = 4 * ((n + 3) div 4)"

text \<open>
  The attributes of a message with their types. The slice expression that goes on behind an
  attribute panics when the attribute ends in the last bytes, unpadded.
\<close>

function parseDiagAttrs :: "string \<Rightarrow> (nat \<times> string) list option" where
  "parseDiagAttrs b =
     (if length b < 4 then Some []
      else let l = u16_at 0 b; t = u16_at 2 b in
        if l < 4 \<or> l > length b then Some []
        else if align4 l > length b then None
        else map_option ((#) (t, slice 4 (l - 4) b)) (parseDiagAttrs (drop (align4 l) b)))"
  by auto
termination
  by (relation "measure length") (auto simp: align4_def)

declare parseDiagAttrs.simps [simp del]

text \<open>\<open>syscall.ParseNetlinkMessage\<close>: types and contents of the messages of a datagram.\<close>

function parse_netlink :: "string \<Rightarrow> (nat \<times> string) list option" where
  "parse_netlink b =
     (if length b < 16 then Some []
      else let n = u32_at 0 b; t = u16_at 4 b in
        if n < 16 \<or> align4 n > length b then None
        else map_option ((#) (t, slice 16 (n - 16) b)) (parse_netlink (drop (align4 n) b)))"
  by auto
termination
  by (relation "measure length") (auto simp: align4_def)

declare parse_netlink.simps [simp del]

text \<open>The two counters in the kernel's \<open>tcp_info\<close>, read from a copy padded with zeros.\<close>

definition tcp_counts :: "string \<Rightarrow> u64 \<times> u64" where
  "tcp_counts val =
     (let info = val @ replicate 136 (CHR 0x00) in (get64 (slice 128 8 info), get64 (slice 120 8 info)))"

type_synonym counters = "(u64 \<times> (u64 \<times> u64)) list"

text \<open>The messages of one datagram: the counters so far, and whether the dump is over.\<close>

fun diag_messages :: "u64 list \<Rightarrow> (nat \<times> string) list \<Rightarrow> counters \<Rightarrow> (counters \<times> bool) option" where
  "diag_messages want [] res = Some (res, False)"
| "diag_messages want ((t, d) # ms) res =
     (if t = 3 \<or> t = 2 then Some (res, True)
      else if length d < 72 then diag_messages want ms res
      else let inode = of_nat (u32_at 68 d) in
        if inode \<notin> set want then diag_messages want ms res
        else case parseDiagAttrs (drop 72 d) of
          None \<Rightarrow> None
        | Some attrs \<Rightarrow>
            diag_messages want ms
              (fold (\<lambda>(a, v) res. if a = 2 then AList.update inode (tcp_counts v) res else res) attrs res))"

fun readDiagDump :: "string list \<Rightarrow> u64 list \<Rightarrow> counters \<Rightarrow> counters option" where
  "readDiagDump [] want res = Some res"
| "readDiagDump (b # bs) want res =
     (if b = [] then Some res
      else case parse_netlink b of
        None \<Rightarrow> Some res
      | Some ms \<Rightarrow>
          (case diag_messages want ms res of
             None \<Rightarrow> None
           | Some (res', over) \<Rightarrow> if over then Some res' else readDiagDump bs want res'))"

text \<open>The dumps for \<open>AF_INET\<close> and \<open>AF_INET6\<close>.\<close>

definition tcpCounters :: "proc_view \<Rightarrow> u64 list \<Rightarrow> counters option" where
  "tcpCounters pv want =
     Option.bind (readDiagDump (pv_diag pv 2) want []) (readDiagDump (pv_diag pv 10) want)"

section \<open>Sampling\<close>

type_synonym proc_key = "int \<times> u64"

record sampler =
  sp_start :: int
  sp_cgroupDir :: string
  sp_sid :: int
  sp_disk :: "(proc_key \<times> (u64 \<times> u64)) list"
  sp_net :: counters
  sp_cpu :: "(proc_key \<times> u64) list"
  sp_cpuUsec :: u64
  sp_history :: "sampled_stats list"

definition cgroup_dir :: "string \<Rightarrow> string" where
  "cgroup_dir text =
     fold (\<lambda>line dir. case cut_prefix line ''0::'' of
         Some path \<Rightarrow> if contains_str path ''/swash-host-'' then path_join [''/sys/fs/cgroup'', path] else dir
       | None \<Rightarrow> dir) (go_split (trim_space text) [CHR 0x0A]) []"

definition NewSampler :: "proc_view \<Rightarrow> int \<Rightarrow> sampler" where
  "NewSampler pv now =
     \<lparr>sp_start = now,
      sp_cgroupDir = (case pv_file pv ''/proc/self/cgroup'' of None \<Rightarrow> [] | Some text \<Rightarrow> cgroup_dir text),
      sp_sid = 0, sp_disk = [], sp_net = [], sp_cpu = [], sp_cpuUsec = 0, sp_history = []\<rparr>"

definition SetTaskPID :: "int \<Rightarrow> sampler \<Rightarrow> sampler" where
  "SetTaskPID pid s = s\<lparr>sp_sid := pid\<rparr>"

definition clockTicks :: nat where "clockTicks = 100"

definition seconds :: "int \<Rightarrow> f64" where "seconds d = dur_float 1000000000 d"

text \<open>What the loop over the processes gathers.\<close>

record gathered =
  ga_cpu :: "(proc_key \<times> u64) list"
  ga_cpuUsec :: u64
  ga_rss :: u64
  ga_top :: "proc_stats list"
  ga_disk :: "(proc_key \<times> (u64 \<times> u64)) list"
  ga_inodes :: "u64 list"

text \<open>
  One process: \<open>cgroup\<close> says that there is a cgroup, \<open>old\<close> are the ticks of the last sample and
  \<open>prev\<close> its time.
\<close>

definition gather ::
  "proc_view \<Rightarrow> bool \<Rightarrow> (proc_key \<times> u64) list \<Rightarrow> int option \<Rightarrow> int \<Rightarrow> int \<Rightarrow> gathered \<Rightarrow> gathered" where
  "gather pv cgroup old prev now pid g =
     (case readProcStat pv pid of
        None \<Rightarrow> g
      | Some st \<Rightarrow>
          let key = (pid, ps_start st); ticks = ps_utime st + ps_stime st; seen = map_of old key in
          \<lparr>ga_cpu = AList.update key ticks (ga_cpu g),
           ga_cpuUsec = (if cgroup then ga_cpuUsec g
             else ga_cpuUsec g + (case seen of Some l \<Rightarrow> (ticks - l) * 1000000 div 100 | None \<Rightarrow> ticks * 1000000 div 100)),
           ga_rss = (if cgroup then ga_rss g else ga_rss g + ps_rss st * pv_pagesize pv),
           ga_top = (case (prev, seen) of
             (Some t, Some l) \<Rightarrow>
               if ticks \<ge> l then ga_top g @ [\<lparr>pr_PID = pid, pr_Comm = ps_comm st,
                 pr_CPUPercent = f64_mul (f64_div (f64_div (f64_of_nat (unat (ticks - l))) (Fin 100)) (seconds (now - t))) (Fin 100)\<rparr>]
               else ga_top g
             | _ \<Rightarrow> ga_top g),
           ga_disk = (case readProcIO pv pid of Some rw \<Rightarrow> AList.update key rw (ga_disk g) | None \<Rightarrow> ga_disk g),
           ga_inodes = socketInodes pv pid (ga_inodes g)\<rparr>)"

fun f64_greater :: "f64 \<Rightarrow> f64 \<Rightarrow> bool" where
  "f64_greater (Fin a) (Fin b) = (a > b)"
| "f64_greater (Inf n) (Fin b) = (\<not> n)"
| "f64_greater (Fin a) (Inf n) = n"
| "f64_greater (Inf n) (Inf m) = (\<not> n \<and> m)"
| "f64_greater _ _ = False"

text \<open>The busiest processes first; \<open>sort.Slice\<close> leaves the order of equal ones open.\<close>

fun insert_top :: "proc_stats \<Rightarrow> proc_stats list \<Rightarrow> proc_stats list" where
  "insert_top p [] = [p]"
| "insert_top p (q # qs) = (if f64_greater (pr_CPUPercent p) (pr_CPUPercent q) then p # q # qs else q # insert_top p qs)"

definition busiest :: "proc_stats list \<Rightarrow> proc_stats list" where
  "busiest ps = take 3 (fold insert_top ps [])"

definition pair_total :: "('k \<times> (u64 \<times> u64)) list \<Rightarrow> u64 \<times> u64" where
  "pair_total al = (sum_list (map (\<lambda>(k, d). fst d) al), sum_list (map (\<lambda>(k, d). snd d) al))"

text \<open>The samples kept for the rates: within the window, but the two last at least.\<close>

definition rateWindow :: int where "rateWindow = 5000000000"

fun trim_history :: "int \<Rightarrow> sampled_stats list \<Rightarrow> sampled_stats list" where
  "trim_history cutoff (a # b # c # hs) =
     (if sm_Time b < cutoff then trim_history cutoff (b # c # hs) else a # b # c # hs)"
| "trim_history cutoff hs = hs"

definition rate :: "f64 \<Rightarrow> u64 \<Rightarrow> u64 \<Rightarrow> f64" where
  "rate dt cur old = (if cur < old then Fin 0 else f64_div (f64_of_nat (unat (cur - old))) dt)"

definition with_rates :: "sampled_stats \<Rightarrow> sampled_stats \<Rightarrow> sampled_stats" where
  "with_rates base st =
     (let dt = seconds (sm_Time st - sm_Time base) in
      st\<lparr>CPUPercent := f64_div (rate dt (CPUUsec st) (CPUUsec base)) (Fin 10000),
         DiskReadRate := rate dt (DiskRead st) (DiskRead base),
         DiskWriteRate := rate dt (DiskWrite st) (DiskWrite base),
         NetRxRate := rate dt (NetRx st) (NetRx base),
         NetTxRate := rate dt (NetTx st) (NetTx base)\<rparr>)"

definition zero_sample :: "int \<Rightarrow> int \<Rightarrow> sampled_stats" where
  "zero_sample start now = stats.extend zeroStats \<lparr>sm_Time = now, sm_Elapsed = seconds (now - start), sm_CPULimit = Fin 0\<rparr>"

definition sample_pids :: "proc_view \<Rightarrow> sampler \<Rightarrow> int list" where
  "sample_pids pv s =
     (if sp_cgroupDir s \<noteq> [] then readPids pv (path_join [sp_cgroupDir s, ''cgroup.procs'']) (pv_self pv)
      else if sp_sid s > 0 then sessionPids pv (sp_sid s) else [])"

definition gather_all :: "proc_view \<Rightarrow> int \<Rightarrow> sampler \<Rightarrow> gathered" where
  "gather_all pv now s =
     fold (gather pv (sp_cgroupDir s \<noteq> []) (sp_cpu s)
         (if sp_history s = [] then None else Some (sm_Time (last (sp_history s)))) now) (sample_pids pv s)
       \<lparr>ga_cpu = [], ga_cpuUsec = sp_cpuUsec s, ga_rss = 0, ga_top = [], ga_disk = sp_disk s, ga_inodes = []\<rparr>"

definition Sample :: "proc_view \<Rightarrow> int \<Rightarrow> sampler \<Rightarrow> (sampled_stats \<times> sampler) option" where
  "Sample pv now s =
     (let st = zero_sample (sp_start s) now; cgroup = (sp_cgroupDir s \<noteq> []);
          (st, cgroupIO) = (if cgroup then readCgroup pv (sp_cgroupDir s) st else (st, False));
          g = gather_all pv now s;
          st = st\<lparr>Procs := int (length (sample_pids pv s)), Top := busiest (ga_top g)\<rparr>;
          st = (if cgroup then st else st\<lparr>CPUUsec := ga_cpuUsec g, MemCurrent := ga_rss g\<rparr>) in
      case (if ga_inodes g = [] then Some [] else tcpCounters pv (ga_inodes g)) of
        None \<Rightarrow> None
      | Some found \<Rightarrow>
          let net = fold (\<lambda>(ino, counts). AList.update ino counts) found (sp_net s);
              st = st\<lparr>NetConns := int (length (filter (\<lambda>ino. map_of net ino \<noteq> None) (ga_inodes g)))\<rparr>;
              st = (if cgroupIO then st else st\<lparr>DiskRead := DiskRead st + fst (pair_total (ga_disk g)),
                DiskWrite := DiskWrite st + snd (pair_total (ga_disk g))\<rparr>);
              st = st\<lparr>NetRx := fst (pair_total net), NetTx := snd (pair_total net)\<rparr>;
              history = trim_history (now - rateWindow) (sp_history s @ [st]);
              st = (if length history > 1 then with_rates (hd history) st else st) in
          Some (st, s\<lparr>sp_disk := ga_disk g, sp_net := net, sp_cpu := ga_cpu g, sp_cpuUsec := ga_cpuUsec g,
            sp_history := butlast history @ [st]\<rparr>))"

text \<open>\<open>Run\<close>: a sample at the start and at every tick, what each finds given in order.\<close>

fun sampler_Run :: "(proc_view \<times> int) list \<Rightarrow> sampler \<Rightarrow> (sampled_stats list \<times> sampler) option" where
  "sampler_Run [] s = Some ([], s)"
| "sampler_Run ((pv, now) # views) s =
     (case Sample pv now s of
        None \<Rightarrow> None
      | Some (st, s) \<Rightarrow> map_option (\<lambda>(sts, s). (st # sts, s)) (sampler_Run views s))"

definition Latest :: "proc_view \<Rightarrow> int \<Rightarrow> sampler \<Rightarrow> (sampled_stats \<times> sampler) option" where
  "Latest pv now s = (if sp_history s = [] then Sample pv now s else Some (last (sp_history s), s))"

section \<open>Reading is exact\<close>

lemma index_byte_at: "c \<notin> set xs \<Longrightarrow> index_byte (xs @ c # ys) c = Some (length xs)"
  by (induction xs) auto

lemma last_index_byte_at: "c \<notin> set ys \<Longrightarrow> last_index_byte (xs @ c # ys) c = Some (length xs)"
  using index_byte_at[of c "rev ys" "rev xs"] by (simp add: last_index_byte_def)

text \<open>The name of a process is read whatever parentheses and spaces are in it.\<close>

lemma proc_stat_comm:
  assumes "CHR ''('' \<notin> set pid" and "CHR '')'' \<notin> set rest" and "length (go_fields rest) \<ge> 22"
  shows "parse_proc_stat (pid @ ''('' @ comm @ '')'' @ rest) = Some
    \<lparr>ps_comm = comm, ps_session = int_of_u64 (uint_value (go_fields rest ! 3)),
     ps_utime = uint_value (go_fields rest ! 11), ps_stime = uint_value (go_fields rest ! 12),
     ps_start = uint_value (go_fields rest ! 19), ps_rss = uint_value (go_fields rest ! 21)\<rparr>"
proof -
  let ?data = "pid @ CHR ''('' # comm @ CHR '')'' # rest"
  have "index_byte ?data (CHR ''('') = Some (length pid)" by (rule index_byte_at[OF assms(1)])
  moreover have "last_index_byte ?data (CHR '')'') = Some (length pid + 1 + length comm)"
    using last_index_byte_at[OF assms(2), of "pid @ CHR ''('' # comm"] by simp
  moreover have "slice (length pid + 1) (length comm) ?data = comm" by (simp add: slice_def)
  ultimately show ?thesis using assms(3) by (simp add: parse_proc_stat_def Let_def)
qed

text \<open>Attributes as the kernel writes them, each padded to four bytes.\<close>

definition raw_attr :: "nat \<times> string \<Rightarrow> string" where
  "raw_attr a = le_enc 2 (4 + length (snd a)) @ le_enc 2 (fst a) @ snd a"

definition padded_attr :: "nat \<times> string \<Rightarrow> string" where
  "padded_attr a = raw_attr a @ replicate (align4 (4 + length (snd a)) - (4 + length (snd a))) (CHR 0x00)"

definition attr_ok :: "nat \<times> string \<Rightarrow> bool" where
  "attr_ok a \<longleftrightarrow> fst a < 65536 \<and> 4 + length (snd a) < 65536"

lemma align4_ge: "n \<le> align4 n" by (simp add: align4_def)

lemma align4_mult: "align4 n = n \<longleftrightarrow> n mod 4 = 0" unfolding align4_def by presburger

lemma raw_attr_head:
  assumes "attr_ok (t, v)"
  shows "u16_at 0 (raw_attr (t, v) @ r) = 4 + length v" "u16_at 2 (raw_attr (t, v) @ r) = t"
    "slice 4 (length v) (raw_attr (t, v) @ r) = v"
  using assms by (simp_all add: u16_at_def raw_attr_def slice_def le_dec_enc attr_ok_def)

lemma raw_attr_length: "length (raw_attr (t, v)) = 4 + length v"
  by (simp add: raw_attr_def)

lemma parse_padded:
  assumes "attr_ok a"
  shows "parseDiagAttrs (padded_attr a @ r) = map_option ((#) a) (parseDiagAttrs r)"
proof -
  obtain t v where a: "a = (t, v)" by (cases a)
  let ?n = "4 + length v"
  let ?b = "raw_attr (t, v) @ replicate (align4 ?n - ?n) (CHR 0x00) @ r"
  note h = raw_attr_head[OF assms[unfolded a], of "replicate (align4 ?n - ?n) (CHR 0x00) @ r"]
  have len: "length ?b = align4 ?n + length r" using align4_ge[of ?n] by (simp add: raw_attr_length)
  have d: "drop (align4 ?n) ?b = r" using align4_ge[of ?n] by (simp add: raw_attr_length)
  have "parseDiagAttrs ?b = map_option ((#) (t, v)) (parseDiagAttrs r)"
    using align4_ge[of ?n] by (subst parseDiagAttrs.simps) (simp only: h len d Let_def add_diff_cancel_left', simp)
  then show ?thesis by (simp add: a padded_attr_def)
qed

text \<open>
  The attributes of a message are read back, but if the last one is not padded the host panics.
\<close>

theorem attributes_read_back:
  assumes "list_all attr_ok attrs" and "attr_ok a"
  shows "parseDiagAttrs (concat (map padded_attr attrs)) = Some attrs \<and>
    parseDiagAttrs (concat (map padded_attr attrs) @ raw_attr a) =
      (if length (snd a) mod 4 = 0 then Some (attrs @ [a]) else None)"
proof -
  have all: "parseDiagAttrs (concat (map padded_attr attrs) @ r) = map_option ((@) attrs) (parseDiagAttrs r)" for r
    using assms(1)
  proof (induction attrs)
    case (Cons b attrs)
    then show ?case by (simp add: parse_padded option.map_comp comp_def)
  next
    case Nil
    show ?case by (cases "parseDiagAttrs r") simp_all
  qed
  have e: "parseDiagAttrs [] = Some []" by (subst parseDiagAttrs.simps) simp
  obtain t v where a: "a = (t, v)" by (cases a)
  note h = raw_attr_head[OF assms(2)[unfolded a], of "[]", simplified] raw_attr_length[of t v]
  have "parseDiagAttrs (raw_attr a) = (if length v mod 4 = 0 then Some [a] else None)"
  proof (cases "length v mod 4 = 0")
    case True
    then have "align4 (4 + length v) = 4 + length v" by (simp add: align4_mult)
    then show ?thesis using True by (subst parseDiagAttrs.simps) (simp add: a h e Let_def)
  next
    case False
    then have "align4 (4 + length v) > 4 + length v"
      using align4_ge[of "4 + length v"] align4_mult[of "4 + length v"] by simp
    then show ?thesis using False by (subst parseDiagAttrs.simps) (simp add: a h Let_def)
  qed
  with all[of "raw_attr a"] all[of "[]"] show ?thesis by (simp add: e a)
qed

section \<open>Totals\<close>

text \<open>The disk counters are kept of every process ever seen, as of its last reading.\<close>

definition disk_reading :: "proc_view \<Rightarrow> int \<Rightarrow> (proc_key \<times> (u64 \<times> u64)) option" where
  "disk_reading pv pid =
     (case (readProcStat pv pid, readProcIO pv pid) of
        (Some st, Some rw) \<Rightarrow> Some ((pid, ps_start st), rw) | _ \<Rightarrow> None)"

lemma gather_disk:
  "ga_disk (gather pv cg old prev now pid g) =
     (case disk_reading pv pid of None \<Rightarrow> ga_disk g | Some (k, rw) \<Rightarrow> AList.update k rw (ga_disk g))"
  by (auto simp: gather_def disk_reading_def Let_def split: option.splits)

lemma gather_disk_fold:
  "ga_disk (fold (gather pv cg old prev now) pids g) =
     fold (\<lambda>(k, rw). AList.update k rw) (List.map_filter (disk_reading pv) pids) (ga_disk g)"
  by (induction pids arbitrary: g) (auto simp: gather_disk map_filter_simps split: option.splits)

definition table_total :: "('v \<Rightarrow> u64) \<Rightarrow> ('k \<times> 'v) list \<Rightarrow> nat" where
  "table_total f al = sum_list (map (\<lambda>(k, d). unat (f d)) al)"

lemma word_total: "sum_list (map (\<lambda>(k, d). f d) al) = of_nat (table_total f al)"
  by (induction al) (auto simp: table_total_def)

lemma pair_total_nat:
  assumes "table_total fst al < 2 ^ 64" and "table_total snd al < 2 ^ 64"
  shows "unat (fst (pair_total al)) = table_total fst al" "unat (snd (pair_total al)) = table_total snd al"
  using assms by (simp_all add: pair_total_def word_total)

lemma total_update:
  "distinct (map fst al) \<Longrightarrow> table_total f (AList.update k v al) + (case map_of al k of None \<Rightarrow> 0 | Some w \<Rightarrow> unat (f w)) =
     table_total f al + unat (f v)"
proof (induction al)
  case (Cons a al)
  obtain k' v' where a: "a = (k', v')" by (cases a)
  show ?case
  proof (cases "k' = k")
    case True
    then show ?thesis by (simp add: a table_total_def)
  next
    case False
    with Cons a show ?thesis by (simp add: table_total_def)
  qed
qed (simp add: table_total_def)

text \<open>The counters read of a process do not go back.\<close>

definition grows :: "('v \<Rightarrow> u64) \<Rightarrow> ('k \<times> 'v) list \<Rightarrow> 'k \<times> 'v \<Rightarrow> bool" where
  "grows f al r \<longleftrightarrow> (case map_of al (fst r) of None \<Rightarrow> True | Some v \<Rightarrow> f v \<le> f (snd r))"

abbreviation enter :: "('k \<times> 'v) list \<Rightarrow> ('k \<times> 'v) list \<Rightarrow> ('k \<times> 'v) list" where
  "enter rs al \<equiv> fold (\<lambda>(k, v). AList.update k v) rs al"

lemma total_enter_one:
  "distinct (map fst al) \<Longrightarrow> grows f al r \<Longrightarrow> table_total f al \<le> table_total f (AList.update (fst r) (snd r) al)"
  using total_update[of al f "fst r" "snd r"]
  by (auto simp: grows_def word_le_nat_alt split: option.splits)

lemma grows_update: "grows f al r \<Longrightarrow> fst r \<noteq> k \<Longrightarrow> grows f (AList.update k v al) r"
  by (simp add: grows_def update_conv')

lemma total_enter:
  assumes "distinct (map fst al)" and "distinct (map fst rs)" and "\<forall>r \<in> set rs. grows f al r"
  shows "table_total f al \<le> table_total f (enter rs al)"
  using assms
proof (induction rs arbitrary: al)
  case (Cons r rs)
  let ?al = "AList.update (fst r) (snd r) al"
  have "fst r' \<noteq> fst r" if "r' \<in> set rs" for r'
    by (metis Cons.prems(2) distinct.simps(2) image_eqI list.simps(9) set_map that)
  then have "\<forall>r' \<in> set rs. grows f ?al r'"
    using Cons.prems(3) by (auto intro!: grows_update)
  moreover have "distinct (map fst ?al)" using Cons.prems(1) by (simp add: distinct_update)
  ultimately have "table_total f ?al \<le> table_total f (enter rs ?al)"
    using Cons.prems(2) by (intro Cons.IH) simp_all
  moreover have "table_total f al \<le> table_total f ?al"
    using Cons.prems by (intro total_enter_one) simp_all
  ultimately show ?case by (cases r) simp
qed simp

lemma distinct_enter: "distinct (map fst al) \<Longrightarrow> distinct (map fst (enter rs al))"
  by (induction rs arbitrary: al) (auto simp: distinct_update)

lemma enter_kept: "k \<notin> fst ` set rs \<Longrightarrow> map_of (enter rs al) k = map_of al k"
  by (induction rs arbitrary: al) (auto simp: update_conv')

lemma trim_history_last: "hs \<noteq> [] \<Longrightarrow> trim_history c hs \<noteq> [] \<and> last (trim_history c hs) = last hs"
  by (induction c hs rule: trim_history.induct) auto

text \<open>The readings of a sample.\<close>

definition readings :: "proc_view \<Rightarrow> sampler \<Rightarrow> (proc_key \<times> (u64 \<times> u64)) list" where
  "readings pv s = List.map_filter (disk_reading pv) (sample_pids pv s)"

lemma disk_reading_pid: "disk_reading pv p = Some r \<Longrightarrow> fst (fst r) = p"
  by (auto simp: disk_reading_def split: option.splits)

lemma reading_of: "r \<in> set (List.map_filter (disk_reading pv) ps) \<Longrightarrow> fst (fst r) \<in> set ps"
  by (induction ps) (auto simp: map_filter_simps dest: disk_reading_pid split: option.splits)

lemma readings_distinct: "distinct (sample_pids pv s) \<Longrightarrow> distinct (map fst (readings pv s))"
proof -
  have "distinct ps \<Longrightarrow> distinct (map fst (List.map_filter (disk_reading pv) ps))" for ps
  proof (induction ps)
    case (Cons p ps)
    show ?case
    proof (cases "disk_reading pv p")
      case (Some r)
      then have "fst r \<notin> fst ` set (List.map_filter (disk_reading pv) ps)"
        using Cons.prems disk_reading_pid[OF Some] reading_of[of _ pv ps] by force
      with Some Cons show ?thesis by (simp add: map_filter_simps)
    qed (use Cons in \<open>simp add: map_filter_simps\<close>)
  qed (simp add: map_filter_simps)
  then show "distinct (sample_pids pv s) \<Longrightarrow> ?thesis" by (simp add: readings_def)
qed

lemma with_rates_disk: "DiskRead (with_rates b st) = DiskRead st" "DiskWrite (with_rates b st) = DiskWrite st"
  by (simp_all add: with_rates_def Let_def)

lemma zero_sample_disk: "DiskRead (zero_sample a b) = 0" "DiskWrite (zero_sample a b) = 0"
  by (simp_all add: zero_sample_def zeroStats_def stats.defs)

lemma Sample_disk:
  assumes "Sample pv now s = Some (st, s')"
  shows "sp_disk s' = enter (readings pv s) (sp_disk s)" and "last (sp_history s') = st"
    and "sp_cgroupDir s = [] \<Longrightarrow> DiskRead st = fst (pair_total (sp_disk s')) \<and> DiskWrite st = snd (pair_total (sp_disk s'))"
    and "sp_cgroupDir s' = sp_cgroupDir s"
proof -
  let ?g = "gather_all pv now s"
  obtain st0 io where r: "(if sp_cgroupDir s \<noteq> [] then readCgroup pv (sp_cgroupDir s) (zero_sample (sp_start s) now)
      else (zero_sample (sp_start s) now, False)) = (st0, io)" by (rule prod.exhaust)
  obtain found where f: "(if ga_inodes ?g = [] then Some [] else tcpCounters pv (ga_inodes ?g)) = Some found"
    using assms r by (auto simp: Sample_def Let_def split: option.splits)
  have g: "ga_disk ?g = enter (readings pv s) (sp_disk s)"
    by (simp add: gather_all_def gather_disk_fold readings_def)
  show "sp_disk s' = enter (readings pv s) (sp_disk s)" "sp_cgroupDir s' = sp_cgroupDir s" "last (sp_history s') = st"
    using assms unfolding Sample_def Let_def r f by (auto simp: g)
  assume c: "sp_cgroupDir s = []"
  with r have "st0 = zero_sample (sp_start s) now" "\<not> io" by auto
  with assms c show "DiskRead st = fst (pair_total (sp_disk s')) \<and> DiskWrite st = snd (pair_total (sp_disk s'))"
    unfolding Sample_def Let_def r f by (auto simp: with_rates_disk zero_sample_disk)
qed

text \<open>
  What a run needs at each of its samples: no process is met twice, the counters of each do not go
  back, and the totals fit.
\<close>

fun steady :: "(proc_view \<times> int) list \<Rightarrow> sampler \<Rightarrow> bool" where
  "steady [] s = True"
| "steady ((pv, now) # views) s =
     (distinct (sample_pids pv s) \<and> list_all (\<lambda>r. grows fst (sp_disk s) r \<and> grows snd (sp_disk s) r) (readings pv s) \<and>
      (case Sample pv now s of
         None \<Rightarrow> True
       | Some (_, s') \<Rightarrow> table_total fst (sp_disk s') < 2 ^ 64 \<and> table_total snd (sp_disk s') < 2 ^ 64 \<and> steady views s'))"

text \<open>The processes a run reads.\<close>

fun met :: "(proc_view \<times> int) list \<Rightarrow> sampler \<Rightarrow> proc_key set" where
  "met [] s = {}"
| "met ((pv, now) # views) s = fst ` set (readings pv s) \<union> (case Sample pv now s of None \<Rightarrow> {} | Some (_, s') \<Rightarrow> met views s')"

lemma Sample_cgroupDir: "Sample pv now s = Some (st, s') \<Longrightarrow> sp_cgroupDir s' = sp_cgroupDir s"
  by (auto simp: Sample_def Let_def split: prod.splits option.splits)

text \<open>One sample.\<close>

lemma disk_step:
  assumes "Sample pv now s = Some (st, s')" and "sp_cgroupDir s = []"
    and "distinct (map fst (sp_disk s))" and "distinct (sample_pids pv s)"
    and "\<forall>r \<in> set (readings pv s). grows fst (sp_disk s) r \<and> grows snd (sp_disk s) r"
    and "table_total fst (sp_disk s') < 2 ^ 64" and "table_total snd (sp_disk s') < 2 ^ 64"
  shows "unat (DiskRead st) = table_total fst (sp_disk s') \<and> unat (DiskWrite st) = table_total snd (sp_disk s') \<and>
    table_total fst (sp_disk s) \<le> table_total fst (sp_disk s') \<and>
    table_total snd (sp_disk s) \<le> table_total snd (sp_disk s') \<and>
    (\<forall>k. k \<notin> fst ` set (readings pv s) \<longrightarrow> map_of (sp_disk s') k = map_of (sp_disk s) k) \<and>
    distinct (map fst (sp_disk s')) \<and> Latest pv' now' s' = Some (st, s')"
proof -
  note d = Sample_disk[OF assms(1)]
  have t: "unat (DiskRead st) = table_total fst (sp_disk s')" "unat (DiskWrite st) = table_total snd (sp_disk s')"
    using d(3)[OF assms(2)] pair_total_nat[OF assms(6,7)] by simp_all
  have le: "table_total fst (sp_disk s) \<le> table_total fst (sp_disk s')"
    "table_total snd (sp_disk s) \<le> table_total snd (sp_disk s')"
    using assms(5) unfolding d(1) by (intro total_enter[OF assms(3) readings_distinct[OF assms(4)]]; simp)+
  have h: "sp_history s' \<noteq> []"
    using assms(1) by (auto simp: Sample_def Let_def split: prod.splits option.splits)
  then have "Latest pv' now' s' = Some (st, s')" using d(2) by (simp add: Latest_def)
  with t le show ?thesis using enter_kept[of _ "readings pv s" "sp_disk s"] distinct_enter[OF assms(3)] by (simp add: d(1))
qed

text \<open>
  C38. Without a cgroup the disk totals of a session never go down over all the samples of a run, and
  start from what was counted before: processes that are gone keep counting with their last reading,
  and those still there with their present one. The last sample is the one reported.
\<close>

theorem disk_totals_kept:
  assumes "sampler_Run views s = Some (sts, s')" and "steady views s" and "sp_cgroupDir s = []"
    and "distinct (map fst (sp_disk s))"
  shows "sorted (table_total fst (sp_disk s) # map (\<lambda>st. unat (DiskRead st)) sts) \<and>
    sorted (table_total snd (sp_disk s) # map (\<lambda>st. unat (DiskWrite st)) sts) \<and>
    length sts = length views \<and> (sts \<noteq> [] \<longrightarrow> unat (DiskRead (last sts)) = table_total fst (sp_disk s') \<and>
      unat (DiskWrite (last sts)) = table_total snd (sp_disk s') \<and> Latest pv' now' s' = Some (last sts, s')) \<and>
    (\<forall>k. k \<notin> met views s \<longrightarrow> map_of (sp_disk s') k = map_of (sp_disk s) k)"
  using assms
proof (induction views s arbitrary: sts rule: sampler_Run.induct)
  case (2 pv now views s)
  obtain st s1 where s: "Sample pv now s = Some (st, s1)" using "2.prems"(1) by (auto split: option.splits)
  obtain sts1 where r: "sampler_Run views s1 = Some (sts1, s')" "sts = st # sts1"
    using "2.prems"(1) s by auto
  have g: "\<forall>r \<in> set (readings pv s). grows fst (sp_disk s) r \<and> grows snd (sp_disk s) r"
    and d: "distinct (sample_pids pv s)" and t: "table_total fst (sp_disk s1) < 2 ^ 64" "table_total snd (sp_disk s1) < 2 ^ 64"
    and st: "steady views s1" using "2.prems"(2) s by (simp_all add: list_all_iff)
  note k = disk_step[OF s "2.prems"(3,4) d g t]
  have c: "sp_cgroupDir s1 = []" using Sample_cgroupDir[OF s] "2.prems"(3) by simp
  have "distinct (map fst (sp_disk s1))" using k by blast
  note h = "2.IH"[OF s refl r(1) st c this]
  have m: "map_of (sp_disk s') k = map_of (sp_disk s) k" if "k \<notin> met ((pv, now) # views) s" for k
  proof -
    have "k \<notin> fst ` set (readings pv s)" "k \<notin> met views s1" using that s by simp_all
    with k h show ?thesis by metis
  qed
  show ?case
  proof (cases "sts1 = []")
    case True
    then have "s' = s1" using r(1) h by simp
    then show ?thesis using k h m r(2) True by simp
  next
    case False
    then have "sorted (table_total fst (sp_disk s1) # map (\<lambda>st. unat (DiskRead st)) sts1)"
      "sorted (table_total snd (sp_disk s1) # map (\<lambda>st. unat (DiskWrite st)) sts1)" using h by blast+
    moreover have "unat (DiskRead st) = table_total fst (sp_disk s1)" "unat (DiskWrite st) = table_total snd (sp_disk s1)"
      "table_total fst (sp_disk s) \<le> table_total fst (sp_disk s1)" "table_total snd (sp_disk s) \<le> table_total snd (sp_disk s1)"
      using k by blast+
    ultimately show ?thesis using h m False unfolding r(2) by (simp only: list.map sorted2) simp
  qed
qed simp

lemma Sample_returns: "ga_inodes (gather_all pv now s) = [] \<Longrightarrow> \<exists>st s'. Sample pv now s = Some (st, s')"
  by (simp add: Sample_def Let_def case_prod_beta)

definition no_procs :: proc_view where
  "no_procs = \<lparr>pv_file = (\<lambda>_. None), pv_dir = (\<lambda>_. None), pv_link = (\<lambda>_. None), pv_diag = (\<lambda>_. []), pv_self = 1,
     pv_pagesize = 4096\<rparr>"

definition after_exit :: sampler where
  "after_exit = (NewSampler no_procs 0)\<lparr>sp_disk := [((7, 100), (4096, 512))], sp_sid := 7\<rparr>"

theorem disk_totals_kept_witness:
  "\<exists>sts s'. sampler_Run [(no_procs, 1000000000), (no_procs, 2000000000)] after_exit = Some (sts, s') \<and>
    map (\<lambda>st. unat (DiskRead st)) sts = [4096, 4096] \<and> Latest no_procs 0 s' = Some (last sts, s')"
proof -
  have step: "\<exists>st s'. Sample no_procs now s = Some (st, s') \<and> sp_disk s' = sp_disk s \<and> sp_sid s' = sp_sid s \<and>
      sp_cgroupDir s' = [] \<and> readings no_procs s = [] \<and> distinct (sample_pids no_procs s)"
    if "sp_cgroupDir s = []" for now s
  proof -
    have p: "sample_pids no_procs s = []" using that by (simp add: sample_pids_def no_procs_def sessionPids_def)
    then have "ga_inodes (gather_all no_procs now s) = []" by (simp add: gather_all_def)
    then obtain st s' where s: "Sample no_procs now s = Some (st, s')" using Sample_returns by blast
    have r: "readings no_procs s = []" by (simp add: readings_def p map_filter_simps)
    have "sp_sid s' = sp_sid s" using s by (auto simp: Sample_def Let_def split: prod.splits option.splits)
    then show ?thesis using s Sample_disk(1)[OF s] Sample_cgroupDir[OF s] that by (simp add: r p)
  qed
  have a: "sp_cgroupDir after_exit = []" "sp_disk after_exit = [((7, 100), (4096, 512))]"
    by (simp_all add: after_exit_def NewSampler_def no_procs_def)
  obtain st1 s1 where s1: "Sample no_procs 1000000000 after_exit = Some (st1, s1)" "sp_disk s1 = sp_disk after_exit"
    "sp_cgroupDir s1 = []" "readings no_procs after_exit = []" "distinct (sample_pids no_procs after_exit)"
    using step[OF a(1)] by blast
  obtain st2 s2 where s2: "Sample no_procs 2000000000 s1 = Some (st2, s2)" "sp_disk s2 = sp_disk s1"
    "readings no_procs s1 = []" "distinct (sample_pids no_procs s1)"
    using step[OF s1(3)] by blast
  let ?vs = "[(no_procs, 1000000000), (no_procs, 2000000000)]"
  have r: "sampler_Run ?vs after_exit = Some ([st1, st2], s2)" using s1(1) s2(1) by simp
  have st: "steady ?vs after_exit" using s1 s2 a(2) by (simp add: table_total_def)
  have l: "sampler_Run [(no_procs, 1000000000)] after_exit = Some ([st1], s1)" "steady [(no_procs, 1000000000)] after_exit"
    using s1 a(2) by (simp_all add: table_total_def)
  note k = disk_totals_kept[OF r st a(1), of no_procs 0] disk_totals_kept[OF l a(1), of no_procs 0]
  have "unat (DiskRead st1) = 4096" "unat (DiskRead st2) = 4096" "Latest no_procs 0 s2 = Some (st2, s2)"
    using k a(2) s1(2) s2(2) by (simp_all add: table_total_def)
  then show ?thesis using r by auto
qed

end
