(* ===== verification/SessionStart.thy ===== *)
theory SessionStart
  imports SystemdUnits HostLifecycle TTYHost GoJson
begin

text \<open>
  How a session gets from a backend to its host: the arguments and the environment both backends
  start \<open>swash host\<close> with (\<open>StartSession\<close> in \<open>internal/backend/systemd/backend.go\<close> and
  \<open>internal/backend/posix/stub.go\<close>), and what \<open>RunHost\<close> (\<open>internal/host/host.go\<close>) makes of them with
  the standard \<open>flag\<close> and \<open>encoding/json\<close> packages. \<open>RunHost\<close> ends in a \<open>launch\<close>: an error, an exit of
  the flag package, a command recorded as failed, or the run of a plain or of a terminal host.
\<close>

section \<open>Options and arguments\<close>

record session_options =
  so_Protocol :: string
  so_Tags :: fieldmap
  so_TTY :: bool
  so_Rows :: int
  so_Cols :: int
  so_WorkingDir :: string
  so_Login :: bool
  so_Limits :: limits
  so_Provenance :: fieldmap

definition DBusNamePrefix :: string where "DBusNamePrefix = ''sh.swa.Swash''"

text \<open>\<open>MustJSON\<close> of a list that is not nil, and of a map.\<close>

definition MustJSON_list :: "string list \<Rightarrow> string" where "MustJSON_list = json_list"
definition MustJSON_map :: "fieldmap \<Rightarrow> string" where "MustJSON_map m = json_map (map_pairs m)"

definition tty_args :: "session_options \<Rightarrow> string list" where
  "tty_args opts =
     (if so_TTY opts then
        [''--tty''] @ (if so_Rows opts > 0 then [''--rows'', itoa (so_Rows opts)] else []) @
        (if so_Cols opts > 0 then [''--cols'', itoa (so_Cols opts)] else [])
      else [])"

definition tags_args :: "session_options \<Rightarrow> string list" where
  "tags_args opts = (if dom (so_Tags opts) \<noteq> {} then [''--tags-json'', MustJSON_map (so_Tags opts)] else [])"

definition login_args :: "session_options \<Rightarrow> string list" where
  "login_args opts =
     (if so_Login opts then [''--login''] else []) @
     (if dom (so_Provenance opts) \<noteq> {} then [''--started-json'', MustJSON_map (so_Provenance opts)] else [])"

definition posix_args :: "string list \<Rightarrow> string \<Rightarrow> string \<Rightarrow> string list \<Rightarrow> session_options \<Rightarrow> string list" where
  "posix_args hostCommand sessionID socketPath command opts =
     hostCommand @ [''--session'', sessionID, ''--command-json'', MustJSON_list command, ''--unix-socket'', socketPath] @
     (if \<not> so_TTY opts \<and> so_Protocol opts \<noteq> [] then [''--protocol'', so_Protocol opts] else []) @
     tags_args opts @ login_args opts @ tty_args opts"

definition systemd_args :: "string list \<Rightarrow> string \<Rightarrow> string list \<Rightarrow> session_options \<Rightarrow> string list" where
  "systemd_args hostCommand sessionID command opts =
     hostCommand @ [''--session'', sessionID, ''--command-json'', MustJSON_list command] @ login_args opts @
     (if \<not> so_TTY opts \<and> so_Protocol opts \<noteq> [] \<and> so_Protocol opts \<noteq> ''shell''
      then [''--protocol'', so_Protocol opts] else []) @
     tags_args opts @ tty_args opts"

text \<open>The specification the systemd backend starts; \<open>cwd\<close> is the caller's directory.\<close>

definition systemd_spec ::
  "string list \<Rightarrow> string \<Rightarrow> string list \<Rightarrow> string \<Rightarrow> string list \<Rightarrow> session_options \<Rightarrow> process_spec" where
  "systemd_spec environ cwd hostCommand sessionID command opts =
     (let env = (if so_Login opts then Map.empty else ForwardedEnvironment environ) in
      \<lparr>sp_SessionID = sessionID, sp_Command = systemd_args hostCommand sessionID command opts,
       sp_Description = go_join command '' '',
       sp_WorkingDir = (if so_WorkingDir opts = [] then cwd else so_WorkingDir opts),
       sp_Environment = env(''SWASH_SESSION'' \<mapsto> sessionID),
       sp_BusName = DBusNamePrefix @ ''.'' @ sessionID, sp_Collect = True, sp_Limits = so_Limits opts\<rparr>)"

text \<open>The environment of a portable host.\<close>

definition loginEnvironment :: "env \<Rightarrow> string list" where
  "loginEnvironment e =
     concat (map (\<lambda>name. case e name of None \<Rightarrow> [] | Some v \<Rightarrow> [name @ ''='' @ v])
       [''HOME'', ''USER'', ''LOGNAME'', ''SHELL'', ''LANG'', ''TERM'', ''XDG_RUNTIME_DIR'']) @
     [''PATH=/usr/local/bin:/usr/bin:/bin'']"

definition posix_environment :: "string list \<Rightarrow> env \<Rightarrow> string \<Rightarrow> string \<Rightarrow> session_options \<Rightarrow> string list" where
  "posix_environment environ e eventDBPath sessionID opts =
     (if so_Login opts then loginEnvironment e else environ) @
     [''SWASH_SESSION='' @ sessionID, ''SWASH_EVENT_DB='' @ eventDBPath]"

text \<open>What a process finds in the environment it was started with: of a name, the last value.\<close>

definition process_env :: "string list \<Rightarrow> env" where
  "process_env environ = map_of (rev (List.map_filter (\<lambda>kv. go_cut kv ''='') environ))"

section \<open>Flags\<close>

text \<open>\<open>strconv.ParseBool\<close>, and \<open>ParseInt(s, 0, 64)\<close> with its prefixes and underscores.\<close>

definition parse_bool :: "string \<Rightarrow> bool option" where
  "parse_bool s =
     (if s \<in> {''1'', ''t'', ''T'', ''true'', ''TRUE'', ''True''} then Some True
      else if s \<in> {''0'', ''f'', ''F'', ''false'', ''FALSE'', ''False''} then Some False else None)"

definition num_base :: "string \<Rightarrow> nat \<times> string" where
  "num_base s =
     (case s of
        z # b # c # cs \<Rightarrow>
          if z \<noteq> CHR ''0'' then (10, s)
          else if lower b = CHR ''b'' then (2, c # cs)
          else if lower b = CHR ''o'' then (8, c # cs)
          else if lower b = CHR ''x'' then (16, c # cs) else (8, b # c # cs)
      | z # cs \<Rightarrow> if z = CHR ''0'' then (8, cs) else (10, s)
      | [] \<Rightarrow> (10, s))"

fun read_base :: "nat \<Rightarrow> nat \<Rightarrow> string \<Rightarrow> nat option" where
  "read_base b acc [] = Some acc"
| "read_base b acc (c # cs) =
     (if c = CHR ''_'' then read_base b acc cs
      else case base_digit 16 c of
        Some d \<Rightarrow> if d < b then read_base b (b * acc + d) cs else None
      | None \<Rightarrow> None)"

definition underscoreOK :: "string \<Rightarrow> bool" where
  "underscoreOK s =
     (case s of
        z # b # cs \<Rightarrow>
          if z = CHR ''0'' \<and> lower b \<in> {CHR ''b'', CHR ''o'', CHR ''x''}
          then underscores_ok (lower b = CHR ''x'') (CHR ''0'') cs
          else underscores_ok False (CHR ''^'') s
      | _ \<Rightarrow> underscores_ok False (CHR ''^'') s)"

definition parse_int0 :: "string \<Rightarrow> int option" where
  "parse_int0 s =
     (case take_sign s of (neg, t) \<Rightarrow>
        if t = [] then None
        else case num_base t of (b, ds) \<Rightarrow>
          (case read_base b 0 ds of
             None \<Rightarrow> None
           | Some n \<Rightarrow>
               if CHR ''_'' \<in> set ds \<and> \<not> underscoreOK t then None
               else if neg then (if n \<le> 2 ^ 63 then Some (- int n) else None)
               else (if n < 2 ^ 63 then Some (int n) else None)))"

record host_flags =
  hf_session :: string
  hf_command_json :: string
  hf_protocol :: string
  hf_tags_json :: string
  hf_tty :: bool
  hf_rows :: int
  hf_cols :: int
  hf_unix_socket :: string
  hf_login :: bool
  hf_started_json :: string

definition default_flags :: host_flags where
  "default_flags = \<lparr>hf_session = [], hf_command_json = [], hf_protocol = ''shell'', hf_tags_json = [],
     hf_tty = False, hf_rows = 24, hf_cols = 80, hf_unix_socket = [], hf_login = False, hf_started_json = []\<rparr>"

definition bool_flags :: "string set" where "bool_flags = {''tty'', ''login''}"

text \<open>Setting a flag: \<open>None\<close> for a flag that is not defined, \<open>Some None\<close> for a bad value.\<close>

definition set_flag :: "string \<Rightarrow> string \<Rightarrow> host_flags \<Rightarrow> host_flags option option" where
  "set_flag name v f =
     (if name = ''session'' then Some (Some (f\<lparr>hf_session := v\<rparr>))
      else if name = ''command-json'' then Some (Some (f\<lparr>hf_command_json := v\<rparr>))
      else if name = ''protocol'' then Some (Some (f\<lparr>hf_protocol := v\<rparr>))
      else if name = ''tags-json'' then Some (Some (f\<lparr>hf_tags_json := v\<rparr>))
      else if name = ''tty'' then Some (map_option (\<lambda>b. f\<lparr>hf_tty := b\<rparr>) (parse_bool v))
      else if name = ''rows'' then Some (map_option (\<lambda>n. f\<lparr>hf_rows := n\<rparr>) (parse_int0 v))
      else if name = ''cols'' then Some (map_option (\<lambda>n. f\<lparr>hf_cols := n\<rparr>) (parse_int0 v))
      else if name = ''unix-socket'' then Some (Some (f\<lparr>hf_unix_socket := v\<rparr>))
      else if name = ''login'' then Some (map_option (\<lambda>b. f\<lparr>hf_login := b\<rparr>) (parse_bool v))
      else if name = ''started-json'' then Some (Some (f\<lparr>hf_started_json := v\<rparr>))
      else None)"

text \<open>The text behind one or two dashes; \<open>None\<close> where the flags end.\<close>

definition flag_text :: "string \<Rightarrow> string option" where
  "flag_text s =
     (if length s < 2 \<or> hd s \<noteq> CHR ''-'' then None
      else if s ! 1 = CHR ''-'' then (if length s = 2 then None else Some (drop 2 s))
      else Some (drop 1 s))"

text \<open>\<open>Parse\<close> with \<open>ExitOnError\<close>: the flags, or the status the process exits with.\<close>

fun parse_flags :: "host_flags \<Rightarrow> string list \<Rightarrow> int + host_flags" where
  "parse_flags f [] = Inr f"
| "parse_flags f (a # rest) =
     (case flag_text a of
        None \<Rightarrow> Inr f
      | Some t \<Rightarrow>
          if t = [] \<or> hd t = CHR ''-'' \<or> hd t = CHR ''='' then Inl 2
          else let (name, given) = (case go_cut t ''='' of None \<Rightarrow> (t, None) | Some (n, v) \<Rightarrow> (n, Some v)) in
            if set_flag name [] f = None then Inl (if name = ''help'' \<or> name = ''h'' then 0 else 2)
            else if name \<in> bool_flags then
              (case set_flag name (case given of Some v \<Rightarrow> v | None \<Rightarrow> ''true'') f of
                 Some (Some f') \<Rightarrow> parse_flags f' rest | _ \<Rightarrow> Inl 2)
            else case given of
              Some v \<Rightarrow> (case set_flag name v f of Some (Some f') \<Rightarrow> parse_flags f' rest | _ \<Rightarrow> Inl 2)
            | None \<Rightarrow>
                (case rest of
                   [] \<Rightarrow> Inl 2
                 | v # rest' \<Rightarrow> (case set_flag name v f of Some (Some f') \<Rightarrow> parse_flags f' rest' | _ \<Rightarrow> Inl 2)))"

section \<open>The entry of the host\<close>

datatype launch_error =
  MissingFlags | BadCommand | BadTags | BadStarted | MissingEventDB | LogNotOpened string

text \<open>
  A failed start has the arguments of \<open>failedStartResult\<close>; a run has the control socket it serves, if
  any, and the configuration of its host.
\<close>

datatype launch =
    LaunchError launch_error
  | LaunchExit int
  | LaunchFailed string "string list" fieldmap fieldmap string
  | LaunchHost "string option" host_config
  | LaunchTTY "string option" string "string list" int int fieldmap fieldmap

text \<open>\<open>resolveCommand\<close>; \<open>look\<close> is \<open>exec.LookPath\<close>.\<close>

definition resolveCommand :: "(string \<Rightarrow> string option) \<Rightarrow> string list \<Rightarrow> string option" where
  "resolveCommand look command =
     (case command of [] \<Rightarrow> Some ''executable file not found in $PATH'' | c # _ \<Rightarrow> look c)"

definition protocol_of :: "string \<Rightarrow> protocol" where
  "protocol_of s = (if s = ''sse'' then ProtocolSSE else ProtocolShell)"

definition json_flag :: "string \<Rightarrow> fieldmap option" where
  "json_flag s = (if s = [] then Some Map.empty else Unmarshal_map s)"

text \<open>From the parsed command to the run, once the log is open.\<close>

definition launch_command ::
  "(string \<Rightarrow> string option) \<Rightarrow> string option \<Rightarrow> host_flags \<Rightarrow> string list \<Rightarrow> fieldmap \<Rightarrow> fieldmap \<Rightarrow> launch" where
  "launch_command look socket f command tags started =
     (case resolveCommand look command of
        Some err \<Rightarrow> LaunchFailed (hf_session f) command tags started err
      | None \<Rightarrow>
          if hf_tty f then LaunchTTY socket (hf_session f) command (hf_rows f) (hf_cols f) tags started
          else LaunchHost socket (NewHost (hf_session f) command (protocol_of (hf_protocol f)) tags started))"

text \<open>
  \<open>RunHost\<close> for the arguments of the process, \<open>swash host\<close> first, in its environment \<open>e\<close>: \<open>shell\<close> is the login shell
  and \<open>open_log\<close> says why the event log, the database of the path given or the journal of the
  system, cannot be opened.
\<close>

definition RunHost ::
  "(string \<Rightarrow> string option) \<Rightarrow> string \<Rightarrow> (string option \<Rightarrow> string option) \<Rightarrow> env \<Rightarrow> string list \<Rightarrow> launch" where
  "RunHost look shell open_log e os_args =
     (case parse_flags default_flags (drop 2 os_args) of
        Inl status \<Rightarrow> LaunchExit status
      | Inr f \<Rightarrow>
          if hf_session f = [] \<or> hf_command_json f = [] then LaunchError MissingFlags
          else case Unmarshal_list (hf_command_json f) of
            None \<Rightarrow> LaunchError BadCommand
          | Some command \<Rightarrow>
              (case json_flag (hf_tags_json f) of
                 None \<Rightarrow> LaunchError BadTags
               | Some tags \<Rightarrow>
                   (case json_flag (hf_started_json f) of
                      None \<Rightarrow> LaunchError BadStarted
                    | Some started \<Rightarrow>
                        let command = (if hf_login f then LoginCommand shell command else command) in
                        if hf_unix_socket f \<noteq> [] then
                          let db = getenv e ''SWASH_EVENT_DB'' in
                          if db = [] then LaunchError MissingEventDB
                          else case open_log (Some db) of
                            Some err \<Rightarrow> LaunchError (LogNotOpened err)
                          | None \<Rightarrow> launch_command look (Some (hf_unix_socket f)) f command tags started
                        else case open_log None of
                            Some err \<Rightarrow> LaunchError (LogNotOpened err)
                          | None \<Rightarrow> launch_command look None f command tags started)))"

section \<open>Flags read back\<close>

lemma read_base_digits: "parse_digits acc s = Some n \<Longrightarrow> read_base 10 acc s = Some n"
proof (induction s arbitrary: acc)
  case (Cons c cs)
  then obtain d where d: "digit_val c = Some d" by (auto split: option.splits)
  then have "c \<noteq> CHR ''_''" "d < 10" by (auto simp: digit_val_def Let_def split: if_splits)
  with Cons d show ?case by (simp add: base_digit_def)
qed simp

lemma itoa_base_hd: "0 < n \<Longrightarrow> hd (itoa_base 10 n) \<noteq> CHR ''0''"
proof (induction n rule: less_induct)
  case (less n)
  show ?case
  proof (cases "n < 10")
    case True
    with less.prems have "(of_char (digit_char n) :: nat) \<noteq> 48" by (simp add: of_char_digit)
    then have "digit_char n \<noteq> CHR ''0''" by auto
    with True show ?thesis by (simp add: itoa_base.simps[of 10 n])
  next
    case False
    with less.IH[of "n div 10"] have "hd (itoa_base 10 (n div 10)) \<noteq> CHR ''0''" by simp
    then show ?thesis using False by (simp add: itoa_base.simps[of 10 n])
  qed
qed

lemma parse_int0_itoa:
  assumes "0 < i" and "i < 2 ^ 63"
  shows "parse_int0 (itoa i) = Some i"
proof -
  define ds where "ds = itoa_base 10 (nat i)"
  have i: "itoa i = ds" using assms by (simp add: itoa_def format_uint_def ds_def)
  have dg: "\<forall>c \<in> set ds. \<exists>d < 10. c = digit_char d" using itoa_base_digits by (simp add: ds_def)
  have p: "CHR ''_'' \<notin> set ds" "CHR ''-'' \<notin> set ds" "CHR ''+'' \<notin> set ds"
    using format_uint_notin[of _ "nat i"] by (simp_all add: ds_def format_uint_def)
  have ne: "ds \<noteq> []" by (simp add: ds_def)
  have hd0: "hd ds \<noteq> CHR ''0''" using itoa_base_hd[of "nat i"] assms(1) by (simp add: ds_def)
  have b: "num_base ds = (10, ds)" using ne hd0 by (cases ds rule: remdups_adj.cases) (auto simp: num_base_def split: list.splits)
  have r: "read_base 10 0 ds = Some (nat i)" using read_base_digits[OF parse_digits_itoa] by (simp add: ds_def)
  have s: "take_sign ds = (False, ds)" using ne p(2,3) by (cases ds) (auto simp: take_sign_def)
  show ?thesis using assms by (simp add: parse_int0_def i s ne b r p(1))
qed

lemmas flag_defs = flag_text_def set_flag_def bool_flags_def has_prefix_def

lemma flag_steps:
  "parse_flags f (''--session'' # v # rest) = parse_flags (f\<lparr>hf_session := v\<rparr>) rest"
  "parse_flags f (''--command-json'' # v # rest) = parse_flags (f\<lparr>hf_command_json := v\<rparr>) rest"
  "parse_flags f (''--unix-socket'' # v # rest) = parse_flags (f\<lparr>hf_unix_socket := v\<rparr>) rest"
  "parse_flags f (''--protocol'' # v # rest) = parse_flags (f\<lparr>hf_protocol := v\<rparr>) rest"
  "parse_flags f (''--tags-json'' # v # rest) = parse_flags (f\<lparr>hf_tags_json := v\<rparr>) rest"
  "parse_flags f (''--started-json'' # v # rest) = parse_flags (f\<lparr>hf_started_json := v\<rparr>) rest"
  "parse_flags f (''--login'' # rest) = parse_flags (f\<lparr>hf_login := True\<rparr>) rest"
  "parse_flags f (''--tty'' # rest) = parse_flags (f\<lparr>hf_tty := True\<rparr>) rest"
  by (simp_all add: flag_defs parse_bool_def)

lemma size_steps:
  assumes "0 < i" and "i < 2 ^ 63"
  shows "parse_flags f (''--rows'' # itoa i # rest) = parse_flags (f\<lparr>hf_rows := i\<rparr>) rest"
    and "parse_flags f (''--cols'' # itoa i # rest) = parse_flags (f\<lparr>hf_cols := i\<rparr>) rest"
  using parse_int0_itoa[OF assms] by (simp_all add: flag_defs)

declare parse_flags.simps(2) [simp del]

section \<open>What the host gets\<close>

definition texts_ok :: "fieldmap \<Rightarrow> bool" where
  "texts_ok m \<longleftrightarrow> finite (dom m) \<and> (\<forall>(k, v) \<in> Map.graph m. utf8_ok k \<and> utf8_ok v)"

lemma map_pairs_graph: "finite (dom m) \<Longrightarrow> set (map_pairs m) = Map.graph m"
  by (auto simp: map_pairs_def Map.graph_def image_iff dom_def split: option.splits)

lemma map_pairs_distinct: "distinct (map fst (map_pairs m))"
  by (simp add: map_pairs_def comp_def)

lemma MustJSON_map_read: "texts_ok m \<Longrightarrow> Unmarshal_map (MustJSON_map m) = Some m"
proof -
  assume ok: "texts_ok m"
  have "map (\<lambda>(k, v). (json_text k, json_text v)) (map_pairs m) = map_pairs m"
    using ok map_pairs_graph[of m] by (intro map_idI) (auto simp: texts_ok_def json_text_ok)
  moreover have "map_of (rev (map_pairs m)) = m"
    using map_of_pairs[of m] map_pairs_distinct[of m] ok
      map_of_inject_set[of "rev (map_pairs m)" "map_pairs m"]
    by (simp add: texts_ok_def rev_map[symmetric])
  ultimately show ?thesis by (simp add: MustJSON_map_def Unmarshal_json_map)
qed

lemma MustJSON_list_read: "list_all utf8_ok xs \<Longrightarrow> Unmarshal_list (MustJSON_list xs) = Some xs"
proof -
  assume "list_all utf8_ok xs"
  then have "map json_text xs = xs" by (intro map_idI) (auto simp: list_all_iff json_text_ok)
  then show ?thesis by (simp add: MustJSON_list_def Unmarshal_json_list)
qed

lemma MustJSON_not_Nil: "MustJSON_map m \<noteq> []" "MustJSON_list xs \<noteq> []"
  by (simp_all add: MustJSON_map_def MustJSON_list_def json_map_def json_list_def)

text \<open>The flags a host should be given for a session.\<close>

definition session_flags :: "string \<Rightarrow> string \<Rightarrow> string list \<Rightarrow> session_options \<Rightarrow> host_flags" where
  "session_flags socket sessionID command opts =
     \<lparr>hf_session = sessionID, hf_command_json = MustJSON_list command,
      hf_protocol = (if so_TTY opts \<or> so_Protocol opts = [] then ''shell'' else so_Protocol opts),
      hf_tags_json = (if dom (so_Tags opts) \<noteq> {} then MustJSON_map (so_Tags opts) else []),
      hf_tty = so_TTY opts, hf_rows = (if so_TTY opts \<and> so_Rows opts > 0 then so_Rows opts else 24),
      hf_cols = (if so_TTY opts \<and> so_Cols opts > 0 then so_Cols opts else 80),
      hf_unix_socket = socket, hf_login = so_Login opts,
      hf_started_json = (if dom (so_Provenance opts) \<noteq> {} then MustJSON_map (so_Provenance opts) else [])\<rparr>"

definition sizes_ok :: "session_options \<Rightarrow> bool" where
  "sizes_ok opts \<longleftrightarrow> so_Rows opts < 2 ^ 63 \<and> so_Cols opts < 2 ^ 63"

lemma tty_flags:
  assumes "sizes_ok opts"
  shows "parse_flags f (tty_args opts) = Inr (f\<lparr>hf_tty := so_TTY opts \<or> hf_tty f,
    hf_rows := (if so_TTY opts \<and> so_Rows opts > 0 then so_Rows opts else hf_rows f),
    hf_cols := (if so_TTY opts \<and> so_Cols opts > 0 then so_Cols opts else hf_cols f)\<rparr>)"
  using assms by (simp add: tty_args_def sizes_ok_def flag_steps size_steps)

lemma posix_flags:
  assumes "sizes_ok opts" and "length host = 2"
  shows "parse_flags default_flags (drop 2 (posix_args host sessionID socket command opts)) =
    Inr (session_flags socket sessionID command opts)"
  using assms(2) by (simp add: posix_args_def tags_args_def login_args_def flag_steps tty_flags[OF assms(1)]
    session_flags_def default_flags_def)

lemma systemd_flags:
  assumes "sizes_ok opts" and "length host = 2"
  shows "parse_flags default_flags (drop 2 (systemd_args host sessionID command opts)) =
    Inr (session_flags [] sessionID command opts)"
  using assms(2) by (simp add: systemd_args_def tags_args_def login_args_def flag_steps tty_flags[OF assms(1)]
    session_flags_def default_flags_def)

text \<open>The run that a session of either backend is meant to be.\<close>

definition session_launch ::
  "(string \<Rightarrow> string option) \<Rightarrow> string \<Rightarrow> string option \<Rightarrow> string \<Rightarrow> string list \<Rightarrow> session_options \<Rightarrow> launch" where
  "session_launch look shell socket sessionID command opts =
     (let command = (if so_Login opts then LoginCommand shell command else command) in
      case resolveCommand look command of
        Some err \<Rightarrow> LaunchFailed sessionID command (so_Tags opts) (so_Provenance opts) err
      | None \<Rightarrow>
          if so_TTY opts then
            LaunchTTY socket sessionID command (if so_Rows opts > 0 then so_Rows opts else 24)
              (if so_Cols opts > 0 then so_Cols opts else 80) (so_Tags opts) (so_Provenance opts)
          else LaunchHost socket
            (NewHost sessionID command (protocol_of (so_Protocol opts)) (so_Tags opts) (so_Provenance opts)))"

lemma launch_session:
  assumes "list_all utf8_ok command" and "texts_ok (so_Tags opts)" and "texts_ok (so_Provenance opts)"
    and "sessionID \<noteq> []" and "parse_flags default_flags (drop 2 args) = Inr (session_flags socket sessionID command opts)"
    and "socket \<noteq> [] \<Longrightarrow> getenv e ''SWASH_EVENT_DB'' \<noteq> []" and "\<And>db. open_log db = None"
  shows "RunHost look shell open_log e args =
    session_launch look shell (if socket = [] then None else Some socket) sessionID command opts"
proof -
  define f where "f = session_flags socket sessionID command opts"
  have j: "json_flag (hf_tags_json f) = Some (so_Tags opts)" "json_flag (hf_started_json f) = Some (so_Provenance opts)"
    using assms(2,3) by (simp_all add: json_flag_def f_def session_flags_def MustJSON_map_read MustJSON_not_Nil)
  have sel: "hf_session f = sessionID" "hf_command_json f = MustJSON_list command" "hf_tty f = so_TTY opts"
    "hf_login f = so_Login opts" "hf_unix_socket f = socket"
    "so_TTY opts \<Longrightarrow> hf_rows f = (if so_Rows opts > 0 then so_Rows opts else 24)"
    "so_TTY opts \<Longrightarrow> hf_cols f = (if so_Cols opts > 0 then so_Cols opts else 80)"
    "\<not> so_TTY opts \<Longrightarrow> protocol_of (hf_protocol f) = protocol_of (so_Protocol opts)"
    by (simp_all add: f_def session_flags_def protocol_of_def)
  define cmd where "cmd = (if so_Login opts then LoginCommand shell command else command)"
  have "launch_command look s f cmd (so_Tags opts) (so_Provenance opts) =
      session_launch look shell s sessionID command opts" for s
    unfolding launch_command_def session_launch_def Let_def cmd_def[symmetric] using sel
    by (simp split: option.split)
  then show ?thesis
    unfolding RunHost_def assms(5) f_def[symmetric]
    using assms(4,6,7) j MustJSON_list_read[OF assms(1)] MustJSON_not_Nil(2)[of command]
    by (simp add: sel(1,2,4,5) cmd_def[symmetric])
qed

lemma posix_event_db:
  "getenv (process_env (posix_environment environ e db sessionID opts)) ''SWASH_EVENT_DB'' = db"
proof -
  have "go_cut (''SWASH_EVENT_DB='' @ db) ''='' = Some (''SWASH_EVENT_DB'', db)"
    using go_cut_single[of "CHR ''=''" "''SWASH_EVENT_DB''" db] by simp
  then show ?thesis
    by (simp add: process_env_def posix_environment_def List.map_filter_def getenv_def)
qed


definition sample_options :: session_options where
  "sample_options = \<lparr>so_Protocol = ''sse'', so_Tags = [''PROJECT'' \<mapsto> ''a $b''], so_TTY = False, so_Rows = 0, so_Cols = 0,
     so_WorkingDir = [], so_Login = True, so_Limits = noLimits, so_Provenance = Map.empty\<rparr>"

lemma ascii_literals: "utf8_ok ''echo''" "utf8_ok ''$HOME''" "utf8_ok ''PROJECT''" "utf8_ok ''a $b''"
  by (simp_all add: ascii_ok)


end
