(* ===== verification/PosixBackend.thy ===== *)
theory PosixBackend
  imports SessionStart GoPaths
begin

text \<open>
  The portable backend, \<open>internal/backend/posix/stub.go\<close>, and the directories it works in,
  \<open>internal/dirs/dirs.go\<close>: the paths of a session, its record in \<open>meta.json\<close>, starting a session and
  waiting until its host is ready, listing, stopping and killing. The state is the directory of
  the sessions, the processes started and the signals sent; what the system answers is a parameter.
  Output, following and history of both backends are in \<open>SessionLog\<close>, the client of the control
  socket is in \<open>ControlSocket\<close>.
\<close>

section \<open>Directories\<close>

text \<open>\<open>user\<close>: name and identifier of the current user, where they are known.\<close>

definition StateDir :: "env \<Rightarrow> string \<Rightarrow> string" where
  "StateDir e tempDir =
     (if getenv e ''SWASH_STATE_DIR'' \<noteq> [] then getenv e ''SWASH_STATE_DIR''
      else if getenv e ''XDG_STATE_HOME'' \<noteq> [] then path_join [getenv e ''XDG_STATE_HOME'', ''swash'']
      else if getenv e ''HOME'' \<noteq> [] then path_join [getenv e ''HOME'', ''.local'', ''state'', ''swash'']
      else path_join [tempDir, ''swash-state''])"

definition findRuntimeBase :: "env \<Rightarrow> bool \<Rightarrow> (string \<times> string) option \<Rightarrow> (string \<Rightarrow> bool) \<Rightarrow> string" where
  "findRuntimeBase e freebsd user is_dir =
     (if getenv e ''XDG_RUNTIME_DIR'' \<noteq> [] then getenv e ''XDG_RUNTIME_DIR''
      else case user of None \<Rightarrow> []
      | Some (name, uid) \<Rightarrow>
          let candidates = (if freebsd then [path_join [''/var/run/xdg'', name]] else []) @
                [path_join [''/run/user'', uid], path_join [''/var/run/user'', uid]]
          in case filter is_dir candidates of [] \<Rightarrow> [] | d # _ \<Rightarrow> d)"

definition RuntimeDir ::
  "env \<Rightarrow> string \<Rightarrow> bool \<Rightarrow> (string \<times> string) option \<Rightarrow> (string \<Rightarrow> bool) \<Rightarrow> string" where
  "RuntimeDir e tempDir freebsd user is_dir =
     (if getenv e ''SWASH_RUNTIME_DIR'' \<noteq> [] then getenv e ''SWASH_RUNTIME_DIR''
      else let base = findRuntimeBase e freebsd user is_dir in
        if base \<noteq> [] then path_join [base, ''swash'']
        else path_join [tempDir, ''swash-'' @ (case user of Some (name, _) \<Rightarrow> name | None \<Rightarrow> ''unknown'')])"

section \<open>Paths\<close>

definition conservativeUnixSocketPathLimit :: nat where "conservativeUnixSocketPathLimit = 100"

text \<open>\<open>digest\<close> is the SHA-256 of a text; the name has its first six bytes in hexadecimal.\<close>

definition unixSocketPath :: "(string \<Rightarrow> string) \<Rightarrow> string \<Rightarrow> string \<Rightarrow> string \<Rightarrow> string" where
  "unixSocketPath digest tempDir runtimeDir name =
     (let candidate = path_join [runtimeDir, name] in
      if length candidate \<le> conservativeUnixSocketPathLimit then candidate
      else let shortName = ''swash-'' @ hex_string (take 6 (digest runtimeDir)) @ ''-'' @ name;
               candidate = path_join [tempDir, shortName] in
        if length candidate \<le> conservativeUnixSocketPathLimit then candidate
        else path_join [''/tmp'', shortName])"

record posix_config =
  pc_RuntimeDir :: string
  pc_StateDir :: string
  pc_HostCommand :: "string list"
  pc_tempDir :: string
  pc_digest :: "string \<Rightarrow> string"

definition eventDBPath :: "posix_config \<Rightarrow> string" where
  "eventDBPath b = path_join [pc_StateDir b, ''events.db'']"

definition sessionDir :: "posix_config \<Rightarrow> string \<Rightarrow> string" where
  "sessionDir b sessionID = path_join [pc_RuntimeDir b, ''sessions'', sessionID]"

definition metaPath :: "posix_config \<Rightarrow> string \<Rightarrow> string" where
  "metaPath b sessionID = path_join [sessionDir b sessionID, ''meta.json'']"

definition socketPath :: "posix_config \<Rightarrow> string \<Rightarrow> string" where
  "socketPath b sessionID = unixSocketPath (pc_digest b) (pc_tempDir b) (pc_RuntimeDir b) (sessionID @ ''.sock'')"

definition hostLogPath :: "posix_config \<Rightarrow> string \<Rightarrow> string" where
  "hostLogPath b sessionID = path_join [sessionDir b sessionID, ''host.log'']"

section \<open>State\<close>

record px_meta =
  m_ID :: string
  m_Command :: "string list"
  m_Started :: string
  m_PID :: int
  m_TTY :: bool
  m_Rows :: int
  m_Cols :: int
  m_SocketPath :: string

text \<open>Text that went through the JSON file.\<close>

definition stored_meta :: "px_meta \<Rightarrow> px_meta" where
  "stored_meta m = m\<lparr>m_ID := json_text (m_ID m), m_Command := map json_text (m_Command m),
     m_Started := json_text (m_Started m), m_SocketPath := json_text (m_SocketPath m)\<rparr>"

text \<open>
  An entry of the directory of the sessions: a file, or a directory with the record that can be read
  from it, if one can.
\<close>

datatype px_entry = OtherFile | SessionEntry "px_meta option"

record px_process =
  pp_args :: "string list"
  pp_dir :: string
  pp_env :: "string list"

text \<open>\<open>pw_root\<close>: the entries of the directory of the sessions, \<open>None\<close> where there is none.\<close>

record px_world =
  pw_root :: "(string \<times> px_entry) list option"
  pw_started :: "px_process list"
  pw_signals :: "(int \<times> int) list"

definition dir_entries :: "px_world \<Rightarrow> (string \<times> px_entry) list" where
  "dir_entries w = (case pw_root w of None \<Rightarrow> [] | Some es \<Rightarrow> es)"

definition put_entry :: "string \<Rightarrow> px_entry \<Rightarrow> px_world \<Rightarrow> px_world" where
  "put_entry sessionID x w =
     w\<lparr>pw_root := Some (filter (\<lambda>(n, _). n < sessionID) (dir_entries w) @ (sessionID, x) #
       filter (\<lambda>(n, _). sessionID < n) (dir_entries w))\<rparr>"

datatype px_error =
    NoMeta
  | NoPID string
  | KillError string
  | MkdirError string
  | LogError string
  | StartError string
  | NotReadyYet string
  | ListError string
  | MetaError string

definition readMeta :: "string \<Rightarrow> px_world \<Rightarrow> px_meta option" where
  "readMeta sessionID w =
     (case map_of (dir_entries w) sessionID of Some (SessionEntry m) \<Rightarrow> m | _ \<Rightarrow> None)"

text \<open>\<open>fail\<close>: why the file cannot be written.\<close>

definition writeMeta :: "string option \<Rightarrow> px_meta \<Rightarrow> (px_error, px_world, unit) eff" where
  "writeMeta err m w =
     (case err of Some e \<Rightarrow> (Inl (MetaError e), w) | None \<Rightarrow> (Inr (), put_entry (m_ID m) (SessionEntry (Some (stored_meta m))) w))"

text \<open>\<open>kill pid sig\<close> is the error of the system call, if any.\<close>

definition pidAlive :: "(int \<Rightarrow> int \<Rightarrow> string option) \<Rightarrow> int \<Rightarrow> bool" where
  "pidAlive kill pid = (pid > 0 \<and> kill pid 0 = None)"

definition send_signal :: "(int \<Rightarrow> int \<Rightarrow> string option) \<Rightarrow> int \<Rightarrow> int \<Rightarrow> (px_error, px_world, unit) eff" where
  "send_signal kill pid sig w =
     (case kill pid sig of Some e \<Rightarrow> Inl (KillError e) | None \<Rightarrow> Inr (), w\<lparr>pw_signals := pw_signals w @ [(pid, sig)]\<rparr>)"

section \<open>Listing\<close>

record px_session =
  se_ID :: string
  se_Backend :: string
  se_Handle :: string
  se_PID :: u32
  se_CWD :: string
  se_Status :: string
  se_Command :: string
  se_Started :: string

definition session_of_meta :: "px_meta \<Rightarrow> px_session" where
  "session_of_meta m = \<lparr>se_ID = m_ID m, se_Backend = ''posix'', se_Handle = m_SocketPath m,
     se_PID = of_int (m_PID m), se_CWD = [], se_Status = ''running'',
     se_Command = go_join (m_Command m) '' '', se_Started = m_Started m\<rparr>"

definition listed_meta :: "(int \<Rightarrow> int \<Rightarrow> string option) \<Rightarrow> string \<times> px_entry \<Rightarrow> px_meta option" where
  "listed_meta kill ne =
     (case snd ne of
        SessionEntry (Some m) \<Rightarrow> if pidAlive kill (m_PID m) then Some m else None
      | _ \<Rightarrow> None)"

text \<open>\<open>err\<close>: why the directory cannot be read, other than that it does not exist.\<close>

definition ListSessions ::
  "(int \<Rightarrow> int \<Rightarrow> string option) \<Rightarrow> string option \<Rightarrow> px_world \<Rightarrow> px_error + px_session list" where
  "ListSessions kill err w =
     (case err of
        Some e \<Rightarrow> Inl (ListError e)
      | None \<Rightarrow>
          Inr (sort_key se_ID (map session_of_meta (List.map_filter (listed_meta kill) (dir_entries w)))))"

section \<open>Starting\<close>

text \<open>
  What one pass of the loop in \<open>waitReady\<close> sees: whether the context is over, the clock in
  nanoseconds, whether the socket is there and a client gets an answer through it, whether the
  started event is in the log, and whether the process of the host can be signalled.
\<close>

record wait_obs =
  wo_ctx :: "string option"
  wo_now :: int
  wo_socket :: bool
  wo_gist :: bool
  wo_started :: bool
  wo_alive :: bool

fun waitReady :: "nat \<Rightarrow> (nat \<Rightarrow> wait_obs) \<Rightarrow> nat \<Rightarrow> int \<Rightarrow> (string + unit) option" where
  "waitReady 0 obs i deadline = None"
| "waitReady (Suc n) obs i deadline =
     (let o' = obs i in
      case wo_ctx o' of
        Some e \<Rightarrow> Some (Inl e)
      | None \<Rightarrow>
          if wo_now o' > deadline then Some (Inl ''timeout waiting for host socket'')
          else if wo_socket o' \<and> wo_gist o' then Some (Inr ())
          else if wo_started o' then Some (Inr ())
          else if \<not> wo_alive o' then Some (Inl ''host process exited before writing any events'')
          else waitReady n obs (i + 1) deadline)"

definition hasSessionStarted ::
  "(event_filter list \<Rightarrow> string \<Rightarrow> 'w \<Rightarrow> log_error + (event_record list \<times> string)) \<Rightarrow> string \<Rightarrow> 'w \<Rightarrow> bool" where
  "hasSessionStarted poll sessionID w =
     (case poll [FilterBySession sessionID, FilterByEvent EventStarted] [] w of
        Inl _ \<Rightarrow> False | Inr (entries, _) \<Rightarrow> entries \<noteq> [])"

text \<open>What the system answers while a session is started.\<close>

record start_env =
  sv_random :: "u8 list"
  sv_mkdir :: "string option"
  sv_log :: "string option"
  sv_start :: "string + int"
  sv_now :: string
  sv_meta :: "string option"
  sv_environ :: "string list"
  sv_env :: env
  sv_time :: int
  sv_obs :: "nat \<Rightarrow> wait_obs"
  sv_host_log :: "string option"

definition mkdir_session :: "string option \<Rightarrow> string \<Rightarrow> (px_error, px_world, unit) eff" where
  "mkdir_session err sessionID w =
     (case err of
        Some e \<Rightarrow> (Inl (MkdirError e), w)
      | None \<Rightarrow> (Inr (),
          if map_of (dir_entries w) sessionID = None then put_entry sessionID (SessionEntry None) w else w))"

definition start_process :: "string + int \<Rightarrow> px_process \<Rightarrow> (px_error, px_world, int) eff" where
  "start_process res p w =
     (case res of Inl e \<Rightarrow> (Inl (StartError e), w) | Inr pid \<Rightarrow> (Inr pid, w\<lparr>pw_started := pw_started w @ [p]\<rparr>))"

text \<open>The error of a host that does not get ready, with what it wrote to its log.\<close>

definition wait_error :: "string option \<Rightarrow> string \<Rightarrow> string" where
  "wait_error host_log err =
     (case host_log of
        Some text \<Rightarrow> if text \<noteq> [] then err @ ''; host log: '' @ trim_space text else err
      | None \<Rightarrow> err)"

text \<open>
  \<open>StartSession\<close>; \<open>n\<close> bounds the passes of the waiting loop. A record that cannot be written is not an
  error of the code.
\<close>

definition px_record :: "posix_config \<Rightarrow> start_env \<Rightarrow> string list \<Rightarrow> session_options \<Rightarrow> int \<Rightarrow> px_meta" where
  "px_record b sv command opts pid =
     \<lparr>m_ID = GenID (sv_random sv), m_Command = command, m_Started = sv_now sv, m_PID = pid, m_TTY = so_TTY opts,
      m_Rows = so_Rows opts, m_Cols = so_Cols opts, m_SocketPath = socketPath b (GenID (sv_random sv))\<rparr>"

definition px_host :: "posix_config \<Rightarrow> start_env \<Rightarrow> string list \<Rightarrow> session_options \<Rightarrow> px_process" where
  "px_host b sv command opts =
     (let sessionID = GenID (sv_random sv) in
      \<lparr>pp_args = posix_args (pc_HostCommand b) sessionID (socketPath b sessionID) command opts,
       pp_dir = so_WorkingDir opts,
       pp_env = posix_environment (sv_environ sv) (sv_env sv) (eventDBPath b) sessionID opts\<rparr>)"

definition StartSession ::
  "nat \<Rightarrow> posix_config \<Rightarrow> start_env \<Rightarrow> string list \<Rightarrow> session_options \<Rightarrow> (px_error, px_world, string option) eff" where
  "StartSession n b sv command opts =
     (let sessionID = GenID (sv_random sv) in
      thenE (mkdir_session (sv_mkdir sv) sessionID)
      (thenE (case sv_log sv of Some e \<Rightarrow> failE (LogError e) | None \<Rightarrow> returnE ())
      (bindE (start_process (sv_start sv) (px_host b sv command opts)) (\<lambda>pid.
       thenE (ignoreE (writeMeta (sv_meta sv) (px_record b sv command opts pid)))
       (case waitReady n (sv_obs sv) 0 (sv_time sv + 5000000000) of
          None \<Rightarrow> returnE None
        | Some (Inl err) \<Rightarrow> failE (NotReadyYet (wait_error (sv_host_log sv) err))
        | Some (Inr _) \<Rightarrow> returnE (Some sessionID))))))"

section \<open>Stopping and reaching a session\<close>

definition StopSession :: "(int \<Rightarrow> int \<Rightarrow> string option) \<Rightarrow> string \<Rightarrow> (px_error, px_world, unit) eff" where
  "StopSession kill sessionID w =
     (case readMeta sessionID w of
        None \<Rightarrow> (Inl NoMeta, w)
      | Some m \<Rightarrow> if m_PID m \<le> 0 then (Inl (NoPID sessionID), w) else send_signal kill (m_PID m) 15 w)"

text \<open>\<open>connect\<close> opens a client on a socket, after the socket was found.\<close>

definition ConnectSession ::
  "posix_config \<Rightarrow> (string \<Rightarrow> string option) \<Rightarrow> (string \<Rightarrow> string \<Rightarrow> string + 'c) \<Rightarrow> string \<Rightarrow> string + 'c" where
  "ConnectSession b stat connect sessionID =
     (case stat (socketPath b sessionID) of Some e \<Rightarrow> Inl e | None \<Rightarrow> connect sessionID (socketPath b sessionID))"

text \<open>\<open>client\<close> is what \<open>Kill\<close> over the control socket answers, where a client could be had.\<close>

definition KillSession ::
  "(int \<Rightarrow> int \<Rightarrow> string option) \<Rightarrow> string + string option \<Rightarrow> string \<Rightarrow> (px_error, px_world, unit) eff" where
  "KillSession kill client sessionID w =
     (case client of
        Inr None \<Rightarrow> (Inr (), w)
      | _ \<Rightarrow> (case readMeta sessionID w of None \<Rightarrow> (Inl NoMeta, w) | Some m \<Rightarrow> send_signal kill (m_PID m) 9 w))"

definition px_SendInput ::
  "string + 'c \<Rightarrow> ('c \<Rightarrow> string \<Rightarrow> string + nat) \<Rightarrow> string \<Rightarrow> string + nat" where
  "px_SendInput client send input = (case client of Inl e \<Rightarrow> Inl e | Inr c \<Rightarrow> send c input)"

text \<open>The screen of a running session, else the last one in the log.\<close>

definition px_GetScreen ::
  "(event_filter list \<Rightarrow> string \<Rightarrow> 'w \<Rightarrow> log_error + (event_record list \<times> string)) \<Rightarrow>
   string + (string + string) \<Rightarrow> string \<Rightarrow> 'w \<Rightarrow> screen_error + string" where
  "px_GetScreen poll client sessionID w =
     GetScreen poll (case client of Inr (Inr screen) \<Rightarrow> Some screen | _ \<Rightarrow> None) sessionID w"

text \<open>\<open>ensureSharedLog\<close> opens the log once; \<open>Close\<close> closes it where it was opened.\<close>

definition ensureSharedLog :: "(unit \<Rightarrow> string + 'l) \<Rightarrow> 'l option \<Rightarrow> (string + 'l) \<times> 'l option" where
  "ensureSharedLog open_log shared =
     (case shared of
        Some l \<Rightarrow> (Inr l, shared)
      | None \<Rightarrow> (case open_log () of Inl e \<Rightarrow> (Inl e, None) | Inr l \<Rightarrow> (Inr l, Some l)))"

definition px_Close :: "('l \<Rightarrow> string option) \<Rightarrow> 'l option \<Rightarrow> string option" where
  "px_Close close shared = (case shared of None \<Rightarrow> None | Some l \<Rightarrow> close l)"

definition px_EmitSessionEvent ::
  "string + 'l \<Rightarrow> ('l \<Rightarrow> string \<Rightarrow> fieldmap \<Rightarrow> string option) \<Rightarrow> string \<Rightarrow> string \<Rightarrow> string \<Rightarrow> fieldmap \<Rightarrow> string option" where
  "px_EmitSessionEvent shared writeSync sessionID event message extra =
     (case shared of Inl e \<Rightarrow> Some e | Inr l \<Rightarrow> EmitSessionEvent (writeSync l) sessionID event message extra)"

section \<open>Paths stay short\<close>

lemma path_join_length: "x \<noteq> [] \<Longrightarrow> length (path_join [x, y]) \<le> length x + 1 + length y"
  using length_path_clean[of "go_join [x, y] ''/''"] length_path_clean[of x]
  by (auto simp: path_join_def)

lemma unixSocketPath_length:
  assumes "length name \<le> 76"
  shows "length (unixSocketPath digest tempDir runtimeDir name) \<le> conservativeUnixSocketPathLimit"
proof -
  let ?short = "''swash-'' @ hex_string (take 6 (digest runtimeDir)) @ ''-'' @ name"
  have "length (hex_string x) = 2 * length x" for x by (induction x) (simp_all add: hex_string_def hex_byte_def)
  then have "length ?short \<le> 95" using assms by simp
  then have "length (path_join [''/tmp'', ?short]) \<le> 100"
    using path_join_length[of "''/tmp''" ?short] by simp
  then show ?thesis by (simp add: unixSocketPath_def Let_def conservativeUnixSocketPathLimit_def)
qed

lemma GenID_length: "length (GenID b) = 6" by (simp add: GenID_def)

text \<open>The waiting loop ends: a pass takes 25 milliseconds, and it gives up after five seconds.\<close>

lemma waitReady_ends_at:
  assumes "wo_now (obs (i + n)) > deadline"
  shows "\<exists>r. waitReady (Suc n) obs i deadline = Some r"
  using assms
proof (induction n arbitrary: i)
  case 0
  then show ?case by (simp add: Let_def split: option.splits)
next
  case (Suc n)
  from Suc.IH[of "i + 1"] Suc.prems obtain r where "waitReady (Suc n) obs (i + 1) deadline = Some r" by auto
  then show ?case by (subst waitReady.simps) (simp add: Let_def del: waitReady.simps split: option.splits)
qed

lemma waitReady_ends:
  assumes "\<And>i. wo_now (obs (Suc i)) \<ge> wo_now (obs i) + 25000000" and "wo_now (obs 0) \<ge> t"
  shows "\<exists>r. waitReady 202 obs 0 (t + 5000000000) = Some r"
proof -
  have "wo_now (obs n) \<ge> t + 25000000 * int n" for n
  proof (induction n)
    case (Suc n)
    then show ?case using assms(1)[of n] by simp
  qed (use assms(2) in simp)
  from this[of 201] show ?thesis using waitReady_ends_at[of "t + 5000000000" obs 0 201] by simp
qed

text \<open>It says ready only when the host answered or its started event was found.\<close>

lemma waitReady_sound:
  "waitReady n obs i deadline = Some (Inr ()) \<Longrightarrow>
    \<exists>j. wo_socket (obs j) \<and> wo_gist (obs j) \<or> wo_started (obs j)"
  by (induction n obs i deadline rule: waitReady.induct) (auto simp: Let_def split: option.splits if_splits)

section \<open>A started session\<close>

text \<open>The records are kept under the names of their sessions.\<close>

definition root_ok :: "px_world \<Rightarrow> bool" where
  "root_ok w \<longleftrightarrow> distinct (map fst (dir_entries w)) \<and>
     (\<forall>n m. (n, SessionEntry (Some m)) \<in> set (dir_entries w) \<longrightarrow> m_ID m = n)"

lemma dir_entries_put:
  "dir_entries (put_entry s x w) = filter (\<lambda>(n, _). n < s) (dir_entries w) @ (s, x) # filter (\<lambda>(n, _). s < n) (dir_entries w)"
  by (simp add: dir_entries_def put_entry_def)

lemma set_put: "set (dir_entries (put_entry s x w)) = insert (s, x) {e \<in> set (dir_entries w). fst e \<noteq> s}"
  by (auto simp: dir_entries_put)

lemma put_put: "dir_entries (put_entry s x (put_entry s y w)) = dir_entries (put_entry s x w)"
proof -
  have "(case e of (n, _) \<Rightarrow> n < s) \<and> (case e of (n, _) \<Rightarrow> s < n) \<longleftrightarrow> False" for e :: "string \<times> px_entry"
    by (cases e) auto
  then show ?thesis by (simp add: dir_entries_put conj_commute)
qed

lemma root_ok_put: "root_ok w \<Longrightarrow> (\<And>m. x = SessionEntry (Some m) \<Longrightarrow> m_ID m = s) \<Longrightarrow> root_ok (put_entry s x w)"
  unfolding root_ok_def set_put
  by (auto simp: dir_entries_put distinct_map_filter inj_on_def)

lemma readMeta_put: "readMeta s (put_entry s (SessionEntry m) w) = m"
proof -
  have "map_of (filter (\<lambda>(n, _). n < s) es) s = None" for es :: "(string \<times> px_entry) list"
    by (induction es) auto
  then show ?thesis by (simp add: readMeta_def dir_entries_put map_add_def)
qed

lemma GenID_ok: "utf8_ok (GenID b)"
  by (rule ascii_ok) (auto simp: GenID_def)

lemma StartSession_cases:
  assumes "StartSession n b sv command opts w = (Inr (Some sid), w')"
  obtains pid where "sv_start sv = Inr pid" and "sid = GenID (sv_random sv)"
    and "waitReady n (sv_obs sv) 0 (sv_time sv + 5000000000) = Some (Inr ())"
    and "pw_started w' = pw_started w @ [px_host b sv command opts]" and "pw_signals w' = pw_signals w"
    and "sv_meta sv = None \<longrightarrow>
      dir_entries w' = dir_entries (put_entry sid (SessionEntry (Some (stored_meta (px_record b sv command opts pid)))) w)"
proof -
  let ?id = "GenID (sv_random sv)"
  define w1 where "w1 = (if map_of (dir_entries w) ?id = None then put_entry ?id (SessionEntry None) w else w)"
  have w1: "pw_started w1 = pw_started w" "pw_signals w1 = pw_signals w" by (simp_all add: w1_def put_entry_def)
  have m: "mkdir_session (sv_mkdir sv) ?id w = (Inr (), w1)" if "sv_mkdir sv = None"
    using that by (simp add: mkdir_session_def w1_def)
  have k: "sv_mkdir sv = None" "sv_log sv = None"
    using assms m by (auto simp: StartSession_def Let_def thenE_def bindE_def mkdir_session_def split: option.splits)
  obtain pid where p: "sv_start sv = Inr pid"
    using assms by (cases "sv_start sv") (auto simp: StartSession_def Let_def thenE_def m[OF k(1)] k(2) start_process_def bindE_def)
  define w2 where "w2 = w1\<lparr>pw_started := pw_started w1 @ [px_host b sv command opts]\<rparr>"
  define w3 where "w3 = snd (writeMeta (sv_meta sv) (px_record b sv command opts pid) w2)"
  have s: "start_process (sv_start sv) (px_host b sv command opts) w1 = (Inr pid, w2)"
    by (simp add: start_process_def p w2_def)
  have i: "ignoreE (writeMeta (sv_meta sv) (px_record b sv command opts pid)) w2 = (Inr (), w3)"
    by (simp add: w3_def)
  have "StartSession n b sv command opts w =
      (case waitReady n (sv_obs sv) 0 (sv_time sv + 5000000000) of
         None \<Rightarrow> returnE None
       | Some (Inl err) \<Rightarrow> failE (NotReadyYet (wait_error (sv_host_log sv) err))
       | Some (Inr _) \<Rightarrow> returnE (Some ?id)) w3"
    unfolding StartSession_def Let_def thenE_def bindE_def m[OF k(1)] k(2)
    by (simp only: option.case prod.case sum.case returnE_def s i)
  then have r: "waitReady n (sv_obs sv) 0 (sv_time sv + 5000000000) = Some (Inr ())" "sid = ?id" "w' = w3"
    unfolding assms
    by (cases "waitReady n (sv_obs sv) 0 (sv_time sv + 5000000000)"; simp split: sum.splits unit.splits)+
  have f: "pw_started w3 = pw_started w @ [px_host b sv command opts]" "pw_signals w3 = pw_signals w"
    by (auto simp: w3_def writeMeta_def w2_def w1 put_entry_def split: option.splits)
  have d: "dir_entries w3 = dir_entries (put_entry ?id (SessionEntry (Some (stored_meta (px_record b sv command opts pid)))) w)"
    if "sv_meta sv = None"
  proof -
    have "dir_entries (put_entry ?id x w2) = dir_entries (put_entry ?id x w1)" for x
      unfolding dir_entries_put by (simp add: w2_def dir_entries_def)
    then have "dir_entries (put_entry ?id x w2) = dir_entries (put_entry ?id x w)" for x
      by (simp add: w1_def put_put)
    then show ?thesis using that by (simp add: w3_def writeMeta_def px_record_def)
  qed
  show thesis using that[OF p r(2,1)] f d r(2,3) by simp
qed

definition listed :: "(int \<Rightarrow> int \<Rightarrow> string option) \<Rightarrow> px_world \<Rightarrow> px_session list" where
  "listed kill w = sort_key se_ID (map session_of_meta (List.map_filter (listed_meta kill) (dir_entries w)))"

lemma ListSessions_listed: "ListSessions kill None w = Inr (listed kill w)"
  by (simp add: ListSessions_def listed_def)

lemma set_listed:
  "set (listed kill w) = {session_of_meta m |m n. (n, SessionEntry (Some m)) \<in> set (dir_entries w) \<and> pidAlive kill (m_PID m)}"
  proof -
  have "m \<in> set (List.map_filter (listed_meta kill) es) \<longleftrightarrow>
      (\<exists>n. (n, SessionEntry (Some m)) \<in> set es \<and> pidAlive kill (m_PID m))" for m es
    by (induction es) (auto simp: map_filter_simps listed_meta_def split: px_entry.splits option.splits if_splits)
  then show ?thesis by (auto simp: listed_def)
qed

lemma listed_ids:
  assumes "root_ok w"
  shows "distinct (map se_ID (listed kill w)) \<and> sorted (map se_ID (listed kill w))"
proof -
  have "map se_ID (map session_of_meta (List.map_filter (listed_meta kill) es)) = map fst (filter (\<lambda>e. listed_meta kill e \<noteq> None) es)"
    if "\<forall>n m. (n, SessionEntry (Some m)) \<in> set es \<longrightarrow> m_ID m = n" for es
    using that
    by (induction es) (auto simp: map_filter_simps listed_meta_def session_of_meta_def split: px_entry.splits option.splits)
  then have "distinct (map se_ID (map session_of_meta (List.map_filter (listed_meta kill) (dir_entries w))))"
    using assms by (simp add: root_ok_def distinct_map_filter)
  moreover have "distinct (map se_ID (sort_key se_ID xs)) = distinct (map se_ID xs)" for xs :: "px_session list"
    by (simp add: distinct_map)
  ultimately show ?thesis by (simp add: listed_def)
qed

lemma se_ID_session [simp]: "se_ID (session_of_meta m) = m_ID m"
  by (simp add: session_of_meta_def)

lemma listed_put:
  assumes "root_ok w" and "m_ID m = sid"
  shows "s \<in> set (listed kill (put_entry sid (SessionEntry (Some m)) w)) \<longleftrightarrow>
    s = session_of_meta m \<and> pidAlive kill (m_PID m) \<or> s \<in> set (listed kill w) \<and> se_ID s \<noteq> sid"
  using assms unfolding set_listed set_put root_ok_def by (auto; blast)

lemma same_entries:
  assumes "dir_entries w = dir_entries w'"
  shows "listed kill w = listed kill w'" and "readMeta sid w = readMeta sid w'" and "root_ok w = root_ok w'"
  using assms by (simp_all add: listed_def readMeta_def root_ok_def)


lemma StartSession_ready:
  assumes "sv_mkdir sv = None" and "sv_log sv = None" and "sv_start sv = Inr pid"
    and "waitReady n (sv_obs sv) 0 (sv_time sv + 5000000000) = Some (Inr ())"
  shows "\<exists>w'. StartSession n b sv command opts w = (Inr (Some (GenID (sv_random sv))), w')"
  by (simp add: StartSession_def Let_def thenE_def bindE_def mkdir_session_def start_process_def assms)

definition sample_backend :: posix_config where
  "sample_backend = \<lparr>pc_RuntimeDir = ''/run'', pc_StateDir = ''/var'', pc_HostCommand = [''swash'', ''host''],
     pc_tempDir = ''/tmp'', pc_digest = (\<lambda>_. [])\<rparr>"

definition sample_start :: start_env where
  "sample_start = \<lparr>sv_random = [0, 0, 0, 0, 0, 0], sv_mkdir = None, sv_log = None, sv_start = Inr 7, sv_now = ''now'',
     sv_meta = None, sv_environ = [], sv_env = Map.empty, sv_time = 0,
     sv_obs = (\<lambda>_. \<lparr>wo_ctx = None, wo_now = 0, wo_socket = True, wo_gist = True, wo_started = False, wo_alive = True\<rparr>),
     sv_host_log = None\<rparr>"

definition empty_root :: px_world where
  "empty_root = \<lparr>pw_root = None, pw_started = [], pw_signals = []\<rparr>"

lemma sample_paths:
  "GenID [0, 0, 0, 0, 0, 0] = ''AAA000''" "socketPath sample_backend ''AAA000'' = ''/run/AAA000.sock''"
  "eventDBPath sample_backend = ''/var/events.db''"
proof -
  have c: "clean_path ''/run''" "clean_path ''/var''"
    unfolding clean_path_def by (intro exI[of _ "[''run'']"] exI[of _ "[''var'']"]; simp add: plain_name_def)+
  have g: "GenID [0, 0, 0, 0, 0, 0] = map char_of [65, 65, 65, 48, 48, 48 :: nat]" by (simp add: GenID_def upt_rec)
  then show "GenID [0, 0, 0, 0, 0, 0] = ''AAA000''" by (simp add: char_of_eq_iff take_bit_eq_mod)
  show "eventDBPath sample_backend = ''/var/events.db''"
    using path_join_clean(1)[OF c(2), of "[''events.db'']"]
    by (simp add: eventDBPath_def sample_backend_def plain_name_def)
  have "path_join [''/run'', ''AAA000.sock''] = ''/run/AAA000.sock''"
    using path_join_clean(1)[OF c(1), of "[''AAA000.sock'']"] by (simp add: plain_name_def)
  then show "socketPath sample_backend ''AAA000'' = ''/run/AAA000.sock''"
    by (simp add: socketPath_def unixSocketPath_def sample_backend_def conservativeUnixSocketPathLimit_def)
qed


text \<open>
  The record of a session stays when it ends. Once another process has the number of its host, the
  session is listed as running, and killing it, its socket being gone, kills that process.
\<close>

lemma ended_session_revived:
  assumes "root_ok w" and "readMeta sid w = Some m" and "m_PID m = pid" and "pid > 0" and "kill pid 0 = None"
  shows "session_of_meta m \<in> set (listed kill w) \<and> se_Status (session_of_meta m) = ''running'' \<and>
    KillSession kill (Inl err) sid w = send_signal kill pid 9 w"
proof -
  have "(sid, SessionEntry (Some m)) \<in> set (dir_entries w)"
    using assms(2) by (auto simp: readMeta_def split: option.splits px_entry.splits dest: map_of_SomeD)
  then show ?thesis using assms(2-) by (auto simp: set_listed pidAlive_def KillSession_def session_of_meta_def)
qed

end
