(* ===== verification/AttachView.thy ===== *)
theory AttachView
  imports TerminalBinding
begin

text \<open>
  The view of an attached terminal session, \<open>internal/attach/attach.go\<close>: the frame it draws around the
  remote screen, the goroutine that owns the emulator and redraws, and the session with its event
  loop, resizing, input and result. What is printed is a list of drawing commands, each with its
  bytes; a glyph of the frame takes one column. The emulator, the terminal and the client of the
  session are parameters.
\<close>

section \<open>Drawing\<close>

definition goto :: "int \<Rightarrow> int \<Rightarrow> string" where
  "goto row col = ESC # ''['' @ itoa row @ '';'' @ itoa col @ ''H''"

datatype draw = Mode string | Glyphs int int "string list" | Content int int string | Cursor int int

fun draw_bytes :: "draw \<Rightarrow> string" where
  "draw_bytes (Mode s) = ESC # s"
| "draw_bytes (Glyphs row col gs) = goto row col @ concat gs"
| "draw_bytes (Content row col s) = goto row col @ s"
| "draw_bytes (Cursor row col) = goto row col"

text \<open>\<open>/\<close> of Go truncates.\<close>

definition half :: "int \<Rightarrow> int" where
  "half i = (if i < 0 then - (- i div 2) else i div 2)"

record renderer =
  rn_sessionID :: string
  rn_remoteRows :: int
  rn_remoteCols :: int
  rn_localRows :: int
  rn_localCols :: int
  rn_borderTop :: int
  rn_borderLeft :: int

definition calculateOffsets :: "renderer \<Rightarrow> renderer" where
  "calculateOffsets r =
     (let t = half (rn_localRows r - rn_remoteRows r - 2); l = half (rn_localCols r - rn_remoteCols r - 2) in
      r\<lparr>rn_borderTop := (if t < 0 then 0 else t), rn_borderLeft := (if l < 0 then 0 else l)\<rparr>)"

definition newRenderer :: "string \<Rightarrow> int \<Rightarrow> int \<Rightarrow> int \<Rightarrow> int \<Rightarrow> renderer" where
  "newRenderer sessionID remoteRows remoteCols localRows localCols =
     calculateOffsets \<lparr>rn_sessionID = sessionID, rn_remoteRows = remoteRows, rn_remoteCols = remoteCols,
       rn_localRows = localRows, rn_localCols = localCols, rn_borderTop = 0, rn_borderLeft = 0\<rparr>"

definition updateSize :: "int \<Rightarrow> int \<Rightarrow> int \<Rightarrow> int \<Rightarrow> renderer \<Rightarrow> renderer" where
  "updateSize localRows localCols remoteRows remoteCols r =
     calculateOffsets (r\<lparr>rn_localRows := localRows, rn_localCols := localCols,
       rn_remoteRows := remoteRows, rn_remoteCols := remoteCols\<rparr>)"

definition horizontal :: string where "horizontal = [CHR 0xE2, CHR 0x94, CHR 0x80]"
definition vertical :: string where "vertical = [CHR 0xE2, CHR 0x94, CHR 0x82]"
definition top_left :: string where "top_left = [CHR 0xE2, CHR 0x94, CHR 0x8C]"
definition top_right :: string where "top_right = [CHR 0xE2, CHR 0x94, CHR 0x90]"
definition bottom_left :: string where "bottom_left = [CHR 0xE2, CHR 0x94, CHR 0x94]"
definition bottom_right :: string where "bottom_right = [CHR 0xE2, CHR 0x94, CHR 0x98]"

text \<open>The loop over the columns of a border, which jumps over the label; a label is not empty.\<close>

function border_loop :: "nat \<Rightarrow> nat \<Rightarrow> nat \<Rightarrow> string \<Rightarrow> string list" where
  "border_loop i n start label =
     (if n \<le> i \<or> label = [] then []
      else if i = start then map (\<lambda>c. [c]) label @ border_loop (i + length label) n start label
      else horizontal # border_loop (i + 1) n start label)"
  by auto
termination
  by (relation "measure (\<lambda>(i, n, start, label). n - i)") (auto simp: diff_less_mono2)

declare border_loop.simps [simp del]

definition label_start :: "int \<Rightarrow> string \<Rightarrow> int" where
  "label_start cols label = max (half (cols - int (length label))) 0"

definition border :: "string \<Rightarrow> string \<Rightarrow> int \<Rightarrow> string \<Rightarrow> string list" where
  "border left right cols label =
     left # border_loop 0 (nat cols) (nat (label_start cols label)) label @ [right]"

definition session_label :: "renderer \<Rightarrow> string" where
  "session_label r = '' '' @ rn_sessionID r @ '' ['' @ itoa (rn_remoteCols r) @ ''x'' @ itoa (rn_remoteRows r) @ ''] ''"

definition detach_hint :: string where
  "detach_hint = '' Ctrl+'' @ [CHR 0x5C] @ '' to detach ''"

definition drawBorder :: "renderer \<Rightarrow> draw list" where
  "drawBorder r =
     [Glyphs (rn_borderTop r + 1) (rn_borderLeft r + 1) (border top_left top_right (rn_remoteCols r) (session_label r))] @
     concat (map (\<lambda>row.
       [Glyphs (rn_borderTop r + row + 2) (rn_borderLeft r + 1) [vertical],
        Glyphs (rn_borderTop r + row + 2) (rn_borderLeft r + rn_remoteCols r + 2) [vertical]]) (upto_int (rn_remoteRows r))) @
     [Glyphs (rn_borderTop r + rn_remoteRows r + 2) (rn_borderLeft r + 1)
        (border bottom_left bottom_right (rn_remoteCols r) detach_hint)]"

text \<open>
  The emulator of the view: writing and resizing with what it reports meanwhile, the number of its
  rows, their rendering, and its cursor.
\<close>

datatype report = Damaged | MovedCursor | SetProp int prop_value

record 'v view_emulator =
  ve_write :: "string \<Rightarrow> 'v \<Rightarrow> 'v \<times> report list"
  ve_set_size :: "int \<Rightarrow> int \<Rightarrow> 'v \<Rightarrow> 'v \<times> report list"
  ve_rows :: "'v \<Rightarrow> int"
  ve_row_ansi :: "'v \<Rightarrow> int \<Rightarrow> string"
  ve_cursor :: "'v \<Rightarrow> int \<times> int"

definition render :: "'v view_emulator \<Rightarrow> renderer \<Rightarrow> 'v \<Rightarrow> bool \<Rightarrow> bool \<Rightarrow> draw list" where
  "render em r vt clear cursorVisible =
     [Mode ''[?2026h'', Mode ''[?25l''] @ (if clear then [Mode ''[2J''] else []) @
     drawBorder r @
     map (\<lambda>row. Content (rn_borderTop r + 1 + row + 1) (rn_borderLeft r + 1 + 1) (ve_row_ansi em vt row))
       (upto_int (ve_rows em vt)) @
     [Cursor (rn_borderTop r + 1 + fst (ve_cursor em vt) + 1) (rn_borderLeft r + 1 + snd (ve_cursor em vt) + 1)] @
     (if cursorVisible then [Mode ''[?25h''] else []) @ [Mode ''[?2026l'']"

section \<open>The owner of the emulator\<close>

datatype message = WriteMsg string | ResizeMsg int int | RenderMsg bool

text \<open>\<open>vw_frames\<close>: the frames printed so far.\<close>

record 'v view =
  vw_vt :: 'v
  vw_dirty :: bool
  vw_cursorVisible :: bool
  vw_rend :: renderer
  vw_frames :: "draw list list"

definition take_report :: "report \<Rightarrow> 'v view \<Rightarrow> 'v view" where
  "take_report rp v =
     (case rp of
        Damaged \<Rightarrow> v\<lparr>vw_dirty := True\<rparr>
      | MovedCursor \<Rightarrow> v
      | SetProp p x \<Rightarrow>
          if p = PropCursorVisible then (case x of PBool b \<Rightarrow> v\<lparr>vw_cursorVisible := b\<rparr> | _ \<Rightarrow> v) else v)"

definition view_write :: "'v view_emulator \<Rightarrow> string \<Rightarrow> 'v view \<Rightarrow> 'v view" where
  "view_write em bs v = (case ve_write em bs (vw_vt v) of (vt, reports) \<Rightarrow> fold take_report reports (v\<lparr>vw_vt := vt\<rparr>))"

definition show_frame :: "'v view_emulator \<Rightarrow> bool \<Rightarrow> 'v view \<Rightarrow> 'v view" where
  "show_frame em clear v =
     v\<lparr>vw_frames := vw_frames v @ [render em (vw_rend v) (vw_vt v) clear (vw_cursorVisible v)]\<rparr>"

definition flush :: "'v view_emulator \<Rightarrow> 'v view \<Rightarrow> 'v view" where
  "flush em v = (if vw_dirty v then (show_frame em False v)\<lparr>vw_dirty := False\<rparr> else v)"

definition view_resize :: "'v view_emulator \<Rightarrow> int \<Rightarrow> int \<Rightarrow> 'v view \<Rightarrow> 'v view" where
  "view_resize em rows cols v =
     (case ve_set_size em rows cols (vw_vt v) of
        (vt, reports) \<Rightarrow>
          let v = fold take_report reports (v\<lparr>vw_vt := vt\<rparr>);
              r = vw_rend v
          in show_frame em True (v\<lparr>vw_rend := updateSize (rn_localRows r) (rn_localCols r) rows cols r\<rparr>))"

definition other_message :: "'v view_emulator \<Rightarrow> message \<Rightarrow> 'v view \<Rightarrow> 'v view" where
  "other_message em m v =
     (case m of WriteMsg _ \<Rightarrow> v | ResizeMsg rows cols \<Rightarrow> view_resize em rows cols v | RenderMsg clear \<Rightarrow> show_frame em clear v)"

text \<open>The writes that are already there are taken in before the view is redrawn.\<close>

fun drain :: "'v view_emulator \<Rightarrow> message list \<Rightarrow> 'v view \<Rightarrow> message list \<times> 'v view" where
  "drain em [] v = ([], v)"
| "drain em (WriteMsg bs # ms) v = drain em ms (view_write em bs v)"
| "drain em (m # ms) v = (ms, other_message em m (flush em v))"

text \<open>One pass of the loop over the messages in the channel; later ones come with later passes.\<close>

definition owner_pass :: "'v view_emulator \<Rightarrow> message \<Rightarrow> message list \<Rightarrow> 'v view \<Rightarrow> message list \<times> 'v view" where
  "owner_pass em m ms v =
     (case m of
        WriteMsg bs \<Rightarrow> (case drain em ms (view_write em bs v) of (rest, v) \<Rightarrow> (rest, flush em v))
      | _ \<Rightarrow> (ms, other_message em m v))"

definition owner_start :: "'v view_emulator \<Rightarrow> 'v \<Rightarrow> renderer \<Rightarrow> string \<Rightarrow> 'v view" where
  "owner_start em vt rend initialScreen =
     (let v = \<lparr>vw_vt = vt, vw_dirty = False, vw_cursorVisible = True, vw_rend = rend, vw_frames = []\<rparr>;
          v = (if initialScreen \<noteq> [] then view_write em initialScreen v else v)
      in show_frame em True v)"

text \<open>\<open>runVtermOwner\<close>: each batch is what the channel holds when the loop looks; the rest of a pass stays in it.\<close>

function owner_batch :: "'v view_emulator \<Rightarrow> message list \<Rightarrow> 'v view \<Rightarrow> 'v view" where
  "owner_batch em [] v = v"
| "owner_batch em (m # ms) v = (let p = owner_pass em m ms v in owner_batch em (fst p) (snd p))"
  by pat_completeness auto

lemma drain_shorter: "length (fst (drain em ms v)) \<le> length ms"
  by (induction em ms v rule: drain.induct) auto

lemma owner_pass_shorter: "length (fst (owner_pass em m ms v)) \<le> length ms"
  using drain_shorter[of em ms] by (auto simp: owner_pass_def case_prod_beta split: message.splits)

termination owner_batch
  by (relation "measure (\<lambda>(em, ms, v). length ms)") (auto simp: less_Suc_eq_le case_prod_beta owner_pass_shorter)

text \<open>
  What happens to the view: the loop takes a batch, or the session, which shares the renderer
  without a lock, changes its sizes; such a change is taken as one step here.
\<close>

datatype view_event = Batch "message list" | Sizes int int int int

definition view_event :: "'v view_emulator \<Rightarrow> view_event \<Rightarrow> 'v view \<Rightarrow> 'v view" where
  "view_event em e v =
     (case e of
        Batch ms \<Rightarrow> owner_batch em ms v
      | Sizes lr lc rr rc \<Rightarrow> v\<lparr>vw_rend := updateSize lr lc rr rc (vw_rend v)\<rparr>)"

definition runVtermOwner :: "'v view_emulator \<Rightarrow> 'v \<Rightarrow> renderer \<Rightarrow> string \<Rightarrow> view_event list \<Rightarrow> 'v view" where
  "runVtermOwner em vt rend initialScreen events =
     fold (view_event em) events (owner_start em vt rend initialScreen)"

section \<open>The session\<close>

text \<open>\<open>tsize\<close>: columns and rows of the terminal; \<open>None\<close> where standard input is none or does not say.\<close>

definition GetContentSize :: "(int \<times> int) option \<Rightarrow> int \<times> int" where
  "GetContentSize tsize =
     (case tsize of
        Some (c, r) \<Rightarrow> (if r - 2 < 1 then 1 else r - 2, if c - 2 < 1 then 1 else c - 2)
      | None \<Rightarrow> (22, 78))"

record attachment =
  at_rows :: int
  at_cols :: int
  at_screen :: string

record attach_session =
  ss_sessionID :: string
  ss_localRows :: int
  ss_localCols :: int
  ss_remoteRows :: int
  ss_remoteCols :: int
  ss_initialScreen :: string

datatype attach_failure = ConnectFailed string | AttachFailed string | NoStream

text \<open>\<open>attach\<close> answers with an error or an attachment, which may lack its stream.\<close>

definition New ::
  "string \<Rightarrow> (int \<times> int) option \<Rightarrow> string option \<Rightarrow> (int \<Rightarrow> int \<Rightarrow> string + attachment option) \<Rightarrow>
   attach_failure + attach_session" where
  "New sessionID tsize connect_err attach =
     (case connect_err of
        Some e \<Rightarrow> Inl (ConnectFailed e)
      | None \<Rightarrow>
          let (localRows, localCols) = (case tsize of Some (c, r) \<Rightarrow> (r, c) | None \<Rightarrow> (24, 80));
              (rows, cols) = GetContentSize tsize in
          case attach rows cols of
            Inl e \<Rightarrow> Inl (AttachFailed e)
          | Inr None \<Rightarrow> Inl NoStream
          | Inr (Some a) \<Rightarrow> Inr \<lparr>ss_sessionID = sessionID, ss_localRows = localRows, ss_localCols = localCols,
              ss_remoteRows = at_rows a, ss_remoteCols = at_cols a, ss_initialScreen = at_screen a\<rparr>)"

text \<open>The chunks read from the session, \<open>None\<close> where reading failed, as messages for the view.\<close>

fun readOutput :: "string option list \<Rightarrow> message list" where
  "readOutput [] = []"
| "readOutput (None # rs) = []"
| "readOutput (Some data # rs) = (if data \<noteq> [] then [WriteMsg data] else []) @ readOutput rs"

text \<open>
  The bytes of the keyboard up to the one that detaches, and whether it came; \<open>ok i\<close>: the \<open>i\<close>th
  byte can be written to the session.
\<close>

fun readInput :: "(nat \<Rightarrow> bool) \<Rightarrow> nat \<Rightarrow> string \<Rightarrow> string \<times> bool" where
  "readInput ok i [] = ([], False)"
| "readInput ok i (c # cs) =
     (if c = CHR 0x1C then ([], True)
      else if ok i then (case readInput ok (i + 1) cs of (sent, d) \<Rightarrow> (c # sent, d))
      else ([], False))"

text \<open>
  What \<open>handleResize\<close> does to the view: nothing, or new sizes and then a message. \<open>count\<close> is the
  number of clients the host reports and \<open>resize\<close> whether it accepts a size.
\<close>

definition handleResize ::
  "(int \<times> int) option \<Rightarrow> nat option \<Rightarrow> (int \<Rightarrow> int \<Rightarrow> bool) \<Rightarrow> renderer \<Rightarrow> (view_event \<times> message) option" where
  "handleResize tsize count resize r =
     (case tsize of
        None \<Rightarrow> None
      | Some (newCols, newRows) \<Rightarrow>
          let contentRows = max (newRows - 2) 1; contentCols = max (newCols - 2) 1 in
          if count = Some 1 then
            (if resize contentRows contentCols
             then Some (Sizes newRows newCols contentRows contentCols, ResizeMsg contentRows contentCols) else None)
          else Some (Sizes newRows newCols (rn_remoteRows r) (rn_remoteCols r), RenderMsg True))"

datatype exit_reason = ReasonExited | ReasonDetached | ReasonInterrupted | ReasonDisconnect

datatype run_event = TaskExited int | DetachKey | WindowChange | OtherSignal

text \<open>
  \<open>Run\<close>: the first event that ends the loop decides; \<open>raw\<close> says that the terminal could be put in
  raw mode. \<open>None\<close>: the loop still waits. The second part are the changes of the window handled.
\<close>

fun run_loop :: "run_event list \<Rightarrow> (exit_reason \<times> int option) option \<times> nat" where
  "run_loop [] = (None, 0)"
| "run_loop (TaskExited code # es) = (Some (ReasonExited, Some code), 0)"
| "run_loop (DetachKey # es) = (Some (ReasonDetached, None), 0)"
| "run_loop (OtherSignal # es) = (Some (ReasonInterrupted, None), 0)"
| "run_loop (WindowChange # es) = (case run_loop es of (r, n) \<Rightarrow> (r, n + 1))"

definition Run :: "bool \<Rightarrow> run_event list \<Rightarrow> (exit_reason \<times> int option) option \<times> nat" where
  "Run raw events = (if raw then run_loop events else (Some (ReasonDisconnect, None), 0))"

text \<open>What closing a session does, in order: it depends on whether it ran and on whether its terminal was in raw mode.\<close>

datatype close_step = CancelOwner | WaitOwner | LeaveAlternate | RestoreTerminal | CloseConn | CloseClient

definition Close :: "bool \<Rightarrow> bool \<Rightarrow> close_step list" where
  "Close started raw =
     (if started then [CancelOwner, WaitOwner] else []) @ [LeaveAlternate] @
     (if raw then [RestoreTerminal] else []) @ [CloseConn, CloseClient]"

definition PrintResult :: "exit_reason \<times> int option \<Rightarrow> string" where
  "PrintResult r =
     (case r of
        (ReasonExited, Some code) \<Rightarrow> ''[exited: '' @ itoa code @ '']''
      | (ReasonExited, None) \<Rightarrow> ''[exited]''
      | (ReasonDetached, _) \<Rightarrow> ''[detached]''
      | (ReasonInterrupted, _) \<Rightarrow> ''[interrupted]''
      | _ \<Rightarrow> ''[disconnected]'') @ [CHR 0x0A]"

section \<open>The frame\<close>

definition glyph_cells :: "draw \<Rightarrow> (int \<times> int) set" where
  "glyph_cells d = (case d of Glyphs row col gs \<Rightarrow> {row} \<times> {col..<col + int (length gs)} | _ \<Rightarrow> {})"

definition outline :: "int \<Rightarrow> int \<Rightarrow> int \<Rightarrow> int \<Rightarrow> (int \<times> int) set" where
  "outline r0 c0 height width =
     {(r, c). r0 \<le> r \<and> r < r0 + height \<and> c0 \<le> c \<and> c < c0 + width \<and>
       (r = r0 \<or> r = r0 + height - 1 \<or> c = c0 \<or> c = c0 + width - 1)}"

lemma border_loop_past: "start < i \<Longrightarrow> label \<noteq> [] \<Longrightarrow> length (border_loop i n start label) = n - i"
proof (induction i n start label rule: border_loop.induct)
  case (1 i n start label)
  then show ?case by (subst border_loop.simps) auto
qed

lemma border_loop_length:
  "i \<le> start \<Longrightarrow> label \<noteq> [] \<Longrightarrow> start < n \<Longrightarrow>
    length (border_loop i n start label) = (start - i) + length label + (n - (start + length label))"
proof (induction i n start label rule: border_loop.induct)
  case (1 i n start label)
  show ?case
  proof (cases "i = start")
    case True
    with 1(3-5) border_loop_past[of start "start + length label" label n] show ?thesis
      by (subst border_loop.simps) simp
  next
    case False
    with 1(2)[OF _ False] 1(3-5) show ?thesis by (subst border_loop.simps) auto
  qed
qed

lemma border_length:
  assumes "0 < cols" and "label \<noteq> []"
  shows "int (length (border left right cols label)) = max cols (int (length label)) + 2"
proof -
  have h: "half (cols - int (length label)) = (cols - int (length label)) div 2" if "int (length label) \<le> cols"
    using that by (simp add: half_def)
  have s: "label_start cols label < cols" "label_start cols label \<ge> 0"
    "int (length label) \<le> cols \<Longrightarrow> label_start cols label + int (length label) \<le> cols"
    "cols < int (length label) \<Longrightarrow> label_start cols label = 0"
    using assms h by (auto simp: label_start_def max_def half_def)
  have "length (border_loop 0 (nat cols) (nat (label_start cols label)) label) =
      nat (label_start cols label) + length label + (nat cols - (nat (label_start cols label) + length label))"
    using border_loop_length[of 0 "nat (label_start cols label)" label "nat cols"] s(1,2) assms(2) by simp
  then show ?thesis using s by (simp add: border_def max_def) linarith
qed

lemma placed_centrally:
  assumes "rn_remoteRows r + 2 \<le> rn_localRows r" and "rn_remoteCols r + 2 \<le> rn_localCols r"
    and "calculateOffsets r = r"
  shows "0 \<le> rn_borderTop r" "0 \<le> rn_borderLeft r"
    "rn_localRows r - (rn_borderTop r + rn_remoteRows r + 2) - rn_borderTop r \<in> {0, 1}"
    "rn_localCols r - (rn_borderLeft r + rn_remoteCols r + 2) - rn_borderLeft r \<in> {0, 1}"
proof -
  have "rn_borderTop r = rn_borderTop (calculateOffsets r)" "rn_borderLeft r = rn_borderLeft (calculateOffsets r)"
    using assms(3) by simp_all
  then have t: "rn_borderTop r = (rn_localRows r - rn_remoteRows r - 2) div 2"
    "rn_borderLeft r = (rn_localCols r - rn_remoteCols r - 2) div 2"
    using assms(1,2) by (simp_all add: calculateOffsets_def Let_def half_def)
  then show "0 \<le> rn_borderTop r" "0 \<le> rn_borderLeft r" using assms(1,2) by simp_all
  show "rn_localRows r - (rn_borderTop r + rn_remoteRows r + 2) - rn_borderTop r \<in> {0, 1}"
    "rn_localCols r - (rn_borderLeft r + rn_remoteCols r + 2) - rn_borderLeft r \<in> {0, 1}"
    unfolding t by (simp; presburger)+
qed

lemma border_outlines:
  assumes "0 < rn_remoteRows r" and "0 < rn_remoteCols r" and "int (length (session_label r)) \<le> rn_remoteCols r"
    and "18 \<le> rn_remoteCols r"
  shows "(\<Union>d \<in> set (drawBorder r). glyph_cells d) =
    outline (rn_borderTop r + 1) (rn_borderLeft r + 1) (rn_remoteRows r + 2) (rn_remoteCols r + 2)"
proof -
  have l: "int (length (border lc rc (rn_remoteCols r) (session_label r))) = rn_remoteCols r + 2"
    "int (length (border lc rc (rn_remoteCols r) detach_hint)) = rn_remoteCols r + 2" for lc rc
    using border_length[OF assms(2), of "session_label r"] border_length[OF assms(2), of detach_hint] assms(3,4)
    by (simp_all add: session_label_def detach_hint_def)
  have u: "set (upto_int n) = {0..<n}" for n by (auto simp: upto_int_def image_int_atLeastLessThan)
  have "x \<in> (\<Union>d \<in> set (drawBorder r). glyph_cells d) \<longleftrightarrow>
      x \<in> outline (rn_borderTop r + 1) (rn_borderLeft r + 1) (rn_remoteRows r + 2) (rn_remoteCols r + 2)" for x
  proof -
    obtain a b where x: "x = (a, b)" by force
    have side: "(\<exists>row \<in> {0..<n}. a = t + row + 2) \<longleftrightarrow> t + 2 \<le> a \<and> a < t + 2 + n" for n t :: int
      by (auto intro: bexI[of _ "a - t - 2"])
    show ?thesis using assms(1,2) side[of "rn_remoteRows r" "rn_borderTop r"]
      by (auto simp: x drawBorder_def glyph_cells_def l u outline_def)
  qed
  then show ?thesis by blast
qed

lemma upto_int_set: "set (upto_int n) = {0..<n}"
  by (auto simp: upto_int_def image_int_atLeastLessThan)


text \<open>A session attached by a terminal of 24 rows and 80 columns, when the host takes the size asked for.\<close>

definition sample_emulator :: "string view_emulator" where
  "sample_emulator = \<lparr>ve_write = (\<lambda>s v. (v @ s, [Damaged])), ve_set_size = (\<lambda>_ _ v. (v, [Damaged])),
     ve_rows = (\<lambda>_. 22), ve_row_ansi = (\<lambda>v i. if i = 0 then v else []), ve_cursor = (\<lambda>v. (0, 0))\<rparr>"


text \<open>The hint is eighteen columns wide: in a narrower screen the lower border is wider than the frame.\<close>

lemma narrow_view_overflows:
  assumes "0 < rn_remoteCols r" and "rn_remoteCols r < 18"
  shows "\<exists>gs. Glyphs (rn_borderTop r + rn_remoteRows r + 2) (rn_borderLeft r + 1) gs \<in> set (drawBorder r) \<and>
    int (length gs) = 20 \<and> 20 > rn_remoteCols r + 2"
  using border_length[OF assms(1), of detach_hint bottom_left bottom_right] assms(2)
  by (auto simp: drawBorder_def detach_hint_def)

section \<open>What is shown\<close>

definition screen_rows :: "'v view_emulator \<Rightarrow> 'v \<Rightarrow> string list" where
  "screen_rows em vt = map (ve_row_ansi em vt) (upto_int (ve_rows em vt))"

definition frame_rows :: "draw list \<Rightarrow> string list" where
  "frame_rows f = List.map_filter (\<lambda>d. case d of Content _ _ s \<Rightarrow> Some s | _ \<Rightarrow> None) f"

definition up_to_date :: "'v view_emulator \<Rightarrow> 'v view \<Rightarrow> bool" where
  "up_to_date em v \<longleftrightarrow> vw_frames v \<noteq> [] \<and> frame_rows (last (vw_frames v)) = screen_rows em (vw_vt v)"

definition reports_damage :: "'v view_emulator \<Rightarrow> bool" where
  "reports_damage em \<longleftrightarrow>
     (\<forall>bs v. Damaged \<notin> set (snd (ve_write em bs v)) \<longrightarrow> screen_rows em (fst (ve_write em bs v)) = screen_rows em v)"

lemma frame_rows_render: "frame_rows (render em r vt clear visible) = screen_rows em vt"
proof -
  have "frame_rows (drawBorder r) = []"
    unfolding frame_rows_def List.map_filter_def by (auto simp: drawBorder_def)
  moreover have a: "frame_rows (xs @ ys) = frame_rows xs @ frame_rows ys" for xs ys
    by (simp add: frame_rows_def List.map_filter_def)
  moreover have "frame_rows (map (\<lambda>row. Content (f row) c (g row)) xs) = map g xs" for f c g and xs :: "int list"
    by (induction xs) (simp_all add: frame_rows_def map_filter_simps)
  ultimately show ?thesis
    by (simp add: render_def screen_rows_def) (simp add: frame_rows_def map_filter_simps)
qed

lemma up_to_date_frame [simp]: "up_to_date em (show_frame em clear v)"
  by (simp add: up_to_date_def show_frame_def frame_rows_render)

lemma take_reports [simp]:
  "vw_vt (fold take_report rs v) = vw_vt v" "vw_frames (fold take_report rs v) = vw_frames v"
  "vw_rend (fold take_report rs v) = vw_rend v"
  "vw_dirty (fold take_report rs v) \<longleftrightarrow> vw_dirty v \<or> Damaged \<in> set rs"
proof (induction rs arbitrary: v)
  case (Cons r rs)
  { case 1 show ?case using Cons(1) by (auto simp: take_report_def split: report.splits prop_value.splits) }
  { case 2 show ?case using Cons(2) by (auto simp: take_report_def split: report.splits prop_value.splits) }
  { case 3 show ?case using Cons(3) by (auto simp: take_report_def split: report.splits prop_value.splits) }
  { case 4 show ?case using Cons(4) by (auto simp: take_report_def split: report.splits prop_value.splits) }
qed simp_all

text \<open>Inside a pass: what is shown is up to date unless the view knows that it is not.\<close>

definition view_inv :: "'v view_emulator \<Rightarrow> 'v view \<Rightarrow> bool" where
  "view_inv em v \<longleftrightarrow> vw_dirty v \<or> up_to_date em v"

lemma view_inv_write: "reports_damage em \<Longrightarrow> view_inv em v \<Longrightarrow> view_inv em (view_write em bs v)"
  by (auto simp: view_inv_def up_to_date_def view_write_def reports_damage_def case_prod_beta)

lemma up_to_date_flush: "view_inv em v \<Longrightarrow> up_to_date em (flush em v)"
  by (auto simp: flush_def view_inv_def) (simp_all add: up_to_date_def show_frame_def frame_rows_render)

lemma up_to_date_other: "up_to_date em v \<Longrightarrow> up_to_date em (other_message em m v)"
  by (auto simp: other_message_def view_resize_def Let_def case_prod_beta split: message.splits)

lemma view_inv_drain: "reports_damage em \<Longrightarrow> view_inv em v \<Longrightarrow> view_inv em (snd (drain em ms v))"
  by (induction em ms v rule: drain.induct)
    (auto simp: view_inv_write view_inv_def[of _ "other_message _ _ _"] up_to_date_other up_to_date_flush)

lemma up_to_date_pass:
  assumes "reports_damage em" and "up_to_date em v"
  shows "up_to_date em (snd (owner_pass em m ms v))"
proof -
  have "view_inv em v" using assms(2) by (simp add: view_inv_def)
  then show ?thesis
    using up_to_date_flush[OF view_inv_drain[OF assms(1) view_inv_write[OF assms(1)]]] up_to_date_other[OF assms(2)]
    by (auto simp: owner_pass_def case_prod_beta split: message.splits)
qed

lemma up_to_date_batch: "reports_damage em \<Longrightarrow> up_to_date em v \<Longrightarrow> up_to_date em (owner_batch em ms v)"
  by (induction em ms v rule: owner_batch.induct) (simp_all add: up_to_date_pass Let_def)

lemma up_to_date_event: "reports_damage em \<Longrightarrow> up_to_date em v \<Longrightarrow> up_to_date em (view_event em e v)"
  by (auto simp: view_event_def up_to_date_batch split: view_event.splits) (simp add: up_to_date_def)

text \<open>
  C13. Whenever the view has taken in a batch of messages, or the session has changed its sizes, the
  last frame printed shows the rows of the emulator, if the emulator reports the changes of its
  rows; but a write that only moves the cursor prints nothing, so that the cursor is then shown where
  it was.
\<close>

theorem view_up_to_date:
  assumes "reports_damage em"
  shows "up_to_date em (runVtermOwner em vt rend initialScreen events) \<and>
    (\<forall>bs v. (\<forall>rp \<in> set (snd (ve_write em bs (vw_vt v))). rp = MovedCursor) \<longrightarrow> \<not> vw_dirty v \<longrightarrow>
      vw_frames (owner_batch em [WriteMsg bs] v) = vw_frames v \<and>
      vw_vt (owner_batch em [WriteMsg bs] v) = fst (ve_write em bs (vw_vt v)))"
proof
  have "up_to_date em (fold (view_event em) events v)" if "up_to_date em v" for v
    using that by (induction events arbitrary: v) (simp_all add: up_to_date_event[OF assms])
  then show "up_to_date em (runVtermOwner em vt rend initialScreen events)"
    by (simp add: runVtermOwner_def owner_start_def Let_def)
  show "\<forall>bs v. (\<forall>rp \<in> set (snd (ve_write em bs (vw_vt v))). rp = MovedCursor) \<longrightarrow> \<not> vw_dirty v \<longrightarrow>
      vw_frames (owner_batch em [WriteMsg bs] v) = vw_frames v \<and>
      vw_vt (owner_batch em [WriteMsg bs] v) = fst (ve_write em bs (vw_vt v))"
    by (auto simp: owner_pass_def view_write_def flush_def case_prod_beta Let_def)
qed

theorem view_up_to_date_witness:
  "hd (frame_rows (last (vw_frames (runVtermOwner sample_emulator [] (newRenderer ''ABC123'' 22 78 24 80) []
      [Batch [WriteMsg ''a'', WriteMsg ''b'']])))) = ''ab''"
proof -
  have d: "reports_damage sample_emulator" by (simp add: reports_damage_def sample_emulator_def)
  let ?v = "runVtermOwner sample_emulator [] (newRenderer ''ABC123'' 22 78 24 80) [] [Batch [WriteMsg ''a'', WriteMsg ''b'']]"
  have "vw_vt ?v = ''ab''"
    by (simp add: runVtermOwner_def view_event_def owner_start_def show_frame_def owner_pass_def view_write_def
      flush_def sample_emulator_def take_report_def Let_def)
  moreover have "hd (screen_rows sample_emulator ''ab'') = ''ab''"
    by (simp add: screen_rows_def sample_emulator_def upto_int_def upt_rec)
  ultimately show ?thesis
    using view_up_to_date[OF d, of "[]" "newRenderer ''ABC123'' 22 78 24 80" "[]" "[Batch [WriteMsg ''a'', WriteMsg ''b'']]"]
    by (simp add: up_to_date_def)
qed

section \<open>Input and result\<close>

text \<open>Input reaches the session byte for byte up to the key that detaches, which is not sent.\<close>

lemma input_until_detach:
  assumes "CHR 0x1C \<notin> set bs" and "\<And>i. ok i"
  shows "readInput ok i (bs @ CHR 0x1C # rest) = (bs, True)" and "readInput ok i bs = (bs, False)"
  using assms(1) by (induction bs arbitrary: i) (auto simp: assms(2))

text \<open>The output of the session reaches the view byte for byte, however it is cut.\<close>

lemma output_reaches_view:
  "concat (map (\<lambda>m. case m of WriteMsg bs \<Rightarrow> bs | _ \<Rightarrow> []) (readOutput (map Some chunks @ [None]))) = concat chunks"
  by (induction chunks) simp_all

text \<open>The first event that is not a change of the window decides how the session ends.\<close>

lemma run_result:
  assumes "e \<noteq> WindowChange"
  shows "Run True (replicate n WindowChange @ e # es) =
    (Some (case e of TaskExited code \<Rightarrow> (ReasonExited, Some code) | DetachKey \<Rightarrow> (ReasonDetached, None)
      | _ \<Rightarrow> (ReasonInterrupted, None)), n)"
  using assms by (induction n) (simp_all add: Run_def split: run_event.splits)

end
