(* ===== verification/SdJournal.thy ===== *)
theory SdJournal
  imports SessionLog
begin

text \<open>
  Reading the systemd journal, \<open>internal/journal/sdjournal.go\<close>. The binding of libsystemd is the
  record \<open>sd_lib\<close>, a parameter; what its manual promises is the predicate \<open>documented\<close>, stated over a
  view of its state.
\<close>

section \<open>The library\<close>

record raw_entry =
  re_realtime :: u64
  re_fields :: fieldmap

record 'j sd_lib =
  sd_Process :: "'j \<Rightarrow> 'j"
  sd_FlushMatches :: "'j \<Rightarrow> 'j"
  sd_AddMatch :: "string \<Rightarrow> 'j \<Rightarrow> bool \<times> 'j"
  sd_SeekHead :: "'j \<Rightarrow> 'j"
  sd_SeekCursor :: "string \<Rightarrow> 'j \<Rightarrow> bool \<times> 'j"
  sd_Next :: "'j \<Rightarrow> nat option \<times> 'j"
  sd_GetEntry :: "'j \<Rightarrow> raw_entry option"
  sd_GetCursor :: "'j \<Rightarrow> string option"

section \<open>The source\<close>

definition NewSDJournalSource :: "(string \<Rightarrow> string option) \<Rightarrow> (string \<Rightarrow> 'j option) \<Rightarrow> 'j option \<Rightarrow> string \<Rightarrow> ('j \<times> string) option" where
  "NewSDJournalSource env open_dir open_default journalDir =
     (let dir = (case env ''SWASH_JOURNAL_DIR'' of Some d \<Rightarrow> if d \<noteq> [] then d else journalDir | None \<Rightarrow> journalDir) in
      map_option (\<lambda>j. (j, dir)) (if dir \<noteq> [] then open_dir dir else open_default))"

text \<open>Times are nanoseconds; a cursor that cannot be had is empty.\<close>

definition parseEntry :: "'j sd_lib \<Rightarrow> 'j \<Rightarrow> event_record option" where
  "parseEntry L j =
     (case sd_GetEntry L j of
        None \<Rightarrow> None
      | Some raw \<Rightarrow> Some \<lparr>ev_Cursor = (case sd_GetCursor L j of None \<Rightarrow> [] | Some c \<Rightarrow> c),
          ev_Timestamp = int (unat (re_realtime raw) div 1000000) * 1000000000 + int ((unat (re_realtime raw) mod 1000000) * 1000),
          ev_Message = (case re_fields raw ''MESSAGE'' of None \<Rightarrow> [] | Some m \<Rightarrow> m),
          ev_Fields = re_fields raw\<rparr>)"

fun add_matches :: "'j sd_lib \<Rightarrow> event_filter list \<Rightarrow> 'j \<Rightarrow> bool \<times> 'j" where
  "add_matches L [] j = (True, j)"
| "add_matches L ((f, v) # ms) j =
     (case sd_AddMatch L (f @ ''='' @ v) j of
        (True, j) \<Rightarrow> add_matches L ms j
      | (False, j) \<Rightarrow> (False, j))"

text \<open>The entry of the cursor is skipped by one step.\<close>

definition seek :: "'j sd_lib \<Rightarrow> string \<Rightarrow> 'j \<Rightarrow> 'j" where
  "seek L cursor j =
     (if cursor \<noteq> [] then
        (case sd_SeekCursor L cursor j of
           (True, j) \<Rightarrow> snd (sd_Next L j)
         | (False, j) \<Rightarrow> sd_SeekHead L j)
      else sd_SeekHead L j)"

text \<open>
  The loop over the entries, \<open>None\<close> if it never ends: the entries found, the last cursor and whether
  reading failed.
\<close>

partial_function (option) read_entries ::
  "'j sd_lib \<Rightarrow> 'j \<Rightarrow> event_record list \<Rightarrow> (event_record list \<times> bool \<times> 'j) option" where
  "read_entries L j entries =
     (case sd_Next L j of
        (None, j) \<Rightarrow> Some (entries, False, j)
      | (Some n, j) \<Rightarrow>
          if n = 0 then Some (entries, True, j)
          else (case parseEntry L j of
            None \<Rightarrow> read_entries L j entries
          | Some r \<Rightarrow> read_entries L j (entries @ [r])))"

definition SDPoll ::
  "'j sd_lib \<Rightarrow> event_filter list \<Rightarrow> string \<Rightarrow> 'j \<Rightarrow> (log_error + event_record list \<times> string) option" where
  "SDPoll L ms cursor j =
     (case add_matches L ms (sd_FlushMatches L (sd_Process L j)) of
        (False, _) \<Rightarrow> Some (Inl SourceError)
      | (True, j) \<Rightarrow>
          (case read_entries L (seek L cursor j) [] of
             None \<Rightarrow> None
           | Some (entries, ok, _) \<Rightarrow>
               Some (if ok then Inr (entries, if entries = [] then [] else ev_Cursor (last entries)) else Inl SourceError)))"

text \<open>One wait for the descriptor of the journal, whose polls return in turn: \<open>None\<close> if it still waits.\<close>

datatype poll_result = CtxDoneFirst | Interrupted | PollFailed | TimedOut | Readable

fun waitForJournal :: "poll_result list \<Rightarrow> bool option" where
  "waitForJournal [] = None"
| "waitForJournal (r # rs) =
     (case r of
        CtxDoneFirst \<Rightarrow> Some False
      | Interrupted \<Rightarrow> waitForJournal rs
      | PollFailed \<Rightarrow> Some False
      | TimedOut \<Rightarrow> waitForJournal rs
      | Readable \<Rightarrow> Some True)"

text \<open>
  \<open>Follow\<close> after its setup: it reads what there is, waits, and lets the library take in what others
  have done meanwhile, each wait ending in \<open>Some\<close> change of the journal or for good; a consumer
  that takes every record. \<open>refresh\<close> is \<open>Process\<close>, or nothing where the descriptor cannot be had and
  the blocking wait of the library is used.
\<close>

fun follow_waits :: "'j sd_lib \<Rightarrow> ('j \<Rightarrow> 'j) \<Rightarrow> ('j \<Rightarrow> 'j) option list \<Rightarrow> 'j \<Rightarrow> event_record list option" where
  "follow_waits L refresh waits j =
     (case read_entries L j [] of
        None \<Rightarrow> None
      | Some (entries, ok, j) \<Rightarrow>
          if \<not> ok then Some entries
          else (case waits of
            [] \<Rightarrow> Some entries
          | None # _ \<Rightarrow> Some entries
          | Some change # rest \<Rightarrow> map_option ((@) entries) (follow_waits L refresh rest (refresh (change j)))))"

declare follow_waits.simps [simp del]

definition followWithGoroutine :: "'j sd_lib \<Rightarrow> ('j \<Rightarrow> 'j) option list \<Rightarrow> 'j \<Rightarrow> event_record list option" where
  "followWithGoroutine L waits j = follow_waits L (\<lambda>j. j) waits j"

definition SDFollow ::
  "'j sd_lib \<Rightarrow> bool \<Rightarrow> event_filter list \<Rightarrow> string \<Rightarrow> ('j \<Rightarrow> 'j) option list \<Rightarrow> 'j \<Rightarrow> event_record list option" where
  "SDFollow L has_fd ms cursor waits j =
     (case add_matches L ms (sd_FlushMatches L j) of
        (False, _) \<Rightarrow> Some []
      | (True, j) \<Rightarrow>
          if has_fd then follow_waits L (sd_Process L) waits (seek L cursor j)
          else followWithGoroutine L waits (seek L cursor j))"

section \<open>What the manual promises\<close>

text \<open>
  A view of the state of the library: the entries it knows and those in the files, each with its
  cursor; the matches; and where the next entry is looked for.
\<close>

record sd_view =
  sv_log :: "(string \<times> raw_entry) list"
  sv_disk :: "(string \<times> raw_entry) list"
  sv_matches :: "string list"
  sv_next :: nat

definition record_of :: "string \<times> raw_entry \<Rightarrow> event_record" where
  "record_of e = \<lparr>ev_Cursor = fst e,
     ev_Timestamp = int (unat (re_realtime (snd e)) div 1000000) * 1000000000 + int ((unat (re_realtime (snd e)) mod 1000000) * 1000),
     ev_Message = (case re_fields (snd e) ''MESSAGE'' of None \<Rightarrow> [] | Some m \<Rightarrow> m), ev_Fields = re_fields (snd e)\<rparr>"

text \<open>Matches on one field are alternatives, and those on different fields all have to hold.\<close>

definition match_parts :: "string \<Rightarrow> string \<times> string" where
  "match_parts m = (case go_cut m ''='' of Some p \<Rightarrow> p | None \<Rightarrow> (m, []))"

definition selected :: "string list \<Rightarrow> raw_entry \<Rightarrow> bool" where
  "selected ms raw \<longleftrightarrow> (\<forall>m \<in> set ms. \<exists>m' \<in> set ms. fst (match_parts m') = fst (match_parts m) \<and>
     re_fields raw (fst (match_parts m')) = Some (snd (match_parts m')))"

definition field_ok :: "string \<Rightarrow> bool" where
  "field_ok f \<longleftrightarrow> f \<noteq> [] \<and> (\<forall>c \<in> set f. c \<in> set ''ABCDEFGHIJKLMNOPQRSTUVWXYZ0123456789_'')"

definition hits :: "sd_view \<Rightarrow> nat list" where
  "hits v = filter (\<lambda>i. selected (sv_matches v) (snd (sv_log v ! i))) [sv_next v..<length (sv_log v)]"

definition next_law :: "'j sd_lib \<Rightarrow> ('j \<Rightarrow> sd_view) \<Rightarrow> 'j \<Rightarrow> bool" where
  "next_law L view j \<longleftrightarrow> (case hits (view j) of
         [] \<Rightarrow> \<exists>j'. sd_Next L j = (Some 0, j') \<and> view j' = (view j)\<lparr>sv_next := length (sv_log (view j))\<rparr>
       | i # _ \<Rightarrow> \<exists>j'. sd_Next L j = (Some 1, j') \<and> view j' = (view j)\<lparr>sv_next := i + 1\<rparr> \<and>
           sd_GetEntry L j' = Some (snd (sv_log (view j) ! i)) \<and> sd_GetCursor L j' = Some (fst (sv_log (view j) ! i)))"

definition documented :: "'j sd_lib \<Rightarrow> ('j \<Rightarrow> sd_view) \<Rightarrow> bool" where
  "documented L view \<longleftrightarrow>
     (\<forall>j. view (sd_Process L j) = (view j)\<lparr>sv_log := sv_disk (view j)\<rparr>) \<and>
     (\<forall>j. view (sd_FlushMatches L j) = (view j)\<lparr>sv_matches := []\<rparr>) \<and>
     (\<forall>j f v. field_ok f \<longrightarrow> (\<exists>j'. sd_AddMatch L (f @ ''='' @ v) j = (True, j') \<and>
        view j' = (view j)\<lparr>sv_matches := sv_matches (view j) @ [f @ ''='' @ v]\<rparr>)) \<and>
     (\<forall>j. view (sd_SeekHead L j) = (view j)\<lparr>sv_next := 0\<rparr>) \<and>
     (\<forall>j i. i < length (sv_log (view j)) \<longrightarrow> distinct (map fst (sv_log (view j))) \<longrightarrow>
        (\<exists>j'. sd_SeekCursor L (fst (sv_log (view j) ! i)) j = (True, j') \<and> view j' = (view j)\<lparr>sv_next := i\<rparr>)) \<and>
     (\<forall>j. next_law L view j)"

section \<open>Reading\<close>

lemma upt_filter_tail: "filter P [a..<b] = i # is \<Longrightarrow> filter P [i + 1..<b] = is \<and> P i \<and> a \<le> i \<and> i < b"
proof (induction "b - a" arbitrary: a)
  case (Suc n)
  then have "a < b" by linarith
  then have u: "[a..<b] = a # [a + 1..<b]" by (simp add: upt_rec)
  show ?case
  proof (cases "P a")
    case True
    then show ?thesis using Suc(3) u \<open>a < b\<close> by auto
  next
    case False
    then have "filter P [a + 1..<b] = i # is" using Suc(3) u by simp
    moreover have "n = b - (a + 1)" using Suc(2) by simp
    ultimately show ?thesis using Suc(1)[of "a + 1"] by simp
  qed
qed simp

lemma filter_from: "map (\<lambda>i. f (xs ! i)) (filter (\<lambda>i. P (xs ! i)) [n..<length xs]) = map f (filter P (drop n xs))"
proof -
  have "drop n xs = map ((!) xs) [n..<length xs]"
    by (rule nth_equalityI) (simp_all add: add.commute)
  then show ?thesis by (simp add: filter_map comp_def)
qed

lemma next_hit:
  assumes "documented L view" and "hits (view j) = i # is"
  obtains j' where "sd_Next L j = (Some 1, j')" and "view j' = (view j)\<lparr>sv_next := i + 1\<rparr>"
    and "parseEntry L j' = Some (record_of (sv_log (view j) ! i))" and "hits (view j') = is"
proof -
  have d: "next_law L view j" using assms(1) by (simp add: documented_def)
  then obtain j' where j': "sd_Next L j = (Some 1, j')" "view j' = (view j)\<lparr>sv_next := i + 1\<rparr>"
    "sd_GetEntry L j' = Some (snd (sv_log (view j) ! i))" "sd_GetCursor L j' = Some (fst (sv_log (view j) ! i))"
    unfolding next_law_def assms(2) by auto
  show ?thesis
  proof (rule that[OF j'(1,2)])
    show "parseEntry L j' = Some (record_of (sv_log (view j) ! i))"
      by (simp add: parseEntry_def record_of_def j'(3,4))
    show "hits (view j') = is" using upt_filter_tail[OF assms(2)[unfolded hits_def]] by (simp add: hits_def j'(2))
  qed
qed

lemma next_end:
  assumes "documented L view" and "hits (view j) = []"
  obtains j' where "sd_Next L j = (Some 0, j')" and "view j' = (view j)\<lparr>sv_next := length (sv_log (view j))\<rparr>"
proof -
  have "next_law L view j" using assms(1) by (simp add: documented_def)
  then show ?thesis unfolding next_law_def assms(2) using that by auto
qed

text \<open>The entries the loop finds are those selected from the place it starts at, and it ends.\<close>

definition found :: "sd_view \<Rightarrow> event_record list" where
  "found v = map record_of (filter (\<lambda>e. selected (sv_matches v) (snd e)) (drop (sv_next v) (sv_log v)))"

lemma found_hits: "found v = map (\<lambda>i. record_of (sv_log v ! i)) (hits v)"
  by (simp add: found_def hits_def filter_from[of record_of "sv_log v" "\<lambda>e. selected (sv_matches v) (snd e)"])

lemma read_entries_found:
  assumes "documented L view"
  shows "\<exists>j'. read_entries L j acc = Some (acc @ found (view j), True, j') \<and>
    view j' = (view j)\<lparr>sv_next := length (sv_log (view j))\<rparr>"
proof -
  have "\<exists>j'. read_entries L j acc = Some (acc @ map (\<lambda>i. record_of (sv_log (view j) ! i)) is, True, j') \<and>
      view j' = (view j)\<lparr>sv_next := length (sv_log (view j))\<rparr>" if "hits (view j) = is" for "is"
    using that
  proof (induction "is" arbitrary: j acc)
    case Nil
    obtain j' where "sd_Next L j = (Some 0, j')" "view j' = (view j)\<lparr>sv_next := length (sv_log (view j))\<rparr>"
      by (rule next_end[OF assms Nil])
    then show ?case by (subst read_entries.simps) simp
  next
    case (Cons i "is")
    obtain j' where j': "sd_Next L j = (Some 1, j')" "view j' = (view j)\<lparr>sv_next := i + 1\<rparr>"
      "parseEntry L j' = Some (record_of (sv_log (view j) ! i))" "hits (view j') = is"
      by (rule next_hit[OF assms Cons(2)])
    from Cons(1)[OF j'(4), of "acc @ [record_of (sv_log (view j) ! i)]"] j'(1-3) show ?case
      by (subst read_entries.simps) simp
  qed
  then show ?thesis by (simp add: found_hits)
qed

text \<open>Setting the matches and seeking.\<close>

definition match_text :: "event_filter \<Rightarrow> string" where
  "match_text m = fst m @ ''='' @ snd m"

lemma add_match_law:
  "documented L view \<Longrightarrow> field_ok f \<Longrightarrow> \<exists>j'. sd_AddMatch L (f @ ''='' @ v) j = (True, j') \<and>
    view j' = (view j)\<lparr>sv_matches := sv_matches (view j) @ [f @ ''='' @ v]\<rparr>"
  by (simp add: documented_def)

lemma seek_cursor_law:
  "documented L view \<Longrightarrow> k < length (sv_log (view j)) \<Longrightarrow> distinct (map fst (sv_log (view j))) \<Longrightarrow>
    \<exists>j'. sd_SeekCursor L (fst (sv_log (view j) ! k)) j = (True, j') \<and> view j' = (view j)\<lparr>sv_next := k\<rparr>"
  by (simp add: documented_def)

lemma add_matches_view:
  assumes "documented L view" and "\<forall>m \<in> set ms. field_ok (fst m)"
  shows "\<exists>j'. add_matches L ms j = (True, j') \<and> view j' = (view j)\<lparr>sv_matches := sv_matches (view j) @ map match_text ms\<rparr>"
  using assms(2)
proof (induction ms arbitrary: j)
  case (Cons m ms)
  obtain f v where m: "m = (f, v)" by (cases m)
  have "field_ok f" using Cons(2) m by simp
  from add_match_law[OF assms(1) this, of v j] obtain j' where j': "sd_AddMatch L (f @ ''='' @ v) j = (True, j')"
    "view j' = (view j)\<lparr>sv_matches := sv_matches (view j) @ [f @ ''='' @ v]\<rparr>"
    by (elim exE conjE)
  from Cons(1)[of j'] Cons(2) obtain j'' where "add_matches L ms j' = (True, j'')"
    "view j'' = (view j')\<lparr>sv_matches := sv_matches (view j') @ map match_text ms\<rparr>" by auto
  then show ?case using j' by (simp add: m match_text_def)
qed simp

lemma match_parts_text: "field_ok (fst m) \<Longrightarrow> match_parts (match_text m) = m"
proof -
  assume f: "field_ok (fst m)"
  have "CHR ''='' \<notin> set (fst m)"
  proof
    assume "CHR ''='' \<in> set (fst m)"
    then have "CHR ''='' \<in> set ''ABCDEFGHIJKLMNOPQRSTUVWXYZ0123456789_''" using f by (simp only: field_ok_def)
    then show False by simp
  qed
  then show ?thesis using go_cut_single[of "CHR ''=''" "fst m" "snd m"]
    by (simp add: match_parts_def match_text_def)
qed

lemma selected_filters:
  assumes "distinct (map fst ms)" and "\<forall>m \<in> set ms. field_ok (fst m)"
  shows "selected (map match_text ms) (snd e) \<longleftrightarrow> matchesFilters (record_of e) ms"
proof -
  have u: "snd m' = snd m" if "m \<in> set ms" "m' \<in> set ms" "fst m' = fst m" for m m' :: event_filter
    using assms(1) that by (metis distinct_map inj_onD)
  have "selected (map match_text ms) (snd e) \<longleftrightarrow> (\<forall>m \<in> set ms. re_fields (snd e) (fst m) = Some (snd m))"
  proof
    assume s: "selected (map match_text ms) (snd e)"
    show "\<forall>m \<in> set ms. re_fields (snd e) (fst m) = Some (snd m)"
    proof
      fix m assume m: "m \<in> set ms"
      then have "match_text m \<in> set (map match_text ms)" by simp
      with s obtain x where x: "x \<in> set (map match_text ms)" "fst (match_parts x) = fst (match_parts (match_text m))"
        "re_fields (snd e) (fst (match_parts x)) = Some (snd (match_parts x))"
        unfolding selected_def by blast
      then obtain m' where m': "m' \<in> set ms" "x = match_text m'" by auto
      have p: "match_parts x = m'" "match_parts (match_text m) = m" using m m' assms(2) by (simp_all add: match_parts_text)
      have "snd m' = snd m" using u[OF m m'(1)] x(2) p by simp
      then show "re_fields (snd e) (fst m) = Some (snd m)" using x(2,3) p by simp
    qed
  next
    assume a: "\<forall>m \<in> set ms. re_fields (snd e) (fst m) = Some (snd m)"
    then show "selected (map match_text ms) (snd e)"
      using assms(2) by (auto simp: selected_def match_parts_text intro!: bexI)
  qed
  then show ?thesis by (auto simp: matchesFilters_def record_of_def list_all_iff)
qed

lemma seek_head: "documented L view \<Longrightarrow> view (seek L [] j) = (view j)\<lparr>sv_next := 0\<rparr>"
  by (simp add: seek_def documented_def)

lemma seek_after:
  assumes "documented L view" and "k < length (sv_log (view j))" and "distinct (map fst (sv_log (view j)))"
    and "fst (sv_log (view j) ! k) \<noteq> []"
  shows "\<exists>n. view (seek L (fst (sv_log (view j) ! k)) j) = (view j)\<lparr>sv_next := n\<rparr> \<and>
    found ((view j)\<lparr>sv_next := n\<rparr>) = (let later = found ((view j)\<lparr>sv_next := k + 1\<rparr>) in
      if selected (sv_matches (view j)) (snd (sv_log (view j) ! k)) then later else tl later)"
proof -
  obtain j' where j': "sd_SeekCursor L (fst (sv_log (view j) ! k)) j = (True, j')" "view j' = (view j)\<lparr>sv_next := k\<rparr>"
    using seek_cursor_law[OF assms(1-3)] by (elim exE conjE)
  have s: "seek L (fst (sv_log (view j) ! k)) j = snd (sd_Next L j')" using assms(4) j'(1) by (simp add: seek_def)
  have u: "[k..<length (sv_log (view j))] = k # [k + 1..<length (sv_log (view j))]" using assms(2) by (simp add: upt_rec)
  have h: "hits (view j') = (if selected (sv_matches (view j)) (snd (sv_log (view j) ! k)) then [k] else []) @
      hits ((view j)\<lparr>sv_next := k + 1\<rparr>)"
    by (simp add: hits_def j'(2) u)
  show ?thesis
  proof (cases "hits (view j')")
    case Nil
    obtain j'' where "sd_Next L j' = (Some 0, j'')" "view j'' = (view j')\<lparr>sv_next := length (sv_log (view j'))\<rparr>"
      by (rule next_end[OF assms(1) Nil])
    moreover have "hits ((view j)\<lparr>sv_next := k + 1\<rparr>) = []" using h Nil by (auto split: if_splits)
    ultimately show ?thesis using s j'(2) h Nil
      by (intro exI[of _ "length (sv_log (view j))"]) (auto simp: found_hits Let_def hits_def)
  next
    case (Cons i "is")
    obtain j'' where j'': "sd_Next L j' = (Some 1, j'')" "view j'' = (view j')\<lparr>sv_next := i + 1\<rparr>" "hits (view j'') = is"
      by (rule next_hit[OF assms(1) Cons])
    have v: "view j'' = (view j)\<lparr>sv_next := i + 1\<rparr>" using j''(2) j'(2) by simp
    have "is = (if selected (sv_matches (view j)) (snd (sv_log (view j) ! k)) then hits ((view j)\<lparr>sv_next := k + 1\<rparr>)
        else tl (hits ((view j)\<lparr>sv_next := k + 1\<rparr>)))"
      using arg_cong[OF h, of tl] Cons h by (simp split: if_splits)
    then have "found (view j'') = (let later = found ((view j)\<lparr>sv_next := k + 1\<rparr>) in
      if selected (sv_matches (view j)) (snd (sv_log (view j) ! k)) then later else tl later)"
      using j''(3) v by (simp add: found_hits Let_def map_tl)
    then show ?thesis using s j''(1) v by (intro exI[of _ "i + 1"]) simp
  qed
qed

section \<open>What is read\<close>

text \<open>The records that match, from the start or after the record \<open>k\<close> as the code skips it.\<close>

definition wanted :: "event_filter list \<Rightarrow> event_record list \<Rightarrow> event_record list" where
  "wanted ms rs = filter (\<lambda>e. matchesFilters e ms) rs"

definition resumed :: "event_filter list \<Rightarrow> event_record list \<Rightarrow> nat \<Rightarrow> event_record list" where
  "resumed ms rs k =
     (let later = wanted ms (drop (k + 1) rs) in if matchesFilters (rs ! k) ms then later else tl later)"

definition cursor_of :: "event_record list \<Rightarrow> string" where
  "cursor_of rs = (if rs = [] then [] else ev_Cursor (last rs))"

text \<open>A change by others: entries are added to the files.\<close>

definition appends :: "('j \<Rightarrow> sd_view) \<Rightarrow> ('j \<Rightarrow> 'j) \<Rightarrow> (string \<times> raw_entry) list \<Rightarrow> bool" where
  "appends view f es \<longleftrightarrow> (\<forall>j. view (f j) = (view j)\<lparr>sv_disk := sv_disk (view j) @ es\<rparr>)"

lemma found_wanted:
  assumes "distinct (map fst ms)" and "\<forall>m \<in> set ms. field_ok (fst m)" and "sv_matches v = map match_text ms"
  shows "found v = wanted ms (drop (sv_next v) (map record_of (sv_log v)))"
  using assms(3) selected_filters[OF assms(1,2)]
  by (simp add: found_def wanted_def drop_map filter_map comp_def)

lemma follow_waits_found:
  assumes "documented L view" and "list_all2 (appends view) fs ess" and "sv_log (view j) = sv_disk (view j)"
    and "sv_next (view j) \<le> length (sv_log (view j))"
  shows "follow_waits L (sd_Process L) (map Some fs @ [None]) j =
    Some (found ((view j)\<lparr>sv_log := sv_log (view j) @ concat ess\<rparr>))"
  using assms(2-)
proof (induction fs ess arbitrary: j rule: list_all2_induct)
  case Nil
  from read_entries_found[OF assms(1), of j "[]"] show ?case by (auto simp: follow_waits.simps)
next
  case (Cons f fs es ess)
  obtain j' where r: "read_entries L j [] = Some (found (view j), True, j')"
    "view j' = (view j)\<lparr>sv_next := length (sv_log (view j))\<rparr>"
    using read_entries_found[OF assms(1), of j "[]"] by auto
  let ?j = "sd_Process L (f j')"
  have v: "view ?j = (view j)\<lparr>sv_log := sv_disk (view j) @ es, sv_disk := sv_disk (view j) @ es, sv_next := length (sv_log (view j))\<rparr>"
    using Cons(1) r(2) assms(1) by (simp add: appends_def documented_def)
  have "follow_waits L (sd_Process L) (map Some fs @ [None]) ?j =
      Some (found ((view ?j)\<lparr>sv_log := sv_log (view ?j) @ concat ess\<rparr>))"
    using Cons(3)[of ?j] v Cons(4) by simp
  moreover have "found (view j) @ found ((view ?j)\<lparr>sv_log := sv_log (view ?j) @ concat ess\<rparr>) =
      found ((view j)\<lparr>sv_log := sv_log (view j) @ concat (es # ess)\<rparr>)"
    using v Cons(4,5) by (simp add: found_def)
  ultimately show ?case by (subst follow_waits.simps) (simp add: r(1))
qed

text \<open>
  C8. Polling the systemd journal from its start yields every matching record, and following it
  every matching record once, also those written while it waits. From the cursor of a record that
  matches it yields those after it; but from the cursor of a record that does not match the filters
  the next matching record is skipped as well.
\<close>

theorem systemd_journal_read:
  assumes "documented L view" and "distinct (map fst ms)" and "\<forall>m \<in> set ms. field_ok (fst m)"
    and "distinct (map fst (sv_disk (view j)))" and "\<forall>e \<in> set (sv_disk (view j)). fst e \<noteq> []"
    and "recs = map record_of (sv_disk (view j))"
  shows "SDPoll L ms [] j = Some (Inr (wanted ms recs, cursor_of (wanted ms recs))) \<and>
    (\<forall>k < length recs. SDPoll L ms (ev_Cursor (recs ! k)) j =
      Some (Inr (resumed ms recs k, cursor_of (resumed ms recs k)))) \<and>
    (\<forall>fs ess. list_all2 (appends view) fs ess \<longrightarrow> sv_log (view j) = sv_disk (view j) \<longrightarrow>
      SDFollow L True ms [] (map Some fs @ [None]) j = Some (wanted ms (recs @ map record_of (concat ess))))"
proof (intro conjI allI impI)
  let ?v = "view j"
  define p where "p = sd_FlushMatches L (sd_Process L j)"
  have p: "view p = ?v\<lparr>sv_log := sv_disk ?v, sv_matches := []\<rparr>" using assms(1) by (simp add: p_def documented_def)
  from add_matches_view[OF assms(1,3), of p] obtain j' where
    j': "add_matches L ms p = (True, j')" "view j' = ?v\<lparr>sv_log := sv_disk ?v, sv_matches := map match_text ms\<rparr>"
    using p by auto
  have poll: "SDPoll L ms c j = Some (Inr (es, cursor_of es))" if "found (view (seek L c j')) = es" for c es
    using read_entries_found[OF assms(1), of "seek L c j'" "[]"] j'(1) that
    by (auto simp: SDPoll_def p_def[symmetric] cursor_of_def)
  note fw = found_wanted[OF assms(2,3)]
  show "SDPoll L ms [] j = Some (Inr (wanted ms recs, cursor_of (wanted ms recs)))"
    by (rule poll) (simp add: seek_head[OF assms(1)] j'(2) fw assms(6))
  fix k assume k: "k < length recs"
  have c: "ev_Cursor (recs ! k) = fst (sv_log (view j') ! k)" "k < length (sv_log (view j'))"
    using k assms(6) by (simp_all add: j'(2) record_of_def)
  have "\<exists>n. view (seek L (ev_Cursor (recs ! k)) j') = (view j')\<lparr>sv_next := n\<rparr> \<and>
      found ((view j')\<lparr>sv_next := n\<rparr>) = (let later = found ((view j')\<lparr>sv_next := k + 1\<rparr>) in
        if selected (sv_matches (view j')) (snd (sv_log (view j') ! k)) then later else tl later)"
    unfolding c(1) using assms(4,5) c(2) by (intro seek_after[OF assms(1)]) (simp_all add: j'(2))
  moreover have "selected (sv_matches (view j')) (snd (sv_log (view j') ! k)) \<longleftrightarrow> matchesFilters (recs ! k) ms"
    using selected_filters[OF assms(2,3)] k assms(6) by (simp add: j'(2))
  moreover have "found ((view j')\<lparr>sv_next := k + 1\<rparr>) = wanted ms (drop (k + 1) recs)"
    by (simp add: fw j'(2) assms(6))
  ultimately have "found (view (seek L (ev_Cursor (recs ! k)) j')) = resumed ms recs k"
    by (auto simp: resumed_def Let_def)
  then show "SDPoll L ms (ev_Cursor (recs ! k)) j = Some (Inr (resumed ms recs k, cursor_of (resumed ms recs k)))"
    by (rule poll)
next
  fix fs ess assume a: "list_all2 (appends view) fs ess" "sv_log (view j) = sv_disk (view j)"
  let ?v = "view j"
  have p: "view (sd_FlushMatches L j) = ?v\<lparr>sv_matches := []\<rparr>" using assms(1) by (simp add: documented_def)
  from add_matches_view[OF assms(1,3), of "sd_FlushMatches L j"] obtain j' where
    j': "add_matches L ms (sd_FlushMatches L j) = (True, j')" "view j' = ?v\<lparr>sv_matches := map match_text ms\<rparr>"
    using p by auto
  have v: "view (seek L [] j') = ?v\<lparr>sv_matches := map match_text ms, sv_next := 0\<rparr>"
    by (simp add: seek_head[OF assms(1)] j'(2))
  then show "SDFollow L True ms [] (map Some fs @ [None]) j = Some (wanted ms (recs @ map record_of (concat ess)))"
    using follow_waits_found[OF assms(1) a(1), of "seek L [] j'"] a(2)
    by (simp add: SDFollow_def followWithGoroutine_def j'(1) found_wanted[OF assms(2,3)] assms(6))
qed

text \<open>A library that does what the manual says, over a view of its state and the entry it stands on.\<close>

type_synonym ref_journal = "sd_view \<times> (string \<times> raw_entry) option"

fun ref_find :: "(string \<times> raw_entry) list \<Rightarrow> string \<Rightarrow> nat \<Rightarrow> nat option" where
  "ref_find [] c i = None"
| "ref_find (e # es) c i = (if fst e = c then Some i else ref_find es c (i + 1))"

definition ref_lib :: "ref_journal sd_lib" where
  "ref_lib = \<lparr>
     sd_Process = (\<lambda>(v, c). (v\<lparr>sv_log := sv_disk v\<rparr>, c)),
     sd_FlushMatches = (\<lambda>(v, c). (v\<lparr>sv_matches := []\<rparr>, c)),
     sd_AddMatch = (\<lambda>m (v, c). (True, (v\<lparr>sv_matches := sv_matches v @ [m]\<rparr>, c))),
     sd_SeekHead = (\<lambda>(v, c). (v\<lparr>sv_next := 0\<rparr>, None)),
     sd_SeekCursor = (\<lambda>s (v, c). case ref_find (sv_log v) s 0 of
        None \<Rightarrow> (False, (v, c)) | Some i \<Rightarrow> (True, (v\<lparr>sv_next := i\<rparr>, None))),
     sd_Next = (\<lambda>(v, c). case hits v of
        [] \<Rightarrow> (Some 0, (v\<lparr>sv_next := length (sv_log v)\<rparr>, None))
      | i # _ \<Rightarrow> (Some 1, (v\<lparr>sv_next := i + 1\<rparr>, Some (sv_log v ! i)))),
     sd_GetEntry = (\<lambda>(v, c). map_option snd c),
     sd_GetCursor = (\<lambda>(v, c). map_option fst c)\<rparr>"

lemma ref_find_nth:
  "distinct (map fst es) \<Longrightarrow> i < length es \<Longrightarrow> ref_find es (fst (es ! i)) n = Some (n + i)"
proof (induction es arbitrary: i n)
  case (Cons e es)
  then show ?case by (cases i) auto
qed simp

lemma ref_lib_documented: "documented ref_lib fst"
proof -
  have "next_law ref_lib fst j" for j
    by (cases j) (simp add: next_law_def ref_lib_def split: list.split)
  then show ?thesis by (simp add: documented_def ref_lib_def case_prod_beta ref_find_nth)
qed

text \<open>
  Three records of two sessions: from the cursor of a record of the other session, the one record
  of the session after it is missed.
\<close>

definition sample_records :: "(string \<times> raw_entry) list" where
  "sample_records =
     [(''a'', \<lparr>re_realtime = 1, re_fields = [FieldSession \<mapsto> ''X'']\<rparr>),
      (''b'', \<lparr>re_realtime = 2, re_fields = [FieldSession \<mapsto> ''Y'']\<rparr>),
      (''c'', \<lparr>re_realtime = 3, re_fields = [FieldSession \<mapsto> ''X'']\<rparr>)]"

theorem systemd_journal_read_witness:
  "let j = (\<lparr>sv_log = [], sv_disk = sample_records, sv_matches = [], sv_next = 0\<rparr>, None);
      c = record_of (sample_records ! 2) in
   SDPoll ref_lib [FilterBySession ''X''] ''a'' j = Some (Inr ([c], ''c'')) \<and>
   SDPoll ref_lib [FilterBySession ''X''] ''b'' j = Some (Inr ([], []))"
proof -
  let ?j = "(\<lparr>sv_log = [], sv_disk = sample_records, sv_matches = [], sv_next = 0\<rparr>, None) :: ref_journal"
  have a: "distinct (map fst [FilterBySession ''X''])" by simp
  have b: "\<forall>m \<in> set [FilterBySession ''X'']. field_ok (fst m)"
    by (simp add: FilterBySession_def FieldSession_def field_ok_def)
  have c: "distinct (map fst (sv_disk (fst ?j)))" "\<forall>e \<in> set (sv_disk (fst ?j)). fst e \<noteq> []"
    by (simp_all add: sample_records_def)
  note t = systemd_journal_read[OF ref_lib_documented a b c refl, THEN conjunct2, THEN conjunct1, rule_format]
  show ?thesis
    using t[of 0] t[of 1]
    by (simp add: Let_def sample_records_def resumed_def wanted_def cursor_of_def record_of_def
      matchesFilters_def FilterBySession_def)
qed

end
