(* ===== verification/Backends.thy ===== *)
theory Backends
  imports PosixBackend
begin

text \<open>
  Choosing and opening a backend, \<open>internal/backend/backend.go\<close>, and what the methods of the systemd
  backend (\<open>internal/backend/systemd/backend.go\<close>) add to its units and its log: opening, closing,
  listing and the calls handed on. The environment is a state, since choosing a backend completes it.
\<close>

section \<open>Kinds and registration\<close>

definition KindSystemd :: string where "KindSystemd = ''systemd''"
definition KindPosix :: string where "KindPosix = ''posix''"

record backend_config =
  bc_Kind :: string
  bc_StateDir :: string
  bc_RuntimeDir :: string
  bc_HostCommand :: "string list"

text \<open>\<open>Register\<close> panics, as \<open>None\<close>, on an empty kind, without an opener, and on a kind that is taken.\<close>

definition Register :: "string \<Rightarrow> 'o option \<Rightarrow> (string \<Rightarrow> 'o option) \<Rightarrow> (string \<Rightarrow> 'o option) option" where
  "Register kind opener openers =
     (if kind = [] then None
      else case opener of
        None \<Rightarrow> None
      | Some f \<Rightarrow> if openers kind \<noteq> None then None else Some (openers(kind \<mapsto> f)))"

section \<open>The user environment of systemd\<close>

text \<open>\<open>exists\<close> says whether a path can be stat'ed and \<open>uid\<close> is the text of the user's number.\<close>

definition hasSystemdRuntime :: "(string \<Rightarrow> bool) \<Rightarrow> string \<Rightarrow> string \<Rightarrow> bool" where
  "hasSystemdRuntime exists busAddress runtimeDir =
     (busAddress \<noteq> [] \<and> runtimeDir \<noteq> [] \<and> exists (path_join [runtimeDir, ''systemd'', ''private'']))"

definition prepareSystemdUserEnvironment :: "(string \<Rightarrow> bool) \<Rightarrow> string \<Rightarrow> env \<Rightarrow> bool \<times> env" where
  "prepareSystemdUserEnvironment exists uid e =
     (let runtimeDir = (if getenv e ''XDG_RUNTIME_DIR'' = [] then path_join [''/run/user'', uid] else getenv e ''XDG_RUNTIME_DIR'');
          busPath = path_join [runtimeDir, ''bus'']
      in
      if getenv e ''DBUS_SESSION_BUS_ADDRESS'' = [] \<and> \<not> exists busPath then (False, e)
      else let busAddress = (if getenv e ''DBUS_SESSION_BUS_ADDRESS'' = [] then ''unix:path='' @ busPath
                             else getenv e ''DBUS_SESSION_BUS_ADDRESS'') in
        if \<not> hasSystemdRuntime exists busAddress runtimeDir then (False, e)
        else let e1 = (if getenv e ''XDG_RUNTIME_DIR'' = [] then e(''XDG_RUNTIME_DIR'' \<mapsto> runtimeDir) else e);
                 e2 = (if getenv e1 ''DBUS_SESSION_BUS_ADDRESS'' = [] then e1(''DBUS_SESSION_BUS_ADDRESS'' \<mapsto> busAddress) else e1)
             in (True, e2))"

definition DetectKind :: "(string \<Rightarrow> bool) \<Rightarrow> string \<Rightarrow> env \<Rightarrow> string \<times> env" where
  "DetectKind exists uid e =
     (case prepareSystemdUserEnvironment exists uid e of (ok, e) \<Rightarrow> (if ok then KindSystemd else KindPosix, e))"

section \<open>Opening\<close>

text \<open>What the system tells about itself: directories, the user and the program.\<close>

record system_info =
  si_exists :: "string \<Rightarrow> bool"
  si_uid :: string
  si_tempDir :: string
  si_freebsd :: bool
  si_user :: "(string \<times> string) option"
  si_is_dir :: "string \<Rightarrow> bool"
  si_executable :: "string option"

definition withDefaults :: "system_info \<Rightarrow> backend_config \<Rightarrow> env \<Rightarrow> backend_config \<times> env" where
  "withDefaults si cfg e =
     (let (kind, e) = (if bc_Kind cfg = [] then DetectKind (si_exists si) (si_uid si) e else (bc_Kind cfg, e));
          e = (if kind = KindSystemd then snd (prepareSystemdUserEnvironment (si_exists si) (si_uid si) e) else e)
      in (\<lparr>bc_Kind = kind,
           bc_StateDir = (if bc_StateDir cfg = [] then StateDir e (si_tempDir si) else bc_StateDir cfg),
           bc_RuntimeDir = (if bc_RuntimeDir cfg = [] then RuntimeDir e (si_tempDir si) (si_freebsd si) (si_user si) (si_is_dir si)
             else bc_RuntimeDir cfg),
           bc_HostCommand = (if bc_HostCommand cfg = [] then
               (case si_executable si of Some exe \<Rightarrow> [exe, ''host''] | None \<Rightarrow> []) else bc_HostCommand cfg)\<rparr>, e))"

datatype open_error = UnknownBackend string | OpenFailed string

definition Open :: "system_info \<Rightarrow> (string \<Rightarrow> (backend_config \<Rightarrow> env \<Rightarrow> string + 'b) option) \<Rightarrow> backend_config \<Rightarrow> env \<Rightarrow>
    (open_error + 'b) \<times> env" where
  "Open si openers cfg e =
     (case withDefaults si cfg e of
        (cfg, e) \<Rightarrow>
          (case openers (bc_Kind cfg) of
             None \<Rightarrow> (Inl (UnknownBackend (bc_Kind cfg)), e)
           | Some f \<Rightarrow> (case f cfg e of Inl err \<Rightarrow> Inl (OpenFailed err) | Inr b \<Rightarrow> Inr b, e)))"

definition Default :: "system_info \<Rightarrow> (string \<Rightarrow> (backend_config \<Rightarrow> env \<Rightarrow> string + 'b) option) \<Rightarrow> env \<Rightarrow>
    (open_error + 'b) \<times> env" where
  "Default si openers e =
     (let (kind, e) = (if getenv e ''SWASH_BACKEND'' = [] then DetectKind (si_exists si) (si_uid si) e
                       else (getenv e ''SWASH_BACKEND'', e))
      in Open si openers \<lparr>bc_Kind = kind, bc_StateDir = [], bc_RuntimeDir = [], bc_HostCommand = []\<rparr> e)"

text \<open>\<open>filepath.Base\<close>: the last component, \<open>.\<close> for the empty path and \<open>/\<close> for one of slashes only.\<close>

definition path_base :: "string \<Rightarrow> string" where
  "path_base p =
     (if p = [] then ''.''
      else let q = rev (dropWhile (\<lambda>c. c = CHR ''/'') (rev p));
               b = rev (takeWhile (\<lambda>c. c \<noteq> CHR ''/'') (rev q))
           in if b = [] then ''/'' else b)"

datatype host_command_error = EmptyHostCommand | InvalidExecutable string

definition ValidateHostCommand :: "string list \<Rightarrow> host_command_error option" where
  "ValidateHostCommand hostCmd =
     (case hostCmd of
        [] \<Rightarrow> Some EmptyHostCommand
      | exe # _ \<Rightarrow> if path_base exe = [] then Some (InvalidExecutable exe) else None)"

text \<open>The base of a path is never empty, so the second check never fires.\<close>

lemma executable_never_rejected: "ValidateHostCommand (exe # args) = None"
  by (simp add: ValidateHostCommand_def path_base_def Let_def)

section \<open>What opening relies on\<close>

lemma getenv_update [simp]: "getenv (e(k \<mapsto> v)) k' = (if k' = k then v else getenv e k')"
  by (simp add: getenv_def)

text \<open>
  The environment is completed exactly when systemd is found: then both variables are set and a
  second look finds the same, and nothing that was set is changed. Otherwise it is left alone.
\<close>

lemma prepared_environment:
  assumes "prepareSystemdUserEnvironment exists uid e = (ok, e')"
  shows "if ok
    then (\<forall>k. getenv e k \<noteq> [] \<longrightarrow> getenv e' k = getenv e k) \<and>
      (\<forall>k. k \<noteq> ''XDG_RUNTIME_DIR'' \<longrightarrow> k \<noteq> ''DBUS_SESSION_BUS_ADDRESS'' \<longrightarrow> e' k = e k) \<and>
      hasSystemdRuntime exists (getenv e' ''DBUS_SESSION_BUS_ADDRESS'') (getenv e' ''XDG_RUNTIME_DIR'') \<and>
      prepareSystemdUserEnvironment exists uid e' = (True, e')
    else e' = e"
proof (cases ok)
  case True
  define r where "r = (if getenv e ''XDG_RUNTIME_DIR'' = [] then path_join [''/run/user'', uid] else getenv e ''XDG_RUNTIME_DIR'')"
  define a where "a = (if getenv e ''DBUS_SESSION_BUS_ADDRESS'' = [] then ''unix:path='' @ path_join [r, ''bus'']
    else getenv e ''DBUS_SESSION_BUS_ADDRESS'')"
  note p = assms(1)[unfolded prepareSystemdUserEnvironment_def Let_def, folded r_def, folded a_def]
  have c: "\<not> (getenv e ''DBUS_SESSION_BUS_ADDRESS'' = [] \<and> \<not> exists (path_join [r, ''bus'']))"
    using p True by (auto split: if_splits)
  have h: "hasSystemdRuntime exists a r" using p True by (simp split: if_splits)
  have e: "e' = (let e1 = (if getenv e ''XDG_RUNTIME_DIR'' = [] then e(''XDG_RUNTIME_DIR'' \<mapsto> r) else e)
      in if getenv e1 ''DBUS_SESSION_BUS_ADDRESS'' = [] then e1(''DBUS_SESSION_BUS_ADDRESS'' \<mapsto> a) else e1)"
    using p True c h by (simp only: Let_def if_False simp_thms prod.inject)
  have g: "getenv e' ''XDG_RUNTIME_DIR'' = r" "getenv e' ''DBUS_SESSION_BUS_ADDRESS'' = a"
    unfolding e Let_def by (simp_all add: r_def a_def)
  have n: "r \<noteq> []" "a \<noteq> []" using h by (simp_all add: hasSystemdRuntime_def)
  have "prepareSystemdUserEnvironment exists uid e' = (True, e')"
    using n h by (simp add: prepareSystemdUserEnvironment_def g)
  moreover have "getenv e' k = getenv e k" if "getenv e k \<noteq> []" for k
    unfolding e Let_def using that by (auto simp: getenv_update)
  moreover have "e' k = e k" if "k \<noteq> ''XDG_RUNTIME_DIR''" "k \<noteq> ''DBUS_SESSION_BUS_ADDRESS''" for k
    unfolding e Let_def using that by simp
  ultimately show ?thesis using True h g by simp
next
  case False
  then show ?thesis using assms(1) by (auto simp: prepareSystemdUserEnvironment_def Let_def split: if_splits)
qed

section \<open>The systemd backend\<close>

record ('p, 'l) systemd_backend =
  sb_processes :: 'p
  sb_events :: 'l
  sb_hostCommand :: "string list"

datatype ('u, 'e) systemd_open_error = BadHostCommand host_command_error | NoUserSystemd 'u | NoJournal 'e

text \<open>When the journal cannot be opened the connection to systemd is closed: the second component.\<close>

definition systemd_Open :: "'u + 'p \<Rightarrow> 'e + 'l \<Rightarrow> string list \<Rightarrow> (('u, 'e) systemd_open_error + ('p, 'l) systemd_backend) \<times> 'p list" where
  "systemd_Open connect journal hostCommand =
     (case ValidateHostCommand hostCommand of
        Some err \<Rightarrow> (Inl (BadHostCommand err), [])
      | None \<Rightarrow>
          (case connect of
             Inl err \<Rightarrow> (Inl (NoUserSystemd err), [])
           | Inr proc \<Rightarrow>
               (case journal of
                  Inl err \<Rightarrow> (Inl (NoJournal err), [proc])
                | Inr j \<Rightarrow> (Inr \<lparr>sb_processes = proc, sb_events = j, sb_hostCommand = hostCommand\<rparr>, []))))"

text \<open>Both parts are closed where they are there (\<open>None\<close>: absent); the first error is returned.\<close>

definition systemd_Close :: "'e option option \<Rightarrow> 'e option option \<Rightarrow> 'e option" where
  "systemd_Close events processes =
     (let firstErr = (case events of Some (Some err) \<Rightarrow> Some err | _ \<Rightarrow> None) in
      case processes of Some (Some err) \<Rightarrow> if firstErr = None then Some err else firstErr | _ \<Rightarrow> firstErr)"

definition session_of_status :: "(u64 option \<Rightarrow> string) \<Rightarrow> process_status \<Rightarrow> px_session" where
  "session_of_status fmt st = \<lparr>se_ID = ps_SessionID st, se_Backend = KindSystemd, se_Handle = HostUnit (ps_SessionID st),
     se_PID = ps_PID st, se_CWD = ps_WorkingDir st, se_Status = ''running'', se_Command = ps_Description st,
     se_Started = fmt (ps_Started st)\<rparr>"

definition systemd_ListSessions :: "(u64 option \<Rightarrow> string) \<Rightarrow> 'e + process_status list \<Rightarrow> 'e + px_session list" where
  "systemd_ListSessions fmt statuses = (case statuses of Inl err \<Rightarrow> Inl err | Inr sts \<Rightarrow> Inr (map (session_of_status fmt) sts))"

definition sessionIsLive :: "(u64 option \<Rightarrow> string) \<Rightarrow> 'e + process_status list \<Rightarrow> string \<Rightarrow> 'e + bool" where
  "sessionIsLive fmt statuses sessionID =
     (case systemd_ListSessions fmt statuses of
        Inl err \<Rightarrow> Inl err
      | Inr sessions \<Rightarrow> Inr (list_ex (\<lambda>s. se_ID s = sessionID) sessions))"

text \<open>\<open>rand\<close>: the random bytes of the identifier.\<close>

definition systemd_StartSession ::
  "(process_spec \<Rightarrow> 'w \<Rightarrow> 'e option \<times> 'w) \<Rightarrow> u8 list \<Rightarrow> string list \<Rightarrow> string \<Rightarrow> string list \<Rightarrow> string list \<Rightarrow> session_options \<Rightarrow> 'w \<Rightarrow>
   ('e + string) \<times> 'w" where
  "systemd_StartSession start rand environ cwd hostCommand command opts w =
     (let sessionID = GenID rand in
      case start (systemd_spec environ cwd hostCommand sessionID command opts) w of
        (Some err, w) \<Rightarrow> (Inl err, w)
      | (None, w) \<Rightarrow> (Inr sessionID, w))"

definition systemd_StopSession :: "(string \<Rightarrow> sd_error option) \<Rightarrow> string \<Rightarrow> sd_error option" where
  "systemd_StopSession stop sessionID = PM_Stop stop sessionID"

definition systemd_KillSession :: "(string \<Rightarrow> int \<Rightarrow> sd_error option) \<Rightarrow> string \<Rightarrow> sd_error option" where
  "systemd_KillSession kill sessionID = PM_Kill kill sessionID 9"

text \<open>The screen of a live session comes from its host, of any other from the log.\<close>

definition systemd_GetScreen ::
  "(event_filter list \<Rightarrow> string \<Rightarrow> 'w \<Rightarrow> log_error + (event_record list \<times> string)) \<Rightarrow>
   'e + ('e + string) \<Rightarrow> string \<Rightarrow> 'w \<Rightarrow> screen_error + string" where
  "systemd_GetScreen poll client sessionID w =
     GetScreen poll (case client of Inr (Inr screen) \<Rightarrow> Some screen | _ \<Rightarrow> None) sessionID w"

definition systemd_SendInput :: "'e + 'c \<Rightarrow> ('c \<Rightarrow> string \<Rightarrow> 'e + int) \<Rightarrow> string \<Rightarrow> 'e + int" where
  "systemd_SendInput client send input = (case client of Inl err \<Rightarrow> Inl err | Inr c \<Rightarrow> send c input)"

text \<open>
  A session is live exactly while systemd lists its unit in the configured slice: what a start has
  asked for is what listing and following then look for.
\<close>

lemma live_iff_unit_listed:
  assumes "list_units [''swash-host-*.service''] [''active'', ''activating'', ''deactivating''] = Inr units"
    and "\<forall>u \<in> set units. \<exists>sid. u_Name u = HostUnit sid"
    and "start spec w = (None, w')" and "spec = systemd_spec environ cwd hc (GenID rand) command opts"
  shows "systemd_StartSession start rand environ cwd hc command opts w = (Inr (GenID rand), w') \<and>
    sessionIsLive fmt (PM_List list_units e) (GenID rand) =
      Inr (\<exists>u \<in> set units. u_Name u = t_Unit (PM_spec e spec) \<and> u_Slice u = t_Slice (PM_spec e spec))"
proof -
  have "(\<exists>st \<in> set (map unit_status (filter (\<lambda>u. u_Slice u = RootSlice e) units)). ps_SessionID st = GenID rand) \<longleftrightarrow>
      (\<exists>u \<in> set units. u_Name u = HostUnit (GenID rand) \<and> u_Slice u = RootSlice e)"
    using assms(2) by (force simp: unit_status_def)
  then show ?thesis
    using assms(1,3,4) by (auto simp: systemd_StartSession_def Let_def sessionIsLive_def systemd_ListSessions_def PM_List_def
        PM_spec_def systemd_spec_def session_of_status_def list_ex_iff)
qed

section \<open>What remains of the portable backend\<close>

text \<open>\<open>shared\<close> is the log where it could be opened.\<close>

definition px_PollSessionOutput ::
  "string + ('w \<Rightarrow> event_filter list \<Rightarrow> string \<Rightarrow> log_error + (event_record list \<times> string)) \<Rightarrow> string \<Rightarrow> string \<Rightarrow> 'w \<Rightarrow>
   string + (log_error + (output_event list \<times> string))" where
  "px_PollSessionOutput shared sessionID cursor w =
     (case shared of
        Inl err \<Rightarrow> Inl err
      | Inr poll \<Rightarrow> Inr (PollSessionOutput (\<lambda>ms c w. poll w ms c) sessionID cursor w))"

definition px_PollEvents ::
  "string + (event_filter list \<Rightarrow> string \<Rightarrow> log_error + (event_record list \<times> string)) \<Rightarrow> event_filter list \<Rightarrow> string \<Rightarrow>
   string + (log_error + (event_record list \<times> string))" where
  "px_PollEvents shared ms cursor = (case shared of Inl err \<Rightarrow> Inl err | Inr poll \<Rightarrow> Inr (poll ms cursor))"

definition px_FollowEvents ::
  "string + (event_filter list \<Rightarrow> string \<Rightarrow> event_record list) \<Rightarrow> event_filter list \<Rightarrow> string \<Rightarrow> event_record list" where
  "px_FollowEvents shared ms cursor = (case shared of Inl err \<Rightarrow> [] | Inr follow \<Rightarrow> follow ms cursor)"

definition ConnectTTYSession ::
  "posix_config \<Rightarrow> (string \<Rightarrow> string option) \<Rightarrow> (string \<Rightarrow> string \<Rightarrow> string + 'c) \<Rightarrow> string \<Rightarrow> string + 'c" where
  "ConnectTTYSession b stat connect sessionID =
     (case stat (socketPath b sessionID) of Some e \<Rightarrow> Inl e | None \<Rightarrow> connect sessionID (socketPath b sessionID))"

definition posix_Open :: "backend_config \<Rightarrow> string \<Rightarrow> (string \<Rightarrow> string) \<Rightarrow> posix_config" where
  "posix_Open cfg tempDir digest = \<lparr>pc_RuntimeDir = bc_RuntimeDir cfg, pc_StateDir = bc_StateDir cfg,
     pc_HostCommand = bc_HostCommand cfg, pc_tempDir = tempDir, pc_digest = digest\<rparr>"

section \<open>The interface\<close>

text \<open>
  \<open>Backend\<close>, as the commands use it: errors are texts, \<open>bk_Stats\<close> connects to the host of a session
  for the text of its statistics, and following a session prints lines and ends with a code and a result,
  or is \<open>None\<close> if it never ends; its argument says whether it is cancelled.
\<close>

record 'w backend =
  bk_ListSessions :: "'w \<Rightarrow> string + px_session list"
  bk_ListHistory :: "'w \<Rightarrow> string + history_session list"
  bk_StartSession :: "string list \<Rightarrow> session_options \<Rightarrow> 'w \<Rightarrow> (string + string) \<times> 'w"
  bk_StopSession :: "string \<Rightarrow> 'w \<Rightarrow> string option \<times> 'w"
  bk_KillSession :: "string \<Rightarrow> 'w \<Rightarrow> string option \<times> 'w"
  bk_SendInput :: "string \<Rightarrow> string \<Rightarrow> 'w \<Rightarrow> (string + int) \<times> 'w"
  bk_EmitSessionEvent :: "string \<Rightarrow> string \<Rightarrow> string \<Rightarrow> fieldmap \<Rightarrow> 'w \<Rightarrow> string option \<times> 'w"
  bk_PollEvents :: "event_filter list \<Rightarrow> string \<Rightarrow> 'w \<Rightarrow> string + (event_record list \<times> string)"
  bk_FollowEvents :: "event_filter list \<Rightarrow> string \<Rightarrow> 'w \<Rightarrow> event_record list"
  bk_PollSessionOutput :: "string \<Rightarrow> string \<Rightarrow> 'w \<Rightarrow> string + (output_event list \<times> string)"
  bk_FollowSession :: "string \<Rightarrow> int \<Rightarrow> int \<Rightarrow> bool \<Rightarrow> 'w \<Rightarrow> ((string list \<times> (int \<times> follow_result)) \<times> 'w) option"
  bk_GetScreen :: "string \<Rightarrow> 'w \<Rightarrow> string + string"
  bk_Stats :: "string \<Rightarrow> 'w \<Rightarrow> string + string"

text \<open>An error as its text.\<close>

definition err_of :: "('e \<Rightarrow> string) \<Rightarrow> 'e + 'a \<Rightarrow> string + 'a" where
  "err_of text r = (case r of Inl e \<Rightarrow> Inl (text e) | Inr x \<Rightarrow> Inr x)"

text \<open>
  What the commands rely on where a backend hands on to its event log: \<open>log_of\<close> is the log in a state
  and \<open>with_log\<close> the state with another log.
\<close>

locale session_log = event_log good recs poll emit storable stored
  for good :: "'s \<Rightarrow> bool" and recs :: "'s \<Rightarrow> event_record list"
    and poll :: "event_filter list \<Rightarrow> string \<Rightarrow> 's \<Rightarrow> log_error + (event_record list \<times> string)"
    and emit :: "string \<Rightarrow> fieldmap \<Rightarrow> (log_error, 's, unit) eff"
    and storable :: "'s \<Rightarrow> string \<Rightarrow> fieldmap \<Rightarrow> bool" and stored :: "string \<Rightarrow> fieldmap \<Rightarrow> fieldmap" +
  fixes bk :: "'w backend" and log_of :: "'w \<Rightarrow> 's" and with_log :: "'s \<Rightarrow> 'w \<Rightarrow> 'w" and text_of :: "log_error \<Rightarrow> string"
  assumes log_changed: "log_of (with_log l w) = l"
    and emits: "bk_EmitSessionEvent bk sid ev m fs w =
      (case EmitSessionEvent emit sid ev m fs (log_of w) of
         (r, l) \<Rightarrow> (case r of Inl e \<Rightarrow> Some (text_of e) | Inr _ \<Rightarrow> None, with_log l w))"
    and polls: "bk_PollEvents bk ms c w = err_of text_of (poll ms c (log_of w))"
    and outputs: "bk_PollSessionOutput bk sid c w = err_of text_of (PollSessionOutput poll sid c (log_of w))"

end
