(* ===== verification/TaskProcess.thy ===== *)
theory TaskProcess
  imports Sampler HostLifecycle
begin

text \<open>
  The processes of a task: how \<open>internal/host/executor.go\<close> starts one, how
  \<open>internal/host/process_tree.go\<close> and \<open>process_tree_linux.go\<close> signal a whole process session, the
  preference of \<open>oom_linux.go\<close>, the periodic record of \<open>session_stats.go\<close>, the executor of
  \<open>fake_executor.go\<close> and the split connection of \<open>types.go\<close>. The process table is explicit, and what
  other processes do to it between two system calls is a schedule.
\<close>

section \<open>Starting\<close>

fun childEnvironment :: "string list \<Rightarrow> string list" where
  "childEnvironment [] = []"
| "childEnvironment (entry # env) =
     (if has_prefix entry ''NOTIFY_SOCKET='' then env else entry # childEnvironment env)"

datatype std_streams = Pipes | Slave

record exec_spec =
  xs_path :: string
  xs_args :: "string list"
  xs_env :: "string list"
  xs_streams :: std_streams
  xs_setsid :: bool
  xs_setctty :: bool

text \<open>\<open>None\<close>: indexing the empty command panics. \<open>start\<close> is the process number or the error of the system.\<close>

definition ExecStart :: "(exec_spec \<Rightarrow> 'e + int) \<Rightarrow> string list \<Rightarrow> string list \<Rightarrow> ('e + int) option" where
  "ExecStart start environ cmdArgs =
     (case cmdArgs of
        [] \<Rightarrow> None
      | path # args \<Rightarrow> Some (start \<lparr>xs_path = path, xs_args = args, xs_env = childEnvironment environ,
          xs_streams = Pipes, xs_setsid = True, xs_setctty = False\<rparr>))"

definition ExecStartPTY :: "(exec_spec \<Rightarrow> 'e + int) \<Rightarrow> string list \<Rightarrow> string list \<Rightarrow> ('e + int) option" where
  "ExecStartPTY start environ cmdArgs =
     (case cmdArgs of
        [] \<Rightarrow> None
      | path # args \<Rightarrow> Some (start \<lparr>xs_path = path, xs_args = args,
          xs_env = childEnvironment environ @ [''TERM=xterm-256color''],
          xs_streams = Slave, xs_setsid = True, xs_setctty = True\<rparr>))"

text \<open>The notification socket of the host is not handed on, and everything else is, if it is set once.\<close>

lemma notify_socket_removed:
  assumes "\<forall>e \<in> set (xs @ ys). \<not> has_prefix e ''NOTIFY_SOCKET=''" and "has_prefix n ''NOTIFY_SOCKET=''"
  shows "childEnvironment (xs @ n # ys) = xs @ ys" and "childEnvironment (xs @ ys) = xs @ ys"
proof -
  have "childEnvironment zs = zs" if "\<forall>e \<in> set zs. \<not> has_prefix e ''NOTIFY_SOCKET=''" for zs
    using that by (induction zs) simp_all
  then show "childEnvironment (xs @ ys) = xs @ ys" using assms(1) by simp
  show "childEnvironment (xs @ n # ys) = xs @ ys"
    using assms by (induction xs) simp_all
qed

section \<open>The process table\<close>

record process =
  ps_pid :: int
  ps_sid :: int
  ps_pgid :: int
  ps_dead :: bool

text \<open>What happens without us. A dead process stays in the table until it is reaped.\<close>

datatype os_event = Fork int int | Exits int | Reap int | SetGroup int int | NewSession int | ProcMount bool

datatype errno = ESRCH | EPERM | EOTHER

text \<open>
  \<open>os_names\<close>: the entries of \<open>/proc\<close> that are no processes; \<open>os_may\<close>: which processes we may signal;
  \<open>os_sched\<close>: what happens before each of the next system calls; \<open>os_hits\<close>: the signals delivered, with
  the session of the process they met.
\<close>

record os_state =
  os_procs :: "process list"
  os_names :: "string list"
  os_proc_ok :: bool
  os_may :: "int \<Rightarrow> bool"
  os_sched :: "os_event list list"
  os_hits :: "(int \<times> int \<times> int) list"

definition find_pid :: "int \<Rightarrow> os_state \<Rightarrow> process option" where
  "find_pid pid w = List.find (\<lambda>p. ps_pid p = pid) (os_procs w)"

definition lives :: "int \<Rightarrow> os_state \<Rightarrow> bool" where
  "lives pid w = (case find_pid pid w of Some p \<Rightarrow> \<not> ps_dead p | None \<Rightarrow> False)"

definition update_pid :: "int \<Rightarrow> (process \<Rightarrow> process) \<Rightarrow> os_state \<Rightarrow> os_state" where
  "update_pid pid f w = w\<lparr>os_procs := map (\<lambda>p. if ps_pid p = pid then f p else p) (os_procs w)\<rparr>"

text \<open>The system does not give a new process a number that names a process, a session or a group.\<close>

definition number_free :: "int \<Rightarrow> os_state \<Rightarrow> bool" where
  "number_free n w = (0 < n \<and> n < 2 ^ 31 \<and> (\<forall>p \<in> set (os_procs w). n \<noteq> ps_pid p \<and> n \<noteq> ps_sid p \<and> n \<noteq> ps_pgid p))"

fun apply_event :: "os_event \<Rightarrow> os_state \<Rightarrow> os_state" where
  "apply_event (Fork parent child) w =
     (case find_pid parent w of
        Some p \<Rightarrow> if \<not> ps_dead p \<and> number_free child w
          then w\<lparr>os_procs := os_procs w @ [p\<lparr>ps_pid := child\<rparr>]\<rparr> else w
      | None \<Rightarrow> w)"
| "apply_event (Exits pid) w = update_pid pid (\<lambda>p. p\<lparr>ps_dead := True\<rparr>) w"
| "apply_event (Reap pid) w = w\<lparr>os_procs := filter (\<lambda>p. ps_pid p \<noteq> pid \<or> \<not> ps_dead p) (os_procs w)\<rparr>"
| "apply_event (SetGroup pid g) w = update_pid pid (\<lambda>p. p\<lparr>ps_pgid := g\<rparr>) w"
| "apply_event (NewSession pid) w =
     update_pid pid (\<lambda>p. if ps_pgid p = pid then p else p\<lparr>ps_sid := pid, ps_pgid := pid\<rparr>) w"
| "apply_event (ProcMount ok) w = w\<lparr>os_proc_ok := ok\<rparr>"

definition tick :: "os_state \<Rightarrow> os_state" where
  "tick w = (case os_sched w of [] \<Rightarrow> w | es # rest \<Rightarrow> fold apply_event es (w\<lparr>os_sched := rest\<rparr>))"

section \<open>System calls\<close>

definition SIGKILL :: int where "SIGKILL = 9"

definition deliver :: "int \<Rightarrow> process \<Rightarrow> os_state \<Rightarrow> os_state" where
  "deliver sig p w =
     (if ps_dead p then w
      else (if sig = SIGKILL then update_pid (ps_pid p) (\<lambda>p. p\<lparr>ps_dead := True\<rparr>) w else w)
        \<lparr>os_hits := os_hits w @ [(ps_pid p, ps_sid p, sig)]\<rparr>)"

definition kill_pid :: "int \<Rightarrow> int \<Rightarrow> os_state \<Rightarrow> errno option \<times> os_state" where
  "kill_pid pid sig w =
     (let w = tick w in
      case find_pid pid w of
        None \<Rightarrow> (Some ESRCH, w)
      | Some p \<Rightarrow> if os_may w pid then (None, deliver sig p w) else (Some EPERM, w))"

text \<open>\<open>kill(-g, sig)\<close>: it succeeds if some process of the group could be signalled.\<close>

definition kill_group :: "int \<Rightarrow> int \<Rightarrow> os_state \<Rightarrow> errno option \<times> os_state" where
  "kill_group g sig w =
     (let w = tick w; ps = filter (\<lambda>p. ps_pgid p = g) (os_procs w); ms = filter (os_may w \<circ> ps_pid) ps in
      (if ps = [] then Some ESRCH else if ms = [] then Some EPERM else None, fold (deliver sig) ms w))"

definition read_proc_dir :: "os_state \<Rightarrow> string list option \<times> os_state" where
  "read_proc_dir w =
     (let w = tick w in
      (if os_proc_ok w then Some (map (itoa \<circ> ps_pid) (os_procs w) @ os_names w) else None, w))"

definition getsid :: "int \<Rightarrow> os_state \<Rightarrow> int option \<times> os_state" where
  "getsid pid w = (let w = tick w in (map_option ps_sid (find_pid pid w), w))"

section \<open>Signalling a session\<close>

fun session_entries :: "int \<Rightarrow> string list \<Rightarrow> os_state \<Rightarrow> int list \<times> os_state" where
  "session_entries sid [] w = ([], w)"
| "session_entries sid (name # names) w =
     (case parse_int name of
        None \<Rightarrow> session_entries sid names w
      | Some pid \<Rightarrow>
          (case getsid pid w of (s, w) \<Rightarrow>
             (case session_entries sid names w of
                (pids, w) \<Rightarrow> (if s = Some sid then pid # pids else pids, w))))"

definition sessionProcessIDs :: "int \<Rightarrow> os_state \<Rightarrow> int list option \<times> os_state" where
  "sessionProcessIDs sid w =
     (case read_proc_dir w of
        (None, w) \<Rightarrow> (None, w)
      | (Some names, w) \<Rightarrow> (case session_entries sid names w of (pids, w) \<Rightarrow> (Some pids, w)))"

definition ignoreMissingProcess :: "errno option \<Rightarrow> errno option" where
  "ignoreMissingProcess err = (if err = Some ESRCH then None else err)"

text \<open>The first error is kept.\<close>

definition signal_one :: "int \<Rightarrow> int \<Rightarrow> errno option \<times> os_state \<Rightarrow> errno option \<times> os_state" where
  "signal_one sig pid s =
     (case s of (firstErr, w) \<Rightarrow>
        (case kill_pid pid sig w of
           (err, w) \<Rightarrow> (if ignoreMissingProcess err \<noteq> None \<and> firstErr = None then ignoreMissingProcess err else firstErr, w)))"

definition first_pass :: "int \<Rightarrow> int \<Rightarrow> int list \<Rightarrow> os_state \<Rightarrow> errno option \<times> os_state" where
  "first_pass sid sig pids w =
     (let s = fold (signal_one sig) (filter (\<lambda>pid. pid \<noteq> sid) pids) (None, w) in
      if sid \<in> set pids then signal_one sig sid s else s)"

definition second_pass :: "int \<Rightarrow> int \<Rightarrow> errno option \<times> os_state \<Rightarrow> errno option \<times> os_state" where
  "second_pass sid sig s =
     (case s of (firstErr, w) \<Rightarrow>
        (case sessionProcessIDs sid w of
           (None, w) \<Rightarrow> (firstErr, w)
         | (Some remaining, w) \<Rightarrow> fold (signal_one sig) remaining (firstErr, w)))"

definition signalProcessSession :: "int \<Rightarrow> int \<Rightarrow> os_state \<Rightarrow> errno option \<times> os_state" where
  "signalProcessSession sid sig w =
     (case sessionProcessIDs sid w of
        (None, w) \<Rightarrow> (case kill_group sid sig w of (err, w) \<Rightarrow> (ignoreMissingProcess err, w))
      | (Some pids, w) \<Rightarrow> second_pass sid sig (first_pass sid sig pids w))"

definition proc_Kill :: "int \<Rightarrow> os_state \<Rightarrow> errno option \<times> os_state" where
  "proc_Kill sid w = (if sid \<le> 0 then (None, w) else signalProcessSession sid SIGKILL w)"

definition proc_Signal :: "int \<Rightarrow> int \<Rightarrow> os_state \<Rightarrow> errno option \<times> os_state" where
  "proc_Signal sid sig w = (if sid \<le> 0 then (None, w) else signalProcessSession sid sig w)"


section \<open>What signalling a session achieves\<close>

definition members :: "int \<Rightarrow> os_state \<Rightarrow> int set" where
  "members sid w = {pid. \<exists>p \<in> set (os_procs w). ps_pid p = pid \<and> ps_sid p = sid \<and> \<not> ps_dead p}"

definition sessions_of :: "os_state \<Rightarrow> (int \<times> int) set" where
  "sessions_of w = (\<lambda>p. (ps_pid p, ps_sid p)) ` set (os_procs w)"

definition scheduled :: "os_state \<Rightarrow> os_event set" where
  "scheduled w = \<Union> (set ` set (os_sched w))"

text \<open>
  A sound table, readable all along, of processes we may signal; no process of \<open>M\<close> forks and no
  session \<open>sid\<close> is founded anew; no number is given up and no process changes its session.
\<close>

definition sound :: "os_state \<Rightarrow> bool" where
  "sound w \<longleftrightarrow> distinct (map ps_pid (os_procs w)) \<and> (\<forall>p \<in> set (os_procs w). 0 < ps_pid p \<and> ps_pid p < 2 ^ 31) \<and>
     os_proc_ok w \<and> ProcMount False \<notin> scheduled w \<and> os_may w = (\<lambda>_. True)"

definition calm :: "int \<Rightarrow> int set \<Rightarrow> os_state \<Rightarrow> bool" where
  "calm sid M w \<longleftrightarrow> (\<forall>e \<in> scheduled w. (\<forall>p \<in> M. \<forall>c. e \<noteq> Fork p c) \<and> e \<noteq> NewSession sid)"

definition settled :: "os_state \<Rightarrow> bool" where
  "settled w \<longleftrightarrow> (\<forall>e \<in> scheduled w. \<forall>p. e \<noteq> Reap p \<and> e \<noteq> NewSession p)"

definition sound_event :: "os_event \<Rightarrow> bool" where
  "sound_event e \<longleftrightarrow> e \<noteq> ProcMount False"

lemma find_pid_iff:
  assumes "distinct (map ps_pid (os_procs w))"
  shows "find_pid pid w = Some p \<longleftrightarrow> p \<in> set (os_procs w) \<and> ps_pid p = pid"
proof
  assume "find_pid pid w = Some p"
  then show "p \<in> set (os_procs w) \<and> ps_pid p = pid"
    by (auto simp: find_pid_def find_Some_iff)
next
  assume p: "p \<in> set (os_procs w) \<and> ps_pid p = pid"
  then have "find_pid pid w \<noteq> None" by (auto simp: find_pid_def find_None_iff)
  then obtain q where q: "find_pid pid w = Some q" by blast
  then have "q \<in> set (os_procs w)" "ps_pid q = pid" by (auto simp: find_pid_def find_Some_iff)
  with p assms have "q = p" by (metis distinct_map inj_onD)
  with q show "find_pid pid w = Some p" by simp
qed

text \<open>One event: what it keeps, and how the members of a session change.\<close>

lemma update_pid_simps [simp]:
  "os_sched (update_pid pid f w) = os_sched w" "os_proc_ok (update_pid pid f w) = os_proc_ok w"
  "os_may (update_pid pid f w) = os_may w" "os_hits (update_pid pid f w) = os_hits w"
  by (simp_all add: update_pid_def)

lemma event_fields [simp]:
  "os_sched (apply_event e w) = os_sched w" "os_may (apply_event e w) = os_may w" "os_hits (apply_event e w) = os_hits w"
  by (cases e; simp split: option.splits)+

lemma update_pid_sound:
  assumes "\<And>p. ps_pid (f p) = ps_pid p" and "sound w"
  shows "sound (update_pid pid f w)"
proof -
  have "ps_pid \<circ> (\<lambda>p. if ps_pid p = pid then f p else p) = ps_pid" using assms(1) by auto
  then show ?thesis using assms by (auto simp: sound_def update_pid_def scheduled_def)
qed

lemma event_sound:
  assumes "sound w" and "sound_event e"
  shows "sound (apply_event e w)"
proof (cases e)
  case (Fork parent child)
  then show ?thesis using assms(1)
    by (auto simp: sound_def number_free_def scheduled_def split: option.splits)
next
  case (Reap pid)
  have "distinct (map ps_pid (filter P (os_procs w)))" for P
    using assms(1) by (simp add: sound_def distinct_map_filter)
  then show ?thesis using assms(1) Reap by (auto simp: sound_def scheduled_def)
qed (use assms in \<open>auto intro!: update_pid_sound simp: sound_event_def, auto simp: sound_def scheduled_def\<close>)

lemma event_members:
  assumes "sound w" and "members sid w \<subseteq> M" and "\<forall>p \<in> M. \<forall>c. e \<noteq> Fork p c" and "e \<noteq> NewSession sid"
  shows "members sid (apply_event e w) \<subseteq> members sid w"
proof (cases e)
  case (Fork parent child)
  have "ps_sid p \<noteq> sid" if "find_pid parent w = Some p" "\<not> ps_dead p" for p
  proof
    assume "ps_sid p = sid"
    moreover have "p \<in> set (os_procs w)" "ps_pid p = parent"
      using that(1) by (auto simp: find_pid_def find_Some_iff)
    ultimately have "parent \<in> members sid w" using that(2) by (auto simp: members_def)
    then show False using assms(2,3) Fork by blast
  qed
  then show ?thesis using Fork by (auto simp: members_def split: option.splits)
next
  case (NewSession pid)
  then show ?thesis using assms(4) by (auto simp: members_def update_pid_def split: if_splits)
qed (auto simp: members_def update_pid_def split: if_splits)

lemma update_pid_sessions [simp]:
  assumes "\<And>p. ps_pid (f p) = ps_pid p" and "\<And>p. ps_sid (f p) = ps_sid p"
  shows "sessions_of (update_pid pid f w) = sessions_of w"
proof -
  have "(\<lambda>p. (ps_pid p, ps_sid p)) \<circ> (\<lambda>p. if ps_pid p = pid then f p else p) = (\<lambda>p. (ps_pid p, ps_sid p))"
    using assms by auto
  then show ?thesis by (simp add: sessions_of_def update_pid_def image_comp del: if_image_distrib)
qed

lemma event_sessions:
  assumes "\<And>p. e \<noteq> Reap p" and "\<And>p. e \<noteq> NewSession p"
  shows "sessions_of w \<subseteq> sessions_of (apply_event e w)"
proof (cases e)
  case (Fork parent child)
  then show ?thesis by (auto simp: sessions_of_def split: option.splits)
qed (use assms in \<open>auto, auto simp: sessions_of_def\<close>)

text \<open>
  What every system call but the delivery of a signal does to the table: \<open>drifts sid M w w'\<close> collects
  what holds of it later.
\<close>

definition drifts :: "int \<Rightarrow> int set \<Rightarrow> os_state \<Rightarrow> os_state \<Rightarrow> bool" where
  "drifts sid M w w' \<longleftrightarrow>
     (sound w \<longrightarrow> sound w' \<and> scheduled w' \<subseteq> scheduled w \<and>
       (members sid w \<subseteq> M \<longrightarrow> calm sid M w \<longrightarrow> members sid w' \<subseteq> members sid w) \<and>
       (settled w \<longrightarrow> sessions_of w \<subseteq> sessions_of w'))"

lemma drifts_refl [simp]: "drifts sid M w w"
  by (simp add: drifts_def)

lemma drifts_trans:
  assumes "drifts sid M u v" and "drifts sid M v w"
  shows "drifts sid M u w"
proof -
  have "calm sid M u \<Longrightarrow> scheduled v \<subseteq> scheduled u \<Longrightarrow> calm sid M v" by (auto simp: calm_def)
  moreover have "settled u \<Longrightarrow> scheduled v \<subseteq> scheduled u \<Longrightarrow> settled v" by (auto simp: settled_def)
  ultimately show ?thesis using assms unfolding drifts_def by (meson order_trans)
qed

lemma apply_event_sched [simp]: "apply_event e (w\<lparr>os_sched := x\<rparr>) = (apply_event e w)\<lparr>os_sched := x\<rparr>"
  by (cases e) (auto simp: update_pid_def find_pid_def number_free_def split: option.splits)

lemma table_sched [simp]:
  "members sid (w\<lparr>os_sched := x\<rparr>) = members sid w" "sessions_of (w\<lparr>os_sched := x\<rparr>) = sessions_of w"
  by (simp_all add: members_def sessions_of_def)

lemma event_drifts:
  assumes "os_sched w = (e # es) # rest"
  shows "drifts sid M w ((apply_event e w)\<lparr>os_sched := es # rest\<rparr>)"
proof -
  let ?w = "(apply_event e w)\<lparr>os_sched := es # rest\<rparr>"
  have s: "scheduled w = insert e (scheduled ?w)" using assms by (simp add: scheduled_def)
  have "sound ?w" if "sound w"
    using event_sound[OF that, of e] that s by (auto simp: sound_def sound_event_def)
  then show ?thesis
    using s event_members[of w sid M e] event_sessions[of e w] by (auto simp: drifts_def calm_def settled_def)
qed

lemma tick_drifts: "drifts sid M w (tick w)"
proof (cases "os_sched w")
  case Nil
  then show ?thesis by (simp add: tick_def)
next
  case (Cons es rest)
  then show ?thesis
  proof (induction es arbitrary: w)
    case Nil
    then show ?case by (auto simp: tick_def drifts_def sound_def scheduled_def)
  next
    case (Cons e es)
    have "tick w = tick ((apply_event e w)\<lparr>os_sched := es # rest\<rparr>)" by (simp add: tick_def Cons(2))
    then show ?case
      using drifts_trans[OF event_drifts[OF Cons(2)] Cons(1)[of "(apply_event e w)\<lparr>os_sched := es # rest\<rparr>"]] by simp
  qed
qed

lemma tick_hits [simp]: "os_hits (tick w) = os_hits w"
proof -
  have "os_hits (fold apply_event es v) = os_hits v" for es v by (induction es arbitrary: v) simp_all
  then show ?thesis by (simp add: tick_def split: list.splits)
qed

text \<open>Which numbers the listing finds.\<close>

lemma getsid_drifts: "drifts sid M w (snd (getsid pid w))"
  by (simp add: getsid_def Let_def tick_drifts)

lemma entries_drift: "drifts s M w (snd (session_entries sid names w))"
proof (induction names arbitrary: w)
  case (Cons name names)
  then show ?case
    by (auto simp: case_prod_beta split: option.splits) (rule drifts_trans[OF getsid_drifts])
qed simp

lemma entries_hits [simp]: "os_hits (snd (session_entries sid names w)) = os_hits w"
  by (induction names arbitrary: w) (auto simp: case_prod_beta getsid_def Let_def split: option.splits)

lemma entries_complete:
  assumes "sound w" and "members sid w \<subseteq> M" and "calm sid M w" and "pid \<in> members sid (snd (session_entries sid names w))"
    and "itoa pid \<in> set names"
  shows "pid \<in> set (fst (session_entries sid names w))"
  using assms
proof (induction names arbitrary: w)
  case (Cons name names)
  show ?case
  proof (cases "parse_int name")
    case None
    have "itoa pid \<noteq> name"
    proof
      assume "itoa pid = name"
      moreover have "pid \<in> members sid w"
        using entries_drift[of sid M w sid "name # names"] Cons(2-5) by (auto simp: drifts_def)
      then have "0 < pid \<and> pid < 2 ^ 31" using Cons(2) by (auto simp: members_def sound_def)
      ultimately show False using None parse_int_itoa[of pid] by auto
    qed
    with Cons None show ?thesis by auto
  next
    case (Some n)
    let ?w = "snd (getsid n w)"
    have d: "drifts sid M w ?w" by (rule getsid_drifts)
    then have w: "sound ?w" "members sid ?w \<subseteq> members sid w" "calm sid M ?w"
      using Cons(2-4) by (auto simp: drifts_def calm_def)
    have m: "pid \<in> members sid (snd (session_entries sid names ?w))"
      using Cons(5) Some by (simp add: case_prod_beta)
    show ?thesis
    proof (cases "itoa pid = name")
      case True
      have p: "pid \<in> members sid ?w" using m entries_drift[of sid M ?w sid names] w Cons(3) by (auto simp: drifts_def)
      moreover have "n = pid"
        using Some True parse_int_itoa[of pid] p w(1) by (auto simp: members_def sound_def)
      moreover have "fst (getsid pid w) = Some sid" if "pid \<in> members sid (tick w)" "sound (tick w)"
        using that find_pid_iff[of "tick w" pid] by (auto simp: getsid_def Let_def members_def sound_def)
      ultimately have "fst (getsid n w) = Some sid" using w(1) by (simp add: getsid_def Let_def)
      then show ?thesis using Some \<open>n = pid\<close> by (simp add: case_prod_beta)
    next
      case False
      then have "itoa pid \<in> set names" using Cons(6) by simp
      from Cons(1)[OF w(1) subset_trans[OF w(2) Cons(3)] w(3) m this] show ?thesis
        using Some by (simp add: case_prod_beta)
    qed
  qed
qed simp

lemma entries_in_session:
  assumes "sound w" and "settled w" and "pid \<in> set (fst (session_entries sid names w))"
  shows "(pid, sid) \<in> sessions_of (snd (session_entries sid names w))"
  using assms
proof (induction names arbitrary: w)
  case (Cons name names)
  show ?case
  proof (cases "parse_int name")
    case None
    then show ?thesis using Cons by simp
  next
    case (Some n)
    let ?w = "snd (getsid n w)"
    have d: "drifts sid {} w ?w" by (rule getsid_drifts)
    then have w: "sound ?w" "settled ?w" using Cons(2,3) by (auto simp: drifts_def settled_def)
    have e: "sessions_of ?w \<subseteq> sessions_of (snd (session_entries sid names ?w))"
      using entries_drift[of sid "{}" ?w sid names] w by (auto simp: drifts_def)
    have "(n, sid) \<in> sessions_of ?w" if "fst (getsid n w) = Some sid"
      using that by (auto simp: getsid_def Let_def sessions_of_def find_pid_def find_Some_iff image_iff)
    then show ?thesis using Some Cons(1)[OF w] Cons(4) e by (auto simp: case_prod_beta split: if_splits)
  qed
qed simp

text \<open>Signalling one process: it is dead afterwards, no error is left, and only it is met.\<close>

lemma sound_unique:
  "sound w \<Longrightarrow> p \<in> set (os_procs w) \<Longrightarrow> q \<in> set (os_procs w) \<Longrightarrow> ps_pid p = ps_pid q \<Longrightarrow> p = q"
  by (auto simp: sound_def distinct_map inj_on_def)

lemma killed_not_member:
  "pid \<notin> members sid ((update_pid pid (\<lambda>p. p\<lparr>ps_dead := True\<rparr>) w)\<lparr>os_hits := x\<rparr>)"
proof -
  let ?f = "\<lambda>p :: process. if ps_pid p = pid then p\<lparr>ps_dead := True\<rparr> else p"
  have "ps_pid (?f p) \<noteq> pid \<or> ps_dead (?f p)" for p by simp
  then show ?thesis unfolding members_def update_pid_def by (simp del: if_image_distrib)
qed

lemma deliver_drifts: "drifts sid M w (deliver sig p w)"
proof -
  let ?f = "\<lambda>p :: process. p\<lparr>ps_dead := True\<rparr>"
  have "sound (update_pid n ?f w)" if "sound w" for n using that by (rule update_pid_sound[rotated]) simp
  moreover have "sound (w\<lparr>os_hits := x\<rparr>) = sound w" "members sid (w\<lparr>os_hits := x\<rparr>) = members sid w"
    "sessions_of (w\<lparr>os_hits := x\<rparr>) = sessions_of w" "scheduled (w\<lparr>os_hits := x\<rparr>) = scheduled w" for x and w :: os_state
    by (simp_all add: sound_def members_def sessions_of_def scheduled_def)
  moreover have "members sid (update_pid n ?f w) \<subseteq> members sid w" for n
    by (auto simp: members_def update_pid_def split: if_splits)
  moreover have "scheduled (update_pid n ?f w) = scheduled w" for n by (simp add: scheduled_def)
  ultimately show ?thesis by (auto simp: drifts_def deliver_def)
qed

lemma kill_pid_drifts: "drifts sid M w (snd (kill_pid pid sig w))"
  using drifts_trans[OF tick_drifts deliver_drifts, of sid M w] tick_drifts[of sid M w]
  by (auto simp: kill_pid_def Let_def split: option.splits)

lemma kill_pid_kills:
  assumes "sound w"
  shows "pid \<notin> members sid (snd (kill_pid pid SIGKILL w))" and "ignoreMissingProcess (fst (kill_pid pid sig w)) = None"
proof -
  have s: "sound (tick w)" using tick_drifts[of sid "{}" w] assms by (simp add: drifts_def)
  then have m: "os_may (tick w) = (\<lambda>_. True)" by (simp add: sound_def)
  show "ignoreMissingProcess (fst (kill_pid pid sig w)) = None"
    by (auto simp: kill_pid_def Let_def m ignoreMissingProcess_def split: option.splits)
  show "pid \<notin> members sid (snd (kill_pid pid SIGKILL w))"
  proof (cases "find_pid pid (tick w)")
    case None
    then have "pid \<notin> members sid (tick w)" by (auto simp: members_def find_pid_def find_None_iff)
    then show ?thesis by (simp add: kill_pid_def Let_def None)
  next
    case (Some p)
    then have p: "p \<in> set (os_procs (tick w))" "ps_pid p = pid" by (auto simp: find_pid_def find_Some_iff)
    have k: "snd (kill_pid pid SIGKILL w) = deliver SIGKILL p (tick w)" by (simp add: kill_pid_def Let_def Some m)
    have "q = p" if "q \<in> set (os_procs (tick w))" "ps_pid q = pid" for q
      using sound_unique[OF s that(1) p(1)] that(2) p(2) by simp
    then have dead: "ps_dead p \<Longrightarrow> pid \<notin> members sid (tick w)" unfolding members_def mem_Collect_eq by blast
    have "pid \<notin> members sid (deliver SIGKILL p (tick w))" if "\<not> ps_dead p"
      unfolding deliver_def using that killed_not_member p(2) by simp
    moreover have "deliver SIGKILL p (tick w) = tick w" if "ps_dead p" using that by (simp add: deliver_def)
    ultimately show ?thesis unfolding k using dead by (cases "ps_dead p") simp_all
  qed
qed

lemma kill_pid_hits:
  assumes "sound w" and "settled w" and "(pid, sid) \<in> sessions_of w"
  shows "set (os_hits (snd (kill_pid pid sig w))) \<subseteq> insert (pid, sid, sig) (set (os_hits w))"
proof -
  have t: "sound (tick w)" "sessions_of w \<subseteq> sessions_of (tick w)"
    using tick_drifts[of sid "{}" w] assms(1,2) by (simp_all add: drifts_def)
  then obtain p where p: "p \<in> set (os_procs (tick w))" "ps_pid p = pid" "ps_sid p = sid"
    using assms(3) by (auto simp: sessions_of_def)
  then have "find_pid pid (tick w) = Some p" using find_pid_iff[of "tick w" pid p] t(1) by (simp add: sound_def)
  then show ?thesis using p by (auto simp: kill_pid_def Let_def deliver_def)
qed

lemma signal_all_kills:
  assumes "sound w" and "members sid w \<subseteq> M" and "calm sid M w"
  shows "\<exists>w'. fold (signal_one SIGKILL) pids (None, w) = (None, w') \<and> drifts sid M w w' \<and>
    members sid w' \<subseteq> members sid w - set pids"
  using assms
proof (induction pids arbitrary: w)
  case (Cons pid pids)
  let ?w = "snd (kill_pid pid SIGKILL w)"
  have d: "drifts sid M w ?w" by (rule kill_pid_drifts)
  then have w: "sound ?w" "members sid ?w \<subseteq> members sid w" "calm sid M ?w"
    using Cons(2-4) by (auto simp: drifts_def calm_def)
  from Cons(1)[OF w(1) subset_trans[OF w(2) Cons(3)] w(3)] obtain w' where
    w': "fold (signal_one SIGKILL) pids (None, ?w) = (None, w')" "drifts sid M ?w w'"
      "members sid w' \<subseteq> members sid ?w - set pids" by blast
  have "signal_one SIGKILL pid (None, w) = (None, ?w)"
    using kill_pid_kills(2)[OF Cons(2), of pid SIGKILL] by (simp add: signal_one_def case_prod_beta)
  then show ?case
    using w' drifts_trans[OF d w'(2)] kill_pid_kills(1)[OF Cons(2), of pid sid] w(2) by auto
qed simp

lemma signal_all_drifts:
  assumes "sound w"
  shows "\<exists>w'. fold (signal_one sig) pids (None, w) = (None, w') \<and> (\<forall>sid M. drifts sid M w w') \<and>
    (settled w \<longrightarrow> (\<forall>pid \<in> set pids. (pid, sid) \<in> sessions_of w) \<longrightarrow>
      set (os_hits w') \<subseteq> {h. fst (snd h) = sid} \<union> set (os_hits w))"
  using assms
proof (induction pids arbitrary: w)
  case (Cons pid pids)
  let ?w = "snd (kill_pid pid sig w)"
  have d: "drifts s M w ?w" for s M by (rule kill_pid_drifts)
  have w: "sound ?w" "settled w \<Longrightarrow> settled ?w" "settled w \<Longrightarrow> sessions_of w \<subseteq> sessions_of ?w"
    using d[of sid "{}"] Cons(2) by (auto simp: drifts_def settled_def)
  from Cons(1)[OF w(1)] obtain w' where
    w': "fold (signal_one sig) pids (None, ?w) = (None, w')" "\<forall>sid M. drifts sid M ?w w'"
      "settled ?w \<Longrightarrow> \<forall>pid \<in> set pids. (pid, sid) \<in> sessions_of ?w \<Longrightarrow>
        set (os_hits w') \<subseteq> {h. fst (snd h) = sid} \<union> set (os_hits ?w)" by blast
  have "signal_one sig pid (None, w) = (None, ?w)"
    using kill_pid_kills(2)[OF Cons(2), of pid sig] by (simp add: signal_one_def case_prod_beta)
  moreover have "drifts s M w w'" for s M using drifts_trans[OF d] w'(2) by blast
  moreover have "set (os_hits w') \<subseteq> {h. fst (snd h) = sid} \<union> set (os_hits w)"
    if "settled w" "\<forall>pid \<in> set (pid # pids). (pid, sid) \<in> sessions_of w"
    using w'(3)[OF w(2)[OF that(1)]] w(3)[OF that(1)] kill_pid_hits[OF Cons(2) that(1), of pid sid sig] that(2) by fastforce
  ultimately show ?case using w'(1) by auto
qed simp

lemma sessionProcessIDs_sound:
  assumes "sound w"
  shows "\<exists>pids w'. sessionProcessIDs sid w = (Some pids, w') \<and> (\<forall>s M. drifts s M w w') \<and> os_hits w' = os_hits w \<and>
    (\<forall>M. members sid w \<subseteq> M \<longrightarrow> calm sid M w \<longrightarrow> members sid w' \<subseteq> set pids) \<and>
    (settled w \<longrightarrow> (\<forall>pid \<in> set pids. (pid, sid) \<in> sessions_of w'))"
proof -
  let ?w = "tick w" let ?names = "map (itoa \<circ> ps_pid) (os_procs ?w) @ os_names ?w"
  let ?r = "session_entries sid ?names ?w"
  have d: "drifts s M w ?w" for s M by (rule tick_drifts)
  have s: "sound ?w" using d[of sid "{}"] assms by (simp add: drifts_def)
  then have r: "sessionProcessIDs sid w = (Some (fst ?r), snd ?r)"
    by (simp add: sessionProcessIDs_def read_proc_dir_def Let_def sound_def case_prod_beta)
  have "members sid (snd ?r) \<subseteq> set (fst ?r)" if "members sid w \<subseteq> M" "calm sid M w" for M
  proof
    fix pid assume p: "pid \<in> members sid (snd ?r)"
    have w: "members sid ?w \<subseteq> M" "calm sid M ?w" using d[of sid M] assms that by (auto simp: drifts_def calm_def)
    then have "pid \<in> members sid ?w" using entries_drift[of sid M ?w sid ?names] s p by (auto simp: drifts_def)
    then have "itoa pid \<in> set ?names" by (auto simp: members_def)
    then show "pid \<in> set (fst ?r)" using entries_complete[OF s w p] by blast
  qed
  moreover have "(pid, sid) \<in> sessions_of (snd ?r)" if "settled w" "pid \<in> set (fst ?r)" for pid
  proof -
    have "settled ?w" using d[of sid "{}"] assms that(1) by (auto simp: drifts_def settled_def)
    then show ?thesis using entries_in_session[OF s] that(2) by blast
  qed
  moreover have "drifts s M w (snd ?r)" for s M by (rule drifts_trans[OF d entries_drift])
  ultimately show ?thesis by (intro exI[of _ "fst ?r"] exI[of _ "snd ?r"]) (simp add: r)
qed

text \<open>The passes, and what they leave.\<close>

lemma first_pass_fold:
  "first_pass sid sig pids w =
    fold (signal_one sig) (filter (\<lambda>pid. pid \<noteq> sid) pids @ (if sid \<in> set pids then [sid] else [])) (None, w)"
  by (simp add: first_pass_def Let_def)

lemma second_pass_sound:
  assumes "sound w"
  shows "\<exists>w'. second_pass sid sig (None, w) = (None, w') \<and>
    (settled w \<longrightarrow> set (os_hits w') \<subseteq> {h. fst (snd h) = sid} \<union> set (os_hits w)) \<and>
    (sig = SIGKILL \<longrightarrow> calm sid (members sid w) w \<longrightarrow> members sid w' = {})"
proof -
  obtain pids u where u: "sessionProcessIDs sid w = (Some pids, u)" "\<forall>s M. drifts s M w u" "os_hits u = os_hits w"
    "\<forall>M. members sid w \<subseteq> M \<longrightarrow> calm sid M w \<longrightarrow> members sid u \<subseteq> set pids"
    "settled w \<longrightarrow> (\<forall>pid \<in> set pids. (pid, sid) \<in> sessions_of u)"
    using sessionProcessIDs_sound[OF assms, of sid] by (elim exE conjE) (rule that, assumption+)
  have s: "sound u" "settled w \<Longrightarrow> settled u" using u(2)[rule_format, of sid "{}"] assms by (auto simp: drifts_def settled_def)
  obtain w' where w': "fold (signal_one sig) pids (None, u) = (None, w')"
    "settled u \<longrightarrow> (\<forall>pid \<in> set pids. (pid, sid) \<in> sessions_of u) \<longrightarrow>
      set (os_hits w') \<subseteq> {h. fst (snd h) = sid} \<union> set (os_hits u)"
    using signal_all_drifts[OF s(1), of sig pids sid] by (elim exE conjE) (rule that, assumption+)
  have "members sid w' = {}" if c: "sig = SIGKILL" "calm sid (members sid w) w"
  proof -
    have m: "members sid u \<subseteq> members sid w" "calm sid (members sid w) u"
      using u(2)[rule_format, of sid "members sid w"] assms c(2) by (auto simp: drifts_def calm_def)
    show ?thesis using signal_all_kills[OF s(1) m, of pids] w'(1) c(1) u(4)[rule_format, OF subset_refl c(2)] by auto
  qed
  moreover have "second_pass sid sig (None, w) = (None, w')" by (simp add: second_pass_def u(1) w'(1))
  ultimately show ?thesis using w'(2) s(2) u(3,5) by auto
qed


text \<open>
  A task (100) with a child (101) that forks (102) just before it is killed, beside another
  session (50).
\<close>

definition sample_os :: "os_event list list \<Rightarrow> os_state" where
  "sample_os sched = \<lparr>os_procs = [\<lparr>ps_pid = 50, ps_sid = 50, ps_pgid = 50, ps_dead = False\<rparr>,
       \<lparr>ps_pid = 100, ps_sid = 100, ps_pgid = 100, ps_dead = False\<rparr>,
       \<lparr>ps_pid = 101, ps_sid = 100, ps_pgid = 101, ps_dead = False\<rparr>],
     os_names = [''self''], os_proc_ok = True, os_may = (\<lambda>_. True), os_sched = sched, os_hits = []\<rparr>"

lemmas sample_os_eval = sample_os_def proc_Kill_def signalProcessSession_def sessionProcessIDs_def read_proc_dir_def
  getsid_def kill_pid_def first_pass_def second_pass_def signal_one_def deliver_def update_pid_def find_pid_def
  number_free_def tick_def ignoreMissingProcess_def SIGKILL_def Let_def

lemma parse_self: "parse_int ''self'' = None"
  by (simp add: parse_int_def digit_val_def)


text \<open>
  The second listing does not close the race it is meant to close: a process that is listed and
  forks before it is signalled leaves a child that is never signalled.
\<close>

lemma late_fork_survives:
  "lives 103 (snd (proc_Kill 100 (sample_os [[], [], [], [], [Fork 101 102], [], [], [], [], [], [], [Fork 102 103]])))"
  by (simp add: sample_os_eval parse_int_itoa parse_self lives_def)

section \<open>Tracking a task\<close>

text \<open>
  The file and the text written to make a task the preferred victim, given the preference of the
  host where it can be read; the sum wraps around.
\<close>

definition preferOOMVictim :: "string option \<Rightarrow> int \<Rightarrow> (string \<times> string) option" where
  "preferOOMVictim cur pid =
     (case cur of
        None \<Rightarrow> None
      | Some t \<Rightarrow>
          let adj = min (sint (word_of_int (parse_int_value (trim_space t) + 500) :: u64)) 1000 in
          Some (''/proc/'' @ itoa pid @ ''/oom_score_adj'', itoa adj))"

definition trackProcess :: "string option \<Rightarrow> int option \<Rightarrow> sampler \<Rightarrow> sampler \<times> (string \<times> string) option" where
  "trackProcess cur pid s =
     (case pid of None \<Rightarrow> (s, None) | Some n \<Rightarrow> (SetTaskPID n s, preferOOMVictim cur n))"

text \<open>The kernel takes preferences from -1000 to 1000: the task then comes before its host unless that is the first choice itself.\<close>

lemma task_before_host:
  assumes "parse_int_value (trim_space t) = a" and "-1000 \<le> a" and "a \<le> 1000"
  shows "\<exists>adj. preferOOMVictim (Some t) pid = Some (''/proc/'' @ itoa pid @ ''/oom_score_adj'', itoa adj) \<and>
    a \<le> adj \<and> adj \<le> 1000 \<and> (a < 1000 \<longrightarrow> a < adj)"
proof -
  have "sint (word_of_int (a + 500) :: u64) = a + 500"
    by (subst sint_sbintrunc', rule signed_take_bit_int_eq_self) (use assms(2,3) in simp_all)
  then show ?thesis using assms by (auto simp: preferOOMVictim_def Let_def)
qed

definition statsRecordInterval :: int where "statsRecordInterval = 5000000000"

text \<open>
  One event for the sample found at each tick; \<open>enc\<close> is its JSON encoding, which fails for numbers
  that are not finite.
\<close>

definition record_tick ::
  "(sampled_stats \<Rightarrow> string option) \<Rightarrow> (f64 \<Rightarrow> u64) \<Rightarrow> (string \<Rightarrow> fieldmap \<Rightarrow> ('e, 'w, unit) eff) \<Rightarrow> fieldmap \<Rightarrow> sampled_stats \<Rightarrow>
   ('e, 'w, unit) eff" where
  "record_tick enc oor emit tags st =
     (case enc st of
        None \<Rightarrow> returnE ()
      | Some data \<Rightarrow> ignoreE (emit (Line oor (stats.truncate st)) (mergeFields tags [FieldEvent \<mapsto> EventStats, FieldStats \<mapsto> data])))"

definition recordStats ::
  "(sampled_stats \<Rightarrow> string option) \<Rightarrow> (f64 \<Rightarrow> u64) \<Rightarrow> (string \<Rightarrow> fieldmap \<Rightarrow> ('e, 'w, unit) eff) \<Rightarrow> fieldmap \<Rightarrow> sampled_stats list \<Rightarrow>
   ('e, 'w, unit) eff" where
  "recordStats enc oor emit tags latest = forE latest (record_tick enc oor emit tags)"

section \<open>The executor for tests\<close>

text \<open>A stream is a file with its descriptor or anything else; \<open>'h\<close> are the registered commands.\<close>

datatype stream = FileStream nat | OtherStream nat

definition RegisterCommand :: "string \<Rightarrow> 'h \<Rightarrow> (string \<Rightarrow> 'h option) \<Rightarrow> string \<Rightarrow> 'h option" where
  "RegisterCommand name handler commands = commands(name \<mapsto> handler)"

datatype fake_error = EmptyCommand | NotFound string | DupFailed nat

text \<open>
  The descriptors of the three streams are duplicated in turn, at most until one fails; then those
  already made are closed. \<open>open_fds\<close> are the open descriptors and \<open>dup\<close> the new one for an old one.
\<close>

fun dup_streams :: "(nat \<Rightarrow> nat set \<Rightarrow> nat option) \<Rightarrow> nat \<Rightarrow> nat list \<Rightarrow> stream list \<Rightarrow> nat set \<Rightarrow>
    (fake_error + stream list \<times> nat list) \<times> nat set" where
  "dup_streams dup i made [] open_fds = (Inr ([], made), open_fds)"
| "dup_streams dup i made (OtherStream n # ss) open_fds =
     (case dup_streams dup (i + 1) made ss open_fds of
        (Inr (ts, ms), fds) \<Rightarrow> (Inr (OtherStream n # ts, ms), fds)
      | (Inl e, fds) \<Rightarrow> (Inl e, fds))"
| "dup_streams dup i made (FileStream fd # ss) open_fds =
     (case dup fd open_fds of
        None \<Rightarrow> (Inl (DupFailed i), open_fds - set made)
      | Some n \<Rightarrow>
          (case dup_streams dup (i + 1) (made @ [n]) ss (insert n open_fds) of
             (Inr (ts, ms), fds) \<Rightarrow> (Inr (FileStream n # ts, ms), fds)
           | (Inl e, fds) \<Rightarrow> (Inl e, fds)))"

record 'h fake_process =
  fp_handler :: 'h
  fp_streams :: "stream list"
  fp_made :: "nat list"
  fp_cancelled :: bool
  fp_exit :: "int option"

definition fake_Start ::
  "(nat \<Rightarrow> nat set \<Rightarrow> nat option) \<Rightarrow> (string \<Rightarrow> 'h option) \<Rightarrow> string list \<Rightarrow> stream list \<Rightarrow> nat set \<Rightarrow>
   (fake_error + 'h fake_process) \<times> nat set" where
  "fake_Start dup commands cmdArgs streams open_fds =
     (case cmdArgs of
        [] \<Rightarrow> (Inl EmptyCommand, open_fds)
      | name # _ \<Rightarrow>
          (case commands name of
             None \<Rightarrow> (Inl (NotFound name), open_fds)
           | Some handler \<Rightarrow>
               (case dup_streams dup 0 [] streams open_fds of
                  (Inl e, fds) \<Rightarrow> (Inl e, fds)
                | (Inr (ts, made), fds) \<Rightarrow>
                    (Inr \<lparr>fp_handler = handler, fp_streams = ts, fp_made = made, fp_cancelled = False, fp_exit = None\<rparr>, fds))))"

text \<open>On a pseudo-terminal the one slave file serves for all three streams.\<close>

definition fake_StartPTY ::
  "(nat \<Rightarrow> nat set \<Rightarrow> nat option) \<Rightarrow> (string \<Rightarrow> 'h option) \<Rightarrow> string list \<Rightarrow> nat \<Rightarrow> nat set \<Rightarrow>
   (fake_error + 'h fake_process) \<times> nat set" where
  "fake_StartPTY dup commands cmdArgs slave open_fds =
     (case fake_Start dup commands cmdArgs [FileStream slave] open_fds of
        (Inr p, fds) \<Rightarrow> (Inr (p\<lparr>fp_streams := concat (replicate 3 (fp_streams p))\<rparr>), fds)
      | (Inl e, fds) \<Rightarrow> (Inl e, fds))"

text \<open>The handler returns: its exit code is kept and the duplicates are closed.\<close>

definition fake_returns :: "int \<Rightarrow> 'h fake_process \<Rightarrow> nat set \<Rightarrow> 'h fake_process \<times> nat set" where
  "fake_returns code p open_fds = (p\<lparr>fp_exit := Some code\<rparr>, open_fds - set (fp_made p))"

definition fake_Wait :: "'h fake_process \<Rightarrow> int option" where "fake_Wait p = fp_exit p"

definition fake_Kill :: "'h fake_process \<Rightarrow> 'h fake_process" where "fake_Kill p = p\<lparr>fp_cancelled := True\<rparr>"

definition fake_Signal :: "int \<Rightarrow> 'h fake_process \<Rightarrow> 'h fake_process" where
  "fake_Signal sig p = (if sig = 15 \<or> sig = SIGKILL then p\<lparr>fp_cancelled := True\<rparr> else p)"

lemma dup_streams_open:
  assumes "\<forall>fd fds n. dup fd fds = Some n \<longrightarrow> n \<notin> fds" and "set made \<subseteq> fds"
  shows "case dup_streams dup i made ss fds of
      (Inl e, fds') \<Rightarrow> fds' = fds - set made
    | (Inr (ts, ms), fds') \<Rightarrow> set ms \<subseteq> fds' \<and> set made \<subseteq> set ms \<and> fds' - set ms = fds - set made"
  using assms
proof (induction dup i made ss fds rule: dup_streams.induct)
  case (2 dup i made n ss fds)
  then show ?case by (auto split: prod.splits sum.splits)
next
  case (3 dup i made fd ss fds)
  show ?case
  proof (cases "dup fd fds")
    case (Some n)
    have n: "n \<notin> fds" using Some 3(2) by blast
    have "set (made @ [n]) \<subseteq> insert n fds" using 3(3) by auto
    from 3(1)[OF Some 3(2) this] show ?thesis using Some n by (auto split: prod.splits sum.splits)
  qed (use 3 in auto)
qed simp

text \<open>
  No descriptor is lost: a start that fails leaves the open descriptors as they were, and so does a
  process whose handler has returned.
\<close>

lemma fake_start_keeps_descriptors:
  assumes "\<forall>fd fds n. dup fd fds = Some n \<longrightarrow> n \<notin> fds"
  shows "case fake_Start dup commands cmdArgs streams fds of
      (Inl e, fds') \<Rightarrow> fds' = fds
    | (Inr p, fds') \<Rightarrow> snd (fake_returns code p fds') = fds"
  using dup_streams_open[OF assms, of "[]" fds 0 streams]
  by (auto simp: fake_Start_def fake_returns_def split: list.splits option.splits prod.splits sum.splits)

section \<open>The split connection\<close>

text \<open>
  Closing a pair of streams: both are closed, and the error of the writer comes first. \<open>None\<close> for
  an absent stream, otherwise what closing it returned.
\<close>

definition SplitConn_Close :: "'e option option \<Rightarrow> 'e option option \<Rightarrow> 'e option" where
  "SplitConn_Close w r =
     (let errW = (case w of None \<Rightarrow> None | Some e \<Rightarrow> e); errR = (case r of None \<Rightarrow> None | Some e \<Rightarrow> e) in
      if errW \<noteq> None then errW else errR)"

end
