(* ===== verification/StatsReport.thy ===== *)
theory StatsReport
  imports Backends TaskProcess SqliteLog
begin

text \<open>
  What the command line says about resources: the limits and the provenance of a new session, its
  statistics, live or recorded, its summary (\<open>cmd/swash/resources.go\<close>), and the charts of its history
  (\<open>cmd/swash/chart.go\<close>). Printing is the list of the lines printed. Operations on \<open>float64\<close> are
  rounded one by one.
\<close>

section \<open>Floats, runes and padding\<close>

fun f64_add :: "f64 \<Rightarrow> f64 \<Rightarrow> f64" where
  "f64_add (Fin a) (Fin b) = f64_round (a + b)"
| "f64_add (Inf n) (Fin b) = Inf n"
| "f64_add (Fin a) (Inf n) = Inf n"
| "f64_add (Inf n) (Inf m) = (if n = m then Inf n else NaN)"
| "f64_add NaN _ = NaN"
| "f64_add _ NaN = NaN"

fun f64_neg :: "f64 \<Rightarrow> f64" where
  "f64_neg NaN = NaN" | "f64_neg (Inf n) = Inf (\<not> n)" | "f64_neg (Fin a) = Fin (- a)"

fun f64_less :: "f64 \<Rightarrow> f64 \<Rightarrow> bool" where
  "f64_less (Fin a) (Fin b) = (a < b)"
| "f64_less (Fin a) (Inf n) = (\<not> n)"
| "f64_less (Inf n) (Fin b) = n"
| "f64_less (Inf n) (Inf m) = (n \<and> \<not> m)"
| "f64_less _ _ = False"

text \<open>The built-in \<open>max\<close>.\<close>

definition f64_max :: "f64 \<Rightarrow> f64 \<Rightarrow> f64" where
  "f64_max a b = (if a = NaN \<or> b = NaN then NaN else if f64_less a b then b else a)"

text \<open>\<open>int(x)\<close> truncates; out of range the result is the parameter \<open>ooi\<close>.\<close>

definition f64_to_int :: "(f64 \<Rightarrow> int) \<Rightarrow> f64 \<Rightarrow> int" where
  "f64_to_int ooi x =
     (case x of
        Fin q \<Rightarrow> let n = (if q < 0 then - \<lfloor>- q\<rfloor> else \<lfloor>q\<rfloor>) in if - (2 ^ 63) \<le> n \<and> n < 2 ^ 63 then n else ooi x
      | _ \<Rightarrow> ooi x)"

text \<open>\<open>%-ns\<close> pads to \<open>n\<close> runes; a byte that starts no rune counts as one.\<close>

function rune_count :: "string \<Rightarrow> nat" where
  "rune_count s = (if s = [] then 0 else 1 + rune_count (drop (max 1 (rune_len s)) s))"
  by auto
termination
  by (relation "measure length") auto

declare rune_count.simps [simp del]

definition pad_right :: "nat \<Rightarrow> string \<Rightarrow> string" where
  "pad_right n s = s @ replicate (n - rune_count s) (CHR '' '')"

text \<open>\<open>truncate\<close> of \<open>cmd/swash/main.go\<close>; shorter bounds than three panic.\<close>

definition truncate_str :: "string \<Rightarrow> nat \<Rightarrow> string" where
  "truncate_str s maxLen = (if length s \<le> maxLen then s else take (maxLen - 3) s @ ''...'')"

definition oneLine :: "string \<Rightarrow> nat \<Rightarrow> string" where
  "oneLine s n = truncate_str (go_join (go_fields s) '' '') n"

section \<open>Charts\<close>

record metric =
  mt_name :: string
  mt_value :: "sampled_stats \<Rightarrow> f64"
  mt_format :: "f64 \<Rightarrow> string"
  mt_peak :: bool
  mt_floor :: f64

definition bytesFmt :: "(f64 \<Rightarrow> u64) \<Rightarrow> f64 \<Rightarrow> string" where
  "bytesFmt oor v = FormatBytes (f64_to_u64 oor v)"

definition rateFmt :: "(f64 \<Rightarrow> u64) \<Rightarrow> f64 \<Rightarrow> string" where
  "rateFmt oor v = FormatBytes (f64_to_u64 oor v) @ ''/s''"

definition pctFmt :: "f64 \<Rightarrow> string" where
  "pctFmt v = format_f64 0 v @ ''%''"

definition f64_of_u64 :: "u64 \<Rightarrow> f64" where "f64_of_u64 n = f64_of_nat (unat n)"

definition metrics :: "(f64 \<Rightarrow> u64) \<Rightarrow> metric list" where
  "metrics oor =
     [\<lparr>mt_name = ''cpu'', mt_value = CPUPercent, mt_format = pctFmt, mt_peak = False, mt_floor = Fin 100\<rparr>,
      \<lparr>mt_name = ''mem'', mt_value = (\<lambda>s. f64_of_u64 (MemCurrent s)), mt_format = bytesFmt oor, mt_peak = True, mt_floor = Fin 0\<rparr>,
      \<lparr>mt_name = ''swap'', mt_value = (\<lambda>s. f64_of_u64 (Swap s)), mt_format = bytesFmt oor, mt_peak = True, mt_floor = Fin 0\<rparr>,
      \<lparr>mt_name = ''disk r'', mt_value = DiskReadRate, mt_format = rateFmt oor, mt_peak = False, mt_floor = Fin (2 ^ 20)\<rparr>,
      \<lparr>mt_name = ''disk w'', mt_value = DiskWriteRate, mt_format = rateFmt oor, mt_peak = False, mt_floor = Fin (2 ^ 20)\<rparr>,
      \<lparr>mt_name = ''net '' @ arrow_down, mt_value = NetRxRate, mt_format = rateFmt oor, mt_peak = False, mt_floor = Fin (2 ^ 20)\<rparr>,
      \<lparr>mt_name = ''net '' @ arrow_up, mt_value = NetTxRate, mt_format = rateFmt oor, mt_peak = False, mt_floor = Fin (2 ^ 20)\<rparr>,
      \<lparr>mt_name = ''procs'', mt_value = (\<lambda>s. f64_round (of_int (Procs s))), mt_format = format_f64 0, mt_peak = True, mt_floor = Fin 0\<rparr>,
      \<lparr>mt_name = ''stall'', mt_value = (\<lambda>s. f64_max (f64_max (CPUPressure s) (MemPressure s)) (IOPressure s)),
        mt_format = pctFmt, mt_peak = False, mt_floor = Fin 100\<rparr>]"

definition sparkLevels :: "string list" where
  "sparkLevels = map (\<lambda>i. [CHR 0xE2, CHR 0x96, char_of (0x81 + i)]) [0..<8]"

definition spark_top :: int where "spark_top = int (length sparkLevels) - 1"

text \<open>\<open>float64(0.02)\<close>: the nearest \<open>float64\<close> to 1/50.\<close>

definition two_percent :: f64 where "two_percent = f64_round (1/50)"

definition spark_level :: "(f64 \<Rightarrow> int) \<Rightarrow> f64 \<Rightarrow> f64 \<Rightarrow> int" where
  "spark_level ooi full v =
     (if f64_less (Fin 0) full \<and> f64_less (f64_mul full two_percent) v
      then min (max (f64_to_int ooi (f64_add (f64_mul (f64_div v full) (Fin (of_int spark_top))) (Fin (1/2)))) 1) spark_top
      else 0)"

definition sparkline :: "(f64 \<Rightarrow> int) \<Rightarrow> f64 list \<Rightarrow> f64 \<Rightarrow> string" where
  "sparkline ooi values full = concat (map (\<lambda>v. sparkLevels ! nat (spark_level ooi full v)) values)"

definition bucket_slice :: "'a list \<Rightarrow> nat \<Rightarrow> nat \<Rightarrow> 'a list" where
  "bucket_slice values width i =
     (let lo = i * length values div width; hi = (i + 1) * length values div width in take (hi - lo) (drop lo values))"

definition bucket_value :: "bool \<Rightarrow> f64 list \<Rightarrow> f64" where
  "bucket_value peak vs =
     (let acc = foldl (if peak then f64_max else f64_add) (Fin 0) vs in
      if peak then acc else f64_div acc (f64_of_nat (length vs)))"

definition bucket :: "f64 list \<Rightarrow> nat \<Rightarrow> bool \<Rightarrow> f64 list" where
  "bucket values width peak =
     (if length values \<le> width then values else map (\<lambda>i. bucket_value peak (bucket_slice values width i)) [0..<width])"

text \<open>\<open>time.Duration(x)\<close> of seconds that were multiplied by a second.\<close>

definition nanos :: "(f64 \<Rightarrow> int) \<Rightarrow> f64 \<Rightarrow> int" where
  "nanos ooi s = f64_to_int ooi (f64_mul s (Fin 1000000000))"

definition go_quot :: "int \<Rightarrow> int \<Rightarrow> int" where
  "go_quot a b = sgn a * sgn b * (\<bar>a\<bar> div \<bar>b\<bar>)"

definition chart_header :: "(f64 \<Rightarrow> int) \<Rightarrow> sampled_stats list \<Rightarrow> nat \<Rightarrow> string" where
  "chart_header ooi history width =
     (let span = nanos ooi (f64_add (sm_Elapsed (last history)) (f64_neg (sm_Elapsed (hd history))));
          cols = min (length history) width;
          perCol = go_quot span (int (max (cols - 1) 1))
      in ''  '' @ format_uint (length history) @ '' samples over '' @ FormatDuration span @ '', ~'' @ FormatDuration perCol @
         '' per column'')"

definition chart_note :: "(f64 \<Rightarrow> u64) \<Rightarrow> metric \<Rightarrow> f64 \<Rightarrow> sampled_stats \<Rightarrow> string" where
  "chart_note oor m pk lst =
     ''peak '' @ mt_format m pk @
     (if mt_name m = ''mem'' then (if MemMax lst > 0 then '' of '' @ FormatBytes (MemMax lst) else [])
      else if mt_name m = ''cpu'' then (if f64_less (Fin 0) (sm_CPULimit lst) then '' of '' @ pctFmt (sm_CPULimit lst) else [])
      else [])"

definition chart_top :: "f64 list \<Rightarrow> f64" where
  "chart_top values = foldl f64_max (Fin 0) values"

text \<open>A metric that stayed at or below two percent of its least full scale gets no line.\<close>

definition chart_line ::
  "(f64 \<Rightarrow> u64) \<Rightarrow> (f64 \<Rightarrow> int) \<Rightarrow> sampled_stats list \<Rightarrow> nat \<Rightarrow> bool \<Rightarrow> metric \<Rightarrow> string option" where
  "chart_line oor ooi history width live m =
     (let values = map (mt_value m) history; pk = chart_top values; lst = last history;
          idle = f64_mul (mt_floor m) two_percent
      in if f64_less pk idle \<or> (pk = idle \<and> pk \<noteq> NaN) then None
         else Some (''  '' @ pad_right 6 (mt_name m) @ '' '' @
           sparkline ooi (bucket values width (mt_peak m)) (f64_max pk (mt_floor m)) @ ''  '' @
           (if live then ''now '' else ''last'') @ '' '' @ pad_right 7 (mt_format m (mt_value m lst)) @ '' '' @
           chart_note oor m pk lst))"

definition renderChart ::
  "(f64 \<Rightarrow> u64) \<Rightarrow> (f64 \<Rightarrow> int) \<Rightarrow> sampled_stats list \<Rightarrow> nat \<Rightarrow> bool \<Rightarrow> string list" where
  "renderChart oor ooi history width live =
     (if history = [] then []
      else chart_header ooi history width # List.map_filter (chart_line oor ooi history width live) (metrics oor))"

definition cpuSpark :: "(f64 \<Rightarrow> int) \<Rightarrow> sampled_stats list \<Rightarrow> nat \<Rightarrow> string" where
  "cpuSpark ooi history n =
     (let history = drop (length history - n) history; values = map CPUPercent history in
      sparkline ooi values (foldl f64_max (Fin 100) values))"

section \<open>Limits and provenance of a new session\<close>

text \<open>The resource flags; \<open>_set\<close> says that a flag was given.\<close>

record resource_flags =
  rf_cpus :: f64
  rf_cpus_set :: bool
  rf_mem :: string
  rf_tasks :: u64
  rf_tasks_set :: bool
  rf_unlimited :: bool
  rf_stats :: int

datatype limits_failure = EnvLimits limit_error | FlagLimits limit_error

text \<open>\<open>fmt_g\<close> is the shortest text of a float that is read back as it.\<close>

definition limit_overrides :: "(f64 \<Rightarrow> string) \<Rightarrow> resource_flags \<Rightarrow> string list" where
  "limit_overrides fmt_g fl =
     (if rf_cpus_set fl then [''cpus='' @ fmt_g (rf_cpus fl)] else []) @
     (if rf_mem fl \<noteq> [] then [''mem='' @ rf_mem fl] else []) @
     (if rf_tasks_set fl then [''tasks='' @ u64_text (rf_tasks fl)] else [])"

definition sessionLimits ::
  "(f64 \<Rightarrow> string) \<Rightarrow> string option \<Rightarrow> (f64 \<Rightarrow> u64) \<Rightarrow> nat \<Rightarrow> env \<Rightarrow> resource_flags \<Rightarrow> limits_failure + limits" where
  "sessionLimits fmt_g proc oor numCPU e fl =
     (if rf_unlimited fl then Inr noLimits
      else case ParseLimits proc oor (getenv e ''SWASH_LIMITS'') (DefaultLimits numCPU proc) of
        Inl err \<Rightarrow> Inl (EnvLimits err)
      | Inr l \<Rightarrow>
          (case ParseLimits proc oor (go_join (limit_overrides fmt_g fl) '','') l of
             Inl err \<Rightarrow> Inl (FlagLimits err)
           | Inr l \<Rightarrow> Inr l))"

text \<open>The loop of \<open>ancestry\<close>, at most \<open>n\<close> more processes; \<open>read_file\<close> reads files below \<open>/proc\<close>.\<close>

fun ancestry_names :: "(string \<Rightarrow> string option) \<Rightarrow> nat \<Rightarrow> int \<Rightarrow> string list" where
  "ancestry_names read_file 0 pid = []"
| "ancestry_names read_file (Suc n) pid =
     (if pid \<le> 1 then []
      else case read_file (proc_path pid ''stat'') of
        None \<Rightarrow> []
      | Some data \<Rightarrow>
          (case (index_byte data (CHR ''(''), last_index_byte data (CHR '')'')) of
             (Some open_at, Some end_at) \<Rightarrow>
               (if end_at < open_at then []
                else path_base (slice (open_at + 1) (end_at - open_at - 1) data) #
                  (let flds = go_fields (drop (end_at + 1) data) in
                   if length flds < 2 then [] else ancestry_names read_file n (parse_int_value (flds ! 1))))
           | _ \<Rightarrow> []))"

definition ancestry :: "(string \<Rightarrow> string option) \<Rightarrow> int \<Rightarrow> string" where
  "ancestry read_file pid = go_join (ancestry_names read_file 12 pid) '' < ''"

definition caller_cgroup :: "string \<Rightarrow> fieldmap \<Rightarrow> fieldmap" where
  "caller_cgroup text fs =
     fold (\<lambda>line fs. case cut_prefix line ''0::'' of Some path \<Rightarrow> fs(''SWASH_CALLER_CGROUP'' \<mapsto> path) | None \<Rightarrow> fs)
       (go_split (trim_space text) [CHR 0x0A]) fs"

definition provenance ::
  "string option \<Rightarrow> env \<Rightarrow> bool \<Rightarrow> int \<Rightarrow> (string \<Rightarrow> string option) \<Rightarrow> (string \<Rightarrow> string option) \<Rightarrow> fieldmap" where
  "provenance cwd e login ppid readlink read_file =
     (let fs = (case cwd of Some d \<Rightarrow> [''SWASH_CWD'' \<mapsto> d] | None \<Rightarrow> Map.empty);
          fs = (if getenv e ''SWASH_SESSION'' \<noteq> [] then fs(''SWASH_PARENT'' \<mapsto> getenv e ''SWASH_SESSION'') else fs);
          fs = (if login then fs(''SWASH_LOGIN'' \<mapsto> ''1'') else fs);
          origin = (if getenv e ''SWASH_ORIGIN'' = [] then
              (if getenv e ''CLAUDE_CODE_SESSION_ID'' \<noteq> [] then ''claude-code:'' @ getenv e ''CLAUDE_CODE_SESSION_ID'' else [])
            else getenv e ''SWASH_ORIGIN'');
          fs = (if origin \<noteq> [] then fs(''SWASH_ORIGIN'' \<mapsto> origin) else fs);
          fs = fs(''SWASH_CALLER_PID'' \<mapsto> itoa ppid);
          fs = (case readlink (proc_path ppid ''exe'') of Some exe \<Rightarrow> fs(''SWASH_CALLER_EXE'' \<mapsto> exe) | None \<Rightarrow> fs);
          fs = (if ancestry read_file ppid \<noteq> [] then fs(''SWASH_CALLER_CHAIN'' \<mapsto> ancestry read_file ppid) else fs)
      in case read_file ''/proc/self/cgroup'' of Some text \<Rightarrow> caller_cgroup text fs | None \<Rightarrow> fs)"

section \<open>Statistics of sessions\<close>

text \<open>\<open>dec\<close> decodes the JSON text of a sample, or says what is wrong with it.\<close>

definition statsHistory ::
  "(string \<Rightarrow> string + sampled_stats) \<Rightarrow> (event_filter list \<Rightarrow> string \<Rightarrow> 'w \<Rightarrow> 'e + (event_record list \<times> string)) \<Rightarrow>
   string \<Rightarrow> 'w \<Rightarrow> sampled_stats list" where
  "statsHistory dec poll sessionID w =
     (case poll [FilterBySession sessionID, FilterByEvent EventStats] [] w of
        Inl _ \<Rightarrow> []
      | Inr (events, _) \<Rightarrow> List.map_filter (\<lambda>e. case dec (ev_field e FieldStats) of Inl _ \<Rightarrow> None | Inr st \<Rightarrow> Some st) events)"

definition sessionStats :: "(string \<Rightarrow> string + sampled_stats) \<Rightarrow> 'w backend \<Rightarrow> string \<Rightarrow> 'w \<Rightarrow> string + sampled_stats" where
  "sessionStats dec bk sessionID w =
     (case bk_Stats bk sessionID w of
        Inl err \<Rightarrow> Inl err
      | Inr text \<Rightarrow> dec text)"

definition exitRecord ::
  "(event_filter list \<Rightarrow> string \<Rightarrow> 'w \<Rightarrow> 'e + (event_record list \<times> string)) \<Rightarrow> string \<Rightarrow> 'w \<Rightarrow> event_record option" where
  "exitRecord poll sessionID w =
     (case poll [FilterBySession sessionID, FilterByEvent EventExited] [] w of
        Inl _ \<Rightarrow> None
      | Inr (events, _) \<Rightarrow> if events = [] then None else Some (last events))"

definition exitSummary ::
  "(f64 \<Rightarrow> u64) \<Rightarrow> (event_filter list \<Rightarrow> string \<Rightarrow> 'w \<Rightarrow> 'e + (event_record list \<times> string)) \<Rightarrow> string \<Rightarrow> 'w \<Rightarrow> string" where
  "exitSummary oor poll sessionID w =
     (case exitRecord poll sessionID w of
        None \<Rightarrow> []
      | Some r \<Rightarrow> ''exited '' @ ev_field r FieldExitCode @ separator @ Summary oor (StatsFromExitFields (ev_Fields r)))"

definition stats_text :: "(f64 \<Rightarrow> u64) \<Rightarrow> sampled_stats \<Rightarrow> string" where
  "stats_text oor st = Line oor (stats.truncate st)"

definition elapsed_text :: "(f64 \<Rightarrow> int) \<Rightarrow> sampled_stats \<Rightarrow> string" where
  "elapsed_text ooi st = FormatDuration (nanos ooi (sm_Elapsed st))"

text \<open>What one tick of \<open>reportStats\<close> prints.\<close>

definition report_tick ::
  "(string \<Rightarrow> string + sampled_stats) \<Rightarrow> (f64 \<Rightarrow> u64) \<Rightarrow> (f64 \<Rightarrow> int) \<Rightarrow> 'w backend \<Rightarrow> string \<Rightarrow> 'w \<Rightarrow> string list" where
  "report_tick dec oor ooi bk sessionID w =
     (case sessionStats dec bk sessionID w of
        Inl _ \<Rightarrow> []
      | Inr st \<Rightarrow> [''swash: ['' @ elapsed_text ooi st @ ''] '' @ stats_text oor st])"

definition chartWidth :: nat where "chartWidth = 60"

text \<open>The line of one running session, when no identifiers are given.\<close>

definition stats_line ::
  "(string \<Rightarrow> string + sampled_stats) \<Rightarrow> (f64 \<Rightarrow> u64) \<Rightarrow> (f64 \<Rightarrow> int) \<Rightarrow> 'w backend \<Rightarrow> 'w \<Rightarrow> px_session \<Rightarrow> string" where
  "stats_line dec oor ooi bk w s =
     (case sessionStats dec bk (se_ID s) w of
        Inl err \<Rightarrow> se_ID s @ ''  running, no stats ('' @ err @ '')''
      | Inr st \<Rightarrow>
          let history = statsHistory dec (bk_PollEvents bk) (se_ID s) w @ [st] in
          se_ID s @ ''  '' @ pad_right 12 (cpuSpark ooi history 12) @ '' ['' @ elapsed_text ooi st @ ''] '' @ stats_text oor st)"

text \<open>
  The report on one identifier. The error printed for a running session without statistics is that
  of the listing before, which had none.
\<close>

definition stats_report ::
  "(string \<Rightarrow> string + sampled_stats) \<Rightarrow> (f64 \<Rightarrow> u64) \<Rightarrow> (f64 \<Rightarrow> int) \<Rightarrow> 'w backend \<Rightarrow> 'w \<Rightarrow> px_session list \<Rightarrow> string \<Rightarrow>
   string list" where
  "stats_report dec oor ooi bk w sessions sid =
     (let history = statsHistory dec (bk_PollEvents bk) sid w;
          running = map_of (rev (map (\<lambda>s. (se_ID s, s)) sessions)) sid
      in case sessionStats dec bk sid w of
           Inr st \<Rightarrow>
             let history = history @ [st] in
             [sid @ ''  running '' @ elapsed_text ooi st @ separator @
                oneLine (case running of Some s \<Rightarrow> se_Command s | None \<Rightarrow> []) 80] @
             renderChart oor ooi history chartWidth True @ [''  '' @ stats_text oor st]
         | Inl _ \<Rightarrow>
             (case running of
                Some s \<Rightarrow> [sid @ ''  running, no stats (<nil>)'' @ separator @ oneLine (se_Command s) 80]
              | None \<Rightarrow>
                  let summary = exitSummary oor (bk_PollEvents bk) sid w in
                  if summary = [] \<and> history = [] then [sid @ ''  not running, no exit recorded (killed, or unknown)'']
                  else (sid @ ''  '' @ (if summary = [] then ''not running, no exit recorded'' else summary)) #
                    renderChart oor ooi history chartWidth False))"

text \<open>\<open>cmdStats\<close>: an error, or the lines printed.\<close>

definition cmdStats ::
  "(string \<Rightarrow> string + sampled_stats) \<Rightarrow> (f64 \<Rightarrow> u64) \<Rightarrow> (f64 \<Rightarrow> int) \<Rightarrow> 'w backend \<Rightarrow> string list \<Rightarrow> 'w \<Rightarrow>
   string + string list" where
  "cmdStats dec oor ooi bk ids w =
     (case bk_ListSessions bk w of
        Inl err \<Rightarrow> Inl (''listing sessions: '' @ err)
      | Inr sessions \<Rightarrow>
          if ids = [] then
            Inr (if sessions = [] then [''no sessions''] else map (stats_line dec oor ooi bk w) sessions)
          else Inr (stats_report dec oor ooi bk w sessions (hd ids) @
            concat (map (\<lambda>sid. [] # stats_report dec oor ooi bk w sessions sid) (tl ids))))"

section \<open>The history that was recorded\<close>

text \<open>The fields of the records \<open>recordStats\<close> writes.\<close>

definition record_fields :: "(sampled_stats \<Rightarrow> string option) \<Rightarrow> fieldmap \<Rightarrow> sampled_stats list \<Rightarrow> fieldmap list" where
  "record_fields enc tags sts = List.map_filter (\<lambda>st. map_option
     (\<lambda>data. mergeFields tags [FieldEvent \<mapsto> EventStats, FieldStats \<mapsto> data]) (enc st)) sts"

context event_log
begin

lemma record_stats_recs:
  assumes "\<And>s m fs. good s \<Longrightarrow> storable s m fs"
  shows "good s \<Longrightarrow> \<exists>s' rs. recordStats enc oor emit tags sts s = (Inr (), s') \<and> good s' \<and> recs s' = recs s @ rs \<and>
    (\<exists>ms. length ms = length (record_fields enc tags sts) \<and>
      map ev_Fields rs = map2 stored ms (record_fields enc tags sts))"
proof (induction sts arbitrary: s)
  case Nil
  then show ?case by (simp add: recordStats_def record_fields_def map_filter_simps returnE_def)
next
  case (Cons st sts)
  show ?case
  proof (cases "enc st")
    case None
    with Cons show ?thesis
      by (simp add: recordStats_def record_tick_def record_fields_def map_filter_simps thenE_def bindE_def returnE_def)
  next
    case (Some data)
    let ?fs = "mergeFields tags [FieldEvent \<mapsto> EventStats, FieldStats \<mapsto> data]"
    obtain s1 r where w: "emit (Line oor (stats.truncate st)) ?fs s = (Inr (), s1)" "good s1" "recs s1 = recs s @ [r]"
      "ev_Fields r = stored (Line oor (stats.truncate st)) ?fs"
      using write_ok[OF Cons(2) assms[OF Cons(2)]] by blast
    obtain s' rs ms where r: "recordStats enc oor emit tags sts s1 = (Inr (), s')" "good s'" "recs s' = recs s1 @ rs"
      "length ms = length (record_fields enc tags sts)" "map ev_Fields rs = map2 stored ms (record_fields enc tags sts)"
      using Cons(1)[OF w(2)] by blast
    have "recordStats enc oor emit tags (st # sts) s = (Inr (), s')"
      using w(1) r(1) by (simp add: recordStats_def record_tick_def Some thenE_def bindE_def ignoreE_def)
    moreover have "record_fields enc tags (st # sts) = ?fs # record_fields enc tags sts"
      by (simp add: record_fields_def map_filter_simps Some)
    ultimately show ?thesis using w(3,4) r(2-5)
      by (intro exI[of _ s'] exI[of _ "r # rs"])
        (auto intro!: exI[of _ "Line oor (stats.truncate st) # ms"])
  qed
qed

text \<open>Reading the history back gives the samples recorded after those that were there before.\<close>

lemma history_grows:
  assumes "good s" and "\<And>s m fs. good s \<Longrightarrow> storable s m fs"
    and "\<And>m fs k. k \<in> {FieldSession, FieldEvent, FieldStats} \<Longrightarrow> stored m fs k = fs k"
    and "tags FieldSession = Some sid" and "\<forall>st \<in> set sts. \<forall>d. enc st = Some d \<longrightarrow> dec d = Inr (g st)"
  shows "\<exists>s'. recordStats enc oor emit tags sts s = (Inr (), s') \<and>
    (\<forall>x. statsHistory dec poll x s' = statsHistory dec poll x s @ (if x = sid then map g (filter (\<lambda>st. enc st \<noteq> None) sts) else []))"
proof -
  obtain s' rs ms where r: "recordStats enc oor emit tags sts s = (Inr (), s')" "good s'" "recs s' = recs s @ rs"
    "length ms = length (record_fields enc tags sts)" "map ev_Fields rs = map2 stored ms (record_fields enc tags sts)"
    using record_stats_recs[OF assms(2,1), of enc oor tags sts] by blast
  let ?ms = "\<lambda>x. [FilterBySession x, FilterByEvent EventStats]"
  let ?d = "\<lambda>e. case dec (ev_field e FieldStats) of Inl _ \<Rightarrow> None | Inr st \<Rightarrow> Some st"
  have dist: "distinct (map fst (?ms x))" for x
    by (simp add: FilterBySession_def FilterByEvent_def field_names)
  have h: "statsHistory dec poll x u = List.map_filter ?d (filter (\<lambda>e. matchesFilters e (?ms x)) (recs u))" if "good u" for x u
    using poll_start[OF that dist[of x]] by (auto simp: statsHistory_def)
  have new: "List.map_filter ?d (filter (\<lambda>e. matchesFilters e (?ms x)) rs) =
      (if x = sid then map g (filter (\<lambda>st. enc st \<noteq> None) sts) else [])" for x
    using r(4,5) assms(5)
  proof (induction sts arbitrary: rs ms)
    case Nil
    then show ?case by (simp add: record_fields_def map_filter_simps)
  next
    case (Cons st sts)
    show ?case
    proof (cases "enc st")
      case None
      with Cons show ?thesis by (simp add: record_fields_def map_filter_simps)
    next
      case (Some data)
      let ?fs = "mergeFields tags [FieldEvent \<mapsto> EventStats, FieldStats \<mapsto> data]"
      have f: "record_fields enc tags (st # sts) = ?fs # record_fields enc tags sts"
        by (simp add: record_fields_def map_filter_simps Some)
      obtain m ms' where m: "ms = m # ms'" using Cons(2) f by (cases ms) auto
      obtain q rs' where q: "rs = q # rs'" "ev_Fields q = stored m ?fs" "map ev_Fields rs' = map2 stored ms' (record_fields enc tags sts)"
        using Cons(3) f m by (cases rs) auto
      have v: "ev_Fields q FieldSession = Some sid" "ev_Fields q FieldEvent = Some EventStats" "ev_Fields q FieldStats = Some data"
        using assms(4) by (simp_all add: q(2) assms(3) mergeFields_def field_names FieldStats_def)
      have "matchesFilters q (?ms x) \<longleftrightarrow> x = sid"
        using v by (auto simp: matchesFilters_def FilterBySession_def FilterByEvent_def)
      moreover have "?d q = Some (g st)" using v(3) Cons(4) Some by (simp add: ev_field_def)
      moreover have "List.map_filter ?d (filter (\<lambda>e. matchesFilters e (?ms x)) rs') =
          (if x = sid then map g (filter (\<lambda>st. enc st \<noteq> None) sts) else [])"
        using Cons(1)[OF _ q(3)] Cons(2,4) f m by simp
      ultimately show ?thesis unfolding q(1) by (cases "x = sid") (simp_all add: map_filter_simps Some)
    qed
  qed
  have "List.map_filter ?d (xs @ ys) = List.map_filter ?d xs @ List.map_filter ?d ys" for xs ys
    by (simp add: List.map_filter_def)
  then show ?thesis using r(1) h[OF r(2)] h[OF assms(1)] r(3) new by simp
qed

end

section \<open>What a chart shows\<close>

lemma bucket_bounds:
  fixes i n w :: nat
  assumes "0 < w" and "w \<le> n"
  shows "i * n div w < (i + 1) * n div w"
proof -
  have "i * n + w \<le> (i + 1) * n" using assms(2) by simp
  then have "(i * n + w) div w \<le> (i + 1) * n div w" by (rule div_le_mono)
  then show ?thesis using assms(1) by simp
qed

lemma bucket_slices:
  assumes "0 < w" and "w \<le> length vs"
  shows "concat (map (bucket_slice vs w) [0..<w]) = vs" and "i < w \<Longrightarrow> bucket_slice vs w i \<noteq> []"
proof -
  let ?n = "length vs"
  have "concat (map (bucket_slice vs w) [0..<k]) = take (k * ?n div w) vs" for k
  proof (induction k)
    case (Suc k)
    let ?lo = "k * ?n div w" and ?hi = "(k + 1) * ?n div w"
    have "take ?hi vs = take ?lo vs @ take (?hi - ?lo) (drop ?lo vs)"
      using bucket_bounds[OF assms, of k] by (simp add: take_add[symmetric])
    then show ?case using Suc by (simp add: bucket_slice_def Let_def)
  qed simp
  from this[of w] show "concat (map (bucket_slice vs w) [0..<w]) = vs" using assms(1) by simp
  assume i: "i < w"
  have "(i + 1) * ?n div w \<le> w * ?n div w" using i by (intro div_le_mono mult_le_mono1) simp
  then have "i * ?n div w < ?n" using bucket_bounds[OF assms, of i] assms(1) by simp
  then show "bucket_slice vs w i \<noteq> []" using bucket_bounds[OF assms, of i] by (simp add: bucket_slice_def Let_def)
qed

lemma f64_max_Fin: "f64_max (Fin a) (Fin b) = Fin (max a b)"
  by (simp add: f64_max_def max_def)

lemma foldl_max: "foldl f64_max (Fin a) (map Fin qs) = Fin (foldl max a qs)"
  by (induction qs arbitrary: a) (simp_all add: f64_max_Fin)

lemma foldl_max_ge: "a \<le> foldl max a (qs :: rat list)"
  by (induction qs arbitrary: a) (simp, metis foldl_Cons max.bounded_iff)

lemma foldl_max_start: "b \<le> a \<Longrightarrow> foldl max a qs = max a (foldl max b (qs :: rat list))"
proof (induction qs arbitrary: a b)
  case (Cons q qs)
  have "q \<le> foldl max (max b q) qs" using foldl_max_ge[of "max b q" qs] by simp
  moreover have "foldl max (max a q) qs = max (max a q) (foldl max (max b q) qs)"
    using Cons(2) by (intro Cons(1)) auto
  ultimately show ?case by (simp add: max.assoc max.absorb2)
qed (simp add: max.absorb1)

lemma foldl_max_concat: "foldl max (0 :: rat) (map (foldl max 0) qss) = foldl max 0 (concat qss)"
proof (induction qss rule: rev_induct)
  case (snoc qs qss)
  have "foldl max (foldl max 0 (concat qss)) qs = max (foldl max 0 (concat qss)) (foldl max 0 qs)"
    by (rule foldl_max_start[OF foldl_max_ge])
  with snoc show ?case by simp
qed simp

lemma spark_level_range: "0 \<le> spark_level ooi full v \<and> spark_level ooi full v \<le> 7"
  by (auto simp: spark_level_def spark_top_def sparkLevels_def max_def min_def)

lemma spark_rune: "l \<in> {0..7} \<Longrightarrow> length (sparkLevels ! nat l) = 3"
proof -
  assume "l \<in> {0..7}"
  then have "nat l < length [0..<8 :: nat]" by auto
  then show ?thesis by (simp add: sparkLevels_def del: upt_rec_numeral)
qed

lemma sparkline_runes: "length (sparkline ooi vs full) = 3 * length vs"
proof (induction "vs")
  case (Cons v vs)
  have "length (sparkLevels ! nat (spark_level ooi full v)) = 3"
    using spark_level_range[of ooi full v] by (intro spark_rune) simp
  with Cons show ?case by (simp add: sparkline_def)
qed (simp add: sparkline_def)



section \<open>Limits\<close>

text \<open>A comma in the value of \<open>--mem\<close> smuggles in further settings.\<close>

lemma mem_flag_smuggles:
  assumes "rf_mem fl = m @ '','' @ setting" and "\<not> rf_tasks_set fl" and "\<not> rf_cpus_set fl" and "m \<noteq> []"
    and "setting = ''tasks='' @ u64_text n"
  shows "sessionLimits fmt_g proc oor numCPU e fl =
    sessionLimits fmt_g proc oor numCPU e (fl\<lparr>rf_mem := m, rf_tasks := n, rf_tasks_set := True\<rparr>)"
proof -
  have "go_join (limit_overrides fmt_g fl) '','' =
      go_join (limit_overrides fmt_g (fl\<lparr>rf_mem := m, rf_tasks := n, rf_tasks_set := True\<rparr>)) '',''"
    using assms by (simp add: limit_overrides_def)
  then show ?thesis by (simp add: sessionLimits_def cong: sum.case_cong)
qed

end
