(* ===== verification/CommandText.thy ===== *)
theory CommandText
  imports StatsReport
begin

text \<open>
  The text the command line reads and prints: quoted strings, durations and ages, tags, fields and
  filters given as \<open>KEY=VALUE\<close>, and printed events (\<open>cmd/swash/main.go\<close>, \<open>emit.go\<close>, \<open>events.go\<close>).
\<close>

section \<open>Lines and quoted strings\<close>

definition println :: "string \<Rightarrow> string" where "println s = s @ [CHR 0x0A]"

definition lines_text :: "string list \<Rightarrow> string" where "lines_text ls = concat (map println ls)"

text \<open>The value of the rune of \<open>n\<close> bytes that starts a string.\<close>

definition rune_value :: "string \<Rightarrow> nat" where
  "rune_value s =
     (let n = rune_len s; b = (\<lambda>i. of_char (s ! i) :: nat) in
      if n = 2 then b 0 mod 32 * 64 + b 1 mod 64
      else if n = 3 then b 0 mod 16 * 4096 + b 1 mod 64 * 64 + b 2 mod 64
      else if n = 4 then b 0 mod 8 * 262144 + b 1 mod 64 * 4096 + b 2 mod 64 * 64 + b 3 mod 64
      else b 0)"

text \<open>\<open>strconv.IsPrint\<close> from its tables, the parameter \<open>table\<close>, beyond the first 256 runes.\<close>

definition is_print :: "(nat \<Rightarrow> bool) \<Rightarrow> nat \<Rightarrow> bool" where
  "is_print table r =
     (if r \<le> 0xFF then 0x20 \<le> r \<and> r < 0x7F \<or> 0xA1 \<le> r \<and> r \<noteq> 0xAD else table r)"

definition escaped_rune :: "nat \<Rightarrow> string" where
  "escaped_rune r = [CHR 0x5C] @
     (if r = 7 then ''a'' else if r = 8 then ''b'' else if r = 12 then ''f'' else if r = 10 then ''n''
      else if r = 13 then ''r'' else if r = 9 then ''t'' else if r = 11 then ''v''
      else if r < 32 \<or> r = 0x7F then ''x'' @ hex_byte (char_of r)
      else if r < 0x10000 then ''u'' @ hex_string [char_of (r div 256), char_of r]
      else ''U'' @ hex_string [char_of (r div 16777216), char_of (r div 65536), char_of (r div 256), char_of r])"

text \<open>\<open>strconv.Quote\<close>, which is also \<open>%q\<close>.\<close>

function quoted :: "(nat \<Rightarrow> bool) \<Rightarrow> string \<Rightarrow> string" where
  "quoted table s =
     (if s = [] then []
      else if rune_len s = 0 then [CHR 0x5C] @ ''x'' @ hex_byte (hd s) @ quoted table (tl s)
      else (if hd s = CHR 0x22 \<or> hd s = CHR 0x5C then [CHR 0x5C, hd s]
            else if is_print table (rune_value s) then take (rune_len s) s
            else escaped_rune (rune_value s)) @ quoted table (drop (rune_len s) s))"
  by auto
termination
  by (relation "measure (length \<circ> snd)") auto

declare quoted.simps [simp del]

definition go_quote :: "(nat \<Rightarrow> bool) \<Rightarrow> string \<Rightarrow> string" where
  "go_quote table s = [CHR 0x22] @ quoted table s @ [CHR 0x22]"

section \<open>Durations and ages\<close>

text \<open>\<open>Duration.String\<close>: the digits of a fraction lose the zeros at their end.\<close>

definition frac_text :: "nat \<Rightarrow> nat \<Rightarrow> string" where
  "frac_text prec v =
     (let ds = rev (dropWhile (\<lambda>c. c = CHR ''0'') (rev (pad_left prec (CHR ''0'') (format_uint v)))) in
      if ds = [] then [] else ''.'' @ ds)"

definition micro :: string where "micro = [CHR 0xC2, CHR 0xB5] @ ''s''"

definition duration_text :: "int \<Rightarrow> string" where
  "duration_text d =
     (let u = nat \<bar>d\<bar>;
          part = (\<lambda>prec v. format_uint (v div 10 ^ prec) @ (if prec = 0 then [] else frac_text prec (v mod 10 ^ prec)));
          s = u div 1000000000
      in if d = 0 then ''0s''
         else (if d < 0 then ''-'' else []) @
           (if u < 1000 then part 0 u @ ''ns''
            else if u < 1000000 then part 3 u @ micro
            else if u < 1000000000 then part 6 u @ ''ms''
            else (if s \<ge> 3600 then format_uint (s div 3600) @ ''h'' else []) @
                 (if s \<ge> 60 then format_uint (s div 60 mod 60) @ ''m'' else []) @
                 part 9 (u mod 60000000000) @ ''s''))"

text \<open>\<open>Seconds\<close>, \<open>Minutes\<close> and \<open>Hours\<close> of a duration that may be negative.\<close>

definition dur_in :: "int \<Rightarrow> int \<Rightarrow> f64" where
  "dur_in unit d = (if d < 0 then f64_neg (dur_float unit (- d)) else dur_float unit d)"

text \<open>\<open>parse\<close> reads the time systemd prints; the difference of two times is kept within its type.\<close>

definition since :: "int \<Rightarrow> int \<Rightarrow> int" where
  "since now t = max (- (2 ^ 63)) (min (2 ^ 63 - 1) (now - t))"

definition formatAge :: "(string \<Rightarrow> int option) \<Rightarrow> (f64 \<Rightarrow> int) \<Rightarrow> int \<Rightarrow> string \<Rightarrow> string" where
  "formatAge parse ooi now timestamp =
     (if timestamp = [] then ''-''
      else case parse timestamp of
        None \<Rightarrow> ''-''
      | Some t \<Rightarrow>
          let d = since now t in
          if d < 60000000000 then itoa (f64_to_int ooi (dur_in 1000000000 d)) @ ''s''
          else if d < 3600000000000 then itoa (f64_to_int ooi (dur_in 60000000000 d)) @ ''m''
          else if d < 86400000000000 then itoa (f64_to_int ooi (dur_in 3600000000000 d)) @ ''h''
          else itoa (f64_to_int ooi (f64_div (dur_in 3600000000000 d) (Fin 24))) @ ''d'')"

section \<open>Keys and values\<close>

definition parseTags :: "string list \<Rightarrow> fieldmap" where
  "parseTags tags =
     fold (\<lambda>tag m. case index_byte tag (CHR ''='') of
         Some idx \<Rightarrow> if idx > 0 then m(take idx tag \<mapsto> drop (idx + 1) tag) else m
       | None \<Rightarrow> m) tags Map.empty"

definition lower_digit :: "byte \<Rightarrow> bool" where
  "lower_digit c = (let n = of_char c :: nat in 97 \<le> n \<and> n \<le> 122 \<or> 48 \<le> n \<and> n \<le> 57)"

definition upper :: "byte \<Rightarrow> bool" where
  "upper c = (let n = of_char c :: nat in 65 \<le> n \<and> n \<le> 90)"

definition upper_digit :: "byte \<Rightarrow> bool" where
  "upper_digit c = (let n = of_char c :: nat in upper c \<or> 48 \<le> n \<and> n \<le> 57 \<or> n = 95)"

definition eventNamePattern :: "string \<Rightarrow> bool" where
  "eventNamePattern s = (case s of [] \<Rightarrow> False | c # cs \<Rightarrow> lower_digit c \<and> list_all (\<lambda>c. lower_digit c \<or> c = CHR ''-'') cs)"

definition fieldNamePattern :: "string \<Rightarrow> bool" where
  "fieldNamePattern s = (case s of [] \<Rightarrow> False | c # cs \<Rightarrow> upper c \<and> list_all upper_digit cs)"

definition queryFieldNamePattern :: "string \<Rightarrow> bool" where
  "queryFieldNamePattern s = fieldNamePattern (case cut_prefix s ''_'' of Some r \<Rightarrow> r | None \<Rightarrow> s)"

definition reserved_fields :: "string list" where
  "reserved_fields = [FieldSession, FieldEvent, ''MESSAGE'', ''FD'']"

fun event_fields :: "(nat \<Rightarrow> bool) \<Rightarrow> string list \<Rightarrow> fieldmap \<Rightarrow> string + fieldmap" where
  "event_fields table [] fs = Inr fs"
| "event_fields table (value # vs) fs =
     (case go_cut value ''='' of
        None \<Rightarrow> Inl (''field '' @ go_quote table value @ '' must be KEY=VALUE'')
      | Some (key, fieldValue) \<Rightarrow>
          if key = [] then Inl (''field '' @ go_quote table value @ '' must be KEY=VALUE'')
          else if \<not> fieldNamePattern key then
            Inl (''field name '' @ go_quote table key @ '' must contain only uppercase letters, digits, and underscores'')
          else if key \<in> set reserved_fields then Inl (''field name '' @ go_quote table key @ '' is reserved'')
          else event_fields table vs (fs(key \<mapsto> fieldValue)))"

definition parseEventFields :: "(nat \<Rightarrow> bool) \<Rightarrow> string list \<Rightarrow> string + fieldmap" where
  "parseEventFields table vs = event_fields table vs Map.empty"

fun event_filters :: "(nat \<Rightarrow> bool) \<Rightarrow> string list \<Rightarrow> event_filter list \<Rightarrow> string + event_filter list" where
  "event_filters table [] ms = Inr ms"
| "event_filters table (value # vs) ms =
     (case go_cut value ''='' of
        None \<Rightarrow> Inl (''field '' @ go_quote table value @ '' must be KEY=VALUE'')
      | Some (key, fieldValue) \<Rightarrow>
          if key = [] then Inl (''field '' @ go_quote table value @ '' must be KEY=VALUE'')
          else if \<not> queryFieldNamePattern key then
            Inl (''field name '' @ go_quote table key @ '' must be an uppercase journal field'')
          else event_filters table vs (ms @ [(key, fieldValue)]))"

definition parseEventFilters :: "(nat \<Rightarrow> bool) \<Rightarrow> string list \<Rightarrow> string + event_filter list" where
  "parseEventFilters table vs = event_filters table vs []"

section \<open>Printed events\<close>

text \<open>
  What printing relies on: the tables of \<open>strconv\<close>, times in RFC 3339, and as JSON, which fails for
  years beyond four digits.
\<close>

record print_env =
  pr_table :: "nat \<Rightarrow> bool"
  pr_time :: "int \<Rightarrow> string"
  pr_json_time :: "int \<Rightarrow> string + string"

definition json_event :: "event_record \<Rightarrow> string \<Rightarrow> string" where
  "json_event entry time =
     ''{'' @ go_join [json_quote ''cursor'' @ '':'' @ json_quote (ev_Cursor entry),
        json_quote ''timestamp'' @ '':'' @ time,
        json_quote ''message'' @ '':'' @ json_quote (ev_Message entry),
        json_quote ''fields'' @ '':'' @ json_map (map_pairs (ev_Fields entry))] '','' @ ''}''"

definition hidden_fields :: "string list" where
  "hidden_fields = [''MESSAGE'', FieldSession, FieldEvent, ''SWASH_WRITE_NONCE'', ''PRIORITY'']"

definition shown_fields :: "event_record \<Rightarrow> (string \<times> string) list" where
  "shown_fields entry =
     filter (\<lambda>(key, _). key \<notin> set hidden_fields \<and> \<not> has_prefix key ''_'') (map_pairs (ev_Fields entry))"

definition or_dash :: "string \<Rightarrow> string" where "or_dash s = (if s = [] then ''-'' else s)"

definition plain_event :: "print_env \<Rightarrow> event_record \<Rightarrow> string" where
  "plain_event pv entry =
     pr_time pv (ev_Timestamp entry) @ '' '' @ pad_right 8 (or_dash (ev_field entry FieldSession)) @ '' '' @
     pad_right 16 (or_dash (ev_field entry FieldEvent)) @ '' '' @ ev_Message entry @
     concat (map (\<lambda>(key, v). '' '' @ key @ ''='' @ go_quote (pr_table pv) v) (shown_fields entry))"

definition printEvent :: "print_env \<Rightarrow> bool \<Rightarrow> event_record \<Rightarrow> string + string" where
  "printEvent pv jsonOutput entry =
     (if jsonOutput then
        (case pr_json_time pv (ev_Timestamp entry) of
           Inl err \<Rightarrow> Inl err
         | Inr time \<Rightarrow> Inr (println (json_event entry time)))
      else Inr (println (plain_event pv entry)))"

end
