(* ===== verification/PortableBackend.thy ===== *)
theory PortableBackend
  imports Backends SqliteLog
begin

text \<open>
  The portable backend as a whole: the methods of \<open>PosixBackend\<close> in
  \<open>internal/backend/posix/stub.go\<close>, put together as the interface \<open>Backend\<close> the commands use. The
  state is the directory of the sessions and the shared event log; the log is any pair of \<open>poll\<close> and
  \<open>emit\<close>. What the hosts of other sessions answer and do meanwhile is a parameter.
\<close>

section \<open>The methods\<close>

text \<open>A client connected to the host of a session, by what its calls return.\<close>

record client =
  cn_Kill :: "string option"
  cn_SendInput :: "string \<Rightarrow> string + nat"
  cn_GetScreenANSI :: "string + string"
  cn_Stats :: "string + string"

text \<open>
  \<open>pe_shared\<close>: why the log cannot be opened, and whether that is because its path does not exist.
  \<open>pe_follow\<close>: the records the log yields while a session is followed, whether it is the deadline
  that ends them, and the state then.
\<close>

record 'l portable_env =
  pe_config :: posix_config
  pe_start :: start_env
  pe_kill :: "int \<Rightarrow> int \<Rightarrow> string option"
  pe_list_err :: "string option"
  pe_shared :: "(bool \<times> string) option"
  pe_stat :: "string \<Rightarrow> string option"
  pe_connect :: "px_world \<times> 'l \<Rightarrow> string \<Rightarrow> string \<Rightarrow> string + client"
  pe_follow :: "string \<Rightarrow> int \<Rightarrow> bool \<Rightarrow> px_world \<times> 'l \<Rightarrow> event_record list \<times> bool \<times> (px_world \<times> 'l)"
  pe_follow_events :: "event_filter list \<Rightarrow> string \<Rightarrow> 'l \<Rightarrow> event_record list"
  pe_error :: "px_error \<Rightarrow> string"
  pe_log_error :: "log_error \<Rightarrow> string"
  pe_format :: "int \<Rightarrow> string"
  pe_order :: "string list"

text \<open>The log where it can be opened, and the client of a session.\<close>

definition shared_log :: "'l portable_env \<Rightarrow> 'a \<Rightarrow> string + 'a" where
  "shared_log pe l = (case pe_shared pe of Some (_, err) \<Rightarrow> Inl err | None \<Rightarrow> Inr l)"

definition session_client :: "'l portable_env \<Rightarrow> px_world \<times> 'l \<Rightarrow> string \<Rightarrow> string + client" where
  "session_client pe w sessionID = ConnectSession (pe_config pe) (pe_stat pe) (pe_connect pe w) sessionID"

definition tty_client :: "'l portable_env \<Rightarrow> px_world \<times> 'l \<Rightarrow> string \<Rightarrow> string + client" where
  "tty_client pe w sessionID = ConnectTTYSession (pe_config pe) (pe_stat pe) (pe_connect pe w) sessionID"

definition flat_err :: "('e \<Rightarrow> string) \<Rightarrow> string + ('e + 'a) \<Rightarrow> string + 'a" where
  "flat_err text r = (case r of Inl e \<Rightarrow> Inl e | Inr r \<Rightarrow> err_of text r)"

definition pb_ListHistory ::
  "'l portable_env \<Rightarrow> (event_filter list \<Rightarrow> string \<Rightarrow> 'l \<Rightarrow> log_error + (event_record list \<times> string)) \<Rightarrow>
   px_world \<times> 'l \<Rightarrow> string + history_session list" where
  "pb_ListHistory pe poll w =
     (case pe_shared pe of
        Some (missing, err) \<Rightarrow> if missing then Inr [] else Inl err
      | None \<Rightarrow> err_of (pe_log_error pe) (ListHistory_posix poll (pe_format pe) (pe_order pe) (snd w)))"

text \<open>The waiting loop ends within 202 passes (\<open>waitReady_ends\<close>).\<close>

definition pb_StartSession ::
  "'l portable_env \<Rightarrow> string list \<Rightarrow> session_options \<Rightarrow> px_world \<times> 'l \<Rightarrow> (string + string) \<times> (px_world \<times> 'l)" where
  "pb_StartSession pe command opts w =
     (case StartSession 202 (pe_config pe) (pe_start pe) command opts (fst w) of
        (Inl e, p) \<Rightarrow> (Inl (pe_error pe e), (p, snd w))
      | (Inr None, p) \<Rightarrow> (Inl [], (p, snd w))
      | (Inr (Some sid), p) \<Rightarrow> (Inr sid, (p, snd w)))"

definition px_act ::
  "'l portable_env \<Rightarrow> (px_error, px_world, unit) eff \<Rightarrow> px_world \<times> 'l \<Rightarrow> string option \<times> (px_world \<times> 'l)" where
  "px_act pe f w =
     (case f (fst w) of (r, p) \<Rightarrow> (case r of Inl e \<Rightarrow> Some (pe_error pe e) | Inr _ \<Rightarrow> None, (p, snd w)))"

definition pb_KillSession ::
  "'l portable_env \<Rightarrow> string \<Rightarrow> px_world \<times> 'l \<Rightarrow> string option \<times> (px_world \<times> 'l)" where
  "pb_KillSession pe sessionID w =
     px_act pe (KillSession (pe_kill pe)
       (case session_client pe w sessionID of Inl e \<Rightarrow> Inl e | Inr c \<Rightarrow> Inr (cn_Kill c)) sessionID) w"

definition pb_SendInput :: "'l portable_env \<Rightarrow> string \<Rightarrow> string \<Rightarrow> px_world \<times> 'l \<Rightarrow> (string + int) \<times> (px_world \<times> 'l)" where
  "pb_SendInput pe sessionID input w =
     (case px_SendInput (session_client pe w sessionID) cn_SendInput input of Inl e \<Rightarrow> Inl e | Inr n \<Rightarrow> Inr (int n), w)"

definition pb_EmitSessionEvent ::
  "'l portable_env \<Rightarrow> (string \<Rightarrow> fieldmap \<Rightarrow> (log_error, 'l, unit) eff) \<Rightarrow> string \<Rightarrow> string \<Rightarrow> string \<Rightarrow> fieldmap \<Rightarrow>
   px_world \<times> 'l \<Rightarrow> string option \<times> (px_world \<times> 'l)" where
  "pb_EmitSessionEvent pe emit sessionID event message extra w =
     (case shared_log pe (snd w) of
        Inl e \<Rightarrow> (Some e, w)
      | Inr l \<Rightarrow>
          (case EmitSessionEvent emit sessionID event message extra l of
             (r, l) \<Rightarrow> (case r of Inl e \<Rightarrow> Some (pe_log_error pe e) | Inr _ \<Rightarrow> None, (fst w, l))))"

definition pb_FollowSession ::
  "'l portable_env \<Rightarrow> string \<Rightarrow> int \<Rightarrow> int \<Rightarrow> bool \<Rightarrow> px_world \<times> 'l \<Rightarrow>
   ((string list \<times> (int \<times> follow_result)) \<times> (px_world \<times> 'l)) option" where
  "pb_FollowSession pe sessionID timeout outputLimit cancelled w =
     (if pe_shared pe \<noteq> None then Some (FollowSession_posix False outputLimit [] False, w)
      else case pe_follow pe sessionID timeout cancelled w of
        (es, deadline, w) \<Rightarrow> Some (FollowSession_posix True outputLimit es deadline, w))"

definition pb_GetScreen ::
  "'l portable_env \<Rightarrow> (event_filter list \<Rightarrow> string \<Rightarrow> 'l \<Rightarrow> log_error + (event_record list \<times> string)) \<Rightarrow>
   string \<Rightarrow> px_world \<times> 'l \<Rightarrow> string + string" where
  "pb_GetScreen pe poll sessionID w =
     (let client = (case tty_client pe w sessionID of Inl e \<Rightarrow> Inl e | Inr c \<Rightarrow> Inr (cn_GetScreenANSI c)) in
      case (client, pe_shared pe) of
        (Inr (Inr screen), _) \<Rightarrow> Inr screen
      | (_, Some (_, err)) \<Rightarrow> Inl err
      | (_, None) \<Rightarrow>
          err_of (\<lambda>e. case e of ScreenLog e \<Rightarrow> pe_log_error pe e | NoScreen sid \<Rightarrow> ''no screen found for session '' @ sid)
            (px_GetScreen poll client sessionID (snd w)))"

text \<open>What \<open>ConnectSession\<close> is used for: the statistics of a session.\<close>

definition pb_Stats :: "'l portable_env \<Rightarrow> string \<Rightarrow> px_world \<times> 'l \<Rightarrow> string + string" where
  "pb_Stats pe sessionID w = (case session_client pe w sessionID of Inl e \<Rightarrow> Inl e | Inr c \<Rightarrow> cn_Stats c)"

definition portable_backend ::
  "'l portable_env \<Rightarrow> (event_filter list \<Rightarrow> string \<Rightarrow> 'l \<Rightarrow> log_error + (event_record list \<times> string)) \<Rightarrow>
   (string \<Rightarrow> fieldmap \<Rightarrow> (log_error, 'l, unit) eff) \<Rightarrow> (px_world \<times> 'l) backend" where
  "portable_backend pe poll emit =
     \<lparr>bk_ListSessions = (\<lambda>w. err_of (pe_error pe) (ListSessions (pe_kill pe) (pe_list_err pe) (fst w))),
      bk_ListHistory = pb_ListHistory pe poll,
      bk_StartSession = pb_StartSession pe,
      bk_StopSession = (\<lambda>sid. px_act pe (StopSession (pe_kill pe) sid)),
      bk_KillSession = pb_KillSession pe,
      bk_SendInput = pb_SendInput pe,
      bk_EmitSessionEvent = pb_EmitSessionEvent pe emit,
      bk_PollEvents = (\<lambda>ms cursor w. flat_err (pe_log_error pe)
        (px_PollEvents (shared_log pe (\<lambda>ms c. poll ms c (snd w))) ms cursor)),
      bk_FollowEvents = (\<lambda>ms cursor w. px_FollowEvents (shared_log pe (\<lambda>ms c. pe_follow_events pe ms c (snd w))) ms cursor),
      bk_PollSessionOutput = (\<lambda>sid cursor w. flat_err (pe_log_error pe)
        (px_PollSessionOutput (shared_log pe (\<lambda>l ms c. poll ms c l)) sid cursor (snd w))),
      bk_FollowSession = pb_FollowSession pe,
      bk_GetScreen = pb_GetScreen pe poll,
      bk_Stats = pb_Stats pe\<rparr>"

text \<open>Where its log can be opened, the portable backend hands on to it, the database.\<close>

interpretation portable_log: session_log "sq_ok dec" "sq_recs dec" "SQLitePoll dec False" "sq_emit enc now"
  "sq_storable enc dec" stored_fields
  "portable_backend (pe\<lparr>pe_shared := None\<rparr>) (SQLitePoll dec False) (sq_emit enc now)" snd "\<lambda>l w. (fst w, l)" "pe_log_error pe"
  by unfold_locales
    (simp_all add: portable_backend_def pb_EmitSessionEvent_def shared_log_def px_PollEvents_def px_PollSessionOutput_def
      flat_err_def split: prod.splits sum.splits)

end
