(* ===== verification/CommandLine.thy ===== *)
theory CommandLine
  imports CommandText AttachView PortableBackend
begin

text \<open>
  The commands of \<open>swash\<close>: \<open>cmd/swash/main.go\<close>, \<open>attach.go\<close>, \<open>emit.go\<close> and \<open>events.go\<close>, over the interface
  \<open>Backend\<close>. A run of the program is what it prints, the status it exits with and the state it leaves.
  Parsing flags is third-party code; its result is a parameter.
\<close>

section \<open>The program and its surroundings\<close>

record 'w outcome =
  oc_out :: string
  oc_err :: string
  oc_status :: int
  oc_world :: 'w

definition finish :: "string \<Rightarrow> 'w \<Rightarrow> 'w outcome" where
  "finish text w = \<lparr>oc_out = text, oc_err = [], oc_status = 0, oc_world = w\<rparr>"

definition fatal :: "string \<Rightarrow> 'w \<Rightarrow> 'w outcome" where
  "fatal msg w = \<lparr>oc_out = [], oc_err = println (''error: '' @ msg), oc_status = 1, oc_world = w\<rparr>"

text \<open>The global flags, where needed with whether they were given.\<close>

record flags =
  fl_backend :: string
  fl_protocol :: string
  fl_tags :: "string list"
  fl_tty :: bool
  fl_login :: bool
  fl_rows :: int
  fl_rows_set :: bool
  fl_cols :: int
  fl_cols_set :: bool
  fl_detachAfter :: int
  fl_detachAfter_set :: bool
  fl_detachAfterOutput :: int
  fl_detachAfterOutput_set :: bool
  fl_resources :: resource_flags

record emit_flags =
  ef_event :: string
  ef_message :: string
  ef_fields :: "string list"
  ef_backend :: string
  ef_args :: "string list"

record events_flags =
  vf_session :: string
  vf_event :: string
  vf_fields :: "string list"
  vf_cursor :: string
  vf_follow :: bool
  vf_last :: int
  vf_json :: bool
  vf_all :: bool
  vf_backend :: string
  vf_args :: "string list"

text \<open>
  Flags parse to a status to exit with, or to the flags and the other arguments; for \<open>emit\<close> and
  \<open>events\<close> a failure is the wish for help (\<open>True\<close>) or an error.
\<close>

record 'w machine =
  mc_env :: env
  mc_system :: system_info
  mc_executable_error :: string
  mc_openers :: "string \<Rightarrow> (backend_config \<Rightarrow> env \<Rightarrow> string + 'w backend) option"
  mc_parse :: "env \<Rightarrow> string list \<Rightarrow> int + flags \<times> string list"
  mc_parse_emit :: "env \<Rightarrow> string list \<Rightarrow> bool + emit_flags"
  mc_parse_events :: "env \<Rightarrow> string list \<Rightarrow> bool + events_flags"
  mc_print :: print_env
  mc_parse_time :: "string \<Rightarrow> int option"
  mc_now :: int
  mc_meminfo :: "string option"
  mc_numCPU :: nat
  mc_oor :: "f64 \<Rightarrow> u64"
  mc_ooi :: "f64 \<Rightarrow> int"
  mc_fmt_g :: "f64 \<Rightarrow> string"
  mc_limit_text :: "limit_error \<Rightarrow> string"
  mc_decode :: "string \<Rightarrow> string + sampled_stats"
  mc_cwd :: "string option"
  mc_ppid :: int
  mc_readlink :: "string \<Rightarrow> string option"
  mc_read_file :: "string \<Rightarrow> string option"
  mc_tsize :: "(int \<times> int) option"
  mc_connect :: "'w \<Rightarrow> string \<Rightarrow> string option"
  mc_attach :: "'w \<Rightarrow> string \<Rightarrow> int \<Rightarrow> int \<Rightarrow> string + attachment option"
  mc_host :: "'w \<Rightarrow> (string + int) \<times> 'w"

text \<open>
  What happens while a command waits: whether it is interrupted, the states in which its ticker
  fires, and for an attached terminal whether it takes raw mode and the events of its loop.
\<close>

record 'w meanwhile =
  mw_interrupt :: bool
  mw_ticks :: "'w list"
  mw_raw :: bool
  mw_events :: "run_event list"

section \<open>Opening the backend\<close>

definition open_text :: "(nat \<Rightarrow> bool) \<Rightarrow> open_error \<Rightarrow> string" where
  "open_text table e = (case e of UnknownBackend k \<Rightarrow> ''unknown backend '' @ go_quote table k | OpenFailed err \<Rightarrow> err)"

definition findHostCommand :: "'w machine \<Rightarrow> string + string list" where
  "findHostCommand mc =
     (case si_executable (mc_system mc) of
        None \<Rightarrow> Inl (''cannot find own executable: '' @ mc_executable_error mc)
      | Some self \<Rightarrow> Inr [self, ''host''])"

definition initBackend :: "'w machine \<Rightarrow> string \<Rightarrow> (string + 'w backend) \<times> env" where
  "initBackend mc backendFlag =
     (let si = mc_system mc;
          (kind, e) = (if backendFlag = [] then DetectKind (si_exists si) (si_uid si) (mc_env mc) else (backendFlag, mc_env mc))
      in case findHostCommand mc of
           Inl msg \<Rightarrow> (Inl msg, e)
         | Inr hostCommand \<Rightarrow>
             (case Open si (mc_openers mc)
                 \<lparr>bc_Kind = kind, bc_StateDir = [], bc_RuntimeDir = [], bc_HostCommand = hostCommand\<rparr> e of
                (Inl err, e) \<Rightarrow> (Inl (''initializing backend: '' @ open_text (pr_table (mc_print mc)) err), e)
              | (Inr bk, e) \<Rightarrow> (Inr bk, e)))"

definition with_backend ::
  "'w machine \<Rightarrow> string \<Rightarrow> ('w backend \<Rightarrow> env \<Rightarrow> 'w \<Rightarrow> 'w outcome) \<Rightarrow> 'w \<Rightarrow> 'w outcome" where
  "with_backend mc backendFlag f w =
     (case initBackend mc backendFlag of
        (Inl msg, _) \<Rightarrow> fatal msg w
      | (Inr bk, e) \<Rightarrow> f bk e w)"

text \<open>The same for a command that may go on for ever, \<open>None\<close>.\<close>

definition with_backend_wait ::
  "'w machine \<Rightarrow> string \<Rightarrow> ('w backend \<Rightarrow> env \<Rightarrow> 'w \<Rightarrow> 'w outcome option) \<Rightarrow> 'w \<Rightarrow> 'w outcome option" where
  "with_backend_wait mc backendFlag f w =
     (case initBackend mc backendFlag of
        (Inl msg, _) \<Rightarrow> Some (fatal msg w)
      | (Inr bk, e) \<Rightarrow> f bk e w)"

section \<open>Listing\<close>

definition session_row :: "'w machine \<Rightarrow> px_session \<Rightarrow> string" where
  "session_row mc s =
     pad_right 8 (se_ID s) @ '' '' @ pad_right 8 (se_Status s) @ '' '' @
     pad_right 8 (formatAge (mc_parse_time mc) (mc_ooi mc) (mc_now mc) (se_Started s)) @ '' '' @
     pad_right 8 (format_uint (unat (se_PID s))) @ '' '' @ truncate_str (se_Command s) 40"

definition cmdStatus :: "'w machine \<Rightarrow> flags \<Rightarrow> 'w \<Rightarrow> 'w outcome" where
  "cmdStatus mc fl = with_backend mc (fl_backend fl) (\<lambda>bk e w.
     case bk_ListSessions bk w of
       Inl err \<Rightarrow> fatal (''listing sessions: '' @ err) w
     | Inr sessions \<Rightarrow>
         if sessions = [] then finish (lines_text [''no sessions'', ''swash run <command>'']) w
         else finish (lines_text ((pad_right 8 ''ID'' @ '' '' @ pad_right 8 ''STATUS'' @ '' '' @ pad_right 8 ''AGE'' @ '' '' @
             pad_right 8 ''PID'' @ '' COMMAND'') # map (session_row mc) sessions)) w)"

definition history_row :: "'w machine \<Rightarrow> history_session \<Rightarrow> string" where
  "history_row mc s =
     pad_right 8 (hs_ID s) @ '' '' @ pad_right 8 (hs_Status s) @ '' '' @
     pad_right 6 (case hs_ExitCode s of Some c \<Rightarrow> itoa c | None \<Rightarrow> ''-'') @ '' '' @
     pad_right 8 (formatAge (mc_parse_time mc) (mc_ooi mc) (mc_now mc) (hs_Started s)) @ '' '' @ truncate_str (hs_Command s) 40"

definition cmdHistory :: "'w machine \<Rightarrow> flags \<Rightarrow> 'w \<Rightarrow> 'w outcome" where
  "cmdHistory mc fl = with_backend mc (fl_backend fl) (\<lambda>bk e w.
     case bk_ListHistory bk w of
       Inl err \<Rightarrow> fatal (''listing history: '' @ err) w
     | Inr sessions \<Rightarrow>
         if sessions = [] then finish (println ''no history'') w
         else finish (lines_text ((pad_right 8 ''ID'' @ '' '' @ pad_right 8 ''STATUS'' @ '' '' @ pad_right 6 ''EXIT'' @ '' '' @
             pad_right 8 ''AGE'' @ '' COMMAND'') # map (history_row mc) sessions)) w)"

definition stats_command :: "'w machine \<Rightarrow> flags \<Rightarrow> string list \<Rightarrow> 'w \<Rightarrow> 'w outcome" where
  "stats_command mc fl ids = with_backend mc (fl_backend fl) (\<lambda>bk e w.
     case cmdStats (mc_decode mc) (mc_oor mc) (mc_ooi mc) bk ids w of
       Inl err \<Rightarrow> fatal err w
     | Inr ls \<Rightarrow> finish (lines_text ls) w)"

section \<open>Waiting for a session\<close>

definition detachedExit :: int where "detachedExit = 124"

text \<open>What is printed, on standard error, when the program lets go of a session that runs on.\<close>

definition detached :: "'w machine \<Rightarrow> 'w backend \<Rightarrow> string \<Rightarrow> 'w \<Rightarrow> string" where
  "detached mc bk sessionID w =
     (case sessionStats (mc_decode mc) bk sessionID w of
        Inl _ \<Rightarrow> [] | Inr st \<Rightarrow> println (''swash: '' @ stats_text (mc_oor mc) st)) @
     println (''swash: session ID: '' @ sessionID) @ println (''swash: swash follow '' @ sessionID)"

text \<open>
  \<open>waitSession\<close>: an interrupt kills the session, where it may, and cancels the following; the lines of
  the ticker come before those of the end.
\<close>

definition kill_on_interrupt :: "'w backend \<Rightarrow> string \<Rightarrow> bool \<Rightarrow> 'w \<Rightarrow> string \<times> 'w" where
  "kill_on_interrupt bk sessionID kill w =
     (if kill then
        (case bk_KillSession bk sessionID w of
           (Some err, w) \<Rightarrow> (println (''swash: failed to kill session: '' @ err), w)
         | (None, w) \<Rightarrow> ([], w))
      else ([], w))"

definition wait_end ::
  "'w machine \<Rightarrow> int \<Rightarrow> 'w backend \<Rightarrow> string \<Rightarrow> int \<Rightarrow> int \<Rightarrow> bool \<Rightarrow> int \<times> follow_result \<Rightarrow> 'w \<Rightarrow> string \<times> int" where
  "wait_end mc statsFlag bk sessionID detachAfter outputLimit killOnInterrupt res w =
     (case res of
        (exitCode, FollowCompleted) \<Rightarrow>
          let summary = exitSummary (mc_oor mc) (bk_PollEvents bk) sessionID w in
          (if statsFlag > 0 \<and> summary \<noteq> [] then println (''swash: '' @ summary) else [], exitCode)
      | (_, FollowTimedOut) \<Rightarrow>
          (println (''swash: still running after '' @ duration_text detachAfter @ '', detaching'') @
            detached mc bk sessionID w, detachedExit)
      | (_, FollowOutputLimit) \<Rightarrow>
          (println (''swash: output exceeded '' @ itoa outputLimit @ '' bytes, detaching'') @
            detached mc bk sessionID w, detachedExit)
      | (_, FollowCancelled) \<Rightarrow>
          (if killOnInterrupt then println (''swash: cancelled, killed session '' @ sessionID) else [], 130)
      | (_, FollowKilled) \<Rightarrow> (println (''swash: session '' @ sessionID @ '' was killed''), 128 + SIGKILL))"

definition waitSession ::
  "'w machine \<Rightarrow> int \<Rightarrow> 'w backend \<Rightarrow> string \<Rightarrow> int \<Rightarrow> int \<Rightarrow> bool \<Rightarrow> 'w meanwhile \<Rightarrow> 'w \<Rightarrow> 'w outcome option" where
  "waitSession mc statsFlag bk sessionID detachAfter outputLimit killOnInterrupt mw w =
     (let (killed, w) = kill_on_interrupt bk sessionID (mw_interrupt mw \<and> killOnInterrupt) w;
          ticks = (if statsFlag > 0 then
              lines_text (concat (map (report_tick (mc_decode mc) (mc_oor mc) (mc_ooi mc) bk sessionID) (mw_ticks mw))) else [])
      in case bk_FollowSession bk sessionID detachAfter outputLimit (mw_interrupt mw) w of
           None \<Rightarrow> None
         | Some ((out, res), w) \<Rightarrow>
             (case wait_end mc statsFlag bk sessionID detachAfter outputLimit killOnInterrupt res w of
                (text, status) \<Rightarrow>
                  Some \<lparr>oc_out = lines_text out, oc_err = killed @ ticks @ text, oc_status = status, oc_world = w\<rparr>))"

definition cmdFollow :: "'w machine \<Rightarrow> flags \<Rightarrow> string \<Rightarrow> 'w meanwhile \<Rightarrow> 'w \<Rightarrow> 'w outcome option" where
  "cmdFollow mc fl sessionID mw = with_backend_wait mc (fl_backend fl) (\<lambda>bk e w.
     waitSession mc (rf_stats (fl_resources fl)) bk sessionID
       (if fl_detachAfter_set fl then fl_detachAfter fl else 0)
       (if fl_detachAfterOutput_set fl then fl_detachAfterOutput fl else 0) False mw w)"

section \<open>Running\<close>

definition shouldAttachTTY :: "bool \<Rightarrow> int \<Rightarrow> bool \<Rightarrow> bool" where
  "shouldAttachTTY tty detachAfter detachAfterSet = (tty \<and> \<not> (detachAfterSet \<and> detachAfter = 0))"

definition limits_text :: "'w machine \<Rightarrow> limits_failure \<Rightarrow> string" where
  "limits_text mc e = (case e of EnvLimits err \<Rightarrow> ''SWASH_LIMITS: '' @ mc_limit_text mc err | FlagLimits err \<Rightarrow> mc_limit_text mc err)"

definition run_options :: "'w machine \<Rightarrow> env \<Rightarrow> flags \<Rightarrow> bool \<Rightarrow> int \<Rightarrow> int \<Rightarrow> string + session_options" where
  "run_options mc e fl tty rows cols =
     (case sessionLimits (mc_fmt_g mc) (mc_meminfo mc) (mc_oor mc) (mc_numCPU mc) e (fl_resources fl) of
        Inl err \<Rightarrow> Inl (limits_text mc err)
      | Inr l \<Rightarrow> Inr \<lparr>so_Protocol = fl_protocol fl, so_Tags = parseTags (fl_tags fl), so_TTY = tty, so_Rows = rows,
          so_Cols = cols, so_WorkingDir = [], so_Login = fl_login fl, so_Limits = l,
          so_Provenance = provenance (mc_cwd mc) e (fl_login fl) (mc_ppid mc) (mc_readlink mc) (mc_read_file mc)\<rparr>)"

definition cmdRun :: "'w machine \<Rightarrow> flags \<Rightarrow> string list \<Rightarrow> int \<Rightarrow> int \<Rightarrow> 'w meanwhile \<Rightarrow> 'w \<Rightarrow> 'w outcome option" where
  "cmdRun mc fl command detachAfter outputLimit mw = with_backend_wait mc (fl_backend fl) (\<lambda>bk e w.
     case run_options mc e fl (fl_tty fl) (fl_rows fl) (fl_cols fl) of
       Inl err \<Rightarrow> Some (fatal err w)
     | Inr opts \<Rightarrow>
         (case bk_StartSession bk command opts w of
            (Inl err, w) \<Rightarrow> Some (fatal (''starting session: '' @ err) w)
          | (Inr sessionID, w) \<Rightarrow>
              if detachAfter = 0 then Some (finish (println (sessionID @ '' started'')) w)
              else waitSession mc (rf_stats (fl_resources fl)) bk sessionID detachAfter outputLimit True mw w))"

text \<open>
  Attaching, \<open>None\<close> while it goes on; what the view draws on the terminal is in \<open>AttachView\<close>.
\<close>

definition attach_text :: "attach_failure \<Rightarrow> string" where
  "attach_text e =
     (case e of
        ConnectFailed err \<Rightarrow> ''connecting to session: '' @ err
      | AttachFailed err \<Rightarrow> ''attaching to session: '' @ err
      | NoStream \<Rightarrow> ''attaching to session: missing stream'')"

definition cmdAttach :: "'w machine \<Rightarrow> flags \<Rightarrow> string \<Rightarrow> 'w meanwhile \<Rightarrow> 'w \<Rightarrow> 'w outcome option" where
  "cmdAttach mc fl sessionID mw w =
     (case initBackend mc (fl_backend fl) of
        (Inl msg, _) \<Rightarrow> Some (fatal msg w)
      | (Inr bk, e) \<Rightarrow>
          (case New sessionID (mc_tsize mc) (mc_connect mc w sessionID) (mc_attach mc w sessionID) of
             Inl err \<Rightarrow> Some (fatal (attach_text err) w)
           | Inr session \<Rightarrow>
               (case fst (Run (mw_raw mw) (mw_events mw)) of
                  None \<Rightarrow> None
                | Some result \<Rightarrow> Some (finish (PrintResult result) w))))"

definition cmdRunTTY :: "'w machine \<Rightarrow> flags \<Rightarrow> string list \<Rightarrow> 'w meanwhile \<Rightarrow> 'w \<Rightarrow> 'w outcome option" where
  "cmdRunTTY mc fl command mw w =
     (case initBackend mc (fl_backend fl) of
        (Inl msg, _) \<Rightarrow> Some (fatal msg w)
      | (Inr bk, e) \<Rightarrow>
          (let (rows, cols) = GetContentSize (mc_tsize mc) in
           case run_options mc e fl True (if fl_rows_set fl then fl_rows fl else rows) (if fl_cols_set fl then fl_cols fl else cols) of
             Inl err \<Rightarrow> Some (fatal err w)
           | Inr opts \<Rightarrow>
               (case bk_StartSession bk command opts w of
                  (Inl err, w) \<Rightarrow> Some (fatal (''starting session: '' @ err) w)
                | (Inr sessionID, w) \<Rightarrow> cmdAttach (mc\<lparr>mc_env := e\<rparr>) fl sessionID mw w)))"

section \<open>Acting on a session\<close>

definition cmdStop :: "'w machine \<Rightarrow> flags \<Rightarrow> string \<Rightarrow> 'w \<Rightarrow> 'w outcome" where
  "cmdStop mc fl sessionID = with_backend mc (fl_backend fl) (\<lambda>bk e w.
     case bk_StopSession bk sessionID w of
       (Some err, w) \<Rightarrow> fatal (''stopping session: '' @ err) w
     | (None, w) \<Rightarrow> finish (println (sessionID @ '' stopped'')) w)"

definition cmdPoll :: "'w machine \<Rightarrow> flags \<Rightarrow> string \<Rightarrow> 'w \<Rightarrow> 'w outcome" where
  "cmdPoll mc fl sessionID = with_backend mc (fl_backend fl) (\<lambda>bk e w.
     case bk_PollSessionOutput bk sessionID [] w of
       Inl err \<Rightarrow> fatal (''polling journal: '' @ err) w
     | Inr (events, _) \<Rightarrow> finish (lines_text (map oe_Text events)) w)"

definition cmdSend :: "'w machine \<Rightarrow> flags \<Rightarrow> string \<Rightarrow> string \<Rightarrow> 'w \<Rightarrow> 'w outcome" where
  "cmdSend mc fl sessionID input = with_backend mc (fl_backend fl) (\<lambda>bk e w.
     case bk_SendInput bk sessionID input w of
       (Inl err, w) \<Rightarrow> fatal (''sending input: '' @ err) w
     | (Inr _, w) \<Rightarrow> finish [] w)"

definition cmdKill :: "'w machine \<Rightarrow> flags \<Rightarrow> string \<Rightarrow> 'w \<Rightarrow> 'w outcome" where
  "cmdKill mc fl sessionID = with_backend mc (fl_backend fl) (\<lambda>bk e w.
     case bk_KillSession bk sessionID w of
       (Some err, w) \<Rightarrow> fatal (''killing: '' @ err) w
     | (None, w) \<Rightarrow> finish (println (sessionID @ '' killed'')) w)"

definition cmdScreen :: "'w machine \<Rightarrow> flags \<Rightarrow> string \<Rightarrow> 'w \<Rightarrow> 'w outcome" where
  "cmdScreen mc fl sessionID = with_backend mc (fl_backend fl) (\<lambda>bk e w.
     case bk_GetScreen bk sessionID w of
       Inl err \<Rightarrow> fatal err w
     | Inr screen \<Rightarrow> finish screen w)"

text \<open>The host itself; a status of zero is the end of \<open>main\<close>.\<close>

definition cmdHost :: "'w machine \<Rightarrow> 'w \<Rightarrow> 'w outcome" where
  "cmdHost mc w =
     (case mc_host mc w of
        (Inl err, w) \<Rightarrow> fatal err w
      | (Inr exitCode, w) \<Rightarrow> \<lparr>oc_out = [], oc_err = [], oc_status = exitCode, oc_world = w\<rparr>)"

section \<open>Events\<close>

text \<open>\<open>usage\<close>: what pflag prints for a use that is not understood.\<close>

definition usage :: "int \<Rightarrow> string \<Rightarrow> 'w \<Rightarrow> 'w outcome" where
  "usage status text w = \<lparr>oc_out = [], oc_err = text, oc_status = status, oc_world = w\<rparr>"

definition cmdEmit :: "'w machine \<Rightarrow> string \<Rightarrow> string list \<Rightarrow> 'w \<Rightarrow> 'w outcome" where
  "cmdEmit mc help args w =
     (case mc_parse_emit mc (mc_env mc) args of
        Inl wanted \<Rightarrow> usage (if wanted then 0 else 2) help w
      | Inr ef \<Rightarrow>
          if length (ef_args ef) \<noteq> 1 \<or> ef_event ef = [] then usage 2 help w
          else if \<not> eventNamePattern (ef_event ef) then
            fatal (''event name '' @ go_quote (pr_table (mc_print mc)) (ef_event ef) @
              '' must contain only lowercase letters, digits, and hyphens'') w
          else case parseEventFields (pr_table (mc_print mc)) (ef_fields ef) of
            Inl err \<Rightarrow> fatal err w
          | Inr parsedFields \<Rightarrow>
              with_backend mc (ef_backend ef) (\<lambda>bk e w.
                case bk_EmitSessionEvent bk (hd (ef_args ef)) (ef_event ef)
                    (if ef_message ef = [] then ef_event ef else ef_message ef) parsedFields w of
                  (Some err, w) \<Rightarrow> fatal (''emitting event: '' @ err) w
                | (None, w) \<Rightarrow> finish (println (hd (ef_args ef) @ '' '' @ ef_event ef)) w) w)"

text \<open>Printing stops at the first event that cannot be printed.\<close>

fun print_events :: "print_env \<Rightarrow> bool \<Rightarrow> event_record list \<Rightarrow> string \<times> string option" where
  "print_events pv json [] = ([], None)"
| "print_events pv json (e # es) =
     (case printEvent pv json e of
        Inl err \<Rightarrow> ([], Some err)
      | Inr text \<Rightarrow> (case print_events pv json es of (rest, r) \<Rightarrow> (text @ rest, r)))"

definition query_filters :: "(nat \<Rightarrow> bool) \<Rightarrow> events_flags \<Rightarrow> string + event_filter list" where
  "query_filters table vf =
     (case parseEventFilters table (vf_fields vf) of
        Inl err \<Rightarrow> Inl err
      | Inr ms \<Rightarrow> Inr (ms @ (if vf_session vf \<noteq> [] then [(FieldSession, vf_session vf)] else []) @
          (if vf_event vf \<noteq> [] then [(FieldEvent, vf_event vf)] else [])))"

definition cmdEvents :: "'w machine \<Rightarrow> string \<Rightarrow> string list \<Rightarrow> 'w \<Rightarrow> 'w outcome" where
  "cmdEvents mc help args w =
     (case mc_parse_events mc (mc_env mc) args of
        Inl wanted \<Rightarrow> usage (if wanted then 0 else 2) help w
      | Inr vf \<Rightarrow>
          if vf_args vf \<noteq> [] then fatal ''events does not accept positional arguments'' w
          else if vf_last vf < 0 then fatal ''--last must be non-negative'' w
          else case query_filters (pr_table (mc_print mc)) vf of
            Inl err \<Rightarrow> fatal err w
          | Inr ms \<Rightarrow>
              if ms = [] \<and> \<not> vf_all vf then fatal ''events requires a filter; pass --all to query the entire journal'' w
              else with_backend mc (vf_backend vf) (\<lambda>bk e w.
                case bk_PollEvents bk ms (vf_cursor vf) w of
                  Inl err \<Rightarrow> fatal (''querying events: '' @ err) w
                | Inr (entries, newCursor) \<Rightarrow>
                    let entries = (if vf_last vf > 0 \<and> int (length entries) > vf_last vf
                          then drop (length entries - nat (vf_last vf)) entries else entries);
                        newCursor = (if newCursor = [] then vf_cursor vf else newCursor);
                        entries = entries @ (if vf_follow vf then bk_FollowEvents bk ms newCursor w else [])
                    in case print_events (mc_print mc) (vf_json vf) entries of
                         (text, None) \<Rightarrow> finish text w
                       | (text, Some err) \<Rightarrow> (fatal (''printing event: '' @ err) w)\<lparr>oc_out := text\<rparr>) w)"

section \<open>The program\<close>

definition run_command :: "'w machine \<Rightarrow> flags \<Rightarrow> string list \<Rightarrow> 'w meanwhile \<Rightarrow> 'w \<Rightarrow> 'w outcome option" where
  "run_command mc fl args mw w =
     (case args of
        [] \<Rightarrow> Some (cmdStatus mc fl w)
      | cmd # cmdArgs \<Rightarrow>
          (let need = (\<lambda>n text r. if length cmdArgs < n then Some (fatal (''usage: swash '' @ text) w) else r) in
           if cmd = ''run'' then need 1 ''run <command>''
             (if shouldAttachTTY (fl_tty fl) (fl_detachAfter fl) (fl_detachAfter_set fl) then cmdRunTTY mc fl cmdArgs mw w
              else cmdRun mc fl cmdArgs (fl_detachAfter fl) (fl_detachAfterOutput fl) mw w)
           else if cmd = ''start'' then need 1 ''start <command>'' (cmdRun mc fl cmdArgs 0 (fl_detachAfterOutput fl) mw w)
           else if cmd = ''stop'' then need 1 ''stop <session_id>'' (Some (cmdStop mc fl (hd cmdArgs) w))
           else if cmd = ''poll'' then need 1 ''poll <session_id>'' (Some (cmdPoll mc fl (hd cmdArgs) w))
           else if cmd = ''follow'' then need 1 ''follow <session_id>'' (cmdFollow mc fl (hd cmdArgs) mw w)
           else if cmd = ''send'' then need 2 ''send <session_id> <input>'' (Some (cmdSend mc fl (hd cmdArgs) (cmdArgs ! 1) w))
           else if cmd = ''kill'' then need 1 ''kill <session_id>'' (Some (cmdKill mc fl (hd cmdArgs) w))
           else if cmd = ''history'' then Some (cmdHistory mc fl w)
           else if cmd = ''stats'' then Some (stats_command mc fl cmdArgs w)
           else if cmd = ''screen'' then need 1 ''screen <session_id>'' (Some (cmdScreen mc fl (hd cmdArgs) w))
           else if cmd = ''attach'' then need 1 ''attach <session_id>'' (cmdAttach mc fl (hd cmdArgs) mw w)
           else if cmd = ''host'' then Some (cmdHost mc w)
           else Some (fatal (''unknown command: '' @ cmd) w)))"

text \<open>\<open>os_args\<close> begin with the name of the program; \<open>help\<close> is what pflag prints.\<close>

definition swash_main :: "'w machine \<Rightarrow> string \<Rightarrow> string list \<Rightarrow> 'w meanwhile \<Rightarrow> 'w \<Rightarrow> 'w outcome option" where
  "swash_main mc help os_args mw w =
     (if length os_args \<ge> 2 \<and> os_args ! 1 = ''host'' then Some (cmdHost mc w)
      else if length os_args \<ge> 2 \<and> os_args ! 1 = ''emit'' then Some (cmdEmit mc help (drop 2 os_args) w)
      else if length os_args \<ge> 2 \<and> os_args ! 1 = ''events'' then Some (cmdEvents mc help (drop 2 os_args) w)
      else case mc_parse mc (mc_env mc) (drop 1 os_args) of
        Inl status \<Rightarrow> Some (usage status help w)
      | Inr (fl, args) \<Rightarrow> run_command mc fl args mw w)"

end
