(* ===== verification/CommandRuns.thy ===== *)
theory CommandRuns
  imports CommandLine
begin

text \<open>
  What the commands do end to end, over the portable backend: the status \<open>swash run\<close> exits with, and
  what \<open>swash events\<close> finds of what \<open>swash emit\<close> wrote.
\<close>

section \<open>Following up to a point\<close>

definition shown :: "event_record list \<Rightarrow> string list" where
  "shown es = map ev_Message (filter is_output es)"

text \<open>The output of \<open>es\<close> stays within the limit, if there is one.\<close>

definition in_limit :: "int \<Rightarrow> event_record list \<Rightarrow> bool" where
  "in_limit limit es \<longleftrightarrow> limit \<le> 0 \<or> printed_bytes (shown es) \<le> limit"

lemma shown_simps [simp]:
  "shown [] = []" "shown (x # xs) = (if is_output x then ev_Message x # shown xs else shown xs)"
  "shown (xs @ ys) = shown xs @ shown ys"
  by (simp_all add: shown_def)

lemma px_follow_prefix:
  assumes "\<forall>x \<in> set pre. \<not> exits x" and "limit \<le> 0 \<or> b + printed_bytes (shown pre) \<le> limit"
  shows "px_follow limit b (pre @ es) d =
    (case px_follow limit (if limit > 0 then b + printed_bytes (shown pre) else b) es d of (out, r) \<Rightarrow> (shown pre @ out, r))"
  using assms
proof (induction pre arbitrary: b)
  case (Cons x pre)
  have x: "ev_field x FieldEvent \<noteq> EventExited" using Cons.prems(1) by (simp add: exits_def)
  consider "limit \<le> 0" | "0 < limit" "\<not> is_output x" | "0 < limit" "is_output x" by linarith
  then show ?case
  proof cases
    case 3
    let ?b = "b + (int (length (ev_Message x)) + 1)"
    have "?b + printed_bytes (shown pre) \<le> limit" using Cons.prems(2) 3 by simp
    moreover have "?b \<le> limit" using calculation printed_bytes_nonneg[of "shown pre"] by linarith
    ultimately show ?thesis
      using Cons.IH[of ?b] Cons.prems(1) 3 x
      by (simp add: follow_event_def Let_def add.assoc split: prod.splits)
  qed (use Cons x in \<open>simp_all add: follow_event_def split: prod.splits\<close>)
qed simp

lemma px_follow_ends:
  assumes "\<forall>x \<in> set pre. \<not> exits x" and "in_limit limit pre"
  shows "FollowSession_posix True limit pre d = (shown pre, ctx_result d)"
    and "exits e \<Longrightarrow> FollowSession_posix True limit (pre @ e # post) d = (shown pre, (exit_code e, FollowCompleted))"
    and "\<not> exits e \<Longrightarrow> \<not> in_limit limit (pre @ [e]) \<Longrightarrow>
      FollowSession_posix True limit (pre @ e # post) d = (shown pre @ [ev_Message e], (0, FollowOutputLimit))"
proof -
  note p = px_follow_prefix[OF assms(1), of limit 0, unfolded add_0] 
  have w: "limit \<le> 0 \<or> printed_bytes (shown pre) \<le> limit" using assms(2) by (simp add: in_limit_def)
  show "FollowSession_posix True limit pre d = (shown pre, ctx_result d)"
    using p[OF w, of "[]" d] by (simp add: FollowSession_posix_def)
  show "FollowSession_posix True limit (pre @ e # post) d = (shown pre, (exit_code e, FollowCompleted))" if "exits e"
    using p[OF w, of "e # post" d] that by (simp add: FollowSession_posix_def follow_event_def exits_def)
  show "FollowSession_posix True limit (pre @ e # post) d = (shown pre @ [ev_Message e], (0, FollowOutputLimit))"
    if "\<not> exits e" "\<not> in_limit limit (pre @ [e])"
  proof -
    have "is_output e" "limit > 0" "printed_bytes (shown pre) + (int (length (ev_Message e)) + 1) > limit"
      using that(2) w by (auto simp: in_limit_def shown_def split: if_splits)
    then show ?thesis
      using p[OF w, of "e # post" d] that(1) by (simp add: FollowSession_posix_def follow_event_def exits_def Let_def)
  qed
qed

section \<open>The status of a run\<close>

text \<open>The status for each end of the following.\<close>

definition end_status :: "int \<times> follow_result \<Rightarrow> int" where
  "end_status res = (case snd res of FollowCompleted \<Rightarrow> fst res | FollowTimedOut \<Rightarrow> 124 | FollowOutputLimit \<Rightarrow> 124
     | FollowCancelled \<Rightarrow> 130 | FollowKilled \<Rightarrow> 137)"

lemma waited:
  assumes "bk_FollowSession bk sid d limit False w = Some ((out, res), w')" and "\<not> mw_interrupt mw"
  shows "\<exists>o'. waitSession mc stats bk sid d limit True mw w = Some o' \<and>
    oc_out o' = lines_text out \<and> oc_world o' = w' \<and> oc_status o' = end_status res \<and>
    (snd res \<in> {FollowTimedOut, FollowOutputLimit} \<longrightarrow> (\<exists>t. oc_err o' = t @ println (''swash: swash follow '' @ sid))) \<and>
    (snd res = FollowKilled \<longrightarrow> (\<exists>t. oc_err o' = t @ println (''swash: session '' @ sid @ '' was killed'')))"
  using assms unfolding waitSession_def
  by (cases res; cases "snd res")
    (auto simp: kill_on_interrupt_def Let_def wait_end_def detachedExit_def SIGKILL_def detached_def end_status_def)

lemma run_followed:
  assumes "initBackend mc (fl_backend fl) = (Inr (portable_backend pe poll emit), e)"
    and "run_options mc e fl (fl_tty fl) (fl_rows fl) (fl_cols fl) = Inr opts"
    and "pb_StartSession pe command opts w = (Inr sid, w1)" and "pe_shared pe = None"
    and "pe_follow pe sid d False w1 = (es, deadline, w2)" and "\<not> mw_interrupt mw" and "d \<noteq> 0"
    and "FollowSession_posix True limit es deadline = (out, res)"
  shows "\<exists>r. cmdRun mc fl command d limit mw w = Some r \<and> oc_out r = lines_text out \<and> oc_world r = w2 \<and>
    oc_status r = end_status res \<and>
    (snd res \<in> {FollowTimedOut, FollowOutputLimit} \<longrightarrow> (\<exists>t. oc_err r = t @ println (''swash: swash follow '' @ sid)))"
proof -
  let ?bk = "portable_backend pe poll emit"
  have st: "bk_StartSession ?bk command opts w = (Inr sid, w1)" using assms(3) by (simp add: portable_backend_def)
  have r: "cmdRun mc fl command d limit mw w = waitSession mc (rf_stats (fl_resources fl)) ?bk sid d limit True mw w1"
    using assms(7) by (simp add: assms(1,2) cmdRun_def with_backend_wait_def st)
  have "bk_FollowSession ?bk sid d limit False w1 = Some ((out, res), w2)"
    using assms(4,5,8) by (simp add: portable_backend_def pb_FollowSession_def)
  from waited[OF this assms(6), of mc "rf_stats (fl_resources fl)"] show ?thesis unfolding r by blast
qed

text \<open>
  C19. \<open>swash run\<close> prints the output of its session up to its recorded exit and exits with the code
  recorded; when the output exceeds the limit or the time is over first, it exits with 124 and says
  how to follow the session, which runs on; with no time to wait it only names the session.
\<close>

theorem run_exit_status:
  assumes "initBackend mc (fl_backend fl) = (Inr (portable_backend pe poll emit), e)"
    and "run_options mc e fl (fl_tty fl) (fl_rows fl) (fl_cols fl) = Inr opts"
    and "pb_StartSession pe command opts w = (Inr sid, w1)" and "pe_shared pe = None"
    and "pe_follow pe sid d False w1 = (es, deadline, w2)" and "\<not> mw_interrupt mw"
    and "es = pre @ rest" and "\<forall>x \<in> set pre. ev_field x FieldEvent \<noteq> EventExited" and "in_limit limit pre"
  shows "\<exists>r. cmdRun mc fl command d limit mw w = Some r \<and> (d = 0 \<longrightarrow> r = finish (println (sid @ '' started'')) w1) \<and>
    (d \<noteq> 0 \<longrightarrow> oc_world r = w2 \<and>
      (\<forall>x post code tags. rest = x # post \<longrightarrow> ev_Fields x = exited_fields sid code command tags \<longrightarrow>
        - (2 ^ 63) \<le> code \<longrightarrow> code < 2 ^ 63 \<longrightarrow> oc_out r = lines_text (shown pre) \<and> oc_status r = code) \<and>
      (\<forall>x post. rest = x # post \<longrightarrow> ev_field x FieldEvent \<noteq> EventExited \<longrightarrow> \<not> in_limit limit (pre @ [x]) \<longrightarrow>
        oc_out r = lines_text (shown pre @ [ev_Message x]) \<and> oc_status r = 124 \<and>
        (\<exists>t. oc_err r = t @ println (''swash: swash follow '' @ sid))) \<and>
      (rest = [] \<longrightarrow> oc_out r = lines_text (shown pre) \<and> oc_status r = (if deadline then 124 else 130) \<and>
        (deadline \<longrightarrow> (\<exists>t. oc_err r = t @ println (''swash: swash follow '' @ sid)))))"
proof -
  have z: "cmdRun mc fl command d limit mw w = Some (finish (println (sid @ '' started'')) w1)" if "d = 0"
    using assms(3) that by (simp add: assms(1,2) cmdRun_def with_backend_wait_def portable_backend_def)
  show ?thesis
  proof (cases "d = 0")
    case False
    have pre: "\<forall>x \<in> set pre. \<not> exits x" using assms(8) by (simp add: exits_def)
    note f = px_follow_ends[OF pre assms(9), where d = deadline]
    obtain out res where fo: "FollowSession_posix True limit es deadline = (out, res)" by (metis surj_pair)
    from run_followed[OF assms(1-6) False this] obtain o' where
      o: "cmdRun mc fl command d limit mw w = Some o'" "oc_out o' = lines_text out" "oc_world o' = w2"
      "oc_status o' = end_status res"
      "snd res \<in> {FollowTimedOut, FollowOutputLimit} \<longrightarrow> (\<exists>t. oc_err o' = t @ println (''swash: swash follow '' @ sid))"
      by blast
    show ?thesis
    proof (intro exI[of _ o'] conjI impI allI)
      fix x post code tags
      assume x: "rest = x # post" "ev_Fields x = exited_fields sid code command tags" "- (2 ^ 63) \<le> code" "code < 2 ^ 63"
      then have "(out, res) = (shown pre, code, FollowCompleted)"
        using f(2)[where e = x and post = post] exited_record[OF x(2-4)] assms(7) fo by simp
      then show "oc_out o' = lines_text (shown pre)" "oc_status o' = code" using o by (simp_all add: end_status_def)
    next
      fix x post
      assume x: "rest = x # post" "ev_field x FieldEvent \<noteq> EventExited" "\<not> in_limit limit (pre @ [x])"
      then have "(out, res) = (shown pre @ [ev_Message x], 0, FollowOutputLimit)"
        using f(3)[where e = x and post = post] assms(7) fo by (simp add: exits_def)
      then show "oc_out o' = lines_text (shown pre @ [ev_Message x])" "oc_status o' = 124"
        "\<exists>t. oc_err o' = t @ println (''swash: swash follow '' @ sid)" using o by (simp_all add: end_status_def)
    next
      assume "rest = []"
      then have "(out, res) = (shown pre, 0, if deadline then FollowTimedOut else FollowCancelled)"
        using f(1) assms(7) fo by (simp add: ctx_result_def)
      then show "oc_out o' = lines_text (shown pre)" "oc_status o' = (if deadline then 124 else 130)"
        "deadline \<Longrightarrow> \<exists>t. oc_err o' = t @ println (''swash: swash follow '' @ sid)"
        using o by (simp_all add: end_status_def split: if_splits)
    qed (use o False in simp_all)
  qed (use z in simp)
qed

text \<open>A run of \<open>true\<close> whose host logs a line of output and the exit code 7.\<close>

definition sample_flags :: flags where
  "sample_flags = \<lparr>fl_backend = ''posix'', fl_protocol = ''shell'', fl_tags = [], fl_tty = False, fl_login = False,
     fl_rows = 24, fl_rows_set = False, fl_cols = 80, fl_cols_set = False, fl_detachAfter = 3000000000,
     fl_detachAfter_set = False, fl_detachAfterOutput = 1920, fl_detachAfterOutput_set = False,
     fl_resources = \<lparr>rf_cpus = Fin 0, rf_cpus_set = False, rf_mem = [], rf_tasks = 0, rf_tasks_set = False,
       rf_unlimited = True, rf_stats = 0\<rparr>\<rparr>"

definition sample_portable :: "event_record list \<Rightarrow> 'l portable_env" where
  "sample_portable es = \<lparr>pe_config = sample_backend, pe_start = sample_start, pe_kill = (\<lambda>_ _. None), pe_list_err = None,
     pe_shared = None, pe_stat = (\<lambda>_. None), pe_connect = (\<lambda>_ _ _. Inl []), pe_follow = (\<lambda>_ _ _ w. (es, False, w)),
     pe_follow_events = (\<lambda>_ _ _. []), pe_error = (\<lambda>_. []), pe_log_error = (\<lambda>_. []), pe_format = (\<lambda>_. []), pe_order = []\<rparr>"

definition sample_system :: system_info where
  "sample_system = \<lparr>si_exists = (\<lambda>_. False), si_uid = ''0'', si_tempDir = ''/tmp'', si_freebsd = False, si_user = None,
     si_is_dir = (\<lambda>_. False), si_executable = Some ''swash''\<rparr>"

definition sample_machine :: "'w backend \<Rightarrow> emit_flags \<Rightarrow> events_flags \<Rightarrow> 'w machine" where
  "sample_machine bk ef vf = \<lparr>mc_env = Map.empty, mc_system = sample_system, mc_executable_error = [],
     mc_openers = (\<lambda>_. Some (\<lambda>_ _. Inr bk)), mc_parse = (\<lambda>_ args. Inr (sample_flags, args)), mc_parse_emit = (\<lambda>_ _. Inr ef),
     mc_parse_events = (\<lambda>_ _. Inr vf),
     mc_print = \<lparr>pr_table = (\<lambda>_. True), pr_time = (\<lambda>_. ''now''), pr_json_time = (\<lambda>_. Inr ''0'')\<rparr>,
     mc_parse_time = (\<lambda>_. None), mc_now = 0, mc_meminfo = None, mc_numCPU = 4, mc_oor = (\<lambda>_. 0), mc_ooi = (\<lambda>_. 0),
     mc_fmt_g = (\<lambda>_. []), mc_limit_text = (\<lambda>_. []), mc_decode = (\<lambda>_. Inl []), mc_cwd = None, mc_ppid = 1,
     mc_readlink = (\<lambda>_. None), mc_read_file = (\<lambda>_. None), mc_tsize = None, mc_connect = (\<lambda>_ _. None),
     mc_attach = (\<lambda>_ _ _ _. Inl []), mc_host = (\<lambda>w. (Inr 0, w))\<rparr>"

definition sample_emit :: emit_flags where
  "sample_emit = \<lparr>ef_event = ''built'', ef_message = ''all good'', ef_fields = [''TARGET=x''], ef_backend = ''posix'',
     ef_args = [''S'']\<rparr>"

definition sample_query :: events_flags where
  "sample_query = \<lparr>vf_session = ''S'', vf_event = ''built'', vf_fields = [], vf_cursor = [], vf_follow = False, vf_last = 1,
     vf_json = False, vf_all = False, vf_backend = ''posix'', vf_args = []\<rparr>"

definition calm_wait :: "'w meanwhile" where
  "calm_wait = \<lparr>mw_interrupt = False, mw_ticks = [], mw_raw = True, mw_events = []\<rparr>"

lemma sample_opened: "\<exists>e. initBackend (sample_machine bk ef vf) ''posix'' = (Inr bk, e)"
  by (simp add: initBackend_def sample_machine_def sample_system_def findHostCommand_def Open_def withDefaults_def Let_def
      KindSystemd_def)

lemma sample_started:
  "\<exists>w'. pb_StartSession (sample_portable es) command opts (empty_root, l) = (Inr ''AAA000'', w')"
proof -
  have "waitReady (Suc 201) (sv_obs sample_start) 0 (sv_time sample_start + 5000000000) = Some (Inr ())"
    by (subst waitReady.simps) (simp add: sample_start_def)
  then have "waitReady 202 (sv_obs sample_start) 0 (sv_time sample_start + 5000000000) = Some (Inr ())" by simp
  then obtain w' where "StartSession 202 sample_backend sample_start command opts empty_root = (Inr (Some ''AAA000''), w')"
    using StartSession_ready[of sample_start 7 202 sample_backend command opts empty_root]
    by (auto simp: sample_start_def sample_paths simp del: waitReady.simps)
  then show ?thesis by (simp add: pb_StartSession_def sample_portable_def)
qed

definition sample_run :: "event_record list" where
  "sample_run = [sample_event ''hi'' [''FD'' \<mapsto> ''1''], sample_event ''exit'' (exited_fields ''AAA000'' 7 [''true''] Map.empty)]"

theorem run_exit_status_witness:
  "\<exists>r :: (px_world \<times> unit) outcome. Some r = cmdRun
      (sample_machine (portable_backend (sample_portable sample_run) (\<lambda>_ _ _. Inl Timeout) (\<lambda>_ _ w. (Inl Timeout, w)))
        sample_emit sample_query) sample_flags [''true''] 3000000000 1920 calm_wait (empty_root, ()) \<and>
    oc_out r = ''hi'' @ [CHR 0x0A] \<and> oc_status r = 7"
proof -
  let ?pe = "sample_portable sample_run :: unit portable_env"
  let ?bk = "portable_backend ?pe (\<lambda>_ _ _. Inl Timeout) (\<lambda>_ _ w. (Inl Timeout, w))"
  let ?mc = "sample_machine ?bk sample_emit sample_query"
  let ?w = "(empty_root, ())"
  let ?mw = "calm_wait :: (px_world \<times> unit) meanwhile"
  obtain e where e: "initBackend ?mc (fl_backend sample_flags) = (Inr ?bk, e)"
    using sample_opened[of ?bk sample_emit sample_query] by (auto simp: sample_flags_def)
  obtain opts where o: "run_options ?mc e sample_flags (fl_tty sample_flags) (fl_rows sample_flags) (fl_cols sample_flags) = Inr opts"
    by (simp add: run_options_def sessionLimits_def sample_flags_def)
  obtain w' where s: "pb_StartSession ?pe [''true''] opts ?w = (Inr ''AAA000'', w')"
    using sample_started[of sample_run "[''true'']" opts "()"] by auto
  have f: "pe_follow ?pe ''AAA000'' 3000000000 False w' = (sample_run, False, w')"
    by (simp add: sample_portable_def)
  have sh: "pe_shared ?pe = None" by (simp add: sample_portable_def)
  have i: "\<not> mw_interrupt ?mw" by (simp add: calm_wait_def)
  let ?pre = "[sample_event ''hi'' [''FD'' \<mapsto> ''1'']]"
  let ?x = "sample_event ''exit'' (exited_fields ''AAA000'' 7 [''true''] Map.empty)"
  have l: "sample_run = ?pre @ [?x]" by (simp add: sample_run_def)
  have p: "\<forall>x \<in> set ?pre. ev_field x FieldEvent \<noteq> EventExited" and n: "shown ?pre = [''hi'']"
    by (simp_all add: sample_event_def ev_field_def field_names is_output_def)
  have lim: "in_limit 1920 ?pre" by (simp add: in_limit_def n del: shown_simps)
  have x: "ev_Fields ?x = exited_fields ''AAA000'' 7 [''true''] Map.empty" by (simp add: sample_event_def)
  obtain r where r: "cmdRun ?mc sample_flags [''true''] 3000000000 1920 ?mw ?w = Some r"
    "oc_out r = lines_text (shown ?pre) \<and> oc_status r = 7"
    using run_exit_status[OF e o s sh f i l p lim] x by fastforce
  then show ?thesis by (intro exI[of _ r]) (simp add: n lines_text_def println_def del: shown_simps)
qed

text \<open>
  A session is called killed on two occasions on which it was not: when the kill failed, and, without
  any interrupt, when the log cannot be opened to follow it.
\<close>

lemma said_killed_but_not:
  assumes "mw_interrupt mw \<longrightarrow> (\<exists>err. bk_KillSession bk sid w = (Some err, w))"
    and "bk_FollowSession bk sid d limit (mw_interrupt mw) w = Some (([], 0, FollowCancelled), w)"
  shows "\<exists>o' t. waitSession mc stats bk sid d limit True mw w = Some o' \<and>
    oc_err o' = t @ println (''swash: cancelled, killed session '' @ sid) \<and> oc_world o' = w"
  using assms by (auto simp: waitSession_def kill_on_interrupt_def wait_end_def Let_def split: prod.splits)

lemma unopened_log_cancels:
  assumes "pe_shared pe = Some err"
  shows "bk_FollowSession (portable_backend pe poll emit) sid d limit False w = Some (([], 0, FollowCancelled), w)"
  using assms by (simp add: portable_backend_def pb_FollowSession_def FollowSession_posix_def)

section \<open>Events emitted and found\<close>

lemma event_fields_ok:
  assumes "event_fields table vs fs = Inr fs'" and "finite (dom fs)"
    and "\<forall>k \<in> dom fs. fieldNamePattern k \<and> k \<notin> set reserved_fields"
  shows "finite (dom fs') \<and> (\<forall>k \<in> dom fs'. fieldNamePattern k \<and> k \<notin> set reserved_fields)"
  using assms
  by (induction table vs fs rule: event_fields.induct) (auto split: option.splits prod.splits if_splits)

lemma parsed_fields_ok:
  assumes "parseEventFields table vs = Inr fs"
  shows "finite (dom fs)" and "fs FieldSession = None" and "fs FieldEvent = None" and "fs ''MESSAGE'' = None"
    and "fs ''FD'' = None"
proof -
  have "finite (dom fs) \<and> (\<forall>k \<in> dom fs. fieldNamePattern k \<and> k \<notin> set reserved_fields)"
    using assms by (intro event_fields_ok[of table vs Map.empty]) (simp_all add: parseEventFields_def)
  then show "finite (dom fs)" "fs FieldSession = None" "fs FieldEvent = None" "fs ''MESSAGE'' = None" "fs ''FD'' = None"
    by (auto simp: reserved_fields_def dom_def)
qed

text \<open>The fields of an event, and a query for just the last one of its session and kind.\<close>

definition emitted :: "string \<Rightarrow> string \<Rightarrow> fieldmap \<Rightarrow> fieldmap" where
  "emitted sid ev fs = fs(FieldEvent \<mapsto> ev, FieldSession \<mapsto> sid)"

definition asks_last :: "events_flags \<Rightarrow> string \<Rightarrow> string \<Rightarrow> bool" where
  "asks_last vf sid ev \<longleftrightarrow> vf_session vf = sid \<and> vf_event vf = ev \<and> vf_fields vf = [] \<and> vf_cursor vf = [] \<and>
     \<not> vf_follow vf \<and> vf_last vf = 1 \<and> \<not> vf_json vf \<and> vf_args vf = []"

context session_log
begin

lemma emit_then_query:
  fixes mc :: "'w machine"
  assumes "good (log_of w)" and "storable (log_of w) msg (emitted sid (ef_event ef) fs)"
    and st: "\<And>m fs k. k \<noteq> ''MESSAGE'' \<Longrightarrow> k \<noteq> ''PRIORITY'' \<Longrightarrow> stored m fs k = fs k"
    and o: "\<And>k. k \<in> {ef_backend ef, vf_backend vf} \<Longrightarrow> \<exists>e. initBackend mc k = (Inr bk, e)"
    and "mc_parse_emit mc (mc_env mc) args = Inr ef" and "ef_args ef = [sid]" and "sid \<noteq> []"
    and "eventNamePattern (ef_event ef)" and "parseEventFields (pr_table (mc_print mc)) (ef_fields ef) = Inr fs"
    and "msg = (if ef_message ef = [] then ef_event ef else ef_message ef)"
    and "mc_parse_events mc (mc_env mc) args' = Inr vf" and "asks_last vf sid (ef_event ef)"
  shows "\<exists>s' r. cmdEmit mc help args w = finish (println (sid @ '' '' @ ef_event ef)) (with_log s' w) \<and>
    good s' \<and> recs s' = recs (log_of w) @ [r] \<and> ev_Message r = msg \<and> ev_Fields r = stored msg (emitted sid (ef_event ef) fs) \<and>
    cmdEvents mc help args' (with_log s' w) = finish (println (plain_event (mc_print mc) r)) (with_log s' w)"
proof -
  let ?F = "emitted sid (ef_event ef) fs"
  have ev: "ef_event ef \<noteq> []" using assms(8) by (auto simp: eventNamePattern_def)
  let ?ms = "[(FieldSession, sid), (FieldEvent, ef_event ef)]"
  have "matchesFilters r ?ms" if "ev_Fields r = stored msg ?F" for r
    using that st[of FieldSession msg ?F] st[of FieldEvent msg ?F]
    by (simp add: matchesFilters_def emitted_def field_names)
  moreover obtain s' r where w: "emit msg ?F (log_of w) = (Inr (), s')" "good s'" "ev_Message r = msg"
    "ev_Fields r = stored msg ?F" "recs s' = recs (log_of w) @ [r]"
    using write_ok[OF assms(1,2)] by blast
  moreover have "distinct (map fst ?ms)" by (simp add: field_names)
  ultimately obtain c where c: "poll ?ms [] s' = Inr (filter (\<lambda>e. matchesFilters e ?ms) (recs (log_of w)) @ [r], c)"
    using poll_start[OF w(2), of ?ms] by auto
  obtain e1 where e1: "initBackend mc (ef_backend ef) = (Inr bk, e1)" using o[of "ef_backend ef"] by auto
  obtain e2 where e2: "initBackend mc (vf_backend vf) = (Inr bk, e2)" using o[of "vf_backend vf"] by auto
  have "cmdEmit mc help args w = finish (println (sid @ '' '' @ ef_event ef)) (with_log s' w)"
    using assms(5,6,8-10) ev w(1) by (simp add: cmdEmit_def with_backend_def e1 emits EmitSessionEvent_def emitted_def)
  moreover have "cmdEvents mc help args' (with_log s' w) = finish (println (plain_event (mc_print mc) r)) (with_log s' w)"
    using assms(7,11,12) ev c
    by (simp add: cmdEvents_def asks_last_def query_filters_def parseEventFilters_def with_backend_def e2 polls log_changed
        err_of_def Let_def printEvent_def)
  ultimately show ?thesis using w(2-5) by blast
qed

text \<open>\<open>swash poll\<close> prints the output recorded so far, without blank lines.\<close>

lemma poll_prints:
  fixes mc :: "'w machine"
  assumes "good (log_of w)" and "initBackend mc (fl_backend fl) = (Inr bk, e)"
  shows "cmdPoll mc fl sid w =
    finish (lines_text (shown (filter (\<lambda>r. matchesFilters r [FilterBySession sid]) (recs (log_of w))))) w"
proof -
  have "cursor_at (recs (log_of w)) [FilterBySession sid] [] 0" by (simp add: cursor_at_def)
  from poll_session_from[OF assms(1) this] obtain c where c: "PollSessionOutput poll sid [] (log_of w) =
      Inr (output_events (filter (\<lambda>r. matchesFilters r [FilterBySession sid]) (recs (log_of w))), c)" by auto
  show ?thesis
    by (simp add: cmdPoll_def with_backend_def assms(2) outputs c err_of_def output_events_filter shown_def comp_def output_of_def)
qed

end

lemma stored_fields_other: "k \<noteq> ''MESSAGE'' \<Longrightarrow> k \<noteq> ''PRIORITY'' \<Longrightarrow> stored_fields m fs k = fs k"
  by (simp add: stored_fields_def)

text \<open>
  C15. An event \<open>swash emit\<close> reports written is one more record of the portable log, with its message
  and its fields, and \<open>swash events\<close> asked for the last event of its session and name prints it. It is
  never taken for output of the session; but an event named \<open>exited\<close> is taken for its end.
\<close>

theorem emitted_event_found:
  fixes mc :: "(px_world \<times> sq_db) machine"
  assumes "sq_ok dec db" and "sq_seq db + 1 < 2 ^ 63"
    and "dec (enc (stored_fields msg (emitted sid (ef_event ef) fs))) = Some (stored_fields msg (emitted sid (ef_event ef) fs))"
    and "\<forall>k \<in> {ef_backend ef, vf_backend vf}. \<exists>e. initBackend mc k =
      (Inr (portable_backend pe (SQLitePoll dec False) (sq_emit enc now)), e)"
    and "pe_shared pe = None"
    and "mc_parse_emit mc (mc_env mc) args = Inr ef" and "ef_args ef = [sid]" and "sid \<noteq> []"
    and "eventNamePattern (ef_event ef)" and "parseEventFields (pr_table (mc_print mc)) (ef_fields ef) = Inr fs"
    and "msg = (if ef_message ef = [] then ef_event ef else ef_message ef)"
    and "mc_parse_events mc (mc_env mc) args' = Inr vf" and "asks_last vf sid (ef_event ef)"
  shows "\<exists>db' r. cmdEmit mc help args (p, db) = finish (println (sid @ '' '' @ ef_event ef)) (p, db') \<and>
    sq_recs dec db' = sq_recs dec db @ [r] \<and> ev_Message r = msg \<and>
    (\<forall>k. k \<noteq> ''MESSAGE'' \<longrightarrow> k \<noteq> ''PRIORITY'' \<longrightarrow> ev_Fields r k = emitted sid (ef_event ef) fs k) \<and>
    \<not> is_output r \<and> (exits r \<longleftrightarrow> ef_event ef = EventExited) \<and>
    cmdEvents mc help args' (p, db') = finish (println (plain_event (mc_print mc) r)) (p, db')"
proof -
  let ?F = "emitted sid (ef_event ef) fs"
  note fs = parsed_fields_ok[OF assms(10)]
  have "finite (dom ?F)" using fs(1) by (simp add: emitted_def)
  then have st: "sq_storable enc dec db msg ?F" using assms(2,3) by (simp add: sq_storable_def)
  have pe: "pe\<lparr>pe_shared := None\<rparr> = pe" using assms(5) by (simp add: portable_env.equality)
  have op: "\<exists>e. initBackend mc k =
      (Inr (portable_backend (pe\<lparr>pe_shared := None\<rparr>) (SQLitePoll dec False) (sq_emit enc now)), e)"
    if "k \<in> {ef_backend ef, vf_backend vf}" for k unfolding pe using assms(4) that by (rule bspec)
  obtain db' r where r: "cmdEmit mc help args (p, db) = finish (println (sid @ '' '' @ ef_event ef)) (p, db')"
    "sq_recs dec db' = sq_recs dec db @ [r]" "ev_Message r = msg" "ev_Fields r = stored_fields msg ?F"
    "cmdEvents mc help args' (p, db') = finish (println (plain_event (mc_print mc) r)) (p, db')"
    using portable_log.emit_then_query[where w = "(p, db)", unfolded snd_conv fst_conv,
        OF assms(1) st stored_fields_other op assms(6-13)] by blast
  have "ev_Fields r ''FD'' = None" "ev_Fields r FieldEvent = Some (ef_event ef)"
    using fs(5) by (simp_all add: r(4) stored_fields_def emitted_def field_names)
  then have "\<not> is_output r" "exits r \<longleftrightarrow> ef_event ef = EventExited"
    by (simp_all add: is_output_def exits_def ev_field_def)
  then show ?thesis using r stored_fields_other by metis
qed

definition sample_decode :: "string \<Rightarrow> fieldmap option" where
  "sample_decode j = Some (stored_fields ''all good'' (emitted ''S'' ''built'' [''TARGET'' \<mapsto> ''x'']))"

lemma sample_fields: "parseEventFields table [''TARGET=x''] = Inr [''TARGET'' \<mapsto> ''x'']"
proof -
  have "go_cut ''TARGET=x'' ''='' = Some (''TARGET'', ''x'')" by (simp add: has_prefix_def)
  moreover have "fieldNamePattern ''TARGET''"
    by (simp add: fieldNamePattern_def upper_def upper_digit_def)
  ultimately show ?thesis by (simp add: parseEventFields_def reserved_fields_def field_names)
qed

theorem emitted_event_found_witness:
  "\<exists>mc db' r. mc = sample_machine (portable_backend (sample_portable [])
      (SQLitePoll sample_decode False) (sq_emit (\<lambda>_. []) 7)) sample_emit sample_query \<and>
    cmdEmit mc [] [''S'', ''--event'', ''built''] (empty_root, empty_db) = finish (println ''S built'') (empty_root, db') \<and>
    sq_recs sample_decode db' = [r] \<and> ev_Message r = ''all good'' \<and> ev_Fields r ''TARGET'' = Some ''x'' \<and>
    cmdEvents mc [] [''--last'', ''1''] (empty_root, db') = finish (println (plain_event (mc_print mc) r)) (empty_root, db')"
proof -
  let ?pe = "sample_portable [] :: sq_db portable_env"
  let ?bk = "portable_backend ?pe (SQLitePoll sample_decode False) (sq_emit (\<lambda>_. []) 7)"
  let ?mc = "sample_machine ?bk sample_emit sample_query"
  let ?fs = "[''TARGET'' \<mapsto> ''x'']"
  have d: "sample_decode ((\<lambda>_. []) (stored_fields ''all good'' (emitted ''S'' (ef_event sample_emit) ?fs))) =
      Some (stored_fields ''all good'' (emitted ''S'' (ef_event sample_emit) ?fs))"
    by (simp add: sample_decode_def sample_emit_def)
  have o: "\<forall>k \<in> {ef_backend sample_emit, vf_backend sample_query}. \<exists>e. initBackend ?mc k = (Inr ?bk, e)"
    using sample_opened[of ?bk sample_emit sample_query] by (simp add: sample_emit_def sample_query_def)
  have h: "pe_shared ?pe = None" "mc_parse_emit ?mc (mc_env ?mc) [''S'', ''--event'', ''built''] = Inr sample_emit"
    "mc_parse_events ?mc (mc_env ?mc) [''--last'', ''1''] = Inr sample_query" "ef_args sample_emit = [''S'']"
    "asks_last sample_query ''S'' (ef_event sample_emit)"
    "''all good'' = (if ef_message sample_emit = [] then ef_event sample_emit else ef_message sample_emit)"
    by (simp_all add: sample_portable_def sample_machine_def sample_emit_def sample_query_def asks_last_def)
  have n: "eventNamePattern (ef_event sample_emit)" by (simp add: sample_emit_def eventNamePattern_def lower_digit_def)
  have f: "parseEventFields (pr_table (mc_print ?mc)) (ef_fields sample_emit) = Inr ?fs"
    by (simp add: sample_emit_def sample_fields)
  have q: "sq_seq empty_db + 1 < 2 ^ 63" "sq_recs sample_decode empty_db = []" by (simp_all add: empty_db_def sq_recs_def)
  obtain db' r where r: "cmdEmit ?mc [] [''S'', ''--event'', ''built''] (empty_root, empty_db) =
      finish (println (''S'' @ '' '' @ ef_event sample_emit)) (empty_root, db')"
    "sq_recs sample_decode db' = sq_recs sample_decode empty_db @ [r]" "ev_Message r = ''all good''"
    "\<forall>k. k \<noteq> ''MESSAGE'' \<longrightarrow> k \<noteq> ''PRIORITY'' \<longrightarrow> ev_Fields r k = emitted ''S'' (ef_event sample_emit) ?fs k"
    "cmdEvents ?mc [] [''--last'', ''1''] (empty_root, db') = finish (println (plain_event (mc_print ?mc) r)) (empty_root, db')"
    using emitted_event_found[OF sq_ok_empty q(1) d o h(1,2,4) _ n f h(6,3,5), of "[]" empty_root] by auto
  have "ev_Fields r ''TARGET'' = Some ''x''"
    using r(4) by (simp add: emitted_def field_names)
  with r q(2) show ?thesis
    by (intro exI[of _ ?mc] exI[of _ db'] exI[of _ r]) (simp add: sample_emit_def)
qed

end
