(* ===== verification/DBusControl.thy ===== *)
theory DBusControl
  imports ControlSocket AttachView TaskProcess SessionStart
begin

text \<open>
  Sessions on the message bus: the client of \<open>internal/backend/systemd/client.go\<close>, \<open>Run\<close> and the end of a
  task in \<open>internal/host/host.go\<close>, and \<open>Run\<close>, \<open>Attach\<close> and the forwarding of input in
  \<open>internal/host/tty.go\<close>. The bus library is a parameter: what a call answers, and which signals come.
\<close>

section \<open>The bus\<close>

datatype dbus_value = DInt32 int | DString string | DBool bool | DUnixFD int | DStatus host_status

text \<open>A call names a peer, a member and its arguments; \<open>bu_store_error\<close>: a reply of other types.\<close>

record 's bus =
  bu_call :: "string \<Rightarrow> string \<Rightarrow> dbus_value list \<Rightarrow> 's \<Rightarrow> (string + dbus_value list) \<times> 's"
  bu_store_error :: string

definition DBusPath :: string where "DBusPath = ''/sh/swa/Swash''"

definition busName :: "string \<Rightarrow> string" where "busName sessionID = DBusNamePrefix @ ''.'' @ sessionID"

definition bus_member :: "string \<Rightarrow> string" where "bus_member m = DBusNamePrefix @ ''.'' @ m"

section \<open>The client\<close>

record dbus_client =
  dc_obj :: string
  dc_sessionID :: string

definition Connect :: "string option \<Rightarrow> string \<Rightarrow> string + dbus_client" where
  "Connect bus_err sessionID =
     (case bus_err of
        Some err \<Rightarrow> Inl (''connecting to session bus: '' @ err)
      | None \<Rightarrow> Inr \<lparr>dc_obj = busName sessionID, dc_sessionID = sessionID\<rparr>)"

definition ConnectTTY :: "string option \<Rightarrow> string \<Rightarrow> string + dbus_client" where
  "ConnectTTY bus_err sessionID = Connect bus_err sessionID"

definition SessionID :: "dbus_client \<Rightarrow> string" where "SessionID c = dc_sessionID c"

text \<open>A call whose reply is stored, and one of which only the error matters.\<close>

definition call_store ::
  "'s bus \<Rightarrow> dbus_client \<Rightarrow> string \<Rightarrow> dbus_value list \<Rightarrow> (dbus_value list \<Rightarrow> 'a option) \<Rightarrow> 's \<Rightarrow> (string + 'a) \<times> 's" where
  "call_store b c m args store s =
     (case bu_call b (dc_obj c) (bus_member m) args s of
        (Inl err, s) \<Rightarrow> (Inl (''calling '' @ m @ '': '' @ err), s)
      | (Inr vs, s) \<Rightarrow>
          (case store vs of
             None \<Rightarrow> (Inl (''calling '' @ m @ '': '' @ bu_store_error b), s)
           | Some x \<Rightarrow> (Inr x, s)))"

definition call_err :: "'s bus \<Rightarrow> dbus_client \<Rightarrow> string \<Rightarrow> dbus_value list \<Rightarrow> 's \<Rightarrow> (string + unit) \<times> 's" where
  "call_err b c m args s =
     (case bu_call b (dc_obj c) (bus_member m) args s of (Inl err, s) \<Rightarrow> (Inl err, s) | (Inr _, s) \<Rightarrow> (Inr (), s))"

fun one_int :: "dbus_value list \<Rightarrow> int option" where
  "one_int [DInt32 n] = Some n" | "one_int _ = None"

fun one_string :: "dbus_value list \<Rightarrow> string option" where
  "one_string [DString t] = Some t" | "one_string _ = None"

fun one_bool :: "dbus_value list \<Rightarrow> bool option" where
  "one_bool [DBool x] = Some x" | "one_bool _ = None"

fun one_status :: "dbus_value list \<Rightarrow> host_status option" where
  "one_status [DStatus st] = Some st" | "one_status _ = None"

fun two_ints :: "dbus_value list \<Rightarrow> (int \<times> int) option" where
  "two_ints [DInt32 m, DInt32 n] = Some (m, n)" | "two_ints _ = None"

fun three_ints :: "dbus_value list \<Rightarrow> (int \<times> int \<times> int) option" where
  "three_ints [DInt32 k, DInt32 m, DInt32 n] = Some (k, m, n)" | "three_ints _ = None"

definition dc_SendInput :: "'s bus \<Rightarrow> dbus_client \<Rightarrow> string \<Rightarrow> 's \<Rightarrow> (string + int) \<times> 's" where
  "dc_SendInput b c input = call_store b c ''SendInput'' [DString input] one_int"

definition dc_Kill :: "'s bus \<Rightarrow> dbus_client \<Rightarrow> 's \<Rightarrow> (string + unit) \<times> 's" where
  "dc_Kill b c = call_err b c ''Kill'' []"

definition dc_Restart :: "'s bus \<Rightarrow> dbus_client \<Rightarrow> 's \<Rightarrow> (string + unit) \<times> 's" where
  "dc_Restart b c = call_err b c ''Restart'' []"

definition dc_Gist :: "'s bus \<Rightarrow> dbus_client \<Rightarrow> 's \<Rightarrow> (string + host_status) \<times> 's" where
  "dc_Gist b c = call_store b c ''Gist'' [] one_status"

definition dc_Stats :: "'s bus \<Rightarrow> dbus_client \<Rightarrow> 's \<Rightarrow> (string + string) \<times> 's" where
  "dc_Stats b c = call_store b c ''Stats'' [] one_string"

definition dc_GetScreenText :: "'s bus \<Rightarrow> dbus_client \<Rightarrow> 's \<Rightarrow> (string + string) \<times> 's" where
  "dc_GetScreenText b c = call_store b c ''GetScreenText'' [] one_string"

definition dc_GetScreenANSI :: "'s bus \<Rightarrow> dbus_client \<Rightarrow> 's \<Rightarrow> (string + string) \<times> 's" where
  "dc_GetScreenANSI b c = call_store b c ''GetScreenANSI'' [] one_string"

definition dc_GetCursor :: "'s bus \<Rightarrow> dbus_client \<Rightarrow> 's \<Rightarrow> (string + int \<times> int) \<times> 's" where
  "dc_GetCursor b c = call_store b c ''GetCursor'' [] two_ints"

definition dc_GetTitle :: "'s bus \<Rightarrow> dbus_client \<Rightarrow> 's \<Rightarrow> (string + string) \<times> 's" where
  "dc_GetTitle b c = call_store b c ''GetTitle'' [] one_string"

definition dc_GetMode :: "'s bus \<Rightarrow> dbus_client \<Rightarrow> 's \<Rightarrow> (string + bool) \<times> 's" where
  "dc_GetMode b c = call_store b c ''GetMode'' [] one_bool"

definition dc_Resize :: "'s bus \<Rightarrow> dbus_client \<Rightarrow> int \<Rightarrow> int \<Rightarrow> 's \<Rightarrow> (string + unit) \<times> 's" where
  "dc_Resize b c rows cols = call_err b c ''Resize'' [DInt32 rows, DInt32 cols]"

definition dc_Detach :: "'s bus \<Rightarrow> dbus_client \<Rightarrow> string \<Rightarrow> 's \<Rightarrow> (string + unit) \<times> 's" where
  "dc_Detach b c clientID = call_err b c ''Detach'' [DString clientID]"

definition dc_GetAttachedClients :: "'s bus \<Rightarrow> dbus_client \<Rightarrow> 's \<Rightarrow> (string + int \<times> int \<times> int) \<times> 's" where
  "dc_GetAttachedClients b c = call_store b c ''GetAttachedClients'' [] three_ints"

text \<open>Attaching: the ends of the two pipes, output and input, and what the host says.\<close>

fun store_attach :: "dbus_value list \<Rightarrow> ((int \<times> int) \<times> attached) option" where
  "store_attach [DUnixFD out, DUnixFD inp, DInt32 rows, DInt32 cols, DString screen, DString cid] =
     Some ((out, inp), \<lparr>as_rows = rows, as_cols = cols, as_screenANSI = screen, as_clientID = cid\<rparr>)"
| "store_attach _ = None"

definition dc_Attach :: "'s bus \<Rightarrow> dbus_client \<Rightarrow> int \<Rightarrow> int \<Rightarrow> 's \<Rightarrow> (string + (int \<times> int) \<times> attached) \<times> 's" where
  "dc_Attach b c clientRows clientCols s =
     (case call_store b c ''Attach'' [DInt32 clientRows, DInt32 clientCols] store_attach s of
        (Inr ((out, inp), a), s) \<Rightarrow>
          if out < 0 \<or> inp < 0 then (Inl ''invalid file descriptor(s) returned by Attach'', s)
          else (Inr ((out, inp), a), s)
      | (Inl err, s) \<Rightarrow> (Inl err, s))"

section \<open>Signals\<close>

record bus_signal =
  sg_sender :: string
  sg_path :: string
  sg_name :: string
  sg_body :: "dbus_value list"

text \<open>The rule asks the bus for signals by interface, member and path; whoever sends them.\<close>

definition exit_rule :: "bus_signal \<Rightarrow> bool" where
  "exit_rule sg \<longleftrightarrow> sg_path sg = DBusPath \<and> sg_name sg = bus_member ''Exited''"

text \<open>
  The loop over the signals of the connection, \<open>None\<close> while it waits.
\<close>

fun exit_loop :: "bus_signal list \<Rightarrow> int option" where
  "exit_loop [] = None"
| "exit_loop (sg # sgs) =
     (if sg_path sg = DBusPath \<and> sg_name sg = bus_member ''Exited'' then
        (case sg_body sg of DInt32 exitCode # _ \<Rightarrow> Some exitCode | _ \<Rightarrow> Some (- 1))
      else exit_loop sgs)"

text \<open>What is sent on the bus reaches the connection if it matches the rule.\<close>

definition dc_WaitExited :: "dbus_client \<Rightarrow> bus_signal list \<Rightarrow> int option" where
  "dc_WaitExited c sent = exit_loop (filter exit_rule sent)"

section \<open>The host on the bus\<close>

text \<open>
  The methods \<open>ExportAll\<close> makes callable under their names; a plain host has no terminal.
\<close>

definition reply :: "('a \<Rightarrow> dbus_value list) \<Rightarrow> string + 'a \<Rightarrow> string + dbus_value list" where
  "reply f r = (case r of Inl err \<Rightarrow> Inl err | Inr x \<Rightarrow> Inr (f x))"

definition unknown_method :: "string + dbus_value list" where "unknown_method = Inl ''unknown method''"

definition exported_session :: "'s session_ops \<Rightarrow> string \<Rightarrow> dbus_value list \<Rightarrow> 's \<Rightarrow> (string + dbus_value list) \<times> 's" where
  "exported_session so m args s =
     (if m = bus_member ''Gist'' then (reply (\<lambda>st. [DStatus st]) (so_Gist so s), s)
      else if m = bus_member ''Stats'' then (reply (\<lambda>t. [DString t]) (so_Stats so s), s)
      else if m = bus_member ''SendInput'' then
        (case args of [DString d] \<Rightarrow> apfst (reply (\<lambda>n. [DInt32 n])) (so_SendInput so d s) | _ \<Rightarrow> (unknown_method, s))
      else if m = bus_member ''Kill'' then apfst (reply (\<lambda>_. [])) (so_Kill so s)
      else if m = bus_member ''Restart'' then apfst (reply (\<lambda>_. [])) (so_Restart so s)
      else (unknown_method, s))"

definition exported_terminal :: "'s terminal_ops \<Rightarrow> string \<Rightarrow> dbus_value list \<Rightarrow> 's \<Rightarrow> (string + dbus_value list) \<times> 's" where
  "exported_terminal h m args s =
     (if m = bus_member ''GetScreenText'' then (reply (\<lambda>t. [DString t]) (to_GetScreenText h s), s)
      else if m = bus_member ''GetScreenANSI'' then (reply (\<lambda>t. [DString t]) (to_GetScreenANSI h s), s)
      else if m = bus_member ''GetCursor'' then (reply (\<lambda>(r, c). [DInt32 r, DInt32 c]) (to_GetCursor h s), s)
      else if m = bus_member ''GetTitle'' then (reply (\<lambda>t. [DString t]) (to_GetTitle h s), s)
      else if m = bus_member ''GetMode'' then (reply (\<lambda>x. [DBool x]) (to_GetMode h s), s)
      else if m = bus_member ''GetAttachedClients'' then
        (reply (\<lambda>(n, r, c). [DInt32 n, DInt32 r, DInt32 c]) (to_GetAttachedClients h s), s)
      else if m = bus_member ''Resize'' then
        (case args of [DInt32 r, DInt32 c] \<Rightarrow> apfst (reply (\<lambda>_. [])) (to_Resize h r c s) | _ \<Rightarrow> (unknown_method, s))
      else if m = bus_member ''Detach'' then
        (case args of [DString i] \<Rightarrow> apfst (reply (\<lambda>_. [])) (to_Detach h i s) | _ \<Rightarrow> (unknown_method, s))
      else (unknown_method, s))"

definition exported ::
  "'s session_ops \<Rightarrow> 's terminal_ops option \<Rightarrow> string \<Rightarrow> dbus_value list \<Rightarrow> 's \<Rightarrow> (string + dbus_value list) \<times> 's" where
  "exported so h m args s =
     (if m \<in> {bus_member ''Gist'', bus_member ''Stats'', bus_member ''SendInput'', bus_member ''Kill'', bus_member ''Restart''}
      then exported_session so m args s
      else case h of None \<Rightarrow> (unknown_method, s) | Some h \<Rightarrow> exported_terminal h m args s)"

text \<open>
  \<open>Attach\<close> of the host, \<open>None\<close> if it hangs: \<open>fds\<close> are the numbers of the ends of the pipes.
\<close>

definition bus_Attach ::
  "'v emulator \<Rightarrow> bool \<Rightarrow> int \<times> int \<Rightarrow> int \<Rightarrow> int \<Rightarrow> 'v tty \<Rightarrow> ((string + dbus_value list) \<times> 'v tty) option" where
  "bus_Attach em pipes fds clientRows clientCols t =
     (case attachFilesLocked em pipes clientRows clientCols t of
        None \<Rightarrow> None
      | Some (r, t) \<Rightarrow> Some (case r of
          Inl err \<Rightarrow> Inl (attach_message err)
        | Inr a \<Rightarrow> Inr [DUnixFD (fst fds), DUnixFD (snd fds), DInt32 (as_rows a), DInt32 (as_cols a), DString (as_screenANSI a),
            DString (as_clientID a)], t))"

text \<open>What a client writes goes to the pseudo-terminal, where there is one, until reading fails.\<close>

fun forwardAttachedInput :: "(string \<times> bool) option list \<Rightarrow> string list" where
  "forwardAttachedInput [] = []"
| "forwardAttachedInput (None # rs) = []"
| "forwardAttachedInput (Some (data, pty) # rs) = (if data \<noteq> [] \<and> pty then [data] else []) @ forwardAttachedInput rs"

text \<open>
  \<open>Run\<close> of either host: \<open>name\<close> is the error of the request for the name and whether it was granted;
  \<open>task\<close> is the result of \<open>RunTask\<close> and the exit code the host then has.
\<close>

datatype 'r bus_run = BusUnreachable string | NameRefused "string option" | RunEnded 'r

definition Run :: "string option \<Rightarrow> string option \<times> bool \<Rightarrow> 'r \<times> int option \<Rightarrow> string \<Rightarrow> 'r bus_run \<times> bus_signal list" where
  "Run bus_err name task sessionID =
     (case bus_err of
        Some err \<Rightarrow> (BusUnreachable err, [])
      | None \<Rightarrow>
          if fst name \<noteq> None \<or> \<not> snd name then (NameRefused (fst name), [])
          else (RunEnded (fst task),
            case snd task of
              None \<Rightarrow> []
            | Some exitCode \<Rightarrow> [\<lparr>sg_sender = busName sessionID, sg_path = DBusPath, sg_name = bus_member ''Exited'',
                sg_body = [DInt32 (int32 exitCode)]\<rparr>]))"

section \<open>The end of a task\<close>

definition taskTerminationGrace :: int where "taskTerminationGrace = 2000000000"

datatype end_action = Graceful | Force | CloseIO | AwaitDone

text \<open>\<open>ended\<close>: the task ends within the grace.\<close>

definition terminateTask :: "bool \<Rightarrow> end_action list" where
  "terminateTask ended = (if ended then [Graceful] else [Graceful, Force, CloseIO, AwaitDone])"

definition SIGTERM :: int where "SIGTERM = 15"

definition GracefulKill :: "(int \<Rightarrow> 'w \<Rightarrow> 'w) option \<Rightarrow> 'w \<Rightarrow> 'w" where
  "GracefulKill proc w = (case proc of None \<Rightarrow> w | Some signal \<Rightarrow> signal SIGTERM w)"

text \<open>The read ends that are closed, and what is left of them.\<close>

definition closePipes :: "'f option \<Rightarrow> 'f option \<Rightarrow> 'f list \<times> 'f option \<times> 'f option" where
  "closePipes stdoutRead stderrRead =
     ((case stdoutRead of Some f \<Rightarrow> [f] | None \<Rightarrow> []) @ (case stderrRead of Some f \<Rightarrow> [f] | None \<Rightarrow> []), None, None)"

section \<open>Properties\<close>

text \<open>An error of a method arrives wrapped where its reply is stored, and as it is otherwise.\<close>

definition wrapped :: "string \<Rightarrow> string + 'a \<Rightarrow> string + 'a" where
  "wrapped m r = (case r of Inl err \<Rightarrow> Inl (''calling '' @ m @ '': '' @ err) | Inr x \<Rightarrow> Inr x)"

lemma member_inj [simp]: "bus_member m = bus_member m' \<longleftrightarrow> m = m'"
  by (simp add: bus_member_def)

lemmas client_calls = dc_SendInput_def dc_Kill_def dc_Restart_def dc_Gist_def dc_Stats_def dc_GetScreenText_def
  dc_GetScreenANSI_def dc_GetCursor_def dc_GetTitle_def dc_GetMode_def dc_Resize_def dc_Detach_def dc_GetAttachedClients_def
  call_store_def call_err_def

text \<open>
  Where the bus hands the calls for a name to the host that has it, every method of the client has
  the effect and the result of the method of the session or its terminal.
\<close>

lemma bus_transparent:
  assumes "Connect None sid = Inr c"
    and bus: "\<And>m args s. bu_call b (busName sid) m args s = exported so (Some h) m args s"
  shows "dc_Gist b c s = (wrapped ''Gist'' (so_Gist so s), s)"
    and "dc_Stats b c s = (wrapped ''Stats'' (so_Stats so s), s)"
    and "dc_SendInput b c d s = apfst (wrapped ''SendInput'') (so_SendInput so d s)"
    and "dc_Kill b c s = so_Kill so s" and "dc_Restart b c s = so_Restart so s"
    and "dc_GetScreenText b c s = (wrapped ''GetScreenText'' (to_GetScreenText h s), s)"
    and "dc_GetScreenANSI b c s = (wrapped ''GetScreenANSI'' (to_GetScreenANSI h s), s)"
    and "dc_GetCursor b c s = (wrapped ''GetCursor'' (to_GetCursor h s), s)"
    and "dc_GetTitle b c s = (wrapped ''GetTitle'' (to_GetTitle h s), s)"
    and "dc_GetMode b c s = (wrapped ''GetMode'' (to_GetMode h s), s)"
    and "dc_GetAttachedClients b c s = (wrapped ''GetAttachedClients'' (to_GetAttachedClients h s), s)"
    and "dc_Resize b c rows cols s = to_Resize h rows cols s" and "dc_Detach b c i s = to_Detach h i s"
proof -
  have c: "dc_obj c = busName sid" using assms(1) by (auto simp: Connect_def)
  note d = client_calls c bus exported_def wrapped_def reply_def
  show "dc_Gist b c s = (wrapped ''Gist'' (so_Gist so s), s)"
    by (cases "so_Gist so s") (simp_all add: d exported_session_def)
  show "dc_Stats b c s = (wrapped ''Stats'' (so_Stats so s), s)"
    by (cases "so_Stats so s") (simp_all add: d exported_session_def)
  show "dc_SendInput b c d s = apfst (wrapped ''SendInput'') (so_SendInput so d s)"
    by (cases "so_SendInput so d s"; cases "fst (so_SendInput so d s)") (simp_all add: d exported_session_def)
  show "dc_Kill b c s = so_Kill so s"
    by (cases "so_Kill so s"; cases "fst (so_Kill so s)") (simp_all add: d exported_session_def)
  show "dc_Restart b c s = so_Restart so s"
    by (cases "so_Restart so s"; cases "fst (so_Restart so s)") (simp_all add: d exported_session_def)
  show "dc_GetScreenText b c s = (wrapped ''GetScreenText'' (to_GetScreenText h s), s)"
    by (cases "to_GetScreenText h s") (simp_all add: d exported_terminal_def)
  show "dc_GetScreenANSI b c s = (wrapped ''GetScreenANSI'' (to_GetScreenANSI h s), s)"
    by (cases "to_GetScreenANSI h s") (simp_all add: d exported_terminal_def)
  show "dc_GetCursor b c s = (wrapped ''GetCursor'' (to_GetCursor h s), s)"
    by (cases "to_GetCursor h s") (simp_all add: d exported_terminal_def split: prod.splits)
  show "dc_GetTitle b c s = (wrapped ''GetTitle'' (to_GetTitle h s), s)"
    by (cases "to_GetTitle h s") (simp_all add: d exported_terminal_def)
  show "dc_GetMode b c s = (wrapped ''GetMode'' (to_GetMode h s), s)"
    by (cases "to_GetMode h s") (simp_all add: d exported_terminal_def)
  show "dc_GetAttachedClients b c s = (wrapped ''GetAttachedClients'' (to_GetAttachedClients h s), s)"
    by (cases "to_GetAttachedClients h s") (simp_all add: d exported_terminal_def split: prod.splits)
  show "dc_Resize b c rows cols s = to_Resize h rows cols s"
    by (cases "to_Resize h rows cols s"; cases "fst (to_Resize h rows cols s)") (simp_all add: d exported_terminal_def)
  show "dc_Detach b c i s = to_Detach h i s"
    by (cases "to_Detach h i s"; cases "fst (to_Detach h i s)") (simp_all add: d exported_terminal_def)
qed

lemma exit_loop_append:
  "\<forall>sg \<in> set pre. \<not> exit_rule sg \<Longrightarrow> exit_loop (filter exit_rule (pre @ sgs)) = exit_loop (filter exit_rule sgs)"
  by (induction pre) simp_all

text \<open>
  C9. A client attached to a session over the bus takes the first exit announced on the bus for that
  of its session, whichever session it is: the rule it gives the bus and the check of the signal
  ask for a path and a name that all hosts share. The view ends and reports the code of the other.
\<close>

theorem exit_of_any_session:
  assumes "Connect bus_err attached_to = Inr c" and "Run None (None, True) (r, Some code) ended = (RunEnded r, sigs)"
    and "\<forall>sg \<in> set pre. sg_name sg \<noteq> bus_member ''Exited''" and "int32_ok code"
  shows "dc_WaitExited c (pre @ sigs @ post) = Some code \<and>
    AttachView.Run True (TaskExited code # events) = (Some (ReasonExited, Some code), 0) \<and>
    PrintResult (ReasonExited, Some code) = ''[exited: '' @ itoa code @ '']'' @ [CHR 0x0A]"
proof -
  have "int32 code = code" using assms(4) by (rule int32_same)
  moreover have "\<forall>sg \<in> set pre. \<not> exit_rule sg" using assms(3) by (simp add: exit_rule_def)
  ultimately show ?thesis
    using exit_loop_append[of pre "sigs @ post"] assms(2)
    by (auto simp: dc_WaitExited_def DBusControl.Run_def AttachView.Run_def PrintResult_def exit_rule_def)
qed

theorem exit_of_any_session_witness:
  "\<exists>c. Connect None ''AAA000'' = Inr c \<and> dc_WaitExited c (snd (Run None (None, True) ((), Some 3) ''BBB111'')) = Some 3"
proof -
  obtain c where c: "Connect None ''AAA000'' = Inr c" by (simp add: Connect_def)
  have r: "Run None (None, True) ((), Some 3) ''BBB111'' = (RunEnded (), snd (Run None (None, True) ((), Some 3) ''BBB111''))"
    by (simp add: DBusControl.Run_def)
  have "int32_ok 3" by (simp add: int32_ok_def)
  with exit_of_any_session[OF c r, of "[]" "[]" "[]"] c show ?thesis by simp
qed

text \<open>A second host of a session is refused without an error: the message then wraps none.\<close>

lemma refused_without_error: "Run None (None, False) task sid = (NameRefused None, [])"
  by (simp add: DBusControl.Run_def)

end
