(* ===== verification/SystemdBackend.thy ===== *)
theory SystemdBackend
  imports CommandRuns
begin

text \<open>
  The systemd backend as a whole: the methods of \<open>SystemdBackend\<close> in
  \<open>internal/backend/systemd/backend.go\<close> over the process manager of \<open>process_backend.go\<close> and the calls
  of \<open>dbus.go\<close>, put together as the interface \<open>Backend\<close> the commands use; and the status
  \<open>swash run\<close> exits with over it. The state is that of systemd and the log; what systemd answers, what
  hosts answer and what happens while a session is followed are parameters.
\<close>

section \<open>The methods\<close>

text \<open>
  What \<open>FollowSession\<close> meets, in the order in which its \<open>select\<close> takes it: an event, the end of the
  events, a tick of the clock with the state of systemd then, or the end of the context.
\<close>

datatype 's moment = Arrived event_record | LogEnded bool | Tick 's int | Done bool

text \<open>
  \<open>sy_environ\<close> and \<open>sy_env\<close> are the environment of the caller as a list and as a map, \<open>sy_vars\<close> the
  order in which the variables of a session are met. \<open>sy_by_patterns\<close> to \<open>sy_start\<close> are the calls of
  the D-Bus library.
\<close>

record ('s, 'l) systemd_env =
  sy_environ :: "string list"
  sy_env :: env
  sy_cwd :: string
  sy_hostCommand :: "string list"
  sy_rand :: "u8 list"
  sy_numCPU :: nat
  sy_meminfo :: "string option"
  sy_oor :: "f64 \<Rightarrow> u64"
  sy_vars :: "string list"
  sy_by_patterns :: "'s \<Rightarrow> string list \<Rightarrow> string list \<Rightarrow> string + string list"
  sy_unit_props :: "'s \<Rightarrow> string \<Rightarrow> string + properties"
  sy_service_props :: "'s \<Rightarrow> string \<Rightarrow> string + properties"
  sy_stop :: "string \<Rightarrow> string \<Rightarrow> 's \<Rightarrow> (string + string option) \<times> 's"
  sy_kill :: "string \<Rightarrow> int \<Rightarrow> 's \<Rightarrow> string option \<times> 's"
  sy_set_props :: "string \<Rightarrow> (string \<times> u64) list \<Rightarrow> 's \<Rightarrow> string option \<times> 's"
  sy_start :: "string \<Rightarrow> string \<Rightarrow> (string \<times> variant) list \<Rightarrow> 's \<Rightarrow> (string + string option) \<times> 's"
  sy_connect :: "'s \<times> 'l \<Rightarrow> string \<Rightarrow> string + client"
  sy_connect_tty :: "'s \<times> 'l \<Rightarrow> string \<Rightarrow> string + client"
  sy_moments :: "string \<Rightarrow> int \<Rightarrow> bool \<Rightarrow> 's \<times> 'l \<Rightarrow> 's moment list \<times> ('s \<times> 'l)"
  sy_follow_events :: "event_filter list \<Rightarrow> string \<Rightarrow> 'l \<Rightarrow> event_record list"
  sy_error :: "sd_error \<Rightarrow> string"
  sy_log_error :: "log_error \<Rightarrow> string"
  sy_time :: "u64 option \<Rightarrow> string"
  sy_format :: "int \<Rightarrow> string"
  sy_order :: "string list"

text \<open>The processes listed in a state of systemd, the live sessions, and whether one is among them.\<close>

definition sy_processes :: "('s, 'l) systemd_env \<Rightarrow> 's \<Rightarrow> sd_error + process_status list" where
  "sy_processes sy s =
     PM_List (\<lambda>patterns states. ListUnits (sy_by_patterns sy s) (GetUnit (sy_unit_props sy s) (sy_service_props sy s)) patterns states)
       (sy_env sy)"

definition sy_ListSessions :: "('s, 'l) systemd_env \<Rightarrow> 's \<Rightarrow> string + px_session list" where
  "sy_ListSessions sy s = err_of (sy_error sy) (systemd_ListSessions (sy_time sy) (sy_processes sy s))"

definition sy_sessionIsLive :: "('s, 'l) systemd_env \<Rightarrow> 's \<Rightarrow> string \<Rightarrow> string + bool" where
  "sy_sessionIsLive sy s sessionID = err_of (sy_error sy) (sessionIsLive (sy_time sy) (sy_processes sy s) sessionID)"

definition sy_ListHistory ::
  "('s, 'l) systemd_env \<Rightarrow> (event_filter list \<Rightarrow> string \<Rightarrow> 'l \<Rightarrow> log_error + (event_record list \<times> string)) \<Rightarrow>
   's \<times> 'l \<Rightarrow> string + history_session list" where
  "sy_ListHistory sy poll w =
     err_of (\<lambda>e. case e of HistoryLog e \<Rightarrow> sy_log_error sy e | HistoryLive e \<Rightarrow> e)
       (ListHistory_systemd poll (sy_format sy) (sy_order sy) (snd w)
         (case sy_ListSessions sy (fst w) of Inl e \<Rightarrow> Inl e | Inr ss \<Rightarrow> Inr (map se_ID ss)) (snd w))"

text \<open>The calls that change units; without properties the limits of the slice are not set.\<close>

definition sy_SetUnitLimits :: "('s, 'l) systemd_env \<Rightarrow> string \<Rightarrow> limits \<Rightarrow> 's \<Rightarrow> sd_error option \<times> 's" where
  "sy_SetUnitLimits sy name l s =
     (SetUnitLimits (sy_oor sy) (\<lambda>n ps. fst (sy_set_props sy n ps s)) name l,
      if limitProperties (sy_oor sy) l = [] then s else snd (sy_set_props sy name (limitProperties (sy_oor sy) l) s))"

definition sy_StartTransient :: "('s, 'l) systemd_env \<Rightarrow> transient_spec \<Rightarrow> 's \<Rightarrow> sd_error option \<times> 's" where
  "sy_StartTransient sy spec s =
     (StartTransient (sy_oor sy) (sy_vars sy) (\<lambda>n mode ps. fst (sy_start sy n mode ps s)) spec,
      snd (sy_start sy (t_Unit spec) ''replace'' (transient_properties (sy_oor sy) (sy_vars sy) spec) s))"

definition sy_StartSession ::
  "('s, 'l) systemd_env \<Rightarrow> string list \<Rightarrow> session_options \<Rightarrow> 's \<times> 'l \<Rightarrow> (string + string) \<times> ('s \<times> 'l)" where
  "sy_StartSession sy command opts w =
     (case systemd_StartSession
         (PM_Start (sy_SetUnitLimits sy) (sy_StartTransient sy) (sy_numCPU sy) (sy_meminfo sy) (sy_env sy))
         (sy_rand sy) (sy_environ sy) (sy_cwd sy) (sy_hostCommand sy) command opts (fst w) of
        (r, s) \<Rightarrow> (err_of (sy_error sy) r, (s, snd w)))"

definition sy_StopSession :: "('s, 'l) systemd_env \<Rightarrow> string \<Rightarrow> 's \<times> 'l \<Rightarrow> string option \<times> ('s \<times> 'l)" where
  "sy_StopSession sy sessionID w =
     (map_option (sy_error sy) (systemd_StopSession (StopUnit (\<lambda>n mode. fst (sy_stop sy n mode (fst w)))) sessionID),
      (snd (sy_stop sy (HostUnit sessionID) ''replace'' (fst w)), snd w))"

definition sy_KillSession :: "('s, 'l) systemd_env \<Rightarrow> string \<Rightarrow> 's \<times> 'l \<Rightarrow> string option \<times> ('s \<times> 'l)" where
  "sy_KillSession sy sessionID w =
     (map_option (sy_error sy) (systemd_KillSession (KillUnit (\<lambda>n sig. fst (sy_kill sy n sig (fst w)))) sessionID),
      (snd (sy_kill sy (HostUnit sessionID) 9 (fst w)), snd w))"

definition sy_SendInput :: "('s, 'l) systemd_env \<Rightarrow> string \<Rightarrow> string \<Rightarrow> 's \<times> 'l \<Rightarrow> (string + int) \<times> ('s \<times> 'l)" where
  "sy_SendInput sy sessionID input w =
     (systemd_SendInput (sy_connect sy w sessionID) (\<lambda>c i. case cn_SendInput c i of Inl e \<Rightarrow> Inl e | Inr n \<Rightarrow> Inr (int n)) input, w)"

definition sy_EmitSessionEvent ::
  "('s, 'l) systemd_env \<Rightarrow> (string \<Rightarrow> fieldmap \<Rightarrow> (log_error, 'l, unit) eff) \<Rightarrow> string \<Rightarrow> string \<Rightarrow> string \<Rightarrow> fieldmap \<Rightarrow>
   's \<times> 'l \<Rightarrow> string option \<times> ('s \<times> 'l)" where
  "sy_EmitSessionEvent sy emit sessionID event message extra w =
     (case EmitSessionEvent emit sessionID event message extra (snd w) of
        (r, l) \<Rightarrow> (case r of Inl e \<Rightarrow> Some (sy_log_error sy e) | Inr _ \<Rightarrow> None, (fst w, l)))"

text \<open>An error of the check counts as a live session.\<close>

definition step_of :: "('s, 'l) systemd_env \<Rightarrow> string \<Rightarrow> 's moment \<Rightarrow> follow_step" where
  "step_of sy sessionID m =
     (case m of
        Arrived e \<Rightarrow> GotEvent e
      | LogEnded deadline \<Rightarrow> EventsClosed deadline
      | Tick s now \<Rightarrow> CheckUnit (case sy_sessionIsLive sy s sessionID of Inl _ \<Rightarrow> None | Inr live \<Rightarrow> Some live) now
      | Done deadline \<Rightarrow> SessionLog.CtxDone deadline)"

definition sy_FollowSession ::
  "('s, 'l) systemd_env \<Rightarrow> string \<Rightarrow> int \<Rightarrow> int \<Rightarrow> bool \<Rightarrow> 's \<times> 'l \<Rightarrow>
   ((string list \<times> (int \<times> follow_result)) \<times> ('s \<times> 'l)) option" where
  "sy_FollowSession sy sessionID timeout outputLimit cancelled w =
     (case sy_moments sy sessionID timeout cancelled w of
        (ms, w) \<Rightarrow>
          (case FollowSession_systemd outputLimit (map (step_of sy sessionID) ms) of
             (out, None) \<Rightarrow> None
           | (out, Some r) \<Rightarrow> Some ((out, r), w)))"

definition sy_GetScreen ::
  "('s, 'l) systemd_env \<Rightarrow> (event_filter list \<Rightarrow> string \<Rightarrow> 'l \<Rightarrow> log_error + (event_record list \<times> string)) \<Rightarrow>
   string \<Rightarrow> 's \<times> 'l \<Rightarrow> string + string" where
  "sy_GetScreen sy poll sessionID w =
     err_of (\<lambda>e. case e of ScreenLog e \<Rightarrow> ''querying journal: '' @ sy_log_error sy e
        | NoScreen sid \<Rightarrow> ''no screen found for session '' @ sid)
       (systemd_GetScreen poll
         (case sy_connect_tty sy w sessionID of Inl e \<Rightarrow> Inl e | Inr c \<Rightarrow> Inr (cn_GetScreenANSI c)) sessionID (snd w))"

text \<open>What \<open>ConnectSession\<close> is used for: the statistics of a session.\<close>

definition sy_Stats :: "('s, 'l) systemd_env \<Rightarrow> string \<Rightarrow> 's \<times> 'l \<Rightarrow> string + string" where
  "sy_Stats sy sessionID w = (case sy_connect sy w sessionID of Inl e \<Rightarrow> Inl e | Inr c \<Rightarrow> cn_Stats c)"

definition systemd_backend_of ::
  "('s, 'l) systemd_env \<Rightarrow> (event_filter list \<Rightarrow> string \<Rightarrow> 'l \<Rightarrow> log_error + (event_record list \<times> string)) \<Rightarrow>
   (string \<Rightarrow> fieldmap \<Rightarrow> (log_error, 'l, unit) eff) \<Rightarrow> ('s \<times> 'l) backend" where
  "systemd_backend_of sy poll emit =
     \<lparr>bk_ListSessions = (\<lambda>w. sy_ListSessions sy (fst w)),
      bk_ListHistory = sy_ListHistory sy poll,
      bk_StartSession = sy_StartSession sy,
      bk_StopSession = sy_StopSession sy,
      bk_KillSession = sy_KillSession sy,
      bk_SendInput = sy_SendInput sy,
      bk_EmitSessionEvent = sy_EmitSessionEvent sy emit,
      bk_PollEvents = (\<lambda>ms cursor w. err_of (sy_log_error sy) (poll ms cursor (snd w))),
      bk_FollowEvents = (\<lambda>ms cursor w. sy_follow_events sy ms cursor (snd w)),
      bk_PollSessionOutput = (\<lambda>sid cursor w. err_of (sy_log_error sy) (PollSessionOutput poll sid cursor (snd w))),
      bk_FollowSession = sy_FollowSession sy,
      bk_GetScreen = sy_GetScreen sy poll,
      bk_Stats = sy_Stats sy\<rparr>"

text \<open>It hands on to its log; here to the one in memory, with which the tests of the sources run it.\<close>

interpretation systemd_log: session_log numbered fj_entries FakePoll "FakeWrite now" "\<lambda>s m fs. True" "\<lambda>m fs. fs"
  "systemd_backend_of sy FakePoll (FakeWrite now)" snd "\<lambda>l w. (fst w, l)" "sy_log_error sy"
  by unfold_locales (simp_all add: systemd_backend_of_def sy_EmitSessionEvent_def split: prod.splits)

section \<open>Following up to a point\<close>

text \<open>The time of the first of the checks that found the session missing, up to the last check.\<close>

fun since :: "int option \<Rightarrow> follow_step list \<Rightarrow> int option" where
  "since t [] = t"
| "since t (CheckUnit live now # steps) =
     since (if live = Some False then (if t = None then Some now else t) else None) steps"
| "since t (_ # steps) = since t steps"

fun check_times :: "follow_step list \<Rightarrow> int list" where
  "check_times [] = []"
| "check_times (CheckUnit live now # steps) = now # check_times steps"
| "check_times (_ # steps) = check_times steps"

fun step_events :: "follow_step list \<Rightarrow> event_record list" where
  "step_events [] = []"
| "step_events (GotEvent e # steps) = e # step_events steps"
| "step_events (_ # steps) = step_events steps"

fun goes_on :: "follow_step \<Rightarrow> bool" where
  "goes_on (GotEvent e) = (\<not> exits e)"
| "goes_on (CheckUnit _ _) = True"
| "goes_on _ = False"

lemma since_append [simp]: "since t (xs @ ys) = since (since t xs) ys"
  by (induction t xs rule: since.induct) simp_all

lemma check_times_append [simp]: "check_times (xs @ ys) = check_times xs @ check_times ys"
  by (induction xs rule: check_times.induct) simp_all

lemma since_time: "since t xs = Some u \<Longrightarrow> t = Some u \<or> u \<in> set (check_times xs)"
  by (induction t xs rule: since.induct) (auto split: if_splits)

lemma since_kept: "all_missing xs \<Longrightarrow> since (Some u) xs = Some u"
  by (induction xs rule: all_missing.induct) auto

lemma missing_since:
  assumes "missing_for None (xs @ [CheckUnit live now])" and "\<not> missing_for None xs"
    and "sorted (check_times (xs @ [CheckUnit live now]))"
  shows "live = Some False \<and> (\<exists>t. since None xs = Some t \<and> now - t \<ge> disappearanceGrace)"
proof -
  obtain before t1 mid t2 after where d: "xs @ [CheckUnit live now] =
      before @ CheckUnit (Some False) t1 # mid @ CheckUnit (Some False) t2 # after"
    "all_missing mid" "t2 - t1 \<ge> disappearanceGrace"
    using assms(1) unfolding missing_for_def by blast
  have "after = []"
  proof (rule ccontr)
    assume "after \<noteq> []"
    then have "xs = before @ CheckUnit (Some False) t1 # mid @ CheckUnit (Some False) t2 # butlast after"
      using arg_cong[OF d(1), of butlast] by (simp add: butlast_append)
    then show False using assms(2) d(2,3) unfolding missing_for_def by blast
  qed
  then have xs: "xs = before @ CheckUnit (Some False) t1 # mid" "live = Some False" "now = t2"
    using d(1) by (simp_all flip: append_assoc append_Cons)
  obtain t where t: "since None (before @ [CheckUnit (Some False) t1]) = Some t" by (cases "since None before") auto
  then have "t \<in> set (check_times (before @ [CheckUnit (Some False) t1]))" using since_time by blast
  then have "t \<le> t1" using assms(3) xs(1) by (auto simp: sorted_append)
  moreover have "since None xs = Some t" using t since_kept[OF d(2), of t] xs(1) by simp
  ultimately show ?thesis using d(3) xs(2,3) by (intro conjI exI[of _ t]) auto
qed

lemma sd_follow_prefix:
  assumes "list_all goes_on pre" and "limit \<le> 0 \<or> b + printed_bytes (shown (step_events pre)) \<le> limit"
    and "\<not> missing_for miss pre"
  shows "sd_follow limit b miss (pre @ rest) =
    (case sd_follow limit (if limit > 0 then b + printed_bytes (shown (step_events pre)) else b) (since miss pre) rest of
       (out, r) \<Rightarrow> (shown (step_events pre) @ out, r))"
  using assms
proof (induction pre arbitrary: b miss)
  case (Cons st pre)
  show ?case
  proof (cases st)
    case (GotEvent x)
    then have x: "ev_field x FieldEvent \<noteq> EventExited" using Cons.prems(1) by (simp add: exits_def)
    have m: "\<not> missing_for miss pre" using Cons.prems(3) missing_for_keep[of miss pre st] GotEvent by auto
    consider "limit \<le> 0" | "0 < limit" "\<not> is_output x" | "0 < limit" "is_output x" by linarith
    then show ?thesis
    proof cases
      case 3
      let ?b = "b + (int (length (ev_Message x)) + 1)"
      have "?b + printed_bytes (shown (step_events pre)) \<le> limit" using Cons.prems(2) 3 GotEvent by simp
      moreover have "?b \<le> limit" using calculation printed_bytes_nonneg[of "shown (step_events pre)"] by linarith
      ultimately show ?thesis
        using Cons.IH[of ?b miss] Cons.prems(1) 3 x m GotEvent
        by (simp add: follow_event_def Let_def add.assoc split: prod.splits)
    qed (use Cons x m GotEvent in \<open>simp_all add: follow_event_def split: prod.splits\<close>)
  next
    case (CheckUnit live now)
    have prems: "list_all goes_on pre" "limit \<le> 0 \<or> b + printed_bytes (shown (step_events pre)) \<le> limit"
      using Cons.prems(1,2) CheckUnit by simp_all
    consider "live = None \<or> live = Some True" | "live = Some False" "miss = None"
      | t where "live = Some False" "miss = Some t" by (cases live; cases miss) auto
    then show ?thesis
    proof cases
      case 1
      then have "\<not> missing_for None pre" using Cons.prems(3) missing_for_none by blast
      from Cons.IH[OF prems this] show ?thesis using 1 CheckUnit by auto
    next
      case 2
      then have "\<not> missing_for (Some now) pre" using Cons.prems(3) missing_for_first CheckUnit by blast
      from Cons.IH[OF prems this] show ?thesis using 2 CheckUnit by simp
    next
      case 3
      then have "\<not> missing_for miss pre" using Cons.prems(3) missing_for_keep[of miss pre st] CheckUnit by auto
      moreover have "\<not> now - t \<ge> disappearanceGrace" using Cons.prems(3) 3 missing_for_now CheckUnit by blast
      ultimately show ?thesis using Cons.IH[OF prems, of miss] 3 CheckUnit by simp
    qed
  qed (use Cons.prems(1) in simp_all)
qed simp

lemma FollowSession_systemd_ends:
  assumes "list_all goes_on pre" and "in_limit limit (step_events pre)" and "\<not> missing_for None pre"
  shows "FollowSession_systemd limit pre = (shown (step_events pre), None)"
    and "exits x \<Longrightarrow>
      FollowSession_systemd limit (pre @ GotEvent x # post) = (shown (step_events pre), Some (exit_code x, FollowCompleted))"
    and "\<not> exits x \<Longrightarrow> \<not> in_limit limit (step_events pre @ [x]) \<Longrightarrow>
      FollowSession_systemd limit (pre @ GotEvent x # post) =
        (shown (step_events pre) @ [ev_Message x], Some (0, FollowOutputLimit))"
    and "missing_for None (pre @ [CheckUnit live now]) \<Longrightarrow> sorted (check_times (pre @ [CheckUnit live now])) \<Longrightarrow>
      FollowSession_systemd limit (pre @ CheckUnit live now # post) = (shown (step_events pre), Some (0, FollowKilled))"
    and "st \<in> {EventsClosed d, SessionLog.CtxDone d} \<Longrightarrow>
      FollowSession_systemd limit (pre @ st # post) = (shown (step_events pre), Some (ctx_result d))"
proof -
  have w: "limit \<le> 0 \<or> printed_bytes (shown (step_events pre)) \<le> limit" using assms(2) by (simp add: in_limit_def)
  note p = sd_follow_prefix[OF assms(1) _ assms(3), of limit 0, unfolded add_0, OF w, folded FollowSession_systemd_def]
  show "FollowSession_systemd limit pre = (shown (step_events pre), None)" using p[of "[]"] by simp
  show "FollowSession_systemd limit (pre @ GotEvent x # post) = (shown (step_events pre), Some (exit_code x, FollowCompleted))"
    if "exits x" using p[of "GotEvent x # post"] that by (simp add: follow_event_def exits_def)
  show "FollowSession_systemd limit (pre @ GotEvent x # post) =
      (shown (step_events pre) @ [ev_Message x], Some (0, FollowOutputLimit))"
    if "\<not> exits x" "\<not> in_limit limit (step_events pre @ [x])"
  proof -
    have "is_output x" "limit > 0" "printed_bytes (shown (step_events pre)) + (int (length (ev_Message x)) + 1) > limit"
      using that(2) w by (auto simp: in_limit_def shown_def split: if_splits)
    then show ?thesis using p[of "GotEvent x # post"] that(1) by (simp add: follow_event_def exits_def Let_def)
  qed
  show "FollowSession_systemd limit (pre @ CheckUnit live now # post) = (shown (step_events pre), Some (0, FollowKilled))"
    if "missing_for None (pre @ [CheckUnit live now])" "sorted (check_times (pre @ [CheckUnit live now]))"
    using p[of "CheckUnit live now # post"] missing_since[OF that(1) assms(3) that(2)] by auto
  show "FollowSession_systemd limit (pre @ st # post) = (shown (step_events pre), Some (ctx_result d))"
    if "st \<in> {EventsClosed d, SessionLog.CtxDone d}" using p[of "st # post"] that by auto
qed

section \<open>The status of a run\<close>

text \<open>The events among what was met, what does not end the following, and when the session counts as gone.\<close>

definition arrived :: "'s moment list \<Rightarrow> event_record list" where
  "arrived ms = concat (map (\<lambda>m. case m of Arrived e \<Rightarrow> [e] | _ \<Rightarrow> []) ms)"

definition ticks :: "'s moment list \<Rightarrow> int list" where
  "ticks ms = concat (map (\<lambda>m. case m of Tick _ now \<Rightarrow> [now] | _ \<Rightarrow> []) ms)"

definition undecided :: "'s moment \<Rightarrow> bool" where
  "undecided m = (case m of Arrived e \<Rightarrow> \<not> exits e | Tick _ _ \<Rightarrow> True | _ \<Rightarrow> False)"

definition unlisted :: "('s, 'l) systemd_env \<Rightarrow> string \<Rightarrow> 's moment \<Rightarrow> bool" where
  "unlisted sy sid m = (case m of Tick s _ \<Rightarrow> sy_sessionIsLive sy s sid = Inr False | _ \<Rightarrow> True)"

text \<open>At two ticks half a second apart, and at those in between, systemd answered and did not list the session.\<close>

definition gone :: "('s, 'l) systemd_env \<Rightarrow> string \<Rightarrow> 's moment list \<Rightarrow> bool" where
  "gone sy sid ms \<longleftrightarrow> (\<exists>before s1 t1 mid s2 t2 after. ms = before @ Tick s1 t1 # mid @ Tick s2 t2 # after \<and>
     list_all (unlisted sy sid) (Tick s1 t1 # mid @ [Tick s2 t2]) \<and> t2 - t1 \<ge> 500000000)"

lemma arrived_steps [simp]: "step_events (map (step_of sy sid) ms) = arrived ms"
  by (induction ms) (simp_all add: arrived_def step_of_def split: moment.split)

lemma ticks_steps [simp]: "check_times (map (step_of sy sid) ms) = ticks ms"
  by (induction ms) (simp_all add: ticks_def step_of_def split: moment.split)

lemma undecided_steps [simp]: "list_all goes_on (map (step_of sy sid) ms) = list_all undecided ms"
  by (induction ms) (simp_all add: undecided_def step_of_def split: moment.split)

lemma unlisted_steps [simp]: "all_missing (map (step_of sy sid) ms) = list_all (unlisted sy sid) ms"
  by (induction ms) (simp_all add: unlisted_def step_of_def split: moment.split sum.split)

lemma step_of_missing: "step_of sy sid m = CheckUnit (Some False) t \<longleftrightarrow> (\<exists>s. m = Tick s t \<and> unlisted sy sid m)"
  by (auto simp: step_of_def unlisted_def split: moment.split sum.split)

lemma gone_steps: "missing_for None (map (step_of sy sid) ms) = gone sy sid ms"
proof
  assume "missing_for None (map (step_of sy sid) ms)"
  then obtain before t1 mid t2 after where d: "map (step_of sy sid) ms =
      before @ CheckUnit (Some False) t1 # mid @ CheckUnit (Some False) t2 # after"
    "all_missing mid" "t2 - t1 \<ge> disappearanceGrace" unfolding missing_for_def by blast
  obtain b r where r: "ms = b @ r" "map (step_of sy sid) r = CheckUnit (Some False) t1 # mid @ CheckUnit (Some False) t2 # after"
    using d(1) by (auto simp: map_eq_append_conv)
  obtain m1 m m2 a where m: "r = m1 # m @ m2 # a" "step_of sy sid m1 = CheckUnit (Some False) t1"
    "map (step_of sy sid) m = mid" "step_of sy sid m2 = CheckUnit (Some False) t2"
    using r(2) by (auto simp: map_eq_append_conv map_eq_Cons_conv)
  have "list_all (unlisted sy sid) m" using d(2) m(3) by (metis unlisted_steps)
  then show "gone sy sid ms"
    using r(1) m d(3) unfolding gone_def step_of_missing disappearanceGrace_def by (fastforce)
next
  assume "gone sy sid ms"
  then obtain before s1 t1 mid s2 t2 after where d: "ms = before @ Tick s1 t1 # mid @ Tick s2 t2 # after"
    "list_all (unlisted sy sid) (Tick s1 t1 # mid @ [Tick s2 t2])" "t2 - t1 \<ge> 500000000" unfolding gone_def by blast
  have "step_of sy sid (Tick s1 t1) = CheckUnit (Some False) t1" "step_of sy sid (Tick s2 t2) = CheckUnit (Some False) t2"
    using d(2) by (simp_all add: step_of_missing)
  moreover have "all_missing (map (step_of sy sid) mid)" using d(2) by simp
  ultimately show "missing_for None (map (step_of sy sid) ms)"
    using d(1,3) unfolding missing_for_def disappearanceGrace_def
    by (intro disjI2 exI[of _ "map (step_of sy sid) before"] exI[of _ t1] exI[of _ "map (step_of sy sid) mid"] exI[of _ t2]
        exI[of _ "map (step_of sy sid) after"]) simp
qed

text \<open>What a run over systemd comes to when following the session ends, or does not.\<close>

lemma systemd_run_followed:
  assumes "initBackend mc (fl_backend fl) = (Inr (systemd_backend_of sy poll emit), e)"
    and "run_options mc e fl (fl_tty fl) (fl_rows fl) (fl_cols fl) = Inr opts"
    and "sy_StartSession sy command opts w = (Inr sid, w1)"
    and "sy_moments sy sid d False w1 = (ms, w2)" and "d \<noteq> 0" and "\<not> mw_interrupt mw"
  shows "FollowSession_systemd limit (map (step_of sy sid) ms) = (out, Some res) \<Longrightarrow>
      \<exists>r t. cmdRun mc fl command d limit mw w = Some r \<and> oc_world r = w2 \<and> oc_out r = lines_text out \<and>
        oc_status r = end_status res \<and>
        (snd res = FollowKilled \<longrightarrow> oc_err r = t @ println (''swash: session '' @ sid @ '' was killed''))"
    and "FollowSession_systemd limit (map (step_of sy sid) ms) = (out, None) \<Longrightarrow> cmdRun mc fl command d limit mw w = None"
proof -
  let ?bk = "systemd_backend_of sy poll emit" and ?steps = "map (step_of sy sid)"
  have st: "bk_StartSession ?bk command opts w = (Inr sid, w1)" using assms(3) by (simp add: systemd_backend_of_def)
  have r: "cmdRun mc fl command d limit mw w = waitSession mc (rf_stats (fl_resources fl)) ?bk sid d limit True mw w1"
    using assms(5) by (simp add: assms(1,2) cmdRun_def with_backend_wait_def st)
  have fo: "bk_FollowSession ?bk sid d limit False w1 =
      (case FollowSession_systemd limit (?steps ms) of (out, None) \<Rightarrow> None | (out, Some r) \<Rightarrow> Some ((out, r), w2))"
    using assms(4) by (simp add: systemd_backend_of_def sy_FollowSession_def)
  show "FollowSession_systemd limit (map (step_of sy sid) ms) = (out, Some res) \<Longrightarrow>
      \<exists>r t. cmdRun mc fl command d limit mw w = Some r \<and> oc_world r = w2 \<and> oc_out r = lines_text out \<and>
        oc_status r = end_status res \<and>
        (snd res = FollowKilled \<longrightarrow> oc_err r = t @ println (''swash: session '' @ sid @ '' was killed''))"
    using waited[of ?bk sid d limit w1 out res w2 mw mc "rf_stats (fl_resources fl)"] fo assms(6) r by auto
  show "FollowSession_systemd limit (map (step_of sy sid) ms) = (out, None) \<Longrightarrow> cmdRun mc fl command d limit mw w = None"
    using fo r assms(6) by (simp add: waitSession_def kill_on_interrupt_def Let_def)
qed

text \<open>
  C21. \<open>swash run\<close> over systemd goes on as long as no exit is recorded, the output stays within the
  limit, the context goes on and the unit has not been missing for half a second; whichever of these
  comes first decides. It has then printed the output so far, and exits with the code recorded, with
  124, with 124 or 130, or with 137 and the message that the session was killed. So an exit that is
  recorded less than half a second after the unit has gone still counts; a check that fails starts
  the wait anew.
\<close>

theorem systemd_run_status:
  assumes "initBackend mc (fl_backend fl) = (Inr (systemd_backend_of sy poll emit), e)"
    and "run_options mc e fl (fl_tty fl) (fl_rows fl) (fl_cols fl) = Inr opts"
    and "sy_StartSession sy command opts w = (Inr sid, w1)"
    and "sy_moments sy sid d False w1 = (pre @ rest, w2)" and "d \<noteq> 0" and "\<not> mw_interrupt mw"
    and "list_all undecided pre" and "in_limit limit (arrived pre)" and "\<not> gone sy sid pre" and "sorted (ticks (pre @ rest))"
  shows "(rest = [] \<longrightarrow> cmdRun mc fl command d limit mw w = None) \<and>
    (\<forall>m post. rest = m # post \<longrightarrow>
      (\<forall>x code tags. m = Arrived x \<longrightarrow> ev_Fields x = exited_fields sid code command tags \<longrightarrow>
        - (2 ^ 63) \<le> code \<longrightarrow> code < 2 ^ 63 \<longrightarrow>
        (\<exists>r. cmdRun mc fl command d limit mw w = Some r \<and> oc_world r = w2 \<and>
          oc_out r = lines_text (shown (arrived pre)) \<and> oc_status r = code)) \<and>
      (\<forall>x. m = Arrived x \<longrightarrow> ev_field x FieldEvent \<noteq> EventExited \<longrightarrow> \<not> in_limit limit (arrived pre @ [x]) \<longrightarrow>
        (\<exists>r. cmdRun mc fl command d limit mw w = Some r \<and> oc_world r = w2 \<and>
          oc_out r = lines_text (shown (arrived pre) @ [ev_Message x]) \<and> oc_status r = 124)) \<and>
      (\<forall>s now. m = Tick s now \<longrightarrow> gone sy sid (pre @ [m]) \<longrightarrow>
        (\<exists>r t. cmdRun mc fl command d limit mw w = Some r \<and> oc_world r = w2 \<and>
          oc_out r = lines_text (shown (arrived pre)) \<and> oc_status r = 137 \<and>
          oc_err r = t @ println (''swash: session '' @ sid @ '' was killed''))) \<and>
      (\<forall>deadline. m \<in> {Done deadline, LogEnded deadline} \<longrightarrow>
        (\<exists>r. cmdRun mc fl command d limit mw w = Some r \<and> oc_world r = w2 \<and>
          oc_out r = lines_text (shown (arrived pre)) \<and> oc_status r = (if deadline then 124 else 130))))"
proof -
  let ?steps = "map (step_of sy sid)"
  note ends = systemd_run_followed[OF assms(1-6), of limit, unfolded map_append]
  have c: "list_all goes_on (?steps pre)" "in_limit limit (step_events (?steps pre))" "\<not> missing_for None (?steps pre)"
    using assms(7-9) by (simp_all add: gone_steps)
  note f = FollowSession_systemd_ends[OF c, unfolded arrived_steps]
  show ?thesis
  proof (intro conjI allI impI)
    assume "rest = []"
    then show "cmdRun mc fl command d limit mw w = None"
      using ends(2) f(1) by simp
  next
    fix m post x code tags
    assume m: "rest = m # post" "m = Arrived x" and x: "ev_Fields x = exited_fields sid code command tags"
      and c: "- (2 ^ 63) \<le> code" "code < 2 ^ 63"
    note exited_record[OF x c]
    then show "\<exists>r. cmdRun mc fl command d limit mw w = Some r \<and> oc_world r = w2 \<and>
        oc_out r = lines_text (shown (arrived pre)) \<and> oc_status r = code"
      using ends(1)[of "shown (arrived pre)" "(code, FollowCompleted)"] f(2)[of x "?steps post"] m
      by (auto simp: step_of_def end_status_def)
  next
    fix m post x
    assume m: "rest = m # post" "m = Arrived x" and x: "ev_field x FieldEvent \<noteq> EventExited" "\<not> in_limit limit (arrived pre @ [x])"
    then show "\<exists>r. cmdRun mc fl command d limit mw w = Some r \<and> oc_world r = w2 \<and>
        oc_out r = lines_text (shown (arrived pre) @ [ev_Message x]) \<and> oc_status r = 124"
      using ends(1)[of "shown (arrived pre) @ [ev_Message x]" "(0, FollowOutputLimit)"] f(3)[of x "?steps post"]
      by (auto simp: step_of_def end_status_def exits_def)
  next
    fix m post s now
    assume m: "rest = m # post" "m = Tick s now" and g: "gone sy sid (pre @ [m])"
    obtain live where l: "step_of sy sid m = CheckUnit live now" using m(2) by (simp add: step_of_def)
    have g: "missing_for None (?steps pre @ [CheckUnit live now])" using gone_steps[of sy sid "pre @ [m]"] g l by simp
    have s: "sorted (check_times (?steps pre @ [CheckUnit live now]))"
      using assms(10) m by (simp add: ticks_def sorted_append)
    show "\<exists>r t. cmdRun mc fl command d limit mw w = Some r \<and> oc_world r = w2 \<and>
        oc_out r = lines_text (shown (arrived pre)) \<and> oc_status r = 137 \<and>
        oc_err r = t @ println (''swash: session '' @ sid @ '' was killed'')"
      using ends(1)[of "shown (arrived pre)" "(0, FollowKilled)"] f(4)[OF g s, of "?steps post"] m(1) l
      by (auto simp: end_status_def)
  next
    fix m post deadline
    assume m: "rest = m # post" "m \<in> {Done deadline, LogEnded deadline}"
    then have "step_of sy sid m \<in> {EventsClosed deadline, SessionLog.CtxDone deadline}" by (auto simp: step_of_def)
    from f(5)[OF this, of "?steps post"]
    show "\<exists>r. cmdRun mc fl command d limit mw w = Some r \<and> oc_world r = w2 \<and>
        oc_out r = lines_text (shown (arrived pre)) \<and> oc_status r = (if deadline then 124 else 130)"
      using ends(1)[of "shown (arrived pre)" "ctx_result deadline"] m(1) by (auto simp: ctx_result_def end_status_def)
  qed
qed

text \<open>
  The unit of a session is found missing at two checks, 400 ms apart, before its exit with 7 is read.
\<close>

definition sample_systemd :: "'s moment list \<Rightarrow> ('s, 'l) systemd_env" where
  "sample_systemd ms = \<lparr>sy_environ = [], sy_env = Map.empty, sy_cwd = ''/'', sy_hostCommand = [''swash'', ''host''],
     sy_rand = [0, 0, 0, 0, 0, 0], sy_numCPU = 4, sy_meminfo = None, sy_oor = (\<lambda>_. 0), sy_vars = [],
     sy_by_patterns = (\<lambda>_ _ _. Inr []), sy_unit_props = (\<lambda>_ _. Inl []), sy_service_props = (\<lambda>_ _. Inl []),
     sy_stop = (\<lambda>_ _ s. (Inr (Some ''done''), s)), sy_kill = (\<lambda>_ _ s. (None, s)), sy_set_props = (\<lambda>_ _ s. (None, s)),
     sy_start = (\<lambda>_ _ _ s. (Inr (Some ''done''), s)), sy_connect = (\<lambda>_ _. Inl []), sy_connect_tty = (\<lambda>_ _. Inl []),
     sy_moments = (\<lambda>_ _ _ w. (ms, w)), sy_follow_events = (\<lambda>_ _ _. []), sy_error = (\<lambda>_. []), sy_log_error = (\<lambda>_. []),
     sy_time = (\<lambda>_. []), sy_format = (\<lambda>_. []), sy_order = []\<rparr>"

definition sample_pre :: "unit moment list" where
  "sample_pre = [Arrived (sample_event ''hi'' [''FD'' \<mapsto> ''1'']), Tick () 0, Tick () 400000000]"

definition sample_exit :: event_record where
  "sample_exit = sample_event ''exit'' (exited_fields (GenID [0, 0, 0, 0, 0, 0]) 7 [''true''] Map.empty)"

theorem systemd_run_status_witness:
  "\<exists>r :: (unit \<times> unit) outcome. Some r = cmdRun
      (sample_machine (systemd_backend_of (sample_systemd (sample_pre @ [Arrived sample_exit]))
        (\<lambda>_ _ _. Inl Timeout) (\<lambda>_ _ w. (Inl Timeout, w))) sample_emit sample_query)
      sample_flags [''true''] 3000000000 1920 calm_wait ((), ()) \<and>
    oc_out r = ''hi'' @ [CHR 0x0A] \<and> oc_status r = 7"
proof -
  let ?sy = "sample_systemd (sample_pre @ [Arrived sample_exit]) :: (unit, unit) systemd_env"
  let ?bk = "systemd_backend_of ?sy (\<lambda>_ _ _. Inl Timeout) (\<lambda>_ _ w. (Inl Timeout, w))"
  let ?mc = "sample_machine ?bk sample_emit sample_query"
  let ?mw = "calm_wait :: (unit \<times> unit) meanwhile"
  let ?sid = "GenID [0, 0, 0, 0, 0, 0]"
  obtain e where e: "initBackend ?mc (fl_backend sample_flags) = (Inr ?bk, e)"
    using sample_opened[of ?bk sample_emit sample_query] by (auto simp: sample_flags_def)
  obtain opts where o: "run_options ?mc e sample_flags (fl_tty sample_flags) (fl_rows sample_flags) (fl_cols sample_flags) = Inr opts"
    by (simp add: run_options_def sessionLimits_def sample_flags_def)
  have s: "sy_StartSession ?sy [''true''] opts ((), ()) = (Inr ?sid, ((), ()))"
    by (simp add: sy_StartSession_def systemd_StartSession_def PM_Start_def sy_StartTransient_def StartTransient_def
        job_result_def sample_systemd_def err_of_def Let_def split: prod.splits)
  have m: "sy_moments ?sy ?sid 3000000000 False ((), ()) = (sample_pre @ [Arrived sample_exit], ((), ()))"
    by (simp add: sample_systemd_def)
  have i: "\<not> mw_interrupt ?mw" by (simp add: calm_wait_def)
  have u: "list_all undecided sample_pre"
    by (simp add: sample_pre_def undecided_def exits_def sample_event_def ev_field_def field_names)
  have n: "shown (arrived sample_pre) = [''hi'']"
    by (simp add: sample_pre_def arrived_def is_output_def sample_event_def ev_field_def)
  have lim: "in_limit 1920 (arrived sample_pre)" by (simp add: in_limit_def n)
  have g: "\<not> gone ?sy ?sid sample_pre"
  proof
    assume "gone ?sy ?sid sample_pre"
    then obtain before s1 t1 mid s2 t2 after where d: "sample_pre = before @ Tick s1 t1 # mid @ Tick s2 t2 # after"
      "t2 - t1 \<ge> 500000000" unfolding gone_def by blast
    have "[0, 400000000] = ticks sample_pre" by (simp add: sample_pre_def ticks_def)
    also have "\<dots> = ticks before @ t1 # ticks mid @ t2 # ticks after" by (simp only: d(1)) (simp add: ticks_def)
    finally have "set (ticks before @ t1 # ticks mid @ t2 # ticks after) = {0, 400000000}" by (metis list.set(1,2))
    then have "{t1, t2} \<subseteq> {0, 400000000}" by (simp only: set_append list.set) blast
    then show False using d(2) by auto
  qed
  have t: "sorted (ticks (sample_pre @ [Arrived sample_exit]))" by (simp add: sample_pre_def ticks_def)
  have x: "ev_Fields sample_exit = exited_fields ?sid 7 [''true''] Map.empty" by (simp add: sample_exit_def sample_event_def)
  obtain r where "cmdRun ?mc sample_flags [''true''] 3000000000 1920 ?mw ((), ()) = Some r"
    "oc_out r = lines_text (shown (arrived sample_pre)) \<and> oc_status r = 7"
    using systemd_run_status[OF e o s m _ i u lim g t, THEN conjunct2, rule_format, THEN conjunct1] x by fastforce
  then show ?thesis by (intro exI[of _ r]) (simp add: n lines_text_def println_def)
qed

end
