(* ===== verification/Openings.thy ===== *)
theory Openings
  imports SqliteLog DBusControl
begin

text \<open>
  What is opened, put together and given back around the other parts: the database of the portable log
  (\<open>OpenSQLite\<close> in \<open>internal/journal/sqlite.go\<close>), the combined log (\<open>combined.go\<close>), the control socket
  and the stream of an attached client (\<open>internal/host/unix_server.go\<close>), the two streams joined in
  \<open>internal/host/types.go\<close>, and the command looked up in \<open>login.go\<close>.
\<close>

section \<open>The database of the portable log\<close>

datatype open_stage = CreatingDir | CreatingFile | ClosingFile | SecuringFile | OpeningDb | InitializingDb

text \<open>
  The files with their permissions and the tables in them; a file without tables holds none.
  \<open>fails\<close>: which call of the system fails, with which error, if the stage is reached; \<open>busy\<close> what
  each attempt to create the tables meets.
\<close>

type_synonym sq_disk = "string \<Rightarrow> (nat \<times> sq_db) option"

definition owner_only :: nat where "owner_only = 6 * 8 * 8"

definition sqlite_pragmas :: "string list" where
  "sqlite_pragmas = [''busy_timeout(250)'', ''journal_mode(WAL)'', ''synchronous(FULL)'']"

text \<open>A statement that creates a table only where there is none leaves what is there.\<close>

definition create_tables :: "sq_fault \<Rightarrow> (sq_error, sq_db, unit) eff" where
  "create_tables fault = sq_exec fault AtBegin (\<lambda>db. db)"

definition sqlite_stages :: "(string \<Rightarrow> string list \<Rightarrow> string option) \<Rightarrow> (open_stage \<Rightarrow> string option) \<Rightarrow> string \<Rightarrow>
    sq_disk \<Rightarrow> (open_stage \<times> string) option \<times> sq_disk" where
  "sqlite_stages open_db fails path d =
     (case fails CreatingDir of
        Some e \<Rightarrow> (Some (CreatingDir, e), d)
      | None \<Rightarrow>
          (case fails CreatingFile of
             Some e \<Rightarrow> (Some (CreatingFile, e), d)
           | None \<Rightarrow>
               (let d = (if d path = None then d(path \<mapsto> (owner_only, empty_db)) else d) in
                case fails ClosingFile of
                  Some e \<Rightarrow> (Some (ClosingFile, e), d)
                | None \<Rightarrow>
                    (case fails SecuringFile of
                       Some e \<Rightarrow> (Some (SecuringFile, e), d)
                     | None \<Rightarrow>
                         (let d = d(path := map_option (\<lambda>(_, db). (owner_only, db)) (d path)) in
                          case open_db path sqlite_pragmas of
                            Some e \<Rightarrow> (Some (OpeningDb, e), d)
                          | None \<Rightarrow> (None, d))))))"

datatype sqlite_open = NotOpened open_stage string | NotInitialized sq_error

text \<open>\<open>None\<close>: the attempts to create the tables never end. After the stages the file is there (\<open>sqlite_stages_disk\<close>).\<close>

definition OpenSQLite ::
  "(string \<Rightarrow> string list \<Rightarrow> string option) \<Rightarrow> (open_stage \<Rightarrow> string option) \<Rightarrow> (nat \<Rightarrow> sq_fault) \<Rightarrow> string \<Rightarrow>
   sq_disk \<Rightarrow> ((sqlite_open + string) \<times> sq_disk) option" where
  "OpenSQLite open_db fails busy path d =
     (case sqlite_stages open_db fails path d of
        (Some (st, e), d) \<Rightarrow> Some (Inl (NotOpened st e), d)
      | (None, d) \<Rightarrow>
          (case d path of
             None \<Rightarrow> Some (Inl (NotOpened OpeningDb []), d)
           | Some (mode, db) \<Rightarrow>
               (case retrySQLiteBusy (\<lambda>n. create_tables (busy n)) 0 db of
                  None \<Rightarrow> None
                | Some (Inl e, db) \<Rightarrow> Some (Inl (NotInitialized e), d(path \<mapsto> (mode, db)))
                | Some (Inr _, db) \<Rightarrow> Some (Inr path, d(path \<mapsto> (mode, db))))))"

definition sqlite_contents :: "sq_disk \<Rightarrow> string \<Rightarrow> sq_db" where
  "sqlite_contents d path = (case d path of None \<Rightarrow> empty_db | Some (_, db) \<Rightarrow> db)"

lemma sqlite_stages_disk:
  assumes "sqlite_stages open_db fails path d = (r, d')"
  shows "(\<forall>p. p \<noteq> path \<longrightarrow> d' p = d p) \<and> sqlite_contents d' path = sqlite_contents d path \<and>
    (r = None \<longrightarrow> d' path = Some (owner_only, sqlite_contents d path))"
  using assms by (auto simp: sqlite_stages_def sqlite_contents_def Let_def split: option.splits if_splits)

text \<open>
  An opened log has lost nothing that was recorded, is empty if it is new, and only its owner can read
  it; whatever happens, no other file is touched and nothing recorded is lost.
\<close>

lemma opened_log:
  assumes "OpenSQLite open_db fails busy path d = Some (r, d')"
  shows "(\<forall>p. p \<noteq> path \<longrightarrow> d' p = d p) \<and> sqlite_contents d' path = sqlite_contents d path \<and>
    (\<forall>l. r = Inr l \<longrightarrow> l = path \<and> d' path = Some (owner_only, sqlite_contents d path))"
proof -
  obtain x d1 where s: "sqlite_stages open_db fails path d = (x, d1)" by fastforce
  note h = sqlite_stages_disk[OF s]
  show ?thesis
  proof (cases x)
    case None
    let ?op = "\<lambda>n. create_tables (busy n)"
    have a: "\<forall>n e db db'. ?op n db = (Inl e, db') \<longrightarrow> db' = db" "\<forall>n db. snd (?op n db) = db"
      by (auto simp: create_tables_def sq_exec_def split: option.splits)
    obtain y where y: "retrySQLiteBusy ?op 0 (sqlite_contents d path) = Some y"
      using assms s h None by (auto simp: OpenSQLite_def split: option.splits)
    have "snd y = sqlite_contents d path"
      using retry_returns[OF y] a unfolding first_free_def by blast
    with assms s h None y show ?thesis
      by (cases y) (auto simp: OpenSQLite_def sqlite_contents_def split: sum.splits)
  qed (use assms s h in \<open>auto simp: OpenSQLite_def\<close>)
qed

text \<open>Opening ends if the database is not busy for ever.\<close>

lemma opening_ends:
  assumes "\<not> busy_result (fst (create_tables (busy k) empty_db))"
  shows "OpenSQLite open_db fails busy path d \<noteq> None"
proof -
  let ?op = "\<lambda>n. create_tables (busy n)"
  have s: "snd (?op n db) = db" "fst (?op n db) = fst (?op n empty_db)" for n db
    by (auto simp: create_tables_def sq_exec_def split: option.splits)
  define j where "j = (LEAST n. \<not> busy_result (fst (?op n empty_db)))"
  have j: "\<not> busy_result (fst (?op j empty_db))" "\<And>i. i < j \<Longrightarrow> busy_result (fst (?op i empty_db))"
    unfolding j_def by (rule LeastI[of _ k], rule assms) (use not_less_Least in blast)
  have "retrySQLiteBusy ?op 0 db = Some (?op (0 + j) db)" for db
  proof (rule retry_finds)
    show "\<And>n e db'. ?op n db = (Inl e, db') \<Longrightarrow> db' = db" using s(1) by (metis snd_conv)
  qed (simp_all add: s(2)[of _ db] j)
  then show ?thesis by (auto simp: OpenSQLite_def split: prod.splits option.splits sum.splits)
qed

section \<open>The combined log\<close>

record ('snk, 'src) combined =
  cl_sink :: 'snk
  cl_source :: 'src

definition NewCombinedEventLog :: "'snk \<Rightarrow> 'src \<Rightarrow> ('snk, 'src) combined" where
  "NewCombinedEventLog snk src = \<lparr>cl_sink = snk, cl_source = src\<rparr>"

definition CombinedWrite ::
  "('snk \<Rightarrow> string \<Rightarrow> fieldmap \<Rightarrow> (log_error, 's, unit) eff) \<Rightarrow> ('snk, 'src) combined \<Rightarrow> string \<Rightarrow> fieldmap \<Rightarrow>
   (log_error, 's, unit) eff" where
  "CombinedWrite write c message fs = write (cl_sink c) message fs"

definition CombinedPoll ::
  "('src \<Rightarrow> event_filter list \<Rightarrow> string \<Rightarrow> 's \<Rightarrow> log_error + (event_record list \<times> string)) \<Rightarrow> ('snk, 'src) combined \<Rightarrow>
   event_filter list \<Rightarrow> string \<Rightarrow> 's \<Rightarrow> log_error + (event_record list \<times> string)" where
  "CombinedPoll poll c ms cursor = poll (cl_source c) ms cursor"

definition CombinedFollow ::
  "('src \<Rightarrow> event_filter list \<Rightarrow> string \<Rightarrow> 'e) \<Rightarrow> ('snk, 'src) combined \<Rightarrow> event_filter list \<Rightarrow> string \<Rightarrow> 'e" where
  "CombinedFollow follow c ms cursor = follow (cl_source c) ms cursor"

section \<open>The control socket and the stream of a client\<close>

datatype serve_error = NoSocketPath | SocketDir string | ListenFailed string

text \<open>
  The start of \<open>ServeUnix\<close>: \<open>socks\<close> are the sockets on the file system. What was at the path is
  removed, whether or not anyone listens there.
\<close>

definition ServeUnix_listen ::
  "(string \<Rightarrow> string option) \<Rightarrow> (string \<Rightarrow> string set \<Rightarrow> string option) \<Rightarrow> string \<Rightarrow> string set \<Rightarrow> (serve_error + string) \<times> string set" where
  "ServeUnix_listen mkdir listen socketPath socks =
     (if socketPath = [] then (Inl NoSocketPath, socks)
      else case mkdir socketPath of
        Some e \<Rightarrow> (Inl (SocketDir e), socks)
      | None \<Rightarrow>
          (let socks = socks - {socketPath} in
           case listen socketPath socks of
             Some e \<Rightarrow> (Inl (ListenFailed e), socks)
           | None \<Rightarrow> (Inr socketPath, insert socketPath socks)))"

definition UnixServer_Close :: "string option \<Rightarrow> string set \<Rightarrow> string set" where
  "UnixServer_Close server socks =
     (case server of None \<Rightarrow> socks | Some socketPath \<Rightarrow> if socketPath \<noteq> [] then socks - {socketPath} else socks)"

text \<open>
  After the handshake two goroutines copy, each until its side ends. Only the end of the client ends
  the attachment; the end of the output merely stops one of them.
\<close>

datatype stream_event = ClientSent string | ClientEnds | HostSent string | HostEnds

fun attach_stream :: "bool \<Rightarrow> stream_event list \<Rightarrow> string \<times> string \<times> bool" where
  "attach_stream flowing [] = ([], [], False)"
| "attach_stream flowing (ClientSent b # es) = (case attach_stream flowing es of (i, out, ended) \<Rightarrow> (b @ i, out, ended))"
| "attach_stream flowing (HostSent b # es) =
     (case attach_stream flowing es of (i, out, ended) \<Rightarrow> (i, (if flowing then b else []) @ out, ended))"
| "attach_stream flowing (HostEnds # es) = attach_stream False es"
| "attach_stream flowing (ClientEnds # es) = ([], [], True)"

text \<open>The host is given what the client sent before it ended, and the client what the host sent before either end.\<close>

lemma attach_stream_copies:
  assumes "attach_stream True es = (i, out, ended)"
  shows "i = concat (map (\<lambda>e. case e of ClientSent b \<Rightarrow> b | _ \<Rightarrow> []) (takeWhile (\<lambda>e. e \<noteq> ClientEnds) es)) \<and>
    out = concat (map (\<lambda>e. case e of HostSent b \<Rightarrow> b | _ \<Rightarrow> []) (takeWhile (\<lambda>e. e \<noteq> ClientEnds \<and> e \<noteq> HostEnds) es)) \<and>
    ended = (ClientEnds \<in> set es)"
proof -
  have "attach_stream fl es =
      (concat (map (\<lambda>e. case e of ClientSent b \<Rightarrow> b | _ \<Rightarrow> []) (takeWhile (\<lambda>e. e \<noteq> ClientEnds) es)),
       if fl then concat (map (\<lambda>e. case e of HostSent b \<Rightarrow> b | _ \<Rightarrow> []) (takeWhile (\<lambda>e. e \<noteq> ClientEnds \<and> e \<noteq> HostEnds) es)) else [],
       ClientEnds \<in> set es)" for fl
    by (induction fl es rule: attach_stream.induct) simp_all
  then show ?thesis using assms by simp
qed

text \<open>The streams joined by \<open>SplitConn\<close>: both are closed where they are there, the writing one first.\<close>

definition SplitConn_Close :: "(string option option \<times> string option option) option \<Rightarrow> string option" where
  "SplitConn_Close c =
     (case c of
        None \<Rightarrow> None
      | Some (r, w) \<Rightarrow>
          (let errW = (case w of None \<Rightarrow> None | Some e \<Rightarrow> e);
               errR = (case r of None \<Rightarrow> None | Some e \<Rightarrow> e)
           in if errW \<noteq> None then errW else errR))"

section \<open>Hosts\<close>

datatype lookup_error = ErrNotFound | LookupFailed string

definition resolveCommand :: "(string \<Rightarrow> string + string) \<Rightarrow> string list \<Rightarrow> lookup_error option" where
  "resolveCommand lookPath command =
     (case command of
        [] \<Rightarrow> Some ErrNotFound
      | name # _ \<Rightarrow> (case lookPath name of Inl e \<Rightarrow> Some (LookupFailed e) | Inr _ \<Rightarrow> None))"

text \<open>A terminal host runs on the bus as a plain one does.\<close>

definition tty_Run :: "string option \<Rightarrow> string option \<times> bool \<Rightarrow> 'r \<times> int option \<Rightarrow> string \<Rightarrow> 'r bus_run \<times> bus_signal list" where
  "tty_Run bus_err name task sessionID = DBusControl.Run bus_err name task sessionID"

end
