(* ===== verification/GoJsonValue.thy ===== *)
theory GoJsonValue
  imports GoJson
begin

text \<open>
  JSON values of any shape, as \<open>encoding/json\<close> writes and reads them: the text of a number is kept as
  it stands, the fields of an object in their order.
\<close>

datatype jval = VNull | VBool bool | VNum string | VStr string | VArr "jval list" | VObj "(string \<times> jval) list"

section \<open>Writing\<close>

fun json_write :: "jval \<Rightarrow> string" where
  "json_write VNull = ''null''"
| "json_write (VBool b) = (if b then ''true'' else ''false'')"
| "json_write (VNum t) = t"
| "json_write (VStr s) = json_quote s"
| "json_write (VArr vs) = CHR ''['' # go_join (map json_write vs) '','' @ [CHR '']'']"
| "json_write (VObj kvs) = CHR ''{'' # go_join (map (\<lambda>(k, v). json_quote k @ '':'' @ json_write v) kvs) '','' @ [CHR ''}'']"

text \<open>What of a value is left in its text: bytes that are not UTF-8 are replaced.\<close>

fun legible :: "jval \<Rightarrow> jval" where
  "legible (VStr s) = VStr (json_text s)"
| "legible (VArr vs) = VArr (map legible vs)"
| "legible (VObj kvs) = VObj (map (\<lambda>(k, v). (json_text k, legible v)) kvs)"
| "legible v = v"

section \<open>Reading\<close>

definition is_digit :: "byte \<Rightarrow> bool" where
  "is_digit c \<longleftrightarrow> (48 :: nat) \<le> of_char c \<and> of_char c \<le> (57 :: nat)"

definition number_char :: "byte \<Rightarrow> bool" where
  "number_char c \<longleftrightarrow> is_digit c \<or> c \<in> {CHR ''-'', CHR ''+'', CHR ''.'', CHR ''e'', CHR ''E''}"

text \<open>The grammar of a number: what is left after its digits, its fraction and its exponent.\<close>

definition drop_digits :: "string \<Rightarrow> string option" where
  "drop_digits s = (if s = [] \<or> \<not> is_digit (hd s) then None else Some (dropWhile is_digit s))"

definition drop_integer :: "string \<Rightarrow> string option" where
  "drop_integer s =
     (case s of
        c # r \<Rightarrow> if c = CHR ''0'' then Some r else drop_digits s
      | [] \<Rightarrow> None)"

definition drop_fraction :: "string \<Rightarrow> string option" where
  "drop_fraction s = (case s of c # r \<Rightarrow> if c = CHR ''.'' then drop_digits r else Some s | [] \<Rightarrow> Some [])"

definition drop_exponent :: "string \<Rightarrow> string option" where
  "drop_exponent s =
     (case s of
        c # r \<Rightarrow>
          if c = CHR ''e'' \<or> c = CHR ''E''
          then drop_digits (if r \<noteq> [] \<and> hd r \<in> {CHR ''+'', CHR ''-''} then tl r else r) else Some s
      | [] \<Rightarrow> Some [])"

definition valid_number :: "string \<Rightarrow> bool" where
  "valid_number t =
     (Option.bind (drop_integer (if t \<noteq> [] \<and> hd t = CHR ''-'' then tl t else t))
       (\<lambda>r. Option.bind (drop_fraction r) drop_exponent) = Some [] \<and> list_all number_char t)"

definition read_num :: "string \<Rightarrow> (jval \<times> string) option" where
  "read_num s =
     (let t = takeWhile number_char s in if valid_number t then Some (VNum t, dropWhile number_char s) else None)"

text \<open>A list of items up to a closing bracket, or none.\<close>

definition read_list :: "nat \<Rightarrow> (string \<Rightarrow> ('a \<times> string) option) \<Rightarrow> byte \<Rightarrow> string \<Rightarrow> ('a list \<times> string) option" where
  "read_list n item close s =
     (case skip_space s of
        [] \<Rightarrow> None
      | d # t \<Rightarrow> if d = close then Some ([], t) else read_items n item close s)"

definition read_member :: "(string \<Rightarrow> (jval \<times> string) option) \<Rightarrow> string \<Rightarrow> ((string \<times> jval) \<times> string) option" where
  "read_member item s =
     (case read_string s of
        None \<Rightarrow> None
      | Some (k, r) \<Rightarrow>
          (case cut_prefix (skip_space r) '':'' of
             None \<Rightarrow> None
           | Some q \<Rightarrow> map_option (\<lambda>(v, t). ((k, v), t)) (item (skip_space q))))"

text \<open>A value at the start of a text; the fuel bounds its depth and the lengths of its lists.\<close>

fun read_val :: "nat \<Rightarrow> string \<Rightarrow> (jval \<times> string) option" where
  "read_val 0 s = None"
| "read_val (Suc n) s =
     (case s of
        [] \<Rightarrow> None
      | c # q \<Rightarrow>
          if c = CHR 0x22 then map_option (\<lambda>(t, r). (VStr t, r)) (unquote q)
          else if c = CHR ''['' then map_option (\<lambda>(vs, r). (VArr vs, r)) (read_list (Suc n) (read_val n) (CHR '']'') q)
          else if c = CHR ''{'' then
            map_option (\<lambda>(kvs, r). (VObj kvs, r)) (read_list (Suc n) (read_member (read_val n)) (CHR ''}'') q)
          else if has_prefix s ''null'' then Some (VNull, drop 4 s)
          else if has_prefix s ''true'' then Some (VBool True, drop 4 s)
          else if has_prefix s ''false'' then Some (VBool False, drop 5 s)
          else read_num s)"

definition json_read :: "string \<Rightarrow> jval option" where
  "json_read s =
     (case read_val (Suc (length s)) (skip_space s) of
        None \<Rightarrow> None
      | Some (v, r) \<Rightarrow> if skip_space r = [] then Some v else None)"

declare read_val.simps [simp del]

section \<open>What is written is read\<close>

text \<open>What may follow a value without being taken for a part of it.\<close>

definition ends :: "string \<Rightarrow> bool" where
  "ends t \<longleftrightarrow> t = [] \<or> \<not> number_char (hd t)"

fun numbers_ok :: "jval \<Rightarrow> bool" where
  "numbers_ok (VNum t) = valid_number t"
| "numbers_ok (VArr vs) = list_all numbers_ok vs"
| "numbers_ok (VObj kvs) = list_all (\<lambda>(k, v). numbers_ok v) kvs"
| "numbers_ok _ = True"

lemma items_joined:
  assumes "\<And>x t. x \<in> set xs \<Longrightarrow> ends t \<Longrightarrow> item (enc x @ t) = Some (dec x, t)"
    and "\<And>x. x \<in> set xs \<Longrightarrow> \<exists>c q. enc x = c # q \<and> \<not> json_space c"
    and "close \<noteq> CHR '',''" and "\<not> json_space close" and "\<not> number_char close"
  shows "xs \<noteq> [] \<Longrightarrow> length xs \<le> n \<Longrightarrow>
    read_items n item close (go_join (map enc xs) '','' @ close # t) = Some (map dec xs, t)"
  using assms(1,2)
proof (induction xs arbitrary: n)
  case (Cons x xs)
  then obtain m where n: "n = Suc m" by (cases n) auto
  have sk: "skip_space (enc x @ q) = enc x @ q" for q
    using Cons.prems(4)[of x] by (auto simp: skip_nonspace)
  have x: "item (enc x @ t) = Some (dec x, t)" if "ends t" for t using Cons.prems(3)[of x t] that by simp
  show ?case
  proof (cases "xs = []")
    case True
    then show ?thesis using n x[of "close # t"] assms(3-5) by (simp add: sk skip_nonspace ends_def)
  next
    case False
    have c: "\<not> json_space (CHR '','')" "\<not> number_char (CHR '','')"
      by (simp_all add: json_space_def number_char_def is_digit_def)
    have "read_items m item close (go_join (map enc xs) '','' @ close # t) = Some (map dec xs, t)"
      using Cons.prems(2-4) n False by (intro Cons.IH) auto
    then show ?thesis
      using n False c assms(3) x[of "CHR '','' # go_join (map enc xs) '','' @ close # t"]
      by (simp add: go_join_Cons sk skip_nonspace ends_def)
  qed
qed simp

lemma list_joined:
  assumes "\<And>x t. x \<in> set xs \<Longrightarrow> ends t \<Longrightarrow> item (enc x @ t) = Some (dec x, t)"
    and "\<And>x. x \<in> set xs \<Longrightarrow> \<exists>c q. enc x = c # q \<and> \<not> json_space c \<and> c \<noteq> close"
    and "close \<noteq> CHR '',''" and "\<not> json_space close" and "\<not> number_char close" and "length xs \<le> n"
  shows "read_list n item close (go_join (map enc xs) '','' @ close # t) = Some (map dec xs, t)"
proof (cases xs)
  case Nil
  then show ?thesis using assms(4) by (simp add: read_list_def skip_nonspace)
next
  case (Cons x ys)
  obtain c q where c: "enc x = c # q" "\<not> json_space c" "c \<noteq> close" using assms(2)[of x] Cons by auto
  then obtain r where r: "go_join (map enc xs) '','' @ close # t = c # r"
    using Cons by (cases "ys = []") (auto simp: go_join_Cons)
  have i: "read_items n item close (go_join (map enc xs) '','' @ close # t) = Some (map dec xs, t)"
  proof (rule items_joined)
    show "\<exists>c q. enc x = c # q \<and> \<not> json_space c" if "x \<in> set xs" for x using assms(2)[OF that] by blast
  qed (use assms Cons in simp_all)
  show ?thesis using i c unfolding r by (simp add: read_list_def skip_nonspace)
qed

lemma valid_number_shape:
  assumes "valid_number t"
  shows "list_all number_char t" and "t \<noteq> []"
  using assms by (auto simp: valid_number_def drop_integer_def)

lemma number_kept: "list_all number_char t \<Longrightarrow> ends r \<Longrightarrow> takeWhile number_char (t @ r) = t \<and> dropWhile number_char (t @ r) = r"
  by (cases r) (simp_all add: takeWhile_append dropWhile_append list_all_iff ends_def)

lemma write_first:
  assumes "numbers_ok v"
  shows "\<exists>c q. json_write v = c # q \<and> \<not> json_space c \<and> c \<noteq> CHR '']'' \<and> c \<noteq> CHR ''}''"
proof (cases v)
  case (VNum t)
  then obtain c q where "t = c # q" "number_char c"
    using assms valid_number_shape[of t] by (cases t) auto
  then show ?thesis using VNum by (auto simp: number_char_def is_digit_def json_space_def)
qed (simp_all add: json_space_def json_quote_def)

lemma in_joined: "x \<in> set xs \<Longrightarrow> length (enc x) \<le> length (go_join (map enc xs) '','')"
proof (induction xs)
  case (Cons y ys)
  then show ?case by (cases "ys = []") (auto simp: go_join_Cons)
qed simp

lemma many_joined: "(\<And>x. x \<in> set xs \<Longrightarrow> enc x \<noteq> []) \<Longrightarrow> length xs \<le> length (go_join (map enc xs) '','')"
proof (induction xs)
  case (Cons x xs)
  then show ?case by (cases "xs = []") (auto simp: go_join_Cons Suc_le_eq)
qed simp

lemma read_member_written:
  assumes "item (json_write v @ t) = Some (w, t)" and "numbers_ok v"
  shows "read_member item ((json_quote k @ '':'' @ json_write v) @ t) = Some ((json_text k, w), t)"
proof -
  have "skip_space (json_write v @ t) = json_write v @ t" using write_first[OF assms(2)] by (auto simp: skip_nonspace)
  moreover have "cut_prefix (skip_space (CHR '':'' # json_write v @ t)) '':'' = Some (json_write v @ t)"
    by (simp add: skip_nonspace json_space_def cut_prefix_def has_prefix_def)
  ultimately show ?thesis using assms(1) by (simp add: read_member_def read_quoted)
qed

lemma read_written:
  "numbers_ok v \<Longrightarrow> ends t \<Longrightarrow> length (json_write v) \<le> n \<Longrightarrow> read_val n (json_write v @ t) = Some (legible v, t)"
proof (induction v arbitrary: n t)
  case VNull
  then show ?case by (cases n) (simp_all add: read_val.simps has_prefix_def)
next
  case (VBool b)
  then show ?case by (cases n; cases b) (simp_all add: read_val.simps has_prefix_def)
next
  case (VNum s)
  then have s: "list_all number_char s" "s \<noteq> []" "valid_number s" using valid_number_shape[of s] by simp_all
  obtain c q where c: "s = c # q" "number_char c" using s(1,2) by (cases s) auto
  obtain m where m: "n = Suc m" using VNum(3) c(1) by (cases n) auto
  have "c \<noteq> CHR 0x22" "c \<noteq> CHR ''[''" "c \<noteq> CHR ''{''" "c \<noteq> CHR ''n''" "c \<noteq> CHR ''t''" "c \<noteq> CHR ''f''"
    using c(2) by (auto simp: number_char_def is_digit_def)
  then show ?case
    using number_kept[OF s(1) VNum(2)] s(3) by (simp add: m read_val.simps has_prefix_def read_num_def c(1))
next
  case (VStr s)
  then show ?case by (cases n) (simp_all add: read_val.simps json_quote_def unquote_quoted)
next
  case (VArr vs)
  obtain m where m: "n = Suc m" using VArr.prems(3) by (cases n) auto
  let ?j = "go_join (map json_write vs) '',''"
  have l: "length ?j + 2 \<le> n" using VArr.prems(3) by simp
  have "read_list n (read_val m) (CHR '']'') (?j @ CHR '']'' # t) = Some (map legible vs, t)"
  proof (rule list_joined)
    show "read_val m (json_write x @ r) = Some (legible x, r)" if "x \<in> set vs" "ends r" for x r
      using VArr.IH[OF that(1) _ that(2)] VArr.prems(1) in_joined[of x vs json_write] that(1) l m by (auto simp: list_all_iff)
    show "\<exists>c q. json_write x = c # q \<and> \<not> json_space c \<and> c \<noteq> CHR '']''" if "x \<in> set vs" for x
      using write_first[of x] VArr.prems(1) that by (auto simp: list_all_iff)
    have "json_write x \<noteq> []" if "x \<in> set vs" for x
      using write_first[of x] VArr.prems(1) that by (auto simp: list_all_iff)
    then show "length vs \<le> n" using many_joined[of vs json_write] l by simp
  qed (simp_all add: json_space_def number_char_def is_digit_def)
  then show ?case by (simp add: m read_val.simps)
next
  case (VObj kvs)
  obtain m where m: "n = Suc m" using VObj.prems(3) by (cases n) auto
  let ?enc = "\<lambda>(k, v). json_quote k @ '':'' @ json_write v"
  let ?j = "go_join (map ?enc kvs) '',''"
  have l: "length ?j + 2 \<le> n" using VObj.prems(3) by simp
  have "read_list n (read_member (read_val m)) (CHR ''}'') (?j @ CHR ''}'' # t) = Some (map (\<lambda>(k, v). (json_text k, legible v)) kvs, t)"
  proof (rule list_joined)
    fix x r assume x: "x \<in> set kvs" "ends r"
    obtain k v where kv: "x = (k, v)" by fastforce
    have ok: "numbers_ok v" using VObj.prems(1) x(1) kv by (auto simp: list_all_iff)
    have "length (json_write v) \<le> m" using in_joined[of x kvs ?enc] x(1) kv l m by simp
    then have "read_val m (json_write v @ r) = Some (legible v, r)"
      using VObj.IH[of x v] x kv ok by simp
    from read_member_written[where item = "read_val m" and t = r and k = k, OF this ok]
    show "read_member (read_val m) ((case x of (k, v) \<Rightarrow> json_quote k @ '':'' @ json_write v) @ r) =
        Some ((case x of (k, v) \<Rightarrow> (json_text k, legible v)), r)" by (simp add: kv)
  next
    show "\<exists>c q. (case x of (k, v) \<Rightarrow> json_quote k @ '':'' @ json_write v) = c # q \<and> \<not> json_space c \<and> c \<noteq> CHR ''}''" for x
      by (cases x) (simp add: json_quote_def json_space_def)
    show "length kvs \<le> n" using many_joined[of kvs ?enc] l by (simp add: case_prod_beta json_quote_def)
  qed (simp_all add: json_space_def number_char_def is_digit_def)
  then show ?case by (simp add: m read_val.simps)
qed

text \<open>Reading what was written gives the value back, as far as its texts are UTF-8.\<close>

lemma read_write: "numbers_ok v \<Longrightarrow> json_read (json_write v) = Some (legible v)"
proof -
  assume v: "numbers_ok v"
  have "skip_space (json_write v) = json_write v" using write_first[OF v] by (auto simp: skip_nonspace)
  then show ?thesis using read_written[OF v, of "[]" "Suc (length (json_write v))"] by (simp add: json_read_def ends_def skip_space_def)
qed

end
