(* ===== verification/StatsJson.thy ===== *)
theory StatsJson
  imports StatsReport GoJsonValue
begin

text \<open>
  A sample as JSON: what \<open>json.Marshal\<close> makes of \<open>Stats\<close> (\<open>internal/host/stats.go\<close>) for the log and the
  control plane, and what \<open>json.Unmarshal\<close> makes of it for the command line. \<open>ft\<close> is the shortest text
  of a number, \<open>tt\<close> and \<open>td\<close> the text of a time and its reading.
\<close>

section \<open>Encoding\<close>

definition u64_num :: "u64 \<Rightarrow> jval" where "u64_num n = VNum (u64_text n)"
definition int_num :: "int \<Rightarrow> jval" where "int_num i = VNum (itoa i)"

definition f64_num :: "(rat \<Rightarrow> string) \<Rightarrow> f64 \<Rightarrow> jval" where
  "f64_num ft x = VNum (case x of Fin q \<Rightarrow> ft q | _ \<Rightarrow> [])"

definition member :: "string \<Rightarrow> jval \<Rightarrow> (string \<times> jval) list" where
  "member k v = [(k, v)]"

text \<open>\<open>omitempty\<close>.\<close>

definition omitempty :: "bool \<Rightarrow> string \<Rightarrow> jval \<Rightarrow> (string \<times> jval) list" where
  "omitempty zero k v = (if zero then [] else [(k, v)])"

definition proc_members :: "(rat \<Rightarrow> string) \<Rightarrow> proc_stats \<Rightarrow> (string \<times> jval) list" where
  "proc_members ft p =
     member ''pid'' (int_num (pr_PID p)) @ member ''comm'' (VStr (pr_Comm p)) @
     member ''cpu_percent'' (f64_num ft (pr_CPUPercent p))"

definition stats_members :: "(rat \<Rightarrow> string) \<Rightarrow> string \<Rightarrow> sampled_stats \<Rightarrow> (string \<times> jval) list" where
  "stats_members ft time s =
     member ''time'' (VStr time) @
     member ''elapsed'' (f64_num ft (sm_Elapsed s)) @
     member ''cpu_usec'' (u64_num (CPUUsec s)) @
     member ''cpu_percent'' (f64_num ft (CPUPercent s)) @
     omitempty (sm_CPULimit s = Fin 0) ''cpu_limit'' (f64_num ft (sm_CPULimit s)) @
     member ''mem_current'' (u64_num (MemCurrent s)) @
     omitempty (MemPeak s = 0) ''mem_peak'' (u64_num (MemPeak s)) @
     omitempty (MemMax s = 0) ''mem_max'' (u64_num (MemMax s)) @
     omitempty (Swap s = 0) ''swap'' (u64_num (Swap s)) @
     omitempty (SwapPeak s = 0) ''swap_peak'' (u64_num (SwapPeak s)) @
     omitempty (OOMKills s = 0) ''oom_kills'' (u64_num (OOMKills s)) @
     member ''procs'' (int_num (Procs s)) @
     member ''disk_read'' (u64_num (DiskRead s)) @
     member ''disk_write'' (u64_num (DiskWrite s)) @
     member ''disk_read_rate'' (f64_num ft (DiskReadRate s)) @
     member ''disk_write_rate'' (f64_num ft (DiskWriteRate s)) @
     member ''net_rx'' (u64_num (NetRx s)) @
     member ''net_tx'' (u64_num (NetTx s)) @
     member ''net_rx_rate'' (f64_num ft (NetRxRate s)) @
     member ''net_tx_rate'' (f64_num ft (NetTxRate s)) @
     member ''net_conns'' (int_num (NetConns s)) @
     omitempty (CPUPressure s = Fin 0) ''cpu_pressure'' (f64_num ft (CPUPressure s)) @
     omitempty (MemPressure s = Fin 0) ''mem_pressure'' (f64_num ft (MemPressure s)) @
     omitempty (IOPressure s = Fin 0) ''io_pressure'' (f64_num ft (IOPressure s)) @
     omitempty (Top s = []) ''top'' (VArr (map (\<lambda>p. VObj (proc_members ft p)) (Top s)))"

definition stats_floats :: "sampled_stats \<Rightarrow> f64 list" where
  "stats_floats s = [sm_Elapsed s, CPUPercent s, sm_CPULimit s, DiskReadRate s, DiskWriteRate s, NetRxRate s, NetTxRate s,
     CPUPressure s, MemPressure s, IOPressure s] @ map pr_CPUPercent (Top s)"

definition f64_finite :: "f64 \<Rightarrow> bool" where
  "f64_finite x = (case x of Fin _ \<Rightarrow> True | _ \<Rightarrow> False)"

text \<open>There is no JSON for a number that is not finite, nor for a time that has no text.\<close>

definition Marshal_stats :: "(rat \<Rightarrow> string) \<Rightarrow> (int \<Rightarrow> string option) \<Rightarrow> sampled_stats \<Rightarrow> string option" where
  "Marshal_stats ft tt s =
     (case tt (sm_Time s) of
        None \<Rightarrow> None
      | Some time \<Rightarrow>
          if list_all f64_finite (stats_floats s) then Some (json_write (VObj (stats_members ft time s))) else None)"

text \<open>\<open>statsJSON\<close>: the latest sample, taken now if there is none; a panic of the sampler is \<open>None\<close>.\<close>

definition statsJSON ::
  "(rat \<Rightarrow> string) \<Rightarrow> (int \<Rightarrow> string option) \<Rightarrow> proc_view \<Rightarrow> int \<Rightarrow> sampler \<Rightarrow> (string option \<times> sampler) option" where
  "statsJSON ft tt pv now s = map_option (\<lambda>(st, s). (Marshal_stats ft tt st, s)) (Latest pv now s)"

section \<open>Decoding\<close>

text \<open>A member that is \<open>null\<close> changes nothing; one of another type, or out of range, is an error.\<close>

definition into_num :: "(string \<Rightarrow> 'x option) \<Rightarrow> ('x \<Rightarrow> 'r \<Rightarrow> 'r) \<Rightarrow> jval \<Rightarrow> 'r \<Rightarrow> 'r option" where
  "into_num parse set_to v r =
     (case v of VNull \<Rightarrow> Some r | VNum t \<Rightarrow> map_option (\<lambda>x. set_to x r) (parse t) | _ \<Rightarrow> None)"

definition into_str :: "(string \<Rightarrow> 'x option) \<Rightarrow> ('x \<Rightarrow> 'r \<Rightarrow> 'r) \<Rightarrow> jval \<Rightarrow> 'r \<Rightarrow> 'r option" where
  "into_str parse set_to v r =
     (case v of VNull \<Rightarrow> Some r | VStr t \<Rightarrow> map_option (\<lambda>x. set_to x r) (parse t) | _ \<Rightarrow> None)"

definition into_u64 :: "(u64 \<Rightarrow> 'r \<Rightarrow> 'r) \<Rightarrow> jval \<Rightarrow> 'r \<Rightarrow> 'r option" where
  "into_u64 = into_num (\<lambda>t. map_option of_nat (parse_uint 64 t))"

definition into_int :: "(int \<Rightarrow> 'r \<Rightarrow> 'r) \<Rightarrow> jval \<Rightarrow> 'r \<Rightarrow> 'r option" where
  "into_int = into_num parse_int"

definition into_f64 :: "(f64 \<Rightarrow> 'r \<Rightarrow> 'r) \<Rightarrow> jval \<Rightarrow> 'r \<Rightarrow> 'r option" where
  "into_f64 = into_num ParseFloat"

text \<open>Names are matched whatever their case (of ASCII letters); unknown ones are skipped.\<close>

definition fold_byte :: "byte \<Rightarrow> byte" where
  "fold_byte c = (if (65 :: nat) \<le> of_char c \<and> of_char c \<le> (90 :: nat) then char_of (of_char c + 32 :: nat) else c)"

fun into_members :: "(string \<Rightarrow> (jval \<Rightarrow> 'r \<Rightarrow> 'r option) option) \<Rightarrow> (string \<times> jval) list \<Rightarrow> 'r \<Rightarrow> 'r option" where
  "into_members table [] r = Some r"
| "into_members table ((k, v) # kvs) r =
     (case table (map fold_byte k) of
        None \<Rightarrow> into_members table kvs r
      | Some into \<Rightarrow> (case into v r of None \<Rightarrow> None | Some r \<Rightarrow> into_members table kvs r))"

definition into_object :: "(string \<Rightarrow> (jval \<Rightarrow> 'r \<Rightarrow> 'r option) option) \<Rightarrow> jval \<Rightarrow> 'r \<Rightarrow> 'r option" where
  "into_object table v r = (case v of VNull \<Rightarrow> Some r | VObj kvs \<Rightarrow> into_members table kvs r | _ \<Rightarrow> None)"

definition proc_table :: "(string \<times> (jval \<Rightarrow> proc_stats \<Rightarrow> proc_stats option)) list" where
  "proc_table =
     [(''pid'', into_int (\<lambda>x p. p\<lparr>pr_PID := x\<rparr>)),
      (''comm'', into_str Some (\<lambda>x p. p\<lparr>pr_Comm := x\<rparr>)),
      (''cpu_percent'', into_f64 (\<lambda>x p. p\<lparr>pr_CPUPercent := x\<rparr>))]"

definition zero_proc :: proc_stats where
  "zero_proc = \<lparr>pr_PID = 0, pr_Comm = [], pr_CPUPercent = Fin 0\<rparr>"

fun into_procs :: "jval list \<Rightarrow> proc_stats list option" where
  "into_procs [] = Some []"
| "into_procs (v # vs) =
     (case into_object (map_of proc_table) v zero_proc of
        None \<Rightarrow> None
      | Some p \<Rightarrow> map_option ((#) p) (into_procs vs))"

definition into_top :: "jval \<Rightarrow> sampled_stats \<Rightarrow> sampled_stats option" where
  "into_top v s =
     (case v of
        VNull \<Rightarrow> Some (s\<lparr>Top := []\<rparr>)
      | VArr vs \<Rightarrow> map_option (\<lambda>ps. s\<lparr>Top := ps\<rparr>) (into_procs vs)
      | _ \<Rightarrow> None)"

definition stats_table :: "(string \<Rightarrow> int option) \<Rightarrow> (string \<times> (jval \<Rightarrow> sampled_stats \<Rightarrow> sampled_stats option)) list" where
  "stats_table td =
     [(''time'', into_str td (\<lambda>x s. s\<lparr>sm_Time := x\<rparr>)),
      (''elapsed'', into_f64 (\<lambda>x s. s\<lparr>sm_Elapsed := x\<rparr>)),
      (''cpu_usec'', into_u64 (\<lambda>x s. s\<lparr>CPUUsec := x\<rparr>)),
      (''cpu_percent'', into_f64 (\<lambda>x s. s\<lparr>CPUPercent := x\<rparr>)),
      (''cpu_limit'', into_f64 (\<lambda>x s. s\<lparr>sm_CPULimit := x\<rparr>)),
      (''mem_current'', into_u64 (\<lambda>x s. s\<lparr>MemCurrent := x\<rparr>)),
      (''mem_peak'', into_u64 (\<lambda>x s. s\<lparr>MemPeak := x\<rparr>)),
      (''mem_max'', into_u64 (\<lambda>x s. s\<lparr>MemMax := x\<rparr>)),
      (''swap'', into_u64 (\<lambda>x s. s\<lparr>Swap := x\<rparr>)),
      (''swap_peak'', into_u64 (\<lambda>x s. s\<lparr>SwapPeak := x\<rparr>)),
      (''oom_kills'', into_u64 (\<lambda>x s. s\<lparr>OOMKills := x\<rparr>)),
      (''procs'', into_int (\<lambda>x s. s\<lparr>Procs := x\<rparr>)),
      (''disk_read'', into_u64 (\<lambda>x s. s\<lparr>DiskRead := x\<rparr>)),
      (''disk_write'', into_u64 (\<lambda>x s. s\<lparr>DiskWrite := x\<rparr>)),
      (''disk_read_rate'', into_f64 (\<lambda>x s. s\<lparr>DiskReadRate := x\<rparr>)),
      (''disk_write_rate'', into_f64 (\<lambda>x s. s\<lparr>DiskWriteRate := x\<rparr>)),
      (''net_rx'', into_u64 (\<lambda>x s. s\<lparr>NetRx := x\<rparr>)),
      (''net_tx'', into_u64 (\<lambda>x s. s\<lparr>NetTx := x\<rparr>)),
      (''net_rx_rate'', into_f64 (\<lambda>x s. s\<lparr>NetRxRate := x\<rparr>)),
      (''net_tx_rate'', into_f64 (\<lambda>x s. s\<lparr>NetTxRate := x\<rparr>)),
      (''net_conns'', into_int (\<lambda>x s. s\<lparr>NetConns := x\<rparr>)),
      (''cpu_pressure'', into_f64 (\<lambda>x s. s\<lparr>CPUPressure := x\<rparr>)),
      (''mem_pressure'', into_f64 (\<lambda>x s. s\<lparr>MemPressure := x\<rparr>)),
      (''io_pressure'', into_f64 (\<lambda>x s. s\<lparr>IOPressure := x\<rparr>)),
      (''top'', into_top)]"

text \<open>The zero time is the first of January of the year 1; times are nanoseconds since 1970.\<close>

definition zero_stats :: sampled_stats where
  "zero_stats = stats.extend zeroStats \<lparr>sm_Time = -62135596800000000000, sm_Elapsed = Fin 0, sm_CPULimit = Fin 0\<rparr>"

definition Unmarshal_stats :: "(string \<Rightarrow> int option) \<Rightarrow> string \<Rightarrow> string \<Rightarrow> string + sampled_stats" where
  "Unmarshal_stats td bad text =
     (case Option.bind (json_read text) (\<lambda>v. into_object (map_of (stats_table td)) v zero_stats) of
        None \<Rightarrow> Inl bad
      | Some s \<Rightarrow> Inr s)"

section \<open>Numbers are read as they are written\<close>

lemma digit_char_is_digit: "d < 10 \<Longrightarrow> is_digit (digit_char d)"
  by (simp add: is_digit_def of_char_digit)

lemma format_uint_digits: "list_all is_digit (format_uint n)"
  using itoa_base_digits[of n] digit_char_is_digit by (auto simp: format_uint_def list_all_iff)

lemma format_uint_hd: "n \<noteq> 0 \<Longrightarrow> hd (format_uint n) \<noteq> CHR ''0''"
proof (induction "10 :: nat" n rule: itoa_base.induct)
  case (1 n)
  show ?case
  proof (cases "n < 10")
    case True
    then show ?thesis using digit_char_neq[of n "CHR ''0''"] of_char_digit[of n] 1(2)
      by (auto simp: format_uint_def itoa_base.simps)
  next
    case False
    then have "hd (itoa_base 10 (n div 10)) \<noteq> CHR ''0''" using 1(1) by (simp add: format_uint_def)
    then show ?thesis using False by (subst format_uint_def, subst itoa_base.simps) (simp add: hd_append)
  qed
qed

lemma drop_digits_all: "list_all is_digit s \<Longrightarrow> s \<noteq> [] \<Longrightarrow> drop_digits s = Some []"
  by (cases s) (simp_all add: drop_digits_def dropWhile_eq_Nil_conv list_all_iff)

lemma format_uint_0: "format_uint 0 = ''0''"
proof -
  have "of_char (digit_char 0) = (of_char (CHR ''0'') :: nat)" by (simp add: of_char_digit)
  then show ?thesis by (simp add: format_uint_def itoa_base.simps del: of_char_Char)
qed

lemma integer_format: "drop_integer (format_uint n) = Some []"
proof (cases "n = 0")
  case False
  then obtain c q where c: "format_uint n = c # q" "c \<noteq> CHR ''0''"
    using format_uint_hd[of n] by (cases "format_uint n") (auto simp: format_uint_def)
  then show ?thesis using drop_digits_all[OF format_uint_digits[of n]] by (simp add: drop_integer_def)
qed (simp add: format_uint_0 drop_integer_def)

lemma digits_number: "list_all is_digit s \<Longrightarrow> list_all number_char s"
  by (simp add: list_all_iff number_char_def)

lemma valid_format: "valid_number (format_uint n)"
proof -
  have "hd (format_uint n) \<noteq> CHR ''-''"
    using format_uint_digits[of n] by (cases "format_uint n") (auto simp: is_digit_def format_uint_def)
  then show ?thesis
    using integer_format[of n] digits_number[OF format_uint_digits[of n]]
    by (simp add: valid_number_def drop_fraction_def drop_exponent_def)
qed

lemma valid_itoa: "valid_number (itoa i)"
proof (cases "i < 0")
  case True
  then show ?thesis
    using integer_format[of "nat (- i)"] digits_number[OF format_uint_digits[of "nat (- i)"]]
    by (simp add: itoa_def valid_number_def drop_fraction_def drop_exponent_def number_char_def)
qed (simp add: itoa_def valid_format)

text \<open>The number \<open>q\<close> has a text that is one, and is read back; \<open>i\<close> fits into an \<open>int\<close>.\<close>

definition readable :: "(rat \<Rightarrow> string) \<Rightarrow> f64 \<Rightarrow> bool" where
  "readable ft x = (case x of Fin q \<Rightarrow> valid_number (ft q) \<and> ParseFloat (ft q) = Some (Fin q) | _ \<Rightarrow> False)"

definition int64 :: "int \<Rightarrow> bool" where
  "int64 i \<longleftrightarrow> - (2 ^ 63) \<le> i \<and> i < 2 ^ 63"

lemma u64_bound: "unat (n :: u64) < 2 ^ 64"
  using unsigned_less[of n, where ?'a = nat] by simp

lemma into_written:
  "into_u64 f (legible (u64_num n)) r = Some (f n r)"
  "int64 i \<Longrightarrow> into_int g (legible (int_num i)) r = Some (g i r)"
  "readable ft x \<Longrightarrow> into_f64 h (legible (f64_num ft x)) r = Some (h x r)"
  "p (json_text t) = Some y \<Longrightarrow> into_str p k (legible (VStr t)) r = Some (k y r)"
  using parse_uint_format[of "unat n" 64] u64_bound[of n] parse_int_itoa[of i]
  by (simp_all add: into_u64_def into_int_def into_f64_def into_num_def into_str_def u64_num_def int_num_def f64_num_def
      u64_text_def int64_def readable_def split: f64.splits)

section \<open>A sample is read back\<close>

definition clear :: "(string \<times> jval) list \<Rightarrow> (string \<times> jval) list" where
  "clear kvs = map (\<lambda>(k, v). (json_text k, legible v)) kvs"

definition plain_key :: "string \<Rightarrow> bool" where
  "plain_key k = list_all (\<lambda>c. of_char c < (128 :: nat) \<and> \<not> ((65 :: nat) \<le> of_char c \<and> of_char c \<le> (90 :: nat))) k"

lemma plain_keyD:
  assumes "plain_key k"
  shows "json_text k = k" and "map fold_byte k = k"
  using assms by (auto simp: plain_key_def list_all_iff fold_byte_def intro!: json_text_ok ascii_ok map_idI)

lemma into_members_append:
  "into_members t (clear (xs @ ys)) r = Option.bind (into_members t (clear xs) r) (into_members t (clear ys))"
  by (induction xs arbitrary: r) (auto simp: clear_def split: option.splits)

lemma into_member:
  assumes "plain_key k" and "t k = Some into"
  shows "into_members t (clear (member k v)) r = into (legible v) r"
    and "into_members t (clear (omitempty z k v)) r = (if z then Some r else into (legible v) r)"
  using assms by (simp_all add: clear_def member_def omitempty_def plain_keyD split: option.splits)

definition legible_proc :: "proc_stats \<Rightarrow> proc_stats" where
  "legible_proc p = p\<lparr>pr_Comm := json_text (pr_Comm p)\<rparr>"

definition legible_stats :: "sampled_stats \<Rightarrow> sampled_stats" where
  "legible_stats s = s\<lparr>Top := map legible_proc (Top s)\<rparr>"

lemma proc_keys: "plain_key ''pid''" "plain_key ''comm''" "plain_key ''cpu_percent''"
  by (simp_all add: plain_key_def)

lemma proc_read:
  assumes "int64 (pr_PID p)" and "readable ft (pr_CPUPercent p)"
  shows "into_object (map_of proc_table) (legible (VObj (proc_members ft p))) zero_proc = Some (legible_proc p)"
proof -
  have t: "map_of proc_table ''pid'' = Some (into_int (\<lambda>x p. p\<lparr>pr_PID := x\<rparr>))"
    "map_of proc_table ''comm'' = Some (into_str Some (\<lambda>x p. p\<lparr>pr_Comm := x\<rparr>))"
    "map_of proc_table ''cpu_percent'' = Some (into_f64 (\<lambda>x p. p\<lparr>pr_CPUPercent := x\<rparr>))"
    by (simp_all add: proc_table_def)
  have "into_members (map_of proc_table) (clear (proc_members ft p)) zero_proc = Some (legible_proc p)"
    unfolding proc_members_def
    by (simp only: into_members_append into_member[where t = "map_of proc_table", OF proc_keys(1) t(1)]
        into_member[where t = "map_of proc_table", OF proc_keys(2) t(2)]
        into_member[where t = "map_of proc_table", OF proc_keys(3) t(3)] into_written(2)[OF assms(1)] into_written(3)[OF assms(2)] into_written(4)[of Some, OF refl]
        Option.bind.bind_lunit) (simp add: legible_proc_def zero_proc_def)
  then show ?thesis by (simp add: into_object_def clear_def)
qed

lemma members:
  assumes "plain_key k"
  shows "into_members t (clear (member k v)) r = (case t k of None \<Rightarrow> Some r | Some into \<Rightarrow> into (legible v) r)"
    and "into_members t (clear (omitempty z k v)) r =
      (if z then Some r else case t k of None \<Rightarrow> Some r | Some into \<Rightarrow> into (legible v) r)"
  using assms by (simp_all add: clear_def member_def omitempty_def plain_keyD split: option.splits)

lemma u64_members:
  fixes x :: u64
  shows
  "into_members (map_of (stats_table td)) (clear (member ''cpu_usec'' (u64_num x))) r = Some (r\<lparr>CPUUsec := x\<rparr>)"
  "into_members (map_of (stats_table td)) (clear (member ''mem_current'' (u64_num x))) r = Some (r\<lparr>MemCurrent := x\<rparr>)"
  "into_members (map_of (stats_table td)) (clear (member ''disk_read'' (u64_num x))) r = Some (r\<lparr>DiskRead := x\<rparr>)"
  "into_members (map_of (stats_table td)) (clear (member ''disk_write'' (u64_num x))) r = Some (r\<lparr>DiskWrite := x\<rparr>)"
  "into_members (map_of (stats_table td)) (clear (member ''net_rx'' (u64_num x))) r = Some (r\<lparr>NetRx := x\<rparr>)"
  "into_members (map_of (stats_table td)) (clear (member ''net_tx'' (u64_num x))) r = Some (r\<lparr>NetTx := x\<rparr>)"
  "MemPeak r = 0 \<Longrightarrow> into_members (map_of (stats_table td)) (clear (omitempty (x = 0) ''mem_peak'' (u64_num x))) r = Some (r\<lparr>MemPeak := x\<rparr>)"
  "MemMax r = 0 \<Longrightarrow> into_members (map_of (stats_table td)) (clear (omitempty (x = 0) ''mem_max'' (u64_num x))) r = Some (r\<lparr>MemMax := x\<rparr>)"
  "Swap r = 0 \<Longrightarrow> into_members (map_of (stats_table td)) (clear (omitempty (x = 0) ''swap'' (u64_num x))) r = Some (r\<lparr>Swap := x\<rparr>)"
  "SwapPeak r = 0 \<Longrightarrow> into_members (map_of (stats_table td)) (clear (omitempty (x = 0) ''swap_peak'' (u64_num x))) r = Some (r\<lparr>SwapPeak := x\<rparr>)"
  "OOMKills r = 0 \<Longrightarrow> into_members (map_of (stats_table td)) (clear (omitempty (x = 0) ''oom_kills'' (u64_num x))) r = Some (r\<lparr>OOMKills := x\<rparr>)"
  by (simp_all add: members stats_table_def plain_key_def into_written)

lemma int_members:
  assumes "int64 x"
  shows
  "into_members (map_of (stats_table td)) (clear (member ''procs'' (int_num x))) r = Some (r\<lparr>Procs := x\<rparr>)"
  "into_members (map_of (stats_table td)) (clear (member ''net_conns'' (int_num x))) r = Some (r\<lparr>NetConns := x\<rparr>)"
  by (simp_all add: members stats_table_def plain_key_def into_written assms)

lemma f64_members:
  assumes "readable ft x"
  shows
  "into_members (map_of (stats_table td)) (clear (member ''elapsed'' (f64_num ft x))) r = Some (r\<lparr>sm_Elapsed := x\<rparr>)"
  "into_members (map_of (stats_table td)) (clear (member ''cpu_percent'' (f64_num ft x))) r = Some (r\<lparr>CPUPercent := x\<rparr>)"
  "into_members (map_of (stats_table td)) (clear (member ''disk_read_rate'' (f64_num ft x))) r = Some (r\<lparr>DiskReadRate := x\<rparr>)"
  "into_members (map_of (stats_table td)) (clear (member ''disk_write_rate'' (f64_num ft x))) r = Some (r\<lparr>DiskWriteRate := x\<rparr>)"
  "into_members (map_of (stats_table td)) (clear (member ''net_rx_rate'' (f64_num ft x))) r = Some (r\<lparr>NetRxRate := x\<rparr>)"
  "into_members (map_of (stats_table td)) (clear (member ''net_tx_rate'' (f64_num ft x))) r = Some (r\<lparr>NetTxRate := x\<rparr>)"
  "sm_CPULimit r = Fin 0 \<Longrightarrow> into_members (map_of (stats_table td)) (clear (omitempty (x = Fin 0) ''cpu_limit'' (f64_num ft x))) r = Some (r\<lparr>sm_CPULimit := x\<rparr>)"
  "CPUPressure r = Fin 0 \<Longrightarrow> into_members (map_of (stats_table td)) (clear (omitempty (x = Fin 0) ''cpu_pressure'' (f64_num ft x))) r = Some (r\<lparr>CPUPressure := x\<rparr>)"
  "MemPressure r = Fin 0 \<Longrightarrow> into_members (map_of (stats_table td)) (clear (omitempty (x = Fin 0) ''mem_pressure'' (f64_num ft x))) r = Some (r\<lparr>MemPressure := x\<rparr>)"
  "IOPressure r = Fin 0 \<Longrightarrow> into_members (map_of (stats_table td)) (clear (omitempty (x = Fin 0) ''io_pressure'' (f64_num ft x))) r = Some (r\<lparr>IOPressure := x\<rparr>)"
  using assms by (simp_all add: members stats_table_def plain_key_def into_written)

lemma time_member:
  assumes "td (json_text time) = Some x"
  shows "into_members (map_of (stats_table td)) (clear (member ''time'' (VStr time))) r = Some (r\<lparr>sm_Time := x\<rparr>)"
  using into_written(4)[of td, OF assms] by (simp add: members stats_table_def plain_key_def del: legible.simps)

lemma procs_read:
  assumes "list_all (\<lambda>p. int64 (pr_PID p) \<and> readable ft (pr_CPUPercent p)) ps"
  shows "into_procs (map (\<lambda>p. legible (VObj (proc_members ft p))) ps) = Some (map legible_proc ps)"
  using assms
proof (induction ps)
  case (Cons p ps)
  then show ?case using proc_read[of p ft] by (simp del: legible.simps)
qed simp

lemma top_member:
  assumes "list_all (\<lambda>p. int64 (pr_PID p) \<and> readable ft (pr_CPUPercent p)) ps" and "Top r = []"
  shows "into_members (map_of (stats_table td)) (clear (omitempty (ps = []) ''top'' (VArr (map (\<lambda>p. VObj (proc_members ft p)) ps)))) r =
    Some (r\<lparr>Top := map legible_proc ps\<rparr>)"
proof -
  have "map_of (stats_table td) ''top'' = Some into_top" by (simp add: stats_table_def)
  moreover have "plain_key ''top''" by (simp add: plain_key_def)
  ultimately show ?thesis using procs_read[OF assms(1)] assms(2) by (simp add: members into_top_def comp_def)
qed

text \<open>Numbers that fit, and texts of times and numbers that are read back.\<close>

definition sendable :: "(rat \<Rightarrow> string) \<Rightarrow> (int \<Rightarrow> string option) \<Rightarrow> (string \<Rightarrow> int option) \<Rightarrow> sampled_stats \<Rightarrow> bool" where
  "sendable ft tt td s \<longleftrightarrow> int64 (Procs s) \<and> int64 (NetConns s) \<and> list_all (\<lambda>p. int64 (pr_PID p)) (Top s) \<and>
     list_all (\<lambda>x. f64_finite x \<longrightarrow> readable ft x) (stats_floats s) \<and>
     (\<forall>time. tt (sm_Time s) = Some time \<longrightarrow> td (json_text time) = Some (sm_Time s))"

lemma stats_read:
  assumes "td (json_text time) = Some (sm_Time s)" and "int64 (Procs s)" and "int64 (NetConns s)"
    and "list_all (\<lambda>p. int64 (pr_PID p)) (Top s)" and "list_all (readable ft) (stats_floats s)"
  shows "into_members (map_of (stats_table td)) (clear (stats_members ft time s)) zero_stats = Some (legible_stats s)"
proof -
  have f: "readable ft (sm_Elapsed s)" "readable ft (CPUPercent s)" "readable ft (sm_CPULimit s)" "readable ft (DiskReadRate s)"
    "readable ft (DiskWriteRate s)" "readable ft (NetRxRate s)" "readable ft (NetTxRate s)" "readable ft (CPUPressure s)"
    "readable ft (MemPressure s)" "readable ft (IOPressure s)"
    using assms(5) by (simp_all add: stats_floats_def)
  have t: "list_all (\<lambda>p. int64 (pr_PID p) \<and> readable ft (pr_CPUPercent p)) (Top s)"
    using assms(4,5) by (simp add: stats_floats_def list_all_iff)
  have z: "zero_stats = \<lparr>CPUUsec = 0, CPUPercent = Fin 0, MemCurrent = 0, MemPeak = 0, MemMax = 0, Swap = 0,
     SwapPeak = 0, OOMKills = 0, Procs = 0, DiskRead = 0, DiskWrite = 0, DiskReadRate = Fin 0,
     DiskWriteRate = Fin 0, NetRx = 0, NetTx = 0, NetRxRate = Fin 0, NetTxRate = Fin 0, NetConns = 0,
     CPUPressure = Fin 0, MemPressure = Fin 0, IOPressure = Fin 0, Top = [], sm_Time = -62135596800000000000,
     sm_Elapsed = Fin 0, sm_CPULimit = Fin 0\<rparr>"
    by (simp add: zero_stats_def stats.defs zeroStats_def)
  have "into_members (map_of (stats_table td)) (clear (stats_members ft time s)) zero_stats =
    Some (s\<lparr>Top := map legible_proc (Top s)\<rparr>)"
    unfolding stats_members_def z
    by (simp add: into_members_append time_member[of td time, OF assms(1)] u64_members int_members[OF assms(2)]
        int_members[OF assms(3)] f64_members[OF f(1)] f64_members[OF f(2)] f64_members[OF f(3)] f64_members[OF f(4)]
        f64_members[OF f(5)] f64_members[OF f(6)] f64_members[OF f(7)] f64_members[OF f(8)] f64_members[OF f(9)]
        f64_members[OF f(10)] top_member[OF t] del: into_members.simps)
  then show ?thesis by (simp add: legible_stats_def)
qed

lemma members_ok:
  assumes "list_all (readable ft) (stats_floats s)"
  shows "numbers_ok (VObj (stats_members ft time s))"
proof -
  have n: "numbers_ok (u64_num n)" "numbers_ok (int_num i)" "readable ft x \<Longrightarrow> numbers_ok (f64_num ft x)" for n i x
    by (auto simp: u64_num_def int_num_def f64_num_def u64_text_def valid_format valid_itoa readable_def split: f64.splits)
  have p: "list_all numbers_ok (map (\<lambda>p. VObj (proc_members ft p)) (Top s))"
    using assms n by (simp add: list_all_iff stats_floats_def proc_members_def member_def)
  show ?thesis using assms n p
    by (simp add: stats_members_def member_def omitempty_def stats_floats_def)
qed

text \<open>A sample that has a JSON is read back from it, as far as the names of its processes are UTF-8.\<close>

lemma stats_roundtrip:
  assumes "sendable ft tt td s" and "Marshal_stats ft tt s = Some text"
  shows "Unmarshal_stats td bad text = Inr (legible_stats s)"
proof -
  obtain time where t: "tt (sm_Time s) = Some time" "list_all f64_finite (stats_floats s)"
    "text = json_write (VObj (stats_members ft time s))"
    using assms(2) by (auto simp: Marshal_stats_def split: option.splits if_splits)
  have r: "list_all (readable ft) (stats_floats s)"
    using assms(1) t(2) by (auto simp: sendable_def list_all_iff)
  have "legible (VObj (stats_members ft time s)) = VObj (clear (stats_members ft time s))"
    by (simp add: clear_def)
  moreover have "into_members (map_of (stats_table td)) (clear (stats_members ft time s)) zero_stats = Some (legible_stats s)"
    using assms(1) t(1) r by (intro stats_read) (simp_all add: sendable_def)
  ultimately show ?thesis
    using read_write[OF members_ok[OF r, of time]] by (simp add: Unmarshal_stats_def into_object_def t(3) del: json_write.simps legible.simps)
qed

section \<open>The history of a session\<close>

text \<open>What a host records is read back: a sample without JSON is missing, the others are as they were.\<close>

lemma recorded_read_back:
  assumes "numbered f" and "tags FieldSession = Some sid" and "list_all (sendable ft tt td) sts"
  shows "\<exists>f'. recordStats (Marshal_stats ft tt) oor (FakeWrite now) tags sts f = (Inr (), f') \<and>
    (\<forall>x. statsHistory (Unmarshal_stats td bad) FakePoll x f' = statsHistory (Unmarshal_stats td bad) FakePoll x f @
      (if x = sid then map legible_stats (filter (\<lambda>s. Marshal_stats ft tt s \<noteq> None) sts) else []))"
  by (rule fake.history_grows) (use assms stats_roundtrip in \<open>auto simp: list_all_iff\<close>)

end
