(* ===== verification/FloatBounds.thy ===== *)
theory FloatBounds
  imports Float64
begin

text \<open>Bounds on rounding: numbers of ordinary size are rounded to numbers of ordinary size.\<close>

lemma round_half_even_near: "\<bar>of_int (round_half_even q) - q\<bar> \<le> 1 / 2"
proof -
  define f where "f = \<lfloor>q\<rfloor>"
  have f: "of_int f \<le> q" "q < of_int f + 1" using floor_correct[of q] by (simp_all add: f_def)
  then show ?thesis
    unfolding round_half_even_def Let_def f_def[symmetric]
    by (auto simp: abs_if)
qed

lemma top_bit_lower:
  assumes "0 < q"
  shows "(2 :: rat) powi top_bit q \<le> q"
proof -
  obtain a b where ab: "quotient_of q = (a, b)" by fastforce
  have b: "0 < b" using quotient_of_denom_pos[OF ab] .
  have q: "q = of_int a / of_int b" using quotient_of_div[OF ab] .
  have a: "0 < a" using assms b by (simp add: q zero_less_divide_iff)
  have al: "2 ^ nat (bitlen a - 1) \<le> a" using bitlen_bounds[OF a] by simp
  have bl: "b < 2 ^ nat (bitlen b)" using bitlen_bounds[OF b] by simp
  show ?thesis
  proof (cases "(2 :: rat) powi (bitlen a - bitlen b) \<le> q")
    case True
    then show ?thesis by (simp add: top_bit_def ab Let_def)
  next
    case False
    have "a < 2 ^ nat (bitlen a)" using bitlen_bounds[OF a] by simp
    then have la: "0 < bitlen a" "0 < bitlen b" using a b bl by (auto intro: ccontr)
    have "(2 :: rat) powi (bitlen a - bitlen b - 1) = 2 powi (bitlen a - 1) / 2 powi (bitlen b)"
      by (simp add: power_int_diff power_int_add field_simps)
    also have "\<dots> = of_int (2 ^ nat (bitlen a - 1)) / of_int (2 ^ nat (bitlen b))"
      using la by (simp add: power_int_def)
    also have "\<dots> \<le> of_int a / of_int b"
      using al bl b a by (intro frac_le of_int_le_iff[THEN iffD2]) simp_all
    finally have "(2 :: rat) powi (bitlen a - bitlen b - 1) \<le> q" by (simp only: q)
    then show ?thesis using False by (simp add: top_bit_def ab Let_def)
  qed
qed

lemma round_pos_near:
  assumes "0 < q"
  shows "\<bar>of_int (round_half_even (q / 2 powi (max (- 1074) (top_bit q - 52)))) * 2 powi (max (- 1074) (top_bit q - 52)) - q\<bar>
    \<le> q / 2 ^ 53 + 1 / 2 ^ 1075"
proof -
  define e where "e = max (- 1074) (top_bit q - 52)"
  have p: "(0 :: rat) < 2 powi e" by simp
  have "\<bar>of_int (round_half_even (q / 2 powi e)) * 2 powi e - q\<bar> =
      \<bar>of_int (round_half_even (q / 2 powi e)) - q / 2 powi e\<bar> * 2 powi e"
    using p by (simp add: abs_mult_pos' field_simps flip: abs_mult_pos)
  also have "\<dots> \<le> 1 / 2 * 2 powi e"
    using round_half_even_near[of "q / 2 powi e"] p by (intro mult_right_mono) simp_all
  also have "\<dots> \<le> q / 2 ^ 53 + 1 / 2 ^ 1075"
  proof (cases "top_bit q - 52 \<le> - 1074")
    case True
    then have e: "e = - int 1074" by (simp add: e_def)
    have "(1 :: rat) / 2 * 2 powi e = 1 / 2 ^ 1075" unfolding e power_int_minus power_int_of_nat by (simp add: field_simps)
    then show ?thesis using assms by simp
  next
    case False
    then have e: "e = top_bit q - int 52" by (simp add: e_def)
    have "(1 :: rat) / 2 * 2 powi e = 2 powi top_bit q / 2 ^ 53"
      unfolding e by (simp add: power_int_diff)
    also have "\<dots> \<le> q / 2 ^ 53" using top_bit_lower[OF assms] by (intro divide_right_mono) simp_all
    finally show ?thesis by (simp add: add_increasing2)
  qed
  finally show ?thesis by (simp add: e_def)
qed

text \<open>A positive number below \<open>2 ^ 1000\<close> is rounded to one between its half, if it is not tiny, and its double.\<close>

lemma f64_round_bounds:
  assumes "0 \<le> q" and "q \<le> 2 ^ 1000"
  shows "\<exists>v. f64_round q = Fin v \<and> 0 \<le> v \<and> v \<le> 2 * q + 1 \<and> (1 / 2 ^ 100 \<le> q \<longrightarrow> q / 2 \<le> v)"
proof (cases "q = 0")
  case False
  then have q: "0 < q" using assms(1) by simp
  let ?e = "max (- 1074) (top_bit q - 52)"
  define v :: rat where "v = of_int (round_half_even (q / 2 powi ?e)) * 2 powi ?e"
  have n: "\<bar>v - q\<bar> \<le> q / 2 ^ 53 + 1 / 2 ^ 1075" using round_pos_near[OF q] by (simp add: v_def)
  have c: "(1 :: rat) / 2 ^ 1075 \<le> 1 / 2 ^ 102" "(1 :: rat) / 2 ^ 102 \<le> 1 / 4" "(1 :: rat) / 2 ^ 102 = 1 / 2 ^ 100 / 4"
    by (simp_all)
  have s: "q / 2 ^ 53 \<le> q / 4" using q by (intro divide_left_mono) simp_all
  have up: "v \<le> 2 * q + 1" using n s c q by linarith
  have "(2 :: rat) * 2 ^ 1000 + 1 < 2 ^ 1024" by simp
  then have "v < 2 ^ 1024" using up assms(2) by linarith
  then have r: "f64_round q = Fin v" using q by (simp add: f64_round_def round_pos_def Let_def v_def)
  have "0 \<le> round_half_even x" if "0 \<le> x" for x
    using that by (auto simp: round_half_even_def Let_def)
  then have "0 \<le> v" using q by (simp add: v_def)
  moreover have "q / 2 \<le> v" if "1 / 2 ^ 100 \<le> q"
  proof -
    have "1 / 2 ^ 1075 \<le> q / 4" using c(1,3) that by simp
    then have "\<bar>v - q\<bar> \<le> q / 4 + q / 4" using n s by (meson add_mono order_trans)
    then show ?thesis by linarith
  qed
  ultimately show ?thesis using r up by blast
qed (simp add: f64_round_def)

section \<open>Numbers that stay finite\<close>

definition small :: "nat \<Rightarrow> f64 \<Rightarrow> bool" where
  "small k x \<longleftrightarrow> (\<exists>v. x = Fin v \<and> 0 \<le> v \<and> v \<le> 2 ^ k)"

lemma small_round:
  assumes "0 \<le> q" and "q \<le> 2 ^ k" and "k \<le> 1000"
  shows "small (k + 2) (f64_round q)"
proof -
  have "(2 :: rat) ^ k \<le> 2 ^ 1000" using assms(3) by (intro power_increasing) simp_all
  then obtain v where v: "f64_round q = Fin v" "0 \<le> v" "v \<le> 2 * q + 1" using f64_round_bounds[of q] assms(1,2) by auto
  have "(1 :: rat) \<le> 2 ^ k" by (rule one_le_power) simp
  moreover have "(2 :: rat) ^ (k + 2) = 4 * 2 ^ k" by (simp add: power_add)
  ultimately have "v \<le> 2 ^ (k + 2)" using v(3) assms(2) by linarith
  then show ?thesis using v by (simp add: small_def)
qed

lemma small_of_nat:
  assumes "n < 2 ^ 64"
  shows "small 66 (f64_of_nat n)"
proof -
  have "(of_nat n :: rat) \<le> 2 ^ 64" using assms by (metis less_imp_le of_nat_le_iff of_nat_numeral of_nat_power)
  then show ?thesis using small_round[of "of_nat n" 64] by (simp add: f64_of_nat_def)
qed

lemma small_mul:
  assumes "small k x" and "0 \<le> c" and "c \<le> 128" and "k \<le> 900"
  shows "small (k + 9) (f64_mul x (Fin c))"
proof -
  obtain v where v: "x = Fin v" "0 \<le> v" "v \<le> 2 ^ k" using assms(1) by (auto simp: small_def)
  have "v * c \<le> 2 ^ k * 128" using v assms(2,3) by (intro mult_mono) simp_all
  also have "\<dots> = 2 ^ (k + 7)" by (simp add: power_add)
  finally have "small (k + 7 + 2) (f64_round (v * c))" using v assms(2,4) by (intro small_round) simp_all
  then show ?thesis using v(1) by (simp add: add.commute)
qed

end
