(* ===== verification/StatsEncoding.thy ===== *)
theory StatsEncoding
  imports StatsJson FloatBounds
begin

text \<open>
  Every sample the sampler of \<open>internal/host/sampler_linux.go\<close> takes has a JSON: its rates and
  percentages are finite, since time goes on between two samples and the counters have 64 bits.
\<close>

section \<open>The numbers of a sample\<close>

lemma small_div:
  assumes "small k x" and "1 / 2 ^ 40 \<le> b" and "k \<le> 900"
  shows "small (k + 42) (f64_div x (Fin b))"
proof -
  obtain v where v: "x = Fin v" "0 \<le> v" "v \<le> 2 ^ k" using assms(1) by (auto simp: small_def)
  have b: "0 < b" using assms(2) less_le_trans[of 0 "1 / 2 ^ 40" b] by simp
  have "1 / b \<le> 2 ^ 40" using assms(2) b by (simp add: field_simps)
  then have "v * (1 / b) \<le> 2 ^ k * 2 ^ 40" using v b by (intro mult_mono) simp_all
  also have "\<dots> = 2 ^ (k + 40)" by (simp add: power_add)
  finally have "small (k + 40 + 2) (f64_round (v / b))" using v b assms(3) by (intro small_round) simp_all
  then show ?thesis using v(1) b by (simp add: add.commute)
qed

lemma small_finite: "small k x \<Longrightarrow> f64_finite x"
  by (auto simp: small_def f64_finite_def)

lemma seconds_bounds:
  assumes "0 \<le> d" and "d < 2 ^ 63"
  shows "\<exists>v. seconds d = Fin v \<and> (1 \<le> d \<longrightarrow> 1 / 2 ^ 40 \<le> v)"
proof -
  let ?a = "of_int (d div 1000000000) :: rat" and ?b = "of_int (d mod 1000000000) / 1000000000 :: rat"
  have "d div 1000000000 \<le> d" using zdiv_mono2[of d 1 1000000000] assms(1) by simp
  then have "d div 1000000000 \<le> 2 ^ 63" using assms(2) by linarith
  then have "?a \<le> of_int (2 ^ 63)" by (simp only: of_int_le_iff)
  then have a: "0 \<le> ?a" "?a \<le> 2 ^ 63" using assms(1) by (simp_all add: pos_imp_zdiv_nonneg_iff)
  have m: "0 \<le> d mod 1000000000" "d mod 1000000000 < 1000000000" by simp_all
  then have b: "0 \<le> ?b" "?b \<le> 1" by simp_all
  have big: "(2 :: rat) ^ 63 \<le> 2 ^ 1000" "(1 :: rat) \<le> 2 ^ 1000" by simp_all
  obtain x where x: "f64_round ?a = Fin x" "0 \<le> x" "x \<le> 2 * ?a + 1" "1 / 2 ^ 100 \<le> ?a \<longrightarrow> ?a / 2 \<le> x"
    using f64_round_bounds[of ?a] a big(1) by (meson order_trans)
  obtain y where y: "f64_round ?b = Fin y" "0 \<le> y" "y \<le> 2 * ?b + 1" "1 / 2 ^ 100 \<le> ?b \<longrightarrow> ?b / 2 \<le> y"
    using f64_round_bounds[of ?b] b big(2) by (meson order_trans)
  have "x + y \<le> 2 * 2 ^ 63 + 4" using x(3) y(3) a(2) b(2) by linarith
  also have "\<dots> \<le> (2 :: rat) ^ 1000" by simp
  finally have "x + y \<le> 2 ^ 1000" .
  then obtain v where v: "f64_round (x + y) = Fin v" "1 / 2 ^ 100 \<le> x + y \<longrightarrow> (x + y) / 2 \<le> v"
    using f64_round_bounds[of "x + y"] x(2) y(2) by auto
  have s: "seconds d = Fin v" using x(1) y(1) v(1) by (simp add: seconds_def dur_float_def)
  have "1 / 2 ^ 40 \<le> v" if "1 \<le> d"
  proof -
    have "1 / 2 ^ 39 \<le> x + y"
    proof (cases "d < 1000000000")
      case True
      then have "?b = of_int d / 1000000000" using assms(1) by simp
      moreover have "(1 :: rat) \<le> of_int d" using that by simp
      ultimately have q: "1 / 1000000000 \<le> ?b" by simp
      moreover have "(1 :: rat) / 2 ^ 100 \<le> 1 / 1000000000" by simp
      ultimately have "?b / 2 \<le> y" using y(4) by linarith
      moreover have "(1 :: rat) / 2 ^ 39 \<le> 1 / 1000000000 / 2" by simp
      ultimately show ?thesis using q x(2) by linarith
    next
      case False
      then have "1 \<le> d div 1000000000" using zdiv_mono1[of 1000000000 d 1000000000] by simp
      then have q: "1 \<le> ?a" by simp
      moreover have "(1 :: rat) / 2 ^ 100 \<le> 1" by simp
      ultimately have "?a / 2 \<le> x" using x(4) by linarith
      moreover have "(1 :: rat) / 2 ^ 39 \<le> 1 / 2" by simp
      ultimately show ?thesis using q y(2) by linarith
    qed
    moreover from this have "1 / 2 ^ 100 \<le> x + y" by (rule order_trans[rotated]) simp
    then have "(x + y) / 2 \<le> v" using v(2) by blast
    moreover from \<open>1 / 2 ^ 39 \<le> x + y\<close> have "1 / 2 ^ 39 / 2 \<le> (x + y) / 2" by (intro divide_right_mono) simp_all
    ultimately have "1 / 2 ^ 39 / 2 \<le> v" by (meson order_trans)
    then show ?thesis by simp
  qed
  then show ?thesis using s by blast
qed

lemma small_rate:
  assumes "0 < d" and "d < 2 ^ 63"
  shows "small 108 (rate (seconds d) cur old)"
proof (cases "cur < old")
  case False
  obtain v where v: "seconds d = Fin v" "1 / 2 ^ 40 \<le> v" using seconds_bounds[of d] assms by auto
  have "small 66 (f64_of_nat (unat (cur - old)))" using u64_bound[of "cur - old"] by (intro small_of_nat) simp
  from small_div[OF this v(2)] show ?thesis using False v(1) by (simp add: rate_def)
qed (simp add: rate_def small_def)

lemma small_div_const:
  assumes "small k x" and "1 \<le> c" and "k \<le> 900"
  shows "small (k + 42) (f64_div x (Fin c))"
  using assms by (intro small_div) (auto intro: order_trans[of _ 1])

lemma small_cpu:
  assumes "0 < d" and "d < 2 ^ 63"
  shows "small 159 (f64_mul (f64_div (f64_div (f64_of_nat (unat (n :: u64))) (Fin 100)) (seconds d)) (Fin 100))"
proof -
  obtain v where v: "seconds d = Fin v" "1 / 2 ^ 40 \<le> v" using seconds_bounds[of d] assms by auto
  have "small 66 (f64_of_nat (unat n))" using u64_bound[of n] by (intro small_of_nat) simp
  then have "small 108 (f64_div (f64_of_nat (unat n)) (Fin 100))" using small_div_const[of 66 _ 100] by simp
  then have "small 150 (f64_div (f64_div (f64_of_nat (unat n)) (Fin 100)) (seconds d))"
    using small_div[of 108 _ v] v by simp
  then show ?thesis using small_mul[of 150 _ 100] by simp
qed

section \<open>Every sample is finite\<close>

definition top_finite :: "proc_stats list \<Rightarrow> bool" where
  "top_finite ps \<longleftrightarrow> list_all (\<lambda>p. f64_finite (pr_CPUPercent p)) ps"

lemma top_gather:
  assumes "top_finite (ga_top g)" and "\<And>t. prev = Some t \<Longrightarrow> t < now \<and> now - t < 2 ^ 63"
  shows "top_finite (ga_top (gather pv cgroup old prev now pid g))"
  using assms small_finite[OF small_cpu]
  by (auto simp: gather_def top_finite_def Let_def split: option.splits)

lemma top_gather_all:
  assumes "sp_history s \<noteq> [] \<Longrightarrow> sm_Time (last (sp_history s)) < now \<and> now - sm_Time (last (sp_history s)) < 2 ^ 63"
  shows "top_finite (ga_top (gather_all pv now s))"
proof -
  have "top_finite (ga_top (fold (gather pv c old prev now) pids g))"
    if "top_finite (ga_top g)" and "\<And>t. prev = Some t \<Longrightarrow> t < now \<and> now - t < 2 ^ 63" for c old prev pids g
    using that by (induction pids arbitrary: g) (simp_all add: top_gather)
  note f = this
  have "top_finite []" by (simp add: top_finite_def)
  then show ?thesis unfolding gather_all_def using assms by (intro f) (auto split: if_splits)
qed

lemma top_insert: "top_finite (p # ps) \<Longrightarrow> top_finite (insert_top p ps)"
  by (induction ps) (auto simp: top_finite_def)

lemma top_busiest: "top_finite ps \<Longrightarrow> top_finite (busiest ps)"
proof -
  have "top_finite (ps @ qs) \<Longrightarrow> top_finite (fold insert_top ps qs)" for qs
  proof (induction ps arbitrary: qs)
    case (Cons p ps)
    then show ?case using top_insert[of p qs] by (simp add: top_finite_def)
  qed simp
  from this[of "[]"] show "top_finite ps \<Longrightarrow> ?thesis"
    by (auto simp: busiest_def top_finite_def list_all_iff dest: in_set_takeD)
qed

text \<open>
  \<open>cpu.max\<close> holds a quota, which may be \<open>max\<close>, and a period, both whole numbers of microseconds, and
  the averages of the pressure files are ordinary numbers.
\<close>

definition kernel_numbers :: "proc_view \<Rightarrow> string \<Rightarrow> bool" where
  "kernel_numbers pv dir \<longleftrightarrow>
     (case go_cut (cg_file pv dir ''cpu.max'') '' '' of
        None \<Rightarrow> True
      | Some (quota, period) \<Rightarrow> quota = ''max'' \<or>
          (\<exists>q p. quota = format_uint q \<and> q < 2 ^ 53 \<and> period = format_uint p \<and> 0 < p \<and> p < 2 ^ 53)) \<and>
     list_all (\<lambda>name. f64_finite (psiSome (cg_file pv dir name))) [''cpu.pressure'', ''memory.pressure'', ''io.pressure'']"

lemma cpu_limit_finite:
  assumes "kernel_numbers pv dir" and "cpu_limit (cg_file pv dir ''cpu.max'') = Some l"
  shows "f64_finite l"
proof -
  obtain q p where c: "go_cut (cg_file pv dir ''cpu.max'') '' '' = Some (format_uint q, format_uint p)" and n: "q < 2 ^ 53" "0 < p" "p < 2 ^ 53"
    using assms by (auto simp: kernel_numbers_def cpu_limit_def split: option.splits if_splits)
  have l: "l = f64_mul (f64_div (Fin (of_nat q)) (Fin (of_nat p))) (Fin 100)"
    using assms(2) n by (auto simp: cpu_limit_def c float_value_def ParseFloat_digits Let_def split: if_splits)
  have "(of_nat q :: rat) \<le> of_nat (2 ^ 53)" using n(1) by (simp only: of_nat_le_iff)
  then have "small 53 (Fin (of_nat q))" by (simp add: small_def)
  from small_div_const[OF this, of "of_nat p"] have "small 95 (f64_div (Fin (of_nat q)) (Fin (of_nat p)))"
    using n(2) by simp
  then have "small (95 + 9) l" unfolding l by (rule small_mul) simp_all
  then show ?thesis by (rule small_finite)
qed

lemma cgroup_floats:
  assumes "kernel_numbers pv dir" and "list_all f64_finite (stats_floats st)"
  shows "list_all f64_finite (stats_floats (fst (readCgroup pv dir st)))"
  using assms cpu_limit_finite[OF assms(1)]
  by (auto simp: readCgroup_def stats_floats_def kernel_numbers_def Let_def split: option.splits prod.splits)

lemma rates_floats:
  assumes "sm_Time base < sm_Time st" and "sm_Time st - sm_Time base < 2 ^ 63" and "list_all f64_finite (stats_floats st)"
  shows "list_all f64_finite (stats_floats (with_rates base st))"
proof -
  have r: "small 108 (rate (seconds (sm_Time st - sm_Time base)) a b)" for a b
    using assms(1,2) by (intro small_rate) simp_all
  have "f64_finite (f64_div (rate (seconds (sm_Time st - sm_Time base)) a b) (Fin 10000))" for a b
    using small_div_const[OF r, of 10000] by (intro small_finite[of 150]) simp
  then show ?thesis using assms(3) small_finite[OF r]
    by (simp add: with_rates_def stats_floats_def Let_def)
qed

text \<open>The times of the samples kept lie between the start and the next sample.\<close>

definition timed :: "int \<Rightarrow> sampler \<Rightarrow> bool" where
  "timed now s \<longleftrightarrow> list_all (\<lambda>h. sp_start s \<le> sm_Time h \<and> sm_Time h < now) (sp_history s)"

lemma trim_history_snoc: "\<exists>ks. trim_history c (hs @ [x]) = ks @ [x] \<and> set ks \<subseteq> set hs"
proof (induction hs)
  case (Cons a gs)
  then obtain ks where k: "trim_history c (gs @ [x]) = ks @ [x]" "set ks \<subseteq> set gs" by blast
  show ?case
  proof (cases gs)
    case (Cons b gs')
    then obtain d rest where "gs @ [x] = b # d # rest" by (cases gs') auto
    then have "trim_history c ((a # gs) @ [x]) = (if sm_Time b < c then trim_history c (gs @ [x]) else (a # gs) @ [x])" by simp
    then show ?thesis using k by (cases "sm_Time b < c") (simp_all only: if_True if_False, force+)
  qed (auto intro: exI[of _ "[a]"])
qed simp

text \<open>What \<open>Sample\<close> puts together: what is read, and the rates over the samples kept.\<close>

lemma Sample_parts:
  assumes "Sample pv now s = Some (st, s')"
  shows "\<exists>raw ks. sp_start s' = sp_start s \<and> sp_history s' = ks @ [st] \<and> set ks \<subseteq> set (sp_history s) \<and> sm_Time raw = now \<and>
    st = (if ks = [] then raw else with_rates (hd ks) raw) \<and>
    stats_floats raw = stats_floats ((fst (if sp_cgroupDir s \<noteq> [] then readCgroup pv (sp_cgroupDir s) (zero_sample (sp_start s) now)
      else (zero_sample (sp_start s) now, False)))\<lparr>Top := busiest (ga_top (gather_all pv now s))\<rparr>)"
proof -
  let ?g = "gather_all pv now s"
  let ?r = "if sp_cgroupDir s \<noteq> [] then readCgroup pv (sp_cgroupDir s) (zero_sample (sp_start s) now)
      else (zero_sample (sp_start s) now, False)"
  obtain st0 io where r: "?r = (st0, io)" by (rule prod.exhaust)
  have t: "sm_Time st0 = now"
    using r by (auto simp: zero_sample_def stats.defs readCgroup_def Let_def split: if_splits option.splits prod.splits)
  obtain found where f: "(if ga_inodes ?g = [] then Some [] else tcpCounters pv (ga_inodes ?g)) = Some found"
    using assms r by (auto simp: Sample_def Let_def split: option.splits)
  let ?net = "fold (\<lambda>(ino, counts). AList.update ino counts) found (sp_net s)"
  define st1 where "st1 = st0\<lparr>Procs := int (length (sample_pids pv s)), Top := busiest (ga_top ?g)\<rparr>"
  define st2 where "st2 = (if sp_cgroupDir s \<noteq> [] then st1 else st1\<lparr>CPUUsec := ga_cpuUsec ?g, MemCurrent := ga_rss ?g\<rparr>)"
  define st3 where "st3 = st2\<lparr>NetConns := int (length (filter (\<lambda>ino. map_of ?net ino \<noteq> None) (ga_inodes ?g)))\<rparr>"
  define st4 where "st4 = (if io then st3 else st3\<lparr>DiskRead := DiskRead st3 + fst (pair_total (ga_disk ?g)),
    DiskWrite := DiskWrite st3 + snd (pair_total (ga_disk ?g))\<rparr>)"
  define raw where "raw = st4\<lparr>NetRx := fst (pair_total ?net), NetTx := snd (pair_total ?net)\<rparr>"
  have "sm_Time raw = sm_Time st4" "sm_Time st4 = sm_Time st3" "sm_Time st3 = sm_Time st2" "sm_Time st2 = sm_Time st1"
    "sm_Time st1 = sm_Time st0"
    by (simp_all add: raw_def st4_def st3_def st2_def st1_def)
  with t have u: "sm_Time raw = now" by simp
  have "stats_floats raw = stats_floats st4" "stats_floats st4 = stats_floats st3" "stats_floats st3 = stats_floats st2"
    "stats_floats st2 = stats_floats st1" "stats_floats st1 = stats_floats (st0\<lparr>Top := busiest (ga_top ?g)\<rparr>)"
    by (simp_all add: raw_def st4_def st3_def st2_def st1_def stats_floats_def)
  then have w: "stats_floats raw = stats_floats (st0\<lparr>Top := busiest (ga_top ?g)\<rparr>)" by simp
  obtain ks where k: "trim_history (now - rateWindow) (sp_history s @ [raw]) = ks @ [raw]" "set ks \<subseteq> set (sp_history s)"
    using trim_history_snoc by blast
  define fin where "fin = (\<lambda>history. if length history > 1 then with_rates (hd history) raw else raw)"
  have "Sample pv now s = (let history = trim_history (now - rateWindow) (sp_history s @ [raw]);
        net = fold (\<lambda>(ino, counts). AList.update ino counts) found (sp_net s) in
      Some (fin history, s\<lparr>sp_disk := ga_disk ?g, sp_net := net, sp_cpu := ga_cpu ?g, sp_cpuUsec := ga_cpuUsec ?g,
            sp_history := butlast history @ [fin history]\<rparr>))"
    unfolding Sample_def Let_def r f fin_def raw_def st4_def st3_def st2_def st1_def by (simp only: prod.case option.case)
  then have e: "st = fin (ks @ [raw])" "sp_start s' = sp_start s" "sp_history s' = ks @ [fin (ks @ [raw])]"
    using assms by (auto simp: k(1) Let_def)
  have "fin (ks @ [raw]) = (if ks = [] then raw else with_rates (hd ks) raw)" by (cases ks) (simp_all add: fin_def)
  then have "sp_start s' = sp_start s \<and> sp_history s' = ks @ [st] \<and> st = (if ks = [] then raw else with_rates (hd ks) raw)"
    using e by simp
  then show ?thesis using k(2) u w unfolding r fst_conv by blast
qed

lemma zero_sample_floats:
  assumes "0 \<le> now - start" and "now - start < 2 ^ 63"
  shows "list_all f64_finite (stats_floats (zero_sample start now))"
proof -
  obtain v where "seconds (now - start) = Fin v" using seconds_bounds[OF assms] by blast
  then show ?thesis by (simp add: zero_sample_def stats.defs zeroStats_def stats_floats_def f64_finite_def)
qed

lemma Sample_finite:
  assumes "Sample pv now s = Some (st, s')" and "timed now s" and "sp_start s \<le> now" and "now - sp_start s < 2 ^ 63"
    and "sp_cgroupDir s = [] \<or> kernel_numbers pv (sp_cgroupDir s)"
  shows "list_all f64_finite (stats_floats st)"
proof -
  let ?z = "zero_sample (sp_start s) now" and ?g = "gather_all pv now s"
  let ?r = "fst (if sp_cgroupDir s \<noteq> [] then readCgroup pv (sp_cgroupDir s) ?z else (?z, False))"
  obtain raw ks where r: "set ks \<subseteq> set (sp_history s)" "sm_Time raw = now" "st = (if ks = [] then raw else with_rates (hd ks) raw)"
    "stats_floats raw = stats_floats (?r\<lparr>Top := busiest (ga_top ?g)\<rparr>)"
    using Sample_parts[OF assms(1)] by blast
  have old: "sm_Time h < now \<and> now - sm_Time h < 2 ^ 63" if "h \<in> set (sp_history s)" for h
    using assms(2,4) that by (auto simp: timed_def list_all_iff)
  have z: "list_all f64_finite (stats_floats ?z)" using assms(3,4) by (intro zero_sample_floats) simp_all
  have "list_all f64_finite (stats_floats ?r)"
    using z assms(5) by (cases "sp_cgroupDir s = []") (simp_all only: if_True if_False fst_conv cgroup_floats simp_thms)
  moreover have "top_finite (busiest (ga_top ?g))"
    using old by (intro top_busiest top_gather_all) simp
  ultimately have "list_all f64_finite (stats_floats raw)"
    unfolding r(4) by (simp add: stats_floats_def top_finite_def list_all_iff)
  moreover have "ks \<noteq> [] \<Longrightarrow> hd ks \<in> set (sp_history s)" using r(1) by (meson hd_in_set subsetD)
  ultimately show ?thesis using old rates_floats[of "hd ks" raw] r(2,3) by (cases "ks = []") simp_all
qed

text \<open>When a run is sampled: at times that go on, over less than the three centuries a duration holds.\<close>

definition sampled_at :: "(proc_view \<times> int) list \<Rightarrow> sampler \<Rightarrow> bool" where
  "sampled_at views s \<longleftrightarrow> sorted_wrt (<) (map snd views) \<and>
     list_all (\<lambda>(pv, now). sp_start s \<le> now \<and> now - sp_start s < 2 ^ 63 \<and>
       (sp_cgroupDir s = [] \<or> kernel_numbers pv (sp_cgroupDir s))) views"

lemma run_finite:
  assumes "sampler_Run views s = Some (sts, s')" and "sampled_at views s" and "list_all (\<lambda>(pv, now). timed now s) views"
  shows "list_all (\<lambda>st. list_all f64_finite (stats_floats st)) sts"
  using assms
proof (induction views s arbitrary: sts rule: sampler_Run.induct)
  case (2 pv now views s)
  obtain st s1 where s: "Sample pv now s = Some (st, s1)" using "2.prems"(1) by (auto split: option.splits)
  obtain sts1 where r: "sampler_Run views s1 = Some (sts1, s')" "sts = st # sts1"
    using "2.prems"(1) s by auto
  obtain raw ks where p: "sp_start s1 = sp_start s" "sp_history s1 = ks @ [st]" "set ks \<subseteq> set (sp_history s)"
    "sm_Time raw = now" "st = (if ks = [] then raw else with_rates (hd ks) raw)"
    using Sample_parts[OF s] by blast
  have n: "sm_Time st = now" using p(4,5) by (simp add: with_rates_def Let_def)
  note d = Sample_cgroupDir[OF s]
  have "sampled_at views s1" using "2.prems"(2) by (simp add: sampled_at_def p(1) d)
  moreover have "list_all (\<lambda>(pv, now). timed now s1) views"
    using "2.prems"(2,3) p(3) n by (fastforce simp: timed_def sampled_at_def list_all_iff p(1,2))
  ultimately have "list_all (\<lambda>st. list_all f64_finite (stats_floats st)) sts1" by (intro "2.IH"[OF s refl r(1)])
  moreover have "list_all f64_finite (stats_floats st)"
    using "2.prems"(2,3) by (intro Sample_finite[OF s]) (simp_all add: sampled_at_def)
  ultimately show ?case by (simp add: r(2))
qed simp

section \<open>The history of a session\<close>

lemma Marshal_total:
  assumes "tt (sm_Time st) \<noteq> None" and "list_all f64_finite (stats_floats st)"
  shows "Marshal_stats ft tt st \<noteq> None"
  using assms by (auto simp: Marshal_stats_def)

text \<open>
  C20. The samples a host records while its session runs are the history \<open>swash stats\<close> reads back from
  their JSON, every one of them, every field, in order, after what was recorded before: of all the
  samples a sampler takes none is without a JSON, since its rates stay finite. Only the names of
  processes that are not UTF-8 are mended, and the history of no other session changes.
\<close>

theorem stats_history_recorded:
  assumes "numbered f" and "tags FieldSession = Some sid"
    and "sampler_Run views s = Some (sts, s')" and "sp_history s = []" and "sampled_at views s"
    and "set recorded \<subseteq> set sts" and "list_all (\<lambda>st. tt (sm_Time st) \<noteq> None \<and> sendable ft tt td st) recorded"
  shows "\<exists>f'. recordStats (Marshal_stats ft tt) oor (FakeWrite now) tags recorded f = (Inr (), f') \<and>
    (\<forall>x. statsHistory (Unmarshal_stats td bad) FakePoll x f' = statsHistory (Unmarshal_stats td bad) FakePoll x f @
      (if x = sid then map legible_stats recorded else []))"
proof -
  have "list_all (\<lambda>st. list_all f64_finite (stats_floats st)) sts"
    using assms(4) by (intro run_finite[OF assms(3,5)]) (simp add: timed_def list_all_iff case_prod_beta)
  then have e: "filter (\<lambda>st. Marshal_stats ft tt st \<noteq> None) recorded = recorded"
    using assms(6,7) Marshal_total[of tt _ ft] by (intro filter_True) (auto simp: list_all_iff)
  have "list_all (sendable ft tt td) recorded" using assms(7) by (simp add: list_all_iff)
  from recorded_read_back[where tags = tags and sid = sid and tt = tt and td = td, OF assms(1,2) this, of oor now bad]
  show ?thesis unfolding e .
qed

definition sample_number :: "rat \<Rightarrow> string" where "sample_number q = itoa (floor q)"

lemma sample_numbers: "readable sample_number (Fin 0)" "readable sample_number (Fin 1)"
proof -
  have "ParseFloat (itoa 0) = Some (Fin 0)" "ParseFloat (itoa 1) = Some (Fin 1)"
    using ParseFloat_digits[of 0] ParseFloat_digits[of 1] by (simp_all add: itoa_def)
  then show "readable sample_number (Fin 0)" "readable sample_number (Fin 1)"
    by (simp_all add: readable_def sample_number_def valid_itoa)
qed

lemma second_one: "seconds 1000000000 = Fin 1"
  using f64_round_nat[of 1] f64_round_nat[of 0] by (simp add: seconds_def dur_float_def)

theorem stats_history_recorded_witness:
  "\<exists>st s' f'. sampler_Run [(no_procs, 1000000000)] (NewSampler no_procs 0) = Some ([st], s') \<and>
    recordStats (Marshal_stats sample_number (\<lambda>_. Some ''1970-01-01T00:00:01Z'')) (\<lambda>_. 0) (FakeWrite 7)
      [FieldSession \<mapsto> ''S''] [st, st] NewFakeJournal = (Inr (), f') \<and>
    statsHistory (Unmarshal_stats (\<lambda>_. Some 1000000000) ''bad'') FakePoll ''S'' f' = [st, st] \<and> sm_Elapsed st = Fin 1"
proof -
  let ?tt = "\<lambda>_ :: int. Some ''1970-01-01T00:00:01Z''" and ?td = "\<lambda>_ :: string. Some (1000000000 :: int)"
  let ?vs = "[(no_procs, 1000000000 :: int)]" and ?n = "NewSampler no_procs 0"
  let ?st = "zero_sample 0 1000000000"
  have n: "sp_cgroupDir ?n = []" "sp_history ?n = []" "sp_start ?n = 0" "sp_sid ?n = 0" "sp_disk ?n = []" "sp_net ?n = []"
    "sp_cpuUsec ?n = 0"
    by (simp_all add: NewSampler_def no_procs_def)
  obtain s' where "Sample no_procs 1000000000 ?n = Some (?st, s')"
    by (simp add: Sample_def n sample_pids_def gather_all_def busiest_def pair_total_def zero_sample_def stats.defs zeroStats_def Let_def)
  then have r: "sampler_Run ?vs ?n = Some ([?st], s')" by simp
  have v: "sampled_at ?vs ?n" by (simp add: sampled_at_def n)
  have e: "sm_Elapsed ?st = Fin 1" "sm_Time ?st = 1000000000" "legible_stats ?st = ?st"
    by (simp_all add: zero_sample_def second_one stats.defs zeroStats_def legible_stats_def)
  have "sendable sample_number ?tt ?td ?st"
    using sample_numbers by (simp add: sendable_def e(2) zero_sample_def second_one stats.defs zeroStats_def int64_def stats_floats_def)
  then have l: "list_all (\<lambda>st. ?tt (sm_Time st) \<noteq> None \<and> sendable sample_number ?tt ?td st) [?st, ?st]" by simp
  have f: "[FieldSession \<mapsto> ''S''] FieldSession = Some ''S''" by simp
  have "statsHistory (Unmarshal_stats ?td ''bad'') FakePoll ''S'' NewFakeJournal = []"
    by (simp add: statsHistory_def FakePoll_def NewFakeJournal_def map_filter_simps)
  moreover have "set [?st, ?st] \<subseteq> set [?st]" by simp
  ultimately show ?thesis
    using stats_history_recorded[where tags = "[FieldSession \<mapsto> ''S'']" and sid = "''S''" and tt = ?tt and td = ?td,
        OF numbered_new f r n(2) v _ l, of "\<lambda>_. 0" 7 "''bad''"] r e by auto
qed

end
