(* ===== verification/OtherSystems.thy ===== *)
theory OtherSystems
  imports TaskProcess StatsEncoding
begin

text \<open>
  The files of \<open>internal/host\<close> for systems other than Linux: \<open>process_tree_darwin.go\<close>,
  \<open>process_tree_other.go\<close>, \<open>sampler_other.go\<close> and \<open>oom_other.go\<close>. \<open>kinfo\<close> stands for the list of
  processes that \<open>sysctl\<close> answers, which may fail.
\<close>

section \<open>The processes of a session\<close>

fun processes_of_session :: "int \<Rightarrow> int list \<Rightarrow> os_state \<Rightarrow> int list \<times> os_state" where
  "processes_of_session sid [] w = ([], w)"
| "processes_of_session sid (pid # rest) w =
     (case getsid pid w of (s, w) \<Rightarrow>
        (case processes_of_session sid rest w of
           (pids, w) \<Rightarrow> (if s = Some sid then pid # pids else pids, w)))"

definition sessionProcessIDs_darwin ::
  "(os_state \<Rightarrow> int list option \<times> os_state) \<Rightarrow> int \<Rightarrow> os_state \<Rightarrow> int list option \<times> os_state" where
  "sessionProcessIDs_darwin kinfo sid w =
     (case kinfo w of
        (None, w) \<Rightarrow> (None, w)
      | (Some pids, w) \<Rightarrow> (case processes_of_session sid pids w of (pids, w) \<Rightarrow> (Some pids, w)))"

definition sessionProcessIDs_other :: "int \<Rightarrow> os_state \<Rightarrow> int list option \<times> os_state" where
  "sessionProcessIDs_other sid w = (None, w)"

text \<open>\<open>signalProcessSession\<close> over the enumeration of the system.\<close>

definition second_pass_with ::
  "(int \<Rightarrow> os_state \<Rightarrow> int list option \<times> os_state) \<Rightarrow> int \<Rightarrow> int \<Rightarrow> errno option \<times> os_state \<Rightarrow> errno option \<times> os_state" where
  "second_pass_with enum sid sig s =
     (case s of (firstErr, w) \<Rightarrow>
        (case enum sid w of
           (None, w) \<Rightarrow> (firstErr, w)
         | (Some remaining, w) \<Rightarrow> fold (signal_one sig) remaining (firstErr, w)))"

definition signalProcessSession_with ::
  "(int \<Rightarrow> os_state \<Rightarrow> int list option \<times> os_state) \<Rightarrow> int \<Rightarrow> int \<Rightarrow> os_state \<Rightarrow> errno option \<times> os_state" where
  "signalProcessSession_with enum sid sig w =
     (case enum sid w of
        (None, w) \<Rightarrow> (case kill_group sid sig w of (err, w) \<Rightarrow> (ignoreMissingProcess err, w))
      | (Some pids, w) \<Rightarrow> second_pass_with enum sid sig (first_pass sid sig pids w))"

lemma signal_linux: "signalProcessSession_with sessionProcessIDs = signalProcessSession"
proof -
  have e: "second_pass_with sessionProcessIDs = second_pass"
    by (intro ext) (simp add: second_pass_with_def second_pass_def)
  show ?thesis by (intro ext) (unfold signalProcessSession_with_def signalProcessSession_def e, rule refl)
qed

text \<open>On Darwin a session is signalled as on Linux, if \<open>sysctl\<close> lists what \<open>/proc\<close> would.\<close>

lemma entries_of_numbers:
  "list_all (\<lambda>p. 0 < p \<and> p < 2 ^ 31) ps \<Longrightarrow> list_all (\<lambda>n. parse_int n = None) ns \<Longrightarrow>
   session_entries sid (map itoa ps @ ns) w = processes_of_session sid ps w"
proof (induction ps arbitrary: w)
  case Nil
  then show ?case by (induction ns) simp_all
next
  case (Cons p ps)
  then have "parse_int (itoa p) = Some p" by (intro parse_int_itoa) simp_all
  with Cons show ?case by (simp split: prod.splits)
qed

definition kinfo_like_proc :: "os_state \<Rightarrow> int list option \<times> os_state" where
  "kinfo_like_proc w = (let w = tick w in (if os_proc_ok w then Some (map ps_pid (os_procs w)) else None, w))"

lemma darwin_like_linux:
  assumes "list_all (\<lambda>p. 0 < ps_pid p \<and> ps_pid p < 2 ^ 31) (os_procs (tick w))"
    and "list_all (\<lambda>n. parse_int n = None) (os_names (tick w))"
  shows "sessionProcessIDs_darwin kinfo_like_proc sid w = sessionProcessIDs sid w"
  using entries_of_numbers[of "map ps_pid (os_procs (tick w))" "os_names (tick w)" sid "tick w"] assms
  by (simp add: sessionProcessIDs_darwin_def sessionProcessIDs_def kinfo_like_proc_def read_proc_dir_def Let_def
      list_all_iff comp_def)

text \<open>
  Elsewhere only the process group is signalled: a member of the session that has a group of its own
  survives the kill.
\<close>

lemma other_group_survives:
  "\<exists>w. fst (signalProcessSession_with sessionProcessIDs_other 100 SIGKILL w) = None \<and>
     lives 101 (snd (signalProcessSession_with sessionProcessIDs_other 100 SIGKILL w)) \<and> 101 \<in> members 100 w \<and>
     \<not> lives 101 (snd (signalProcessSession 100 SIGKILL w))"
proof -
  let ?p = "\<lambda>pid. \<lparr>ps_pid = pid, ps_sid = 100, ps_pgid = pid, ps_dead = False\<rparr>"
  let ?w = "\<lparr>os_procs = [?p 100, ?p 101], os_names = [], os_proc_ok = True, os_may = (\<lambda>_. True), os_sched = [], os_hits = []\<rparr>"
  show ?thesis
    by (rule exI[of _ ?w])
      (simp add: signalProcessSession_with_def sessionProcessIDs_other_def kill_group_def lives_def members_def sample_os_eval
        parse_int_itoa)
qed

section \<open>Samples\<close>

text \<open>The sampler knows only the time; it takes no sample by itself.\<close>

record other_sampler =
  ot_start :: int

definition NewSampler_other :: "int \<Rightarrow> other_sampler" where "NewSampler_other now = \<lparr>ot_start = now\<rparr>"
definition SetTaskPID_other :: "int \<Rightarrow> other_sampler \<Rightarrow> other_sampler" where "SetTaskPID_other pid s = s"
definition sampler_Run_other :: "other_sampler \<Rightarrow> other_sampler" where "sampler_Run_other s = s"

definition Sample_other :: "int \<Rightarrow> other_sampler \<Rightarrow> sampled_stats" where
  "Sample_other now s =
     stats.extend zeroStats \<lparr>sm_Time = now, sm_Elapsed = seconds (now - ot_start s), sm_CPULimit = Fin 0\<rparr>"

definition Latest_other :: "int \<Rightarrow> other_sampler \<Rightarrow> sampled_stats" where "Latest_other now s = Sample_other now s"

definition preferOOMVictim_other :: "int \<Rightarrow> (string \<times> string) option" where "preferOOMVictim_other pid = None"

text \<open>Such a sample, too, is recorded and read back, whatever happened to the sampler before.\<close>

lemma other_sample_recorded:
  assumes "start \<le> now" and "now - start < 2 ^ 63" and "tt now = Some time"
    and "sendable ft tt td (Latest_other now (sampler_Run_other (SetTaskPID_other pid (NewSampler_other start))))"
  shows "\<exists>js. Marshal_stats ft tt (Latest_other now (sampler_Run_other (SetTaskPID_other pid (NewSampler_other start)))) = Some js \<and>
    Unmarshal_stats td bad js = Inr (Latest_other now (NewSampler_other start))"
proof -
  let ?st = "Latest_other now (NewSampler_other start)"
  have z: "?st = zero_sample start now"
    by (simp add: Latest_other_def Sample_other_def NewSampler_other_def zero_sample_def)
  have "Marshal_stats ft tt ?st \<noteq> None"
    unfolding z using assms(1-3) by (intro Marshal_total zero_sample_floats) (simp_all add: zero_sample_def stats.defs)
  then obtain js where t: "Marshal_stats ft tt ?st = Some js" by blast
  moreover have "legible_stats ?st = ?st" by (simp add: z zero_sample_def stats.defs zeroStats_def legible_stats_def)
  ultimately show ?thesis
    using stats_roundtrip[of ft tt td ?st js bad] assms(4) by (simp add: sampler_Run_other_def SetTaskPID_other_def)
qed

end
