(* ===== verification/TaskRuns.thy ===== *)
theory TaskRuns
  imports CommandRuns HostLifecycle SqliteLog
begin

text \<open>
  From the pipes of a task to the terminal of its user: what the host of \<open>internal/host\<close> logs of a task,
  whatever the order of its goroutines, is what \<open>swash run\<close> of \<open>cmd/swash\<close> prints and exits with.
\<close>

section \<open>The records of a task\<close>

text \<open>A record of a task names its session, and is a line only as output of one of the two pipes.\<close>

definition task_record :: "host_config \<Rightarrow> event_record \<Rightarrow> bool" where
  "task_record c e \<longleftrightarrow> ev_Fields e FieldSession = Some (hc_sessionID c) \<and>
     (is_line e \<longrightarrow> ev_Fields e = output_fields 1 (hc_tags c) \<or> ev_Fields e = output_fields 2 (hc_tags c))"

definition inv_records :: "host_config \<Rightarrow> host \<Rightarrow> bool" where
  "inv_records c h \<longleftrightarrow> (h_waiter h \<noteq> NoTask \<longrightarrow> list_all (task_record c) (task_log h))"

lemma record_started:
  assumes "config_ok c" and "ev_Fields r = started_fields (hc_sessionID c) cmd (mergeFields (hc_tags c) (hc_started c))"
  shows "task_record c r"
  using kind_started[OF assms] assms(2) by (simp add: task_record_def started_fields_def field_names)

lemma record_exited:
  assumes "config_ok c" and "ev_Fields r = exited_fields (hc_sessionID c) code cmd (mergeFields (hc_tags c) (ExitFields u))"
  shows "task_record c r"
  using kind_exited[OF assms] assms(2) by (simp add: task_record_def exited_fields_def field_names)

lemma record_stats:
  assumes "config_ok c" and "hc_tags c FieldSession = Some (hc_sessionID c)"
    and "ev_Fields r = mergeFields (hc_tags c) [FieldEvent \<mapsto> EventStats, FieldStats \<mapsto> data]"
  shows "task_record c r"
  using kind_stats[OF assms(1,3)] assms(2,3) by (simp add: task_record_def mergeFields_def field_names FieldStats_def)

lemma record_output:
  assumes "hc_tags c FieldSession = Some (hc_sessionID c)" and "fd \<in> {1, 2}" and "ev_Fields r = output_fields fd (hc_tags c)"
  shows "task_record c r"
  using assms by (auto simp: task_record_def output_fields_def)

lemma inv_records_logs:
  assumes "logs m fs (h_log h) ok f" and "inv_base h" and "inv_records c h" and "\<And>r. ev_Fields r = fs \<Longrightarrow> task_record c r"
  shows "h_waiter h \<noteq> NoTask \<longrightarrow> list_all (task_record c) (drop (h_base h) (fj_entries f))"
  using task_log_logs[OF assms(1,2)] assms(3,4) by (auto simp: inv_records_def drop_task_log)

lemma inv_records_step:
  assumes "host_step c h h'" and "inv_records c h" and "host_inv c h" and "config_ok c"
    and s: "hc_tags c FieldSession = Some (hc_sessionID c)"
  shows "inv_records c h'"
proof -
  have b: "inv_base h" and rd: "inv_readers c h" using assms(3) by (simp_all add: host_inv_def)
  note l = inv_records_logs[OF _ b assms(2)]
  show ?thesis
    using assms(1)
  proof (cases rule: host_step.cases)
    case (emit_started m fs ok f)
    then show ?thesis using l[OF emit_started(4)] record_started[OF assms(4)]
      by (auto simp: inv_records_def EmitStarted_def)
  next
    case (write_line fd n ln fs q m fs' ok f)
    have "inv_rd c fd (h_failed h) (task_log h) (h_rd h fd)" using rd write_line(2,3) by (auto simp: inv_readers_def)
    then have "n = fd" "fs = hc_tags c" using write_line(4) by (simp_all add: inv_rd_def)
    then show ?thesis using write_line l[OF write_line(6)] record_output[OF s write_line(3)]
      by (auto simp: inv_records_def logged_def WriteOutput_def)
  next
    case (emit_exited code usage m fs ok f)
    then show ?thesis using l[OF emit_exited(4)] record_exited[OF assms(4)]
      by (auto simp: inv_records_def EmitExited_def logged_def)
  next
    case (record_stats oor usage data ok f)
    then show ?thesis using l[OF record_stats(3)] TaskRuns.record_stats[OF assms(4) s] by (simp add: inv_records_def)
  qed (use assms(2) in \<open>auto simp: inv_records_def Restart_def set_exited_def split: if_splits\<close>)
qed

lemma inv_records_reachable:
  assumes "reachable c f0 h" and "config_ok c" and "hc_tags c FieldSession = Some (hc_sessionID c)"
  shows "inv_records c h"
  using assms(1)
proof induction
  case init
  then show ?case by (simp add: inv_records_def host_init_def)
next
  case (step h h')
  then show ?case using inv_records_step[OF step(2,3) host_inv_reachable[OF step(1) assms(2)] assms(2,3)] by blast
qed

section \<open>What a follower shows of them\<close>

lemma output_line: "is_output e \<Longrightarrow> is_line e"
  by (auto simp: is_output_def is_line_def ev_field_def split: option.splits)

lemma output_fields_FD: "config_ok c \<Longrightarrow> output_fields fd (hc_tags c) ''FD'' = Some (itoa fd)"
  by (simp add: output_fields_def config_ok_def map_add_def)

text \<open>What a pipe brings that is not blank.\<close>

definition pipe_lines :: "host_config \<Rightarrow> host \<Rightarrow> int \<Rightarrow> string list" where
  "pipe_lines c h fd = filter (\<lambda>l. l \<noteq> []) (map (fst \<circ> snd) (Process (p0 c fd) (rd_seen (h_rd h fd))))"

lemma shown_shuffle:
  assumes "config_ok c" and "list_all (task_record c) es"
  shows "shown es \<in> shuffles (filter (\<lambda>l. l \<noteq> []) (logged_lines c 1 es)) (filter (\<lambda>l. l \<noteq> []) (logged_lines c 2 es))"
  using assms(2)
proof (induction es)
  case (Cons e es)
  have t: "task_record c e" and ih: "shown es \<in> shuffles (filter (\<lambda>l. l \<noteq> []) (logged_lines c 1 es)) (filter (\<lambda>l. l \<noteq> []) (logged_lines c 2 es))"
    using Cons by simp_all
  note fd = output_fields_FD[OF assms(1)]
  have ne: "output_fields 1 (hc_tags c) \<noteq> output_fields 2 (hc_tags c)" by (rule other_output[OF assms(1)]) simp
  consider "ev_Fields e = output_fields 1 (hc_tags c)" | "ev_Fields e = output_fields 2 (hc_tags c)" | "\<not> is_line e"
    using t by (auto simp: task_record_def)
  then show ?case
  proof cases
    case 1
    then have "is_output e \<longleftrightarrow> ev_Message e \<noteq> []" by (simp add: is_output_def ev_field_def fd itoa_not_Nil)
    then show ?thesis using ih 1 ne by (simp add: logged_lines_def Cons_in_shuffles_leftI)
  next
    case 2
    then have "is_output e \<longleftrightarrow> ev_Message e \<noteq> []" by (simp add: is_output_def ev_field_def fd itoa_not_Nil)
    then show ?thesis using ih 2 ne by (simp add: logged_lines_def Cons_in_shuffles_rightI)
  next
    case 3
    then have "\<not> is_output e" using output_line by blast
    moreover have "ev_Fields e \<noteq> output_fields fd (hc_tags c)" for fd using not_output[OF assms(1) 3] .
    ultimately show ?thesis using ih by (simp add: logged_lines_def)
  qed
qed (simp add: logged_lines_def)

lemma printed_shuffle: "out \<in> shuffles xs ys \<Longrightarrow> printed_bytes out = printed_bytes xs + printed_bytes ys"
  by (induction xs ys arbitrary: out rule: shuffles.induct) (auto simp: shuffles.simps)

text \<open>The log of a session that ran one task, split at its exit.\<close>

lemma filter_single_split:
  assumes "filter P xs = [x]"
  obtains pre post where "xs = pre @ x # post" and "\<forall>y \<in> set pre. \<not> P y" and "P x" and "\<forall>y \<in> set post. \<not> P y"
proof -
  obtain us vs where "xs = us @ x # vs" "\<forall>u \<in> set us. \<not> P u" "P x" "[] = filter P vs"
    using assms by (auto simp: filter_eq_Cons_iff)
  then show thesis using that filter_empty_conv[of P vs] by metis
qed

lemma task_split:
  assumes "reachable c f0 h" and "config_ok c" and "hc_tags c FieldSession = Some (hc_sessionID c)" and "h_phase h = Returned RunOk"
    and "h_exitCode h = Some code" and "- (2 ^ 63) \<le> code" and "code < 2 ^ 63"
  shows "\<exists>pre x post. task_log h = pre @ x # post \<and> (\<forall>y \<in> set pre. \<not> exits y) \<and> exits x \<and> exit_code x = code \<and>
    shown pre \<in> shuffles (pipe_lines c h 1) (pipe_lines c h 2) \<and> list_all (task_record c) (task_log h)"
proof -
  have i: "host_inv c h" by (rule host_inv_reachable[OF assms(1,2)])
  have "h_waiter h \<noteq> NoTask" using i assms(4) by (auto simp: host_inv_def inv_phase_def)
  then have rs: "list_all (task_record c) (task_log h)"
    using inv_records_reachable[OF assms(1-3)] by (simp add: inv_records_def)
  obtain x where x: "filter exits (task_log h) = [x]" "ev_Fields x FieldExitCode = Some (itoa code)" "quiet (task_log h)"
    "\<forall>fd \<in> {1, 2}. logged_lines c fd (task_log h) = map (fst \<circ> snd) (Process (p0 c fd) (rd_seen (h_rd h fd)))"
    using returned_log[OF i assms(4)] assms(5) by auto
  obtain pre post where p: "task_log h = pre @ x # post" "\<forall>y \<in> set pre. \<not> exits y" "exits x" "\<forall>y \<in> set post. \<not> exits y"
    using filter_single_split[OF x(1)] by metis
  have e: "exit_code x = code"
    using x(2) parse_int_value_itoa[OF assms(6,7)] itoa_not_Nil[of code] by (simp add: exit_code_def ev_field_def)
  have "filter is_line (x # post) = []" using x(3) p by (simp add: quiet_def dropWhile_append2)
  then have "\<forall>y \<in> set (x # post). \<not> is_line y" by (simp only: filter_empty_conv)
  then have "filter is_output (x # post) = []" using output_line unfolding filter_empty_conv by blast
  then have "shown (task_log h) = shown pre" by (simp add: p(1) shown_def split: if_splits)
  then have "shown pre \<in> shuffles (pipe_lines c h 1) (pipe_lines c h 2)"
    using shown_shuffle[OF assms(2) rs] x(4) by (simp add: pipe_lines_def)
  then show ?thesis using p rs e by blast
qed

text \<open>What the log shows of one session.\<close>

definition session_records :: "string \<Rightarrow> fake_journal \<Rightarrow> event_record list" where
  "session_records sid f = filter (\<lambda>e. matchesFilters e [FilterBySession sid]) (fj_entries f)"

text \<open>Nothing of the session was printed and it did not end before its task was started.\<close>

definition first_task :: "string \<Rightarrow> host \<Rightarrow> bool" where
  "first_task sid h \<longleftrightarrow> list_all (\<lambda>e. matchesFilters e [FilterBySession sid] \<longrightarrow> \<not> exits e \<and> \<not> is_output e)
     (take (h_base h) (fj_entries (h_log h)))"

lemma session_split:
  assumes "first_task (hc_sessionID c) h" and "list_all (task_record c) (task_log h)"
  shows "\<exists>old. session_records (hc_sessionID c) (h_log h) = old @ task_log h \<and> (\<forall>y \<in> set old. \<not> exits y) \<and> shown old = []"
proof -
  let ?m = "\<lambda>e. matchesFilters e [FilterBySession (hc_sessionID c)]"
  have "filter ?m (task_log h) = task_log h"
    using assms(2) by (intro filter_True) (auto simp: list_all_iff task_record_def matchesFilters_def FilterBySession_def)
  moreover have "fj_entries (h_log h) = take (h_base h) (fj_entries (h_log h)) @ task_log h" by (simp add: task_log_def)
  ultimately have "session_records (hc_sessionID c) (h_log h) = filter ?m (take (h_base h) (fj_entries (h_log h))) @ task_log h"
    unfolding session_records_def by (metis filter_append)
  moreover have "\<forall>y \<in> set (filter ?m (take (h_base h) (fj_entries (h_log h)))). \<not> exits y \<and> \<not> is_output y"
    using assms(1) by (auto simp: first_task_def list_all_iff)
  then have "(\<forall>y \<in> set (filter ?m (take (h_base h) (fj_entries (h_log h)))). \<not> exits y) \<and>
      shown (filter ?m (take (h_base h) (fj_entries (h_log h)))) = []"
    by (simp add: shown_def filter_empty_conv)
  ultimately show ?thesis by blast
qed

section \<open>The log as a database\<close>

text \<open>
  The log of \<open>HostLifecycle\<close> is the in-memory one; that of a portable host is the database, which adds
  two fields to a record. What a follower makes of a record it makes of its copy.
\<close>

definition copied :: "event_record \<Rightarrow> event_record \<Rightarrow> bool" where
  "copied e r \<longleftrightarrow> ev_Message r = ev_Message e \<and> ev_Fields r = stored_fields (ev_Message e) (ev_Fields e)"

definition recorded_in :: "(string \<Rightarrow> fieldmap option) \<Rightarrow> fake_journal \<Rightarrow> sq_db \<Rightarrow> bool" where
  "recorded_in dec f db \<longleftrightarrow> list_all2 copied (fj_entries f) (take (length (fj_entries f)) (sq_recs dec db))"

lemma copied_alike:
  assumes "copied e r"
  shows "ev_Message r = ev_Message e" and "exits r \<longleftrightarrow> exits e" and "exit_code r = exit_code e" and "is_output r \<longleftrightarrow> is_output e"
    and "matchesFilters r [FilterBySession sid] \<longleftrightarrow> matchesFilters e [FilterBySession sid]"
  using assms
  by (simp_all add: copied_def stored_fields_def exits_def exit_code_def is_output_def ev_field_def matchesFilters_def
      FilterBySession_def field_names)

lemma copied_shown: "list_all2 copied es rs \<Longrightarrow> shown rs = shown es"
  by (induction rule: list_all2_induct) (simp_all add: shown_def copied_alike)

lemma copied_exits: "list_all2 copied es rs \<Longrightarrow> \<forall>y \<in> set es. \<not> exits y \<Longrightarrow> \<forall>y \<in> set rs. \<not> exits y"
  by (induction rule: list_all2_induct) (auto simp: copied_alike)

lemma copied_session:
  "list_all2 copied es rs \<Longrightarrow> list_all2 copied (filter (\<lambda>e. matchesFilters e [FilterBySession sid]) es)
     (filter (\<lambda>e. matchesFilters e [FilterBySession sid]) rs)"
  by (induction rule: list_all2_induct) (simp_all add: copied_alike)

lemma list_all2_split:
  assumes "list_all2 P (xs @ y # zs) rs"
  obtains xs' y' zs' where "rs = xs' @ y' # zs'" and "list_all2 P xs xs'" and "P y y'"
  using assms by (auto simp: list_all2_append1 list_all2_Cons1)

text \<open>Any records with finitely many fields can be in the database.\<close>

lemma recordable:
  assumes "\<forall>e \<in> set es. finite (dom (ev_Fields e))" and "int (length es) < 2 ^ 63"
  shows "\<exists>dec db. sq_ok dec db \<and> list_all2 copied es (sq_recs dec db)"
proof -
  let ?sf = "\<lambda>k. stored_fields (ev_Message (es ! k)) (ev_Fields (es ! k))"
  let ?dec = "\<lambda>s. Some (?sf (nat (parse_int_value s)))"
  have "\<exists>db. sq_ok ?dec db \<and> sq_seq db = int n \<and> list_all2 copied (take n es) (sq_recs ?dec db)" if "n \<le> length es" for n
    using that
  proof (induction n)
    case 0
    then show ?case using sq_ok_empty by (intro exI[of _ empty_db]) (simp add: empty_db_def sq_recs_def)
  next
    case (Suc n)
    then obtain db where db: "sq_ok ?dec db" "sq_seq db = int n" "list_all2 copied (take n es) (sq_recs ?dec db)" by auto
    let ?e = "es ! n"
    let ?db = "committed 0 (itoa (int n)) (ev_Message ?e) (key_values (?sf n)) db"
    have "?e \<in> set es" using Suc.prems by simp
    then have "sq_storable (\<lambda>_. itoa (int n)) ?dec db (ev_Message ?e) (ev_Fields ?e)"
      using assms Suc.prems db(2) by (simp add: sq_storable_def parse_int_value_itoa)
    note new = committed_sim[OF db(1) this, of 0]
    have "copied ?e (stored_record (sq_seq db + 1) 0 (ev_Message ?e) (ev_Fields ?e))"
      by (simp add: copied_def stored_record_def)
    then have "list_all2 copied (take (Suc n) es) (sq_recs ?dec ?db)"
      using new Suc.prems by (simp only: take_Suc_conv_app_nth Suc_le_eq list_all2_appendI[OF db(3)] list_all2_Cons list_all2_Nil)
    moreover have "sq_seq ?db = int (Suc n)" by (simp only: committed_def Let_def db(2) sq_db.simps of_nat_Suc add.commute)
    ultimately show ?case using new by (intro exI[of _ ?db] conjI) (simp_all only:)
  qed
  from this[of "length es"] show ?thesis by auto
qed

text \<open>A follower of the database reads the copies of the records of a session, in order.\<close>

lemma session_followed:
  assumes "log_states (sq_ok dec) (sq_recs dec) (db # dbs)" and "recorded_in dec f (last (db # dbs))"
  shows "\<exists>rs later. SQLiteFollow dec [FilterBySession sid] [] (map (Pair False) (db # dbs)) = rs @ later \<and>
    list_all2 copied (session_records sid f) rs"
proof -
  let ?m = "\<lambda>e. matchesFilters e [FilterBySession sid]" and ?recs = "sq_recs dec (last (db # dbs))"
  let ?n = "length (fj_entries f)"
  have "cursor_at (sq_recs dec db) [FilterBySession sid] [] 0" by (simp add: cursor_at_def)
  from sqlite_follow_once[OF assms(1) _ this]
  have "SQLiteFollow dec [FilterBySession sid] [] (map (Pair False) (db # dbs)) = filter ?m ?recs" by simp
  also have "\<dots> = filter ?m (take ?n ?recs) @ filter ?m (drop ?n ?recs)" by (metis append_take_drop_id filter_append)
  finally show ?thesis
    using copied_session[OF assms(2)[unfolded recorded_in_def], of sid] unfolding session_records_def by blast
qed

section \<open>From pipe to terminal\<close>

text \<open>
  C23. \<open>swash run\<close> over the portable backend shows its user what the task wrote. Take any interleaving
  of the goroutines of the host up to a \<open>RunTask\<close> that returned without error, a database that has taken
  its records, and any states of this database seen on the way by the command that follows it: then
  the output of the command is the lines of both pipes that are not blank, each line whole, those of
  each pipe in the order they were written, and its status is the one the process exited with. This is
  for the first task of a session, and where the output is within the limit.
\<close>

theorem run_shows_task:
  assumes "reachable c f0 h" and "config_ok c" and "hc_tags c FieldSession = Some (hc_sessionID c)"
    and "h_phase h = Returned RunOk" and "first_task (hc_sessionID c) h"
    and "h_exitCode h = Some code" and "- (2 ^ 63) \<le> code" and "code < 2 ^ 63"
    and "log_states (sq_ok dec) (sq_recs dec) (db # dbs)" and "recorded_in dec (h_log h) (last (db # dbs))"
    and "initBackend mc (fl_backend fl) = (Inr (portable_backend pe poll emit), e)"
    and "run_options mc e fl (fl_tty fl) (fl_rows fl) (fl_cols fl) = Inr opts"
    and "pb_StartSession pe command opts w = (Inr (hc_sessionID c), w1)" and "pe_shared pe = None"
    and "pe_follow pe (hc_sessionID c) d False w1 =
      (SQLiteFollow dec [FilterBySession (hc_sessionID c)] [] (map (Pair False) (db # dbs)), deadline, w2)"
    and "\<not> mw_interrupt mw" and "d \<noteq> 0"
    and "limit \<le> 0 \<or> printed_bytes (pipe_lines c h 1) + printed_bytes (pipe_lines c h 2) \<le> limit"
  shows "\<exists>r. cmdRun mc fl command d limit mw w = Some r \<and> oc_status r = code \<and> oc_world r = w2 \<and>
    (\<exists>out \<in> shuffles (pipe_lines c h 1) (pipe_lines c h 2). oc_out r = lines_text out)"
proof -
  obtain pre x post where p: "task_log h = pre @ x # post" "\<forall>y \<in> set pre. \<not> exits y" "exits x" "exit_code x = code"
    "shown pre \<in> shuffles (pipe_lines c h 1) (pipe_lines c h 2)" "list_all (task_record c) (task_log h)"
    using task_split[OF assms(1-4,6-8)] by blast
  obtain old where o: "session_records (hc_sessionID c) (h_log h) = old @ task_log h" "\<forall>y \<in> set old. \<not> exits y" "shown old = []"
    using session_split[OF assms(5) p(6)] by blast
  obtain rs later where f: "SQLiteFollow dec [FilterBySession (hc_sessionID c)] [] (map (Pair False) (db # dbs)) = rs @ later"
    "list_all2 copied ((old @ pre) @ x # post) rs"
    using session_followed[OF assms(9,10), of "hc_sessionID c"] o(1) p(1) by auto
  obtain pre' x' post' where r: "rs = pre' @ x' # post'" "list_all2 copied (old @ pre) pre'" "copied x x'"
    using list_all2_split[OF f(2)] by blast
  have n: "\<forall>y \<in> set pre'. \<not> exits y" using copied_exits[OF r(2)] o(2) p(2) by auto
  have s: "shown pre' = shown pre" using copied_shown[OF r(2)] o(3) by simp
  have l: "in_limit limit pre'" using assms(18) printed_shuffle[OF p(5)] s by (simp add: in_limit_def)
  have "exits x'" "exit_code x' = code" using copied_alike[OF r(3)] p(3,4) by simp_all
  then have "FollowSession_posix True limit (rs @ later) deadline = (shown pre, (code, FollowCompleted))"
    using px_follow_ends(2)[OF n l, of x' "post' @ later" deadline] r(1) s by simp
  from run_followed[OF assms(11-14) assms(15)[unfolded f(1)] assms(16,17) this] show ?thesis
    using p(5) by (auto simp: end_status_def)
qed

text \<open>A task that prints \<open>hi\<close> without an end of line and exits with 7.\<close>

definition hi_config :: host_config where
  "hi_config = NewHost ''AAA000'' [''true''] ProtocolShell Map.empty Map.empty"

lemma hi_config_ok: "config_ok hi_config" "hc_tags hi_config FieldSession = Some (hc_sessionID hi_config)"
  by (simp_all add: hi_config_def NewHost_def config_ok_def field_names)

lemma hi_chunk:
  "reader_chunk (p0 hi_config 1) (''hi'', True) = ([(1, ''hi'', hc_tags hi_config)], (p0 hi_config 1)\<lparr>pr_buf := ''hi''\<rparr>)"
  "reader_chunk (p0 hi_config 2) ([], True) = ([], p0 hi_config 2)"
  using go_split_single_noop[of "CHR 0x0A" "''hi''"]
  by (simp_all add: reader_chunk_def p0_def NewProtocolReader_def hi_config_def NewHost_def handle_def emit_lines_split newline_def)

lemma fake_write_open: "\<not> fj_closed f \<Longrightarrow> \<exists>f'. logs m fs f True f' \<and> \<not> fj_closed f'"
  using logs_ok[of 0 m fs f] by (auto simp: FakeWrite_def writeEntry_def Let_def)

lemma hi_run:
  "\<exists>h. reachable hi_config NewFakeJournal h \<and> h_phase h = Returned RunOk \<and> h_exitCode h = Some 7 \<and> h_base h = 0 \<and>
     rd_seen (h_rd h 1) = [(''hi'', True)] \<and> rd_seen (h_rd h 2) = [([], True)] \<and>
     length (fj_entries (h_log h)) = 3 \<and> (\<forall>e \<in> set (fj_entries (h_log h)). finite (dom (ev_Fields e)))"
proof -
  let ?c = hi_config
  let ?h1 = "start_task ?c (host_init NewFakeJournal)"
  have rd: "h_rd ?h1 fd = new_reader (p0 ?c fd)" for fd by (simp add: start_task_def p0_def)
  note c1 = hi_chunk(1) and c2 = hi_chunk(2)
  obtain f2 where f2: "logs ''Session started'' (started_fields (hc_sessionID ?c) (hc_command ?c) (mergeFields (hc_tags ?c) (hc_started ?c)))
      NewFakeJournal True f2" "\<not> fj_closed f2"
    using fake_write_open[of NewFakeJournal] by (auto simp: NewFakeJournal_def)
  obtain f3 where f3: "logs ''hi'' (output_fields 1 (hc_tags ?c)) f2 True f3" "\<not> fj_closed f3" using fake_write_open[OF f2(2)] by blast
  obtain f4 where f4: "logs ''Session exited'' (exited_fields (hc_sessionID ?c) 7 (hc_command ?c) (mergeFields (hc_tags ?c) (ExitFields zeroStats)))
      f3 True f4" using fake_write_open[OF f3(2)] by blast
  let ?h2 = "?h1\<lparr>h_log := f2, h_phase := (if True then Notify else Terminating EventError)\<rparr>"
  let ?h3 = "?h2\<lparr>h_phase := Waiting\<rparr>"
  let ?h4 = "?h3\<lparr>h_rd := (h_rd ?h3)(1 := rd_read (''hi'', True) (h_rd ?h3 1))\<rparr>"
  let ?h5 = "logged True f3 (?h4\<lparr>h_rd := (h_rd ?h4)(1 := (h_rd ?h4 1)\<lparr>rd_queue := []\<rparr>)\<rparr>)"
  let ?h6 = "?h5\<lparr>h_rd := (h_rd ?h5)(2 := rd_read ([], True) (h_rd ?h5 2))\<rparr>"
  let ?h7 = "?h6\<lparr>h_waiter := Reaped 7\<rparr>"
  let ?h8 = "set_exited 7 ?h7"
  let ?h9 = "logged True f4 (?h8\<lparr>h_waiter := Finished\<rparr>)"
  let ?h10 = "?h9\<lparr>h_phase := Returned (if h_eventError ?h9 then EventError else RunOk), h_eventError := False\<rparr>"
  note defs = start_task_def logged_def set_exited_def host_init_def
  have q: "h_rd ?h4 1 = \<lparr>rd_p = (p0 ?c 1)\<lparr>pr_buf := ''hi''\<rparr>, rd_queue = [(1, ''hi'', hc_tags ?c)], rd_open = False, rd_seen = [(''hi'', True)]\<rparr>"
    using rd[of 1] by (simp add: rd_read_def new_reader_def c1)
  have q2: "h_rd ?h6 1 = (h_rd ?h4 1)\<lparr>rd_queue := []\<rparr>"
    "h_rd ?h6 2 = \<lparr>rd_p = p0 ?c 2, rd_queue = [], rd_open = False, rd_seen = [([], True)]\<rparr>"
    using rd[of 2] by (simp_all add: logged_def rd_read_def new_reader_def c2)
  have r1: "reachable ?c NewFakeJournal ?h1"
    by (rule reachable.step[OF reachable.init started]) (simp add: host_init_def)
  have r2: "reachable ?c NewFakeJournal ?h2"
    by (rule reachable.step[OF r1 emit_started]) (use f2(1) in \<open>simp_all add: EmitStarted_def defs\<close>)
  have r3: "reachable ?c NewFakeJournal ?h3" by (rule reachable.step[OF r2 notified]) simp
  have r4: "reachable ?c NewFakeJournal ?h4"
    by (rule reachable.step[OF r3 read_chunk]) (simp_all add: rd new_reader_def, simp_all add: start_task_def)
  have r5: "reachable ?c NewFakeJournal ?h5"
    by (rule reachable.step[OF r4 write_line[where n = 1 and l = "''hi''" and fs = "hc_tags ?c" and m = "''hi''" and
          fs' = "output_fields 1 (hc_tags ?c)"]])
      (use q f3(1) in \<open>simp_all add: WriteOutput_def\<close>, simp add: start_task_def)
  have r6: "reachable ?c NewFakeJournal ?h6"
    by (rule reachable.step[OF r5 read_chunk]) (simp_all add: logged_def rd new_reader_def, simp_all add: start_task_def)
  have r7: "reachable ?c NewFakeJournal ?h7" by (rule reachable.step[OF r6 reaped]) (simp add: defs)
  have r8: "reachable ?c NewFakeJournal ?h8"
    by (rule reachable.step[OF r7 exited]) (use q q2 in \<open>simp_all add: readers_done_def\<close>)
  have r9: "reachable ?c NewFakeJournal ?h9"
    by (rule reachable.step[OF r8 emit_exited[where code = 7 and usage = zeroStats and ok = True and f = f4]])
      (use f4 in \<open>simp_all add: EmitExited_def defs\<close>)
  have r10: "reachable ?c NewFakeJournal ?h10" by (rule reachable.step[OF r9 task_done]) (simp_all add: defs)
  have fin: "finite (dom (hc_tags ?c))" "finite (dom (hc_started ?c))" "finite (dom (ExitFields zeroStats))"
    by (simp_all add: hi_config_def NewHost_def ExitFields_def some_total_def)
  have "h_log ?h10 = f4" by (simp add: defs)
  moreover have "length (fj_entries f4) = 3 \<and> (\<forall>e \<in> set (fj_entries f4). finite (dom (ev_Fields e)))"
    using logs_entries[OF f2(1)] logs_entries[OF f3(1)] logs_entries[OF f4] fin
    by (auto simp: NewFakeJournal_def started_fields_def exited_fields_def output_fields_def mergeFields_def)
  moreover have "h_rd ?h10 = h_rd ?h6" by (simp add: logged_def set_exited_def)
  ultimately show ?thesis
    by (intro exI[of _ ?h10] conjI r10) (use q q2 in \<open>simp_all add: defs NewFakeJournal_def\<close>)
qed

lemma hi_lines:
  assumes "rd_seen (h_rd h 1) = [(''hi'', True)]" and "rd_seen (h_rd h 2) = [([], True)]"
  shows "pipe_lines hi_config h 1 = [''hi'']" and "pipe_lines hi_config h 2 = []"
proof -
  have "pr_buf (p0 hi_config fd) = []" for fd by (simp add: p0_def NewProtocolReader_def)
  from feed_Process[OF this, of 1 "[(''hi'', True)]"] feed_Process[OF this, of 2 "[([], True)]"]
  show "pipe_lines hi_config h 1 = [''hi'']" "pipe_lines hi_config h 2 = []"
    by (simp_all add: pipe_lines_def assms hi_chunk flip: feed_Process[OF \<open>pr_buf (p0 hi_config _) = []\<close>])
qed

theorem run_shows_task_witness:
  "\<exists>h dec db. reachable hi_config NewFakeJournal h \<and> recorded_in dec (h_log h) db \<and>
    (\<exists>r :: (px_world \<times> unit) outcome. Some r = cmdRun
      (sample_machine (portable_backend (sample_portable (SQLiteFollow dec [FilterBySession ''AAA000''] [] [(False, db)]))
        (\<lambda>_ _ _. Inl Timeout) (\<lambda>_ _ w. (Inl Timeout, w))) sample_emit sample_query)
      sample_flags [''true''] 3000000000 1920 calm_wait (empty_root, ()) \<and> oc_out r = ''hi'' @ [CHR 0x0A] \<and> oc_status r = 7)"
proof -
  obtain h where h: "reachable hi_config NewFakeJournal h" "h_phase h = Returned RunOk" "h_exitCode h = Some 7" "h_base h = 0"
    "rd_seen (h_rd h 1) = [(''hi'', True)]" "rd_seen (h_rd h 2) = [([], True)]" "length (fj_entries (h_log h)) = 3"
    "\<forall>e \<in> set (fj_entries (h_log h)). finite (dom (ev_Fields e))" using hi_run by blast
  note pl = hi_lines[OF h(5,6)]
  obtain dec db where d: "sq_ok dec db" "list_all2 copied (fj_entries (h_log h)) (sq_recs dec db)"
    using recordable[OF h(8)] h(7) by auto
  have ls: "log_states (sq_ok dec) (sq_recs dec) [db]" using d(1) by simp
  have ri: "recorded_in dec (h_log h) (last [db])" using d(2) list_all2_lengthD[OF d(2)] by (simp add: recorded_in_def)
  have sid: "hc_sessionID hi_config = ''AAA000''" by (simp add: hi_config_def NewHost_def)
  let ?es = "SQLiteFollow dec [FilterBySession (hc_sessionID hi_config)] [] (map (Pair False) [db])"
  let ?pe = "sample_portable ?es :: unit portable_env"
  let ?bk = "portable_backend ?pe (\<lambda>_ _ _. Inl Timeout) (\<lambda>_ _ w. (Inl Timeout, w))"
  let ?mc = "sample_machine ?bk sample_emit sample_query"
  let ?mw = "calm_wait :: (px_world \<times> unit) meanwhile"
  obtain e where e: "initBackend ?mc (fl_backend sample_flags) = (Inr ?bk, e)"
    using sample_opened[of ?bk sample_emit sample_query] by (auto simp: sample_flags_def)
  obtain opts where o: "run_options ?mc e sample_flags (fl_tty sample_flags) (fl_rows sample_flags) (fl_cols sample_flags) = Inr opts"
    by (simp add: run_options_def sessionLimits_def sample_flags_def)
  obtain w' where st: "pb_StartSession ?pe [''true''] opts (empty_root, ()) = (Inr (hc_sessionID hi_config), w')"
    using sample_started[of ?es "[''true'']" opts "()"] unfolding sid by blast
  have f: "pe_follow ?pe (hc_sessionID hi_config) 3000000000 False w' = (?es, False, w')" by (simp add: sample_portable_def)
  have sh: "pe_shared ?pe = None" by (simp add: sample_portable_def)
  have i: "\<not> mw_interrupt ?mw" by (simp add: calm_wait_def)
  have t: "first_task (hc_sessionID hi_config) h" by (simp add: first_task_def h(4))
  have b: "(1920 :: int) \<le> 0 \<or> printed_bytes (pipe_lines hi_config h 1) + printed_bytes (pipe_lines hi_config h 2) \<le> 1920"
    by (simp add: pl)
  have "\<exists>r. cmdRun ?mc sample_flags [''true''] 3000000000 1920 ?mw (empty_root, ()) = Some r \<and> oc_status r = 7 \<and> oc_world r = w' \<and>
      (\<exists>out \<in> shuffles (pipe_lines hi_config h 1) (pipe_lines hi_config h 2). oc_out r = lines_text out)"
    by (rule run_shows_task[OF h(1) hi_config_ok h(2) t h(3) _ _ ls ri e o st sh f i _ b]) simp_all
  then obtain r where r: "cmdRun ?mc sample_flags [''true''] 3000000000 1920 ?mw (empty_root, ()) = Some r" "oc_status r = 7"
    "oc_out r = ''hi'' @ [CHR 0x0A]" by (auto simp: pl lines_text_def println_def)
  show ?thesis
    by (intro exI[of _ h] exI[of _ dec] exI[of _ db] exI[of _ r] conjI h(1) r(2,3))
      (use ri r(1) in \<open>simp_all add: sid\<close>)
qed

end
