(* ===== verification/JournalTool.thy ===== *)
theory JournalTool
  imports JournalRoundtrip "HOL-Library.Multiset"
begin

text \<open>
  \<open>cmd/devtools/test-journal\<close>: a tool that writes a small journal file with the writer of
  \<open>pkg/journalfile\<close>. \<open>order\<close> is the order in which Go walks the map of the fields of an entry, \<open>clock\<close>
  the times of the entries, \<open>fid\<close> and \<open>seq\<close> the random identifiers of \<open>Create\<close>.
\<close>

definition mini_machine :: id128 where "mini_machine = ''0123456789abcdef''"
definition mini_boot :: id128 where "mini_boot = ''fedcba9876543210''"

definition mini_fields :: "nat \<Rightarrow> (string \<times> string) list" where
  "mini_fields i =
     [(''MESSAGE'', ''Hello from Go journal writer #'' @ itoa (int i)), (''PRIORITY'', ''6''), (''_PID'', ''12345''),
      (''SYSLOG_IDENTIFIER'', ''mini-test'')]"

definition mini_entries :: "(nat \<Rightarrow> (string \<times> string) list \<Rightarrow> (string \<times> string) list) \<Rightarrow> (nat \<Rightarrow> u64) \<Rightarrow>
    (u64 \<times> (string \<times> string) list) list" where
  "mini_entries order clock = map (\<lambda>i. (clock i, order i (mini_fields i))) [0..<5]"

text \<open>What is printed, or the error of the panic, and the file that is left. The error of \<open>Close\<close> is dropped.\<close>

definition mini_main ::
  "siphash \<Rightarrow> (nat \<Rightarrow> (string \<times> string) list \<Rightarrow> (string \<times> string) list) \<Rightarrow> (nat \<Rightarrow> u64) \<Rightarrow> id128 option \<Rightarrow> id128 option \<Rightarrow>
   string option \<Rightarrow> (jerr + string) \<times> string option" where
  "mini_main sip order clock fid seq existing =
     (case Create ''/tmp/mini.journal'' existing [] mini_machine mini_boot fid seq of
        (Inl e, content) \<Rightarrow> (Inl e, content)
      | (Inr jf, _) \<Rightarrow>
          (case append_all sip (mini_entries order clock) jf of
             (Inl e, jf) \<Rightarrow> (Inl e, Some (bytes (jf_f jf)))
           | (Inr _, jf) \<Rightarrow> (case Close jf of
                (_, jf) \<Rightarrow> (Inr (''Created /tmp/mini.journal'' @ [CHR 0x0A]), Some (bytes (jf_f jf))))))"

section \<open>What it writes can be read\<close>

lemma mini_existing: "mini_main sip order clock fid seq (Some old) = (Inl (Wrap ''create journal file'' OsErr), Some old)"
  by (simp add: mini_main_def Create_def)

lemma close_bytes: "bytes (jf_f (snd (on_disk os_close s))) = bytes (jf_f s)"
  by (simp add: on_disk_def liftE_def os_close_def syscall_def split: list.splits option.splits)

lemma mini_named: "kv \<in> set (mini_fields i) \<Longrightarrow> CHR ''='' \<notin> set (fst kv)"
  by (auto simp: mini_fields_def)

lemma mini_cost: "i < 5 \<Longrightarrow> entry_cost (mini_fields i) \<le> 2000"
proof -
  assume "i < 5"
  then have "itoa (int i) = [digit_char i]" by (simp add: itoa_def format_uint_def itoa_base.simps)
  then show "entry_cost (mini_fields i) \<le> 2000" by (simp add: entry_cost_def data_cost_def mini_fields_def datum_def)
qed

lemma mini_journal_read:
  assumes "no_collision sip fid (data_of (mini_entries order clock))" and "length fid = 16" and "length seq = 16"
    and "\<And>i kvs. mset (order i kvs) = mset kvs"
  shows "\<exists>content. mini_main sip order clock (Some fid) (Some seq) None =
      (Inr (''Created /tmp/mini.journal'' @ [CHR 0x0A]), Some content) \<and>
    read_file ''/tmp/mini.journal'' content None ms 6 =
      Inr (filter (matchesEntry ms) (seen 0 mini_boot (mini_entries order clock)), Some EOF)"
proof -
  let ?es = "mini_entries order clock" and ?path = "''/tmp/mini.journal''"
  have n: "named ?es"
    using mset_eq_setD[OF assms(4)] by (simp add: named_def mini_entries_def list_all_iff mini_named)
  have cost: "entry_cost (order i (mini_fields i)) = entry_cost (mini_fields i)" for i
  proof -
    have "data_cost (order i (mini_fields i)) = data_cost (mini_fields i)"
      unfolding data_cost_def sum_mset_sum_list[symmetric] mset_map assms(4) ..
    moreover have "length (order i (mini_fields i)) = length (mini_fields i)" by (rule mset_eq_length[OF assms(4)])
    ultimately show ?thesis by (simp add: entry_cost_def)
  qed
  have "total_cost ?es = (\<Sum>i \<leftarrow> [0..<5]. entry_cost (mini_fields i))"
    by (simp only: total_cost_def mini_entries_def map_map comp_def snd_conv cost)
  also have "\<dots> \<le> (\<Sum>i \<leftarrow> [0..<5 :: nat]. 2000)" by (rule sum_list_mono) (simp add: mini_cost)
  also have "\<dots> = 10000" by (simp add: sum_list_triv)
  finally have room: "initial_size + total_cost ?es < 2 ^ 32" by (simp add: initial_size_def)
  have ids: "ids_ok mini_machine mini_boot fid seq" using assms(2,3) by (simp add: ids_ok_def mini_machine_def mini_boot_def)
  obtain s h as ps where w: "write_file sip ?path mini_machine mini_boot fid seq ?es = Inr s"
    "log_inv sip (data_of ?es) s h as ps (stamp mini_boot ?es)" "\<not> jf_dirty s"
    using write_file_run[OF ids n assms(1) subset_refl room, where path = ?path] by blast
  obtain s0 d s1 where c: "Create ?path None [] mini_machine mini_boot (Some fid) (Some seq) = (Inr s0, d)"
    "append_all sip ?es s0 = (Inr (), s1)" "Sync s1 = (Inr (), s)"
    using w(1) by (auto simp: write_file_def thenE_def bindE_def split: prod.splits sum.splits)
  have "bytes (jf_f (snd (Close s1))) = bytes (jf_f s)"
    using c(3) close_bytes[of s] by (simp add: Close_def Sync_def thenE_Inr)
  then have m: "mini_main sip order clock (Some fid) (Some seq) None =
      (Inr (''Created /tmp/mini.journal'' @ [CHR 0x0A]), Some (bytes (jf_f s)))"
    by (simp add: mini_main_def c(1,2) case_prod_beta)
  have "read_file ?path (bytes (jf_f s)) None ms 6 = Inr (filter (matchesEntry ms) (entries_from 0 (stamp mini_boot ?es)), Some EOF)"
    using read_log[OF w(2,3) named_stamp[OF n], where cursor = None and c = 0 and fuel = 6 and path = ?path and ms = ms] by (simp add: mini_entries_def)
  then show ?thesis using m entries_stamp[of mini_boot ?es] by metis
qed

end
