(* ===== verification/Spec2Isabelle.thy ===== *)
theory Spec2Isabelle
  imports JournalRoundtrip SystemdUnits TTYLifecycle SqliteLog SocketSink ControlSocket Sampler PosixBackend AttachView SdJournal CommandRuns DBusControl SystemdBackend Openings OtherSystems TaskRuns JournalTool
begin

text \<open>
  A verification development of swash, a program that runs commands as sessions one can leave and
  come back to. Every definition that models code is written after the Go sources, operation by
  operation; the theorems are about these definitions.

  \<^bold>\<open>How the program is put together.\<close> \<open>swash\<close> (\<open>cmd/swash\<close>) opens one of two backends
  (\<open>internal/backend\<close>): over systemd, where a session is a transient unit and the event log the system
  journal, or portable, where a session is a process of its own and the log a SQLite database. Either
  starts a host (\<open>swash host\<close>, \<open>internal/host\<close>), which runs the command on pipes or, with a terminal
  emulator (\<open>vterm\<close>), on a pseudo-terminal, splits its output into log entries (\<open>internal/protocol\<close>),
  samples what it uses, and records its start, its exit and its screen (\<open>internal/journal\<close>). The
  commands talk to a host over D-Bus or its control socket, and otherwise read the log. An attached
  terminal is drawn by \<open>internal/attach\<close>. \<open>pkg/journalfile\<close> reads and writes the files of the system
  journal.

  \<^bold>\<open>Theories, bottom up.\<close>

  \<^item> Shared ground. \<open>Prelude\<close>: words, bytes, the monad of errors and state. \<open>GoStrings\<close>, \<open>GoPaths\<close>,
    \<open>GoJson\<close>, \<open>Float64\<close>: what the sources use of the standard library (\<open>strings\<close>, \<open>strconv\<close>,
    \<open>path/filepath\<close>, \<open>encoding/json\<close>, of values of any shape in \<open>GoJsonValue\<close>, and \<open>float64\<close>, exactly, with bounds on its
    rounding in \<open>FloatBounds\<close>). \<open>OsFile\<close>: an open file whose calls may fail.
  \<^item> Journal files (\<open>pkg/journalfile\<close>). \<open>Lookup3\<close>: the hash. \<open>Codec\<close>: the structures on disk; their round
    trips are the locale \<open>codec\<close>, interpreted on each. \<open>JournalWriter\<close>, \<open>JournalReader\<close>: every method of
    the writer and the reader. \<open>ObjectHeap\<close>, \<open>WriterInvariant\<close>, \<open>WriterSteps\<close>, \<open>WriterLog\<close>, \<open>ReaderLog\<close>:
    the abstract view, a file as a heap of objects and as a list of entries, the invariant of the
    writer and the refinement of both. \<open>JournalRoundtrip\<close>: what a reader sees of what a writer wrote. \<open>JournalTool\<close>:
    the test tool in \<open>cmd/devtools\<close>.
  \<^item> Events (\<open>internal/journal\<close>). \<open>EventLog\<close>: records, the helpers, the in-memory and the combined log,
    and the interface of an event log, the locales \<open>event_source\<close> and \<open>event_log\<close>. \<open>SqliteLog\<close>: the
    portable log; both logs are interpretations. \<open>SocketSink\<close>, \<open>SdJournal\<close>: writing to and reading from
    the system journal. \<open>Openings\<close>: opening the database, sockets and streams.
  \<^item> Hosts (\<open>internal/host\<close>, \<open>internal/protocol\<close>, \<open>vterm\<close>). \<open>Protocol\<close>: output to entries.
    \<open>HostLifecycle\<close>: \<open>RunTask\<close> of a plain host as a step relation of its goroutines. \<open>TaskProcess\<close>:
    starting and killing the processes of a task, recording samples; \<open>OtherSystems\<close>: the
    files for systems other than Linux. \<open>Sampler\<close>, \<open>SessionStats\<close>,
    \<open>StatsJson\<close>, \<open>StatsEncoding\<close>: samples, totals, samples as JSON, and why each has one. \<open>Terminal\<close>,
    \<open>TerminalBinding\<close>: cells, their rendering, every method of \<open>VTerm\<close>.
    \<open>TTYHost\<close>, \<open>TTYLifecycle\<close>: the terminal host, its locks and clients, again as a step relation.
    \<open>ControlSocket\<close>, \<open>DBusControl\<close>: the two ways to reach a host, client and server.
  \<^item> Backends (\<open>internal/backend\<close>). \<open>ResourceLimits\<close>, \<open>SystemdUnits\<close>, \<open>SessionStart\<close>: limits, units, and
    how a session gets to its host. \<open>SessionLog\<close>: output, following, screens and history read out of the
    log. \<open>PosixBackend\<close>: the directory of sessions. \<open>Backends\<close>: choosing and opening a backend, the
    interface as a record, and its contract towards its log, the locale \<open>session_log\<close>.
    \<open>PortableBackend\<close>, \<open>SystemdBackend\<close>: each backend as a whole, interpreting that contract.
  \<^item> The command line (\<open>cmd/swash\<close>, \<open>internal/attach\<close>). \<open>CommandText\<close>, \<open>StatsReport\<close>: what is read and
    printed. \<open>CommandLine\<close>: every command, from its parsed flags to text, exit status and state.
    \<open>AttachView\<close>: the view of an attached terminal. \<open>CommandRuns\<close>: commands end to end;
    \<open>TaskRuns\<close>: from the pipes of a task, through its host and the database of
    its log, to the terminal of the user.

  \<^bold>\<open>Conventions.\<close> A Go string or byte slice is a list of bytes; integers that may wrap around are words
  of their width, others \<open>int\<close>; a struct is a record, an error a value of a sum or option type, a panic
  its own error or \<open>None\<close>. Maps are functions into options; where Go walks one in an unspecified order,
  the order is a parameter. Goroutines are step relations (\<open>host_step\<close>, \<open>tty_step\<close>) with one rule for
  each action between two synchronisations, so that theorems about reachable states hold for every
  interleaving; or, for a loop over a \<open>select\<close>, the sequence of branches taken is a parameter and the
  theorems hold for all of them. Code that is not in the repository is a parameter: libvterm and the
  WebAssembly runtime, the D-Bus, SQLite and libsystemd libraries, SHA-256 and SipHash, flag parsing,
  the kernel. What a theorem needs of such a parameter is a hypothesis named in its statement
  (\<open>documented\<close>, \<open>steady\<close>, \<open>kernel_numbers\<close>,
  \<open>sendable\<close>, \<open>sq_storable\<close>), and its witness gives a parameter that satisfies it.

  \<^bold>\<open>What is shown.\<close> Each property stands in the theory of its component under the number by which the
  manifest lists it.

  \<^item> C1 to C5: a journal file gives back what was written, from any cursor, across writers and while it
    grows; a reader that began with an empty file never sees anything.
  \<^item> C6, C7: how output is cut into reads does not matter to what is logged.
  \<^item> C8, C33 to C35: the logs: reading the system journal, the database as a sequence of records, writing
    that returns, and messages on the socket that decode to what was sent.
  \<^item> C9, C36, C37: the control interfaces carry calls unchanged, except that the exit of any session on
    the bus is taken for that of one's own.
  \<^item> C10, C11, C39, C40: limits mean what they say, and either backend starts the session asked for.
  \<^item> C12, C13, C28, C29, C32: the terminal: frames inside the screen, views up to date, rows rendered
    faithfully, memory given back, scrollback and clients well formed.
  \<^item> C14, C24 to C27, C30, C31: hosts: one start, all output, one exit; killing is complete; they can
    always return, except in a deadlock of the terminal host; short and failed tasks.
  \<^item> C15, C17 to C19, C21 to C23: what users see: events found again, output delivered once, exit statuses
    over both backends, the history; and all of a run, from what a process writes to what is printed.
  \<^item> C16, C20, C38: statistics: charts, the recorded history, totals that never shrink.

  Several theorems state a defect of the code as it is (C5, C9, C26, C30, and parts of C8, C13, C15 and
  C18); the manifest lists these and others as findings.

  \<^bold>\<open>Bounds and fuel.\<close> \<open>nextLoop\<close> of the journal reader has fuel \<open>next_fuel\<close>, twice the bytes of the file
  and the system calls that may fail, since each pass consumes one or moves on in the file; the theorems
  on reading show that on the files of the writer it is never exhausted. \<open>drain\<close> takes one more pass
  than there are entries. Waiting for a portable session to come up takes at most 202 passes
  (\<open>waitReady_ends\<close>), the ancestry of a caller at most 12 processes, as in the code. JSON lists are read
  with the length of the text as fuel. Loops that may never end are partial functions into options:
  the retries of a busy database (C33 says exactly when they end), reading the system journal and
  following it, and waiting for a session or an attached client, where \<open>None\<close> means that it goes on.
  The theorems on journal files hold up to 4 GiB, beyond which the code truncates offsets.

  \<^bold>\<open>Not modelled.\<close> The C sources of libvterm and the loading of the module that holds them (zstd, the
  WebAssembly runtime and the table of its host functions); the headers in \<open>cvendor\<close>; the fsnotify
  watcher behind \<open>Wait\<close>, whose events are a parameter; the HTTP server and client of the standard library
  under the control socket, beyond requests, responses and the bytes of an attach; signal handlers and
  debug logging; the shortest text of a float and dates as text, which are parameters; and data races:
  where the code shares a field between goroutines without a lock the model takes each access as one
  step.
\<close>

end
